(* ===== verification/Go_Prelude.thy ===== *)
theory Go_Prelude
  imports Main "HOL-Library.List_Lexorder" "HOL-Library.Char_ord" "HOL-Library.AList"
    "HOL-Library.Monad_Syntax"
begin

text \<open>
  Shared vocabulary of the development: errors and panics as values, slices read and written by a
  Go \<open>int\<close> index, Go maps as association lists, and decimal numerals.

  \<^item> A Go function that returns \<open>(T, error)\<close> is a function into a sum \<open>'e + 'a\<close>, with the error
    on the left.
  \<^item> A Go function that can panic is a function into \<open>'a option\<close>; \<^term>\<open>None\<close> is the panic.
  \<^item> A Go string is a \<^typ>\<open>string\<close>, that is, its list of bytes. \<open>HOL-Library.List_Lexorder\<close> and
    \<open>HOL-Library.Char_ord\<close> make \<open><\<close> on it the bytewise order that Go's \<open><\<close> and \<open>slices.Sort\<close> use.
  \<^item> A Go map is an association list with distinct keys. The order of the list stands for the
    order in which one \<open>range\<close> loop happens to visit the map: a theorem that holds for every such
    list holds for every iteration order.
\<close>

named_theorems go_idx \<open>reading and writing slices by index\<close>
named_theorems go_str \<open>string primitives\<close>
named_theorems go_map \<open>Go maps as association lists\<close>

subsection \<open>Errors\<close>

definition bind_res :: "'e + 'a \<Rightarrow> ('a \<Rightarrow> 'e + 'b) \<Rightarrow> 'e + 'b" where
  "bind_res m f = (case m of Inl e \<Rightarrow> Inl e | Inr a \<Rightarrow> f a)"

lemma bind_res_simps [simp]:
  "bind_res (Inl e) f = Inl e" "bind_res (Inr a) f = f a"
  by (simp_all add: bind_res_def)

lemma bind_res_eq_Inr: "bind_res m f = Inr b \<longleftrightarrow> (\<exists>a. m = Inr a \<and> f a = Inr b)"
  by (cases m) simp_all

subsection \<open>Slices\<close>

definition idx_get :: "'a list \<Rightarrow> int \<Rightarrow> 'a option" where
  "idx_get xs i = (if 0 \<le> i \<and> i < int (length xs) then Some (xs ! nat i) else None)"

definition idx_set :: "'a list \<Rightarrow> int \<Rightarrow> 'a \<Rightarrow> 'a list option" where
  "idx_set xs i x = (if 0 \<le> i \<and> i < int (length xs) then Some (xs[nat i := x]) else None)"

text \<open>\<open>xs[i:j]\<close>: Go panics unless \<open>0 \<le> i \<le> j \<le> len(xs)\<close>.\<close>

definition slice :: "'a list \<Rightarrow> int \<Rightarrow> int \<Rightarrow> 'a list option" where
  "slice xs i j =
     (if 0 \<le> i \<and> i \<le> j \<and> j \<le> int (length xs) then Some (drop (nat i) (take (nat j) xs)) else None)"

lemma idx_get_Some [go_idx]: "0 \<le> i \<Longrightarrow> i < int (length xs) \<Longrightarrow> idx_get xs i = Some (xs ! nat i)"
  by (simp add: idx_get_def)

lemma idx_set_Some [go_idx]:
  "0 \<le> i \<Longrightarrow> i < int (length xs) \<Longrightarrow> idx_set xs i x = Some (xs[nat i := x])"
  by (simp add: idx_set_def)

lemma idx_get_None_iff: "idx_get xs i = None \<longleftrightarrow> i < 0 \<or> int (length xs) \<le> i"
  by (auto simp: idx_get_def)

lemma idx_set_length: "idx_set xs i x = Some ys \<Longrightarrow> length ys = length xs"
  by (auto simp: idx_set_def split: if_splits)

lemma slice_Some [go_idx]:
  "0 \<le> i \<Longrightarrow> i \<le> j \<Longrightarrow> j \<le> int (length xs) \<Longrightarrow> slice xs i j = Some (drop (nat i) (take (nat j) xs))"
  by (simp add: slice_def)

subsection \<open>Go maps\<close>

type_synonym ('k, 'v) gomap = "('k \<times> 'v) list"

abbreviation map_wf :: "('k, 'v) gomap \<Rightarrow> bool" where
  "map_wf m \<equiv> distinct (map fst m)"

abbreviation map_get :: "('k, 'v) gomap \<Rightarrow> 'k \<Rightarrow> 'v option" where
  "map_get m k \<equiv> map_of m k"

abbreviation map_set :: "('k, 'v) gomap \<Rightarrow> 'k \<Rightarrow> 'v \<Rightarrow> ('k, 'v) gomap" where
  "map_set m k v \<equiv> AList.update k v m"

abbreviation map_del :: "('k, 'v) gomap \<Rightarrow> 'k \<Rightarrow> ('k, 'v) gomap" where
  "map_del m k \<equiv> AList.delete k m"

text \<open>\<open>m[k]\<close> in an expression: the zero value for a missing key.\<close>

definition map_get_or :: "('k, 'v) gomap \<Rightarrow> 'k \<Rightarrow> 'v \<Rightarrow> 'v" where
  "map_get_or m k d = (case map_of m k of Some v \<Rightarrow> v | None \<Rightarrow> d)"

lemma map_set_get [go_map, simp]: "map_of (AList.update k v m) k' = (if k' = k then Some v else map_of m k')"
  by (simp add: update_conv)

lemma map_del_get [go_map, simp]: "map_of (AList.delete k m) k' = (if k' = k then None else map_of m k')"
  by (simp add: delete_conv)

lemma map_set_wf [go_map, simp]: "map_wf m \<Longrightarrow> map_wf (AList.update k v m)"
  by (rule distinct_update)

lemma map_del_wf [go_map, simp]: "map_wf m \<Longrightarrow> map_wf (AList.delete k m)"
  by (rule distinct_delete)

lemma map_get_or_set [go_map, simp]:
  "map_get_or (AList.update k v m) k' d = (if k' = k then v else map_get_or m k' d)"
  by (simp add: map_get_or_def)

lemma keys_update [go_map]: "set (map fst (AList.update k v m)) = insert k (set (map fst m))"
  by (induction m) auto

lemma keys_delete [go_map]: "set (map fst (AList.delete k m)) = set (map fst m) - {k}"
  by (induction m) auto

lemma map_of_None_keys: "map_of m k = None \<longleftrightarrow> k \<notin> set (map fst m)"
  by (induction m) auto

subsection \<open>Decimal numerals\<close>

definition is_digit :: "char \<Rightarrow> bool" where
  "is_digit c \<longleftrightarrow> 48 \<le> (of_char c :: nat) \<and> (of_char c :: nat) \<le> 57"

definition digit_val :: "char \<Rightarrow> nat" where
  "digit_val c = of_char c - 48"

definition digit_char :: "nat \<Rightarrow> char" where
  "digit_char n = char_of (48 + n)"

fun itoa :: "nat \<Rightarrow> string" where
  "itoa n = (if n < 10 then [digit_char n] else itoa (n div 10) @ [digit_char (n mod 10)])"

declare itoa.simps [simp del]

definition dec_value :: "string \<Rightarrow> nat" where
  "dec_value s = foldl (\<lambda>a c. a * 10 + digit_val c) 0 s"

definition is_dec :: "string \<Rightarrow> bool" where
  "is_dec s \<longleftrightarrow> s \<noteq> [] \<and> list_all is_digit s"

lemma of_char_digit_char: "n < 10 \<Longrightarrow> of_char (digit_char n) = 48 + n"
  by (simp add: digit_char_def)

lemma is_digit_digit_char [simp]: "n < 10 \<Longrightarrow> is_digit (digit_char n)"
  by (simp add: is_digit_def of_char_digit_char)

lemma digit_val_digit_char [simp]: "n < 10 \<Longrightarrow> digit_val (digit_char n) = n"
  by (simp add: digit_val_def of_char_digit_char)

lemma itoa_is_dec [simp]: "is_dec (itoa n)"
proof (induction n rule: itoa.induct)
  case (1 n)
  then show ?case by (subst itoa.simps) (auto simp: is_dec_def)
qed

lemma itoa_nonempty [simp]: "itoa n \<noteq> []"
  using itoa_is_dec [of n] by (simp add: is_dec_def)

lemma itoa_digits: "c \<in> set (itoa n) \<Longrightarrow> is_digit c"
  using itoa_is_dec [of n] by (auto simp: is_dec_def list_all_iff)

lemma dec_value_snoc: "dec_value (s @ [c]) = dec_value s * 10 + digit_val c"
  by (simp add: dec_value_def)

lemma dec_value_itoa [simp]: "dec_value (itoa n) = n"
proof (induction n rule: itoa.induct)
  case (1 n)
  show ?case
  proof (cases "n < 10")
    case True
    then show ?thesis by (subst itoa.simps) (simp add: dec_value_def)
  next
    case False
    with "1.IH" show ?thesis by (subst itoa.simps) (simp add: dec_value_snoc)
  qed
qed

lemma itoa_inj [simp]: "itoa m = itoa n \<longleftrightarrow> m = n"
  using dec_value_itoa by metis

definition itoa_int :: "int \<Rightarrow> string" where
  "itoa_int i = (if i < 0 then CHR ''-'' # itoa (nat (- i)) else itoa (nat i))"

end
