(* ===== verification/Go_Strings.thy ===== *)
theory Go_Strings
  imports Go_Prelude
begin

text \<open>
  The part of Go's \<open>strings\<close> and \<open>bytes\<close> packages that the modelled code calls, on byte strings,
  with the lemmas that the components share. Separators are single bytes where the code only uses
  single bytes.
\<close>

subsection \<open>Prefixes and suffixes\<close>

fun has_prefix :: "'a list \<Rightarrow> 'a list \<Rightarrow> bool" where
  "has_prefix s [] = True"
| "has_prefix [] (p # ps) = False"
| "has_prefix (s # ss) (p # ps) = (s = p \<and> has_prefix ss ps)"

definition has_suffix :: "'a list \<Rightarrow> 'a list \<Rightarrow> bool" where
  "has_suffix s p = has_prefix (rev s) (rev p)"

definition trim_prefix :: "'a list \<Rightarrow> 'a list \<Rightarrow> 'a list" where
  "trim_prefix s p = (if has_prefix s p then drop (length p) s else s)"

definition trim_suffix :: "'a list \<Rightarrow> 'a list \<Rightarrow> 'a list" where
  "trim_suffix s p = (if has_suffix s p then take (length s - length p) s else s)"

definition cut_prefix :: "'a list \<Rightarrow> 'a list \<Rightarrow> 'a list \<times> bool" where
  "cut_prefix s p = (if has_prefix s p then (drop (length p) s, True) else (s, False))"

definition cut_suffix :: "'a list \<Rightarrow> 'a list \<Rightarrow> 'a list \<times> bool" where
  "cut_suffix s p = (if has_suffix s p then (take (length s - length p) s, True) else (s, False))"

lemma has_prefix_iff: "has_prefix s p \<longleftrightarrow> (\<exists>r. s = p @ r)"
  by (induction s p rule: has_prefix.induct) auto

lemma has_prefix_append [simp]: "has_prefix (p @ r) p"
  by (auto simp: has_prefix_iff)

lemma has_prefix_refl [simp]: "has_prefix p p"
  by (auto simp: has_prefix_iff)

lemma has_prefix_length: "has_prefix s p \<Longrightarrow> length p \<le> length s"
  by (auto simp: has_prefix_iff)

lemma has_prefix_trans: "has_prefix a b \<Longrightarrow> has_prefix b c \<Longrightarrow> has_prefix a c"
  by (auto simp: has_prefix_iff)

lemma has_prefix_same_length:
  "has_prefix s a \<Longrightarrow> has_prefix s b \<Longrightarrow> length a = length b \<Longrightarrow> a = b"
  by (auto simp: has_prefix_iff)

lemma has_suffix_iff: "has_suffix s p \<longleftrightarrow> (\<exists>r. s = r @ p)"
  unfolding has_suffix_def has_prefix_iff
  by (metis rev_append rev_rev_ident)

lemma has_suffix_append [simp]: "has_suffix (r @ p) p"
  by (auto simp: has_suffix_iff)

lemma trim_prefix_append [simp]: "trim_prefix (p @ r) p = r"
  by (simp add: trim_prefix_def)

lemma trim_suffix_append [simp]: "trim_suffix (r @ p) p = r"
  by (simp add: trim_suffix_def)

lemma trim_prefix_id: "\<not> has_prefix s p \<Longrightarrow> trim_prefix s p = s"
  by (simp add: trim_prefix_def)

subsection \<open>Bytes: index, cut, count\<close>

fun index_byte :: "'a list \<Rightarrow> 'a \<Rightarrow> nat option" where
  "index_byte [] c = None"
| "index_byte (x # xs) c = (if x = c then Some 0 else map_option Suc (index_byte xs c))"

definition cut_byte :: "'a list \<Rightarrow> 'a \<Rightarrow> 'a list \<times> 'a list \<times> bool" where
  "cut_byte s c = (case index_byte s c of
       Some i \<Rightarrow> (take i s, drop (Suc i) s, True)
     | None \<Rightarrow> (s, [], False))"

definition last_index_byte :: "'a list \<Rightarrow> 'a \<Rightarrow> int" where
  "last_index_byte s c = (case index_byte (rev s) c of
       Some i \<Rightarrow> int (length s) - 1 - int i | None \<Rightarrow> - 1)"

lemma index_byte_None [go_str]: "index_byte s c = None \<longleftrightarrow> c \<notin> set s"
  by (induction s) auto

lemma index_byte_append [go_str]: "c \<notin> set p \<Longrightarrow> index_byte (p @ c # r) c = Some (length p)"
  by (induction p) auto

lemma index_byte_SomeE:
  assumes "index_byte s c = Some i"
  obtains p r where "s = p @ c # r" "c \<notin> set p" "length p = i"
proof -
  have "\<exists>p r. s = p @ c # r \<and> c \<notin> set p \<and> length p = i"
    using assms
  proof (induction s arbitrary: i)
    case Nil
    then show ?case by simp
  next
    case (Cons x xs)
    show ?case
    proof (cases "x = c")
      case True
      with Cons.prems show ?thesis by (intro exI [of _ "[]"] exI [of _ xs]) auto
    next
      case False
      with Cons.prems obtain j where j: "index_byte xs c = Some j" "i = Suc j" by auto
      with Cons.IH obtain p r where "xs = p @ c # r" "c \<notin> set p" "length p = j" by blast
      with False j show ?thesis by (intro exI [of _ "x # p"] exI [of _ r]) auto
    qed
  qed
  with that show ?thesis by blast
qed

lemma cut_byte_found [go_str]: "c \<notin> set p \<Longrightarrow> cut_byte (p @ c # r) c = (p, r, True)"
  by (simp add: cut_byte_def index_byte_append)

lemma cut_byte_absent [go_str]: "c \<notin> set s \<Longrightarrow> cut_byte s c = (s, [], False)"
  by (simp add: cut_byte_def index_byte_None [THEN iffD2])

lemma index_byte_bound: "index_byte s c = Some i \<Longrightarrow> i < length s"
  by (elim index_byte_SomeE) auto

lemma cut_byte_shorter: "cut_byte s c = (a, b, True) \<Longrightarrow> length b < length s"
  by (auto simp: cut_byte_def split: option.splits dest!: index_byte_bound)

subsection \<open>Substrings\<close>

fun str_index :: "'a list \<Rightarrow> 'a list \<Rightarrow> nat option" where
  "str_index [] sub = (if sub = [] then Some 0 else None)"
| "str_index (x # xs) sub =
     (if has_prefix (x # xs) sub then Some 0 else map_option Suc (str_index xs sub))"

definition str_contains :: "'a list \<Rightarrow> 'a list \<Rightarrow> bool" where
  "str_contains s sub \<longleftrightarrow> str_index s sub \<noteq> None"

lemma str_index_Some_bound: "str_index s sub = Some i \<Longrightarrow> i + length sub \<le> length s"
proof (induction s arbitrary: i)
  case Nil
  then show ?case by (auto split: if_splits)
next
  case (Cons x xs)
  then show ?case by (auto split: if_splits dest: has_prefix_length)
qed

lemma str_index_single: "str_index s [c] = index_byte s c"
  by (induction s) auto

subsection \<open>Split and join\<close>

fun split_byte :: "'a \<Rightarrow> 'a list \<Rightarrow> 'a list list" where
  "split_byte c [] = [[]]"
| "split_byte c (x # xs) =
     (if x = c then [] # split_byte c xs
      else (case split_byte c xs of [] \<Rightarrow> [[x]] | y # ys \<Rightarrow> (x # y) # ys))"

fun join_str :: "'a list \<Rightarrow> 'a list list \<Rightarrow> 'a list" where
  "join_str sep [] = []"
| "join_str sep [x] = x"
| "join_str sep (x # y # ys) = x @ sep @ join_str sep (y # ys)"

lemma split_byte_nonempty [simp]: "split_byte c s \<noteq> []"
  by (induction s) (auto split: list.splits)

lemma join_str_Cons: "xs \<noteq> [] \<Longrightarrow> join_str sep (x # xs) = x @ sep @ join_str sep xs"
  by (cases xs) auto

lemma join_split [simp]: "join_str [c] (split_byte c s) = s"
proof (induction s)
  case Nil
  then show ?case by simp
next
  case (Cons x xs)
  obtain y ys where ys: "split_byte c xs = y # ys"
    by (cases "split_byte c xs") auto
  with Cons show ?case
    by (cases ys) (auto simp: join_str_Cons)
qed

lemma join_str_append:
  "xs \<noteq> [] \<Longrightarrow> ys \<noteq> [] \<Longrightarrow> join_str s (xs @ ys) = join_str s xs @ s @ join_str s ys"
proof (induction xs)
  case Nil
  then show ?case by simp
next
  case (Cons x xs)
  then show ?case by (cases "xs = []") (simp_all add: join_str_Cons)
qed

lemma split_byte_free: "y \<in> set (split_byte c s) \<Longrightarrow> c \<notin> set y"
proof (induction s arbitrary: y)
  case Nil
  then show ?case by simp
next
  case (Cons x xs)
  then show ?case
    by (cases "split_byte c xs") (auto split: if_splits)
qed

lemma split_byte_no_sep: "c \<notin> set s \<Longrightarrow> split_byte c s = [s]"
  by (induction s) auto

lemma split_byte_append: "c \<notin> set p \<Longrightarrow> split_byte c (p @ c # r) = p # split_byte c r"
  by (induction p) auto

lemma split_byte_sep: "split_byte c (a @ c # b) = split_byte c a @ split_byte c b"
proof (induction a)
  case Nil
  then show ?case by simp
next
  case (Cons x xs)
  then show ?case by (cases "split_byte c xs") auto
qed

lemma split_join:
  "xs \<noteq> [] \<Longrightarrow> (\<And>x. x \<in> set xs \<Longrightarrow> c \<notin> set x) \<Longrightarrow> split_byte c (join_str [c] xs) = xs"
proof (induction xs)
  case Nil
  then show ?case by simp
next
  case (Cons x xs)
  then show ?case
    by (cases xs) (auto simp: split_byte_no_sep split_byte_append)
qed

lemma length_split_byte: "length (split_byte c s) = Suc (count_list s c)"
proof (induction s)
  case Nil
  then show ?case by simp
next
  case (Cons x xs)
  then show ?case by (cases "split_byte c xs") auto
qed

subsection \<open>Replacement\<close>

text \<open>\<open>strings.ReplaceAll(s, old, new)\<close> for a non-empty \<open>old\<close>, the only way the code calls it.\<close>

function replace_all :: "'a list \<Rightarrow> 'a list \<Rightarrow> 'a list \<Rightarrow> 'a list" where
  "replace_all old new s =
     (if s = [] \<or> old = [] then s
      else if has_prefix s old then new @ replace_all old new (drop (length old) s)
      else hd s # replace_all old new (tl s))"
  by pat_completeness auto
termination
  by (relation "measure (\<lambda>(old, new, s). length s)") (auto simp: neq_Nil_conv)

declare replace_all.simps [simp del]

lemma replace_all_Nil [simp]: "replace_all old new [] = []"
  by (subst replace_all.simps) simp

lemma replace_all_byte_Cons:
  "replace_all [c] new (x # xs) = (if x = c then new else [x]) @ replace_all [c] new xs"
  by (subst replace_all.simps) simp

lemma replace_all_byte: "replace_all [c] new s = concat (map (\<lambda>x. if x = c then new else [x]) s)"
  by (induction s) (auto simp: replace_all_byte_Cons)

subsection \<open>White space\<close>

definition is_space :: "char \<Rightarrow> bool" where
  "is_space c \<longleftrightarrow> (of_char c :: nat) \<in> {9, 10, 11, 12, 13, 32}"

text \<open>\<open>strings.TrimSpace\<close> on ASCII text.\<close>

definition trim_space :: "string \<Rightarrow> string" where
  "trim_space s = rev (dropWhile is_space (rev (dropWhile is_space s)))"

text \<open>\<open>strings.Trim(s, cutset)\<close> for a one-byte cutset.\<close>

definition trim_byte :: "'a list \<Rightarrow> 'a \<Rightarrow> 'a list" where
  "trim_byte s c = rev (dropWhile (\<lambda>x. x = c) (rev (dropWhile (\<lambda>x. x = c) s)))"

end
