(* ===== verification/Semver.thy ===== *)
theory Semver
  imports Go_Strings "HOL-Library.Product_Lexorder"
begin

text \<open>
  \<open>internal/semver/semver.go\<close>: semantic versions, their parser, printer and precedence.

  A \<open>Version\<close> is the record \<open>version\<close>. \<open>parse_version\<close> and \<open>version_string\<close> are \<open>Parse\<close> and
  \<open>String\<close>; \<open>compare_version\<close> is \<open>Compare\<close>, whose loop is a \<open>partial_function\<close>, so that a
  comparison that never returns is \<^term>\<open>None\<close>. \<open>outil.Atoi\<close> belongs to OPA and is the parameter
  \<open>atoi\<close>. The abstract side is \<open>version_key\<close>, a value of a linearly ordered type that orders
  versions as the SemVer specification does.
\<close>

section \<open>Data\<close>

record version =
  Major :: int
  Minor :: int
  Patch :: int
  PreRelease :: string
  Metadata :: string

datatype semver_error =
    InvalidMetadata string
  | InvalidPreRelease string
  | WrongShape string
  | SyntaxErr string
  | RangeErr string

section \<open>Operations\<close>

text \<open>\<open>cut\<close>: no found flag.\<close>

definition semver_cut :: "string \<Rightarrow> char \<Rightarrow> string \<times> string" where
  "semver_cut s sep = (case index_byte s sep of
       Some i \<Rightarrow> (take i s, drop (i + 1) s)
     | None \<Rightarrow> (s, ''''))"

text \<open>\<open>reMetaIdentifier\<close>: dot-separated non-empty runs of \<open>[0-9A-Za-z-]\<close>.\<close>

definition ident_char :: "char \<Rightarrow> bool" where
  "ident_char c \<longleftrightarrow> is_digit c \<or> (65 \<le> (of_char c :: nat) \<and> (of_char c :: nat) \<le> 90)
     \<or> (97 \<le> (of_char c :: nat) \<and> (of_char c :: nat) \<le> 122) \<or> c = CHR ''-''"

definition meta_identifier :: "string \<Rightarrow> bool" where
  "meta_identifier s = list_all (\<lambda>seg. seg \<noteq> [] \<and> list_all ident_char seg) (split_byte CHR ''.'' s)"

text \<open>\<open>strconv.ParseInt(s, 10, 64)\<close>: an optional sign, then decimal digits, in the range of
  \<open>int64\<close>.\<close>

definition parse_int64 :: "string \<Rightarrow> semver_error + int" where
  "parse_int64 s =
     (let (neg, ds) = (case s of [] \<Rightarrow> (False, [])
                       | c # cs \<Rightarrow> if c = CHR ''-'' then (True, cs)
                                   else if c = CHR ''+'' then (False, cs) else (False, s))
      in if \<not> is_dec ds then Inl (SyntaxErr s)
         else let n = (if neg then - int (dec_value ds) else int (dec_value ds))
              in if - (2 ^ 63) \<le> n \<and> n < 2 ^ 63 then Inr n else Inl (RangeErr s))"

definition parse_version :: "string \<Rightarrow> semver_error + version" where
  "parse_version version =
     (let version = trim_prefix version ''v'';
          (version, metadata) = semver_cut version CHR ''+''
      in if metadata \<noteq> '''' \<and> \<not> meta_identifier metadata then Inl (InvalidMetadata metadata)
      else let (version, prerelease) = semver_cut version CHR ''-''
      in if prerelease \<noteq> '''' \<and> \<not> meta_identifier prerelease then Inl (InvalidPreRelease prerelease)
      else if count_list version CHR ''.'' \<noteq> 2 then Inl (WrongShape version)
      else let (major, after) = semver_cut version CHR ''.''
      in bind_res (parse_int64 major) (\<lambda>ma.
         let (minor, after) = semver_cut after CHR ''.''
         in bind_res (parse_int64 minor) (\<lambda>mi.
            bind_res (parse_int64 after) (\<lambda>pa.
              Inr \<lparr>Major = ma, Minor = mi, Patch = pa, PreRelease = prerelease,
                   Metadata = metadata\<rparr>))))"

text \<open>\<open>MustParse\<close>: an invalid version string panics.\<close>

definition must_parse :: "string \<Rightarrow> version option" where
  "must_parse version = (case parse_version version of Inl e \<Rightarrow> None | Inr v \<Rightarrow> Some v)"

text \<open>\<open>AppendText\<close> and \<open>String\<close>.\<close>

definition append_text :: "version \<Rightarrow> string \<Rightarrow> string" where
  "append_text v b =
     b @ itoa_int (Major v) @ ''.'' @ itoa_int (Minor v) @ ''.'' @ itoa_int (Patch v)
       @ (if PreRelease v \<noteq> '''' then ''-'' @ PreRelease v else '''')
       @ (if Metadata v \<noteq> '''' then ''+'' @ Metadata v else '''')"

definition version_string :: "version \<Rightarrow> string" where
  "version_string v = append_text v ''''"

definition is_all_decimals :: "string \<Rightarrow> bool" where
  "is_all_decimals s \<longleftrightarrow> (\<forall>r\<in>set s. is_digit r) \<and> s \<noteq> ''''"

text \<open>The loop of \<open>Compare\<close>; the identifiers in front and what is left of the two pre-releases are
  its state.\<close>

partial_function (option) compare_pre ::
    "(string \<Rightarrow> int) \<Rightarrow> string \<Rightarrow> string \<Rightarrow> string \<Rightarrow> string \<Rightarrow> int option" where
  "compare_pre atoi a afterA b afterB =
     (if a = '''' \<and> b \<noteq> '''' then Some (- 1)
      else if a \<noteq> '''' \<and> b = '''' then Some 1
      else if is_all_decimals a \<and> \<not> is_all_decimals b then Some (- 1)
      else if \<not> is_all_decimals a \<and> is_all_decimals b then Some 1
      else if is_all_decimals a \<and> is_all_decimals b \<and> atoi a > atoi b then Some 1
      else if is_all_decimals a \<and> is_all_decimals b \<and> atoi a < atoi b then Some (- 1)
      else if \<not> (is_all_decimals a \<and> is_all_decimals b) \<and> a > b then Some 1
      else if \<not> (is_all_decimals a \<and> is_all_decimals b) \<and> a < b then Some (- 1)
      else if afterA \<noteq> '''' \<and> afterB = '''' then Some 1
      else if afterA = '''' \<and> afterB \<noteq> '''' then Some (- 1)
      else compare_pre atoi (fst (semver_cut afterA CHR ''.'')) (snd (semver_cut afterA CHR ''.''))
             (fst (semver_cut afterB CHR ''.'')) (snd (semver_cut afterB CHR ''.'')))"

declare compare_pre.simps [code]

definition compare_version :: "(string \<Rightarrow> int) \<Rightarrow> version \<Rightarrow> version \<Rightarrow> int option" where
  "compare_version atoi v other =
     (if Major v > Major other then Some 1
      else if Major v < Major other then Some (- 1)
      else if Minor v > Minor other then Some 1
      else if Minor v < Minor other then Some (- 1)
      else if Patch v > Patch other then Some 1
      else if Patch v < Patch other then Some (- 1)
      else if PreRelease v = PreRelease other then Some 0
      else if PreRelease v = '''' \<and> PreRelease other \<noteq> '''' then Some 1
      else if PreRelease other = '''' \<and> PreRelease v \<noteq> '''' then Some (- 1)
      else compare_pre atoi (fst (semver_cut (PreRelease v) CHR ''.''))
             (snd (semver_cut (PreRelease v) CHR ''.''))
             (fst (semver_cut (PreRelease other) CHR ''.''))
             (snd (semver_cut (PreRelease other) CHR ''.'')))"

section \<open>Parsing and printing\<close>

text \<open>What the parser promises of its result.\<close>

definition version_wf :: "version \<Rightarrow> bool" where
  "version_wf v \<longleftrightarrow> 0 \<le> Major v \<and> Major v < 2 ^ 63 \<and> 0 \<le> Minor v \<and> Minor v < 2 ^ 63
     \<and> 0 \<le> Patch v \<and> Patch v < 2 ^ 63
     \<and> (PreRelease v \<noteq> '''' \<longrightarrow> meta_identifier (PreRelease v))
     \<and> (Metadata v \<noteq> '''' \<longrightarrow> meta_identifier (Metadata v))"

lemma semver_cut_found [simp]: "c \<notin> set p \<Longrightarrow> semver_cut (p @ c # r) c = (p, r)"
  by (simp add: semver_cut_def index_byte_append)

lemma semver_cut_absent [simp]: "c \<notin> set s \<Longrightarrow> semver_cut s c = (s, [])"
  by (simp add: semver_cut_def index_byte_None [THEN iffD2])

lemma semver_cut_optional: "c \<notin> set p \<Longrightarrow> semver_cut (p @ (if r \<noteq> [] then c # r else [])) c = (p, r)"
  by simp

lemma semver_cut_cases:
  obtains "c \<notin> set s" "semver_cut s c = (s, [])"
  | p r where "s = p @ c # r" "c \<notin> set p" "semver_cut s c = (p, r)"
proof (cases "index_byte s c")
  case None
  with that(1) show ?thesis by (simp add: index_byte_None)
next
  case (Some i)
  then show ?thesis by (elim index_byte_SomeE) (use that(2) in auto)
qed

lemma is_digit_ranges: "is_digit c \<Longrightarrow> c \<noteq> CHR ''-'' \<and> c \<noteq> CHR ''+'' \<and> c \<noteq> CHR ''.'' \<and> c \<noteq> CHR ''v''"
  by (auto simp: is_digit_def)

lemma ident_char_ranges: "ident_char c \<Longrightarrow> c \<noteq> CHR ''+'' \<and> c \<noteq> CHR ''.''"
  by (auto simp: ident_char_def is_digit_def)

lemma itoa_free [simp]:
  "CHR ''-'' \<notin> set (itoa n)" "CHR ''+'' \<notin> set (itoa n)" "CHR ''.'' \<notin> set (itoa n)"
  using itoa_digits [of _ n] is_digit_ranges by blast+

lemma itoa_int_nonneg: "0 \<le> i \<Longrightarrow> itoa_int i = itoa (nat i)"
  by (simp add: itoa_int_def)

lemma itoa_cases: obtains c cs where "itoa n = c # cs" "is_digit c"
  using itoa_nonempty [of n] itoa_digits [of _ n] by (cases "itoa n") auto

lemma parse_int64_itoa [simp]:
  assumes "n < 2 ^ 63" shows "parse_int64 (itoa n) = Inr (int n)"
proof -
  obtain c cs where c: "itoa n = c # cs" "is_digit c" by (rule itoa_cases)
  have n: "int n < 2 ^ 63" using assms by simp
  have s: "(case itoa n of [] \<Rightarrow> (False, []) | c # cs \<Rightarrow> if c = CHR ''-'' then (True, cs)
             else if c = CHR ''+'' then (False, cs) else (False, itoa n)) = (False, itoa n)"
    using c is_digit_ranges [OF c(2)] by simp
  show ?thesis unfolding parse_int64_def s using n by simp
qed

lemma parse_int64_unsigned:
  assumes "parse_int64 s = Inr n" "CHR ''-'' \<notin> set s" "CHR ''+'' \<notin> set s"
  shows "0 \<le> n \<and> n < 2 ^ 63 \<and> is_dec s \<and> n = int (dec_value s)"
  using assms by (cases s) (auto simp: parse_int64_def Let_def split: if_splits)

lemma meta_identifier_free: "meta_identifier s \<Longrightarrow> CHR ''+'' \<notin> set s"
proof
  assume m: "meta_identifier s" and p: "CHR ''+'' \<in> set s"
  have "CHR ''+'' \<in> set (join_str ''.'' (split_byte CHR ''.'' s))" using p by simp
  moreover have "set (join_str sep xs) \<subseteq> set sep \<union> \<Union> (set ` set xs)" for sep :: string and xs
    by (induction sep xs rule: join_str.induct) auto
  ultimately have "\<exists>seg\<in>set (split_byte CHR ''.'' s). CHR ''+'' \<in> set seg" by fastforce
  with m show False by (auto simp: meta_identifier_def list_all_iff dest!: ident_char_ranges)
qed

lemma parse_version_wf:
  assumes "parse_version s = Inr v" shows "version_wf v"
proof -
  let ?s = "trim_prefix s ''v''"
  obtain s1 metadata where c1: "semver_cut ?s CHR ''+'' = (s1, metadata)" by force
  then have f1: "CHR ''+'' \<notin> set s1" by (cases rule: semver_cut_cases [of "CHR ''+''" ?s]) auto
  obtain s2 prerelease where c2: "semver_cut s1 CHR ''-'' = (s2, prerelease)" by force
  then have f2: "CHR ''-'' \<notin> set s2" "CHR ''+'' \<notin> set s2"
    using f1 by (cases rule: semver_cut_cases [of "CHR ''-''" s1]; auto)+
  obtain ma after where c3: "semver_cut s2 CHR ''.'' = (ma, after)" by force
  then have f3: "CHR ''-'' \<notin> set ma \<union> set after" "CHR ''+'' \<notin> set ma \<union> set after"
    using f2 by (cases rule: semver_cut_cases [of "CHR ''.''" s2]; auto)+
  obtain mi pa where c4: "semver_cut after CHR ''.'' = (mi, pa)" by force
  then have f4: "CHR ''-'' \<notin> set mi \<union> set pa" "CHR ''+'' \<notin> set mi \<union> set pa"
    using f3 by (cases rule: semver_cut_cases [of "CHR ''.''" after]; auto)+
  show ?thesis
    using assms f3 f4 unfolding parse_version_def Let_def c1 prod.case c2 c3 c4
    by (auto simp: version_wf_def bind_res_eq_Inr Let_def dest!: parse_int64_unsigned split: if_splits)
qed

lemma count_list_absent: "c \<notin> set s \<Longrightarrow> count_list s c = 0"
  by (induction s) auto

text \<open>C3. Printing a well-formed version and parsing the text gives the version back: every
  component, pre-release and metadata survives the round trip.\<close>

theorem parse_version_string:
  assumes "version_wf v" shows "parse_version (version_string v) = Inr v"
proof -
  let ?ma = "itoa (nat (Major v))" and ?mi = "itoa (nat (Minor v))" and ?pa = "itoa (nat (Patch v))"
  let ?pre = "if PreRelease v \<noteq> '''' then CHR ''-'' # PreRelease v else ''''"
  let ?core = "?ma @ CHR ''.'' # ?mi @ CHR ''.'' # ?pa"
  let ?meta = "if Metadata v \<noteq> '''' then CHR ''+'' # Metadata v else ''''"
  have pos: "0 \<le> Major v" "0 \<le> Minor v" "0 \<le> Patch v" using assms by (auto simp: version_wf_def)
  have b: "nat (Major v) < 2 ^ 63" "nat (Minor v) < 2 ^ 63" "nat (Patch v) < 2 ^ 63"
    using assms by (auto simp: version_wf_def)
  have s: "version_string v = (?core @ ?pre) @ ?meta"
    using pos by (auto simp: version_string_def append_text_def itoa_int_nonneg)
  obtain c cs where hd: "?ma = c # cs" "is_digit c" by (rule itoa_cases)
  have t: "trim_prefix (version_string v) ''v'' = (?core @ ?pre) @ ?meta"
    using hd is_digit_ranges [OF hd(2)] by (auto simp: s trim_prefix_def)
  have free: "CHR ''+'' \<notin> set (?core @ ?pre)"
    using assms meta_identifier_free by (auto simp: version_wf_def)
  have c1: "semver_cut ((?core @ ?pre) @ ?meta) CHR ''+'' = (?core @ ?pre, Metadata v)"
    by (rule semver_cut_optional [OF free])
  have free2: "CHR ''-'' \<notin> set ?core" by auto
  have c2: "semver_cut (?core @ ?pre) CHR ''-'' = (?core, PreRelease v)"
    by (rule semver_cut_optional [OF free2])
  have c3: "semver_cut ?core CHR ''.'' = (?ma, ?mi @ CHR ''.'' # ?pa)"
    "semver_cut (?mi @ CHR ''.'' # ?pa) CHR ''.'' = (?mi, ?pa)" by simp_all
  have n: "count_list ?core CHR ''.'' = 2" by (simp add: count_list_absent)
  show ?thesis
    unfolding parse_version_def t Let_def c1 prod.case c2 c3 n
    using assms pos b by (auto simp: version_wf_def)
qed

lemma parse_version_string_witness:
  "parse_version (version_string
     \<lparr>Major = 1, Minor = 20, Patch = 0, PreRelease = ''rc.1'', Metadata = ''b-7''\<rparr>)
   = Inr \<lparr>Major = 1, Minor = 20, Patch = 0, PreRelease = ''rc.1'', Metadata = ''b-7''\<rparr>"
  by (rule parse_version_string)
    (simp add: version_wf_def meta_identifier_def ident_char_def is_digit_def)

section \<open>Precedence\<close>

text \<open>The order of the SemVer specification, item 11, as a linear order: numeric identifiers by
  value and below the alphanumeric ones, which are ordered as text.\<close>

datatype ident = NumId nat | TextId string

instantiation ident :: linorder
begin

fun less_eq_ident :: "ident \<Rightarrow> ident \<Rightarrow> bool" where
  "less_eq_ident (NumId m) (NumId n) = (m \<le> n)"
| "less_eq_ident (NumId m) (TextId t) = True"
| "less_eq_ident (TextId s) (NumId n) = False"
| "less_eq_ident (TextId s) (TextId t) = (s \<le> t)"

definition less_ident :: "ident \<Rightarrow> ident \<Rightarrow> bool" where
  "less_ident i j \<longleftrightarrow> i \<le> j \<and> \<not> j \<le> i"

instance
proof
  fix i j k :: ident
  show "i \<le> i" by (cases i) auto
  show "i \<le> j \<Longrightarrow> j \<le> k \<Longrightarrow> i \<le> k" by (cases i; cases j; cases k) auto
  show "i \<le> j \<Longrightarrow> j \<le> i \<Longrightarrow> i = j" by (cases i; cases j) auto
  show "i \<le> j \<or> j \<le> i" by (cases i; cases j) auto
qed (simp add: less_ident_def)

end

lemma less_ident_simps [simp]:
  "NumId m < NumId n \<longleftrightarrow> m < n" "NumId m < TextId t" "\<not> TextId s < NumId n"
  "TextId s < TextId t \<longleftrightarrow> s < t"
  by (auto simp: less_ident_def)

definition ident_of :: "string \<Rightarrow> ident" where
  "ident_of s = (if is_all_decimals s then NumId (dec_value s) else TextId s)"

definition version_key :: "version \<Rightarrow> int \<times> int \<times> int \<times> bool \<times> ident list" where
  "version_key v = (Major v, Minor v, Patch v, PreRelease v = '''',
     if PreRelease v = '''' then [] else map ident_of (split_byte CHR ''.'' (PreRelease v)))"

definition sign_of_cmp :: "'a::linorder \<Rightarrow> 'a \<Rightarrow> int" where
  "sign_of_cmp x y = (if x < y then - 1 else if x = y then 0 else 1)"

text \<open>An identifier the specification allows: not empty, and without leading zeros (and in the range
  of \<open>int64\<close>) when numeric.\<close>

definition ident_canonical :: "string \<Rightarrow> bool" where
  "ident_canonical s \<longleftrightarrow>
     s \<noteq> '''' \<and> (is_all_decimals s \<longrightarrow> s = itoa (dec_value s) \<and> dec_value s < 2 ^ 63)"

definition pre_canonical :: "string \<Rightarrow> bool" where
  "pre_canonical p \<longleftrightarrow> p = '''' \<or> list_all ident_canonical (split_byte CHR ''.'' p)"

definition atoi_ok :: "(string \<Rightarrow> int) \<Rightarrow> bool" where
  "atoi_ok atoi \<longleftrightarrow> (\<forall>n < 2 ^ 63. atoi (itoa n) = int n)"

lemma ident_canonical_nonempty: "ident_canonical x \<Longrightarrow> x \<noteq> ''''"
  by (simp add: ident_canonical_def)

lemma ident_of_inj: "ident_canonical x \<Longrightarrow> ident_canonical y \<Longrightarrow> ident_of x = ident_of y \<longleftrightarrow> x = y"
  by (auto simp: ident_of_def ident_canonical_def split: if_splits)

lemma atoi_canonical:
  "atoi_ok atoi \<Longrightarrow> ident_canonical x \<Longrightarrow> is_all_decimals x \<Longrightarrow> atoi x = int (dec_value x)"
  by (metis atoi_ok_def ident_canonical_def)

lemma join_Nil_iff: "list_all ident_canonical xs \<Longrightarrow> join_str sep xs = [] \<longleftrightarrow> xs = []"
  by (cases "(sep, xs)" rule: join_str.cases) (auto simp: ident_canonical_def)

lemma cut_join:
  "(\<And>x. x \<in> set (y # ys) \<Longrightarrow> CHR ''.'' \<notin> set x) \<Longrightarrow>
     semver_cut (join_str ''.'' (y # ys)) CHR ''.'' = (y, join_str ''.'' ys)"
  by (cases ys) auto

text \<open>One turn of the loop whose identifiers in front differ, and one whose are the same.\<close>

lemma compare_pre_differ:
  assumes "atoi_ok atoi" "ident_canonical a" "ident_canonical b" "a \<noteq> b"
  shows "compare_pre atoi a aa b bb = Some (if ident_of a < ident_of b then - 1 else 1)"
  using assms atoi_canonical [OF assms(1,2)] atoi_canonical [OF assms(1,3)] ident_of_inj [OF assms(2,3)]
  by (subst compare_pre.simps) (auto simp: ident_of_def ident_canonical_def)

lemma compare_pre_same:
  "a \<noteq> '''' \<Longrightarrow> compare_pre atoi a aa a bb =
     (if aa \<noteq> '''' \<and> bb = '''' then Some 1 else if aa = '''' \<and> bb \<noteq> '''' then Some (- 1)
      else compare_pre atoi (fst (semver_cut aa CHR ''.'')) (snd (semver_cut aa CHR ''.''))
             (fst (semver_cut bb CHR ''.'')) (snd (semver_cut bb CHR ''.'')))"
  by (subst compare_pre.simps) auto

lemma compare_pre_key:
  assumes "atoi_ok atoi"
  shows "list_all ident_canonical (x # xs) \<Longrightarrow> list_all ident_canonical (y # ys) \<Longrightarrow>
    (\<And>z. z \<in> set (x # xs) \<union> set (y # ys) \<Longrightarrow> CHR ''.'' \<notin> set z) \<Longrightarrow> x # xs \<noteq> y # ys \<Longrightarrow>
    compare_pre atoi x (join_str ''.'' xs) y (join_str ''.'' ys)
      = Some (if map ident_of (x # xs) < map ident_of (y # ys) then - 1 else 1)"
proof (induction xs arbitrary: x y ys)
  case Nil
  then show ?case
  proof (cases "x = y")
    case True
    with Nil have "x \<noteq> ''''" "ys \<noteq> []" "join_str ''.'' ys \<noteq> ''''"
      using join_Nil_iff [of ys "''.''"] ident_canonical_nonempty [of x] by auto
    with True compare_pre_same [of x atoi "''''" "join_str ''.'' ys"] show ?thesis
      by (cases ys) simp_all
  next
    case False
    with Nil show ?thesis
      using ident_of_inj [of x y] by (simp add: compare_pre_differ [OF assms])
  qed
next
  case (Cons x' xs')
  show ?case
  proof (cases "x = y")
    case False
    with Cons.prems show ?thesis
      using ident_of_inj [of x y] by (simp add: compare_pre_differ [OF assms])
  next
    case True
    note xe = this
    have xn: "x \<noteq> ''''" using Cons.prems by (simp add: ident_canonical_def)
    have xj: "join_str ''.'' (x' # xs') \<noteq> ''''"
      using join_Nil_iff [of "x' # xs'" "''.''"] Cons.prems by simp
    show ?thesis
    proof (cases ys)
      case Nil
      with xe xn xj show ?thesis by (simp add: compare_pre_same)
    next
      case ys: (Cons y' ys')
      have yj: "join_str ''.'' (y' # ys') \<noteq> ''''"
        using join_Nil_iff [of "y' # ys'" "''.''"] Cons.prems ys by simp
      have cx: "semver_cut (join_str ''.'' (x' # xs')) CHR ''.'' = (x', join_str ''.'' xs')"
        by (rule cut_join) (use Cons.prems in auto)
      have cy: "semver_cut (join_str ''.'' (y' # ys')) CHR ''.'' = (y', join_str ''.'' ys')"
        by (rule cut_join) (use Cons.prems ys in auto)
      have "compare_pre atoi x' (join_str ''.'' xs') y' (join_str ''.'' ys')
          = Some (if map ident_of (x' # xs') < map ident_of (y' # ys') then - 1 else 1)"
        by (rule Cons.IH) (use Cons.prems ys xe in auto)
      with xe xn xj yj cx cy ys show ?thesis by (simp add: compare_pre_same)
    qed
  qed
qed

lemma split_join_cut:
  obtains x xs where "split_byte CHR ''.'' p = x # xs"
    "semver_cut p CHR ''.'' = (x, join_str ''.'' xs)"
proof -
  obtain x xs where s: "split_byte CHR ''.'' p = x # xs" by (cases "split_byte CHR ''.'' p") auto
  have "semver_cut (join_str ''.'' (x # xs)) CHR ''.'' = (x, join_str ''.'' xs)"
    by (rule cut_join) (use split_byte_free [of _ "CHR ''.''" p] s in auto)
  with s that show ?thesis using join_split [of "CHR ''.''" p] by metis
qed

lemma map_ident_of_inj:
  "list_all ident_canonical xs \<Longrightarrow> list_all ident_canonical ys \<Longrightarrow>
     map ident_of xs = map ident_of ys \<longleftrightarrow> xs = ys"
proof (induction xs arbitrary: ys)
  case Nil
  then show ?case by auto
next
  case (Cons x xs)
  then show ?case by (cases ys) (auto simp: ident_of_inj)
qed

text \<open>C4. Refinement: on versions whose pre-releases are valid by the specification, \<open>Compare\<close>
  returns, and what it returns is the sign of the specification's linear order on their precedence
  keys. It is therefore total, antisymmetric and transitive, and ignores build metadata.\<close>

theorem compare_version_refines:
  assumes "atoi_ok atoi" "pre_canonical (PreRelease v)" "pre_canonical (PreRelease w)"
  shows "compare_version atoi v w = Some (sign_of_cmp (version_key v) (version_key w))"
proof (cases "PreRelease v = '''' \<or> PreRelease w = '''' \<or> PreRelease v = PreRelease w")
  case True
  then show ?thesis
    by (auto simp: compare_version_def sign_of_cmp_def version_key_def)
next
  case False
  obtain x xs where x: "split_byte CHR ''.'' (PreRelease v) = x # xs"
    "semver_cut (PreRelease v) CHR ''.'' = (x, join_str ''.'' xs)" by (rule split_join_cut)
  obtain y ys where y: "split_byte CHR ''.'' (PreRelease w) = y # ys"
    "semver_cut (PreRelease w) CHR ''.'' = (y, join_str ''.'' ys)" by (rule split_join_cut)
  have ne: "x # xs \<noteq> y # ys" using False x y join_split by metis
  have can: "list_all ident_canonical (x # xs)" "list_all ident_canonical (y # ys)"
    using assms x y False by (auto simp: pre_canonical_def)
  have "CHR ''.'' \<notin> set z" if "z \<in> set (x # xs) \<union> set (y # ys)" for z
    using that x y split_byte_free [of z "CHR ''.''"] by (metis UnE)
  then have "compare_pre atoi x (join_str ''.'' xs) y (join_str ''.'' ys)
      = Some (if map ident_of (x # xs) < map ident_of (y # ys) then - 1 else 1)"
    by (rule compare_pre_key [OF assms(1) can _ ne])
  with False x y map_ident_of_inj [OF can] ne show ?thesis
    by (auto simp: compare_version_def sign_of_cmp_def version_key_def)
qed

lemma compare_version_refines_witness:
  "let v = \<lparr>Major = 1, Minor = 0, Patch = 0, PreRelease = ''rc.9'', Metadata = ''''\<rparr>;
       w = \<lparr>Major = 1, Minor = 0, Patch = 0, PreRelease = ''rc.10'', Metadata = ''x''\<rparr>
   in compare_version (\<lambda>s. int (dec_value s)) v w = Some (sign_of_cmp (version_key v) (version_key w))
      \<and> sign_of_cmp (version_key v) (version_key w) = - 1"
proof -
  have a: "atoi_ok (\<lambda>s. int (dec_value s))" by (simp add: atoi_ok_def)
  have i: "itoa 9 = ''9''" "itoa 10 = ''10''" by code_simp+
  have p: "pre_canonical ''rc.9''" "pre_canonical ''rc.10''"
    by (simp_all add: pre_canonical_def ident_canonical_def is_all_decimals_def is_digit_def
        dec_value_def digit_val_def i)
  have s: "sign_of_cmp (version_key \<lparr>Major = 1, Minor = 0, Patch = 0, PreRelease = ''rc.9'', Metadata = ''''\<rparr>)
      (version_key \<lparr>Major = 1, Minor = 0, Patch = 0, PreRelease = ''rc.10'', Metadata = ''x''\<rparr>) = - 1"
    by (simp add: sign_of_cmp_def version_key_def ident_of_def is_all_decimals_def is_digit_def
        dec_value_def digit_val_def)
  show ?thesis unfolding Let_def
    by (rule conjI, rule compare_version_refines [OF a]) (simp_all add: p s)
qed

text \<open>The invariant of a comparison that is stuck: nothing is left on either side.\<close>

lemma compare_pre_exhausted: "compare_pre atoi '''' '''' '''' '''' = None"
proof -
  have "\<not> (a = '''' \<and> aa = '''' \<and> b = '''' \<and> bb = '''')"
    if "compare_pre atoi a aa b bb = Some r" for a aa b bb r
    using that
  proof (induction rule: compare_pre.raw_induct [rotated, consumes 1, case_names step])
    case (step loop atoi a afterA b afterB r)
    show ?case
    proof
      assume e: "a = '''' \<and> afterA = '''' \<and> b = '''' \<and> afterB = ''''"
      then have "loop atoi '''' '''' '''' '''' = Some r"
        using step(2) by (simp add: is_all_decimals_def semver_cut_def)
      with step(1) show False by blast
    qed
  qed
  then show ?thesis by (metis option.exhaust)
qed

text \<open>C5. Two pre-releases that are different texts of one number, such as \<open>01\<close> and \<open>1\<close> (the
  parser accepts both), make \<open>Compare\<close> loop for ever: the identifiers are used up without a
  decision, and the loop has no exit for two exhausted sides.\<close>

theorem compare_version_diverges:
  assumes "Major v = Major w" "Minor v = Minor w" "Patch v = Patch w"
    and "is_all_decimals (PreRelease v)" "is_all_decimals (PreRelease w)"
    and "atoi (PreRelease v) = atoi (PreRelease w)" "PreRelease v \<noteq> PreRelease w"
  shows "compare_version atoi v w = None"
proof -
  have "CHR ''.'' \<notin> set (PreRelease v)" "CHR ''.'' \<notin> set (PreRelease w)"
    using assms(4,5) is_digit_ranges by (auto simp: is_all_decimals_def)
  moreover have "compare_pre atoi (PreRelease v) '''' (PreRelease w) '''' = None"
    using assms(4-6) compare_pre_exhausted [of atoi]
    by (subst compare_pre.simps) (auto simp: is_all_decimals_def semver_cut_def)
  ultimately show ?thesis
    using assms by (auto simp: compare_version_def is_all_decimals_def)
qed

lemma compare_version_diverges_witness:
  "\<exists>v w. parse_version ''1.0.0-01'' = Inr v \<and> parse_version ''1.0.0-1'' = Inr w
     \<and> compare_version (\<lambda>s. int (dec_value s)) v w = None"
proof (intro exI conjI)
  show "parse_version ''1.0.0-01''
      = Inr \<lparr>Major = 1, Minor = 0, Patch = 0, PreRelease = ''01'', Metadata = ''''\<rparr>" by code_simp
  show "parse_version ''1.0.0-1''
      = Inr \<lparr>Major = 1, Minor = 0, Patch = 0, PreRelease = ''1'', Metadata = ''''\<rparr>" by code_simp
  show "compare_version (\<lambda>s. int (dec_value s))
      \<lparr>Major = 1, Minor = 0, Patch = 0, PreRelease = ''01'', Metadata = ''''\<rparr>
      \<lparr>Major = 1, Minor = 0, Patch = 0, PreRelease = ''1'', Metadata = ''''\<rparr> = None"
    by (rule compare_version_diverges) (simp_all add: is_all_decimals_def is_digit_def dec_value_def digit_val_def)
qed

end
