(* ===== verification/Base_Cache.thy ===== *)
theory Base_Cache
  imports Go_Prelude
begin

text \<open>
  \<open>internal/cache/cache.go\<close>: the base document cache that the linter shares between evaluations, a trie
  of values indexed by references. \<open>ast.Value\<close>, its \<open>Find\<close> and \<open>ast.IsScalar\<close> belong to OPA: the value
  type and the functions \<open>find_in\<close> and \<open>scalar\<close> are parameters. A reference is the list of its terms'
  values. The abstraction of a trie is the map from references to the values stored at them.
\<close>

section \<open>Operations\<close>

datatype ('k, 'v) bnode = BNode (bvalue: "'v option") (bchildren: "('k \<times> ('k, 'v) bnode) list")

definition new_base_cache_elem :: "('k, 'v) bnode" where
  "new_base_cache_elem = BNode None []"

definition new_base_cache :: "('k, 'v) bnode" where
  "new_base_cache = new_base_cache_elem"

definition bnode_set :: "('k, 'v) bnode \<Rightarrow> 'v \<Rightarrow> ('k, 'v) bnode" where
  "bnode_set e value = BNode (Some value) []"

fun base_put :: "('k, 'v) bnode \<Rightarrow> 'k list \<Rightarrow> 'v \<Rightarrow> ('k, 'v) bnode" where
  "base_put node [] value = bnode_set node value"
| "base_put node (k # ref) value =
     BNode (bvalue node) (map_set (bchildren node) k
       (base_put (case map_get (bchildren node) k of
            Some child \<Rightarrow> child
          | None \<Rightarrow> new_base_cache_elem) ref value))"

text \<open>\<open>Get\<close> from a node, with the rest of the reference.\<close>

fun base_get :: "('v \<Rightarrow> 'k list \<Rightarrow> 'v option) \<Rightarrow> ('v \<Rightarrow> bool) \<Rightarrow> ('k, 'v) bnode \<Rightarrow> 'k list \<Rightarrow> 'v option" where
  "base_get find_in scalar node [] = None"
| "base_get find_in scalar node (k # ref) =
     (case map_get (bchildren node) k of
        None \<Rightarrow> None
      | Some child \<Rightarrow>
          (case bvalue child of
             Some v \<Rightarrow> if length (k # ref) = 1 \<and> scalar v then Some v else find_in v ref
           | None \<Rightarrow> base_get find_in scalar child ref))"

section \<open>The abstraction\<close>

fun stored :: "('k, 'v) bnode \<Rightarrow> 'k list \<Rightarrow> 'v option" where
  "stored node [] = bvalue node"
| "stored node (k # ref) =
     (case map_get (bchildren node) k of None \<Rightarrow> None | Some child \<Rightarrow> stored child ref)"

definition proper_prefix :: "'a list \<Rightarrow> 'a list \<Rightarrow> bool" where
  "proper_prefix p q \<longleftrightarrow> (\<exists>r. r \<noteq> [] \<and> q = p @ r)"

text \<open>The lookup that the cache promises: the value stored at the shortest non-empty prefix of the
  reference that has one, and what the rest of the reference finds in it.\<close>

fun first_stored :: "('k list \<Rightarrow> 'v option) \<Rightarrow> 'k list \<Rightarrow> 'k list \<Rightarrow> ('v \<times> 'k list) option" where
  "first_stored f done [] = None"
| "first_stored f done (k # ref) =
     (case f (done @ [k]) of Some v \<Rightarrow> Some (v, ref) | None \<Rightarrow> first_stored f (done @ [k]) ref)"

lemma proper_prefix_Cons: "proper_prefix (k # p) (l # q) \<longleftrightarrow> k = l \<and> proper_prefix p q"
  by (auto simp: proper_prefix_def)

lemma proper_prefix_Nil: "proper_prefix [] q \<longleftrightarrow> q \<noteq> []"
  by (auto simp: proper_prefix_def)

lemma not_proper_prefix_Nil [simp]: "\<not> proper_prefix (k # p) []"
  by (auto simp: proper_prefix_def)

lemma stored_new: "stored new_base_cache_elem ref = None"
  by (cases ref) (auto simp: new_base_cache_elem_def)

lemma stored_put:
  "stored (base_put node ref v) p
     = (if p = ref then Some v else if proper_prefix ref p then None else stored node p)"
proof (induction ref arbitrary: node p)
  case Nil
  then show ?case by (cases p) (auto simp: bnode_set_def proper_prefix_Nil)
next
  case (Cons k ref)
  then show ?case
    by (cases p) (auto simp: proper_prefix_Cons stored_new split: option.splits)
qed

lemma stored_child: "map_get (bchildren node) k = Some child \<Longrightarrow> stored node (k # p) = stored child p"
  by simp

lemma first_stored_shift:
  "first_stored f (xs @ done) ref = first_stored (\<lambda>p. f (xs @ p)) done ref"
proof (induction ref arbitrary: "done")
  case Nil
  then show ?case by simp
next
  case (Cons a ref)
  from Cons [of "done @ [a]"] show ?case by (simp split: option.splits)
qed

lemma first_stored_None: "(\<And>p. f p = None) \<Longrightarrow> first_stored f done ref = None"
  by (induction ref arbitrary: "done") auto

definition find_scalar_ok :: "('v \<Rightarrow> 'k list \<Rightarrow> 'v option) \<Rightarrow> ('v \<Rightarrow> bool) \<Rightarrow> bool" where
  "find_scalar_ok find_in scalar \<longleftrightarrow> (\<forall>v. scalar v \<longrightarrow> find_in v [] = Some v)"

lemma base_get_first_stored:
  assumes "find_scalar_ok find_in scalar"
  shows "base_get find_in scalar node ref =
    (case first_stored (stored node) [] ref of None \<Rightarrow> None | Some (v, rest) \<Rightarrow> find_in v rest)"
proof (induction ref arbitrary: node)
  case Nil
  then show ?case by simp
next
  case (Cons k ref)
  show ?case
  proof (cases "map_get (bchildren node) k")
    case None
    have "first_stored (stored node) [k] ref = None"
      using first_stored_shift [of "stored node" "[k]" "[]" ref] None
      by (simp add: first_stored_None)
    with None show ?thesis by simp
  next
    case (Some child)
    have "first_stored (stored node) [k] ref = first_stored (stored child) [] ref"
      using first_stored_shift [of "stored node" "[k]" "[]" ref] Some by simp
    with Cons.IH [of child] Some assms show ?thesis
      by (cases "bvalue child") (auto simp: find_scalar_ok_def split: option.splits)
  qed
qed

text \<open>C6. Refinement of the base cache to a map from references to values. \<open>Put\<close> writes one reference
  and forgets everything stored below it. \<open>Get\<close> finds the shortest prefix of its argument that has a
  value and looks the rest of the reference up in that value, so that a later \<open>Put\<close> below a stored value
  stays invisible. The assumption is OPA's: looking up the empty reference in a scalar returns it.\<close>

theorem base_cache_refines:
  assumes "find_scalar_ok find_in scalar"
  shows "stored (base_put node ref v)
      = (\<lambda>p. if p = ref then Some v else if proper_prefix ref p then None else stored node p)
    \<and> base_get find_in scalar node q =
      (case first_stored (stored node) [] q of None \<Rightarrow> None | Some (w, rest) \<Rightarrow> find_in w rest)"
  using base_get_first_stored [OF assms, of node q] by (simp add: stored_put fun_eq_iff)

lemma base_cache_refines_witness:
  "stored (base_put new_base_cache ''ab'' (7::nat)) ''ab'' = Some 7
   \<and> base_get (\<lambda>v r. if r = [] then Some v else None) (\<lambda>v. True)
       (base_put new_base_cache ''ab'' (7::nat)) ''ab'' = Some 7"
proof -
  have ok: "find_scalar_ok (\<lambda>(v :: nat) (r :: string). if r = [] then Some v else None) (\<lambda>v. True)"
    by (simp add: find_scalar_ok_def)
  note r = base_cache_refines [OF ok, of "base_put new_base_cache ''ab'' 7" "''ab''" 7 "''ab''",
      THEN conjunct2]
  show ?thesis unfolding r by (simp add: new_base_cache_def new_base_cache_elem_def bnode_set_def)
qed

end
