(* ===== verification/Kv_Store.thy ===== *)
theory Kv_Store
  imports Go_Prelude
begin

text \<open>
  The key/value interface that the language server's cache and the fixer's file providers are used
  through, and its first provider, \<open>pkg/roast/util/concurrent/map.go\<close>.

  \<open>Map[K, V]\<close> is a Go map behind a lock. Every method holds the lock for its whole body, so a method
  is one atomic step and a run of concurrent callers is a sequence of steps; the definitions below are
  those steps. \<open>gomap\<close> lists keys in the order in which a \<open>range\<close> loop visits them.
\<close>

section \<open>The interface\<close>

locale kv_store =
  fixes inv :: "'s \<Rightarrow> bool"
    and lookup :: "'s \<Rightarrow> 'k \<Rightarrow> 'v option"
    and upd :: "'s \<Rightarrow> 'k \<Rightarrow> 'v \<Rightarrow> 's"
    and del :: "'s \<Rightarrow> 'k \<Rightarrow> 's"
  assumes inv_upd: "inv s \<Longrightarrow> inv (upd s k v)"
    and inv_del: "inv s \<Longrightarrow> inv (del s k)"
    and lookup_upd: "inv s \<Longrightarrow> lookup (upd s k v) = (lookup s)(k \<mapsto> v)"
    and lookup_del: "inv s \<Longrightarrow> lookup (del s k) = (lookup s)(k := None)"
begin

text \<open>A run of writes, a run of deletions.\<close>

lemma inv_upds: "inv s \<Longrightarrow> inv (foldl (\<lambda>s (k, v). upd s k v) s kvs)"
  by (induction kvs arbitrary: s) (auto simp: inv_upd)

lemma inv_dels: "inv s \<Longrightarrow> inv (foldl del s ks)"
  by (induction ks arbitrary: s) (auto simp: inv_del)

lemma lookup_upds:
  "inv s \<Longrightarrow> lookup (foldl (\<lambda>s (k, v). upd s k v) s kvs) k
     = (case map_of (rev kvs) k of Some v \<Rightarrow> Some v | None \<Rightarrow> lookup s k)"
  by (induction kvs arbitrary: s) (auto simp: inv_upd lookup_upd map_add_def split: option.splits)

lemma lookup_dels:
  "inv s \<Longrightarrow> lookup (foldl del s ks) k = (if k \<in> set ks then None else lookup s k)"
  by (induction ks arbitrary: s) (auto simp: inv_del lookup_del)

text \<open>Moving an entry: the new key is written before the old one is deleted.\<close>

lemma lookup_move:
  "inv s \<Longrightarrow> lookup s a = Some v \<Longrightarrow> a \<noteq> b \<Longrightarrow>
     lookup (del (upd s b v) a) = (lookup s)(b \<mapsto> v, a := None)"
  by (simp add: inv_upd lookup_del lookup_upd)

lemma lookup_move_same:
  "inv s \<Longrightarrow> lookup s a = Some v \<Longrightarrow> lookup (del (upd s a v) a) = (lookup s)(a := None)"
  by (simp add: inv_upd lookup_del lookup_upd)

end

section \<open>The concurrent map\<close>

definition cm_map_of :: "('k, 'v) gomap \<Rightarrow> ('k, 'v) gomap" where
  "cm_map_of src = src"

definition cm_get :: "('k, 'v) gomap \<Rightarrow> 'k \<Rightarrow> 'v option" where
  "cm_get m k = map_get m k"

text \<open>\<open>GetUnchecked\<close>: the zero value of \<open>V\<close> is the argument \<open>zero\<close>.\<close>

definition cm_get_unchecked :: "('k, 'v) gomap \<Rightarrow> 'v \<Rightarrow> 'k \<Rightarrow> 'v" where
  "cm_get_unchecked m zero k = map_get_or m k zero"

definition cm_set :: "('k, 'v) gomap \<Rightarrow> 'k \<Rightarrow> 'v \<Rightarrow> ('k, 'v) gomap" where
  "cm_set m k v = map_set m k v"

definition cm_delete :: "('k, 'v) gomap \<Rightarrow> 'k \<Rightarrow> ('k, 'v) gomap" where
  "cm_delete m k = map_del m k"

definition cm_rename_key :: "('k, 'v) gomap \<Rightarrow> 'k \<Rightarrow> 'k \<Rightarrow> ('k, 'v) gomap" where
  "cm_rename_key m oldKey newKey =
     (case map_get m oldKey of
        Some v \<Rightarrow> map_del (map_set m newKey v) oldKey
      | None \<Rightarrow> m)"

definition cm_keys :: "('k, 'v) gomap \<Rightarrow> 'k list" where
  "cm_keys m = map fst m"

definition cm_values :: "('k, 'v) gomap \<Rightarrow> 'v list" where
  "cm_values m = map snd m"

text \<open>\<open>Len\<close>, which a nil map answers with 0.\<close>

definition cm_len :: "('k, 'v) gomap option \<Rightarrow> nat" where
  "cm_len cm = (case cm of None \<Rightarrow> 0 | Some m \<Rightarrow> length m)"

definition cm_clone :: "('k, 'v) gomap \<Rightarrow> ('k, 'v) gomap" where
  "cm_clone m = m"

definition cm_clear :: "('k, 'v) gomap \<Rightarrow> ('k, 'v) gomap" where
  "cm_clear m = []"

definition cm_update_value :: "('k, 'v) gomap \<Rightarrow> 'v \<Rightarrow> 'k \<Rightarrow> ('v \<Rightarrow> 'v) \<Rightarrow> ('k, 'v) gomap" where
  "cm_update_value m zero key transformer =
     map_set m key (transformer (case map_get m key of Some vo \<Rightarrow> vo | None \<Rightarrow> zero))"

interpretation cm: kv_store map_wf cm_get cm_set cm_delete
  by unfold_locales (auto simp: cm_get_def cm_set_def cm_delete_def fun_eq_iff)

lemma cm_rename_key_wf [simp]: "map_wf m \<Longrightarrow> map_wf (cm_rename_key m a b)"
  by (simp add: cm_rename_key_def split: option.splits)

lemma cm_get_rename:
  assumes "map_wf m"
  shows "cm_get (cm_rename_key m a b) =
    (case cm_get m a of None \<Rightarrow> cm_get m
     | Some v \<Rightarrow> if a = b then (cm_get m)(a := None) else (cm_get m)(b \<mapsto> v, a := None))"
  using assms
  by (auto simp: cm_rename_key_def cm.lookup_move cm.lookup_move_same
      cm_get_def [symmetric] cm_set_def [symmetric] cm_delete_def [symmetric] split: option.splits)

lemma cm_update_value_get:
  "cm_get (cm_update_value m zero key f) k =
     (if k = key then Some (f (case cm_get m key of Some v \<Rightarrow> v | None \<Rightarrow> zero)) else cm_get m k)"
  by (simp add: cm_update_value_def cm_get_def)

lemma cm_update_value_wf [simp]: "map_wf m \<Longrightarrow> map_wf (cm_update_value m zero key f)"
  by (simp add: cm_update_value_def)

lemma cm_len_keys: "map_wf m \<Longrightarrow> cm_len (Some m) = card (dom (cm_get m))"
proof -
  assume "map_wf m"
  then have "length m = card (set (map fst m))" by (metis distinct_card length_map)
  moreover have "cm_get m = map_of m" by (simp add: cm_get_def fun_eq_iff)
  ultimately show ?thesis by (simp add: cm_len_def dom_map_of_conv_image_fst)
qed

end
