(* ===== verification/Go_Util.thy ===== *)
theory Go_Util
  imports Go_Strings
begin

text \<open>
  \<open>internal/util/util.go\<close> and \<open>internal/util/set.go\<close>: the helpers the other components call.

  An \<open>any\<close> of the source is a \<open>gval\<close>; floating-point and \<open>json.Number\<close> values are their texts. A \<open>Set[T]\<close> is the list of its elements, without duplicates, in
  the order in which a loop would visit them. A \<open>(value, ok)\<close> result is a pair.
\<close>

section \<open>Dynamic values\<close>

datatype gval =
    GNil
  | GBool bool
  | GInt int
  | GFloat string
  | GNumber string
  | GStr string
  | GArr "gval list"
  | GMap "(string \<times> gval) list"

section \<open>Maps and slices\<close>

definition nil_slice_to_empty :: "'a list option \<Rightarrow> 'a list" where
  "nil_slice_to_empty a = (case a of None \<Rightarrow> [] | Some xs \<Rightarrow> xs)"

text \<open>\<open>SearchMap\<close>: the error carries the key that was not found and the path walked so far.\<close>

datatype search_error = NoAttribute string "string list"

fun search_map_go :: "(string, gval) gomap \<Rightarrow> string list \<Rightarrow> string list \<Rightarrow> search_error + gval" where
  "search_map_go current done [] = Inr (GMap current)"
| "search_map_go current done (p # ps) =
     (if ps = [] then
        (case map_get current p of
           Some value \<Rightarrow> Inr value
         | None \<Rightarrow> Inl (NoAttribute p done))
      else
        (case map_get current p of
           Some (GMap next) \<Rightarrow> search_map_go next (done @ [p]) ps
         | _ \<Rightarrow> Inl (NoAttribute p done)))"

definition search_map :: "(string, gval) gomap \<Rightarrow> string list \<Rightarrow> search_error + gval" where
  "search_map object path = search_map_go object [] path"

definition must :: "'e + 'a \<Rightarrow> 'a option" where
  "must r = (case r of Inl e \<Rightarrow> None | Inr v \<Rightarrow> Some v)"

fun slice_map :: "'a list \<Rightarrow> ('a \<Rightarrow> 'b) \<Rightarrow> 'b list" where
  "slice_map [] f = []"
| "slice_map (x # xs) f = f x # slice_map xs f"

fun find_first :: "'a list \<Rightarrow> ('a \<Rightarrow> bool) \<Rightarrow> 'a option" where
  "find_first [] p = None"
| "find_first (v # s) p = (if p v then Some v else find_first s p)"

definition map_keys :: "('k, 'v) gomap \<Rightarrow> ('k \<Rightarrow> 'u) \<Rightarrow> 'u list" where
  "map_keys m f = map (\<lambda>(k, v). f k) m"

text \<open>\<open>Filter\<close>: the first loop counts, the second collects; \<open>nil\<close> and an empty slice are the same
  list.\<close>

definition filter_count :: "'a list \<Rightarrow> ('a \<Rightarrow> bool) \<Rightarrow> nat" where
  "filter_count s f = foldl (\<lambda>n x. if f x then n + 1 else n) 0 s"

definition filter_slice :: "'a list \<Rightarrow> ('a \<Rightarrow> bool) \<Rightarrow> 'a list" where
  "filter_slice s f =
     (if filter_count s f = 0 then [] else foldl (\<lambda>r x. if f x then r @ [x] else r) [] s)"

text \<open>\<open>FindClosestMatchingRoot\<close>; the loop carries the index, the longest prefix so far and its
  index.\<close>

fun closest_root_loop :: "string \<Rightarrow> string list \<Rightarrow> int \<Rightarrow> nat \<Rightarrow> int \<Rightarrow> string + int" where
  "closest_root_loop path [] i longest idx = Inr idx"
| "closest_root_loop path (root # roots) i longest idx =
     (if root = path then Inl path
      else if \<not> has_prefix path root then closest_root_loop path roots (i + 1) longest idx
      else if length root > longest then closest_root_loop path roots (i + 1) (length root) i
      else closest_root_loop path roots (i + 1) longest idx)"

definition find_closest_matching_root :: "string \<Rightarrow> string list \<Rightarrow> string" where
  "find_closest_matching_root path roots =
     (case closest_root_loop path roots 0 0 (- 1) of
        Inl p \<Rightarrow> p
      | Inr idx \<Rightarrow> if idx = - 1 then '''' else roots ! nat idx)"

section \<open>Integers and strings\<close>

definition max_int :: int where
  "max_int = 2 ^ 63 - 1"

definition safe_uint_to_int :: "int \<Rightarrow> int" where
  "safe_uint_to_int u = (if u > max_int then max_int else u)"

definition safe_int_to_uint :: "int \<Rightarrow> int" where
  "safe_int_to_uint i = (if i < 0 then 0 else i)"

definition bool_to_int :: "bool \<Rightarrow> int" where
  "bool_to_int b = (if b then 1 else 0)"

definition ensure_suffix :: "string \<Rightarrow> string \<Rightarrow> string" where
  "ensure_suffix s suf = (if s \<noteq> '''' \<and> \<not> has_suffix s suf then s @ suf else s)"

definition has_any_suffix :: "string \<Rightarrow> string list \<Rightarrow> bool" where
  "has_any_suffix s suffixes = list_ex (has_suffix s) suffixes"

text \<open>\<open>AnySliceTo\<close>; the type assertion is the argument \<open>cast\<close>.\<close>

fun any_slice_to :: "(gval \<Rightarrow> 'a option) \<Rightarrow> gval list \<Rightarrow> gval + 'a list" where
  "any_slice_to cast [] = Inr []"
| "any_slice_to cast (item # items) =
     (case cast item of
        None \<Rightarrow> Inl item
      | Some a \<Rightarrow> bind_res (any_slice_to cast items) (\<lambda>out. Inr (a # out)))"

definition sorted_slice :: "'a::linorder list \<Rightarrow> 'a list" where
  "sorted_slice s = sort s"

fun or_first :: "'a \<Rightarrow> (unit \<Rightarrow> 'a) list \<Rightarrow> 'a option" where
  "or_first zero [] = None"
| "or_first zero (f # fs) = (if f () \<noteq> zero then Some (f ()) else or_first zero fs)"

definition or_else :: "'a \<Rightarrow> 'a \<Rightarrow> (unit \<Rightarrow> 'a) list \<Rightarrow> 'a" where
  "or_else zero val suppliers =
     (if val = zero then (case or_first zero suppliers of Some alt \<Rightarrow> alt | None \<Rightarrow> val) else val)"

section \<open>Lines\<close>

abbreviation newline :: char where
  "newline \<equiv> CHR 0x0A"

text \<open>\<open>bytes.Lines\<close>: every line with its newline, and no empty last line.\<close>

function byte_lines :: "string \<Rightarrow> string list" where
  "byte_lines s =
     (if s = [] then []
      else case index_byte s newline of
        Some i \<Rightarrow> take (i + 1) s # byte_lines (drop (i + 1) s)
      | None \<Rightarrow> [s])"
  by pat_completeness auto
termination by (relation "measure length") auto

declare byte_lines.simps [simp del]

definition lines_enum :: "string \<Rightarrow> (nat \<times> string) list" where
  "lines_enum s = enumerate 0 (byte_lines s)"

definition line_contents :: "string \<Rightarrow> nat \<Rightarrow> string option" where
  "line_contents document lineNum =
     (case find_first (lines_enum document) (\<lambda>(i, line). i = lineNum) of
        Some (i, line) \<Rightarrow> Some (trim_suffix line [newline])
      | None \<Rightarrow> None)"

definition num_lines :: "string \<Rightarrow> int" where
  "num_lines s = safe_int_to_uint (int (count_list s newline)) + 1"

text \<open>\<open>IndexByteNth\<close>; \<open>i\<close> is how far the scan has come.\<close>

fun index_byte_nth_loop :: "string \<Rightarrow> char \<Rightarrow> nat \<Rightarrow> nat \<Rightarrow> int" where
  "index_byte_nth_loop s b 0 i = int i - 1"
| "index_byte_nth_loop s b (Suc n) i =
     (case index_byte (drop i s) b of
        None \<Rightarrow> - 1
      | Some d \<Rightarrow> index_byte_nth_loop s b n (i + (d + 1)))"

definition index_byte_nth :: "string \<Rightarrow> char \<Rightarrow> nat \<Rightarrow> int" where
  "index_byte_nth s b n = index_byte_nth_loop s b n 0"

definition line_at :: "string \<Rightarrow> nat \<Rightarrow> string \<times> bool" where
  "line_at s lineNum =
     (if lineNum = 0 then ('''', False)
      else if lineNum = 1 then
        (case cut_byte s newline of (before, after, ok) \<Rightarrow> if ok then (before, True) else (s, True))
      else let idx = index_byte_nth s newline (lineNum - 1)
        in if idx = - 1 then ('''', False)
           else case index_byte (drop (nat (idx + 1)) s) newline of
             None \<Rightarrow> (drop (nat (idx + 1)) s, True)
           | Some endIdx \<Rightarrow> (take endIdx (drop (nat (idx + 1)) s), True))"

section \<open>Sets\<close>

type_synonym 'a gset = "'a list"

definition set_add :: "'a gset \<Rightarrow> 'a list \<Rightarrow> 'a gset" where
  "set_add s items = foldl (\<lambda>s item. if item \<in> set s then s else s @ [item]) s items"

definition new_set :: "'a list \<Rightarrow> 'a gset" where
  "new_set items = set_add [] items"

definition new_set_from_keys :: "('a, 'v) gomap \<Rightarrow> 'a gset" where
  "new_set_from_keys m = set_add [] (map fst m)"

definition set_remove :: "'a gset \<Rightarrow> 'a list \<Rightarrow> 'a gset" where
  "set_remove s items = foldl (\<lambda>s item. removeAll item s) s items"

fun set_contains :: "'a gset \<Rightarrow> 'a list \<Rightarrow> bool" where
  "set_contains s [] = True"
| "set_contains s (item # items) = (if item \<notin> set s then False else set_contains s items)"

definition set_size :: "'a gset \<Rightarrow> nat" where
  "set_size s = length s"

definition set_items :: "'a gset \<Rightarrow> 'a list" where
  "set_items s = s"

definition set_diff :: "'a gset \<Rightarrow> 'a gset \<Rightarrow> 'a gset" where
  "set_diff s b = foldl (\<lambda>d item. if \<not> set_contains b [item] then set_add d [item] else d) (new_set []) s"

definition set_intersect :: "'a gset \<Rightarrow> 'a gset \<Rightarrow> 'a gset" where
  "set_intersect s b =
     foldl (\<lambda>d item. if set_contains b [item] then set_add d [item] else d) (new_set []) s"

definition set_equal :: "'a gset \<Rightarrow> 'a gset \<Rightarrow> bool" where
  "set_equal s b =
     (if set_size s \<noteq> set_size b then False else list_all (\<lambda>item. set_contains b [item]) s)"

section \<open>Slices and searching: lemmas\<close>

lemma slice_map_eq [simp]: "slice_map xs f = map f xs"
  by (induction xs) auto

lemma find_first_eq [simp]: "find_first xs p = List.find p xs"
  by (induction xs) auto

lemma filter_loop: "foldl (\<lambda>r x. if f x then r @ [x] else r) r s = r @ filter f s"
  by (induction s arbitrary: r) auto

lemma filter_count_eq: "filter_count s f = length (filter f s)"
proof -
  have "foldl (\<lambda>n x. if f x then n + 1 else n) k s = k + length (filter f s)" for k
    by (induction s arbitrary: k) auto
  then show ?thesis by (simp add: filter_count_def)
qed

lemma filter_slice_eq [simp]: "filter_slice s f = filter f s"
  by (simp add: filter_slice_def filter_count_eq filter_loop)

lemma any_slice_to_Inr:
  "any_slice_to cast xs = Inr ys \<longleftrightarrow> map cast xs = map Some ys"
proof (induction xs arbitrary: ys)
  case Nil
  then show ?case by auto
next
  case (Cons x xs)
  then show ?case by (cases ys) (auto simp: bind_res_eq_Inr split: option.splits)
qed

section \<open>Sets: lemmas\<close>

lemma set_add_set [simp]: "set (set_add s items) = set s \<union> set items"
proof -
  have "set (foldl (\<lambda>s item. if item \<in> set s then s else s @ [item]) s items) = set s \<union> set items"
    by (induction items arbitrary: s) auto
  then show ?thesis by (simp add: set_add_def)
qed

lemma set_add_distinct [simp]: "distinct s \<Longrightarrow> distinct (set_add s items)"
  unfolding set_add_def by (induction items arbitrary: s) auto

lemma new_set_set [simp]: "set (new_set items) = set items" "distinct (new_set items)"
  by (simp_all add: new_set_def)

lemma set_remove_set [simp]: "set (set_remove s items) = set s - set items"
  unfolding set_remove_def by (induction items arbitrary: s) auto

lemma set_remove_distinct [simp]: "distinct s \<Longrightarrow> distinct (set_remove s items)"
  unfolding set_remove_def by (induction items arbitrary: s) (auto simp: distinct_removeAll)

lemma set_contains_iff [simp]: "set_contains s items \<longleftrightarrow> set items \<subseteq> set s"
  by (induction items) auto

lemma set_collect:
  "set (foldl (\<lambda>d item. if P item then set_add d [item] else d) d s) = set d \<union> {x \<in> set s. P x}"
  "distinct d \<Longrightarrow> distinct (foldl (\<lambda>d item. if P item then set_add d [item] else d) d s)"
  by (induction s arbitrary: d) auto

lemma set_diff_set [simp]: "set (set_diff s b) = set s - set b" "distinct (set_diff s b)"
  unfolding set_diff_def by (auto simp: set_collect)

lemma set_intersect_set [simp]: "set (set_intersect s b) = set s \<inter> set b" "distinct (set_intersect s b)"
  unfolding set_intersect_def by (auto simp: set_collect)

lemma set_equal_iff:
  assumes "distinct s" "distinct b" shows "set_equal s b \<longleftrightarrow> set s = set b"
proof -
  have "card (set s) = length s" "card (set b) = length b"
    using assms by (simp_all add: distinct_card)
  then show ?thesis
    by (auto simp: set_equal_def set_size_def list_all_iff dest: card_subset_eq [OF finite_set])
      (metis card_subset_eq finite_set subsetI)
qed

section \<open>Roots\<close>

lemma closest_root_loop_Inl: "closest_root_loop path roots i longest idx = Inl p \<Longrightarrow> p = path \<and> path \<in> set roots"
  by (induction path roots i longest idx rule: closest_root_loop.induct) (auto split: if_splits)

lemma closest_root_loop_exact: "path \<in> set roots \<Longrightarrow> closest_root_loop path roots i longest idx = Inl path"
  by (induction path roots i longest idx rule: closest_root_loop.induct) auto

text \<open>The loop's invariant: \<open>idx\<close> is \<open>-1\<close> while only empty prefixes were seen, and otherwise points at
  the longest matching root so far, whose length is \<open>longest\<close>.\<close>

lemma closest_root_loop_best:
  assumes "closest_root_loop path rest (int (length seen)) longest idx = Inr j"
    and "idx = - 1 \<and> longest = 0 \<and> (\<forall>r\<in>set seen. has_prefix path r \<longrightarrow> r = [])
       \<or> 0 \<le> idx \<and> nat idx < length seen \<and> has_prefix path (seen ! nat idx)
         \<and> length (seen ! nat idx) = longest \<and> (\<forall>r\<in>set seen. has_prefix path r \<longrightarrow> length r \<le> longest)"
  shows "j = - 1 \<and> (\<forall>r\<in>set (seen @ rest). has_prefix path r \<longrightarrow> r = [])
       \<or> 0 \<le> j \<and> nat j < length (seen @ rest) \<and> has_prefix path ((seen @ rest) ! nat j)
         \<and> (\<forall>r\<in>set (seen @ rest). has_prefix path r \<longrightarrow> length r \<le> length ((seen @ rest) ! nat j))"
  using assms
proof (induction rest arbitrary: seen longest idx)
  case Nil
  then show ?case by auto
next
  case (Cons root rest)
  let ?idx = "if has_prefix path root \<and> length root > longest then int (length seen) else idx"
  let ?longest = "if has_prefix path root \<and> length root > longest then length root else longest"
  have step: "closest_root_loop path rest (int (length (seen @ [root]))) ?longest ?idx = Inr j"
    using Cons.prems(1) by (auto split: if_splits simp: add.commute)
  have inv: "?idx = - 1 \<and> ?longest = 0 \<and> (\<forall>r\<in>set (seen @ [root]). has_prefix path r \<longrightarrow> r = [])
       \<or> 0 \<le> ?idx \<and> nat ?idx < length (seen @ [root]) \<and> has_prefix path ((seen @ [root]) ! nat ?idx)
         \<and> length ((seen @ [root]) ! nat ?idx) = ?longest
         \<and> (\<forall>r\<in>set (seen @ [root]). has_prefix path r \<longrightarrow> length r \<le> ?longest)"
    using Cons.prems(2) by (auto simp: nth_append)
  from Cons.IH [OF step inv] show ?case by simp
qed

text \<open>\<open>FindClosestMatchingRoot\<close> returns one of the roots that are a prefix of the path, and no root
  that is a prefix of the path is longer; it returns the empty string only when no non-empty root is a
  prefix.\<close>

theorem find_closest_matching_root_longest:
  fixes path :: string and roots :: "string list"
  defines "r \<equiv> find_closest_matching_root path roots"
  shows "has_prefix path r \<and> (r = [] \<or> r \<in> set roots)
    \<and> (\<forall>q\<in>set roots. has_prefix path q \<longrightarrow> length q \<le> length r)"
proof (cases "closest_root_loop path roots 0 0 (- 1)")
  case (Inl p)
  with closest_root_loop_Inl [OF this] show ?thesis
    by (auto simp: r_def find_closest_matching_root_def dest: has_prefix_length)
next
  case (Inr j)
  from closest_root_loop_best [of path roots "[]" 0 "- 1" j] Inr
  show ?thesis by (auto simp: r_def find_closest_matching_root_def)
qed

lemma find_closest_matching_root_longest_witness:
  "has_prefix ''/w/a/b'' (find_closest_matching_root ''/w/a/b'' [''/w'', ''/x'', ''/w/a''])
   \<and> 4 \<le> length (find_closest_matching_root ''/w/a/b'' [''/w'', ''/x'', ''/w/a''])"
  using find_closest_matching_root_longest [of "''/w/a/b''" "[''/w'', ''/x'', ''/w/a'']"] by simp

section \<open>Lines: lemmas\<close>

lemma line_after_index:
  "(case index_byte s newline of None \<Rightarrow> (s, True) | Some e \<Rightarrow> (take e s, True))
     = (hd (split_byte newline s), True)"
proof (cases "newline \<in> set s")
  case True
  then obtain p r where "s = p @ newline # r" "newline \<notin> set p" by (metis split_list_first)
  then show ?thesis by (simp add: index_byte_append split_byte_append)
next
  case False
  then show ?thesis by (simp add: index_byte_None [THEN iffD2] split_byte_no_sep)
qed

lemma index_byte_nth_loop_split:
  "i \<le> length s \<Longrightarrow>
    (n < length (split_byte b (drop i s)) \<longrightarrow>
       0 \<le> index_byte_nth_loop s b n i + 1 \<and> index_byte_nth_loop s b n i + 1 \<le> int (length s)
       \<and> split_byte b (drop (nat (index_byte_nth_loop s b n i + 1)) s) = drop n (split_byte b (drop i s))
       \<and> (0 < n \<longrightarrow> 0 \<le> index_byte_nth_loop s b n i))
    \<and> (length (split_byte b (drop i s)) \<le> n \<longrightarrow> index_byte_nth_loop s b n i = - 1)"
proof (induction n arbitrary: i)
  case 0
  then show ?case by auto
next
  case (Suc n)
  show ?case
  proof (cases "index_byte (drop i s) b")
    case None
    then have "b \<notin> set (drop i s)" by (simp add: index_byte_None)
    with None show ?thesis by (simp add: split_byte_no_sep)
  next
    case (Some d)
    then obtain p r where d: "drop i s = p @ b # r" "b \<notin> set p" "length p = d"
      by (rule index_byte_SomeE)
    have "drop (i + (d + 1)) s = drop (d + 1) (drop i s)" by (simp add: add.commute)
    also have "\<dots> = r" using d by simp
    finally have r: "drop (i + (d + 1)) s = r" .
    have "length (drop i s) = d + 1 + length r" using d by simp
    then have le: "i + (d + 1) \<le> length s" by simp
    have nn: "- 1 \<le> index_byte_nth_loop s b n (i + (d + 1))
        \<and> (n = 0 \<longrightarrow> 0 \<le> index_byte_nth_loop s b n (i + (d + 1)))"
      using Suc.IH [OF le] by (cases n) (auto split: option.splits)
    show ?thesis
      using Suc.IH [OF le] Some d r nn by (cases n) (auto simp: split_byte_append)
  qed
qed

text \<open>\<open>Line\<close>, which searches for newline bytes, returns the line that splitting the whole text at
  the newlines would give, for every text and every line number; numbers outside \<open>1..NumLines\<close> are not
  found.\<close>

theorem line_at_split:
  "line_at s n = (if 0 < n \<and> int n \<le> num_lines s then (split_byte newline s ! (n - 1), True) else ('''', False))"
proof -
  have len: "num_lines s = int (length (split_byte newline s))"
    by (simp add: num_lines_def safe_int_to_uint_def length_split_byte)
  consider "n = 0" | "n = 1" | "1 < n" by linarith
  then show ?thesis
  proof cases
    case 1
    then show ?thesis by (simp add: line_at_def)
  next
    case 2
    have "line_at s n = (case index_byte s newline of None \<Rightarrow> (s, True) | Some e \<Rightarrow> (take e s, True))"
      using 2 by (simp add: line_at_def cut_byte_def split: option.splits)
    also have "\<dots> = (split_byte newline s ! 0, True)"
      unfolding line_after_index using split_byte_nonempty [of newline s] by (simp add: hd_conv_nth)
    finally show ?thesis using 2 len by (simp add: length_split_byte)
  next
    case 3
    show ?thesis
    proof (cases "n - 1 < length (split_byte newline s)")
      case False
      with 3 index_byte_nth_loop_split [of 0 s "n - 1" newline] len show ?thesis
        by (auto simp: line_at_def index_byte_nth_def)
    next
      case True
      with 3 index_byte_nth_loop_split [of 0 s "n - 1" newline]
      have i: "0 \<le> index_byte_nth s newline (n - 1)"
        "split_byte newline (drop (nat (index_byte_nth s newline (n - 1) + 1)) s)
          = drop (n - 1) (split_byte newline s)"
        by (auto simp: index_byte_nth_def)
      then have "line_at s n = (hd (drop (n - 1) (split_byte newline s)), True)"
        using 3 line_after_index by (simp add: line_at_def Let_def)
      with True 3 len show ?thesis by (simp add: hd_drop_conv_nth)
    qed
  qed
qed

end
