(* ===== verification/Rast.thy ===== *)
theory Rast
  imports Go_Util
begin

text \<open>
  \<open>pkg/roast/rast/rast.go\<close>: building and reading OPA AST values.

  \<open>ast.Value\<close> is the datatype \<open>aval\<close>, with the kinds of value that the code makes or asks for. A value
  that Go's \<open>reflect\<close> walks over is an \<open>rval\<close>. What belongs to OPA or to number formatting is a field
  of \<open>ast_env\<close>: \<open>ast.Number.Int64\<close>, \<open>ast.FloatNumberTerm\<close>, JSON decoding and \<open>%v\<close> printing.
\<close>

section \<open>Values\<close>

datatype aval =
    ANull
  | ABool bool
  | ANum string
  | AStr string
  | AVar string
  | AArr "aval list"
  | ASet "aval list"
  | AObj "(aval \<times> aval) list"
  | ARef "aval list"

datatype rval =
    RNil
  | RAst aval
  | RPtr "rval option"
  | RRawPtr "string option"
  | RStruct "(string \<times> rval) list"
  | RSlice "rval list option"
  | RMap "(rval \<times> rval) list option"
  | RStr string
  | RInt int
  | RUint nat
  | RSized nat
  | RFloat string
  | RBool bool
  | ROther string

record ast_env =
  num_int64 :: "string \<Rightarrow> int option"
  float_number :: "string \<Rightarrow> string"
  json_decode :: "string \<Rightarrow> aval option"
  sprint :: "rval \<Rightarrow> string"

section \<open>References and locations\<close>

definition ref_head_term :: "string \<Rightarrow> aval" where
  "ref_head_term name = (if name = ''data'' then AVar ''data''
     else if name = ''input'' then AVar ''input'' else AVar name)"

text \<open>The loop of \<open>RefStringToRef\<close>: \<open>found\<close> says whether a separator was cut off in front of
  \<open>after\<close>.\<close>

function ref_terms_loop :: "string \<Rightarrow> bool \<Rightarrow> aval list \<Rightarrow> aval list" where
  "ref_terms_loop after found terms =
     (if found then
        (case cut_byte after CHR ''.'' of
           (before, after', found') \<Rightarrow> ref_terms_loop after' found' (terms @ [AStr before]))
      else terms)"
  by pat_completeness auto
termination
  by (relation "measure (\<lambda>(after, found, terms). if found then Suc (length after) else 0)")
    (simp, clarify, simp, metis (full_types) cut_byte_shorter)

declare ref_terms_loop.simps [simp del]

definition ref_string_to_ref :: "string \<Rightarrow> aval" where
  "ref_string_to_ref path =
     (case cut_byte path CHR ''.'' of
        (before, after, found) \<Rightarrow> ARef (ref_terms_loop after found [ref_head_term before]))"

text \<open>\<open>RefStringToBody\<close>: a body of one expression of one term.\<close>

definition ref_string_to_body :: "string \<Rightarrow> aval list" where
  "ref_string_to_body path = [ref_string_to_ref path]"

definition array_term :: "string list \<Rightarrow> aval" where
  "array_term a = (if a = [] then AArr [] else AArr (slice_map a AStr))"

definition lines_array_term :: "string \<Rightarrow> aval" where
  "lines_array_term content =
     array_term (split_byte newline (replace_all [CHR 0x0D, newline] [newline] content))"

record ast_location =
  loc_text :: string
  loc_row :: int
  loc_col :: int

definition location_end :: "ast_location \<Rightarrow> int \<times> int" where
  "location_end l =
     (let textLen = int (length (loc_text l)) in
      if textLen > 0 then
        (let numNewLines = safe_int_to_uint (int (count_list (loc_text l) newline));
             endRow = loc_row l + safe_uint_to_int numNewLines
         in if numNewLines = 0 then (endRow, loc_col l + textLen)
            else (endRow, textLen - last_index_byte (loc_text l) newline))
      else (loc_row l, loc_col l))"

definition append_location :: "string \<Rightarrow> ast_location \<Rightarrow> string" where
  "append_location buf l =
     (case location_end l of (endRow, endCol) \<Rightarrow>
        buf @ itoa_int (loc_row l) @ '':'' @ itoa_int (loc_col l) @ '':''
          @ itoa_int endRow @ '':'' @ itoa_int endCol)"

section \<open>Objects\<close>

definition obj_item :: "string \<Rightarrow> aval \<Rightarrow> aval \<times> aval" where
  "obj_item key value = (AStr key, value)"

definition obj_insert :: "(aval \<times> aval) list \<Rightarrow> string \<Rightarrow> aval \<Rightarrow> (aval \<times> aval) list" where
  "obj_insert obj key value = map_set obj (AStr key) value"

text \<open>\<open>GetValue\<close>; the type argument is the cast.\<close>

definition get_value :: "(aval \<Rightarrow> 'a option) \<Rightarrow> (aval \<times> aval) list \<Rightarrow> string \<Rightarrow> 'a option" where
  "get_value cast obj key =
     (case map_get obj (AStr key) of Some term \<Rightarrow> cast term | None \<Rightarrow> None)"

fun as_obj :: "aval \<Rightarrow> (aval \<times> aval) list option" where
  "as_obj (AObj kvs) = Some kvs"
| "as_obj v = None"

fun as_arr :: "aval \<Rightarrow> aval list option" where
  "as_arr (AArr xs) = Some xs"
| "as_arr v = None"

fun as_set :: "aval \<Rightarrow> aval list option" where
  "as_set (ASet xs) = Some xs"
| "as_set v = None"

fun as_str :: "aval \<Rightarrow> string option" where
  "as_str (AStr s) = Some s"
| "as_str v = None"

fun as_num :: "aval \<Rightarrow> string option" where
  "as_num (ANum s) = Some s"
| "as_num v = None"

fun as_bool :: "aval \<Rightarrow> bool option" where
  "as_bool (ABool b) = Some b"
| "as_bool v = None"

definition get_string :: "(aval \<times> aval) list \<Rightarrow> string \<Rightarrow> string" where
  "get_string obj key = (case get_value as_str obj key of Some s \<Rightarrow> s | None \<Rightarrow> '''')"

definition get_int :: "ast_env \<Rightarrow> (aval \<times> aval) list \<Rightarrow> string \<Rightarrow> int" where
  "get_int env obj key =
     (case get_value as_num obj key of
        Some n \<Rightarrow> (case num_int64 env n of Some i \<Rightarrow> i | None \<Rightarrow> 0)
      | None \<Rightarrow> 0)"

definition get_bool :: "(aval \<times> aval) list \<Rightarrow> string \<Rightarrow> bool" where
  "get_bool obj key = (case get_value as_bool obj key of Some b \<Rightarrow> b | None \<Rightarrow> False)"

definition values_of_type :: "(aval \<Rightarrow> 'a option) \<Rightarrow> aval list \<Rightarrow> 'a list" where
  "values_of_type cast terms = List.map_filter cast terms"

section \<open>Structs to values\<close>

text \<open>\<open>reflect.Value.IsZero\<close>.\<close>

fun is_zero :: "rval \<Rightarrow> bool" where
  "is_zero RNil = True"
| "is_zero (RAst v) = False"
| "is_zero (RPtr p) = (p = None)"
| "is_zero (RRawPtr p) = (p = None)"
| "is_zero (RStruct fs) = list_all (\<lambda>(t, v). is_zero v) fs"
| "is_zero (RSlice xs) = (xs = None)"
| "is_zero (RMap m) = (m = None)"
| "is_zero (RStr s) = (s = '''')"
| "is_zero (RInt i) = (i = 0)"
| "is_zero (RUint n) = (n = 0)"
| "is_zero (RSized n) = (n = 0)"
| "is_zero (RFloat f) = (f = ''0'')"
| "is_zero (RBool b) = (\<not> b)"
| "is_zero (ROther s) = False"

text \<open>What one field's \<open>json\<close> tag asks for: nothing, or a key; \<open>omitempty\<close> drops a zero value.\<close>

definition field_key :: "string \<Rightarrow> rval \<Rightarrow> string option" where
  "field_key tag v =
     (if tag = '''' \<or> tag = ''-'' then None
      else case index_byte tag CHR '','' of
        Some comma \<Rightarrow>
          if str_contains (drop (comma + 1) tag) ''omitempty'' \<and> is_zero v then None
          else Some (take comma tag)
      | None \<Rightarrow> Some tag)"

text \<open>The last switch of \<open>StructToValue\<close>: numbers that are integers are rewritten.\<close>

definition intern_number :: "ast_env \<Rightarrow> aval \<Rightarrow> aval" where
  "intern_number env val =
     (case val of
        ANum n \<Rightarrow> (case num_int64 env n of Some i \<Rightarrow> ANum (itoa_int i) | None \<Rightarrow> val)
      | _ \<Rightarrow> val)"

text \<open>\<open>ast.NewObject\<close>: a later item with the same key replaces the earlier one.\<close>

definition new_object :: "(aval \<times> aval) list \<Rightarrow> aval" where
  "new_object items = AObj (foldl (\<lambda>ob (k, v). map_set ob k v) [] items)"

definition wrap_int64 :: "int \<Rightarrow> int" where
  "wrap_int64 i = (i + 2 ^ 63) mod 2 ^ 64 - 2 ^ 63"

definition struct_items :: "ast_env \<Rightarrow> (string \<times> rval \<times> aval) list \<Rightarrow> (aval \<times> aval) list" where
  "struct_items env flds =
     List.map_filter (\<lambda>(tag, v, a).
       map_option (\<lambda>key. obj_item key (intern_number env a)) (field_key tag v)) flds"

text \<open>\<open>internedAny\<close>, given what \<open>toAstValue\<close> makes of the value.\<close>

definition interned_any :: "ast_env \<Rightarrow> rval \<Rightarrow> aval \<Rightarrow> aval" where
  "interned_any env v a =
     (case v of
        RBool b \<Rightarrow> ABool b
      | RStr s \<Rightarrow> AStr s
      | RInt i \<Rightarrow> ANum (itoa_int i)
      | RUint n \<Rightarrow> ANum (itoa_int (wrap_int64 (int n)))
      | RFloat f \<Rightarrow> ANum (float_number env f)
      | _ \<Rightarrow> a)"

text \<open>\<open>toAstValue\<close>, and \<open>StructToValue\<close> for a field that is a struct. No struct of the source has a
  pointer to an \<open>ast.Value\<close>.\<close>

fun to_ast_value :: "ast_env \<Rightarrow> rval \<Rightarrow> aval" where
  "to_ast_value env RNil = ANull"
| "to_ast_value env (RAst v) = v"
| "to_ast_value env (RPtr None) = ANull"
| "to_ast_value env (RPtr (Some v)) = to_ast_value env v"
| "to_ast_value env (RRawPtr None) = ANull"
| "to_ast_value env (RRawPtr (Some s)) =
     (case json_decode env s of None \<Rightarrow> ANull | Some v \<Rightarrow> v)"
| "to_ast_value env (RStruct fs) =
     new_object (struct_items env (map (\<lambda>(tag, v). (tag, v, to_ast_value env v)) fs))"
| "to_ast_value env (RSlice None) = AArr []"
| "to_ast_value env (RSlice (Some xs)) =
     (if xs = [] then AArr [] else AArr (map (\<lambda>x. interned_any env x (to_ast_value env x)) xs))"
| "to_ast_value env (RMap None) = new_object []"
| "to_ast_value env (RMap (Some m)) =
     new_object (map (\<lambda>(k, v).
       (AStr (case k of RStr s \<Rightarrow> s | _ \<Rightarrow> sprint env k), interned_any env v (to_ast_value env v))) m)"
| "to_ast_value env (RStr s) = AStr s"
| "to_ast_value env (RInt i) = ANum (itoa_int i)"
| "to_ast_value env (RUint n) = ANum (itoa n)"
| "to_ast_value env (RSized n) = ANum (itoa n)"
| "to_ast_value env (RFloat f) = ANum f"
| "to_ast_value env (RBool b) = ABool b"
| "to_ast_value env (ROther s) = AStr (sprint env (ROther s))"

text \<open>\<open>StructToValue\<close>: panics unless it is given a struct or a pointer to one.\<close>

fun struct_to_value :: "ast_env \<Rightarrow> rval \<Rightarrow> aval option" where
  "struct_to_value env (RPtr (Some (RStruct fs))) = Some (to_ast_value env (RStruct fs))"
| "struct_to_value env (RStruct fs) = Some (to_ast_value env (RStruct fs))"
| "struct_to_value env v = None"

section \<open>Lemmas\<close>

lemma ref_terms_loop_split:
  "ref_terms_loop after True terms = terms @ map AStr (split_byte CHR ''.'' after)"
proof (induction "length after" arbitrary: after terms rule: less_induct)
  case less
  show ?case
  proof (cases "CHR ''.'' \<in> set after")
    case True
    then obtain p r where s: "after = p @ CHR ''.'' # r" "CHR ''.'' \<notin> set p" by (metis split_list_first)
    have "ref_terms_loop r True (terms @ [AStr p]) = (terms @ [AStr p]) @ map AStr (split_byte CHR ''.'' r)"
      by (rule less) (simp add: s)
    then show ?thesis
      using s by (subst ref_terms_loop.simps) (simp add: cut_byte_found split_byte_append)
  next
    case False
    then show ?thesis
      by (subst ref_terms_loop.simps, subst ref_terms_loop.simps)
        (simp add: cut_byte_absent split_byte_no_sep)
  qed
qed

lemma ref_string_to_ref_split:
  "ref_string_to_ref path = (case split_byte CHR ''.'' path of
      [] \<Rightarrow> ARef [] | h # t \<Rightarrow> ARef (ref_head_term h # map AStr t))"
proof (cases "CHR ''.'' \<in> set path")
  case True
  then obtain p r where s: "path = p @ CHR ''.'' # r" "CHR ''.'' \<notin> set p" by (metis split_list_first)
  then show ?thesis
    by (simp add: ref_string_to_ref_def cut_byte_found split_byte_append ref_terms_loop_split)
next
  case False
  then show ?thesis
    by (simp add: ref_string_to_ref_def cut_byte_absent split_byte_no_sep ref_terms_loop.simps)
qed

text \<open>The position a reader is at after reading a text from a position.\<close>

fun advance :: "int \<times> int \<Rightarrow> string \<Rightarrow> int \<times> int" where
  "advance pos [] = pos"
| "advance (row, col) (c # cs) = advance (if c = newline then (row + 1, 1) else (row, col + 1)) cs"

lemma advance_append: "advance pos (xs @ ys) = advance (advance pos xs) ys"
  by (induction pos xs rule: advance.induct) auto

lemma advance_line: "newline \<notin> set s \<Longrightarrow> advance (row, col) s = (row, col + int (length s))"
  by (induction s arbitrary: row col) auto

lemma advance_row: "fst (advance (row, col) s) = row + int (count_list s newline)"
  by (induction s arbitrary: row col) auto

lemma last_index_byte_found: "c \<notin> set r \<Longrightarrow> last_index_byte (p @ c # r) c = int (length p)"
  by (simp add: last_index_byte_def index_byte_append)

text \<open>The end position that \<open>AppendLocation\<close> computes from counts and the last newline is the position
  a reader reaches who starts at the location's row and column and reads its text, for every text of at
  most \<open>math.MaxInt\<close> bytes; the location without text is its own end.\<close>

theorem location_end_advance:
  assumes "int (length (loc_text l)) \<le> max_int"
  shows "location_end l = advance (loc_row l, loc_col l) (loc_text l)"
proof (cases "newline \<in> set (loc_text l)")
  case False
  then show ?thesis
    by (auto simp: location_end_def Let_def advance_line count_list_0_iff safe_int_to_uint_def
        safe_uint_to_int_def max_int_def)
next
  case True
  then obtain p r where s: "loc_text l = p @ newline # r" "newline \<notin> set r"
    by (metis split_list_last)
  have n: "count_list (loc_text l) newline \<noteq> 0" using True by (simp add: count_list_0_iff)
  have b: "int (count_list (loc_text l) newline) \<le> max_int"
    using assms count_le_length [of "loc_text l" newline] by linarith
  obtain row col where rc: "advance (loc_row l, loc_col l) p = (row, col)" by force
  have "advance (loc_row l, loc_col l) (loc_text l) = (row + 1, 1 + int (length r))"
    using s by (simp add: advance_append rc advance_line)
  moreover have "row + 1 = loc_row l + int (count_list (loc_text l) newline)"
    using advance_row [of "loc_row l" "loc_col l" "loc_text l"] calculation by simp
  moreover have "int (length (loc_text l)) - last_index_byte (loc_text l) newline = 1 + int (length r)"
    using s by (simp add: last_index_byte_found)
  ultimately show ?thesis
    using n b s(1) by (auto simp: location_end_def Let_def safe_int_to_uint_def safe_uint_to_int_def)
qed

lemma location_end_advance_witness:
  "location_end \<lparr>loc_text = ''a'' @ [newline] @ ''bc'', loc_row = 3, loc_col = 7\<rparr> = (4, 3)"
  using location_end_advance [of "\<lparr>loc_text = ''a'' @ [newline] @ ''bc'', loc_row = 3, loc_col = 7\<rparr>"]
  by (simp add: max_int_def)

lemma new_object_get:
  "as_obj (new_object items) = Some obj \<Longrightarrow> map_of obj k = map_of (rev items) k"
proof -
  have "map_of (foldl (\<lambda>ob (k, v). map_set ob k v) ob0 items) k
      = (case map_of (rev items) k of Some v \<Rightarrow> Some v | None \<Rightarrow> map_of ob0 k)" for ob0
    by (induction items arbitrary: ob0) (auto simp: map_add_def split: option.splits)
  then show "as_obj (new_object items) = Some obj \<Longrightarrow> map_of obj k = map_of (rev items) k"
    by (auto simp: new_object_def split: option.splits)
qed

lemma wrap_int64_id: "- (2 ^ 63) \<le> i \<Longrightarrow> i < 2 ^ 63 \<Longrightarrow> wrap_int64 i = i"
  by (simp add: wrap_int64_def)

end
