(* ===== verification/Report.thy ===== *)
theory Report
  imports Rast "HOL-Library.Multiset"
begin

text \<open>
  \<open>pkg/report/report.go\<close>: violations, notices, profiles and the report that the linter returns.

  The OPA objects that a report carries along unread (\<open>Aggregates\<close>, \<open>IgnoreDirectives\<close>) are
  association lists of \<open>aval\<close>s, and the \<open>Metrics\<close> map, which only \<open>pkg/linter\<close> fills, is left out.
\<close>

section \<open>Data\<close>

record related_resource =
  rr_description :: string
  rr_reference :: string

record position =
  pos_row :: int
  pos_col :: int

record location =
  l_end :: "position option"
  l_text :: "string option"
  l_file :: string
  l_col :: int
  l_row :: int

record violation =
  v_title :: string
  v_description :: string
  v_category :: string
  v_level :: string
  v_resources :: "related_resource list"
  v_location :: location
  v_aggregate :: bool

record notice =
  n_title :: string
  n_description :: string
  n_category :: string
  n_level :: string
  n_severity :: string

record summary =
  FilesScanned :: int
  FilesFailed :: int
  RulesSkipped :: int
  NumViolations :: int

record profile_entry =
  p_location :: string
  p_total :: int
  p_eval :: int
  p_redo :: int
  p_gen :: int

type_synonym aobject = "(aval \<times> aval) list"

record report =
  Aggregates :: aobject
  AggregateProfile :: "(string, profile_entry) gomap"
  IgnoreDirectives :: aobject
  Violations :: "violation list"
  Notices :: "notice list"
  Profile :: "profile_entry list"
  Summary :: summary

definition empty_location :: location where
  "empty_location = \<lparr>l_end = None, l_text = None, l_file = '''', l_col = 0, l_row = 0\<rparr>"

definition empty_summary :: summary where
  "empty_summary = \<lparr>FilesScanned = 0, FilesFailed = 0, RulesSkipped = 0, NumViolations = 0\<rparr>"

definition empty_report :: report where
  "empty_report = \<lparr>Aggregates = [], AggregateProfile = [], IgnoreDirectives = [], Violations = [],
     Notices = [], Profile = [], Summary = empty_summary\<rparr>"

section \<open>Reading a query result\<close>

definition location_from_object :: "ast_env \<Rightarrow> aobject \<Rightarrow> location" where
  "location_from_object env obj =
     \<lparr>l_end = (case get_value as_obj obj ''end'' of
         Some endObj \<Rightarrow> Some \<lparr>pos_row = get_int env endObj ''row'', pos_col = get_int env endObj ''col''\<rparr>
       | None \<Rightarrow> None),
      l_text = (let text = get_string obj ''text'' in if text \<noteq> '''' then Some text else None),
      l_file = get_string obj ''file'',
      l_col = get_int env obj ''col'',
      l_row = get_int env obj ''row''\<rparr>"

definition location_value :: "ast_env \<Rightarrow> aobject \<Rightarrow> string \<Rightarrow> location" where
  "location_value env obj key =
     (case get_value as_obj obj key of
        Some v \<Rightarrow> location_from_object env v
      | None \<Rightarrow> empty_location)"

definition related_resources_value :: "aobject \<Rightarrow> string \<Rightarrow> related_resource list" where
  "related_resources_value obj key =
     (case get_value as_arr obj key of
        Some arr \<Rightarrow> List.map_filter (\<lambda>term.
          (case as_obj term of
             Some resObj \<Rightarrow> Some \<lparr>rr_description = get_string resObj ''description'',
                                rr_reference = get_string resObj ''ref''\<rparr>
           | None \<Rightarrow> None)) arr
      | None \<Rightarrow> [])"

definition violation_from_object :: "ast_env \<Rightarrow> aobject \<Rightarrow> violation" where
  "violation_from_object env obj =
     \<lparr>v_title = get_string obj ''title'',
      v_description = get_string obj ''description'',
      v_category = get_string obj ''category'',
      v_level = get_string obj ''level'',
      v_resources = related_resources_value obj ''related_resources'',
      v_location = location_value env obj ''location'',
      v_aggregate = False\<rparr>"

definition notice_from_object :: "aobject \<Rightarrow> notice" where
  "notice_from_object obj =
     \<lparr>n_title = get_string obj ''title'',
      n_description = get_string obj ''description'',
      n_category = get_string obj ''category'',
      n_level = get_string obj ''level'',
      n_severity = get_string obj ''severity''\<rparr>"

datatype report_error = NotAnObject aval

definition from_query_result :: "ast_env \<Rightarrow> aval \<Rightarrow> bool \<Rightarrow> report_error + report" where
  "from_query_result env result aggregate =
     (case as_obj result of
        None \<Rightarrow> Inl (NotAnObject result)
      | Some obj0 \<Rightarrow>
          (let obj = (if aggregate then
                 (case get_value as_obj obj0 ''aggregate'' of Some aggObj \<Rightarrow> aggObj | None \<Rightarrow> obj0)
               else obj0)
           in Inr (empty_report
             \<lparr>Violations := (case get_value as_set obj ''violations'' of
                  Some vs \<Rightarrow> map (violation_from_object env) (values_of_type as_obj vs)
                | None \<Rightarrow> []),
              Notices := (case get_value as_set obj ''notices'' of
                  Some ns \<Rightarrow> map notice_from_object (values_of_type as_obj ns)
                | None \<Rightarrow> []),
              Aggregates := (case get_value as_obj obj ''aggregates'' of Some v \<Rightarrow> v | None \<Rightarrow> []),
              IgnoreDirectives :=
                (case get_value as_obj obj ''ignore_directives'' of Some v \<Rightarrow> v | None \<Rightarrow> [])\<rparr>)))"

section \<open>Profiles and counts\<close>

text \<open>One entry of the loop of \<open>AddProfileEntries\<close>.\<close>

definition add_profile_entry ::
    "(string, profile_entry) gomap \<Rightarrow> string \<times> profile_entry \<Rightarrow> (string, profile_entry) gomap" where
  "add_profile_entry prof = (\<lambda>(loc, entry).
     (case map_get prof loc of
        None \<Rightarrow> map_set prof loc entry
      | Some old \<Rightarrow> map_set prof loc (old
          \<lparr>p_eval := p_eval old + p_eval entry,
           p_redo := p_redo old + p_redo entry,
           p_gen := p_gen old + p_gen entry,
           p_total := wrap_int64 (p_total old + p_total entry)\<rparr>)))"

definition add_profile_entries :: "report \<Rightarrow> (string, profile_entry) gomap \<Rightarrow> report" where
  "add_profile_entries r prof =
     r\<lparr>AggregateProfile := foldl add_profile_entry (AggregateProfile r) prof\<rparr>"

text \<open>\<open>slices.SortFunc\<close> promises a sorted permutation, not a stable one; \<open>sort_entries\<close> is the sort that
  is used, and the hypothesis on it is that promise.\<close>

definition profile_sort_ok :: "(profile_entry list \<Rightarrow> profile_entry list) \<Rightarrow> bool" where
  "profile_sort_ok sort_entries \<longleftrightarrow>
     (\<forall>ps. (\<forall>p\<in>set ps. 0 \<le> p_total p \<and> p_total p < 2 ^ 63) \<longrightarrow>
       mset (sort_entries ps) = mset ps
       \<and> sorted_wrt (\<lambda>a b. wrap_int64 (p_total b - p_total a) \<le> 0) (sort_entries ps))"

definition aggregate_profile_to_sorted_profile ::
    "(profile_entry list \<Rightarrow> profile_entry list) \<Rightarrow> report \<Rightarrow> int \<Rightarrow> report" where
  "aggregate_profile_to_sorted_profile sort_entries r numResults =
     (let profile = sort_entries (map snd (AggregateProfile r))
      in if numResults \<le> 0 \<or> numResults > int (length profile) then r\<lparr>Profile := profile\<rparr>
         else r\<lparr>Profile := take (nat numResults) profile\<rparr>)"

definition violations_file_count :: "report \<Rightarrow> (string, int) gomap" where
  "violations_file_count r =
     foldl (\<lambda>fc v. map_set fc (l_file (v_location v)) (map_get_or fc (l_file (v_location v)) 0 + 1))
       [] (Violations r)"

definition location_string :: "location \<Rightarrow> string" where
  "location_string l =
     (if l_row l = 0 \<and> l_col l = 0 then l_file l
      else l_file l @ '':'' @ itoa_int (l_row l) @ '':'' @ itoa_int (l_col l))"

section \<open>Lemmas\<close>

lemma file_count_loop:
  "map_get_or (foldl (\<lambda>fc v. map_set fc (g v) (map_get_or fc (g v) 0 + 1)) fc vs) f (0 :: int)
     = map_get_or fc f 0 + int (length (filter (\<lambda>v. g v = f) vs))"
  by (induction vs arbitrary: fc) auto

lemma file_count_keys:
  "set (map fst (foldl (\<lambda>fc v. map_set fc (g v) (h fc v)) fc vs)) = set (map fst fc) \<union> g ` set vs"
  by (induction vs arbitrary: fc) (auto simp: keys_update [simplified])

lemma file_count_wf: "map_wf fc \<Longrightarrow> map_wf (foldl (\<lambda>fc v. map_set fc (g v) (h fc v)) fc vs)"
  by (induction vs arbitrary: fc) auto

lemma violations_file_count_get:
  "map_get_or (violations_file_count r) f 0
     = int (length (filter (\<lambda>v. l_file (v_location v) = f) (Violations r)))"
  using file_count_loop [of "\<lambda>v. l_file (v_location v)" "[]" "Violations r" f]
  by (simp add: violations_file_count_def map_get_or_def)

text \<open>The total time of one location is the sum over the profiles that were added.\<close>

definition total_at :: "(string, profile_entry) gomap \<Rightarrow> string \<Rightarrow> int" where
  "total_at prof loc = (case map_get prof loc of Some e \<Rightarrow> p_eval e | None \<Rightarrow> 0)"

lemma total_at_add:
  "total_at (add_profile_entry prof (l, e)) loc = total_at prof loc + (if l = loc then p_eval e else 0)"
  by (auto simp: total_at_def add_profile_entry_def split: option.splits)

lemma total_at_entries:
  "map_wf p \<Longrightarrow> total_at (foldl add_profile_entry prof p) loc = total_at prof loc + total_at p loc"
proof (induction p arbitrary: prof)
  case Nil
  then show ?case by (simp add: total_at_def)
next
  case (Cons x p)
  obtain l e where x: "x = (l, e)" by force
  have "l \<notin> fst ` set p" using Cons.prems x by simp
  then have "total_at p l = 0" by (simp add: total_at_def map_of_eq_None_iff [THEN iffD2])
  with Cons x show ?case by (auto simp: total_at_add) (simp_all add: total_at_def)
qed

text \<open>\<open>AddProfileEntries\<close> merges a profile into the aggregate: for every location, the number of
  evaluations recorded is the sum of the aggregate's and the profile's, whatever order the profile map
  is visited in.\<close>

theorem add_profile_entries_sums:
  assumes "map_wf prof"
  shows "total_at (AggregateProfile (add_profile_entries r prof)) loc
    = total_at (AggregateProfile r) loc + total_at prof loc"
  using total_at_entries [OF assms] by (simp add: add_profile_entries_def)

lemma add_profile_entries_sums_witness:
  "total_at (AggregateProfile (add_profile_entries empty_report
      [(''a'', \<lparr>p_location = ''a'', p_total = 5, p_eval = 2, p_redo = 0, p_gen = 1\<rparr>)])) ''a'' = 2"
  by (subst add_profile_entries_sums) (simp_all add: total_at_def empty_report_def)

lemma wrap_sub_le: "0 \<le> a \<Longrightarrow> a < 2 ^ 63 \<Longrightarrow> 0 \<le> b \<Longrightarrow> b < 2 ^ 63 \<Longrightarrow> wrap_int64 (b - a) \<le> 0 \<longleftrightarrow> b \<le> (a :: int)"
  by (subst wrap_int64_id) auto

text \<open>\<open>AggregateProfileToSortedProfile\<close> keeps the slowest locations: when every recorded time is a
  non-negative \<open>int64\<close>, the profile is in order of decreasing time, is taken from the aggregate, has
  the requested length (or all entries), and nothing that was dropped is slower than what was kept.\<close>

theorem sorted_profile_slowest:
  assumes "profile_sort_ok sort_entries"
    and "\<forall>e\<in>set (map snd (AggregateProfile r)). 0 \<le> p_total e \<and> p_total e < 2 ^ 63"
  shows "\<exists>dropped.
      mset (Profile (aggregate_profile_to_sorted_profile sort_entries r n)) + mset dropped
        = mset (map snd (AggregateProfile r))
    \<and> sorted_wrt (\<lambda>a b. p_total b \<le> p_total a) (Profile (aggregate_profile_to_sorted_profile sort_entries r n))
    \<and> (\<forall>a\<in>set (Profile (aggregate_profile_to_sorted_profile sort_entries r n)). \<forall>b\<in>set dropped.
        p_total b \<le> p_total a)
    \<and> (0 < n \<and> n \<le> int (length (AggregateProfile r)) \<longrightarrow>
        length (Profile (aggregate_profile_to_sorted_profile sort_entries r n)) = nat n)
    \<and> (n \<le> 0 \<or> int (length (AggregateProfile r)) < n \<longrightarrow> dropped = [])"
proof -
  define ps where "ps = sort_entries (map snd (AggregateProfile r))"
  have m: "mset ps = mset (map snd (AggregateProfile r))"
    and s0: "sorted_wrt (\<lambda>a b. wrap_int64 (p_total b - p_total a) \<le> 0) ps"
    using assms unfolding profile_sort_ok_def ps_def by blast+
  have "\<forall>e\<in>set ps. 0 \<le> p_total e \<and> p_total e < 2 ^ 63"
    using assms(2) mset_eq_setD [OF m] by metis
  then have s: "sorted_wrt (\<lambda>a b. p_total b \<le> p_total a) ps"
    by (intro sorted_wrt_mono_rel [OF _ s0]) (auto simp: wrap_sub_le)
  have len: "length ps = length (AggregateProfile r)" using m by (metis length_map mset_eq_length)
  define k where "k = (if n \<le> 0 \<or> n > int (length ps) then length ps else nat n)"
  have p: "Profile (aggregate_profile_to_sorted_profile sort_entries r n) = take k ps"
    by (simp add: aggregate_profile_to_sorted_profile_def Let_def ps_def [symmetric] k_def)
  show ?thesis unfolding p
  proof (intro exI [of _ "drop k ps"] conjI impI)
    show "mset (take k ps) + mset (drop k ps) = mset (map snd (AggregateProfile r))"
      by (metis m append_take_drop_id mset_append)
    have a: "sorted_wrt (\<lambda>a b. p_total b \<le> p_total a) (take k ps @ drop k ps)" using s by simp
    then show "sorted_wrt (\<lambda>a b. p_total b \<le> p_total a) (take k ps)"
      and "\<forall>a\<in>set (take k ps). \<forall>b\<in>set (drop k ps). p_total b \<le> p_total a"
      unfolding sorted_wrt_append by blast+
  qed (auto simp: k_def len)
qed

lemma profile_sort_exists: "profile_sort_ok (sort_key (\<lambda>e. - p_total e))"
  unfolding profile_sort_ok_def
proof (intro allI impI conjI)
  fix ps :: "profile_entry list"
  assume r: "\<forall>p\<in>set ps. 0 \<le> p_total p \<and> p_total p < 2 ^ 63"
  show "mset (sort_key (\<lambda>e. - p_total e) ps) = mset ps" by simp
  have "sorted (map (\<lambda>e. - p_total e) (sort_key (\<lambda>e. - p_total e) ps))" by simp
  then show "sorted_wrt (\<lambda>a b. wrap_int64 (p_total b - p_total a) \<le> 0) (sort_key (\<lambda>e. - p_total e) ps)"
    unfolding sorted_map using r by (elim sorted_wrt_mono_rel [rotated]) (auto simp: wrap_sub_le)
qed

lemma sorted_profile_slowest_witness:
  "\<exists>dropped.
      mset (Profile (aggregate_profile_to_sorted_profile (sort_key (\<lambda>e. - p_total e)) empty_report 3)) + mset dropped
        = mset (map snd (AggregateProfile empty_report))"
  using sorted_profile_slowest [OF profile_sort_exists, of empty_report 3]
  by (force simp: empty_report_def)

end
