(* ===== verification/Go_Filepath.thy ===== *)
theory Go_Filepath
  imports Go_Strings
begin

text \<open>
  The part of Go's \<open>path/filepath\<close> that the modelled code calls, on Unix (the separator is a slash and
  volume names are empty). \<open>Clean\<close> works on the list of path elements that \<open>Clean\<close>'s rewriting rules
  describe: empty elements and \<open>.\<close> go, and \<open>..\<close> removes the element before it.
\<close>

section \<open>Operations\<close>

abbreviation sep :: char where
  "sep \<equiv> CHR ''/''"

definition fp_is_abs :: "string \<Rightarrow> bool" where
  "fp_is_abs p = has_prefix p ''/''"

text \<open>One element; \<open>st\<close> is what has been kept, last element first.\<close>

definition clean_step :: "bool \<Rightarrow> string list \<Rightarrow> string \<Rightarrow> string list" where
  "clean_step rooted st e =
     (if e = '''' \<or> e = ''.'' then st
      else if e = ''..'' then
        (case st of
           [] \<Rightarrow> if rooted then [] else [''..'']
         | t # ts \<Rightarrow> if t = ''..'' then ''..'' # st else ts)
      else e # st)"

definition clean_elems :: "bool \<Rightarrow> string list \<Rightarrow> string list" where
  "clean_elems rooted es = rev (foldl (clean_step rooted) [] es)"

definition unclean :: "bool \<Rightarrow> string list \<Rightarrow> string" where
  "unclean rooted es =
     (if rooted then sep # join_str ''/'' es else if es = [] then ''.'' else join_str ''/'' es)"

definition fp_clean :: "string \<Rightarrow> string" where
  "fp_clean p = unclean (fp_is_abs p) (clean_elems (fp_is_abs p) (split_byte sep p))"

text \<open>\<open>Join\<close>: leading empty elements are dropped; if nothing is left the result is empty.\<close>

definition fp_join :: "string list \<Rightarrow> string" where
  "fp_join elems =
     (case dropWhile (\<lambda>e. e = '''') elems of [] \<Rightarrow> '''' | es \<Rightarrow> fp_clean (join_str ''/'' es))"

text \<open>\<open>Split\<close>: the directory part keeps its slash.\<close>

definition fp_split :: "string \<Rightarrow> string \<times> string" where
  "fp_split p = (let i = nat (last_index_byte p sep + 1) in (take i p, drop i p))"

definition fp_dir :: "string \<Rightarrow> string" where
  "fp_dir p = fp_clean (fst (fp_split p))"

definition fp_base :: "string \<Rightarrow> string" where
  "fp_base p =
     (if p = '''' then ''.''
      else let q = rev (dropWhile (\<lambda>c. c = sep) (rev p))
        in if q = '''' then ''/'' else snd (fp_split q))"

text \<open>\<open>Ext\<close>: the suffix from the last dot of the last element.\<close>

definition fp_ext :: "string \<Rightarrow> string" where
  "fp_ext p =
     (let b = snd (fp_split p); i = last_index_byte b CHR ''.''
      in if i < 0 then '''' else drop (nat i) b)"

section \<open>Cleaned paths\<close>

text \<open>What \<open>Clean\<close> leaves: elements that are neither empty nor \<open>.\<close>, without separators, and \<open>..\<close> only in
  front and only in a relative path.\<close>

definition elem_ok :: "string \<Rightarrow> bool" where
  "elem_ok e \<longleftrightarrow> e \<noteq> '''' \<and> e \<noteq> ''.'' \<and> sep \<notin> set e"

fun clean_stack :: "bool \<Rightarrow> string list \<Rightarrow> bool" where
  "clean_stack r [] = True"
| "clean_stack r (e # st) \<longleftrightarrow>
     elem_ok e \<and> clean_stack r st \<and> (e = ''..'' \<longrightarrow> \<not> r \<and> (\<forall>y\<in>set st. y = ''..''))"

definition clean_list :: "bool \<Rightarrow> string list \<Rightarrow> bool" where
  "clean_list r es = clean_stack r (rev es)"

lemma clean_list_Nil [simp]: "clean_list r []"
  by (simp add: clean_list_def)

lemma clean_stack_ok: "clean_stack r st \<Longrightarrow> e \<in> set st \<Longrightarrow> elem_ok e"
  by (induction st) auto

lemma clean_list_ok: "clean_list r es \<Longrightarrow> \<forall>e\<in>set es. elem_ok e"
  using clean_stack_ok [of r "rev es"] by (auto simp: clean_list_def)

lemma clean_stack_append: "clean_stack r (xs @ ys) \<Longrightarrow> clean_stack r ys"
  by (induction xs) auto

lemma clean_step_clean:
  "clean_stack r st \<Longrightarrow> sep \<notin> set e \<Longrightarrow> clean_stack r (clean_step r st e)"
proof (cases st)
  case Nil
  assume "clean_stack r st" "sep \<notin> set e"
  with Nil show ?thesis by (auto simp: clean_step_def elem_ok_def)
next
  case (Cons t ts)
  assume c: "clean_stack r st" "sep \<notin> set e"
  show ?thesis
  proof (cases "e = ''..''")
    case True
    with c Cons show ?thesis
      by (cases r; cases "t = ''..''") (simp_all add: clean_step_def elem_ok_def)
  next
    case False
    with c show ?thesis by (simp add: clean_step_def elem_ok_def)
  qed
qed

lemma clean_elems_clean:
  assumes "\<And>e. e \<in> set es \<Longrightarrow> sep \<notin> set e" shows "clean_list r (clean_elems r es)"
proof -
  have "clean_stack r (foldl (clean_step r) st es)" if "clean_stack r st" for st
    using assms that by (induction es arbitrary: st) (auto simp: clean_step_clean)
  from this [of "[]"] show ?thesis by (simp add: clean_elems_def clean_list_def)
qed

text \<open>A clean list of elements is a fixed point.\<close>

lemma clean_step_push: "clean_stack r (e # st) \<Longrightarrow> clean_step r st e = e # st"
  by (cases st; cases "e = ''..''") (simp_all add: clean_step_def elem_ok_def)

lemma foldl_clean_fixed: "clean_stack r (rev es @ st) \<Longrightarrow> foldl (clean_step r) st es = rev es @ st"
proof (induction es arbitrary: st)
  case Nil
  then show ?case by simp
next
  case (Cons e es)
  then have "clean_stack r (e # st)" using clean_stack_append [of r "rev es" "e # st"] by simp
  then have "clean_step r st e = e # st" by (rule clean_step_push)
  with Cons show ?case by simp
qed

lemma clean_elems_fixed: "clean_list r es \<Longrightarrow> clean_elems r es = es"
  using foldl_clean_fixed [of r es "[]"] by (simp add: clean_elems_def clean_list_def)

lemma clean_elems_skip_empty: "clean_elems r ('''' # es) = clean_elems r es"
  by (simp add: clean_elems_def clean_step_def)

lemma is_abs_join:
  "es \<noteq> [] \<Longrightarrow> (\<forall>e\<in>set es. elem_ok e) \<Longrightarrow> \<not> fp_is_abs (join_str ''/'' es)"
  by (cases es; cases "hd es"; cases "tl es") (auto simp: fp_is_abs_def elem_ok_def)

lemma split_join_sep: "es \<noteq> [] \<Longrightarrow> (\<forall>e\<in>set es. elem_ok e) \<Longrightarrow> split_byte sep (join_str ''/'' es) = es"
  by (rule split_join) (auto simp: elem_ok_def)

lemma fp_clean_unclean:
  assumes "clean_list r es" shows "fp_clean (unclean r es) = unclean r es"
proof (cases "es = []")
  case True
  then show ?thesis
    by (cases r) (auto simp: unclean_def fp_clean_def fp_is_abs_def clean_elems_def clean_step_def)
next
  case False
  have ok: "\<forall>e\<in>set es. elem_ok e" using assms by (rule clean_list_ok)
  show ?thesis
  proof (cases r)
    case True
    then have "unclean r es = sep # join_str ''/'' es" by (simp add: unclean_def)
    moreover have "fp_is_abs (sep # join_str ''/'' es)" by (simp add: fp_is_abs_def)
    moreover have "split_byte sep (sep # join_str ''/'' es) = '''' # es"
      using split_join_sep [OF False ok] by simp
    ultimately show ?thesis
      using True clean_elems_fixed [OF assms] by (simp add: fp_clean_def clean_elems_skip_empty)
  next
    case r: False
    then have "unclean r es = join_str ''/'' es" using False by (simp add: unclean_def)
    then show ?thesis
      using r False clean_elems_fixed [OF assms] split_join_sep [OF False ok] is_abs_join [OF False ok]
      by (simp add: fp_clean_def)
  qed
qed

lemma fp_clean_form:
  obtains es where "clean_list (fp_is_abs p) es" "fp_clean p = unclean (fp_is_abs p) es"
  using clean_elems_clean [of "split_byte sep p" "fp_is_abs p"] split_byte_free [of _ sep p]
  by (metis fp_clean_def)

lemma fp_clean_idem [simp]: "fp_clean (fp_clean p) = fp_clean p"
  by (metis fp_clean_form fp_clean_unclean)

lemma fp_is_abs_clean: "fp_is_abs p \<Longrightarrow> fp_is_abs (fp_clean p)"
  by (simp add: fp_clean_def unclean_def fp_is_abs_def)

lemma clean_stack_rooted_append:
  "clean_stack True xs \<Longrightarrow> clean_stack True ys \<Longrightarrow> clean_stack True (xs @ ys)"
  by (induction xs) auto

text \<open>Joining a clean root and a clean relative path that does not climb is concatenation.\<close>

lemma fp_join_root:
  assumes "clean_list True es" "es \<noteq> []" "clean_list True fs" "fs \<noteq> []"
  shows "fp_join [unclean True es, join_str ''/'' fs] = unclean True es @ ''/'' @ join_str ''/'' fs"
proof -
  have ok: "\<forall>e\<in>set (es @ fs). elem_ok e" using clean_list_ok assms by auto
  have cl: "clean_list True (es @ fs)"
    using assms by (simp add: clean_list_def clean_stack_rooted_append)
  have j: "join_str ''/'' [unclean True es, join_str ''/'' fs] = unclean True (es @ fs)"
    using assms by (simp add: unclean_def join_str_append)
  have ne: "unclean True es \<noteq> []" by (simp add: unclean_def)
  have "fp_join [unclean True es, join_str ''/'' fs]
      = fp_clean (join_str ''/'' [unclean True es, join_str ''/'' fs])"
    using ne by (simp add: fp_join_def)
  also have "\<dots> = unclean True (es @ fs)" unfolding j by (rule fp_clean_unclean [OF cl])
  finally show ?thesis using assms by (simp add: unclean_def join_str_append)
qed

section \<open>Clean absolute paths\<close>

text \<open>A clean absolute path is \<open>rooted es\<close> for the list \<open>es\<close> of its elements.\<close>

abbreviation rooted :: "string list \<Rightarrow> string" where
  "rooted \<equiv> unclean True"

lemma fp_clean_rooted: "fp_clean (sep # s) = rooted (clean_elems True (split_byte sep s))"
  by (simp add: fp_clean_def fp_is_abs_def clean_elems_skip_empty)

lemma clean_elems_trailing: "clean_elems r (es @ ['''']) = clean_elems r es"
  by (simp add: clean_elems_def clean_step_def)

lemma clean_list_snoc: "clean_list True (es @ [e]) \<longleftrightarrow> clean_list True es \<and> elem_ok e \<and> e \<noteq> ''..''"
  by (auto simp: clean_list_def)

lemma clean_list_butlast: "clean_list True es \<Longrightarrow> clean_list True (butlast es)"
  by (cases es rule: rev_cases) (auto simp: clean_list_snoc)

lemma clean_list_take: "clean_list True es \<Longrightarrow> clean_list True (take k es)"
  using clean_stack_append [of True "rev (drop k es)" "rev (take k es)"]
  by (simp add: clean_list_def rev_append [symmetric])

lemma fp_join_rooted:
  assumes "clean_list True es" "elem_ok e" "e \<noteq> ''..''"
  shows "fp_join [rooted es, e] = rooted (es @ [e])"
proof -
  have s: "clean_elems True (split_byte sep (join_str ''/'' es @ sep # e)) = es @ [e]"
  proof (cases "es = []")
    case True
    then show ?thesis
      using assms by (simp add: split_byte_no_sep elem_ok_def clean_elems_def clean_step_def)
  next
    case False
    then show ?thesis
      using assms split_join_sep [OF False clean_list_ok [OF assms(1)]]
        clean_elems_fixed [of True "es @ [e]"]
      by (simp add: split_byte_sep split_byte_no_sep elem_ok_def clean_list_snoc)
  qed
  have "fp_join [rooted es, e] = fp_clean (sep # (join_str ''/'' es @ sep # e))"
    by (simp add: fp_join_def unclean_def)
  then show ?thesis unfolding fp_clean_rooted s .
qed

lemma fp_dir_rooted:
  assumes "clean_list True es" shows "fp_dir (rooted es) = rooted (butlast es)"
proof (cases es rule: rev_cases)
  case Nil
  then show ?thesis
    by (simp add: fp_dir_def fp_split_def unclean_def last_index_byte_def fp_clean_def fp_is_abs_def
        clean_elems_def clean_step_def)
next
  case (snoc fs e)
  with assms have e: "elem_ok e" "sep \<notin> set e" and fs: "clean_list True fs"
    by (auto simp: clean_list_snoc elem_ok_def)
  have last: "last_index_byte (a @ sep # e) sep = int (length a)" for a
    using e(2) by (simp add: last_index_byte_def index_byte_append)
  show ?thesis
  proof (cases "fs = []")
    case True
    then show ?thesis
      using snoc last [of "[]"]
      by (simp add: fp_dir_def fp_split_def unclean_def fp_clean_def fp_is_abs_def clean_elems_def clean_step_def)
  next
    case False
    have r: "rooted es = (sep # join_str ''/'' fs) @ sep # e"
      using snoc False by (simp add: unclean_def join_str_append)
    have "fst (fp_split (rooted es)) = sep # join_str ''/'' fs @ [sep]"
      unfolding r fp_split_def last Let_def by (simp add: nat_add_distrib)
    moreover have "clean_elems True (split_byte sep (join_str ''/'' fs @ [sep])) = fs"
      using split_byte_sep [of sep "join_str ''/'' fs" "[]"]
        split_join_sep [OF False clean_list_ok [OF fs]] clean_elems_fixed [OF fs]
      by (simp add: clean_elems_trailing)
    ultimately show ?thesis
      using snoc by (simp add: fp_dir_def fp_clean_rooted)
  qed
qed

end
