(* ===== verification/Uri.thy ===== *)
theory Uri
  imports Go_Filepath Go_Util
begin

text \<open>
  \<open>internal/lsp/uri/uri.go\<close>, \<open>internal/lsp/clients/clients.go\<close> and the path methods of
  \<open>internal/lsp/workspace/workspace.go\<close>: file paths and the URIs that language clients use for them.
  \<open>url.QueryEscape\<close> and \<open>url.QueryUnescape\<close> are those of Go's \<open>net/url\<close>; on Unix
  \<open>filepath.ToSlash\<close> and \<open>FromSlash\<close> change nothing.
\<close>

section \<open>Clients\<close>

datatype client_id =
    IdentifierGeneric
  | IdentifierVSCode
  | IdentifierGoTest
  | IdentifierZed
  | IdentifierNeovim
  | IdentifierIntelliJ

definition determine_identifier :: "string \<Rightarrow> client_id" where
  "determine_identifier clientName =
     (if clientName = ''go test'' then IdentifierGoTest
      else if clientName = ''Visual Studio Code'' then IdentifierVSCode
      else if clientName = ''Zed'' then IdentifierZed
      else if clientName = ''Neovim'' then IdentifierNeovim
      else if str_contains clientName ''IntelliJ'' then IdentifierIntelliJ
      else IdentifierGeneric)"

section \<open>Query escaping\<close>

definition is_letter :: "char \<Rightarrow> bool" where
  "is_letter c \<longleftrightarrow> (65 \<le> (of_char c :: nat) \<and> (of_char c :: nat) \<le> 90)
     \<or> (97 \<le> (of_char c :: nat) \<and> (of_char c :: nat) \<le> 122)"

definition unreserved :: "char \<Rightarrow> bool" where
  "unreserved c \<longleftrightarrow> is_letter c \<or> is_digit c \<or> c \<in> set ''-_.~''"

definition hex_char :: "nat \<Rightarrow> char" where
  "hex_char n = (if n < 10 then char_of (48 + n) else char_of (55 + n))"

definition hex_val :: "char \<Rightarrow> nat option" where
  "hex_val c = (let n = of_char c in
     if 48 \<le> n \<and> n \<le> 57 then Some (n - 48)
     else if 65 \<le> n \<and> n \<le> 70 then Some (n - 55)
     else if 97 \<le> n \<and> n \<le> 102 then Some (n - 87)
     else None)"

definition escape_char :: "char \<Rightarrow> string" where
  "escape_char c =
     (if unreserved c then [c]
      else if c = CHR '' '' then ''+''
      else [CHR ''%'', hex_char (of_char c div 16), hex_char (of_char c mod 16)])"

definition query_escape :: "string \<Rightarrow> string" where
  "query_escape s = concat (map escape_char s)"

fun query_unescape :: "string \<Rightarrow> string option" where
  "query_unescape [] = Some []"
| "query_unescape (c # cs) =
     (if c = CHR ''%'' then
        (case cs of
           a # b # rest \<Rightarrow>
             (case (hex_val a, hex_val b) of
                (Some x, Some y) \<Rightarrow> map_option (\<lambda>r. char_of (16 * x + y) # r) (query_unescape rest)
              | _ \<Rightarrow> None)
         | _ \<Rightarrow> None)
      else map_option (\<lambda>r. (if c = CHR ''+'' then CHR '' '' else c) # r) (query_unescape cs))"

section \<open>URIs\<close>

text \<open>\<open>drivePattern\<close>, \<open>^/?([A-Za-z]):\<close>, and its one group.\<close>

fun drive_letter :: "string \<Rightarrow> char option" where
  "drive_letter (a # b # rest) =
     (if is_letter a \<and> b = CHR '':'' then Some a
      else if a = sep then
        (case rest of c # _ \<Rightarrow> if is_letter b \<and> c = CHR '':'' then Some b else None | [] \<Rightarrow> None)
      else None)"
| "drive_letter _ = None"

definition escape_part :: "string \<Rightarrow> string" where
  "escape_part part = replace_all ''+'' ''%20'' (query_escape part)"

text \<open>The loop of \<open>FromPath\<close>, which writes the escaped parts one by one.\<close>

function write_parts :: "string \<Rightarrow> bool \<Rightarrow> string \<Rightarrow> string" where
  "write_parts remaining found sb =
     (if found then
        (case cut_byte remaining sep of
           (part, remaining', found') \<Rightarrow> write_parts remaining' found' (sb @ ''/'' @ escape_part part))
      else sb)"
  by pat_completeness auto
termination
  by (relation "measure (\<lambda>(remaining, found, sb). if found then Suc (length remaining) else 0)")
    (simp, clarify, simp, metis (full_types) cut_byte_shorter)

declare write_parts.simps [simp del]

definition from_path :: "client_id \<Rightarrow> string \<Rightarrow> string" where
  "from_path client path =
     (let path = trim_prefix path ''file://'';
          path = trim_prefix path ''/'';
          (driveLetter, path) =
            (case drive_letter path of
               Some d \<Rightarrow> ([d, CHR '':''], trim_prefix path [d, CHR '':''])
             | None \<Rightarrow> ('''', path));
          driveLetter = (if driveLetter \<noteq> '''' \<and> client = IdentifierVSCode
            then query_escape driveLetter else driveLetter);
          (part, remaining, found) = cut_byte path sep
      in write_parts remaining found (''file:///'' @ driveLetter @ escape_part part))"

definition to_path :: "string \<Rightarrow> string" where
  "to_path uri =
     (let (path, hadPrefix) = cut_prefix uri ''file://'';
          path = (if hadPrefix then (case query_unescape path of Some d \<Rightarrow> d | None \<Rightarrow> path) else path)
      in if drive_letter path \<noteq> None then trim_prefix path ''/'' else path)"

definition to_relative_path :: "string \<Rightarrow> string \<Rightarrow> string" where
  "to_relative_path uri workspaceRootURI =
     (let absolutePath = to_path uri;
          root = to_path workspaceRootURI;
          root = (if root \<noteq> '''' then ensure_suffix root ''/'' else root)
      in trim_prefix absolutePath root)"

definition from_relative_path :: "client_id \<Rightarrow> string \<Rightarrow> string \<Rightarrow> string" where
  "from_relative_path client relativePath workspaceRootURI =
     from_path client (fp_join [to_path workspaceRootURI, relativePath])"

section \<open>Workspace paths\<close>

record workspace =
  ws_uri :: string
  ws_path :: string
  ws_client :: client_id

definition new_workspace :: "string \<Rightarrow> workspace" where
  "new_workspace workspaceURI =
     \<lparr>ws_uri = workspaceURI, ws_path = to_path workspaceURI, ws_client = IdentifierGeneric\<rparr>"

definition workspace_uri :: "workspace \<Rightarrow> string list \<Rightarrow> string" where
  "workspace_uri w joined =
     (case joined of
        [] \<Rightarrow> ws_uri w
      | j # _ \<Rightarrow> if fp_is_abs j then from_path (ws_client w) (fp_join joined)
                else from_relative_path (ws_client w) (fp_join joined) (ws_uri w))"

definition workspace_path :: "workspace \<Rightarrow> string list \<Rightarrow> string" where
  "workspace_path w joined = (if joined = [] then ws_path w else fp_join (ws_path w # joined))"

definition workspace_relative_path :: "workspace \<Rightarrow> string \<Rightarrow> string" where
  "workspace_relative_path w fileURI = to_relative_path fileURI (ws_uri w)"

section \<open>Escaping: lemmas\<close>

lemma of_char_lt: "(of_char c :: nat) < 256"
  by (metis nat_of_char_less_256)

lemma of_char_div: "of_char c div 16 < (16 :: nat)"
  using of_char_lt [of c] by (simp add: div_less_iff_less_mult)

lemma hex_val_char: "n < 16 \<Longrightarrow> hex_val (hex_char n) = Some n"
  by (auto simp: hex_val_def hex_char_def Let_def)

text \<open>The escape that \<open>FromPath\<close> writes for one byte.\<close>

definition path_escape_char :: "char \<Rightarrow> string" where
  "path_escape_char c = (if c = CHR '' '' then ''%20'' else escape_char c)"

lemma hex_char_plain: "n < 16 \<Longrightarrow> hex_char n \<noteq> CHR ''+''"
proof -
  assume "n < 16"
  then have "of_char (hex_char n) \<noteq> (43 :: nat)" by (auto simp: hex_char_def)
  then show ?thesis by auto
qed

lemma unreserved_plain: "unreserved c \<Longrightarrow> c \<noteq> CHR ''+'' \<and> c \<noteq> CHR ''%'' \<and> c \<noteq> CHR '' '' \<and> c \<noteq> CHR ''/''"
  by (auto simp: unreserved_def is_letter_def is_digit_def)

lemma escape_char_replaced:
  "concat (map (\<lambda>x. if x = CHR ''+'' then ''%20'' else [x]) (escape_char c)) = path_escape_char c"
proof -
  note d = of_char_div [of c]
  then show ?thesis
    using unreserved_plain [of c] hex_char_plain [of "of_char c div 16"]
      hex_char_plain [of "of_char c mod 16"]
    by (auto simp: escape_char_def path_escape_char_def)
qed

lemma escape_part_eq: "escape_part s = concat (map path_escape_char s)"
  by (induction s)
    (simp_all add: escape_part_def query_escape_def replace_all_byte escape_char_replaced)

lemma query_unescape_escape: "query_unescape (path_escape_char c @ r) = map_option ((#) c) (query_unescape r)"
proof (cases "unreserved c")
  case True
  then show ?thesis using unreserved_plain [of c] by (simp add: path_escape_char_def escape_char_def)
next
  case False
  show ?thesis
  proof (cases "c = CHR '' ''")
    case True
    moreover have "char_of (32 :: nat) = CHR '' ''" by code_simp
    ultimately show ?thesis by (simp add: path_escape_char_def hex_val_def)
  next
    case sp: False
    have "16 * (of_char c div 16) + of_char c mod 16 = (of_char c :: nat)" by simp
    then have "char_of (16 * (of_char c div 16) + of_char c mod 16 :: nat) = c"
      by (simp del: mult_div_mod_eq)
    then show ?thesis
      using False sp hex_val_char [of "of_char c div 16"] hex_val_char [of "of_char c mod 16"]
        of_char_div [of c]
      by (simp add: path_escape_char_def escape_char_def)
  qed
qed

lemma query_unescape_part:
  "query_unescape (concat (map path_escape_char s) @ r) = map_option ((@) s) (query_unescape r)"
  by (induction s) (simp_all add: query_unescape_escape option.map_comp comp_def option.map_ident)

lemma query_unescape_parts:
  "query_unescape (join_str ''/'' (map escape_part ps)) = Some (join_str ''/'' ps)"
proof (induction ps)
  case Nil
  then show ?case by simp
next
  case (Cons p ps)
  have u: "query_unescape (CHR ''/'' # r) = map_option ((#) (CHR ''/'')) (query_unescape r)" for r by simp
  show ?case
  proof (cases ps)
    case Nil
    then show ?thesis using query_unescape_part [of p "[]"] by (simp add: escape_part_eq)
  next
    case (Cons q qs)
    with Cons.IH show ?thesis
      by (simp add: escape_part_eq query_unescape_part u del: query_unescape.simps)
  qed
qed

lemma write_parts_split:
  "write_parts r True sb = sb @ ''/'' @ join_str ''/'' (map escape_part (split_byte sep r))"
proof (induction "length r" arbitrary: r sb rule: less_induct)
  case less
  show ?case
  proof (cases "sep \<in> set r")
    case True
    then obtain p q where s: "r = p @ sep # q" "sep \<notin> set p" by (metis split_list_first)
    have "write_parts q True (sb @ ''/'' @ escape_part p)
        = (sb @ ''/'' @ escape_part p) @ ''/'' @ join_str ''/'' (map escape_part (split_byte sep q))"
      by (rule less) (simp add: s)
    then show ?thesis
      using s by (subst write_parts.simps) (simp add: cut_byte_found split_byte_append join_str_Cons)
  next
    case False
    then show ?thesis
      by (subst write_parts.simps, subst write_parts.simps) (simp add: cut_byte_absent split_byte_no_sep)
  qed
qed

lemma write_parts_all:
  "(case cut_byte path sep of (part, remaining, found) \<Rightarrow>
      write_parts remaining found (sb @ escape_part part))
     = sb @ join_str ''/'' (map escape_part (split_byte sep path))"
proof (cases "sep \<in> set path")
  case True
  then obtain p q where s: "path = p @ sep # q" "sep \<notin> set p" by (metis split_list_first)
  then show ?thesis by (simp add: cut_byte_found write_parts_split split_byte_append join_str_Cons)
next
  case False
  then show ?thesis by (simp add: cut_byte_absent split_byte_no_sep write_parts.simps)
qed

lemma from_path_absolute:
  assumes "drive_letter q = None"
  shows "from_path client (sep # q) = ''file:///'' @ join_str ''/'' (map escape_part (split_byte sep q))"
proof -
  have "trim_prefix (sep # q) ''file://'' = sep # q" "trim_prefix (sep # q) ''/'' = q"
    by (simp_all add: trim_prefix_def)
  then show ?thesis
    using assms write_parts_all [where path = q and sb = "''file:///''"]
    by (simp add: from_path_def Let_def case_prod_unfold)
qed

lemma drive_letter_root: "drive_letter (sep # q) \<noteq> None \<Longrightarrow> drive_letter q \<noteq> None"
  by (cases q; cases "tl q") (auto simp: is_letter_def split: if_splits list.splits)

lemma to_path_from_path_absolute:
  assumes "drive_letter q = None"
  shows "to_path (from_path client (sep # q)) = sep # q"
proof -
  have c: "cut_prefix (from_path client (sep # q)) ''file://''
      = (sep # join_str ''/'' (map escape_part (split_byte sep q)), True)"
    by (simp add: from_path_absolute [OF assms] cut_prefix_def)
  have "query_unescape (sep # join_str ''/'' (map escape_part (split_byte sep q))) = Some (sep # q)"
    by (simp add: query_unescape_parts)
  moreover have "drive_letter (sep # q) = None" using drive_letter_root assms by blast
  ultimately show ?thesis by (simp add: to_path_def c)
qed

text \<open>For every client, an absolute Unix path (one whose first element does not read as a Windows
  drive) comes back unchanged from its URI: escaping loses no byte, whatever bytes the path has.\<close>

theorem to_path_from_path:
  assumes "fp_is_abs p" "drive_letter (tl p) = None"
  shows "to_path (from_path client p) = p"
  using assms to_path_from_path_absolute [of "tl p" client]
  by (cases p) (auto simp: fp_is_abs_def)

lemma to_path_from_path_witness:
  "to_path (from_path IdentifierVSCode ''/a b/c+d%/e.rego'') = ''/a b/c+d%/e.rego''"
  by (rule to_path_from_path) (simp_all add: fp_is_abs_def is_letter_def)

text \<open>A literal plus sign in a URI path, which needs no escape there, is read as a space.\<close>

lemma to_path_plus: "to_path ''file:///a+b'' = ''/a b''"
  by (simp add: to_path_def cut_prefix_def is_letter_def)

section \<open>Relative paths\<close>

text \<open>Inside a workspace, a relative file path that does not climb out (given by its clean elements)
  comes back from the URI that \<open>FromRelativePath\<close> makes of it, for every client and every clean absolute
  workspace root that is not the file system's root and not a drive.\<close>

theorem relative_path_roundtrip:
  assumes "clean_list True es" "es \<noteq> []" "clean_list True fs" "fs \<noteq> []"
    and "drive_letter (join_str ''/'' es) = None" "drive_letter (join_str ''/'' (es @ fs)) = None"
  shows "to_relative_path
      (from_relative_path client (join_str ''/'' fs) (from_path client (unclean True es)))
      (from_path client (unclean True es)) = join_str ''/'' fs"
proof -
  have u: "unclean True es = sep # join_str ''/'' es" by (simp add: unclean_def)
  have r: "to_path (from_path client (unclean True es)) = unclean True es"
    unfolding u by (rule to_path_from_path_absolute [OF assms(5)])
  have j: "fp_join [unclean True es, join_str ''/'' fs] = sep # join_str ''/'' (es @ fs)"
    using fp_join_root [OF assms(1-4)] assms(2,4) by (simp add: u join_str_append)
  have p: "to_path (from_relative_path client (join_str ''/'' fs) (from_path client (unclean True es)))
      = sep # join_str ''/'' (es @ fs)"
    unfolding from_relative_path_def r j by (rule to_path_from_path_absolute [OF assms(6)])
  have "last (join_str ''/'' es) \<noteq> sep" "join_str ''/'' es \<noteq> []"
  proof -
    have ok: "\<forall>e\<in>set es. elem_ok e" by (rule clean_list_ok [OF assms(1)])
    obtain l where l: "es = butlast es @ [l]" using assms(2) by (metis append_butlast_last_id)
    then have "l \<in> set es" by (metis in_set_conv_decomp)
    then have lo: "l \<noteq> []" "sep \<notin> set l" using ok by (auto simp: elem_ok_def)
    obtain pre where pre: "join_str ''/'' es = pre @ l"
      using l by (cases "butlast es = []") (metis append_Nil join_str.simps(2), metis append_assoc join_str.simps(2) join_str_append list.distinct(1))
    then show "last (join_str ''/'' es) \<noteq> sep" "join_str ''/'' es \<noteq> []"
      using lo by (metis last_appendR last_in_set, simp)
  qed
  then have "\<not> has_suffix (unclean True es) ''/''"
    by (auto simp: u has_suffix_iff Cons_eq_append_conv)
  then have "ensure_suffix (unclean True es) ''/'' = unclean True es @ ''/''"
    by (simp add: ensure_suffix_def u)
  moreover have "sep # join_str ''/'' (es @ fs) = (unclean True es @ ''/'') @ join_str ''/'' fs"
    using assms(2,4) by (simp add: u join_str_append)
  moreover have "unclean True es \<noteq> ''''" by (simp add: u)
  ultimately show ?thesis
    using trim_prefix_append [of "unclean True es @ ''/''" "join_str ''/'' fs"]
    by (simp add: to_relative_path_def p r Let_def)
qed

lemma relative_path_roundtrip_witness:
  "to_relative_path
      (from_relative_path IdentifierZed ''pkg/x y.rego'' (from_path IdentifierZed ''/ws/my proj''))
      (from_path IdentifierZed ''/ws/my proj'') = ''pkg/x y.rego''"
  using relative_path_roundtrip [of "[''ws'', ''my proj'']" "[''pkg'', ''x y.rego'']" IdentifierZed]
  by (simp add: clean_list_def elem_ok_def is_letter_def unclean_def)

end
