(* ===== verification/Lsp_Types.thy ===== *)
theory Lsp_Types
  imports Go_Util
begin

text \<open>
  \<open>internal/lsp/types/types.go\<close>: the protocol's values that the modelled handlers use. \<open>uint\<close> fields are
  natural numbers; where the code converts an \<open>int\<close> to a \<open>uint\<close> the wrap-around is written out
  (\<open>uint_of\<close>). A pointer to an optional field is an \<open>option\<close>.
\<close>

section \<open>Data\<close>

record lsp_position =
  Line :: nat
  Character :: nat

record lsp_range =
  RStart :: lsp_position
  REnd :: lsp_position

record text_edit =
  NewText :: string
  EditRange :: lsp_range

record diagnostic =
  CodeDescription :: "string option"
  Message :: string
  Source :: "string option"
  Code :: string
  DiagRange :: lsp_range
  Severity :: "nat option"

record lsp_location =
  LocURI :: string
  LocRange :: lsp_range

record file_rename =
  NewURI :: string
  OldURI :: string

record text_document_item =
  LanguageID :: string
  ItemText :: string
  ItemURI :: string
  ItemVersion :: nat

record content_change =
  ChangeRange :: "lsp_range option"
  ChangeText :: string

record workspace_diagnostic_report =
  ReportURI :: string
  ReportVersion :: "nat option"
  ReportKind :: string
  ReportItems :: "diagnostic list"

section \<open>Operations\<close>

definition uint_of :: "int \<Rightarrow> nat" where
  "uint_of i = nat (i mod 2 ^ 64)"

definition range_between :: "nat \<Rightarrow> nat \<Rightarrow> nat \<Rightarrow> nat \<Rightarrow> lsp_range" where
  "range_between startLine startCharacter endLine endCharacter =
     \<lparr>RStart = \<lparr>Line = startLine, Character = startCharacter\<rparr>,
      REnd = \<lparr>Line = endLine, Character = endCharacter\<rparr>\<rparr>"

definition to_offset :: "lsp_position \<Rightarrow> string \<Rightarrow> int" where
  "to_offset p text =
     (if Line p = 0 then safe_uint_to_int (int (Character p))
      else let offset = index_byte_nth text newline (Line p)
        in if offset > - 1 then offset + 1 + safe_uint_to_int (int (Character p))
           else int (length text))"

lemma uint_of_nonneg: "0 \<le> i \<Longrightarrow> i < 2 ^ 64 \<Longrightarrow> uint_of i = nat i"
  by (simp add: uint_of_def)

text \<open>\<open>ToOffset\<close> of the start of a line is the length of everything in front of that line, for every
  line the text has; below the last line it is the length of the text.\<close>

theorem to_offset_line_start:
  assumes "Character p = 0"
  shows "to_offset p text =
    (if int (Line p) < num_lines text
     then int (length text) - int (length (join_str [newline] (drop (Line p) (split_byte newline text))))
     else int (length text))"
proof -
  have len: "num_lines text = int (length (split_byte newline text))"
    by (simp add: num_lines_def safe_int_to_uint_def length_split_byte)
  have c0: "safe_uint_to_int 0 = 0" by (simp add: safe_uint_to_int_def max_int_def)
  show ?thesis
  proof (cases "Line p = 0")
    case True
    then show ?thesis using assms c0 len by (simp add: to_offset_def)
  next
    case nz: False
    show ?thesis
    proof (cases "Line p < length (split_byte newline text)")
      case False
      then show ?thesis
        using nz index_byte_nth_loop_split [of 0 "text" "Line p" newline] len assms
        by (simp add: to_offset_def index_byte_nth_def)
    next
      case True
      define i where "i = index_byte_nth text newline (Line p)"
      have i: "0 \<le> i" "i + 1 \<le> int (length text)"
        "split_byte newline (drop (nat (i + 1)) text) = drop (Line p) (split_byte newline text)"
        using True nz index_byte_nth_loop_split [of 0 "text" "Line p" newline]
        by (auto simp: index_byte_nth_def i_def)
      then have "join_str [newline] (drop (Line p) (split_byte newline text)) = drop (nat (i + 1)) text"
        by (metis join_split)
      then show ?thesis
        using i True nz assms c0 len by (simp add: to_offset_def i_def [symmetric] of_nat_diff)
    qed
  qed
qed

lemma to_offset_line_start_witness:
  "to_offset \<lparr>Line = 1, Character = 0\<rparr> (''ab'' @ [newline] @ ''c'') = 3"
  using to_offset_line_start [of "\<lparr>Line = 1, Character = 0\<rparr>" "''ab'' @ [newline] @ ''c''"]
  by (simp add: num_lines_def safe_int_to_uint_def)

end
