(* ===== verification/Diff_Proofs.thy ===== *)
theory Diff_Proofs
  imports Diff "HOL-Library.Sublist"
begin

text \<open>
  The correctness of the line difference of \<^verbatim>\<open>internal/lsp/diff.go\<close>: the edit grid and the points
  that scripts of a given length reach (first section), the arrays that \<open>shortestEditSequence\<close> fills
  (second), the path that \<open>backtrack\<close> reads from them (third) and the operations that are made of it
  (fourth).
\<close>

section \<open>The edit grid\<close>

text \<open>\<open>reach a b d x y\<close>: some sequence of moves with \<open>d\<close> insertions or deletions leads from the origin to
  \<open>(x, y)\<close>. As in the algorithm, moves may leave the grid to the right and below.\<close>

inductive reach :: "'a list \<Rightarrow> 'a list \<Rightarrow> int \<Rightarrow> int \<Rightarrow> int \<Rightarrow> bool" for a b where
  origin: "reach a b 0 0 0"
| diag: "reach a b d x y \<Longrightarrow> x < int (length a) \<Longrightarrow> y < int (length b) \<Longrightarrow>
    a ! nat x = b ! nat y \<Longrightarrow> reach a b d (x + 1) (y + 1)"
| right: "reach a b d x y \<Longrightarrow> reach a b (d + 1) (x + 1) y"
| down: "reach a b d x y \<Longrightarrow> reach a b (d + 1) x (y + 1)"

lemma reach_nonneg: "reach a b d x y \<Longrightarrow> 0 \<le> d \<and> 0 \<le> x \<and> 0 \<le> y"
  by (induction rule: reach.induct) auto

lemma reach_diagonal: "reach a b d x y \<Longrightarrow> \<bar>x - y\<bar> \<le> d \<and> even (d + (x - y))"
proof (induction rule: reach.induct)
  case (right d x y)
  then show ?case by (intro conjI; presburger)
next
  case (down d x y)
  then show ?case by (intro conjI; presburger)
qed simp_all

text \<open>A point outside the grid costs at least the steps outside.\<close>

lemma reach_clamp:
  "reach a b d x y \<Longrightarrow> \<exists>d'. reach a b d' (min x (int (length a))) (min y (int (length b)))
     \<and> d' + (x - min x (int (length a))) + (y - min y (int (length b))) \<le> d"
proof (induction rule: reach.induct)
  case origin
  then show ?case by (auto intro!: exI [of _ 0] reach.origin)
next
  case (diag d x y)
  then have m: "min x (int (length a)) = x" "min y (int (length b)) = y"
    "min (x + 1) (int (length a)) = x + 1" "min (y + 1) (int (length b)) = y + 1" by auto
  with diag obtain d' where "reach a b d' x y" "d' \<le> d" by auto
  with diag.hyps m show ?case by (auto intro!: exI [of _ d'] reach.diag)
next
  case (right d x y)
  then obtain d' where d': "reach a b d' (min x (int (length a))) (min y (int (length b)))"
    "d' + (x - min x (int (length a))) + (y - min y (int (length b))) \<le> d" by blast
  show ?case
  proof (cases "x < int (length a)")
    case True
    then have "min (x + 1) (int (length a)) = min x (int (length a)) + 1" by auto
    with d' reach.right [OF d'(1)] True show ?thesis by (auto intro!: exI [of _ "d' + 1"])
  next
    case False
    then have "min (x + 1) (int (length a)) = min x (int (length a))" by auto
    with d' show ?thesis by (auto intro!: exI [of _ d'])
  qed
next
  case (down d x y)
  then obtain d' where d': "reach a b d' (min x (int (length a))) (min y (int (length b)))"
    "d' + (x - min x (int (length a))) + (y - min y (int (length b))) \<le> d" by blast
  show ?case
  proof (cases "y < int (length b)")
    case True
    then have "min (y + 1) (int (length b)) = min y (int (length b)) + 1" by auto
    with d' reach.down [OF d'(1)] True show ?thesis by (auto intro!: exI [of _ "d' + 1"])
  next
    case False
    then have "min (y + 1) (int (length b)) = min y (int (length b))" by auto
    with d' show ?thesis by (auto intro!: exI [of _ d'])
  qed
qed

lemma reach_overshoot:
  assumes "reach a b d x y" "int (length a) < x" "x - y = int (length a) - int (length b)"
  shows "\<exists>d'. d' < d \<and> reach a b d' (int (length a)) (int (length b))"
proof -
  have m: "min x (int (length a)) = int (length a)" "min y (int (length b)) = int (length b)"
    using assms by auto
  from reach_clamp [OF assms(1), unfolded m] obtain d' where
    d': "reach a b d' (int (length a)) (int (length b))"
    "d' + (x - int (length a)) + (y - int (length b)) \<le> d" by blast
  show ?thesis by (rule exI [of _ d']) (use d' assms in linarith)
qed

text \<open>A common subsequence of the rest of both texts gives a way to the end.\<close>

lemma reach_rights: "reach a b d x y \<Longrightarrow> reach a b (d + int n) (x + int n) y"
proof (induction n)
  case (Suc n)
  then show ?case using reach.right [of a b "d + int n" "x + int n" y] by (simp add: ac_simps)
qed simp

lemma reach_downs: "reach a b d x y \<Longrightarrow> reach a b (d + int n) x (y + int n)"
proof (induction n)
  case (Suc n)
  then show ?case using reach.down [of a b "d + int n" x "y + int n"] by (simp add: ac_simps)
qed simp

lemma reach_subseq:
  "reach a b d (int i) (int j) \<Longrightarrow> i \<le> length a \<Longrightarrow> j \<le> length b \<Longrightarrow>
     subseq s (drop i a) \<Longrightarrow> subseq s (drop j b) \<Longrightarrow>
     reach a b (d + int (length a - i) + int (length b - j) - 2 * int (length s))
       (int (length a)) (int (length b))"
proof (induction "(length a - i) + (length b - j)" arbitrary: d i j s rule: less_induct)
  case less
  show ?case
  proof (cases s)
    case Nil
    from reach_downs [OF reach_rights [OF less.prems(1), of "length a - i"], of "length b - j"]
    show ?thesis using less.prems Nil by (simp add: algebra_simps of_nat_diff)
  next
    case (Cons c s')
    then have lt: "i < length a" "j < length b"
      using less.prems by (auto simp: not_less [symmetric] dest!: list_emb_length intro: ccontr)
    have da: "drop i a = a ! i # drop (Suc i) a" and db: "drop j b = b ! j # drop (Suc j) b"
      using lt by (simp_all add: Cons_nth_drop_Suc)
    consider (left) "a ! i \<noteq> c" | (below) "a ! i = c" "b ! j \<noteq> c" | (both) "a ! i = c" "b ! j = c" by blast
    then show ?thesis
    proof cases
      case left
      have "subseq s (drop (Suc i) a)" using less.prems(4) left unfolding da Cons by simp
      from less.hyps [of "Suc i" j "d + 1" s] this less.prems lt
        reach.right [OF less.prems(1)]
      show ?thesis by (simp add: algebra_simps of_nat_diff)
    next
      case below
      have "subseq s (drop (Suc j) b)" using less.prems(5) below unfolding db Cons by simp
      from less.hyps [of i "Suc j" "d + 1" s] this less.prems lt
        reach.down [OF less.prems(1)]
      show ?thesis by (simp add: algebra_simps of_nat_diff)
    next
      case both
      have "subseq s' (drop (Suc i) a)" "subseq s' (drop (Suc j) b)"
        using less.prems(4,5) both unfolding da db Cons by simp_all
      from less.hyps [of "Suc i" "Suc j" d s'] this less.prems lt
        reach.diag [OF less.prems(1)] both
      show ?thesis by (simp add: algebra_simps of_nat_diff Cons)
    qed
  qed
qed

lemma reach_end: "reach a b (int (length b) + int (length a)) (int (length a)) (int (length b))"
  using reach_subseq [of a b 0 0 0 "[]"] reach.origin [of a b] by (simp add: add.commute)

lemma least_reach:
  obtains d where "reach a b d (int (length a)) (int (length b))" "0 \<le> d"
    "d \<le> int (length b) + int (length a)"
    "\<And>d'. reach a b d' (int (length a)) (int (length b)) \<Longrightarrow> d \<le> d'"
proof -
  let ?P = "\<lambda>n. reach a b (int n) (int (length a)) (int (length b))"
  have ex: "?P (length b + length a)" using reach_end [of a b] by simp
  define n where "n = (LEAST n. ?P n)"
  have "?P n" unfolding n_def by (rule LeastI [of ?P, OF ex])
  moreover have "n \<le> length b + length a" unfolding n_def by (rule Least_le [of ?P, OF ex])
  moreover have "int n \<le> d'" if "reach a b d' (int (length a)) (int (length b))" for d'
  proof -
    have "0 \<le> d'" using reach_nonneg [OF that] by simp
    then have "?P (nat d')" using that by simp
    then have "n \<le> nat d'" unfolding n_def by (rule Least_le)
    then show ?thesis using \<open>0 \<le> d'\<close> by simp
  qed
  ultimately show ?thesis by (intro that [of "int n"]) auto
qed

section \<open>Slides\<close>

text \<open>\<open>c\<close> diagonal moves are possible from \<open>(x, y)\<close>.\<close>

definition matches :: "'a list \<Rightarrow> 'a list \<Rightarrow> int \<Rightarrow> int \<Rightarrow> int \<Rightarrow> bool" where
  "matches a b x y c \<longleftrightarrow> (\<forall>i. 0 \<le> i \<and> i < c \<longrightarrow>
     x + i < int (length a) \<and> y + i < int (length b) \<and> a ! nat (x + i) = b ! nat (y + i))"

lemma slide_matches:
  assumes "0 \<le> x" "0 \<le> y"
  shows "\<exists>c. 0 \<le> c \<and> slide a b x y = Some (x + c, y + c) \<and> matches a b x y c
    \<and> \<not> (x + c < int (length a) \<and> y + c < int (length b) \<and> a ! nat (x + c) = b ! nat (y + c))"
  using assms
proof (induction a b x y rule: slide.induct)
  case (1 a b x y)
  show ?case
  proof (cases "x < int (length a) \<and> y < int (length b) \<and> a ! nat x = b ! nat y")
    case True
    then have "\<exists>c. 0 \<le> c \<and> slide a b (x + 1) (y + 1) = Some (x + 1 + c, y + 1 + c)
      \<and> matches a b (x + 1) (y + 1) c
      \<and> \<not> (x + 1 + c < int (length a) \<and> y + 1 + c < int (length b)
        \<and> a ! nat (x + 1 + c) = b ! nat (y + 1 + c))"
      using 1 by (intro "1.IH") (auto simp: go_idx)
    then obtain c where c: "0 \<le> c" "slide a b (x + 1) (y + 1) = Some (x + 1 + c, y + 1 + c)"
      "matches a b (x + 1) (y + 1) c"
      "\<not> (x + 1 + c < int (length a) \<and> y + 1 + c < int (length b)
        \<and> a ! nat (x + 1 + c) = b ! nat (y + 1 + c))" by blast
    have "matches a b x y (c + 1)"
      unfolding matches_def
    proof (intro allI impI)
      fix i assume i: "0 \<le> i \<and> i < c + 1"
      show "x + i < int (length a) \<and> y + i < int (length b) \<and> a ! nat (x + i) = b ! nat (y + i)"
      proof (cases "i = 0")
        case False
        with i c(3) have "x + 1 + (i - 1) < int (length a) \<and> y + 1 + (i - 1) < int (length b)
          \<and> a ! nat (x + 1 + (i - 1)) = b ! nat (y + 1 + (i - 1))"
          by (intro c(3) [unfolded matches_def, rule_format]) auto
        then show ?thesis by (simp add: algebra_simps)
      qed (use True in simp)
    qed
    moreover have "slide a b x y = Some (x + (c + 1), y + (c + 1))"
      using True 1 c(2) by (subst slide.simps) (auto simp: go_idx algebra_simps)
    ultimately show ?thesis using c by (intro exI [of _ "c + 1"]) (auto simp: algebra_simps)
  next
    case False
    have "slide a b x y = Some (x, y)" using False 1(2,3) by (subst slide.simps) (auto simp: go_idx)
    with False show ?thesis by (intro exI [of _ 0]) (auto simp: matches_def)
  qed
qed

lemma reach_matches:
  assumes "reach a b d x y" "matches a b x y c" "0 \<le> c" shows "reach a b d (x + c) (y + c)"
proof -
  have "reach a b d (x + int n) (y + int n)" if "int n \<le> c" for n
    using that
  proof (induction n)
    case 0
    then show ?case using assms by simp
  next
    case (Suc n)
    then have "x + int n < int (length a) \<and> y + int n < int (length b)
      \<and> a ! nat (x + int n) = b ! nat (y + int n)" using assms(2) by (auto simp: matches_def)
    with Suc reach.diag [of a b d "x + int n" "y + int n"] show ?case by (simp add: algebra_simps)
  qed
  from this [of "nat c"] assms(3) show ?thesis by simp
qed

section \<open>Furthest points\<close>

abbreviation cell :: "int list \<Rightarrow> int \<Rightarrow> int \<Rightarrow> int" where
  "cell V off k \<equiv> V ! nat (k + off)"

text \<open>The entry of diagonal \<open>k\<close> is the furthest point that scripts of length \<open>d\<close> reach on it.\<close>

definition best :: "'a list \<Rightarrow> 'a list \<Rightarrow> int list \<Rightarrow> int \<Rightarrow> int \<Rightarrow> int \<Rightarrow> bool" where
  "best a b V off d k \<longleftrightarrow> reach a b d (cell V off k) (cell V off k - k)
     \<and> (\<forall>x y. reach a b d x y \<and> x - y = k \<longrightarrow> x \<le> cell V off k)"

text \<open>The entry is where the step that the loop takes on diagonal \<open>k\<close> ends.\<close>

definition link :: "'a list \<Rightarrow> 'a list \<Rightarrow> int list \<Rightarrow> int \<Rightarrow> int \<Rightarrow> int \<Rightarrow> bool" where
  "link a b V off d k \<longleftrightarrow> (\<exists>x0. next_x V off d k = Some x0 \<and> 0 \<le> x0 \<and> 0 \<le> x0 - k
     \<and> slide a b x0 (x0 - k) = Some (cell V off k, cell V off k - k))"

definition prev_ok :: "'a list \<Rightarrow> 'a list \<Rightarrow> int list \<Rightarrow> int \<Rightarrow> int \<Rightarrow> bool" where
  "prev_ok a b V off d \<longleftrightarrow>
     (if d = 0 then cell V off 1 = 0
      else \<forall>k. - (d - 1) \<le> k \<and> k \<le> d - 1 \<and> even (d - 1 + k) \<longrightarrow> best a b V off (d - 1) k)"

definition round_inv :: "'a list \<Rightarrow> 'a list \<Rightarrow> int list \<Rightarrow> int \<Rightarrow> int \<Rightarrow> int \<Rightarrow> bool" where
  "round_inv a b V off d k \<longleftrightarrow> int (length V) = 2 * off + 1 \<and> 0 \<le> d \<and> d \<le> off \<and> 1 \<le> off
     \<and> prev_ok a b V off d
     \<and> (\<forall>k'. - d \<le> k' \<and> k' < k \<and> even (d + k') \<longrightarrow> best a b V off d k' \<and> link a b V off d k')"

lemma best_reach: "best a b V off d k \<Longrightarrow> 0 \<le> cell V off k \<and> 0 \<le> cell V off k - k"
  unfolding best_def using reach_nonneg by blast

lemma max_on_diagonal:
  assumes "reach a b d x' y'" "x' - y' = k"
    and start: "d = 0 \<Longrightarrow> k = 0 \<Longrightarrow> 0 \<le> x0"
    and right: "\<And>x y. reach a b (d - 1) x y \<Longrightarrow> x - y = k - 1 \<Longrightarrow> x + 1 \<le> x0"
    and down: "\<And>x y. reach a b (d - 1) x y \<Longrightarrow> x - y = k + 1 \<Longrightarrow> x \<le> x0"
    and stop: "x0 \<le> x" "\<not> (x < int (length a) \<and> x - k < int (length b) \<and> a ! nat x = b ! nat (x - k))"
  shows "x' \<le> x"
  using assms(1,2) start right down
proof (induction rule: reach.induct)
  case origin
  then show ?case using stop(1) by auto
next
  case (diag d x1 y1)
  then have le: "x1 \<le> x" by auto
  have "x1 \<noteq> x" using diag.hyps(2-4) diag.prems(1) stop(2) by auto
  with le show ?case by simp
next
  case (right d x1 y1)
  then have "x1 + 1 \<le> x0" by (intro right.prems(3)) auto
  with stop(1) show ?case by simp
next
  case (down d x1 y1)
  then have "x1 \<le> x0" by (intro down.prems(4) [of x1 y1]) auto
  with stop(1) show ?case by simp
qed

text \<open>Where the loop starts on diagonal \<open>k\<close>: no reachable predecessor leads further.\<close>

lemma next_x_best:
  assumes inv: "round_inv a b V off d k" and k: "- d \<le> k" "k \<le> d" "even (d + k)"
  obtains x0 where "next_x V off d k = Some x0" "reach a b d x0 (x0 - k)"
    "d = 0 \<Longrightarrow> k = 0 \<Longrightarrow> 0 \<le> x0"
    "\<And>x y. reach a b (d - 1) x y \<Longrightarrow> x - y = k - 1 \<Longrightarrow> x + 1 \<le> x0"
    "\<And>x y. reach a b (d - 1) x y \<Longrightarrow> x - y = k + 1 \<Longrightarrow> x \<le> x0"
proof (cases "d = 0")
  case True
  with inv k have "next_x V off d k = Some 0"
    by (simp add: round_inv_def prev_ok_def next_x_def go_down_def go_idx)
  with True k that [of 0] show ?thesis using reach.origin [of a b] reach_nonneg by force
next
  case False
  with inv have d: "0 < d" "d \<le> off" "int (length V) = 2 * off + 1"
    and prev: "\<And>k. - (d - 1) \<le> k \<Longrightarrow> k \<le> d - 1 \<Longrightarrow> even (d - 1 + k) \<Longrightarrow> best a b V off (d - 1) k"
    by (auto simp: round_inv_def prev_ok_def)
  have left: "k \<noteq> - d \<Longrightarrow> best a b V off (d - 1) (k - 1)"
    and right: "k \<noteq> d \<Longrightarrow> best a b V off (d - 1) (k + 1)"
    using k by (intro prev; presburger)+
  have gl: "k \<noteq> - d \<Longrightarrow> idx_get V (k - 1 + off) = Some (cell V off (k - 1))"
    and gr: "k \<noteq> d \<Longrightarrow> idx_get V (k + 1 + off) = Some (cell V off (k + 1))"
    using k d by (auto simp: idx_get_def)
  have rl: "reach a b d (cell V off (k - 1) + 1) (cell V off (k - 1) + 1 - k)" if "k \<noteq> - d"
    using reach.right [of a b "d - 1" "cell V off (k - 1)" "cell V off (k - 1) - (k - 1)"] left [OF that]
    by (simp add: best_def algebra_simps)
  have rr: "reach a b d (cell V off (k + 1)) (cell V off (k + 1) - k)" if "k \<noteq> d"
    using reach.down [of a b "d - 1" "cell V off (k + 1)" "cell V off (k + 1) - (k + 1)"] right [OF that]
    by (simp add: best_def algebra_simps)
  have ml: "k \<noteq> - d \<and> x \<le> cell V off (k - 1)" if r: "reach a b (d - 1) x y" "x - y = k - 1" for x y
  proof -
    have "k \<noteq> - d" using reach_diagonal [OF r(1)] r(2) by linarith
    with left r show ?thesis unfolding best_def by blast
  qed
  have mr: "k \<noteq> d \<and> x \<le> cell V off (k + 1)" if r: "reach a b (d - 1) x y" "x - y = k + 1" for x y
  proof -
    have "k \<noteq> d" using reach_diagonal [OF r(1)] r(2) by linarith
    with right r show ?thesis unfolding best_def by blast
  qed
  consider (l) "k = - d" | (r) "k = d" | (lt) "k \<noteq> - d" "k \<noteq> d" "cell V off (k - 1) < cell V off (k + 1)"
    | (ge) "k \<noteq> - d" "k \<noteq> d" "\<not> cell V off (k - 1) < cell V off (k + 1)" by blast
  then show ?thesis
  proof cases
    case l
    then have "k \<noteq> d" using d by simp
    with l gr have "next_x V off d k = Some (cell V off (k + 1))" by (simp add: next_x_def go_down_def)
    then show ?thesis by (rule that) (use rr [OF \<open>k \<noteq> d\<close>] ml mr l False in auto)
  next
    case r
    then have "k \<noteq> - d" using d by simp
    with r gl have "next_x V off d k = Some (cell V off (k - 1) + 1)" by (simp add: next_x_def go_down_def)
    then show ?thesis by (rule that) (use rl [OF \<open>k \<noteq> - d\<close>] ml mr r False in fastforce)+
  next
    case lt
    with gl gr have "next_x V off d k = Some (cell V off (k + 1))" by (simp add: next_x_def go_down_def)
    then show ?thesis by (rule that) (use rr [OF lt(2)] ml mr lt(3) False in force)+
  next
    case ge
    with gl gr have "next_x V off d k = Some (cell V off (k - 1) + 1)" by (simp add: next_x_def go_down_def)
    then show ?thesis by (rule that) (use rl [OF ge(1)] ml mr ge(3) False in force)+
  qed
qed

lemma next_x_cong:
  assumes "length V' = length V" "\<And>j. j \<noteq> k0 \<Longrightarrow> idx_get V' (j + off) = idx_get V (j + off)"
    "k - 1 \<noteq> k0" "k + 1 \<noteq> k0"
  shows "next_x V' off d k = next_x V off d k"
  by (simp only: next_x_def go_down_def assms(2) [OF assms(3)] assms(2) [OF assms(4)])

text \<open>One turn of the inner loop extends the invariant by one diagonal.\<close>

lemma round_step:
  assumes inv: "round_inv a b V off d k" and k: "- d \<le> k" "k \<le> d" "even (d + k)"
  obtains x0 x V' where "next_x V off d k = Some x0" "slide a b x0 (x0 - k) = Some (x, x - k)"
    "idx_set V (k + off) x = Some V'" "round_inv a b V' off d (k + 2)" "cell V' off k = x"
    "\<And>j. 0 \<le> j + off \<Longrightarrow> j \<noteq> k \<Longrightarrow> cell V' off j = cell V off j"
proof -
  obtain x0 where x0: "next_x V off d k = Some x0" "reach a b d x0 (x0 - k)"
    "d = 0 \<Longrightarrow> k = 0 \<Longrightarrow> 0 \<le> x0"
    "\<And>x y. reach a b (d - 1) x y \<Longrightarrow> x - y = k - 1 \<Longrightarrow> x + 1 \<le> x0"
    "\<And>x y. reach a b (d - 1) x y \<Longrightarrow> x - y = k + 1 \<Longrightarrow> x \<le> x0"
    using next_x_best [OF inv k] by blast
  have nn: "0 \<le> x0" "0 \<le> x0 - k" using reach_nonneg [OF x0(2)] by auto
  obtain c where c: "0 \<le> c" "slide a b x0 (x0 - k) = Some (x0 + c, x0 - k + c)" "matches a b x0 (x0 - k) c"
    "\<not> (x0 + c < int (length a) \<and> x0 - k + c < int (length b) \<and> a ! nat (x0 + c) = b ! nat (x0 - k + c))"
    using slide_matches [OF nn] by blast
  define x where "x = x0 + c"
  have xk: "x0 - k + c = x - k" by (simp add: x_def)
  have sl: "slide a b x0 (x0 - k) = Some (x, x - k)" using c(2) by (simp add: x_def algebra_simps)
  have len: "int (length V) = 2 * off + 1" "d \<le> off" using inv by (auto simp: round_inv_def)
  define V' where "V' = V[nat (k + off) := x]"
  have set: "idx_set V (k + off) x = Some V'" using len k by (simp add: idx_set_def V'_def)
  have at: "cell V' off k = x" using len k by (simp add: V'_def)
  have other: "cell V' off j = cell V off j" if "0 \<le> j + off" "j \<noteq> k" for j
    using that len k by (simp add: V'_def nth_list_update nat_eq_iff)
  have get: "idx_get V' (j + off) = idx_get V (j + off)" if "j \<noteq> k" for j
    using other [OF _ that] by (auto simp: idx_get_def V'_def)
  have l': "length V' = length V" by (simp add: V'_def)
  have b: "best a b V' off d k" unfolding best_def at
  proof (intro conjI allI impI)
    show "reach a b d x (x - k)" using reach_matches [OF x0(2) c(3,1)] by (simp add: xk x_def)
    fix x' y' assume r: "reach a b d x' y' \<and> x' - y' = k"
    show "x' \<le> x"
      by (rule max_on_diagonal [OF conjunct1 [OF r] conjunct2 [OF r], of x0])
        (use x0(3-5) c(1,4) in \<open>auto simp: x_def algebra_simps\<close>)
  qed
  have keep: "best a b V' off e j \<longleftrightarrow> best a b V off e j" if "0 \<le> j + off" "j \<noteq> k" for e j
    using other [OF that] by (simp add: best_def)
  have nx: "next_x V' off d j = next_x V off d j" if "even (d + j)" for j
  proof (rule next_x_cong [where ?k0.0 = k])
    show "length V' = length V" by (rule l')
    show "idx_get V' (i + off) = idx_get V (i + off)" if "i \<noteq> k" for i by (rule get [OF that])
    show "j - 1 \<noteq> k" "j + 1 \<noteq> k" using that k(3) by presburger+
  qed
  have lk: "link a b V' off d k"
    unfolding link_def using x0(1) nn sl at nx [OF k(3)] by auto
  have p: "prev_ok a b V' off d"
  proof (cases "d = 0")
    case True
    then show ?thesis using inv other [of 1] k by (auto simp: round_inv_def prev_ok_def)
  next
    case False
    show ?thesis unfolding prev_ok_def
    proof (simp only: False if_False, intro allI impI)
      fix j assume j: "- (d - 1) \<le> j \<and> j \<le> d - 1 \<and> even (d - 1 + j)"
      have "j \<noteq> k" using j k(3) by presburger
      moreover have "best a b V off (d - 1) j" using inv j False by (auto simp: round_inv_def prev_ok_def)
      ultimately show "best a b V' off (d - 1) j" using keep [of j] j len by auto
    qed
  qed
  have "round_inv a b V' off d (k + 2)" unfolding round_inv_def
  proof (intro conjI allI impI)
    fix j assume j: "- d \<le> j \<and> j < k + 2 \<and> even (d + j)"
    show "best a b V' off d j"
    proof (cases "j = k")
      case False
      then have "j < k" using j k(3) by presburger
      with inv j have "best a b V off d j" by (auto simp: round_inv_def)
      then show ?thesis using keep [of j d] False j len by auto
    qed (use b in simp)
    show "link a b V' off d j"
    proof (cases "j = k")
      case False
      then have "j < k" using j k(3) by presburger
      with inv j have "link a b V off d j" by (auto simp: round_inv_def)
      then show ?thesis using nx [of j] other [of j] False j len by (auto simp: link_def)
    qed (use lk in simp)
  qed (use inv l' p in \<open>auto simp: round_inv_def\<close>)
  with that [OF x0(1) sl set _ at other] show ?thesis by blast
qed

section \<open>The loops of \<open>shortestEditSequence\<close>\<close>

lemma round_inv_mono: "round_inv a b V off d k \<Longrightarrow> k' \<le> k \<Longrightarrow> round_inv a b V off d k'"
  by (auto simp: round_inv_def)

text \<open>What the inner loop returns: the flag says whether the diagonal of the end holds the end.\<close>

definition at_end :: "'a list \<Rightarrow> 'a list \<Rightarrow> int list \<Rightarrow> int \<Rightarrow> int \<Rightarrow> bool" where
  "at_end a b V off d \<longleftrightarrow>
     (let e = int (length a) - int (length b)
      in - d \<le> e \<and> e \<le> d \<and> even (d + e) \<and> cell V off e = int (length a))"

definition same_parity :: "int list \<Rightarrow> int list \<Rightarrow> int \<Rightarrow> int \<Rightarrow> bool" where
  "same_parity V V' off d \<longleftrightarrow> (\<forall>j. 0 \<le> j + off \<and> odd (d + j) \<longrightarrow> cell V' off j = cell V off j)"

lemma ses_inner_round:
  assumes "round_inv a b V off d k" "- d \<le> k" "even (d + k)"
    and "int (length a) - int (length b) < k \<Longrightarrow> \<not> at_end a b V off d"
  shows "\<exists>V' hit. ses_inner a b off d k V = Some (V', hit)
    \<and> round_inv a b V' off d (if hit then int (length a) - int (length b) + 1 else d + 1)
    \<and> (hit \<longleftrightarrow> at_end a b V' off d) \<and> same_parity V V' off d"
  using assms
proof (induction "nat (d + 1 - k)" arbitrary: k V rule: less_induct)
  case less
  show ?case
  proof (cases "k \<le> d")
    case False
    then have "\<not> at_end a b V off d" using less.prems(4) by (auto simp: at_end_def Let_def)
    with False less.prems(1) show ?thesis
      by (subst ses_inner.simps) (auto simp: same_parity_def intro: round_inv_mono)
  next
    case True
    obtain x0 x V' where s: "next_x V off d k = Some x0" "slide a b x0 (x0 - k) = Some (x, x - k)"
      "idx_set V (k + off) x = Some V'" "round_inv a b V' off d (k + 2)" "cell V' off k = x"
      "\<And>j. 0 \<le> j + off \<Longrightarrow> j \<noteq> k \<Longrightarrow> cell V' off j = cell V off j"
      using round_step [OF less.prems(1,2) True less.prems(3)] by metis
    have par: "same_parity V V' off d"
      using s(6) less.prems(3) by (auto simp: same_parity_def)
    show ?thesis
    proof (cases "x = int (length a) \<and> x - k = int (length b)")
      case hit: True
      then have e: "int (length a) - int (length b) = k" by auto
      have "at_end a b V' off d"
        unfolding at_end_def Let_def e using hit less.prems(2,3) True s(5) by simp
      moreover have "ses_inner a b off d k V = Some (V', True)"
        using True s(1-3) hit by (subst ses_inner.simps) simp
      moreover have "round_inv a b V' off d (k + 1)" by (rule round_inv_mono [OF s(4)]) simp
      ultimately show ?thesis using par e by auto
    next
      case no: False
      have "\<exists>V'' hit. ses_inner a b off d (k + 2) V' = Some (V'', hit)
        \<and> round_inv a b V'' off d (if hit then int (length a) - int (length b) + 1 else d + 1)
        \<and> (hit \<longleftrightarrow> at_end a b V'' off d) \<and> same_parity V' V'' off d"
      proof (rule less.hyps)
        show "nat (d + 1 - (k + 2)) < nat (d + 1 - k)" using True by simp
        show "round_inv a b V' off d (k + 2)" by (rule s(4))
        show "- d \<le> k + 2" "even (d + (k + 2))" using less.prems(2,3) by auto
        assume lt: "int (length a) - int (length b) < k + 2"
        show "\<not> at_end a b V' off d"
        proof
          assume ae: "at_end a b V' off d"
          let ?e = "int (length a) - int (length b)"
          have e: "- d \<le> ?e" "even (d + ?e)" "cell V' off ?e = int (length a)"
            using ae by (auto simp: at_end_def Let_def)
          show False
          proof (cases "?e = k")
            case True
            then show ?thesis using no s(5) e(3) by auto
          next
            case False
            then have "?e < k" using lt e(2) less.prems(3) by presburger
            moreover have "0 \<le> ?e + off" using e(1) less.prems(1) by (auto simp: round_inv_def)
            moreover from this have "cell V off ?e = int (length a)" using s(6) False e(3) by simp
            ultimately show ?thesis
              using less.prems(4) ae by (auto simp: at_end_def Let_def)
          qed
        qed
      qed
      then obtain V'' hit where v: "ses_inner a b off d (k + 2) V' = Some (V'', hit)"
        "round_inv a b V'' off d (if hit then int (length a) - int (length b) + 1 else d + 1)"
        "hit \<longleftrightarrow> at_end a b V'' off d" "same_parity V' V'' off d" by blast
      have "ses_inner a b off d k V = Some (V'', hit)"
        using True s(1-3) no v(1) by (subst ses_inner.simps) auto
      moreover have "same_parity V V'' off d" using par v(4) by (auto simp: same_parity_def)
      ultimately show ?thesis using v(2,3) by blast
    qed
  qed
qed

text \<open>The rows of the trace below \<open>d\<close>.\<close>

definition rows_ok :: "'a list \<Rightarrow> 'a list \<Rightarrow> int \<Rightarrow> int list list \<Rightarrow> int \<Rightarrow> bool" where
  "rows_ok a b off tr d \<longleftrightarrow> (\<forall>e. 0 \<le> e \<and> e < d \<longrightarrow>
     round_inv a b (tr ! nat e) off e (e + 1)
     \<and> (1 \<le> e \<longrightarrow> same_parity (tr ! nat (e - 1)) (tr ! nat e) off e))"

text \<open>The trace that \<open>shortestEditSequence\<close> returns: \<open>d\<close> is the length of the shortest script.\<close>

definition trace_ok :: "'a list \<Rightarrow> 'a list \<Rightarrow> int \<Rightarrow> int list list \<Rightarrow> int \<Rightarrow> bool" where
  "trace_ok a b off tr d \<longleftrightarrow> int (length tr) = off + 1 \<and> 0 \<le> d \<and> d \<le> off
     \<and> (\<forall>e. reach a b e (int (length a)) (int (length b)) \<longrightarrow> d \<le> e)
     \<and> rows_ok a b off tr d
     \<and> round_inv a b (tr ! nat d) off d (int (length a) - int (length b) + 1)
     \<and> at_end a b (tr ! nat d) off d
     \<and> (1 \<le> d \<longrightarrow> same_parity (tr ! nat (d - 1)) (tr ! nat d) off d)
     \<and> (\<forall>e. d < e \<and> e \<le> off \<longrightarrow> tr ! nat e = [])"

text \<open>The shortest length is found in its round, and not before.\<close>

lemma at_end_reach:
  assumes "round_inv a b V off d k" "at_end a b V off d" "int (length a) - int (length b) < k"
  shows "reach a b d (int (length a)) (int (length b))"
proof -
  have "best a b V off d (int (length a) - int (length b))"
    using assms by (auto simp: round_inv_def at_end_def Let_def)
  then show ?thesis using assms(2) by (auto simp: best_def at_end_def Let_def)
qed

lemma reach_at_end:
  assumes r: "reach a b d (int (length a)) (int (length b))"
    and least: "\<And>e. reach a b e (int (length a)) (int (length b)) \<Longrightarrow> d \<le> e"
    and inv: "round_inv a b V off d (d + 1)"
  shows "at_end a b V off d"
proof -
  let ?e = "int (length a) - int (length b)"
  have e: "- d \<le> ?e" "?e \<le> d" "even (d + ?e)" using reach_diagonal [OF r] by auto
  then have b: "best a b V off d ?e" using inv by (auto simp: round_inv_def)
  then have "int (length a) \<le> cell V off ?e" using r by (auto simp: best_def)
  moreover have "\<not> int (length a) < cell V off ?e"
  proof
    assume "int (length a) < cell V off ?e"
    moreover have "reach a b d (cell V off ?e) (cell V off ?e - ?e)" using b by (simp add: best_def)
    ultimately obtain d' where "d' < d" "reach a b d' (int (length a)) (int (length b))"
      using reach_overshoot by force
    with least show False by force
  qed
  ultimately show ?thesis using e by (simp add: at_end_def Let_def)
qed

lemma ses_outer_trace:
  assumes least: "\<And>e. reach a b e (int (length a)) (int (length b)) \<Longrightarrow> D \<le> e"
    and D: "reach a b D (int (length a)) (int (length b))" "D \<le> off"
    and off: "off = int (length b) + int (length a)"
  shows "0 \<le> d \<Longrightarrow> d \<le> D \<Longrightarrow> round_inv a b V off d (- d) \<Longrightarrow> int (length tr) = off + 1 \<Longrightarrow>
    rows_ok a b off tr d \<Longrightarrow> (1 \<le> d \<Longrightarrow> V = tr ! nat (d - 1)) \<Longrightarrow>
    (\<And>e. d \<le> e \<Longrightarrow> e \<le> off \<Longrightarrow> tr ! nat e = []) \<Longrightarrow>
    \<exists>tr'. ses_outer a b off d V tr = Some (tr', off) \<and> trace_ok a b off tr' D"
proof (induction "nat (D - d)" arbitrary: d V tr rule: less_induct)
  case less
  have na: "int (length a) - int (length b) < - d \<Longrightarrow> \<not> at_end a b V off d"
    by (auto simp: at_end_def Let_def)
  obtain V' hit where v: "ses_inner a b off d (- d) V = Some (V', hit)"
    "round_inv a b V' off d (if hit then int (length a) - int (length b) + 1 else d + 1)"
    "hit \<longleftrightarrow> at_end a b V' off d" "same_parity V V' off d"
    using ses_inner_round [OF less.prems(3) _ _ na] by auto
  define tr' where "tr' = tr[nat d := V']"
  have set: "idx_set tr d V' = Some tr'" and row: "tr' ! nat d = V'" and len: "length tr' = length tr"
    using less.prems(1,2,4) D(2) by (simp_all add: idx_set_def tr'_def)
  have old: "tr' ! nat e = tr ! nat e" if "0 \<le> e" "e \<noteq> d" for e
    using that less.prems(1) by (simp add: tr'_def nth_list_update nat_eq_iff)
  have rows: "rows_ok a b off tr' d"
    using less.prems(5) old by (auto simp: rows_ok_def)
  have prev: "1 \<le> d \<Longrightarrow> same_parity (tr' ! nat (d - 1)) V' off d"
    using less.prems(6) v(4) old [of "d - 1"] by simp
  have dl: "d \<le> int (length b) + int (length a)" using less.prems(2) D(2) off by simp
  show ?case
  proof (cases hit)
    case True
    then have "reach a b d (int (length a)) (int (length b))"
      using at_end_reach [of a b V' off d] v(2,3) by simp
    with least less.prems(2) have "d = D" by force
    moreover have "ses_outer a b off d V tr = Some (tr', off)"
      using v(1) True set dl by (subst ses_outer.simps) simp
    moreover have "tr' ! nat e = []" if "d < e" "e \<le> off" for e
      using that less.prems(1,7) old [of e] by simp
    ultimately show ?thesis
      using True v(2,3) rows prev row len less.prems(1,4) least D(2) by (auto simp: trace_ok_def)
  next
    case False
    have "\<not> reach a b d (int (length a)) (int (length b))"
    proof
      assume r: "reach a b d (int (length a)) (int (length b))"
      then have "d = D" using least less.prems(2) by force
      then have "at_end a b V' off d" using reach_at_end [OF r _ ] least v(2) False by simp
      with v(3) False show False by simp
    qed
    then have lt: "d < D" using less.prems(2) D(1) by (cases "d = D") auto
    have inv: "round_inv a b V' off d (d + 1)" using v(2) False by simp
    have inv': "round_inv a b V' off (d + 1) (- (d + 1))"
      using inv lt D(2) less.prems(1) by (auto simp: round_inv_def prev_ok_def)
    have rows': "rows_ok a b off tr' (d + 1)"
      unfolding rows_ok_def
    proof (intro allI impI)
      fix e assume "0 \<le> e \<and> e < d + 1"
      then show "round_inv a b (tr' ! nat e) off e (e + 1)
          \<and> (1 \<le> e \<longrightarrow> same_parity (tr' ! nat (e - 1)) (tr' ! nat e) off e)"
        using rows inv prev row by (cases "e = d") (auto simp: rows_ok_def)
    qed
    have "\<exists>tr''. ses_outer a b off (d + 1) V' tr' = Some (tr'', off) \<and> trace_ok a b off tr'' D"
    proof (rule less.hyps)
      show "tr' ! nat e = []" if "d + 1 \<le> e" "e \<le> off" for e
        using that less.prems(1,7) old [of e] by simp
    qed (use lt less.prems(1,4) inv' rows' row len in auto)
    moreover have "ses_outer a b off d V tr = ses_outer a b off (d + 1) V' tr'"
      using v(1) False set dl by (subst ses_outer.simps) simp
    ultimately show ?thesis by simp
  qed
qed

lemma shortest_edit_sequence_trace:
  assumes "a \<noteq> [] \<or> b \<noteq> []"
  obtains tr D where "shortest_edit_sequence a b = Some (tr, int (length b) + int (length a))"
    "trace_ok a b (int (length b) + int (length a)) tr D"
proof -
  let ?off = "int (length b) + int (length a)"
  let ?V = "replicate (2 * (length b + length a) + 1) (0 :: int)"
  let ?tr = "replicate (length b + length a + 1) ([] :: int list)"
  obtain D where D: "reach a b D (int (length a)) (int (length b))" "0 \<le> D" "D \<le> ?off"
    "\<And>e. reach a b e (int (length a)) (int (length b)) \<Longrightarrow> D \<le> e"
    using least_reach [of a b] by metis
  have off1: "1 \<le> ?off" using assms by (cases a; cases b) auto
  have z: "cell ?V ?off 1 = 0"
    using off1 by (subst nth_replicate) (auto simp: nat_less_iff)
  have inv: "round_inv a b ?V ?off 0 (- 0)" using off1 z by (auto simp: round_inv_def prev_ok_def)
  have "\<exists>tr. ses_outer a b ?off 0 ?V ?tr = Some (tr, ?off) \<and> trace_ok a b ?off tr D"
  proof (rule ses_outer_trace [OF D(4,1,3) refl])
    show "?tr ! nat e = []" if "0 \<le> e" "e \<le> ?off" for e
      by (rule nth_replicate) (use that in auto)
  qed (use D inv in \<open>auto simp: rows_ok_def\<close>)
  with that show ?thesis by (auto simp: shortest_edit_sequence_def Let_def)
qed

section \<open>Paths\<close>

text \<open>From \<open>(x, y)\<close> to \<open>(sx, sy)\<close> by deletions only or insertions only, then diagonal moves.\<close>

definition gedge :: "'a list \<Rightarrow> 'a list \<Rightarrow> int \<Rightarrow> int \<Rightarrow> int \<Rightarrow> int \<Rightarrow> int \<Rightarrow> bool" where
  "gedge a b x y sx sy w \<longleftrightarrow> (\<exists>n m c. 0 \<le> n \<and> 0 \<le> m \<and> 0 \<le> c \<and> (n = 0 \<or> m = 0)
     \<and> sx = x + n + c \<and> sy = y + m + c \<and> sx \<le> int (length a) \<and> sy \<le> int (length b)
     \<and> matches a b (x + n) (y + m) c \<and> w = n + m)"

inductive path :: "'a list \<Rightarrow> 'a list \<Rightarrow> int \<Rightarrow> int \<Rightarrow> int list list \<Rightarrow> int \<Rightarrow> bool" for a b where
  path_end: "path a b (int (length a)) (int (length b)) [] 0"
| path_skip: "path a b x y ss w \<Longrightarrow> path a b x y ([] # ss) w"
| path_step: "gedge a b x y sx sy v \<Longrightarrow> path a b sx sy ss w \<Longrightarrow> path a b x y ([sx, sy] # ss) (v + w)"

lemma path_nonneg: "path a b x y ss w \<Longrightarrow> 0 \<le> w"
  by (induction rule: path.induct) (auto simp: gedge_def)

lemma path_skips: "path a b x y ss w \<Longrightarrow> path a b x y (replicate n [] @ ss) w"
  by (induction n) (auto intro: path.path_skip)

lemma slide_gedge:
  assumes "slide a b (x + n) (y + m) = Some (sx, sy)" "0 \<le> x + n" "0 \<le> y + m"
    and "0 \<le> n" "0 \<le> m" "n = 0 \<or> m = 0" "sx \<le> int (length a)" "sy \<le> int (length b)"
  shows "gedge a b x y sx sy (n + m) \<and> x + n \<le> sx \<and> y + m \<le> sy"
proof -
  obtain c where c: "0 \<le> c" "slide a b (x + n) (y + m) = Some (x + n + c, y + m + c)"
    "matches a b (x + n) (y + m) c" using slide_matches [OF assms(2,3), of a b] by blast
  then have s: "sx = x + n + c" "sy = y + m + c" using assms(1) by auto
  have "gedge a b x y sx sy (n + m)" unfolding gedge_def
    by (rule exI [of _ n], rule exI [of _ m], rule exI [of _ c]) (use s c assms in simp)
  with s c(1) show ?thesis by simp
qed

text \<open>Where \<open>backtrack\<close> stands: before the shortest length is met, at the end; then on the furthest
  point of its diagonal.\<close>

definition bt_at :: "'a list \<Rightarrow> 'a list \<Rightarrow> int \<Rightarrow> int list list \<Rightarrow> int \<Rightarrow> int \<Rightarrow> int \<Rightarrow> int \<Rightarrow> bool" where
  "bt_at a b off tr D d x y \<longleftrightarrow>
     (if D < d then x = int (length a) \<and> y = int (length b)
      else - d \<le> x - y \<and> x - y \<le> d \<and> even (d + (x - y)) \<and> x = cell (tr ! nat d) off (x - y)
        \<and> (d < D \<or> x - y = int (length a) - int (length b)))"

lemma trace_row:
  assumes "trace_ok a b off tr D" "0 \<le> d" "d \<le> D"
    and "- d \<le> k" "k \<le> d" "even (d + k)" "d < D \<or> k = int (length a) - int (length b)"
  shows "best a b (tr ! nat d) off d k \<and> link a b (tr ! nat d) off d k
    \<and> prev_ok a b (tr ! nat d) off d \<and> int (length (tr ! nat d)) = 2 * off + 1"
proof (cases "d < D")
  case True
  then have "round_inv a b (tr ! nat d) off d (d + 1)"
    using assms(1,2) by (auto simp: trace_ok_def rows_ok_def)
  with assms show ?thesis by (auto simp: round_inv_def)
next
  case False
  then have "d = D" using assms(3) by simp
  with assms have "round_inv a b (tr ! nat d) off d (int (length a) - int (length b) + 1)"
    by (auto simp: trace_ok_def)
  with assms False show ?thesis by (auto simp: round_inv_def)
qed

lemma trace_parity:
  assumes "trace_ok a b off tr D" "1 \<le> d" "d \<le> D"
  shows "same_parity (tr ! nat (d - 1)) (tr ! nat d) off d"
  using assms by (cases "d = D") (auto simp: trace_ok_def rows_ok_def)

lemma bt_at_nonneg:
  assumes "trace_ok a b off tr D" "0 \<le> d" "bt_at a b off tr D d x y" shows "0 \<le> x \<and> 0 \<le> y"
proof (cases "D < d")
  case True
  then show ?thesis using assms(3) by (simp add: bt_at_def)
next
  case False
  then have "best a b (tr ! nat d) off d (x - y)" "x = cell (tr ! nat d) off (x - y)"
    using assms trace_row [OF assms(1,2), of "x - y"] by (auto simp: bt_at_def)
  then show ?thesis using best_reach by force
qed

text \<open>The step back: the point before, one edit away.\<close>

lemma bt_step:
  assumes tr: "trace_ok a b off tr D" and d: "0 < d" "d \<le> D"
    and at: "bt_at a b off tr D d x y" "x \<le> int (length a)" "y \<le> int (length b)"
  obtains dn x' where "go_down (tr ! nat d) off d (x - y) = Some dn"
    "idx_get (tr ! nat d) ((if dn then x - y + 1 else x - y - 1) + off) = Some x'"
    "bt_at a b off tr D (d - 1) x' (x' - (if dn then x - y + 1 else x - y - 1))"
    "gedge a b x' (x' - (if dn then x - y + 1 else x - y - 1)) x y 1"
    "x' \<le> int (length a)" "x' - (if dn then x - y + 1 else x - y - 1) \<le> int (length b)"
proof -
  define k where "k = x - y"
  have k: "- d \<le> k" "k \<le> d" "even (d + k)" "x = cell (tr ! nat d) off k"
    "d < D \<or> k = int (length a) - int (length b)"
    using at(1) d unfolding bt_at_def k_def by auto
  have row: "link a b (tr ! nat d) off d k" "prev_ok a b (tr ! nat d) off d"
    "int (length (tr ! nat d)) = 2 * off + 1"
    using trace_row [OF tr _ d(2) k(1-3,5)] d by auto
  have yk: "x - k = y" by (simp add: k_def)
  obtain x0 where x0: "next_x (tr ! nat d) off d k = Some x0" "0 \<le> x0" "0 \<le> x0 - k"
    "slide a b x0 (x0 - k) = Some (x, y)"
    using row(1) [unfolded link_def, folded k(4), unfolded yk] by blast
  obtain dn where dn: "go_down (tr ! nat d) off d k = Some dn"
    using x0(1) by (cases "go_down (tr ! nat d) off d k") (auto simp: next_x_def)
  define kp where "kp = (if dn then k + 1 else k - 1)"
  obtain x' where x': "idx_get (tr ! nat d) (kp + off) = Some x'" "x0 = (if dn then x' else x' + 1)"
    using x0(1) dn by (auto simp: next_x_def kp_def split: if_splits)
  have "dn \<Longrightarrow> k \<noteq> d" "\<not> dn \<Longrightarrow> k \<noteq> - d" using dn d by (auto simp: go_down_def split: if_splits)
  then have kp: "- (d - 1) \<le> kp" "kp \<le> d - 1" "even (d - 1 + kp)" "odd (d + kp)"
    using k(1-3) unfolding kp_def by (cases dn; simp; presburger)+
  have best: "best a b (tr ! nat d) off (d - 1) kp" using row(2) kp d by (auto simp: prev_ok_def)
  have "off \<ge> d" using tr d by (auto simp: trace_ok_def)
  then have cx: "x' = cell (tr ! nat d) off kp" using x'(1) kp by (auto simp: idx_get_def split: if_splits)
  also have "\<dots> = cell (tr ! nat (d - 1)) off kp"
    using trace_parity [OF tr] d kp \<open>d \<le> off\<close> by (auto simp: same_parity_def)
  finally have "bt_at a b off tr D (d - 1) x' (x' - kp)" using kp d by (auto simp: bt_at_def)
  moreover have nn: "0 \<le> x'" "0 \<le> x' - kp" using best_reach [OF best] cx by auto
  have "gedge a b x' (x' - kp) x y ((if dn then 0 else 1) + (if dn then 1 else 0))
      \<and> x' + (if dn then 0 else 1) \<le> x \<and> x' - kp + (if dn then 1 else 0) \<le> y"
  proof (rule slide_gedge)
    have "x' + (if dn then 0 else 1) = x0" "x' - kp + (if dn then 1 else 0) = x0 - k"
      using x'(2) by (auto simp: kp_def)
    then show "slide a b (x' + (if dn then 0 else 1)) (x' - kp + (if dn then 1 else 0)) = Some (x, y)"
      "0 \<le> x' + (if dn then 0 else 1)" "0 \<le> x' - kp + (if dn then 1 else 0)"
      using x0(2-4) by simp_all
  qed (use at(2,3) in auto)
  ultimately show ?thesis
    using that [of dn x'] dn x'(1) at(2,3) unfolding k_def [symmetric] kp_def [symmetric]
    by (auto split: if_splits)
qed

text \<open>The last step: from the origin straight to the first point.\<close>

lemma bt_first:
  assumes tr: "trace_ok a b off tr D" and off: "off = int (length b) + int (length a)"
    and D: "reach a b D (int (length a)) (int (length b))"
    and d: "0 \<le> d" and at: "bt_at a b off tr D d x y" "x \<le> int (length a)" "y \<le> int (length b)"
    and stop: "\<not> (0 < x \<and> 0 < y \<and> 0 < d)"
  obtains v where "gedge a b 0 0 x y v" "v \<le> min d D"
proof (cases "x = 0 \<or> y = 0")
  case True
  have nn: "0 \<le> x" "0 \<le> y" using bt_at_nonneg [OF tr d at(1)] by auto
  have "gedge a b 0 0 x y (x + y)"
    unfolding gedge_def by (intro exI [of _ x] exI [of _ y] exI [of _ 0]) (use nn True at in \<open>auto simp: matches_def\<close>)
  moreover have "x + y \<le> min d D"
    using True nn at(1) reach_diagonal [OF D] by (auto simp: bt_at_def split: if_splits)
  ultimately show ?thesis by (rule that)
next
  case False
  have D0: "0 \<le> D" using tr by (simp add: trace_ok_def)
  from False have "d = 0" using stop d bt_at_nonneg [OF tr d at(1)] by auto
  then have a0: "x = y" "x = cell (tr ! 0) off 0" "0 < D \<or> 0 = int (length a) - int (length b)"
    using at(1) D0 by (auto simp: bt_at_def split: if_splits)
  have row: "link a b (tr ! 0) off 0 0" "prev_ok a b (tr ! 0) off 0" "int (length (tr ! 0)) = 2 * off + 1"
    using trace_row [OF tr order.refl D0, of 0] a0(3) by auto
  have "1 \<le> off" using False at(2) off a0(1) bt_at_nonneg [OF tr d at(1)] by auto
  then have "next_x (tr ! 0) off 0 0 = Some 0"
    using row(2,3) by (simp add: next_x_def go_down_def go_idx prev_ok_def)
  with row(1) a0 have "slide a b (0 + 0) (0 + 0) = Some (x, y)" by (auto simp: link_def)
  from slide_gedge [OF this] at have "gedge a b 0 0 x y 0" by simp
  then show ?thesis by (rule that) (use D0 d in simp)
qed

lemma backtrack_loop_path:
  assumes tr: "trace_ok a b off tr D" and off: "off = int (length b) + int (length a)"
    and D: "reach a b D (int (length a)) (int (length b))"
  shows "0 \<le> d \<Longrightarrow> d \<le> off \<Longrightarrow> bt_at a b off tr D d x y \<Longrightarrow> x \<le> int (length a) \<Longrightarrow> y \<le> int (length b) \<Longrightarrow>
    S = replicate (nat d + 1) [] @ rest \<Longrightarrow> int (length S) = off + 1 \<Longrightarrow>
    path a b x y rest w \<Longrightarrow> w + min d D = D \<Longrightarrow>
    \<exists>S' w'. backtrack_loop tr x y d off S = Some S' \<and> path a b 0 0 S' w' \<and> w' \<le> D"
proof (induction "nat d" arbitrary: d x y S rest w rule: less_induct)
  case less
  have nn: "0 \<le> x" "0 \<le> y" using bt_at_nonneg [OF tr less.prems(1,3)] by auto
  have S: "S[nat d := s] = replicate (nat d) [] @ s # rest" for s
  proof -
    have "replicate (nat d + 1) [] = replicate (nat d) [] @ [[]]" by (simp add: replicate_append_same)
    then have "S = replicate (nat d) [] @ [] # rest" using less.prems(6) by simp
    then show ?thesis by (simp add: list_update_append)
  qed
  have set: "idx_set S d s = Some (replicate (nat d) [] @ s # rest)" for s
    using less.prems(1,2,7) by (simp add: idx_set_def S)
  show ?case
  proof (cases "0 < x \<and> 0 < y \<and> 0 < d")
    case False
    obtain v where v: "gedge a b 0 0 x y v" "v \<le> min d D"
      using bt_first [OF tr off D less.prems(1,3-5) False] .
    have "path a b 0 0 (replicate (nat d) [] @ [x, y] # rest) (v + w)"
      by (intro path_skips path.path_step [OF v(1)] less.prems(8))
    moreover have "backtrack_loop tr x y d off S = Some (replicate (nat d) [] @ [x, y] # rest)"
      using False nn set by (subst backtrack_loop.simps) auto
    ultimately show ?thesis using v(2) less.prems(9) by (intro exI conjI) auto
  next
    case True
    have len: "int (length tr) = off + 1" using tr by (simp add: trace_ok_def)
    have get: "idx_get tr d = Some (tr ! nat d)" using len less.prems(1,2) by (simp add: idx_get_def)
    have nd: "nat d = Suc (nat (d - 1))" using True by auto
    show ?thesis
    proof (cases "D < d")
      case gt: True
      then have "tr ! nat d = []" using tr less.prems(2) by (auto simp: trace_ok_def)
      then have "backtrack_loop tr x y d off S = backtrack_loop tr x y (d - 1) off S"
        using True get by (subst backtrack_loop.simps) simp
      moreover have "\<exists>S' w'. backtrack_loop tr x y (d - 1) off S = Some S' \<and> path a b 0 0 S' w' \<and> w' \<le> D"
      proof (rule less.hyps)
        show "bt_at a b off tr D (d - 1) x y"
        proof (cases "d - 1 = D")
          case eq: True
          then show ?thesis
            using less.prems(3) gt tr by (auto simp: bt_at_def trace_ok_def at_end_def Let_def)
        next
          case False
          then show ?thesis using less.prems(3) gt by (auto simp: bt_at_def)
        qed
        show "S = replicate (nat (d - 1) + 1) [] @ ([] # rest)"
          using less.prems(6) nd by (simp add: replicate_app_Cons_same)
        show "path a b x y ([] # rest) w" by (rule path.path_skip [OF less.prems(8)])
      qed (use True gt less.prems in auto)
      ultimately show ?thesis by simp
    next
      case le: False
      obtain dn x' where st: "go_down (tr ! nat d) off d (x - y) = Some dn"
        "idx_get (tr ! nat d) ((if dn then x - y + 1 else x - y - 1) + off) = Some x'"
        "bt_at a b off tr D (d - 1) x' (x' - (if dn then x - y + 1 else x - y - 1))"
        "gedge a b x' (x' - (if dn then x - y + 1 else x - y - 1)) x y 1"
        "x' \<le> int (length a)" "x' - (if dn then x - y + 1 else x - y - 1) \<le> int (length b)"
        using bt_step [OF tr _ _ less.prems(3-5)] True le by (metis not_less)
      define kp where "kp = (if dn then x - y + 1 else x - y - 1)"
      have ne: "tr ! nat d \<noteq> []" using st(2) by (auto simp: idx_get_def split: if_splits)
      let ?S = "replicate (nat d) [] @ [x, y] # rest"
      have "backtrack_loop tr x y d off S = backtrack_loop tr x' (x' - kp) (d - 1) off ?S"
        using True get ne set st(1,2) unfolding kp_def by (subst backtrack_loop.simps) (simp add: Let_def)
      moreover have "\<exists>S' w'. backtrack_loop tr x' (x' - kp) (d - 1) off ?S = Some S'
          \<and> path a b 0 0 S' w' \<and> w' \<le> D"
      proof (rule less.hyps)
        show "?S = replicate (nat (d - 1) + 1) [] @ ([x, y] # rest)" using nd by simp
        show "int (length ?S) = off + 1" using less.prems(6,7) by simp
        show "path a b x' (x' - kp) ([x, y] # rest) (1 + w)"
          by (rule path.path_step [OF _ less.prems(8)]) (use st(4) in \<open>simp add: kp_def\<close>)
      qed (use True le less.prems st(3,5,6) in \<open>auto simp: kp_def\<close>)
      ultimately show ?thesis by simp
    qed
  qed
qed

section \<open>Applying operations\<close>

text \<open>What a list of operations means: each one replaces the lines \<open>I1..I2\<close> of the first text by its
  content; \<open>p\<close> is how much of that text is used up.\<close>

fun apply_ops :: "'a list \<Rightarrow> nat \<Rightarrow> 'a operation list \<Rightarrow> 'a list" where
  "apply_ops a p [] = drop p a"
| "apply_ops a p (op # ops) = take (I1 op - p) (drop p a) @ Content op @ apply_ops a (I2 op) ops"

text \<open>Operations in order, inside the text and not overlapping.\<close>

fun ops_ok :: "nat \<Rightarrow> nat \<Rightarrow> 'a operation list \<Rightarrow> bool" where
  "ops_ok m p [] = True"
| "ops_ok m p (op # ops) \<longleftrightarrow> p \<le> I1 op \<and> I1 op \<le> I2 op \<and> I2 op \<le> m
     \<and> (case Kind op of Delete \<Rightarrow> Content op = [] \<and> I1 op < I2 op
          | Insert \<Rightarrow> Content op \<noteq> [] \<and> I1 op = I2 op | Equal \<Rightarrow> False)
     \<and> ops_ok m (I2 op) ops"

text \<open>How many lines are deleted or inserted.\<close>

definition script_length :: "'a operation list \<Rightarrow> nat" where
  "script_length ops = (\<Sum>op\<leftarrow>ops. (I2 op - I1 op) + length (Content op))"

lemma apply_ops_advance:
  assumes "ops_ok m q ops" "p \<le> q" "q \<le> length a"
  shows "apply_ops a p ops = take (q - p) (drop p a) @ apply_ops a q ops"
proof (cases ops)
  case Nil
  have "drop q a = drop (q - p) (drop p a)" using assms by simp
  with Nil show ?thesis by (metis append_take_drop_id apply_ops.simps(1))
next
  case (Cons op ops')
  then have le: "q \<le> I1 op" using assms by simp
  have "take (I1 op - p) (drop p a) = take (q - p + (I1 op - q)) (drop p a)"
    using le assms by (simp add: Nat.diff_add_assoc2 [symmetric])
  also have "\<dots> = take (q - p) (drop p a) @ take (I1 op - q) (drop q a)"
    unfolding take_add using assms by simp
  finally show ?thesis using Cons by simp
qed

lemma ops_ok_mono: "ops_ok m q ops \<Longrightarrow> p \<le> q \<Longrightarrow> ops_ok m p ops"
  by (cases ops) auto

lemma script_length_Nil [simp]: "script_length [] = 0"
  by (simp add: script_length_def)

lemma script_length_Cons [simp]:
  "script_length (op # ops) = (I2 op - I1 op) + length (Content op) + script_length ops"
  by (simp add: script_length_def)

lemma script_length_append [simp]: "script_length (xs @ ys) = script_length xs + script_length ys"
  by (simp add: script_length_def)

lemma length_script: "ops_ok m p ops \<Longrightarrow> length ops \<le> script_length ops"
proof (induction ops arbitrary: p)
  case Nil
  then show ?case by simp
next
  case (Cons op ops)
  then have "length ops \<le> script_length ops" by auto
  moreover have "1 \<le> (I2 op - I1 op) + length (Content op)"
    using Cons.prems by (cases "Kind op") (auto simp: Suc_le_eq)
  ultimately show ?case by (simp add: script_length_def)
qed

lemma delete_run_stop: "dg \<le> x - y \<Longrightarrow> delete_run m dg x y = x"
  by (subst delete_run.simps) simp

lemma delete_run_eq: "x + int n \<le> m \<Longrightarrow> delete_run m (x - y + int n) x y = x + int n"
proof (induction n arbitrary: x)
  case 0
  then show ?case by (simp add: delete_run_stop)
next
  case (Suc n)
  show ?case
  proof (cases "x + 1 = m")
    case True
    with Suc.prems have "n = 0" by simp
    with True show ?thesis by (subst delete_run.simps) simp
  next
    case False
    have "delete_run m (x + 1 - y + int n) (x + 1) y = x + 1 + int n" by (rule Suc.IH) (use Suc.prems in simp)
    with False show ?thesis by (subst delete_run.simps) (simp add: algebra_simps)
  qed
qed

lemma insert_run_stop: "x - y \<le> dg \<Longrightarrow> insert_run dg x y = y"
  by (subst insert_run.simps) simp

lemma insert_run_eq: "insert_run (x - y - int n) x y = y + int n"
proof (induction n arbitrary: y)
  case 0
  then show ?case by (simp add: insert_run_stop)
next
  case (Suc n)
  have "insert_run (x - (y + 1) - int n) x (y + 1) = y + 1 + int n" by (rule Suc.IH)
  then show ?case by (subst insert_run.simps) (simp add: algebra_simps)
qed

lemma runs_gedge:
  assumes "0 \<le> n" "0 \<le> m" "n = 0 \<or> m = 0" "x + n \<le> la"
  shows "delete_run la (x + n + c - (y + m + c)) x y = x + n
    \<and> insert_run (x + n + c - (y + m + c)) (x + n) y = y + m"
proof (cases "n = 0")
  case True
  then show ?thesis
    using assms delete_run_stop [of "x - (y + m)" x y la] insert_run_eq [of x y "nat m"]
    by (simp add: algebra_simps)
next
  case False
  then show ?thesis
    using assms delete_run_eq [of x "nat n" la y] insert_run_stop [of "x + n" y "x + n - y"]
    by (simp add: algebra_simps)
qed

lemma matches_take:
  assumes "matches a b x y c" "0 \<le> x" "0 \<le> y" "x + c \<le> int (length a)" "y + c \<le> int (length b)"
  shows "take (nat c) (drop (nat x) a) = take (nat c) (drop (nat y) b)"
proof (rule nth_equalityI)
  show "length (take (nat c) (drop (nat x) a)) = length (take (nat c) (drop (nat y) b))"
    using assms by simp
  fix i assume "i < length (take (nat c) (drop (nat x) a))"
  then have i: "int i < c" by (simp add: zless_nat_eq_int_zless)
  then have "a ! nat (x + int i) = b ! nat (y + int i)" using assms(1) by (auto simp: matches_def)
  with i assms show "take (nat c) (drop (nat x) a) ! i = take (nat c) (drop (nat y) b) ! i"
    by (simp add: nat_add_distrib)
qed

lemma take_drop_split: "take k (drop i xs) @ drop (i + k) xs = drop i xs"
  by (metis append_take_drop_id drop_drop add.commute)

text \<open>The operations for one step, in front of those for the rest of the path.\<close>

lemma forward_step:
  assumes xy: "0 \<le> x" "0 \<le> y"
    and nmc: "0 \<le> n" "0 \<le> m" "0 \<le> c" "n = 0 \<or> m = 0"
    and le: "x + n + c \<le> int (length a)" "y + m + c \<le> int (length b)"
    and mt: "matches a b (x + n) (y + m) c"
    and ins: "inserts b (x + n) y (y + m) = Some ins"
    and rest: "ops_ok (length a) (nat (x + n + c)) rest"
      "apply_ops a (nat (x + n + c)) rest = drop (nat (y + m + c)) b"
      "int (script_length rest) \<le> w"
  shows "ops_ok (length a) (nat x) (deletes x y (x + n) @ ins @ rest)
    \<and> apply_ops a (nat x) (deletes x y (x + n) @ ins @ rest) = drop (nat y) b
    \<and> int (script_length (deletes x y (x + n) @ ins @ rest)) \<le> n + m + w"
proof -
  have r1: "ops_ok (length a) (nat (x + n)) rest" by (rule ops_ok_mono [OF rest(1)]) (use nmc in simp)
  have "apply_ops a (nat (x + n)) rest
      = take (nat (x + n + c) - nat (x + n)) (drop (nat (x + n)) a) @ apply_ops a (nat (x + n + c)) rest"
    by (rule apply_ops_advance [OF rest(1)]) (use xy nmc le in auto)
  also have "nat (x + n + c) - nat (x + n) = nat c" using xy nmc by simp
  also have "take (nat c) (drop (nat (x + n)) a) = take (nat c) (drop (nat (y + m)) b)"
    by (rule matches_take [OF mt]) (use xy nmc le in auto)
  finally have "apply_ops a (nat (x + n)) rest
      = take (nat c) (drop (nat (y + m)) b) @ drop (nat (y + m + c)) b" unfolding rest(2) .
  moreover have "nat (y + m + c) = nat (y + m) + nat c" using xy nmc by (simp add: nat_add_distrib)
  ultimately have a1: "apply_ops a (nat (x + n)) rest = drop (nat (y + m)) b"
    by (simp only: take_drop_split)
  have i: "ops_ok (length a) (nat (x + n)) (ins @ rest)
      \<and> apply_ops a (nat (x + n)) (ins @ rest) = drop (nat y) b
      \<and> int (script_length (ins @ rest)) \<le> m + w"
  proof (cases "m = 0")
    case True
    then show ?thesis using ins r1 a1 rest(3) by (simp add: inserts_def)
  next
    case False
    have sl: "slice b y (y + m) = Some (drop (nat y) (take (nat (y + m)) b))"
      using xy nmc le by (simp add: go_idx)
    have e: "drop (nat y) (take (nat (y + m)) b) = take (nat m) (drop (nat y) b)"
      using xy nmc by (simp add: nat_add_distrib drop_take)
    have ic: "ins = [\<lparr>Content = take (nat m) (drop (nat y) b), Kind = Insert, I1 = nat (x + n),
        I2 = nat (x + n), J1 = nat y\<rparr>]"
      using ins False sl e by (simp add: inserts_def)
    have l: "length (take (nat m) (drop (nat y) b)) = nat m" using xy nmc le by simp
    then have "take (nat m) (drop (nat y) b) \<noteq> []" using False nmc by auto
    moreover have "take (nat m) (drop (nat y) b) @ drop (nat (y + m)) b = drop (nat y) b"
      using xy nmc by (simp add: nat_add_distrib take_drop_split)
    moreover have "nat (x + n) \<le> length a" using nmc le by simp
    ultimately show ?thesis using ic l r1 a1 rest(3) nmc by simp
  qed
  show ?thesis
  proof (cases "n = 0")
    case True
    then show ?thesis using i by (simp add: deletes_def)
  next
    case False
    have d: "nat x < nat (x + n)" "nat (x + n) \<le> length a" "nat (x + n) - nat x = nat n"
      using False xy nmc le by auto
    have "deletes x y (x + n) @ ins @ rest
        = \<lparr>Content = [], Kind = Delete, I1 = nat x, I2 = nat (x + n), J1 = nat y\<rparr> # ins @ rest"
      using False by (simp add: deletes_def)
    then show ?thesis using less_imp_le [OF d(1)] d i nmc by (simp del: zless_nat_conj nat_less_eq_zless nat_le_eq_zle)
  qed
qed

lemma inserts_defined:
  "0 \<le> y \<Longrightarrow> 0 \<le> m \<Longrightarrow> y + m \<le> int (length b) \<Longrightarrow> \<exists>ins. inserts b x y (y + m) = Some ins"
  by (simp add: inserts_def go_idx)

lemma forward_path:
  "path a b x y ss w \<Longrightarrow> 0 \<le> x \<Longrightarrow> 0 \<le> y \<Longrightarrow>
    \<exists>ops. forward (int (length a)) (int (length b)) b ss x y = Some ops
      \<and> ops_ok (length a) (nat x) ops \<and> apply_ops a (nat x) ops = drop (nat y) b
      \<and> int (script_length ops) \<le> w"
proof (induction rule: path.induct)
  case path_end
  then show ?case by simp
next
  case (path_skip x y ss w)
  then show ?case by simp
next
  case (path_step x y sx sy v ss w)
  from path_step.hyps(1) obtain n m c where g: "0 \<le> n" "0 \<le> m" "0 \<le> c" "n = 0 \<or> m = 0"
    "sx = x + n + c" "sy = y + m + c" "sx \<le> int (length a)" "sy \<le> int (length b)"
    "matches a b (x + n) (y + m) c" "v = n + m"
    unfolding gedge_def by blast
  have runs: "delete_run (int (length a)) (sx - sy) x y = x + n"
    "insert_run (sx - sy) (x + n) y = y + m"
    using runs_gedge [OF g(1,2,4), of x "int (length a)" c y] g by auto
  have c: "max 0 (sx - (x + n)) = c" using g by simp
  obtain ins where ins: "inserts b (x + n) y (y + m) = Some ins"
    using inserts_defined [of y m b "x + n"] path_step.prems g by auto
  have "\<exists>rest. (if x + n + c \<ge> int (length a) \<and> y + m + c \<ge> int (length b) then Some []
        else forward (int (length a)) (int (length b)) b ss (x + n + c) (y + m + c)) = Some rest
      \<and> ops_ok (length a) (nat (x + n + c)) rest
      \<and> apply_ops a (nat (x + n + c)) rest = drop (nat (y + m + c)) b
      \<and> int (script_length rest) \<le> w"
  proof (cases "x + n + c \<ge> int (length a) \<and> y + m + c \<ge> int (length b)")
    case True
    then have "drop (nat (x + n + c)) a = []" "drop (nat (y + m + c)) b = []" by auto
    with True show ?thesis using path_nonneg [OF path_step.hyps(2)] by simp
  next
    case False
    then show ?thesis using path_step.IH path_step.prems g by auto
  qed
  then obtain rest where r: "(if x + n + c \<ge> int (length a) \<and> y + m + c \<ge> int (length b) then Some []
        else forward (int (length a)) (int (length b)) b ss (x + n + c) (y + m + c)) = Some rest"
      "ops_ok (length a) (nat (x + n + c)) rest"
      "apply_ops a (nat (x + n + c)) rest = drop (nat (y + m + c)) b" "int (script_length rest) \<le> w"
    by blast
  have "forward (int (length a)) (int (length b)) b ([sx, sy] # ss) x y
      = Some (deletes x y (x + n) @ ins @ rest)"
    by (simp only: forward.simps list.case runs Let_def c ins r(1)) simp
  then show ?case
    using forward_step [OF path_step.prems g(1-4) _ _ g(9) ins r(2-4)] g by auto
qed

lemma operations_path:
  assumes "a \<noteq> [] \<or> b \<noteq> []"
  obtains ops D where "operations a b = Some ops" "ops_ok (length a) 0 ops" "apply_ops a 0 ops = b"
    "int (script_length ops) \<le> D" "\<And>e. reach a b e (int (length a)) (int (length b)) \<Longrightarrow> D \<le> e"
proof -
  let ?off = "int (length b) + int (length a)"
  obtain tr D where t: "shortest_edit_sequence a b = Some (tr, ?off)" "trace_ok a b ?off tr D"
    using shortest_edit_sequence_trace [OF assms] .
  have tr: "int (length tr) = ?off + 1" "0 \<le> D" "D \<le> ?off"
    "\<And>e. reach a b e (int (length a)) (int (length b)) \<Longrightarrow> D \<le> e"
    using t(2) by (auto simp: trace_ok_def)
  have rD: "reach a b D (int (length a)) (int (length b))"
    by (rule at_end_reach) (use t(2) in \<open>auto simp: trace_ok_def\<close>)
  have at: "bt_at a b ?off tr D ?off (int (length a)) (int (length b))"
  proof (cases "D < ?off")
    case False
    then have "D = ?off" using tr by simp
    then show ?thesis using t(2) by (auto simp: bt_at_def trace_ok_def at_end_def Let_def)
  qed (simp add: bt_at_def)
  have "\<exists>S' w'. backtrack_loop tr (int (length a)) (int (length b)) ?off ?off (replicate (length tr) []) = Some S'
      \<and> path a b 0 0 S' w' \<and> w' \<le> D"
  proof (rule backtrack_loop_path [OF t(2) refl rD _ _ at, where rest = "[]" and w = 0])
    have "nat ?off + 1 = length tr" using tr(1) by linarith
    then show "replicate (length tr) [] = replicate (nat ?off + 1) [] @ ([] :: int list list)" by simp
  qed (use tr in \<open>auto intro: path.path_end\<close>)
  then obtain S w where S: "backtrack tr (int (length a)) (int (length b)) ?off = Some S"
    "path a b 0 0 S w" "w \<le> D"
    using tr(1) by (auto simp: backtrack_def)
  obtain ops where o: "forward (int (length a)) (int (length b)) b S 0 0 = Some ops"
    "ops_ok (length a) 0 ops" "apply_ops a 0 ops = b" "int (script_length ops) \<le> w"
    using forward_path [OF S(2)] by auto
  have "length ops \<le> length a + length b"
    using length_script [OF o(2)] o(4) S(3) tr(3) by linarith
  then have "operations a b = Some ops"
    using assms t(1) S(1) o(1) by (auto simp: operations_def)
  with that [OF _ o(2,3) _ tr(4)] o(4) S(3) show ?thesis by simp
qed

lemma operations_correct:
  "\<exists>ops. operations a b = Some ops \<and> ops_ok (length a) 0 ops \<and> apply_ops a 0 ops = b
     \<and> (\<forall>s. subseq s a \<and> subseq s b \<longrightarrow> script_length ops + 2 * length s \<le> length a + length b)"
proof (cases "a = [] \<and> b = []")
  case True
  then show ?thesis by (simp add: operations_def)
next
  case False
  then obtain ops D where o: "operations a b = Some ops" "ops_ok (length a) 0 ops"
    "apply_ops a 0 ops = b" "int (script_length ops) \<le> D"
    "\<And>e. reach a b e (int (length a)) (int (length b)) \<Longrightarrow> D \<le> e"
    using operations_path [of a b] by metis
  have "script_length ops + 2 * length s \<le> length a + length b" if "subseq s a" "subseq s b" for s
  proof -
    have "reach a b (int (length a) + int (length b) - 2 * int (length s)) (int (length a)) (int (length b))"
      using reach_subseq [of a b 0 0 0 s] reach.origin [of a b] that by simp
    from o(5) [OF this] o(4) show ?thesis by linarith
  qed
  with o(1-3) show ?thesis by blast
qed

text \<open>C1. The operations that \<open>operations\<close> computes for two lists of lines: it never panics; the operations
  are in order and do not overlap; applying them to the first list gives the second; and no script is
  shorter, since the lines kept are at least as many as any common subsequence has.\<close>

theorem operations_shortest:
  "\<exists>ops. operations a b = Some ops \<and> ops_ok (length a) 0 ops \<and> apply_ops a 0 ops = b
     \<and> (\<forall>s. subseq s a \<and> subseq s b \<longrightarrow> script_length ops + 2 * length s \<le> length a + length b)"
  by (rule operations_correct)

lemma operations_shortest_witness:
  "\<exists>ops. operations ''abcabba'' ''cbabac'' = Some ops \<and> script_length ops \<le> 5"
  using operations_shortest [of "''abcabba''" "''cbabac''"]
  by (auto dest!: spec [of _ "''baba''"])

section \<open>Text edits\<close>

text \<open>What a client does with the edits: each one replaces the lines between the starts of two lines.\<close>

fun apply_edits :: "string list \<Rightarrow> nat \<Rightarrow> text_edit list \<Rightarrow> string" where
  "apply_edits ls p [] = concat (drop p ls)"
| "apply_edits ls p (e # es) =
     concat (take (Line (RStart (EditRange e)) - p) (drop p ls)) @ NewText e
       @ apply_edits ls (Line (REnd (EditRange e))) es"

lemma split_after_nonempty [simp]: "split_after c s \<noteq> []"
  by (induction s) (auto split: list.splits)

lemma concat_split_after [simp]: "concat (split_after c s) = s"
proof (induction s)
  case Nil
  then show ?case by simp
next
  case (Cons x xs)
  then show ?case by (cases "split_after c xs") (auto split: list.splits)
qed

lemma split_lines_concat [simp]: "concat (split_lines t) = t"
proof -
  have "concat (butlast (split_after newline t)) @ last (split_after newline t) = t"
    by (metis append_butlast_last_id concat_append concat.simps concat_split_after split_after_nonempty self_append_conv)
  then show ?thesis by (auto simp: split_lines_def Let_def)
qed

lemma split_after_lines: "l \<in> set (butlast (split_after c s)) \<Longrightarrow> l \<noteq> []"
proof (induction s)
  case Nil
  then show ?case by simp
next
  case (Cons x xs)
  then show ?case by (cases "split_after c xs") (auto split: if_splits)
qed

lemma split_lines_nonempty: "l \<in> set (split_lines t) \<Longrightarrow> l \<noteq> []"
proof -
  assume l: "l \<in> set (split_lines t)"
  have "set (split_after newline t) = insert (last (split_after newline t)) (set (butlast (split_after newline t)))"
    by (metis append_butlast_last_id list.simps(15) rotate1.simps(2) set_rotate1 split_after_nonempty)
  with l show ?thesis
    by (auto simp: split_lines_def Let_def dest: split_after_lines split: if_splits)
qed

lemma apply_edit_ops:
  "ops_ok (length ls) p ops \<Longrightarrow> (\<And>op l. op \<in> set ops \<Longrightarrow> l \<in> set (Content op) \<Longrightarrow> l \<noteq> '''') \<Longrightarrow>
    apply_edits ls p (concat (map edit_of ops)) = concat (apply_ops ls p ops)"
proof (induction ops arbitrary: p)
  case Nil
  then show ?case by simp
next
  case (Cons op ops)
  have IH: "apply_edits ls (I2 op) (concat (map edit_of ops)) = concat (apply_ops ls (I2 op) ops)"
    using Cons.prems by (intro Cons.IH) auto
  have ne: "Kind op = Insert \<Longrightarrow> concat (Content op) \<noteq> ''''"
    using Cons.prems(1) Cons.prems(2) [of op "hd (Content op)"] by (cases "Content op") auto
  show ?case
    using Cons.prems IH ne by (cases "Kind op") (auto simp: edit_of_def [of op] range_between_def Let_def)
qed

lemma ops_content:
  "ops_ok m p ops \<Longrightarrow> op \<in> set ops \<Longrightarrow> l \<in> set (Content op) \<Longrightarrow> l \<in> set (apply_ops ls p ops)"
  by (induction ops arbitrary: p) auto

text \<open>C2. \<open>ComputeEdits\<close> never panics, and a client that applies its edits to the text before has the text
  after, byte by byte, whatever the two texts are.\<close>

theorem compute_edits_correct:
  "\<exists>edits. compute_edits before after = Some edits
     \<and> apply_edits (split_lines before) 0 edits = after"
proof -
  obtain ops where o: "operations (split_lines before) (split_lines after) = Some ops"
    "ops_ok (length (split_lines before)) 0 ops"
    "apply_ops (split_lines before) 0 ops = split_lines after"
    using operations_correct by blast
  have "apply_edits (split_lines before) 0 (concat (map edit_of ops)) = concat (split_lines after)"
    using apply_edit_ops [OF o(2)] ops_content [OF o(2), of _ _ "split_lines before"]
      split_lines_nonempty o(3) by metis
  then show ?thesis using o(1) by (simp add: compute_edits_def)
qed

end
