(* ===== verification/Config.thy ===== *)
theory Config
  imports Rast Go_Filepath
begin

text \<open>
  \<open>pkg/config\<close>: the configuration record, how it is read from the user's YAML (after the YAML parser,
  which yields the \<open>intermediary\<close> record), how it is merged with the defaults (\<open>bundle.go\<close>), turned into
  values for the linter (\<open>objectable.go\<close>) and used to leave out files (\<open>filter.go\<close>).

  The parts outside the repository are fields of \<open>config_env\<close>: looking capabilities up, the absolute
  path of a file and decoding an \<open>ignore\<close> entry.
\<close>

section \<open>Data\<close>

record rule_default =
  d_level :: string

record defaults =
  d_categories :: "(string, rule_default) gomap"
  d_global :: rule_default

record ignore =
  ign_files :: "string list"

record rule_config =
  r_ignore :: "ignore option"
  r_extra :: "(string, gval) gomap"
  r_level :: string

type_synonym rule_category = "(string, rule_config) gomap"

record decl =
  decl_result :: string
  decl_args :: "string list"

record builtin_config =
  b_decl :: decl

record capabilities_config =
  c_builtins :: "(string, builtin_config) gomap"
  c_future_keywords :: "string list"
  c_features :: "string list"

record project_root =
  root_path :: string
  root_rego_version :: "int option"

record project =
  p_roots :: "project_root list option"
  p_rego_version :: "int option"

record remote_features =
  check_version :: bool

record features_config =
  f_remote :: "remote_features option"

record config =
  cfg_defaults :: defaults
  cfg_rules :: "(string, rule_category) gomap"
  cfg_capabilities :: "capabilities_config option"
  cfg_features :: "features_config option"
  cfg_project :: "project option"
  cfg_capabilities_url :: string
  cfg_ignore :: ignore

definition no_default :: rule_default where
  "no_default = \<lparr>d_level = ''''\<rparr>"

definition empty_config :: config where
  "empty_config = \<lparr>cfg_defaults = \<lparr>d_categories = [], d_global = no_default\<rparr>, cfg_rules = [],
     cfg_capabilities = None, cfg_features = None, cfg_project = None, cfg_capabilities_url = '''',
     cfg_ignore = \<lparr>ign_files = []\<rparr>\<rparr>"

text \<open>The capabilities of OPA: what \<open>fromOPABuiltin\<close> reads of a built-in function.\<close>

record opa_builtin =
  ob_name :: string
  ob_args :: "string list"
  ob_result :: "string option"

record opa_capabilities =
  oc_builtins :: "opa_builtin list"
  oc_future_keywords :: "string list"
  oc_features :: "string list"

text \<open>\<open>marshallingIntermediary\<close>, flattened; an absent \<open>version\<close> is \<open>GNil\<close>.\<close>

record intermediary =
  im_rules :: "(string, gval) gomap"
  im_project :: "project option"
  im_engine :: string
  im_version :: gval
  im_file :: string
  im_url :: string
  im_plus :: "opa_builtin list"
  im_minus :: "string list"
  im_ignore :: ignore
  im_check_version :: bool

datatype config_error =
    ResultNotAMap
  | CategoryNotAMap string
  | BadIgnore gval
  | URLAndFile
  | URLAndEngine
  | URLAndVersion
  | FileAndEngine
  | VersionNotSet
  | VersionNotAString
  | VersionWithoutV
  | NoAbsolutePath string
  | LookupFailed string
  | NotFound
  | PastRoot
  | AtRoot
  | BothFound
  | BadPattern string
  | ManifestError string

record config_env =
  json_ignore :: "gval \<Rightarrow> config_error + ignore"
  abs_path :: "string \<Rightarrow> config_error + string"
  caps_lookup :: "string \<Rightarrow> config_error + opa_capabilities"

section \<open>Reading rules and defaults\<close>

definition default_map_to_config :: "rule_default \<Rightarrow> gval \<Rightarrow> config_error + rule_default" where
  "default_map_to_config d result =
     (case result of
        GMap resultMap \<Rightarrow>
          Inr (case map_get resultMap ''level'' of Some (GStr level) \<Rightarrow> d\<lparr>d_level := level\<rparr> | _ \<Rightarrow> d)
      | _ \<Rightarrow> Inl ResultNotAMap)"

definition rule_map_to_config :: "config_env \<Rightarrow> rule_config \<Rightarrow> gval \<Rightarrow> config_error + rule_config" where
  "rule_map_to_config env rule result =
     (case result of
        GMap ruleMap \<Rightarrow>
          (let rule = (case map_get ruleMap ''level'' of
                 Some (GStr level) \<Rightarrow> rule\<lparr>r_level := level\<rparr> | _ \<Rightarrow> rule)
           in bind_res
             (case map_get ruleMap ''ignore'' of
                Some ign \<Rightarrow> bind_res (json_ignore env ign) (\<lambda>dst. Inr (rule\<lparr>r_ignore := Some dst\<rparr>))
              | None \<Rightarrow> Inr rule)
             (\<lambda>rule. Inr (rule\<lparr>r_extra := map_del (map_del ruleMap ''level'') ''ignore''\<rparr>)))
      | _ \<Rightarrow> Inl ResultNotAMap)"

definition zero_rule :: rule_config where
  "zero_rule = \<lparr>r_ignore = None, r_extra = [], r_level = ''''\<rparr>"

text \<open>The inner loop of \<open>extractRules\<close>, for one category.\<close>

fun extract_category ::
    "config_env \<Rightarrow> (string, gval) gomap \<Rightarrow> rule_category \<Rightarrow> config_error + rule_category" where
  "extract_category env [] ruleMap = Inr ruleMap"
| "extract_category env ((ruleName, ruleData) # rest) ruleMap =
     (if ruleName = ''default'' then extract_category env rest ruleMap
      else bind_res (rule_map_to_config env zero_rule ruleData) (\<lambda>r.
        extract_category env rest (map_set ruleMap ruleName r)))"

fun extract_rules_loop :: "config_env \<Rightarrow> (string, gval) gomap \<Rightarrow> (string, rule_category) gomap
    \<Rightarrow> config_error + (string, rule_category) gomap" where
  "extract_rules_loop env [] categoryMap = Inr categoryMap"
| "extract_rules_loop env ((key, val) # rest) categoryMap =
     (if key = ''default'' then extract_rules_loop env rest categoryMap
      else (case val of
          GMap rawRuleMap \<Rightarrow>
            bind_res (extract_category env rawRuleMap []) (\<lambda>ruleMap.
              extract_rules_loop env rest (map_set categoryMap key ruleMap))
        | _ \<Rightarrow> Inl (CategoryNotAMap key)))"

definition extract_rules :: "config_env \<Rightarrow> config \<Rightarrow> intermediary \<Rightarrow> config_error + config" where
  "extract_rules env c result =
     bind_res (extract_rules_loop env (im_rules result) []) (\<lambda>categoryMap.
       Inr (c\<lparr>cfg_rules := categoryMap\<rparr>))"

fun extract_category_defaults :: "(string, gval) gomap \<Rightarrow> (string, rule_default) gomap
    \<Rightarrow> config_error + (string, rule_default) gomap" where
  "extract_category_defaults [] cats = Inr cats"
| "extract_category_defaults ((key, val) # rest) cats =
     (case val of
        GMap rawRuleMap \<Rightarrow>
          (case map_get rawRuleMap ''default'' of
             Some rawCategoryDefault \<Rightarrow>
               bind_res (default_map_to_config no_default rawCategoryDefault) (\<lambda>d.
                 extract_category_defaults rest (map_set cats key d))
           | None \<Rightarrow> extract_category_defaults rest cats)
      | _ \<Rightarrow> Inl (CategoryNotAMap key))"

definition extract_defaults :: "config \<Rightarrow> intermediary \<Rightarrow> config_error + config" where
  "extract_defaults c result =
     bind_res
       (case map_get (im_rules result) ''default'' of
          Some rawGlobalDefault \<Rightarrow> default_map_to_config (d_global (cfg_defaults c)) rawGlobalDefault
        | None \<Rightarrow> Inr (d_global (cfg_defaults c)))
       (\<lambda>g. bind_res (extract_category_defaults (im_rules result) []) (\<lambda>cats.
          Inr (c\<lparr>cfg_defaults := \<lparr>d_categories = cats, d_global = g\<rparr>\<rparr>)))"

section \<open>Capabilities\<close>

definition default_url :: string where
  "default_url = ''regal:///capabilities/default''"

text \<open>\<open>builtinResultOverrides\<close>.\<close>

definition builtin_result_overrides :: "(string, string) gomap" where
  "builtin_result_overrides = [(''object.subset'', ''boolean'')]"

definition from_opa_builtin :: "opa_builtin \<Rightarrow> builtin_config" where
  "from_opa_builtin b =
     \<lparr>b_decl = \<lparr>decl_result =
          (case map_get builtin_result_overrides (ob_name b) of
             Some corrected \<Rightarrow> corrected
           | None \<Rightarrow> (case ob_result b of Some r \<Rightarrow> r | None \<Rightarrow> '''')),
        decl_args = ob_args b\<rparr>\<rparr>"

definition from_opa_capabilities :: "opa_capabilities \<Rightarrow> capabilities_config" where
  "from_opa_capabilities caps =
     \<lparr>c_builtins = foldl (\<lambda>m b. map_set m (ob_name b) (from_opa_builtin b)) [] (oc_builtins caps),
      c_future_keywords = oc_future_keywords caps,
      c_features = oc_features caps\<rparr>"

text \<open>The checks of \<open>UnmarshalYAML\<close> and the URL they end with. The version has type \<open>any\<close>: it is compared
  with a string, and an absent version is not equal to the empty string.\<close>

definition capabilities_url :: "config_env \<Rightarrow> intermediary \<Rightarrow> config_error + string" where
  "capabilities_url env im =
     (let file = im_file im; engine = im_engine im; version = im_version im; url = im_url im in
      if url \<noteq> '''' \<and> file \<noteq> '''' then Inl URLAndFile
      else if url \<noteq> '''' \<and> engine \<noteq> '''' then Inl URLAndEngine
      else if url \<noteq> '''' \<and> version \<noteq> GStr '''' then Inl URLAndVersion
      else if file \<noteq> '''' \<and> engine \<noteq> '''' then Inl FileAndEngine
      else if engine \<noteq> '''' \<and> version = GStr '''' then Inl VersionNotSet
      else bind_res
        (if engine \<noteq> '''' then
           (case version of
              GStr v \<Rightarrow>
                if engine = ''opa'' \<and> \<not> has_prefix v ''v'' then Inl VersionWithoutV
                else Inr (''regal:///capabilities/'' @ engine @ ''/'' @ v)
            | _ \<Rightarrow> Inl VersionNotAString)
         else Inr url) (\<lambda>url.
        bind_res
          (if file \<noteq> '''' then
             bind_res (abs_path env file) (\<lambda>absfp.
               Inr (''file://'' @ (if \<not> has_prefix absfp ''/'' then ''/'' @ absfp else absfp)))
           else Inr url) (\<lambda>url.
          Inr (if engine = '''' \<and> file = '''' \<and> url = '''' then default_url else url))))"

definition apply_minus :: "(string, builtin_config) gomap \<Rightarrow> string list \<Rightarrow> (string, builtin_config) gomap" where
  "apply_minus bs names = foldl (\<lambda>m n. map_del m n) bs names"

definition apply_plus :: "(string, builtin_config) gomap \<Rightarrow> opa_builtin list \<Rightarrow> (string, builtin_config) gomap" where
  "apply_plus bs added = foldl (\<lambda>m b. map_set m (ob_name b) (from_opa_builtin b)) bs added"

definition unmarshal_config :: "config_env \<Rightarrow> config \<Rightarrow> intermediary \<Rightarrow> config_error + config" where
  "unmarshal_config env c im =
     bind_res (extract_defaults c im) (\<lambda>c.
     bind_res (extract_rules env c im) (\<lambda>c.
     let c = c\<lparr>cfg_ignore := im_ignore im\<rparr> in
     bind_res (capabilities_url env im) (\<lambda>url.
     bind_res (caps_lookup env url) (\<lambda>opaCaps.
     let caps = from_opa_capabilities opaCaps;
         caps = caps\<lparr>c_builtins := apply_plus (apply_minus (c_builtins caps) (im_minus im)) (im_plus im)\<rparr>;
         c = c\<lparr>cfg_capabilities_url := url, cfg_capabilities := Some caps, cfg_project := im_project im\<rparr>
     in Inr (if im_check_version im
         then c\<lparr>cfg_features := Some \<lparr>f_remote = Some \<lparr>check_version = True\<rparr>\<rparr>\<rparr> else c)))))"

section \<open>Writing rules\<close>

text \<open>\<open>Rule.MarshalYAML\<close>.\<close>

definition ignore_value :: "ignore \<Rightarrow> gval" where
  "ignore_value i = GMap [(''files'', GArr (map GStr (ign_files i)))]"

definition marshal_rule :: "rule_config \<Rightarrow> (string, gval) gomap" where
  "marshal_rule rule =
     (let result = [(''level'', GStr (r_level rule))];
          result = (case r_ignore rule of
              Some i \<Rightarrow> if ign_files i \<noteq> [] then map_set result ''ignore'' (ignore_value i) else result
            | None \<Rightarrow> result)
      in foldl (\<lambda>res (key, val). if key \<noteq> ''ignore'' \<and> key \<noteq> ''level'' then map_set res key val else res)
           result (r_extra rule))"

section \<open>Rego versions\<close>

datatype rego_version = RegoUndefined | RegoV0 | RegoV0CompatV1 | RegoV1

definition rego_version_from_config_value :: "int option \<Rightarrow> rego_version" where
  "rego_version_from_config_value version =
     (case version of
        None \<Rightarrow> RegoUndefined
      | Some v \<Rightarrow> if v = 0 then RegoV0 else if v = 1 then RegoV1 else RegoUndefined)"

text \<open>The loop over the manifests; \<open>manifest\<close> reads and decodes the manifest file at a path.\<close>

fun manifest_versions :: "(string \<Rightarrow> config_error + int option) \<Rightarrow> string \<Rightarrow> string list
    \<Rightarrow> (string, rego_version) gomap \<Rightarrow> config_error + (string, rego_version) gomap" where
  "manifest_versions manifest root [] versions = Inr versions"
| "manifest_versions manifest root (dir # dirs) versions =
     bind_res (manifest (fp_join [root, dir, ''.manifest''])) (\<lambda>v.
       manifest_versions manifest root dirs
         (case v of None \<Rightarrow> versions
          | Some n \<Rightarrow> map_set versions dir (rego_version_from_config_value (Some n))))"

definition root_versions :: "project_root list \<Rightarrow> (string, rego_version) gomap \<Rightarrow> (string, rego_version) gomap" where
  "root_versions roots versions =
     foldl (\<lambda>m r. case root_rego_version r of
         None \<Rightarrow> m
       | Some v \<Rightarrow> map_set m (root_path r) (rego_version_from_config_value (Some v))) versions roots"

definition all_rego_versions :: "(string \<Rightarrow> config_error + string list) \<Rightarrow> (string \<Rightarrow> config_error + int option)
    \<Rightarrow> string \<Rightarrow> config option \<Rightarrow> config_error + (string, rego_version) gomap" where
  "all_rego_versions find_manifests manifest root conf =
     (case conf of
        None \<Rightarrow> Inr []
      | Some c \<Rightarrow>
          bind_res (find_manifests root) (\<lambda>locations.
          bind_res (manifest_versions manifest root locations []) (\<lambda>versions.
            Inr (case cfg_project c of
                None \<Rightarrow> versions
              | Some p \<Rightarrow>
                  (let versions = (case p_rego_version p of
                         None \<Rightarrow> versions
                       | Some v \<Rightarrow> map_set versions '''' (rego_version_from_config_value (Some v)))
                   in case p_roots p of None \<Rightarrow> versions | Some rs \<Rightarrow> root_versions rs versions)))))"

section \<open>Merging with the provided configuration\<close>

text \<open>\<open>providedConfLevels\<close>: levels by rule name only.\<close>

definition provided_conf_levels :: "config \<Rightarrow> (string, string) gomap" where
  "provided_conf_levels conf =
     foldl (\<lambda>m (categoryName, cat). foldl (\<lambda>m (ruleName, rule). map_set m ruleName (r_level rule)) m cat)
       [] (cfg_rules conf)"

definition selected_rule_level :: "config \<Rightarrow> config \<Rightarrow> string \<Rightarrow> string \<Rightarrow> string \<Rightarrow> string" where
  "selected_rule_level user merged category ruleName providedLevel =
     (let userRule = (case map_get (cfg_rules user) category of
              Some rs \<Rightarrow> map_get rs ruleName | None \<Rightarrow> None)
      in case userRule of
           Some r \<Rightarrow> (if r_level r \<noteq> '''' then r_level r
             else (case map_get (d_categories (cfg_defaults merged)) category of
                 Some cd \<Rightarrow> if d_level cd \<noteq> '''' then d_level cd else providedLevel
               | None \<Rightarrow> if d_level (d_global (cfg_defaults merged)) \<noteq> ''''
                   then d_level (d_global (cfg_defaults merged)) else providedLevel))
         | None \<Rightarrow> (case map_get (d_categories (cfg_defaults merged)) category of
                 Some cd \<Rightarrow> if d_level cd \<noteq> '''' then d_level cd else providedLevel
               | None \<Rightarrow> if d_level (d_global (cfg_defaults merged)) \<noteq> ''''
                   then d_level (d_global (cfg_defaults merged)) else providedLevel))"

definition extract_user_rule_levels :: "config \<Rightarrow> config \<Rightarrow> (string, string) gomap \<Rightarrow> config" where
  "extract_user_rule_levels user merged provided =
     merged\<lparr>cfg_rules := map (\<lambda>(category, rs).
       (category, map (\<lambda>(ruleName, rule).
          (ruleName, (case map_get provided ruleName of
              None \<Rightarrow> rule
            | Some providedLevel \<Rightarrow>
                rule\<lparr>r_level := selected_rule_level user merged category ruleName providedLevel\<rparr>))) rs))
       (cfg_rules merged)\<rparr>"

text \<open>\<open>WithDefaultsFromBundle\<close>, after the bundled configuration is decoded; \<open>merge\<close> is mergo's merge with
  override and \<open>this_version\<close> the capabilities of the built-in OPA version.\<close>

definition with_defaults_from_bundle ::
    "(config \<Rightarrow> config \<Rightarrow> config_error + config) \<Rightarrow> capabilities_config \<Rightarrow> config \<Rightarrow> config option
     \<Rightarrow> config_error + config" where
  "with_defaults_from_bundle merge this_version defaultConfig userConfig =
     (case userConfig of
        None \<Rightarrow> Inr (defaultConfig\<lparr>cfg_capabilities := Some this_version\<rparr>)
      | Some user \<Rightarrow>
          (let provided = provided_conf_levels defaultConfig in
           bind_res (merge defaultConfig user) (\<lambda>merged.
             let merged = (if cfg_capabilities merged = None
                   then merged\<lparr>cfg_capabilities := Some this_version\<rparr> else merged)
             in Inr (extract_user_rule_levels user merged provided))))"

section \<open>Levels\<close>

text \<open>The level that a rule ends up with, by precedence: the user's level for the rule, the category's
  default, the global default (only for categories without a default entry), the provided level.\<close>

fun first_level :: "string list \<Rightarrow> string" where
  "first_level [] = ''''"
| "first_level (l # ls) = (if l \<noteq> '''' then l else first_level ls)"

definition user_rule_level :: "config \<Rightarrow> string \<Rightarrow> string \<Rightarrow> string" where
  "user_rule_level user category ruleName =
     (case map_get (cfg_rules user) category of
        Some rs \<Rightarrow> (case map_get rs ruleName of Some r \<Rightarrow> r_level r | None \<Rightarrow> '''')
      | None \<Rightarrow> '''')"

definition default_level :: "config \<Rightarrow> string \<Rightarrow> string" where
  "default_level merged category =
     (case map_get (d_categories (cfg_defaults merged)) category of
        Some cd \<Rightarrow> d_level cd
      | None \<Rightarrow> d_level (d_global (cfg_defaults merged)))"

lemma selected_rule_level_first:
  "selected_rule_level user merged category ruleName providedLevel
     = first_level [user_rule_level user category ruleName, default_level merged category, providedLevel]"
  by (auto simp: selected_rule_level_def user_rule_level_def default_level_def split: option.splits)

definition rule_in :: "config \<Rightarrow> string \<Rightarrow> string \<Rightarrow> rule_config option" where
  "rule_in c category ruleName =
     (case map_get (cfg_rules c) category of Some rs \<Rightarrow> map_get rs ruleName | None \<Rightarrow> None)"

lemma map_of_map_value: "map_of (map (\<lambda>(k, v). (k, f k v)) m) k = map_option (f k) (map_of m k)"
  by (induction m) auto

text \<open>After merging, every rule that the provided configuration knows has the level of the first of:
  the user's setting for that rule, the default of its category (or the global default where the category
  has none), the provided level. No other rule changes, and nothing but the level changes.\<close>

theorem extract_user_rule_levels_precedence:
  "rule_in (extract_user_rule_levels user merged provided) category ruleName =
     map_option (\<lambda>rule. case map_get provided ruleName of
         None \<Rightarrow> rule
       | Some lvl \<Rightarrow> rule\<lparr>r_level := first_level
           [user_rule_level user category ruleName, default_level merged category, lvl]\<rparr>)
       (rule_in merged category ruleName)"
  unfolding extract_user_rule_levels_def selected_rule_level_first
  by (auto simp: rule_in_def map_of_map_value split: option.splits)

section \<open>Capabilities: lemmas\<close>

text \<open>A configuration that names a capabilities URL and, as the documentation shows, nothing else is
  always rejected: the absent version, a nil \<open>any\<close>, is compared with the empty string and found
  different.\<close>

theorem capabilities_url_without_version_rejected:
  assumes "im_url im \<noteq> ''''" "im_file im = ''''" "im_engine im = ''''" "im_version im = GNil"
  shows "capabilities_url env im = Inl URLAndVersion"
  using assms by (simp add: capabilities_url_def)

definition sample_im :: intermediary where
  "sample_im = \<lparr>im_rules = [], im_project = None, im_engine = '''', im_version = GNil, im_file = '''',
     im_url = ''https://example.com/c.json'', im_plus = [], im_minus = [],
     im_ignore = \<lparr>ign_files = []\<rparr>, im_check_version = False\<rparr>"

definition sample_env :: config_env where
  "sample_env = \<lparr>json_ignore = \<lambda>v. Inr \<lparr>ign_files = []\<rparr>, abs_path = \<lambda>p. Inr p,
     caps_lookup = \<lambda>u. Inr \<lparr>oc_builtins = [\<lparr>ob_name = ''f'', ob_args = [], ob_result = None\<rparr>],
       oc_future_keywords = [], oc_features = []\<rparr>\<rparr>"

lemma capabilities_url_without_version_rejected_witness:
  "capabilities_url sample_env sample_im = Inl URLAndVersion"
  by (rule capabilities_url_without_version_rejected) (simp_all add: sample_im_def)

text \<open>The URL that the checks let through names exactly one source.\<close>

lemma capabilities_url_source:
  assumes "capabilities_url env im = Inr url"
  shows "(im_engine im \<noteq> '''' \<and> im_file im = '''' \<and> im_url im = ''''
      \<and> (\<exists>v. im_version im = GStr v \<and> v \<noteq> '''' \<and> (im_engine im = ''opa'' \<longrightarrow> has_prefix v ''v'')
        \<and> url = ''regal:///capabilities/'' @ im_engine im @ ''/'' @ v))
    \<or> (im_engine im = '''' \<and> im_file im \<noteq> '''' \<and> im_url im = '''' \<and> has_prefix url ''file:///'')
    \<or> (im_engine im = '''' \<and> im_file im = '''' \<and> im_url im \<noteq> '''' \<and> im_version im = GStr '''' \<and> url = im_url im)
    \<or> (im_engine im = '''' \<and> im_file im = '''' \<and> im_url im = '''' \<and> url = default_url)"
proof -
  have slash: "has_prefix p ''/'' \<Longrightarrow> has_prefix (''file://'' @ p) ''file:///''" for p :: string
    by (cases p) auto
  show ?thesis
    using assms slash
    by (auto simp: capabilities_url_def Let_def bind_res_eq_Inr split: if_splits gval.splits)
qed

lemma apply_minus_get: "map_of (apply_minus bs names) k = (if k \<in> set names then None else map_of bs k)"
  unfolding apply_minus_def by (induction names arbitrary: bs) auto

lemma apply_plus_get:
  "map_of (apply_plus bs added) k = (case map_of (rev (map (\<lambda>b. (ob_name b, from_opa_builtin b)) added)) k of
     Some v \<Rightarrow> Some v | None \<Rightarrow> map_of bs k)"
  unfolding apply_plus_def
  by (induction added arbitrary: bs) (auto simp: map_add_def split: option.splits)

text \<open>What \<open>UnmarshalYAML\<close> makes of the capabilities: they come from exactly one of an engine with its
  version, a file, a URL or the default; built-ins named under \<open>plus\<close> are in, with the last definition
  given; those named only under \<open>minus\<close> are out; all others are as looked up.\<close>

theorem unmarshal_capabilities:
  assumes "unmarshal_config env c im = Inr c'"
  shows "\<exists>url ocaps caps. capabilities_url env im = Inr url \<and> caps_lookup env url = Inr ocaps
    \<and> cfg_capabilities_url c' = url \<and> cfg_capabilities c' = Some caps
    \<and> (\<forall>k. map_get (c_builtins caps) k =
        (case map_of (rev (map (\<lambda>b. (ob_name b, from_opa_builtin b)) (im_plus im))) k of
           Some b \<Rightarrow> Some b
         | None \<Rightarrow> if k \<in> set (im_minus im) then None
             else map_get (c_builtins (from_opa_capabilities ocaps)) k))"
  using assms
  by (auto simp: unmarshal_config_def bind_res_eq_Inr Let_def apply_plus_get apply_minus_get
      split: if_splits option.splits)

lemma unmarshal_capabilities_witness:
  "\<exists>c' caps. unmarshal_config sample_env empty_config (sample_im\<lparr>im_url := '''', im_minus := [''f'']\<rparr>) = Inr c'
     \<and> cfg_capabilities c' = Some caps \<and> map_get (c_builtins caps) ''f'' = None"
proof -
  let ?im = "sample_im\<lparr>im_url := '''', im_minus := [''f'']\<rparr>"
  obtain c' where c: "unmarshal_config sample_env empty_config ?im = Inr c'"
    by (simp add: unmarshal_config_def extract_defaults_def extract_rules_def sample_im_def sample_env_def
        capabilities_url_def Let_def)
  from unmarshal_capabilities [OF c] show ?thesis using c by (auto simp: sample_im_def)
qed

section \<open>Rules: lemmas\<close>

lemma marshal_loop_get:
  "map_of (foldl (\<lambda>res (key, val). if key \<noteq> ''ignore'' \<and> key \<noteq> ''level'' then map_set res key val else res) m extra) k
     = (if k = ''ignore'' \<or> k = ''level'' then map_of m k
        else case map_of (rev extra) k of Some v \<Rightarrow> Some v | None \<Rightarrow> map_of m k)"
  by (induction extra arbitrary: m) (auto simp: map_add_def split: option.splits if_splits)

lemma map_of_rev: "distinct (map fst xs) \<Longrightarrow> map_of (rev xs) = map_of xs"
  by (induction xs) (auto simp: map_add_upd_left dom_map_of_conv_image_fst)

text \<open>A rule written by \<open>MarshalYAML\<close> and read back by \<open>mapToConfig\<close> is the rule: level, ignore entry
  and every extra attribute survive. The hypotheses are that the rule was read from a map (its extra
  attributes are neither \<open>level\<close> nor \<open>ignore\<close>), that an ignore entry lists a file, and that decoding
  undoes encoding for that entry.\<close>

theorem rule_roundtrip:
  assumes "map_wf (r_extra rule)" "map_get (r_extra rule) ''level'' = None"
    and "map_get (r_extra rule) ''ignore'' = None"
    and "\<forall>i. r_ignore rule = Some i \<longrightarrow> ign_files i \<noteq> [] \<and> json_ignore env (ignore_value i) = Inr i"
  shows "\<exists>rule'. rule_map_to_config env zero_rule (GMap (marshal_rule rule)) = Inr rule'
    \<and> r_level rule' = r_level rule \<and> r_ignore rule' = r_ignore rule
    \<and> map_get (r_extra rule') = map_get (r_extra rule)"
proof -
  have lv: "map_of (marshal_rule rule) ''level'' = Some (GStr (r_level rule))"
    using assms by (auto simp: marshal_rule_def Let_def marshal_loop_get split: option.splits)
  have ig: "map_of (marshal_rule rule) ''ignore'' = map_option ignore_value (r_ignore rule)"
    using assms by (auto simp: marshal_rule_def Let_def marshal_loop_get split: option.splits)
  have ex: "map_of (marshal_rule rule) k = map_of (r_extra rule) k"
    if "k \<noteq> ''level''" "k \<noteq> ''ignore''" for k
    using that assms
    by (auto simp: marshal_rule_def Let_def marshal_loop_get map_of_rev split: option.splits)
  have "map_of (map_del (map_del (marshal_rule rule) ''level'') ''ignore'') = map_of (r_extra rule)"
    using ex assms(2,3) by (auto simp: fun_eq_iff)
  then show ?thesis
    using assms(4) lv ig
    by (cases "r_ignore rule") (auto simp: rule_map_to_config_def Let_def zero_rule_def)
qed

lemma rule_roundtrip_witness:
  "\<exists>rule'. rule_map_to_config (sample_env\<lparr>json_ignore := \<lambda>v. Inr \<lparr>ign_files = [''a'']\<rparr>\<rparr>) zero_rule
      (GMap (marshal_rule \<lparr>r_ignore = Some \<lparr>ign_files = [''a'']\<rparr>, r_extra = [(''max'', GInt 3)], r_level = ''error''\<rparr>))
     = Inr rule' \<and> r_level rule' = ''error''"
  using rule_roundtrip [of "\<lparr>r_ignore = Some \<lparr>ign_files = [''a'']\<rparr>, r_extra = [(''max'', GInt 3)], r_level = ''error''\<rparr>"
      "sample_env\<lparr>json_ignore := \<lambda>v. Inr \<lparr>ign_files = [''a'']\<rparr>\<rparr>"]
  by auto

section \<open>Versions: lemmas\<close>

lemma root_versions_get:
  "map_of (root_versions roots versions) k =
     (case List.find (\<lambda>r. root_path r = k \<and> root_rego_version r \<noteq> None) (rev roots) of
        Some r \<Rightarrow> Some (rego_version_from_config_value (root_rego_version r))
      | None \<Rightarrow> map_of versions k)"
  unfolding root_versions_def
proof (induction roots arbitrary: versions)
  case Nil
  then show ?case by simp
next
  case (Cons r roots)
  have f: "List.find P (xs @ [x]) = (case List.find P xs of Some y \<Rightarrow> Some y | None \<Rightarrow> if P x then Some x else None)"
    for P :: "project_root \<Rightarrow> bool" and xs x by (induction xs) auto
  show ?case
    by (auto simp: f Cons.IH split: option.splits)
qed

end
