(* ===== verification/Config_Object.thy ===== *)
theory Config_Object
  imports Config
begin

text \<open>
  \<open>pkg/config/objectable.go\<close> and \<open>internal/roast/transforms/value.go\<close>: the configuration as the object
  that the linter's policies read. Every \<open>toObject\<close> method yields the items of its object.
\<close>

section \<open>Dynamic values as AST values\<close>

type_synonym aobj = "(aval \<times> aval) list"

text \<open>What depends on floating-point numbers: \<open>float_int\<close> is the integer that a float equals, if any, and
  \<open>format_float\<close> is \<open>strconv.FormatFloat\<close>.\<close>

record any_env = ast_env +
  float_int :: "string \<Rightarrow> int option"
  format_float :: "string \<Rightarrow> string"

fun any_to_value :: "any_env \<Rightarrow> gval \<Rightarrow> aval" where
  "any_to_value env GNil = ANull"
| "any_to_value env (GBool b) = ABool b"
| "any_to_value env (GFloat x) =
     (case float_int env x of Some ix \<Rightarrow> ANum (itoa_int ix) | None \<Rightarrow> ANum (format_float env x))"
| "any_to_value env (GInt i) = ANum (itoa_int i)"
| "any_to_value env (GNumber x) =
     (case num_int64 env x of Some ix \<Rightarrow> ANum (itoa_int ix) | None \<Rightarrow> ANum x)"
| "any_to_value env (GStr s) = AStr s"
| "any_to_value env (GArr xs) = (if xs = [] then AArr [] else AArr (map (any_to_value env) xs))"
| "any_to_value env (GMap m) =
     (if m = [] then AObj [] else new_object (map (\<lambda>(k, v). (AStr k, any_to_value env v)) m))"

section \<open>Objects\<close>

definition map_to_object :: "('a \<Rightarrow> aobj) \<Rightarrow> (string, 'a) gomap \<Rightarrow> aobj" where
  "map_to_object to_object items =
     foldl (\<lambda>obj (name, item). obj_insert obj name (AObj (to_object item))) [] items"

definition items_object :: "(string \<times> aval) list \<Rightarrow> aobj" where
  "items_object items = foldl (\<lambda>obj (k, v). obj_insert obj k v) [] items"

definition rule_to_object :: "any_env \<Rightarrow> rule_config \<Rightarrow> aobj" where
  "rule_to_object env rule =
     (let obj = items_object [(''level'', AStr (r_level rule))];
          obj = (case r_ignore rule of
              Some i \<Rightarrow> if ign_files i \<noteq> []
                then obj_insert obj ''ignore'' (AObj (items_object [(''files'', array_term (ign_files i))]))
                else obj
            | None \<Rightarrow> obj)
      in foldl (\<lambda>obj (key, val). obj_insert obj key (any_to_value env val)) obj (r_extra rule))"

definition ignore_to_object :: "ignore \<Rightarrow> aobj" where
  "ignore_to_object i = items_object [(''files'', array_term (ign_files i))]"

definition category_to_object :: "any_env \<Rightarrow> rule_category \<Rightarrow> aobj" where
  "category_to_object env c = map_to_object (rule_to_object env) c"

definition root_to_object :: "project_root \<Rightarrow> aobj" where
  "root_to_object r =
     (case root_rego_version r of
        Some v \<Rightarrow> items_object [(''path'', AStr (root_path r)), (''rego_version'', ANum (itoa_int v))]
      | None \<Rightarrow> items_object [(''path'', AStr (root_path r))])"

definition project_to_object :: "project \<Rightarrow> aobj" where
  "project_to_object p =
     (let obj = [];
          obj = (case p_roots p of
              Some roots \<Rightarrow> obj_insert obj ''roots'' (AArr (map (\<lambda>r. AObj (root_to_object r)) roots))
            | None \<Rightarrow> obj)
      in case p_rego_version p of
          Some v \<Rightarrow> obj_insert obj ''rego_version'' (ANum (itoa_int v))
        | None \<Rightarrow> obj)"

definition features_to_object :: "features_config \<Rightarrow> aobj" where
  "features_to_object f =
     (case f_remote f of
        Some r \<Rightarrow> obj_insert [] ''remote'' (AObj (items_object [(''check-version'', ABool (check_version r))]))
      | None \<Rightarrow> [])"

definition decl_to_object :: "decl \<Rightarrow> aobj" where
  "decl_to_object d = items_object [(''result'', AStr (decl_result d)), (''args'', array_term (decl_args d))]"

definition builtin_to_object :: "builtin_config \<Rightarrow> aobj" where
  "builtin_to_object b = items_object [(''decl'', AObj (decl_to_object (b_decl b)))]"

definition capabilities_to_object :: "capabilities_config \<Rightarrow> aobj" where
  "capabilities_to_object c = items_object
     [(''builtins'', AObj (map_to_object builtin_to_object (c_builtins c))),
      (''future_keywords'', array_term (c_future_keywords c)), (''features'', array_term (c_features c))]"

definition features_is_zero :: "features_config option \<Rightarrow> bool" where
  "features_is_zero f = (case f of None \<Rightarrow> True | Some x \<Rightarrow> f_remote x = None)"

definition config_to_object :: "any_env \<Rightarrow> config \<Rightarrow> aobj" where
  "config_to_object env c =
     (let obj = [];
          obj = (if cfg_rules c \<noteq> []
              then obj_insert obj ''rules'' (AObj (map_to_object (category_to_object env) (cfg_rules c))) else obj);
          obj = (case cfg_capabilities c of
              Some caps \<Rightarrow> obj_insert obj ''capabilities'' (AObj (capabilities_to_object caps)) | None \<Rightarrow> obj);
          obj = (if features_is_zero (cfg_features c) then obj
              else case cfg_features c of
                Some f \<Rightarrow> obj_insert obj ''features'' (AObj (features_to_object f)) | None \<Rightarrow> obj);
          obj = (if ign_files (cfg_ignore c) \<noteq> []
              then obj_insert obj ''ignore'' (AObj (ignore_to_object (cfg_ignore c))) else obj);
          obj = (case cfg_project c of
              Some p \<Rightarrow> obj_insert obj ''project'' (AObj (project_to_object p)) | None \<Rightarrow> obj)
      in if cfg_capabilities_url c \<noteq> ''''
         then obj_insert obj ''capabilities_url'' (AStr (cfg_capabilities_url c)) else obj)"

section \<open>Lemmas\<close>

lemma obj_insert_get [simp]: "map_of (obj_insert obj key v) k = (if k = AStr key then Some v else map_of obj k)"
  by (simp add: obj_insert_def)

lemma inserts_get:
  "map_of (foldl (\<lambda>obj (key, val). obj_insert obj key (f val)) obj kvs) (AStr k)
     = (case map_of (rev kvs) k of Some v \<Rightarrow> Some (f v) | None \<Rightarrow> map_of obj (AStr k))"
  by (induction kvs arbitrary: obj) (auto simp: map_add_def split: option.splits)

lemma items_object_get: "map_of (items_object kvs) (AStr k) = map_of (rev kvs) k"
  using inserts_get [of "\<lambda>v. v" "[]" kvs k] by (simp add: items_object_def split: option.splits)

lemma map_to_object_get:
  "map_of (map_to_object f items) (AStr k) = map_option (\<lambda>x. AObj (f x)) (map_of (rev items) k)"
  using inserts_get [of "\<lambda>x. AObj (f x)" "[]" items k] by (simp add: map_to_object_def split: option.splits)

lemma map_of_map_AStr: "map_of (map (\<lambda>(k, v). (AStr k, f v)) m) (AStr k) = map_option f (map_of m k)"
  by (induction m) auto

lemma any_to_value_map_get:
  "as_obj (any_to_value env (GMap m)) = Some obj \<Longrightarrow>
     map_of obj (AStr k) = map_option (any_to_value env) (map_of (rev m) k)"
  by (cases "m = []") (simp_all add: new_object_get rev_map map_of_map_AStr)

lemma any_to_value_obj: "\<exists>obj. any_to_value env (GMap m) = AObj obj"
  by (simp add: new_object_def)

lemma array_term_strings: "any_to_value env (GArr (map GStr xs)) = array_term xs"
  by (simp add: array_term_def slice_map_eq)

text \<open>The keys of the marshalled rule are distinct.\<close>

lemma marshal_loop_wf:
  "map_wf m \<Longrightarrow> map_wf (foldl (\<lambda>res (key, val).
      if key \<noteq> ''ignore'' \<and> key \<noteq> ''level'' then map_set res key val else res) m xs)"
  by (induction xs arbitrary: m) auto

lemma marshal_rule_wf: "map_wf (marshal_rule rule)"
  unfolding marshal_rule_def Let_def
  by (rule marshal_loop_wf) (simp split: option.splits)

lemma ignore_object: "any_to_value env (ignore_value i) = AObj (items_object [(''files'', array_term (ign_files i))])"
  using array_term_strings [of env "ign_files i"]
  by (simp add: ignore_value_def items_object_def new_object_def obj_insert_def del: map_map)

lemma marshal_rule_get:
  assumes "map_wf (r_extra rule)" "map_get (r_extra rule) ''level'' = None"
    "map_get (r_extra rule) ''ignore'' = None"
  shows "map_get (marshal_rule rule) k =
    (if k = ''level'' then Some (GStr (r_level rule))
     else if k = ''ignore'' then
       (case r_ignore rule of Some i \<Rightarrow> if ign_files i \<noteq> [] then Some (ignore_value i) else None | None \<Rightarrow> None)
     else map_get (r_extra rule) k)"
  using assms by (auto simp: marshal_rule_def Let_def marshal_loop_get map_of_rev split: option.splits)

lemma rule_to_object_get:
  assumes "map_wf (r_extra rule)" "map_get (r_extra rule) ''level'' = None"
    "map_get (r_extra rule) ''ignore'' = None"
  shows "map_get (rule_to_object env rule) (AStr k) = map_option (any_to_value env) (map_get (marshal_rule rule) k)"
proof -
  have "map_get (rule_to_object env rule) (AStr k) =
    (case map_get (r_extra rule) k of Some v \<Rightarrow> Some (any_to_value env v) | None \<Rightarrow>
       if k = ''level'' then Some (AStr (r_level rule)) else if k = ''ignore'' then
        (case r_ignore rule of Some i \<Rightarrow> if ign_files i \<noteq> []
          then Some (AObj (items_object [(''files'', array_term (ign_files i))])) else None | None \<Rightarrow> None)
       else None)"
    unfolding rule_to_object_def Let_def inserts_get map_of_rev [OF assms(1)]
    by (auto simp: items_object_get split: option.splits)
  then show ?thesis
    unfolding marshal_rule_get [OF assms] using assms(2,3)
    by (simp add: ignore_object del: any_to_value.simps(8) split: option.splits)
qed

text \<open>The policies see a rule as the user would see it in a file: the object built by \<open>toObject\<close>
  has, attribute by attribute, the values of the YAML mapping that \<open>MarshalYAML\<close> writes, converted by
  \<open>AnyToValue\<close>.\<close>

theorem rule_to_object_marshal:
  assumes "map_wf (r_extra rule)" "map_get (r_extra rule) ''level'' = None"
    "map_get (r_extra rule) ''ignore'' = None"
  shows "\<exists>obj. any_to_value env (GMap (marshal_rule rule)) = AObj obj
    \<and> (\<forall>k. map_of (rule_to_object env rule) (AStr k) = map_of obj (AStr k))"
proof -
  obtain obj where obj: "any_to_value env (GMap (marshal_rule rule)) = AObj obj"
    using any_to_value_obj by blast
  then have "map_of obj (AStr k) = map_option (any_to_value env) (map_of (marshal_rule rule) k)" for k
    using any_to_value_map_get [of env "marshal_rule rule" obj k] map_of_rev [OF marshal_rule_wf] by simp
  with obj show ?thesis using rule_to_object_get [OF assms] by auto
qed

definition sample_any_env :: any_env where
  "sample_any_env = \<lparr>num_int64 = \<lambda>s. None, float_number = \<lambda>s. s, json_decode = \<lambda>s. None, sprint = \<lambda>v. '''',
     float_int = \<lambda>s. None, format_float = \<lambda>s. s\<rparr>"

definition sample_rule :: rule_config where
  "sample_rule = \<lparr>r_ignore = Some \<lparr>ign_files = [''a'']\<rparr>, r_extra = [(''max'', GInt 3)], r_level = ''error''\<rparr>"

lemma rule_to_object_marshal_witness:
  "\<exists>obj. any_to_value sample_any_env (GMap (marshal_rule sample_rule)) = AObj obj
    \<and> map_of (rule_to_object sample_any_env sample_rule) (AStr ''level'') = map_of obj (AStr ''level'')"
  using rule_to_object_marshal [of sample_rule sample_any_env] by (simp add: sample_rule_def del: any_to_value.simps) blast

end
