(* ===== verification/File_Walk.thy ===== *)
theory File_Walk
  imports Go_Filepath Go_Util
begin

text \<open>
  \<open>internal/io/files\<close> (the walker and its filters), the searches that are built on it
  (\<open>FindManifestLocations\<close>, \<open>FindConfigRoots\<close>) and \<open>pkg/config/filter.go\<close>, which leaves out ignored files.

  A file system is a function from paths to trees: \<open>fs p\<close> is the file or directory at \<open>p\<close>, the entries
  of a directory in the order in which \<open>os.ReadDir\<close> lists them. Read errors are not modelled, a missing
  root is. The glob library is a parameter.
\<close>

section \<open>Walking a tree\<close>

datatype fs_node = FileNode | DirNode "(string \<times> fs_node) list"

record dir_entry =
  de_name :: string
  de_is_dir :: bool

text \<open>What a callback of \<open>filepath.WalkDir\<close> returns: nothing, \<open>fs.SkipDir\<close> or another error.\<close>

datatype 'e walk_res = WalkOk | SkipDir | WalkErr 'e

fun walk_dir :: "(string \<Rightarrow> dir_entry \<Rightarrow> 's \<Rightarrow> 's \<times> 'e walk_res) \<Rightarrow> string \<Rightarrow> string \<Rightarrow> fs_node \<Rightarrow> 's
    \<Rightarrow> 's \<times> 'e walk_res"
  and walk_entries :: "(string \<Rightarrow> dir_entry \<Rightarrow> 's \<Rightarrow> 's \<times> 'e walk_res) \<Rightarrow> string
    \<Rightarrow> (string \<times> fs_node) list \<Rightarrow> 's \<Rightarrow> 's \<times> 'e walk_res" where
  "walk_dir f path name FileNode s = f path \<lparr>de_name = name, de_is_dir = False\<rparr> s"
| "walk_dir f path name (DirNode es) s =
     (case f path \<lparr>de_name = name, de_is_dir = True\<rparr> s of
        (s, WalkOk) \<Rightarrow> walk_entries f path es s
      | (s, SkipDir) \<Rightarrow> (s, WalkOk)
      | (s, WalkErr e) \<Rightarrow> (s, WalkErr e))"
| "walk_entries f path [] s = (s, WalkOk)"
| "walk_entries f path ((name, d) # es) s =
     (case walk_dir f (fp_join [path, name]) name d s of
        (s, WalkOk) \<Rightarrow> walk_entries f path es s
      | (s, SkipDir) \<Rightarrow> (s, WalkOk)
      | (s, WalkErr e) \<Rightarrow> (s, WalkErr e))"

section \<open>Filters\<close>

type_synonym file_filter = "string \<Rightarrow> dir_entry \<Rightarrow> bool"

definition default_skip_directories :: file_filter where
  "default_skip_directories p info =
     (de_is_dir info \<and> (de_name info = ''.git'' \<or> de_name info = ''.idea'' \<or> de_name info = ''node_modules''))"

definition directories :: file_filter where
  "directories p info = de_is_dir info"

definition filenames :: "string list \<Rightarrow> file_filter" where
  "filenames names p info = list_ex (\<lambda>name. de_name info = name) names"

definition suffixes_filter :: "string list \<Rightarrow> file_filter" where
  "suffixes_filter sufs path info = list_ex (\<lambda>suffix. has_suffix path suffix) sufs"

definition not_filter :: "file_filter \<Rightarrow> file_filter" where
  "not_filter flt path info = (\<not> flt path info)"

definition rego_tests :: file_filter where
  "rego_tests path info = (has_suffix path ''_test.rego'' \<and> de_name info \<noteq> ''todo_test.rego'')"

definition not_rego :: file_filter where
  "not_rego path info = (\<not> has_suffix path ''.rego'' \<and> \<not> has_suffix path ''.rq'')"

section \<open>The walker\<close>

record walker =
  w_root :: string
  w_filters :: "file_filter list"
  w_skip_func :: "file_filter option"
  w_stat_root :: bool

datatype 'e walk_error = RootEmpty | StatFailed string | WalkFailed string | CallbackFailed 'e

definition new_walker :: "string \<Rightarrow> walker" where
  "new_walker root = \<lparr>w_root = root, w_filters = [], w_skip_func = None, w_stat_root = False\<rparr>"

definition with_filters :: "file_filter list \<Rightarrow> walker \<Rightarrow> walker" where
  "with_filters fs fw = fw\<lparr>w_filters := w_filters fw @ fs\<rparr>"

definition with_skip_func :: "file_filter \<Rightarrow> walker \<Rightarrow> walker" where
  "with_skip_func f fw = fw\<lparr>w_skip_func := Some f\<rparr>"

definition with_stat_before_walk :: "bool \<Rightarrow> walker \<Rightarrow> walker" where
  "with_stat_before_walk b fw = fw\<lparr>w_stat_root := b\<rparr>"

definition default_walker :: "string \<Rightarrow> walker" where
  "default_walker root = with_filters [directories] (with_skip_func default_skip_directories (new_walker root))"

text \<open>The callback that \<open>walker\<close> builds around the caller's function.\<close>

definition walker_fn :: "walker \<Rightarrow> (string \<Rightarrow> 's \<Rightarrow> 's \<times> 'e option) \<Rightarrow> string \<Rightarrow> dir_entry \<Rightarrow> 's
    \<Rightarrow> 's \<times> 'e walk_res" where
  "walker_fn fw f path d s =
     (if (case w_skip_func fw of None \<Rightarrow> False | Some skip \<Rightarrow> skip path d) then (s, SkipDir)
      else if list_ex (\<lambda>flt. flt path d) (w_filters fw) then (s, WalkOk)
      else (case f path s of (s, None) \<Rightarrow> (s, WalkOk) | (s, Some e) \<Rightarrow> (s, WalkErr e)))"

definition walker_validate :: "(string \<Rightarrow> fs_node option) \<Rightarrow> walker \<Rightarrow> 'e walk_error option" where
  "walker_validate fs fw =
     (if w_root fw = '''' then Some RootEmpty
      else if w_stat_root fw \<and> fs (w_root fw) = None then Some (StatFailed (w_root fw))
      else None)"

text \<open>\<open>Walk\<close>, and \<open>Reduce\<close>, which is \<open>Walk\<close> with the accumulator as the state.\<close>

definition walker_walk :: "(string \<Rightarrow> fs_node option) \<Rightarrow> walker \<Rightarrow> (string \<Rightarrow> 's \<Rightarrow> 's \<times> 'e option) \<Rightarrow> 's
    \<Rightarrow> 's \<times> 'e walk_error option" where
  "walker_walk fs fw f s =
     (case walker_validate fs fw of
        Some e \<Rightarrow> (s, Some e)
      | None \<Rightarrow> (case fs (w_root fw) of
          None \<Rightarrow> (s, Some (WalkFailed (w_root fw)))
        | Some node \<Rightarrow> (case walk_dir (walker_fn fw f) (w_root fw) (fp_base (w_root fw)) node s of
              (s, WalkErr e) \<Rightarrow> (s, Some (CallbackFailed e))
            | (s, _) \<Rightarrow> (s, None))))"

definition path_append_reducer :: "string \<Rightarrow> string list \<Rightarrow> string list \<times> unit option" where
  "path_append_reducer path found = (found @ [path], None)"

section \<open>Searches\<close>

text \<open>\<open>filepath.Rel\<close> for a base and a target that are both absolute or both relative.\<close>

definition path_elems :: "string \<Rightarrow> string list" where
  "path_elems p = clean_elems (fp_is_abs p) (split_byte sep p)"

fun drop_common :: "string list \<Rightarrow> string list \<Rightarrow> string list \<times> string list" where
  "drop_common (b # bs) (t # ts) = (if b = t then drop_common bs ts else (b # bs, t # ts))"
| "drop_common bs ts = (bs, ts)"

definition fp_rel :: "string \<Rightarrow> string \<Rightarrow> string option" where
  "fp_rel basepath targpath =
     (if fp_is_abs basepath \<noteq> fp_is_abs targpath then None
      else case drop_common (path_elems basepath) (path_elems targpath) of
        (bs, ts) \<Rightarrow>
          if bs \<noteq> [] \<and> hd bs = ''..'' then None
          else Some (unclean False (map (\<lambda>b. ''..'') bs @ ts)))"

definition find_manifest_locations :: "(string \<Rightarrow> fs_node option) \<Rightarrow> string
    \<Rightarrow> string list \<times> string walk_error option" where
  "find_manifest_locations fs root =
     walker_walk fs (with_filters [not_filter (filenames [''.manifest''])] (default_walker root))
       (\<lambda>path found. case fp_rel root path of
            Some rel \<Rightarrow> (found @ [fp_dir rel], None)
          | None \<Rightarrow> (found, Some path)) []"

definition config_roots_reducer :: "string \<Rightarrow> string list \<Rightarrow> string list \<times> unit option" where
  "config_roots_reducer path foundRoots =
     (let foundRoots = (if has_suffix path ''.regal.yaml'' then foundRoots @ [fp_dir path] else foundRoots);
          foundRoots = (if has_suffix path ''.regal/config.yaml'' then foundRoots @ [fp_dir (fp_dir path)]
            else foundRoots)
      in (foundRoots, None))"

definition find_config_roots :: "(string \<Rightarrow> fs_node option) \<Rightarrow> string \<Rightarrow> string list \<times> unit walk_error option" where
  "find_config_roots fs path =
     walker_walk fs (with_filters [not_filter (filenames [''config.yaml'', ''.regal.yaml''])] (default_walker path))
       config_roots_reducer []"

section \<open>Ignored paths\<close>

record 'g glob_env =
  glob_compile :: "string \<Rightarrow> 'g option"
  glob_match :: "'g \<Rightarrow> string \<Rightarrow> bool"

text \<open>The patterns that one entry of an ignore list is expanded to.\<close>

definition expand_suffix :: "string \<Rightarrow> string list" where
  "expand_suffix p =
     (if has_suffix p ''/'' then [p @ ''**'']
      else if \<not> has_suffix p ''**'' \<and> \<not> has_suffix p ''.rego'' then [p, p @ ''/**'']
      else [p])"

definition expand_pattern :: "string \<Rightarrow> string list" where
  "expand_pattern pattern =
     (if pattern = '''' then []
      else let pattern = (if \<not> str_contains (butlast pattern) ''/'' then ''**/'' @ pattern else pattern);
               pattern = trim_prefix pattern ''/'';
               ps = (case cut_prefix pattern ''**/'' of (noPrefix, ok) \<Rightarrow> if ok then [pattern, noPrefix] else [pattern])
           in concat (map expand_suffix ps))"

fun compile_all :: "'g glob_env \<Rightarrow> string list \<Rightarrow> string + 'g list" where
  "compile_all env [] = Inr []"
| "compile_all env (p # ps) =
     (case glob_compile env p of
        None \<Rightarrow> Inl p
      | Some g \<Rightarrow> bind_res (compile_all env ps) (\<lambda>gs. Inr (g # gs)))"

definition compile_patterns :: "'g glob_env \<Rightarrow> string list \<Rightarrow> string + 'g list" where
  "compile_patterns env patterns = compile_all env (concat (map expand_pattern patterns))"

definition exclude_file :: "'g glob_env \<Rightarrow> 'g \<Rightarrow> string \<Rightarrow> string \<Rightarrow> bool" where
  "exclude_file env pattern filename pathPrefix =
     glob_match env pattern
       (if pathPrefix \<noteq> '''' then trim_prefix (trim_prefix filename pathPrefix) ''/'' else filename)"

fun filter_paths_loop :: "'g glob_env \<Rightarrow> 'g list \<Rightarrow> string \<Rightarrow> string list \<Rightarrow> string list" where
  "filter_paths_loop env patterns pathPrefix [] = []"
| "filter_paths_loop env patterns pathPrefix (f # fs) =
     (if list_ex (\<lambda>p. exclude_file env p f pathPrefix) patterns
      then filter_paths_loop env patterns pathPrefix fs
      else f # filter_paths_loop env patterns pathPrefix fs)"

definition filter_paths :: "'g glob_env \<Rightarrow> string list \<Rightarrow> string list \<Rightarrow> string \<Rightarrow> string + string list" where
  "filter_paths env policyPaths ignored pathPrefix =
     bind_res (compile_patterns env ignored) (\<lambda>patterns. Inr (filter_paths_loop env patterns pathPrefix policyPaths))"

text \<open>The loop over the paths given; the walk is the default one, without files that are not Rego.\<close>

fun collect_paths :: "(string \<Rightarrow> fs_node option) \<Rightarrow> string list \<Rightarrow> string list
    \<Rightarrow> unit walk_error + string list" where
  "collect_paths fs [] filtered = Inr filtered"
| "collect_paths fs (path # paths) filtered =
     (case walker_walk fs (with_stat_before_walk True (with_filters [not_rego] (default_walker path)))
         path_append_reducer filtered of
        (filtered, Some e) \<Rightarrow> Inl e
      | (filtered, None) \<Rightarrow> collect_paths fs paths filtered)"

datatype filter_error = WalkError "unit walk_error" | PatternError string

definition filter_ignored_paths :: "(string \<Rightarrow> fs_node option) \<Rightarrow> 'g glob_env \<Rightarrow> string list \<Rightarrow> string list
    \<Rightarrow> bool \<Rightarrow> string \<Rightarrow> filter_error + string list" where
  "filter_ignored_paths fs env paths ignored checkExists pathPrefix =
     (if paths = [] \<or> paths = [''-''] \<or> \<not> checkExists \<and> ignored = [] then Inr paths
      else bind_res
        (if checkExists then (case collect_paths fs paths [] of Inl e \<Rightarrow> Inl (WalkError e) | Inr ps \<Rightarrow> Inr ps)
         else Inr paths) (\<lambda>paths.
        case filter_paths env paths ignored (ensure_suffix pathPrefix ''/'') of
          Inl e \<Rightarrow> Inl (PatternError e) | Inr ps \<Rightarrow> Inr ps))"

section \<open>Lemmas\<close>

text \<open>The files of a tree, in the order of a walk, that are not below a directory that is skipped.\<close>

fun tree_files :: "string \<Rightarrow> string \<Rightarrow> fs_node \<Rightarrow> (string \<times> string) list"
  and entry_files :: "string \<Rightarrow> (string \<times> fs_node) list \<Rightarrow> (string \<times> string) list" where
  "tree_files path name FileNode = [(path, name)]"
| "tree_files path name (DirNode es) =
     (if name \<in> {''.git'', ''.idea'', ''node_modules''} then [] else entry_files path es)"
| "entry_files path [] = []"
| "entry_files path ((name, d) # es) = tree_files (fp_join [path, name]) name d @ entry_files path es"

lemma default_walk_fn:
  assumes "w_filters fw = directories # flts" "w_skip_func fw = Some default_skip_directories"
  shows "walker_fn fw f path d s =
    (if default_skip_directories path d then (s, SkipDir)
     else if de_is_dir d \<or> list_ex (\<lambda>flt. flt path d) flts then (s, WalkOk)
     else (case f path s of (s, None) \<Rightarrow> (s, WalkOk) | (s, Some e) \<Rightarrow> (s, WalkErr e)))"
  using assms by (simp add: walker_fn_def directories_def)

text \<open>A default walk with a function that never fails is a fold over the files that no filter takes.\<close>

lemma default_walk_fold:
  assumes "w_filters fw = directories # flts" "w_skip_func fw = Some default_skip_directories"
    and "\<And>p s. f p s = (g p s, None)"
  shows "walk_dir (walker_fn fw f) path name node s =
      (foldl (\<lambda>s (p, n). if list_ex (\<lambda>flt. flt p \<lparr>de_name = n, de_is_dir = False\<rparr>) flts then s else g p s) s
        (tree_files path name node), WalkOk)"
    and "walk_entries (walker_fn fw f) path es s =
      (foldl (\<lambda>s (p, n). if list_ex (\<lambda>flt. flt p \<lparr>de_name = n, de_is_dir = False\<rparr>) flts then s else g p s) s
        (entry_files path es), WalkOk)"
proof (induction path name node and path es arbitrary: s and s rule: tree_files_entry_files.induct)
  case (1 path name)
  then show ?case
    by (simp add: default_walk_fn [OF assms(1,2)] assms(3) default_skip_directories_def)
next
  case (2 path name es)
  then show ?case
    by (auto simp: default_walk_fn [OF assms(1,2)] default_skip_directories_def)
next
  case (3 path)
  then show ?case by simp
next
  case (4 path name d es)
  then show ?case by simp
qed

lemma foldl_append_filter:
  "foldl (\<lambda>s p. if Q (fst p) then s else s @ [fst p]) s xs = s @ filter (\<lambda>p. \<not> Q p) (map fst xs)"
  by (induction xs arbitrary: s) auto

definition rego_files :: "(string \<Rightarrow> fs_node option) \<Rightarrow> string \<Rightarrow> string list" where
  "rego_files fs path = (case fs path of None \<Rightarrow> []
     | Some node \<Rightarrow> filter (\<lambda>p. has_suffix p ''.rego'' \<or> has_suffix p ''.rq'')
         (map fst (tree_files path (fp_base path) node)))"

lemma rego_walk:
  "walker_walk fs (with_stat_before_walk True (with_filters [not_rego] (default_walker path)))
       path_append_reducer acc =
     (if path = '''' then (acc, Some RootEmpty)
      else if fs path = None then (acc, Some (StatFailed path))
      else (acc @ rego_files fs path, None))"
proof -
  let ?fw = "with_stat_before_walk True (with_filters [not_rego] (default_walker path))"
  have fw: "w_filters ?fw = directories # [not_rego]" "w_skip_func ?fw = Some default_skip_directories"
    "w_root ?fw = path" "w_stat_root ?fw"
    by (simp_all add: with_stat_before_walk_def with_filters_def default_walker_def with_skip_func_def new_walker_def)
  have r: "path_append_reducer p s = (s @ [p], None)" for p s by (simp add: path_append_reducer_def)
  show ?thesis
    using default_walk_fold(1) [where f = path_append_reducer and g = "\<lambda>p s. s @ [p]", OF fw(1,2) r,
        of path "fp_base path" "the (fs path)" acc] fw(3,4)
      foldl_append_filter [where Q = "\<lambda>p. \<not> has_suffix p ''.rego'' \<and> \<not> has_suffix p ''.rq''"]
    by (auto simp: walker_walk_def walker_validate_def not_rego_def rego_files_def
        case_prod_unfold split: option.splits)
qed

lemma collect_paths_eq:
  assumes "\<forall>p\<in>set paths. p \<noteq> '''' \<and> fs p \<noteq> None"
  shows "collect_paths fs paths acc = Inr (acc @ concat (map (rego_files fs) paths))"
  using assms
proof (induction paths arbitrary: acc)
  case Nil
  then show ?case by simp
next
  case (Cons p ps)
  then show ?case by (auto simp: rego_walk)
qed

lemma filter_paths_loop_eq:
  "filter_paths_loop env patterns pathPrefix fs
     = filter (\<lambda>f. \<not> list_ex (\<lambda>p. exclude_file env p f pathPrefix) patterns) fs"
  by (induction fs) auto

lemma compile_all_Inr: "compile_all env ps = Inr gs \<longleftrightarrow> map (glob_compile env) ps = map Some gs"
proof (induction ps arbitrary: gs)
  case Nil
  then show ?case by auto
next
  case (Cons p ps)
  then show ?case by (cases gs) (auto simp: bind_res_eq_Inr split: option.splits)
qed

text \<open>C7. \<open>FilterIgnoredPaths\<close> on existing paths yields, in the order of the walk, exactly the Rego files in
  the trees at those paths that are not below \<open>.git\<close>, \<open>.idea\<close> or \<open>node_modules\<close> and that, with the prefix
  cut off, match none of the expanded ignore patterns.\<close>

theorem filter_ignored_paths_result:
  assumes "paths \<noteq> []" "paths \<noteq> [''-'']" "\<forall>p\<in>set paths. p \<noteq> '''' \<and> fs p \<noteq> None"
    and "map (glob_compile env) (concat (map expand_pattern ignored)) = map Some globs"
  shows "filter_ignored_paths fs env paths ignored True pathPrefix =
    Inr (filter (\<lambda>f. \<forall>g\<in>set globs. \<not> exclude_file env g f (ensure_suffix pathPrefix ''/''))
      (concat (map (rego_files fs) paths)))"
proof -
  have "compile_patterns env ignored = Inr globs"
    unfolding compile_patterns_def compile_all_Inr by (rule assms(4))
  then show ?thesis
    using assms(1,2) collect_paths_eq [OF assms(3), of "[]"]
    by (simp add: filter_ignored_paths_def filter_paths_def filter_paths_loop_eq list_ex_iff)
qed

definition sample_fs :: "string \<Rightarrow> fs_node option" where
  "sample_fs p = (if p = ''/p'' then Some (DirNode [(''a.rego'', FileNode), (''b.txt'', FileNode),
     (''.git'', DirNode [(''c.rego'', FileNode)])]) else None)"

lemma filter_ignored_paths_result_witness:
  "filter_ignored_paths sample_fs \<lparr>glob_compile = Some, glob_match = \<lambda>g s. g = s\<rparr> [''/p''] [] True ''''
     = Inr (rego_files sample_fs ''/p'')"
  using filter_ignored_paths_result [of "[''/p'']" sample_fs "\<lparr>glob_compile = Some, glob_match = \<lambda>g s. g = s\<rparr>" "[]" "[]" "''''"]
  by (simp add: sample_fs_def)

end
