(* ===== verification/Config_Find.thy ===== *)
theory Config_Find
  imports Config File_Walk
begin

text \<open>
  Where configuration and bundle roots are found: \<open>Find\<close>, \<open>findUpwards\<close>, \<open>FindBundleRootDirectories\<close>,
  \<open>rootsFromRegalConfigDirOrFile\<close> and \<open>GetPotentialRoots\<close> of \<open>pkg/config/config.go\<close>, and
  \<open>DirCleanUpPaths\<close> of \<open>internal/io/io.go\<close>, on Unix. Opening a file that exists succeeds; decoding a
  configuration file is the parameter \<open>load_conf\<close>. The loops that climb a path are partial functions:
  \<^term>\<open>None\<close> is a loop that does not end.
\<close>

section \<open>Climbing a path\<close>

definition stat_dir :: "(string \<Rightarrow> fs_node option) \<Rightarrow> string \<Rightarrow> bool option" where
  "stat_dir fs p = (case fs p of None \<Rightarrow> None | Some FileNode \<Rightarrow> Some False | Some (DirNode es) \<Rightarrow> Some True)"

definition is_dir :: "(string \<Rightarrow> fs_node option) \<Rightarrow> string \<Rightarrow> bool" where
  "is_dir fs p = (stat_dir fs p = Some True)"

text \<open>The directory above, from the elements of \<open>dir\<close>.\<close>

definition one_level_up :: "string list \<Rightarrow> string" where
  "one_level_up parts =
     (case butlast parts of [] \<Rightarrow> fp_join []
      | p # ps \<Rightarrow> fp_join ((if p = '''' then ''/'' else p) # ps))"

partial_function (option) find_upwards_loop ::
    "(string \<Rightarrow> fs_node option) \<Rightarrow> string \<Rightarrow> bool \<Rightarrow> string \<Rightarrow> (config_error + string) option" where
  "find_upwards_loop fs name expectDir dir =
     (let searchPath = fp_join [''/'', dir, name] in
      if stat_dir fs searchPath = Some expectDir then Some (Inr searchPath)
      else if searchPath = ''/'' @ name then Some (Inl PastRoot)
      else if length (split_byte sep dir) < 2 then Some (Inl AtRoot)
      else find_upwards_loop fs name expectDir (one_level_up (split_byte sep dir)))"

declare find_upwards_loop.simps [code]

definition find_upwards :: "(string \<Rightarrow> fs_node option) \<Rightarrow> string \<Rightarrow> string \<Rightarrow> bool
    \<Rightarrow> (config_error + string) option" where
  "find_upwards fs path name expectDir =
     find_upwards_loop fs name expectDir (if is_dir fs path then path else fp_dir path)"

text \<open>\<open>Find\<close>; a file is its path.\<close>

definition find_config :: "(string \<Rightarrow> fs_node option) \<Rightarrow> string \<Rightarrow> (config_error + string) option" where
  "find_config fs path = do {
     regalDir \<leftarrow> find_upwards fs path ''.regal'' True;
     regalConfigFile \<leftarrow> find_upwards fs path ''.regal.yaml'' False;
     Some (
       let regalDirParent = (case (regalDir, regalConfigFile) of (Inr d, Inr f) \<Rightarrow> fp_dir d | _ \<Rightarrow> '''');
           regalConfigFileParent = (case (regalDir, regalConfigFile) of (Inr d, Inr f) \<Rightarrow> fp_dir f | _ \<Rightarrow> '''')
       in case (regalDir, regalConfigFile) of
            (Inl e, Inl e') \<Rightarrow> Inl NotFound
          | (Inl e, Inr f) \<Rightarrow> Inr f
          | (Inr d, r) \<Rightarrow>
              (if \<not> isl r \<and> regalDirParent = regalConfigFileParent then Inl BothFound
               else if length regalConfigFileParent > length regalDirParent then r
               else (let expected = fp_join [d, ''config.yaml''] in
                 if stat_dir fs expected = None then Inl NotFound else Inr expected)))
   }"

section \<open>Bundle roots\<close>

definition manifest_dirs :: "(string \<Rightarrow> fs_node option) \<Rightarrow> string \<Rightarrow> config_error + string list" where
  "manifest_dirs fs root = (case find_manifest_locations fs root of
       (ds, None) \<Rightarrow> Inr ds | (ds, Some e) \<Rightarrow> Inl (ManifestError root))"

definition roots_from_regal_config :: "(string \<Rightarrow> fs_node option) \<Rightarrow> (string \<Rightarrow> config option) \<Rightarrow> string
    \<Rightarrow> config_error + string list" where
  "roots_from_regal_config fs load_conf file =
     (case stat_dir fs file of
        None \<Rightarrow> Inl NotFound
      | Some isDir \<Rightarrow>
          (case fp_split file of (parent, filename) \<Rightarrow>
            if isDir \<and> filename \<noteq> ''.regal'' \<or> \<not> isDir \<and> filename \<noteq> ''.regal.yaml'' then Inl NotFound
            else let parent = fp_clean parent;
                configFilePath = (if isDir then fp_join [file, ''config.yaml''] else file);
                roots = [parent];
                roots = (case load_conf configFilePath of
                    Some conf \<Rightarrow> (case cfg_project conf of
                        Some p \<Rightarrow> (case p_roots p of
                            Some rs \<Rightarrow> roots @ map (\<lambda>r. fp_join [parent, root_path r]) rs
                          | None \<Rightarrow> roots)
                      | None \<Rightarrow> roots)
                  | None \<Rightarrow> roots);
                roots = (if isDir \<and> is_dir fs (fp_join [file, ''rules''])
                    then roots @ [fp_join [file, ''rules'']] else roots)
              in bind_res (manifest_dirs fs parent) (\<lambda>manifestRoots.
                Inr (roots @ map (\<lambda>d. fp_join [parent, d]) manifestRoots))))"

text \<open>The callback of the walk downwards.\<close>

definition bundle_root_step :: "(string \<Rightarrow> fs_node option) \<Rightarrow> (string \<Rightarrow> config option) \<Rightarrow> string
    \<Rightarrow> string list \<Rightarrow> string list \<times> config_error option" where
  "bundle_root_step fs load_conf path found =
     (case (if fp_dir path = ''.regal'' then roots_from_regal_config fs load_conf path else Inr []) of
        Inl e \<Rightarrow> (found, Some e)
      | Inr roots \<Rightarrow>
          (let found = found @ roots in
           if fp_base path = ''.manifest'' then (found @ [fp_dir path], None) else (found, None)))"

definition roots_of_found :: "(string \<Rightarrow> fs_node option) \<Rightarrow> (string \<Rightarrow> config option)
    \<Rightarrow> config_error + string \<Rightarrow> config_error + string list" where
  "roots_of_found fs load_conf found =
     (case found of Inl e \<Rightarrow> Inr [] | Inr file \<Rightarrow> roots_from_regal_config fs load_conf file)"

definition find_bundle_root_directories :: "(string \<Rightarrow> fs_node option) \<Rightarrow> (string \<Rightarrow> config option) \<Rightarrow> string
    \<Rightarrow> (config_error + string list) option" where
  "find_bundle_root_directories fs load_conf path = do {
     regalDir \<leftarrow> find_upwards fs path ''.regal'' True;
     regalConfigFile \<leftarrow> find_upwards fs path ''.regal.yaml'' False;
     Some (
       bind_res (roots_of_found fs load_conf regalDir) (\<lambda>roots.
       bind_res (roots_of_found fs load_conf regalConfigFile) (\<lambda>roots'.
         (case walker_walk fs (with_skip_func default_skip_directories (new_walker path))
             (bundle_root_step fs load_conf) (roots @ roots') of
            (found, Some e) \<Rightarrow> Inl (ManifestError path)
          | (found, None) \<Rightarrow> Inr (remdups_adj (sorted_slice found))))))
   }"

text \<open>\<open>GetPotentialRoots\<close>; \<open>abs_path\<close> makes a path absolute.\<close>

definition abs_dir_paths :: "(string \<Rightarrow> fs_node option) \<Rightarrow> (string \<Rightarrow> string) \<Rightarrow> string list \<Rightarrow> string list" where
  "abs_dir_paths fs absol paths = map (\<lambda>path.
     let a = (if fp_is_abs path then path else absol path) in if is_dir fs a then a else fp_dir a) paths"

fun collect_roots :: "(string \<Rightarrow> fs_node option) \<Rightarrow> (string \<Rightarrow> config option) \<Rightarrow> string list \<Rightarrow> string gset
    \<Rightarrow> (config_error + string gset) option" where
  "collect_roots fs load_conf [] dirMap = Some (Inr dirMap)"
| "collect_roots fs load_conf (dir # dirs) dirMap =
     (case find_bundle_root_directories fs load_conf dir of
        None \<Rightarrow> None
      | Some (Inl e) \<Rightarrow> Some (Inl e)
      | Some (Inr brds) \<Rightarrow> collect_roots fs load_conf dirs (set_add dirMap brds))"

definition get_potential_roots :: "(string \<Rightarrow> fs_node option) \<Rightarrow> (string \<Rightarrow> config option) \<Rightarrow> (string \<Rightarrow> string)
    \<Rightarrow> string list \<Rightarrow> (config_error + string list) option" where
  "get_potential_roots fs load_conf absol paths =
     (let dirs = abs_dir_paths fs absol paths in
      case collect_roots fs load_conf dirs (new_set []) of
        None \<Rightarrow> None
      | Some (Inl e) \<Rightarrow> Some (Inl e)
      | Some (Inr dirMap) \<Rightarrow> Some (Inr (if set_size dirMap = 0 then dirs else set_items dirMap)))"

section \<open>Cleaning up empty directories\<close>

partial_function (option) preserve_up :: "string gset \<Rightarrow> string \<Rightarrow> string gset option" where
  "preserve_up preserveDirs p =
     (let preserveDirs = set_add preserveDirs [p]; q = fp_dir p in
      if q = ''.'' \<or> q = ''/'' \<or> q = '''' \<or> set_contains preserveDirs [q] then Some preserveDirs
      else preserve_up preserveDirs q)"

declare preserve_up.simps [code]

fun preserve_all :: "string list \<Rightarrow> string gset \<Rightarrow> string gset option" where
  "preserve_all [] preserveDirs = Some preserveDirs"
| "preserve_all (p # ps) preserveDirs = Option.bind (preserve_up preserveDirs p) (preserve_all ps)"

text \<open>An entry of \<open>dir\<close> that does not keep it from being empty.\<close>

definition entry_gone :: "string \<Rightarrow> string list \<Rightarrow> string \<Rightarrow> string \<times> fs_node \<Rightarrow> bool" where
  "entry_gone target dirs dir entry =
     (let absol = fp_join [dir, fst entry] in
      absol = target \<or> (snd entry \<noteq> FileNode \<and> dirs \<noteq> [] \<and> last dirs = absol))"

partial_function (option) clean_up_loop :: "(string \<Rightarrow> fs_node option) \<Rightarrow> string \<Rightarrow> string gset \<Rightarrow> string list
    \<Rightarrow> string \<Rightarrow> (string + string list) option" where
  "clean_up_loop fs target preserveDirs dirs dir =
     (if set_contains preserveDirs [dir] then Some (Inr dirs)
      else if sep \<notin> set dir then Some (Inr dirs)
      else (case fs dir of
          Some (DirNode entries) \<Rightarrow>
            if list_all (entry_gone target dirs dir) entries
            then clean_up_loop fs target preserveDirs (dirs @ [dir]) (fp_dir dir)
            else Some (Inr dirs)
        | _ \<Rightarrow> Some (Inl dir)))"

declare clean_up_loop.simps [code]

definition dir_clean_up_paths :: "(string \<Rightarrow> fs_node option) \<Rightarrow> string \<Rightarrow> string list
    \<Rightarrow> (string + string list) option" where
  "dir_clean_up_paths fs target preserve =
     Option.bind (preserve_all preserve (new_set [])) (\<lambda>preserveDirs.
       clean_up_loop fs target preserveDirs [] (fp_dir target))"

section \<open>Climbing a path: lemmas\<close>

lemma fp_join_slash:
  assumes "clean_list True es" shows "fp_join (''/'' # es) = rooted es"
proof (cases "es = []")
  case True
  then show ?thesis by (simp add: fp_join_def fp_clean_rooted clean_elems_def clean_step_def)
next
  case False
  have "fp_join (''/'' # es) = fp_clean (sep # (sep # join_str ''/'' es))"
    using False by (simp add: fp_join_def join_str_Cons)
  then show ?thesis
    unfolding fp_clean_rooted
    using split_join_sep [OF False clean_list_ok [OF assms]] clean_elems_fixed [OF assms]
    by (simp add: clean_elems_skip_empty)
qed

lemma fp_join_search:
  assumes "clean_list True (es @ [e])" shows "fp_join [''/'', rooted es, e] = rooted (es @ [e])"
proof -
  have e: "elem_ok e" "e \<noteq> ''..''" "clean_list True es" using assms by (simp_all add: clean_list_snoc)
  have "fp_join [''/'', rooted es, e] = fp_clean (sep # (sep # rooted es @ sep # e))"
    by (simp add: fp_join_def)
  also have "\<dots> = fp_clean (rooted es @ sep # e)"
    by (simp add: fp_clean_rooted clean_elems_skip_empty unclean_def [of True es])
  also have "\<dots> = fp_join [rooted es, e]" by (simp add: fp_join_def unclean_def)
  finally show ?thesis using fp_join_rooted [OF e(3,1,2)] by simp
qed

lemma one_level_up_rooted:
  assumes "clean_list True es" "es \<noteq> []" shows "one_level_up (split_byte sep (rooted es)) = rooted (butlast es)"
proof -
  have "split_byte sep (rooted es) = '''' # es"
    using split_join_sep [OF assms(2) clean_list_ok [OF assms(1)]] by (simp add: unclean_def)
  then show ?thesis
    using assms(2) fp_join_slash [OF clean_list_butlast [OF assms(1)]] by (simp add: one_level_up_def)
qed

lemma rooted_inj: "clean_list True es \<Longrightarrow> clean_list True fs \<Longrightarrow> rooted es = rooted fs \<longleftrightarrow> es = fs"
proof -
  assume es: "clean_list True es" and fs: "clean_list True fs"
  have "es = fs" if "rooted es = rooted fs"
  proof (cases "es = [] \<or> fs = []")
    case True
    have ne: "join_str ''/'' xs \<noteq> []" if "xs \<noteq> []" "\<forall>x\<in>set xs. elem_ok x" for xs
      using that by (cases xs; cases "tl xs") (auto simp: elem_ok_def)
    have "join_str ''/'' es = join_str ''/'' fs" using that by (simp add: unclean_def)
    then show ?thesis
      using True ne [OF _ clean_list_ok [OF es]] ne [OF _ clean_list_ok [OF fs]]
      by (metis join_str.simps(1))
  next
    case False
    then have "split_byte sep (join_str ''/'' es) = es" "split_byte sep (join_str ''/'' fs) = fs"
      using split_join_sep clean_list_ok [OF es] clean_list_ok [OF fs] by blast+
    moreover have "join_str ''/'' es = join_str ''/'' fs" using that by (simp add: unclean_def)
    ultimately show ?thesis by metis
  qed
  then show ?thesis by blast
qed

text \<open>The number of elements of the closest directory, from \<open>es\<close> upwards, that holds an entry \<open>name\<close> of
  the kind that is wanted.\<close>

fun closest_above :: "(string \<Rightarrow> fs_node option) \<Rightarrow> string \<Rightarrow> bool \<Rightarrow> string list \<Rightarrow> nat \<Rightarrow> nat option" where
  "closest_above fs name d es 0 = (if stat_dir fs (rooted [name]) = Some d then Some 0 else None)"
| "closest_above fs name d es (Suc k) =
     (if stat_dir fs (rooted (take (Suc k) es @ [name])) = Some d then Some (Suc k)
      else closest_above fs name d es k)"

lemma closest_above_Some:
  "closest_above fs name d es n = Some k \<longleftrightarrow> k \<le> n \<and> stat_dir fs (rooted (take k es @ [name])) = Some d
     \<and> (\<forall>j. k < j \<and> j \<le> n \<longrightarrow> stat_dir fs (rooted (take j es @ [name])) \<noteq> Some d)"
  by (induction n) (auto simp: le_Suc_eq split: if_splits)

lemma closest_above_None:
  "closest_above fs name d es n = None \<longleftrightarrow> (\<forall>j\<le>n. stat_dir fs (rooted (take j es @ [name])) \<noteq> Some d)"
  by (induction n) (auto simp: le_Suc_eq)

lemma find_upwards_loop_rooted:
  assumes "clean_list True (es @ [name])" "k \<le> length es"
  shows "find_upwards_loop fs name d (rooted (take k es)) = Some (case closest_above fs name d es k of
      Some j \<Rightarrow> Inr (rooted (take j es @ [name])) | None \<Rightarrow> Inl PastRoot)"
  using assms(2)
proof (induction k)
  case 0
  have n: "clean_list True ([] @ [name])" using assms(1) unfolding clean_list_snoc by simp
  have "rooted ([] @ [name]) = ''/'' @ name" by (simp add: unclean_def)
  then show ?case
    using fp_join_search [OF n] by (subst find_upwards_loop.simps) (simp add: Let_def)
next
  case (Suc k)
  have c: "clean_list True (take (Suc k) es)" using assms(1) clean_list_take by (simp add: clean_list_snoc)
  then have n: "clean_list True (take (Suc k) es @ [name])" using assms(1) by (simp add: clean_list_snoc)
  have ne: "take (Suc k) es \<noteq> []" using Suc.prems by (cases es) auto
  have up: "one_level_up (split_byte sep (rooted (take (Suc k) es))) = rooted (take k es)"
    using one_level_up_rooted [OF c ne] Suc.prems by (simp add: butlast_take)
  have len: "\<not> length (split_byte sep (rooted (take (Suc k) es))) < 2"
    by (simp add: length_split_byte unclean_def)
  have "rooted (take (Suc k) es @ [name]) \<noteq> rooted ([] @ [name])"
    using rooted_inj [OF n, of "[] @ [name]"] assms(1) ne unfolding clean_list_snoc by simp
  moreover have "rooted ([] @ [name]) = ''/'' @ name" by (simp add: unclean_def)
  ultimately have ns: "rooted (take (Suc k) es @ [name]) \<noteq> ''/'' @ name" by simp
  show ?case
    using fp_join_search [OF n] Suc.IH Suc.prems up len ns
    by (subst find_upwards_loop.simps) (simp add: Let_def del: take_Suc)
qed

text \<open>From an existing directory (given by the elements of its clean absolute path), \<open>findUpwards\<close> ends,
  and finds the entry in the closest directory on the way up to the file system's root, the root included;
  it fails only when no directory on that way has one.\<close>

theorem find_upwards_closest:
  assumes "clean_list True (es @ [name])" "is_dir fs (rooted es)"
  shows "(\<exists>k\<le>length es. find_upwards fs (rooted es) name d = Some (Inr (rooted (take k es @ [name])))
      \<and> stat_dir fs (rooted (take k es @ [name])) = Some d
      \<and> (\<forall>j. k < j \<and> j \<le> length es \<longrightarrow> stat_dir fs (rooted (take j es @ [name])) \<noteq> Some d))
    \<or> find_upwards fs (rooted es) name d = Some (Inl PastRoot)
      \<and> (\<forall>j\<le>length es. stat_dir fs (rooted (take j es @ [name])) \<noteq> Some d)"
proof -
  have "find_upwards fs (rooted es) name d = Some (case closest_above fs name d es (length es) of
      Some j \<Rightarrow> Inr (rooted (take j es @ [name])) | None \<Rightarrow> Inl PastRoot)"
    using find_upwards_loop_rooted [OF assms(1) order_refl, of fs d] assms(2) by (simp add: find_upwards_def)
  then show ?thesis
    by (cases "closest_above fs name d es (length es)")
      (auto simp: closest_above_Some closest_above_None)
qed

definition sample_dirs :: "string \<Rightarrow> fs_node option" where
  "sample_dirs p = (if p = ''/a/b'' \<or> p = ''/a'' \<or> p = ''/.regal'' then Some (DirNode []) else None)"

lemma find_upwards_closest_witness:
  "find_upwards sample_dirs ''/a/b'' ''.regal'' True = Some (Inr ''/.regal'')"
proof -
  have c: "clean_list True ([''a'', ''b''] @ [''.regal''])" "is_dir sample_dirs (rooted [''a'', ''b''])"
    by (simp_all add: clean_list_def elem_ok_def is_dir_def stat_dir_def sample_dirs_def unclean_def)
  have s: "stat_dir sample_dirs (rooted (take k [''a'', ''b''] @ [''.regal''])) = Some True \<longleftrightarrow> k = 0"
    if "k \<le> 2" for k
    using that by (auto simp: le_Suc_eq numeral_2_eq_2 stat_dir_def sample_dirs_def unclean_def)
  from find_upwards_closest [OF c, of True] show ?thesis
  proof
    assume "\<exists>k\<le>length [''a'', ''b'']. find_upwards sample_dirs (rooted [''a'', ''b'']) ''.regal'' True
        = Some (Inr (rooted (take k [''a'', ''b''] @ [''.regal''])))
      \<and> stat_dir sample_dirs (rooted (take k [''a'', ''b''] @ [''.regal''])) = Some True
      \<and> (\<forall>j. k < j \<and> j \<le> length [''a'', ''b''] \<longrightarrow>
           stat_dir sample_dirs (rooted (take j [''a'', ''b''] @ [''.regal''])) \<noteq> Some True)"
    then obtain k where "k \<le> 2" "stat_dir sample_dirs (rooted (take k [''a'', ''b''] @ [''.regal''])) = Some True"
      "find_upwards sample_dirs (rooted [''a'', ''b'']) ''.regal'' True
        = Some (Inr (rooted (take k [''a'', ''b''] @ [''.regal''])))" by (simp add: numeral_2_eq_2) blast
    then show ?thesis using s [of k] by (simp add: unclean_def)
  next
    assume "find_upwards sample_dirs (rooted [''a'', ''b'']) ''.regal'' True = Some (Inl PastRoot)
      \<and> (\<forall>j\<le>length [''a'', ''b'']. stat_dir sample_dirs (rooted (take j [''a'', ''b''] @ [''.regal''])) \<noteq> Some True)"
    then have "stat_dir sample_dirs (rooted (take 0 [''a'', ''b''] @ [''.regal''])) \<noteq> Some True" by blast
    then show ?thesis using s [of 0] by blast
  qed
qed

section \<open>Finding the configuration: lemmas\<close>

lemma length_rooted_less:
  assumes "clean_list True es" "i < j" "j \<le> length es"
  shows "length (rooted (take i es)) < length (rooted (take j es))"
proof -
  have t: "take j es = take i es @ take (j - i) (drop i es)" (is "_ = ?a @ ?b")
    using assms(2) take_add [of i "j - i" es] by simp
  have b: "?b \<noteq> []" using assms(2,3) by simp
  have "\<forall>e\<in>set ?b. elem_ok e" using clean_list_ok [OF assms(1)] by (meson in_set_dropD in_set_takeD)
  then have "join_str ''/'' ?b \<noteq> []"
    using b by (cases ?b; cases "tl ?b") (auto simp: elem_ok_def)
  then show ?thesis unfolding t using b by (cases "?a = []") (auto simp: unclean_def join_str_append)
qed

text \<open>What \<open>Find\<close> should do, by the positions of the closest \<open>.regal\<close> directory and the closest
  \<open>.regal.yaml\<close> file.\<close>

definition config_in_dir :: "(string \<Rightarrow> fs_node option) \<Rightarrow> string list \<Rightarrow> nat \<Rightarrow> config_error + string" where
  "config_in_dir fs es i =
     (let p = rooted (take i es @ [''.regal'', ''config.yaml'']) in
      if stat_dir fs p = None then Inl NotFound else Inr p)"

definition closest_config :: "(string \<Rightarrow> fs_node option) \<Rightarrow> string list \<Rightarrow> config_error + string" where
  "closest_config fs es =
     (case (closest_above fs ''.regal'' True es (length es), closest_above fs ''.regal.yaml'' False es (length es)) of
        (None, None) \<Rightarrow> Inl NotFound
      | (None, Some j) \<Rightarrow> Inr (rooted (take j es @ [''.regal.yaml'']))
      | (Some i, None) \<Rightarrow> config_in_dir fs es i
      | (Some i, Some j) \<Rightarrow>
          if i = j then Inl BothFound
          else if i < j then Inr (rooted (take j es @ [''.regal.yaml''])) else config_in_dir fs es i)"

lemma find_upwards_rooted:
  assumes "clean_list True (es @ [name])" "is_dir fs (rooted es)"
  shows "find_upwards fs (rooted es) name d = Some (case closest_above fs name d es (length es) of
      Some j \<Rightarrow> Inr (rooted (take j es @ [name])) | None \<Rightarrow> Inl PastRoot)"
  using find_upwards_loop_rooted [OF assms(1) order_refl, of fs d] assms(2) by (simp add: find_upwards_def)

lemma closest_above_le: "closest_above fs name d es n = Some k \<Longrightarrow> k \<le> n"
  by (simp add: closest_above_Some)

text \<open>C9. \<open>Find\<close> takes the configuration closest to the directory it is given, whichever of the two kinds it
  is; a \<open>.regal\<close> directory and a \<open>.regal.yaml\<close> file side by side are an error, and so is a closest
  \<open>.regal\<close> directory without a \<open>config.yaml\<close>.\<close>

theorem find_config_closest:
  assumes "clean_list True es" "is_dir fs (rooted es)"
  shows "find_config fs (rooted es) = Some (closest_config fs es)"
proof -
  have d: "clean_list True (take k es @ [''.regal''])" and f: "clean_list True (take k es @ [''.regal.yaml''])"
    and de: "clean_list True (es @ [''.regal''])" and fe: "clean_list True (es @ [''.regal.yaml''])" for k
    using assms(1) clean_list_take [OF assms(1), of k] unfolding clean_list_snoc by (simp_all add: elem_ok_def)
  have dir: "fp_dir (rooted (take k es @ [''.regal''])) = rooted (take k es)"
    "fp_dir (rooted (take k es @ [''.regal.yaml''])) = rooted (take k es)" for k
    using fp_dir_rooted [OF d [of k]] fp_dir_rooted [OF f [of k]] by simp_all
  have cfg: "fp_join [rooted (take k es @ [''.regal'']), ''config.yaml'']
      = rooted (take k es @ [''.regal'', ''config.yaml''])" for k
    using fp_join_rooted [OF d [of k], of "''config.yaml''"] by (simp add: elem_ok_def)
  have len: "length (rooted (take i es)) < length (rooted (take j es)) \<longleftrightarrow> i < j"
    "rooted (take i es) = rooted (take j es) \<longleftrightarrow> i = j" if "i \<le> length es" "j \<le> length es" for i j
    using length_rooted_less [OF assms(1), of i j] length_rooted_less [OF assms(1), of j i] that
    by (metis less_asym linorder_less_linear order_less_irrefl)+
  note up = find_upwards_rooted [OF de assms(2), of True] find_upwards_rooted [OF fe assms(2), of False]
  show ?thesis
    by (cases "closest_above fs ''.regal'' True es (length es)";
        cases "closest_above fs ''.regal.yaml'' False es (length es)")
      (auto simp: find_config_def up closest_config_def config_in_dir_def dir cfg Let_def
        dest!: closest_above_le simp: len)
qed

lemma find_config_closest_witness:
  "find_config sample_dirs ''/a/b'' = Some (Inl NotFound)"
proof -
  have "is_dir sample_dirs (rooted [''a'', ''b''])" "clean_list True [''a'', ''b'']"
    by (simp_all add: clean_list_def elem_ok_def is_dir_def stat_dir_def sample_dirs_def unclean_def)
  then have "find_config sample_dirs (rooted [''a'', ''b'']) = Some (closest_config sample_dirs [''a'', ''b''])"
    using find_config_closest by blast
  moreover have "closest_config sample_dirs [''a'', ''b''] = Inl NotFound"
    by (simp add: closest_config_def config_in_dir_def stat_dir_def sample_dirs_def unclean_def)
  ultimately show ?thesis by (simp add: unclean_def)
qed

section \<open>Bundle roots: lemmas\<close>

fun tree_nodes :: "string \<Rightarrow> string \<Rightarrow> fs_node \<Rightarrow> string list"
  and entry_nodes :: "string \<Rightarrow> (string \<times> fs_node) list \<Rightarrow> string list" where
  "tree_nodes path name FileNode = [path]"
| "tree_nodes path name (DirNode es) =
     (if name \<in> {''.git'', ''.idea'', ''node_modules''} then [] else path # entry_nodes path es)"
| "entry_nodes path [] = []"
| "entry_nodes path ((name, d) # es) = tree_nodes (fp_join [path, name]) name d @ entry_nodes path es"

lemma walk_nodes_fold:
  assumes "w_filters fw = []" "w_skip_func fw = Some default_skip_directories"
    and "\<And>p s. fp_is_abs p \<Longrightarrow> f p s = (g p s, None)"
  shows "fp_is_abs path \<Longrightarrow> walk_dir (walker_fn fw f) path name node s =
      (foldl (\<lambda>s p. g p s) s (tree_nodes path name node), WalkOk)"
    and "fp_is_abs path \<Longrightarrow> walk_entries (walker_fn fw f) path es s =
      (foldl (\<lambda>s p. g p s) s (entry_nodes path es), WalkOk)"
proof (induction path name node and path es arbitrary: s and s rule: tree_nodes_entry_nodes.induct)
  case (1 path name)
  then show ?case by (simp add: walker_fn_def assms default_skip_directories_def)
next
  case (2 path name es)
  then show ?case by (auto simp: walker_fn_def assms default_skip_directories_def)
next
  case (3 path)
  then show ?case by simp
next
  case (4 path name d es)
  have "fp_is_abs (fp_join [path, name])"
    using 4(3) by (cases path) (auto simp: fp_is_abs_def fp_join_def intro!: fp_is_abs_clean [unfolded fp_is_abs_def])
  with 4 show ?case by simp
qed

lemma fp_is_abs_dir: "fp_is_abs p \<Longrightarrow> fp_is_abs (fp_dir p)"
proof -
  assume "fp_is_abs p"
  then obtain q where p: "p = sep # q" by (auto simp: fp_is_abs_def has_prefix_iff)
  have "last_index_byte p sep \<ge> 0"
  proof -
    have "sep \<in> set (rev p)" by (simp add: p)
    then obtain i where "index_byte (rev p) sep = Some i" using index_byte_None by fastforce
    moreover from this have "i < length (rev p)" by (rule index_byte_bound)
    ultimately show ?thesis by (simp add: last_index_byte_def)
  qed
  then have "nat (last_index_byte p sep + 1) = Suc (nat (last_index_byte p sep))" by simp
  then have "fp_is_abs (fst (fp_split p))" by (simp add: fp_split_def p fp_is_abs_def)
  then show ?thesis unfolding fp_dir_def by (rule fp_is_abs_clean)
qed

text \<open>For a clean absolute path, the bundle roots are those of the closest \<open>.regal\<close> directory and
  \<open>.regal.yaml\<close> file above it and the directories of the \<open>.manifest\<close> entries below it, sorted and without
  repetitions. A \<open>.regal\<close> directory further down adds nothing: the test that should recognise it compares
  an absolute path with the name \<open>.regal\<close>.\<close>

theorem find_bundle_root_directories_result:
  assumes "clean_list True es" "fs (rooted es) = Some (DirNode entries)"
    and "roots_of_found fs load_conf (case closest_above fs ''.regal'' True es (length es) of
        Some j \<Rightarrow> Inr (rooted (take j es @ [''.regal''])) | None \<Rightarrow> Inl PastRoot) = Inr roots"
    and "roots_of_found fs load_conf (case closest_above fs ''.regal.yaml'' False es (length es) of
        Some j \<Rightarrow> Inr (rooted (take j es @ [''.regal.yaml''])) | None \<Rightarrow> Inl PastRoot) = Inr roots'"
  shows "find_bundle_root_directories fs load_conf (rooted es) = Some (Inr (remdups_adj (sort (roots @ roots'
    @ map fp_dir (filter (\<lambda>p. fp_base p = ''.manifest'')
        (tree_nodes (rooted es) (fp_base (rooted es)) (DirNode entries)))))))"
proof -
  let ?fw = "with_skip_func default_skip_directories (new_walker (rooted es))"
  have fw: "w_filters ?fw = []" "w_skip_func ?fw = Some default_skip_directories" "w_root ?fw = rooted es"
    "\<not> w_stat_root ?fw"
    by (simp_all add: with_skip_func_def new_walker_def)
  have a: "fp_is_abs (rooted es)" by (simp add: fp_is_abs_def unclean_def)
  have dir: "is_dir fs (rooted es)" by (simp add: is_dir_def stat_dir_def assms(2))
  have step: "bundle_root_step fs load_conf p s
      = ((\<lambda>p s. if fp_base p = ''.manifest'' then s @ [fp_dir p] else s) p s, None)" if "fp_is_abs p" for p s
    using fp_is_abs_dir [OF that] by (auto simp: bundle_root_step_def fp_is_abs_def)
  have foldg: "foldl (\<lambda>s p. if fp_base p = ''.manifest'' then s @ [fp_dir p] else s) s xs
      = s @ map fp_dir (filter (\<lambda>p. fp_base p = ''.manifest'') xs)" for s xs
    by (induction xs arbitrary: s) auto
  have ne: "rooted es \<noteq> []" by (simp add: unclean_def)
  have walk: "walker_walk fs ?fw (bundle_root_step fs load_conf) s
      = (s @ map fp_dir (filter (\<lambda>p. fp_base p = ''.manifest'')
          (tree_nodes (rooted es) (fp_base (rooted es)) (DirNode entries))), None)" for s
    using walk_nodes_fold(1) [where f = "bundle_root_step fs load_conf", OF fw(1,2) step a,
        of "fp_base (rooted es)" "DirNode entries" s] fw ne assms(2) foldg
    by (simp add: walker_walk_def walker_validate_def)
  have cl: "clean_list True (es @ [''.regal''])" "clean_list True (es @ [''.regal.yaml''])"
    using assms(1) unfolding clean_list_snoc by (simp_all add: elem_ok_def)
  show ?thesis
    using find_upwards_rooted [OF cl(1) dir, of True] find_upwards_rooted [OF cl(2) dir, of False] assms(3,4)
    by (simp add: find_bundle_root_directories_def walk sorted_slice_def)
qed

lemma find_bundle_root_directories_result_witness:
  "find_bundle_root_directories (\<lambda>p. if p = ''/a'' then Some (DirNode [(''.manifest'', FileNode)]) else None)
     (\<lambda>p. None) ''/a'' = Some (Inr [''/a''])"
proof -
  let ?fs = "\<lambda>p. if p = ''/a'' then Some (DirNode [(''.manifest'', FileNode)]) else None"
  have r: "rooted [''a''] = ''/a''" by (simp add: unclean_def)
  have c: "clean_list True [''a'']" "clean_list True ([''a''] @ [''.manifest''])"
    by (simp_all add: clean_list_def elem_ok_def)
  have n: "closest_above ?fs ''.regal'' True [''a''] (Suc 0) = None"
    "closest_above ?fs ''.regal.yaml'' False [''a''] (Suc 0) = None"
    unfolding closest_above_None by (auto simp: stat_dir_def unclean_def le_Suc_eq)
  have j: "fp_join [''/a'', ''.manifest''] = ''/a/.manifest''"
    using fp_join_rooted [OF c(1), of "''.manifest''"] by (simp add: elem_ok_def unclean_def)
  have d: "fp_dir ''/a/.manifest'' = ''/a''"
    using fp_dir_rooted [OF c(2)] by (simp add: unclean_def)
  have b: "fp_base ''/a/.manifest'' = ''.manifest''" "fp_base ''/a'' = ''a''"
    by (simp_all add: fp_base_def fp_split_def last_index_byte_def)
  show ?thesis
    using find_bundle_root_directories_result [OF c(1), of ?fs "[(''.manifest'', FileNode)]" "\<lambda>p. None" "[]" "[]"]
    by (simp add: r n roots_of_found_def j d b del: closest_above.simps)
qed

section \<open>Cleaning up: lemmas\<close>

text \<open>The directories to preserve contain every directory above a preserved one but the root.\<close>

definition closed_at :: "string gset \<Rightarrow> string list \<Rightarrow> bool" where
  "closed_at s fs \<longleftrightarrow> (\<forall>j. 0 < j \<and> j \<le> length fs \<longrightarrow> rooted (take j fs) \<in> set s)"

definition up_closed :: "string gset \<Rightarrow> bool" where
  "up_closed s \<longleftrightarrow> (\<forall>fs. clean_list True fs \<and> rooted fs \<in> set s \<longrightarrow> closed_at s fs)"

lemma rooted_eq_slash: "clean_list True es \<Longrightarrow> rooted es = ''/'' \<longleftrightarrow> es = []"
  using rooted_inj [of es "[]"] by (simp add: unclean_def)

lemma preserve_up_rooted:
  assumes "clean_list True es" "k \<le> length es"
    and "\<forall>j. k < j \<and> j \<le> length es \<longrightarrow> rooted (take j es) \<in> set s"
    and "\<forall>fs. clean_list True fs \<and> rooted fs \<in> set s \<longrightarrow>
      (\<exists>i. k < i \<and> i \<le> length es \<and> fs = take i es) \<or> closed_at s fs"
  shows "\<exists>s'. preserve_up s (rooted (take k es)) = Some s' \<and> up_closed s' \<and> set s \<subseteq> set s'
    \<and> rooted (take k es) \<in> set s'"
  using assms(2-4)
proof (induction k arbitrary: s)
  case 0
  have "fp_dir (rooted (take 0 es)) = ''/''"
    using fp_dir_rooted [of "[]"] by (simp add: unclean_def)
  then have r: "preserve_up s (rooted (take 0 es)) = Some (set_add s [rooted (take 0 es)])"
    by (subst preserve_up.simps) (simp add: Let_def)
  have "up_closed (set_add s [rooted (take 0 es)])"
    unfolding up_closed_def closed_at_def
  proof (intro allI impI, elim conjE)
    fix fs j
    assume fs: "clean_list True fs" "rooted fs \<in> set (set_add s [rooted (take 0 es)])" and j: "0 < j" "j \<le> length fs"
    then have "rooted fs \<in> set s" using rooted_inj [OF fs(1), of "[]"] by auto
    with 0(3) fs(1) show "rooted (take j fs) \<in> set (set_add s [rooted (take 0 es)])"
      using j 0(2) by (auto simp: closed_at_def min_def)
  qed
  with r show ?case by auto
next
  case (Suc k)
  let ?s = "set_add s [rooted (take (Suc k) es)]"
  have c: "clean_list True (take i es)" for i by (rule clean_list_take [OF assms(1)])
  have q: "fp_dir (rooted (take (Suc k) es)) = rooted (take k es)"
    using fp_dir_rooted [OF c] Suc.prems(1) by (simp add: butlast_take)
  have ne: "rooted (take k es) \<noteq> ''.''" "rooted (take k es) \<noteq> ''''" by (simp_all add: unclean_def)
  have top: "\<forall>j. k < j \<and> j \<le> length es \<longrightarrow> rooted (take j es) \<in> set ?s"
    using Suc.prems(2) by (auto simp: less_Suc_eq Suc_le_eq dest: le_neq_implies_less)
      (metis Suc_lessI)
  have other: "(\<exists>i. k < i \<and> i \<le> length es \<and> fs = take i es) \<or> closed_at ?s fs"
    if fs: "clean_list True fs" "rooted fs \<in> set ?s" for fs
  proof (cases "rooted fs \<in> set s")
    case True
    then consider i where "Suc k < i" "i \<le> length es" "fs = take i es" | "closed_at s fs"
      using Suc.prems(3) fs(1) by blast
    then show ?thesis
    proof cases
      case (1 i)
      then have "k < i" by simp
      with 1(2,3) show ?thesis by blast
    next
      case 2
      then show ?thesis by (simp add: closed_at_def)
    qed
  next
    case False
    then have "rooted fs = rooted (take (Suc k) es)" using fs(2) by simp
    then have "fs = take (Suc k) es" using rooted_inj [OF fs(1) c] by blast
    then show ?thesis using Suc.prems(1) by auto
  qed
  show ?case
  proof (cases "k = 0 \<or> rooted (take k es) \<in> set ?s")
    case stop: True
    have r: "preserve_up s (rooted (take (Suc k) es)) = Some ?s"
      using stop q by (subst preserve_up.simps) (auto simp: Let_def unclean_def)
    have low: "rooted (take j es) \<in> set ?s" if "0 < j" "j \<le> k" for j
    proof -
      have "rooted (take k es) \<in> set ?s" using stop that by auto
      then consider i where "k < i" "i \<le> length es" "take k es = take i es" | "closed_at ?s (take k es)"
        using other [OF c] by blast
      then show ?thesis
      proof cases
        case (1 i)
        from 1(3) have "length (take k es) = length (take i es)" by (rule arg_cong)
        then have "k = i" using 1(2) Suc.prems(1) by simp
        with 1(1) show ?thesis by simp
      next
        case 2
        with that Suc.prems(1) show ?thesis by (auto simp: closed_at_def min_def)
      qed
    qed
    have "closed_at ?s fs" if fs: "clean_list True fs" "rooted fs \<in> set ?s" for fs
    proof -
      from other [OF fs] consider i where "k < i" "i \<le> length es" "fs = take i es" | "closed_at ?s fs" by blast
      then show ?thesis
      proof cases
        case (1 i)
        have "rooted (take j fs) \<in> set ?s" if "0 < j" "j \<le> length fs" for j
          using that 1 low [of j] top by (cases "j \<le> k") (simp_all add: min_def not_le)
        then show ?thesis by (simp add: closed_at_def)
      qed
    qed
    then have "up_closed ?s" by (simp add: up_closed_def)
    with r show ?thesis by auto
  next
    case False
    then have "rooted (take k es) \<noteq> ''/''"
      using rooted_eq_slash [OF c, of k] Suc.prems(1) by auto
    then have r: "preserve_up s (rooted (take (Suc k) es)) = preserve_up ?s (rooted (take k es))"
      using False q ne by (subst preserve_up.simps) (simp add: Let_def)
    have "\<forall>fs. clean_list True fs \<and> rooted fs \<in> set ?s \<longrightarrow>
      (\<exists>i. k < i \<and> i \<le> length es \<and> fs = take i es) \<or> closed_at ?s fs" using other by blast
    from Suc.IH [OF _ top this] Suc.prems(1) obtain s' where
      "preserve_up ?s (rooted (take k es)) = Some s'" "up_closed s'" "set ?s \<subseteq> set s'" by auto
    then show ?thesis unfolding r by auto
  qed
qed

lemma preserve_all_rooted:
  assumes "\<forall>es\<in>set ess. clean_list True es" "up_closed s"
  shows "\<exists>s'. preserve_all (map rooted ess) s = Some s' \<and> up_closed s' \<and> set s \<union> set (map rooted ess) \<subseteq> set s'"
  using assms
proof (induction ess arbitrary: s)
  case Nil
  then show ?case by simp
next
  case (Cons es ess)
  have "\<exists>s'. preserve_up s (rooted (take (length es) es)) = Some s' \<and> up_closed s' \<and> set s \<subseteq> set s'
      \<and> rooted (take (length es) es) \<in> set s'"
    by (rule preserve_up_rooted) (use Cons.prems in \<open>auto simp: up_closed_def\<close>)
  then obtain s1 where s1: "preserve_up s (rooted es) = Some s1" "up_closed s1" "set s \<subseteq> set s1" "rooted es \<in> set s1"
    by auto
  from Cons.IH [OF _ s1(2)] Cons.prems(1) obtain s2
    where "preserve_all (map rooted ess) s1 = Some s2" "up_closed s2" "set s1 \<union> set (map rooted ess) \<subseteq> set s2" by auto
  with s1 show ?case by auto
qed

text \<open>Directory \<open>i\<close> above the target holds nothing but the target and the directory removed before.\<close>

definition only_removed :: "(string \<Rightarrow> fs_node option) \<Rightarrow> string list \<Rightarrow> string \<Rightarrow> nat \<Rightarrow> bool" where
  "only_removed fs es target i \<longleftrightarrow> (\<exists>entries. fs (rooted (take i es)) = Some (DirNode entries) \<and>
     (\<forall>(name, node)\<in>set entries. fp_join [rooted (take i es), name] = target
        \<or> i < length es \<and> fp_join [rooted (take i es), name] = rooted (take (Suc i) es)))"

lemma is_dir_iff: "is_dir fs d \<longleftrightarrow> (\<exists>entries. fs d = Some (DirNode entries))"
  by (auto simp: is_dir_def stat_dir_def split: option.splits fs_node.splits)

lemma clean_up_loop_rooted:
  assumes "clean_list True es" "k \<le> length es" "m \<le> k" "rooted (take m es) \<in> set keep"
    and "\<forall>i. k < i \<and> i \<le> length es \<longrightarrow> rooted (take i es) \<notin> set keep \<and> only_removed fs es target i"
  shows "\<exists>r. clean_up_loop fs target keep (map (\<lambda>i. rooted (take i es)) (rev [Suc k..<Suc (length es)]))
      (rooted (take k es)) = Some r \<and>
    (\<forall>d. r = Inl d \<longrightarrow> \<not> is_dir fs d) \<and>
    (\<forall>ds. r = Inr ds \<longrightarrow> (\<exists>l\<ge>m. l \<le> length es \<and> ds = map (\<lambda>i. rooted (take i es)) (rev [Suc l..<Suc (length es)])
      \<and> (\<forall>i. l < i \<and> i \<le> length es \<longrightarrow> rooted (take i es) \<notin> set keep \<and> only_removed fs es target i)))"
  using assms(2,3,5)
proof (induction k)
  case 0
  then have "rooted (take 0 es) \<in> set keep" using assms(4) by simp
  with 0 show ?case by (subst clean_up_loop.simps) auto
next
  case (Suc k)
  let ?d = "rooted (take (Suc k) es)"
  let ?ds = "map (\<lambda>i. rooted (take i es)) (rev [Suc (Suc k)..<Suc (length es)])"
  have c: "clean_list True (take i es)" for i by (rule clean_list_take [OF assms(1)])
  have slash: "sep \<in> set ?d" by (simp add: unclean_def)
  have up: "fp_dir ?d = rooted (take k es)"
    using fp_dir_rooted [OF c] Suc.prems(1) by (simp add: butlast_take)
  have last_ds: "?ds \<noteq> [] \<longleftrightarrow> Suc k < length es" "Suc k < length es \<Longrightarrow> last ?ds = rooted (take (Suc (Suc k)) es)"
    by (auto simp: last_map last_rev upt_rec)
  consider "?d \<in> set keep" | entries where "?d \<notin> set keep" "fs ?d = Some (DirNode entries)"
      "list_all (entry_gone target ?ds ?d) entries"
    | entries where "?d \<notin> set keep" "fs ?d = Some (DirNode entries)"
      "\<not> list_all (entry_gone target ?ds ?d) entries"
    | "?d \<notin> set keep" "\<not> is_dir fs ?d"
    using is_dir_iff by blast
  then show ?case
  proof cases
    case 1
    with Suc.prems show ?thesis by (subst clean_up_loop.simps) auto
  next
    case (2 entries)
    have "Suc k \<noteq> m" using 2(1) assms(4) by auto
    then have m: "m \<le> k" using Suc.prems(2) by simp
    have "only_removed fs es target (Suc k)"
      unfolding only_removed_def
      using 2 last_ds by (fastforce simp: list_all_iff entry_gone_def)
    then have low: "\<forall>i. k < i \<and> i \<le> length es \<longrightarrow> rooted (take i es) \<notin> set keep \<and> only_removed fs es target i"
      using Suc.prems(3) 2(1) by (metis Suc_lessI)
    have ds: "?ds @ [?d] = map (\<lambda>i. rooted (take i es)) (rev [Suc k..<Suc (length es)])"
      using Suc.prems(1) by (simp add: upt_rec [of "Suc k"])
    have "clean_up_loop fs target keep ?ds ?d = clean_up_loop fs target keep (?ds @ [?d]) (rooted (take k es))"
      using 2 slash up by (subst clean_up_loop.simps) simp
    then show ?thesis
      using Suc.IH [OF _ m low] Suc.prems(1) unfolding ds by simp
  next
    case (3 entries)
    have "clean_up_loop fs target keep ?ds ?d = Some (Inr ?ds)"
      using 3 slash by (subst clean_up_loop.simps) simp
    with Suc.prems show ?thesis by auto
  next
    case 4
    have "clean_up_loop fs target keep ?ds ?d = Some (Inl ?d)"
      using 4 slash by (subst clean_up_loop.simps)
        (auto simp: is_dir_iff split: option.splits fs_node.splits)
    with 4 show ?thesis by auto
  qed
qed

text \<open>C8. \<open>DirCleanUpPaths\<close> ends for a target below a preserved directory, and is safe: it names, from the
  inside out, a chain of directories above the target, none of which is preserved or above a preserved
  directory, and each of which holds nothing but the target or the directory named before it, so that they
  can be removed in that order once the target is gone.\<close>

theorem dir_clean_up_paths_safe:
  assumes "clean_list True (es @ [f])" "\<forall>ps\<in>set preserve. clean_list True ps"
    and "take m es \<in> set preserve" "m \<le> length es"
  shows "\<exists>r. dir_clean_up_paths fs (rooted (es @ [f])) (map rooted preserve) = Some r \<and>
    (\<forall>d. r = Inl d \<longrightarrow> \<not> is_dir fs d) \<and>
    (\<forall>ds. r = Inr ds \<longrightarrow> (\<exists>l\<ge>m. ds = map (\<lambda>i. rooted (take i es)) (rev [Suc l..<Suc (length es)])
      \<and> (\<forall>i. l < i \<and> i \<le> length es \<longrightarrow> only_removed fs es (rooted (es @ [f])) i
          \<and> (\<forall>ps\<in>set preserve. \<forall>j. take j ps \<noteq> take i es))))"
proof -
  have es: "clean_list True es" using assms(1) unfolding clean_list_snoc by simp
  have "up_closed (new_set [])" by (simp add: up_closed_def)
  from preserve_all_rooted [OF assms(2) this] obtain keep
    where keep: "preserve_all (map rooted preserve) (new_set []) = Some keep" "up_closed keep"
      "set (map rooted preserve) \<subseteq> set keep" by auto
  have dir: "fp_dir (rooted (es @ [f])) = rooted (take (length es) es)"
    using fp_dir_rooted [OF assms(1)] by simp
  have m: "rooted (take m es) \<in> set keep" using keep(3) assms(3) by auto
  have above: "rooted (take j ps) \<in> set keep" if "ps \<in> set preserve" "take j ps \<noteq> []" for ps j
  proof -
    have "closed_at keep ps" using keep assms(2) that(1) by (auto simp: up_closed_def)
    moreover have "take j ps = take (min j (length ps)) ps" by (simp add: min_def)
    ultimately show ?thesis using that(2) unfolding closed_at_def
      by (metis length_greater_0_conv length_take min.cobounded2 min.commute)
  qed
  have ne: "take i es \<noteq> []" if "l < i" "i \<le> length es" for i l using that by (cases es) auto
  have none: "\<forall>i. length es < i \<and> i \<le> length es \<longrightarrow>
      rooted (take i es) \<notin> set keep \<and> only_removed fs es (rooted (es @ [f])) i" by (meson leD)
  from clean_up_loop_rooted [OF es order_refl assms(4) m none]
  obtain r where r: "clean_up_loop fs (rooted (es @ [f])) keep [] (rooted es) = Some r"
    and ok: "(\<forall>d. r = Inl d \<longrightarrow> \<not> is_dir fs d) \<and>
      (\<forall>ds. r = Inr ds \<longrightarrow> (\<exists>l\<ge>m. l \<le> length es \<and> ds = map (\<lambda>i. rooted (take i es)) (rev [Suc l..<Suc (length es)])
        \<and> (\<forall>i. l < i \<and> i \<le> length es \<longrightarrow> rooted (take i es) \<notin> set keep
            \<and> only_removed fs es (rooted (es @ [f])) i)))" by (auto simp del: upt_Suc)
  have "dir_clean_up_paths fs (rooted (es @ [f])) (map rooted preserve) = Some r"
    using r keep(1) dir by (simp add: dir_clean_up_paths_def)
  moreover have no: "\<forall>ps\<in>set preserve. \<forall>j. take j ps \<noteq> take i es"
    if "rooted (take i es) \<notin> set keep" "l < i" "i \<le> length es" for i l
    using above ne [OF that(2,3)] that(1) by metis
  ultimately show ?thesis
  proof (intro exI [of _ r] conjI allI impI)
    fix ds
    assume "r = Inr ds"
    from conjunct2 [OF ok, THEN spec, THEN mp, OF this]
    obtain l where l: "m \<le> l \<and> l \<le> length es
      \<and> ds = map (\<lambda>i. rooted (take i es)) (rev [Suc l..<Suc (length es)])
      \<and> (\<forall>i. l < i \<and> i \<le> length es \<longrightarrow> rooted (take i es) \<notin> set keep
          \<and> only_removed fs es (rooted (es @ [f])) i)" by (elim exE)
    then show "\<exists>l\<ge>m. ds = map (\<lambda>i. rooted (take i es)) (rev [Suc l..<Suc (length es)]) \<and>
      (\<forall>i. l < i \<and> i \<le> length es \<longrightarrow> only_removed fs es (rooted (es @ [f])) i
        \<and> (\<forall>ps\<in>set preserve. \<forall>j. take j ps \<noteq> take i es))"
      using no [of _ l] by (intro exI [of _ l] conjI allI impI) (simp_all only:, simp_all del: upt_Suc)
  qed (use ok in simp_all)
qed

lemma dir_clean_up_paths_safe_witness:
  "\<exists>r. dir_clean_up_paths (\<lambda>p. if p = ''/a/b'' then Some (DirNode [(''x'', FileNode)]) else None)
     ''/a/b/x'' [''/a''] = Some r"
  using dir_clean_up_paths_safe [of "[''a'', ''b'']" "''x''" "[[''a'']]" 1
      "\<lambda>p. if p = ''/a/b'' then Some (DirNode [(''x'', FileNode)]) else None"]
  by (auto simp: clean_list_def elem_ok_def unclean_def)

end
