(* ===== verification/Rules.thy ===== *)
theory Rules
  imports Config
begin

text \<open>
  \<open>internal/parse/parse.go\<close> and \<open>pkg/rules/rules.go\<close>: parsing a module whose Rego version may not be
  known, choosing the version of a file from the versions of its directories, and collecting the input
  of a lint run.

  OPA's parser, the file system and \<open>util.KeysSorted\<close> are fields of \<open>rules_env\<close>. Of a module the code
  reads its package path, its imports and its version; the rest is of type \<^typ>\<open>'r\<close>.
\<close>

section \<open>Data\<close>

record 'r rego_module =
  mod_package :: "aval list"
  mod_imports :: "aval list"
  mod_version :: rego_version
  mod_rest :: 'r

datatype rules_error =
    ParseError string
  | ReadError string
  | ModuleFailed string rules_error
  | ModulesFailed nat rules_error

record 'r rules_env =
  parse_module_with_opts :: "rego_version \<Rightarrow> string \<Rightarrow> string \<Rightarrow> string + 'r rego_module"
  read_file :: "string \<Rightarrow> string + string"
  keys_sorted :: "string list \<Rightarrow> string list"

text \<open>\<open>Input\<close> and \<open>regoFile\<close>.\<close>

record 'r rules_input =
  FileContent :: "(string, string) gomap"
  Modules :: "(string, 'r rego_module) gomap"
  FileNames :: "string list"

record 'r rego_file =
  rf_name :: string
  rf_parsed :: "'r rego_module"
  rf_raw :: string

section \<open>Parsing\<close>

text \<open>\<open>ast.RegoV1CompatibleRef\<close> is the reference \<open>rego.v1\<close>.\<close>

definition has_rego_v1_import :: "aval list \<Rightarrow> bool" where
  "has_rego_v1_import imports = list_ex (\<lambda>p. p = ARef [AVar ''rego'', AStr ''v1'']) imports"

definition attempt_version_order :: "rego_version list" where
  "attempt_version_order = [RegoV1, RegoV0]"

text \<open>The loop of \<open>ModuleUnknownVersionWithOpts\<close>; \<open>err\<close> is the error of the last attempt.\<close>

fun module_attempts :: "'r rules_env \<Rightarrow> string \<Rightarrow> string \<Rightarrow> rego_version list \<Rightarrow> rules_error
    \<Rightarrow> rules_error + 'r rego_module" where
  "module_attempts env filename policy [] err = Inl err"
| "module_attempts env filename policy (v # vs) err =
     (case parse_module_with_opts env v filename policy of
        Inr m \<Rightarrow> Inr (if has_rego_v1_import (mod_imports m) then m\<lparr>mod_version := RegoV0CompatV1\<rparr>
                  else m\<lparr>mod_version := v\<rparr>)
      | Inl e \<Rightarrow> module_attempts env filename policy vs (ParseError e))"

definition module_unknown_version ::
    "'r rules_env \<Rightarrow> string \<Rightarrow> string \<Rightarrow> rules_error + 'r rego_module" where
  "module_unknown_version env filename policy =
     module_attempts env filename policy attempt_version_order (ParseError '''')"

definition module_with_opts ::
    "'r rules_env \<Rightarrow> rego_version \<Rightarrow> string \<Rightarrow> string \<Rightarrow> rules_error + 'r rego_module" where
  "module_with_opts env version path policy =
     (let version = (if version = RegoUndefined \<and> has_suffix path ''_v0.rego'' then RegoV0 else version)
      in if version = RegoUndefined then module_unknown_version env path policy
         else (case parse_module_with_opts env version path policy of
             Inl e \<Rightarrow> Inl (ParseError e) | Inr m \<Rightarrow> Inr m))"

section \<open>Versions of files\<close>

definition matching_versioned_dir :: "string \<Rightarrow> string" where
  "matching_versioned_dir versionedDir = fp_join [''/'', versionedDir, ''/'']"

fun version_loop :: "string \<Rightarrow> (string, rego_version) gomap \<Rightarrow> nat \<Rightarrow> rego_version \<Rightarrow> rego_version" where
  "version_loop dir [] longestMatch selected = selected"
| "version_loop dir ((versionedDir, v) # rest) longestMatch selected =
     (if has_prefix dir (matching_versioned_dir versionedDir) \<and> length versionedDir \<ge> longestMatch
      then version_loop dir rest (length versionedDir) v
      else version_loop dir rest longestMatch selected)"

definition rego_version_from_map :: "(string, rego_version) gomap \<Rightarrow> string \<Rightarrow> rego_version \<Rightarrow> rego_version" where
  "rego_version_from_map versionsMap filename defaultVersion =
     (if versionsMap = [] then defaultVersion
      else version_loop (fp_dir filename) versionsMap 0 defaultVersion)"

section \<open>Input\<close>

definition new_input :: "'r rules_env \<Rightarrow> (string, string) gomap \<Rightarrow> (string, 'r rego_module) gomap
    \<Rightarrow> 'r rules_input" where
  "new_input env content modules =
     \<lparr>FileContent = content, Modules = modules, FileNames = keys_sorted env (map fst modules)\<rparr>"

definition rego_with_opts :: "'r rules_env \<Rightarrow> rego_version \<Rightarrow> string \<Rightarrow> rules_error + 'r rego_file" where
  "rego_with_opts env version path =
     (let path = fp_clean path in
      case read_file env path of
        Inl e \<Rightarrow> Inl (ReadError e)
      | Inr bs \<Rightarrow> bind_res (module_with_opts env version path bs) (\<lambda>m.
          Inr \<lparr>rf_name = path, rf_parsed = m, rf_raw = bs\<rparr>))"

text \<open>Standard input: \<open>bs\<close> is what could be read.\<close>

definition input_from_stdin :: "'r rules_env \<Rightarrow> string + string \<Rightarrow> rules_error + 'r rules_input" where
  "input_from_stdin env bs =
     (case bs of
        Inl e \<Rightarrow> Inl (ReadError e)
      | Inr policy \<Rightarrow> (case module_unknown_version env ''stdin'' policy of
            Inl e \<Rightarrow> Inl (ModuleFailed ''stdin'' e)
          | Inr m \<Rightarrow> Inr \<lparr>FileContent = [(''stdin'', policy)], Modules = [(''stdin'', m)],
              FileNames = [''stdin'']\<rparr>))"

text \<open>\<open>InputFromPaths\<close>: one goroutine per path, each writing the slots of its own index, so that after
  \<open>wg.Wait\<close> the slots hold the same whatever the schedule.\<close>

definition path_results :: "'r rules_env \<Rightarrow> string list \<Rightarrow> string \<Rightarrow> (string, rego_version) gomap
    \<Rightarrow> (rules_error + 'r rego_file) list" where
  "path_results env paths prefix versionsMap =
     map (\<lambda>path. rego_with_opts env
       (rego_version_from_map versionsMap (trim_prefix path prefix) RegoUndefined) path) paths"

fun lefts :: "('e + 'a) list \<Rightarrow> 'e list" where
  "lefts [] = []"
| "lefts (Inl e # xs) = e # lefts xs"
| "lefts (Inr a # xs) = lefts xs"

fun rights :: "('e + 'a) list \<Rightarrow> 'a list" where
  "rights [] = []"
| "rights (Inl e # xs) = rights xs"
| "rights (Inr a # xs) = a # rights xs"

definition input_from_paths :: "'r rules_env \<Rightarrow> string + string \<Rightarrow> string list \<Rightarrow> string
    \<Rightarrow> (string, rego_version) gomap \<Rightarrow> rules_error + 'r rules_input" where
  "input_from_paths env stdin paths prefix versionsMap =
     (if paths = [''-''] then input_from_stdin env stdin
      else let results = path_results env paths prefix versionsMap; errs = lefts results in
        case errs of
          e # _ \<Rightarrow> Inl (ModulesFailed (length errs) e)
        | [] \<Rightarrow> Inr (new_input env
            (foldl (\<lambda>m f. map_set m (rf_name f) (rf_raw f)) [] (rights results))
            (foldl (\<lambda>m f. map_set m (rf_name f) (rf_parsed f)) [] (rights results))))"

fun input_map_loop :: "'r rules_env \<Rightarrow> (string, rego_version) gomap \<Rightarrow> (string, string) gomap
    \<Rightarrow> (string, string) gomap \<Rightarrow> (string, 'r rego_module) gomap
    \<Rightarrow> rules_error + (string, string) gomap \<times> (string, 'r rego_module) gomap" where
  "input_map_loop env versionsMap [] content modules = Inr (content, modules)"
| "input_map_loop env versionsMap ((path, fileContent) # rest) content modules =
     (case module_with_opts env (rego_version_from_map versionsMap path RegoUndefined) path fileContent of
        Inl e \<Rightarrow> Inl (ModuleFailed path e)
      | Inr m \<Rightarrow> input_map_loop env versionsMap rest
          (map_set content path fileContent) (map_set modules path m))"

definition input_from_map :: "'r rules_env \<Rightarrow> (string, string) gomap \<Rightarrow> (string, rego_version) gomap
    \<Rightarrow> rules_error + 'r rules_input" where
  "input_from_map env files versionsMap =
     bind_res (input_map_loop env versionsMap files [] []) (\<lambda>(content, modules).
       Inr (new_input env content modules))"

definition input_from_text_with_options ::
    "'r rules_env \<Rightarrow> rego_version \<Rightarrow> string \<Rightarrow> string \<Rightarrow> rules_error + 'r rules_input" where
  "input_from_text_with_options env version fileName text0 =
     (case parse_module_with_opts env version fileName text0 of
        Inl e \<Rightarrow> Inl (ParseError e)
      | Inr m \<Rightarrow> Inr (new_input env [(fileName, text0)] [(fileName, m)]))"

section \<open>Versions of files: lemmas\<close>

definition version_applies :: "string \<Rightarrow> string \<Rightarrow> bool" where
  "version_applies filename d = has_prefix (fp_dir filename) (matching_versioned_dir d)"

lemma version_loop_longest:
  "(version_loop dir m n0 r0 = r0 \<and>
      (\<forall>d\<in>set (map fst m). has_prefix dir (matching_versioned_dir d) \<longrightarrow> length d < n0))
   \<or> (\<exists>d. (d, version_loop dir m n0 r0) \<in> set m \<and> n0 \<le> length d \<and> has_prefix dir (matching_versioned_dir d)
      \<and> (\<forall>d'\<in>set (map fst m). has_prefix dir (matching_versioned_dir d') \<longrightarrow> length d' \<le> length d))"
proof (induction m arbitrary: n0 r0)
  case Nil
  then show ?case by simp
next
  case (Cons p rest)
  obtain d v where p: "p = (d, v)" by (cases p)
  show ?case
  proof (cases "has_prefix dir (matching_versioned_dir d) \<and> length d \<ge> n0")
    case True
    with p have step: "version_loop dir (p # rest) n0 r0 = version_loop dir rest (length d) v" by simp
    from Cons.IH [of "length d" v] show ?thesis
    proof
      assume "version_loop dir rest (length d) v = v \<and>
        (\<forall>d'\<in>set (map fst rest). has_prefix dir (matching_versioned_dir d') \<longrightarrow> length d' < length d)"
      with True p step show ?thesis by (intro disjI2 exI [of _ d]) (auto simp: less_imp_le)
    next
      assume "\<exists>e. (e, version_loop dir rest (length d) v) \<in> set rest \<and> length d \<le> length e
        \<and> has_prefix dir (matching_versioned_dir e)
        \<and> (\<forall>d'\<in>set (map fst rest). has_prefix dir (matching_versioned_dir d') \<longrightarrow> length d' \<le> length e)"
      then obtain e where "(e, version_loop dir rest (length d) v) \<in> set rest" "length d \<le> length e"
        "has_prefix dir (matching_versioned_dir e)"
        "\<forall>d'\<in>set (map fst rest). has_prefix dir (matching_versioned_dir d') \<longrightarrow> length d' \<le> length e" by blast
      with True p step show ?thesis by (intro disjI2 exI [of _ e]) auto
    qed
  next
    case False
    with p have step: "version_loop dir (p # rest) n0 r0 = version_loop dir rest n0 r0"
      by (simp only: version_loop.simps if_False)
    have d: "has_prefix dir (matching_versioned_dir d) \<Longrightarrow> length d < n0"
      using False by simp
    from Cons.IH [of n0 r0] show ?thesis
    proof
      assume "version_loop dir rest n0 r0 = r0 \<and>
        (\<forall>d'\<in>set (map fst rest). has_prefix dir (matching_versioned_dir d') \<longrightarrow> length d' < n0)"
      with p d show ?thesis unfolding step by simp
    next
      assume "\<exists>e. (e, version_loop dir rest n0 r0) \<in> set rest \<and> n0 \<le> length e
        \<and> has_prefix dir (matching_versioned_dir e)
        \<and> (\<forall>d'\<in>set (map fst rest). has_prefix dir (matching_versioned_dir d') \<longrightarrow> length d' \<le> length e)"
      then obtain e where "(e, version_loop dir rest n0 r0) \<in> set rest" "n0 \<le> length e"
        "has_prefix dir (matching_versioned_dir e)"
        "\<forall>d'\<in>set (map fst rest). has_prefix dir (matching_versioned_dir d') \<longrightarrow> length d' \<le> length e" by blast
      with p d show ?thesis unfolding step by (intro disjI2 exI [of _ e]) auto
    qed
  qed
qed

text \<open>\<open>RegoVersionFromMap\<close> answers with the version of a directory that applies to the file and that no
  other applying directory is longer than, whatever the iteration order; and with the default exactly when
  no directory applies (or its own entry says so).\<close>

theorem rego_version_from_map_longest:
  "(if \<exists>d. d \<in> set (map fst versions) \<and> version_applies filename d
    then \<exists>d. (d, rego_version_from_map versions filename dflt) \<in> set versions \<and> version_applies filename d
      \<and> (\<forall>d'\<in>set (map fst versions). version_applies filename d' \<longrightarrow> length d' \<le> length d)
    else rego_version_from_map versions filename dflt = dflt)"
  using version_loop_longest [of "fp_dir filename" versions 0 dflt]
  unfolding rego_version_from_map_def version_applies_def by (fastforce split: if_splits)

lemma matching_versioned_dir_elem:
  assumes "elem_ok d" "d \<noteq> ''..''" shows "matching_versioned_dir d = ''/'' @ d"
proof -
  have e: "split_byte sep (d @ ''//'') = [d, '''', '''']"
    using assms split_byte_append [of sep d "''/''"] by (simp add: elem_ok_def)
  show ?thesis
    using assms e
    by (simp add: matching_versioned_dir_def fp_join_def fp_clean_def fp_is_abs_def clean_elems_def
        clean_step_def unclean_def elem_ok_def)
qed

lemma last_index_byte_last: "c \<notin> set b \<Longrightarrow> last_index_byte (a @ c # b) c = int (length a)"
  by (simp add: last_index_byte_def index_byte_append)

lemma fp_dir_two:
  assumes "elem_ok e" "e \<noteq> ''..''" "sep \<notin> set f" shows "fp_dir (''/'' @ e @ ''/'' @ f) = ''/'' @ e"
proof -
  have "split_byte sep (e @ ''/'') = [e, '''']"
    using assms split_byte_append [of sep e "[]"] by (simp add: elem_ok_def)
  moreover have "fst (fp_split (''/'' @ e @ ''/'' @ f)) = sep # e @ ''/''"
    using last_index_byte_last [OF assms(3), of "sep # e"] by (simp add: fp_split_def Let_def nat_add_distrib)
  ultimately show ?thesis
    using assms
    by (simp add: fp_dir_def fp_clean_def fp_is_abs_def clean_elems_def clean_step_def unclean_def elem_ok_def)
qed

definition sample_versions :: "(string, rego_version) gomap" where
  "sample_versions = [(''a'', RegoV0), ('''', RegoV1)]"

lemma rego_version_from_map_longest_witness:
  "\<exists>d. (d, rego_version_from_map sample_versions ''/a/p.rego'' RegoUndefined) \<in> set sample_versions
     \<and> (\<forall>d'\<in>set (map fst sample_versions). version_applies ''/a/p.rego'' d' \<longrightarrow> length d' \<le> length d)"
proof -
  have "\<exists>d. d \<in> set (map fst sample_versions) \<and> version_applies ''/a/p.rego'' d"
    using fp_dir_two [of "''a''" "''p.rego''"] matching_versioned_dir_elem [of "''a''"]
    by (intro exI [of _ "''a''"]) (simp add: version_applies_def sample_versions_def elem_ok_def)
  then show ?thesis
    using rego_version_from_map_longest [of sample_versions "''/a/p.rego''" RegoUndefined] by (simp only: if_True) blast
qed

text \<open>The version of a directory also applies to the files of every sibling directory whose name
  continues the name of the directory: \<open>foo\<close> decides for \<open>/foobar/p.rego\<close>.\<close>

theorem rego_version_sibling:
  assumes "elem_ok d" "d \<noteq> ''..''" "elem_ok (d @ s)" "d @ s \<noteq> ''..''" "sep \<notin> set f"
  shows "rego_version_from_map [(d, v)] (''/'' @ (d @ s) @ ''/'' @ f) dflt = v"
  unfolding rego_version_from_map_def fp_dir_two [OF assms(3-5)]
  using matching_versioned_dir_elem [OF assms(1,2)] by simp

lemma rego_version_sibling_witness:
  "rego_version_from_map [(''foo'', RegoV0)] ''/foobar/p.rego'' RegoV1 = RegoV0"
  using rego_version_sibling [of "''foo''" "''bar''" "''p.rego''" RegoV0 RegoV1] by (simp add: elem_ok_def)

section \<open>Input: lemmas\<close>

lemma module_unknown_version_cases:
  "module_unknown_version env f p =
     (case parse_module_with_opts env RegoV1 f p of
        Inr m \<Rightarrow> Inr (m\<lparr>mod_version := if has_rego_v1_import (mod_imports m) then RegoV0CompatV1 else RegoV1\<rparr>)
      | Inl _ \<Rightarrow> (case parse_module_with_opts env RegoV0 f p of
          Inr m \<Rightarrow> Inr (m\<lparr>mod_version := if has_rego_v1_import (mod_imports m) then RegoV0CompatV1 else RegoV0\<rparr>)
        | Inl e \<Rightarrow> Inl (ParseError e)))"
  by (auto simp: module_unknown_version_def attempt_version_order_def split: sum.splits)

definition file_module :: "'r rules_env \<Rightarrow> (string, rego_version) gomap \<Rightarrow> string \<Rightarrow> string
    \<Rightarrow> rules_error + 'r rego_module" where
  "file_module env versions path c = module_with_opts env (rego_version_from_map versions path RegoUndefined) path c"

lemma input_map_loop_get:
  assumes "input_map_loop env versions fs c m = Inr (c', m')" "map_wf fs"
  shows "map_of c' k = (case map_of fs k of Some t \<Rightarrow> Some t | None \<Rightarrow> map_of c k)
    \<and> (case map_of fs k of Some t \<Rightarrow> (\<exists>x. file_module env versions k t = Inr x \<and> map_of m' k = Some x)
         | None \<Rightarrow> map_of m' k = map_of m k)"
  using assms
proof (induction fs arbitrary: c m)
  case Nil
  then show ?case by simp
next
  case (Cons p fs)
  obtain path t where p: "p = (path, t)" by (cases p)
  from Cons.prems(1) obtain x where x: "file_module env versions path t = Inr x"
    and r: "input_map_loop env versions fs (map_set c path t) (map_set m path x) = Inr (c', m')"
    by (auto simp: p file_module_def split: sum.splits)
  have "path \<notin> fst ` set fs" using Cons.prems(2) by (simp add: p)
  then have n: "map_of fs path = None" by (simp add: map_of_eq_None_iff)
  from Cons.IH [OF r] Cons.prems(2) x n show ?case
    by (cases "k = path"; cases "map_of fs k") (simp_all add: p)
qed

lemma input_map_loop_error:
  "(\<exists>e. input_map_loop env versions fs c m = Inl e)
     \<longleftrightarrow> (\<exists>p\<in>set fs. \<exists>e. file_module env versions (fst p) (snd p) = Inl e)"
proof (induction fs arbitrary: c m)
  case Nil
  then show ?case by simp
next
  case (Cons p fs)
  then show ?case
    by (cases p; cases "file_module env versions (fst p) (snd p)") (simp_all add: file_module_def)
qed

text \<open>\<open>InputFromMap\<close>, for every iteration order of the map: it fails exactly when some file does not
  parse at its version; otherwise the input has the contents given, and for each file the module parsed
  from its contents at the version of its directory.\<close>

theorem input_from_map_result:
  assumes "map_wf fs"
  shows "(\<exists>inp. input_from_map env fs versions = Inr inp \<and>
      (\<forall>k. map_of (FileContent inp) k = map_of fs k) \<and>
      (\<forall>k. map_of (Modules inp) k = (case map_of fs k of None \<Rightarrow> None
         | Some t \<Rightarrow> (case file_module env versions k t of Inr x \<Rightarrow> Some x | Inl _ \<Rightarrow> None))) \<and>
      (\<forall>k t. map_of fs k = Some t \<longrightarrow> (\<exists>x. file_module env versions k t = Inr x)))
   \<or> ((\<exists>e. input_from_map env fs versions = Inl e) \<and>
      (\<exists>k t e. map_of fs k = Some t \<and> file_module env versions k t = Inl e))"
proof (cases "input_map_loop env versions fs [] []")
  case (Inl e)
  with input_map_loop_error [of env versions fs "[]" "[]"] obtain path t e'
    where "(path, t) \<in> set fs" "file_module env versions path t = Inl e'" by auto
  with assms Inl show ?thesis by (auto simp: input_from_map_def)
next
  case (Inr r)
  obtain c m where r: "r = (c, m)" by (cases r)
  note g = input_map_loop_get [OF Inr [unfolded r] assms]
  have c: "map_of c k = map_of fs k" for k using g [of k] by (simp split: option.splits)
  have m: "map_of fs k = None \<Longrightarrow> map_of m k = None"
    and ms: "map_of fs k = Some t \<Longrightarrow> \<exists>x. file_module env versions k t = Inr x \<and> map_of m k = Some x" for k t
    using g [of k] by simp_all
  have "map_of m k = (case map_of fs k of None \<Rightarrow> None
       | Some t \<Rightarrow> (case file_module env versions k t of Inr x \<Rightarrow> Some x | Inl _ \<Rightarrow> None))" for k
    using m ms by (cases "map_of fs k") fastforce+
  moreover have "input_from_map env fs versions = Inr (new_input env c m)"
    by (simp add: input_from_map_def Inr r)
  ultimately show ?thesis
    using c ms by (intro disjI1 exI [of _ "new_input env c m"]) (simp add: new_input_def, blast)
qed

definition sample_rules_env :: "unit rules_env" where
  "sample_rules_env = \<lparr>parse_module_with_opts = \<lambda>v f p. Inr
     \<lparr>mod_package = [AVar ''data'', AStr ''p''], mod_imports = [], mod_version = v, mod_rest = ()\<rparr>,
     read_file = \<lambda>p. Inr '''', keys_sorted = \<lambda>ks. ks\<rparr>"

lemma input_from_map_result_witness:
  "(\<exists>inp. input_from_map sample_rules_env [(''/p.rego'', ''package p'')] [] = Inr inp \<and>
      map_of (FileContent inp) ''/p.rego'' = Some ''package p'')"
proof -
  have "file_module sample_rules_env [] k t \<noteq> Inl e" for k t e
    by (simp add: file_module_def rego_version_from_map_def module_with_opts_def
        module_unknown_version_cases sample_rules_env_def)
  with input_from_map_result [of "[(''/p.rego'', ''package p'')]" sample_rules_env "[]"]
  have "\<exists>inp. input_from_map sample_rules_env [(''/p.rego'', ''package p'')] [] = Inr inp \<and>
    (\<forall>k. map_of (FileContent inp) k = map_of [(''/p.rego'', ''package p'')] k)" by fastforce
  then show ?thesis by force
qed


end
