(* ===== verification/Fixes.thy ===== *)
theory Fixes
  imports Rules Report Uri "HOL-Library.Product_Lexorder"
begin

text \<open>
  \<open>pkg/fixer/fixes\<close>: the fixes that can be applied to a file. A fix yields at most one result with new
  contents or a rename. A Go panic (an index out of range, a nil dereference) is \<^term>\<open>None\<close>, so a fix that
  always is \<^term>\<open>Some r\<close> cannot panic.

  OPA's formatter is the parameter \<open>format_ast\<close> (with the formatter options of \<open>Fmt\<close> other than the Rego
  version built in), its parser belongs to \<open>rules_env\<close>, and \<open>term_string\<close> is \<open>ast.Value.String\<close>. Lines and
  columns are Go \<open>int\<close>s that count from 1.
\<close>

section \<open>Data\<close>

record runtime_options =
  ro_config :: "config option"
  ro_base_dir :: string
  ro_locations :: "location list"
  ro_client :: client_id

record fix_candidate =
  cand_filename :: string
  cand_contents :: string
  cand_rego_version :: rego_version

record rename_paths =
  rn_from :: string
  rn_to :: string

record fix_result =
  fr_rename :: "rename_paths option"
  fr_title :: string
  fr_root :: string
  fr_contents :: string

datatype fix_error =
    MissingOptions
  | FilenameRequired
  | ModuleNotParsed rules_error
  | FormatFailed string
  | BadPackageName string

datatype fix_kind =
    Fmt string
  | UseAssignmentOperator
  | NoWhitespaceComment
  | DirectoryPackageMismatch
  | NonRawRegexPattern
  | PreferEqualsComparison
  | RedundantExistenceCheck
  | ConstantCondition

record 'r fix_env = "'r rules_env" +
  format_ast :: "rego_version \<Rightarrow> 'r rego_module \<Rightarrow> string + string"
  term_string :: "aval \<Rightarrow> string"

definition fix_name :: "fix_kind \<Rightarrow> string" where
  "fix_name f = (case f of
       Fmt nameOverride \<Rightarrow> if nameOverride \<noteq> '''' then nameOverride else ''opa-fmt''
     | UseAssignmentOperator \<Rightarrow> ''use-assignment-operator''
     | NoWhitespaceComment \<Rightarrow> ''no-whitespace-comment''
     | DirectoryPackageMismatch \<Rightarrow> ''directory-package-mismatch''
     | NonRawRegexPattern \<Rightarrow> ''non-raw-regex-pattern''
     | PreferEqualsComparison \<Rightarrow> ''prefer-equals-comparison''
     | RedundantExistenceCheck \<Rightarrow> ''redundant-existence-check''
     | ConstantCondition \<Rightarrow> ''constant-condition'')"

definition default_fixes :: "fix_kind list" where
  "default_fixes = [Fmt '''', Fmt ''use-rego-v1'', UseAssignmentOperator, NoWhitespaceComment,
     DirectoryPackageMismatch, NonRawRegexPattern, PreferEqualsComparison, RedundantExistenceCheck,
     ConstantCondition]"

definition default_formatter_fixes :: "fix_kind list" where
  "default_formatter_fixes = [Fmt '''', UseAssignmentOperator, NoWhitespaceComment, NonRawRegexPattern,
     PreferEqualsComparison, RedundantExistenceCheck, ConstantCondition]"

text \<open>\<open>strings.Split(s, "\n")\<close> and \<open>strings.Join(lines, "\n")\<close>.\<close>

abbreviation lines_of :: "string \<Rightarrow> string list" where
  "lines_of \<equiv> split_byte newline"

abbreviation join_lines :: "string list \<Rightarrow> string" where
  "join_lines \<equiv> join_str [newline]"

text \<open>The tail that the location-based fixes share.\<close>

definition contents_result :: "fix_kind \<Rightarrow> runtime_options \<Rightarrow> bool \<Rightarrow> string list \<Rightarrow> fix_result list" where
  "contents_result f opts fixed lines =
     (if \<not> fixed then [] else [\<lparr>fr_rename = None, fr_title = fix_name f, fr_root = ro_base_dir opts,
        fr_contents = join_lines lines\<rparr>])"

section \<open>Inserting at a location\<close>

text \<open>One location of \<open>UseAssignmentOperator\<close>, \<open>NoWhitespaceComment\<close> and \<open>PreferEqualsComparison\<close>.
  A step yields the new lines and whether it changed them.\<close>

definition assignment_step :: "location \<Rightarrow> string list \<Rightarrow> (string list \<times> bool) option" where
  "assignment_step loc lines =
     (if l_row loc < 1 \<or> l_row loc > int (length lines) then Some (lines, False)
      else do {
        line \<leftarrow> idx_get lines (l_row loc - 1);
        if l_col loc - 1 < 0 \<or> l_col loc - 1 \<ge> int (length line) then Some (lines, False)
        else do {
          c \<leftarrow> idx_get line (l_col loc - 1);
          if c \<noteq> CHR ''='' then Some (lines, False)
          else do {
            a \<leftarrow> slice line 0 (l_col loc - 1);
            b \<leftarrow> slice line (l_col loc - 1) (int (length line));
            lines' \<leftarrow> idx_set lines (l_row loc - 1) (a @ '':'' @ b);
            Some (lines', True)
          }
        }
      })"

definition comment_step :: "location \<Rightarrow> string list \<Rightarrow> (string list \<times> bool) option" where
  "comment_step loc lines =
     (if l_row loc < 1 \<or> l_col loc < 1 \<or> l_row loc > int (length lines) then Some (lines, False)
      else do {
        line \<leftarrow> idx_get lines (l_row loc - 1);
        if l_col loc > int (length line) then Some (lines, False)
        else do {
          c \<leftarrow> idx_get line (l_col loc - 1);
          if c \<noteq> CHR ''#'' then Some (lines, False)
          else do {
            a \<leftarrow> slice line 0 (l_col loc);
            b \<leftarrow> slice line (l_col loc) (int (length line));
            lines' \<leftarrow> idx_set lines (l_row loc - 1) (a @ '' '' @ b);
            Some (lines', True)
          }
        }
      })"

text \<open>\<open>PreferEqualsComparison\<close> reads the line before it checks the row.\<close>

definition equals_step :: "location \<Rightarrow> string list \<Rightarrow> (string list \<times> bool) option" where
  "equals_step loc lines = do {
     line \<leftarrow> idx_get lines (l_row loc - 1);
     if l_row loc > int (length lines) \<or> l_col loc - 1 < 0 \<or> l_col loc - 1 \<ge> int (length line)
     then Some (lines, False)
     else do {
       targetedLocation \<leftarrow> slice line (l_col loc - 1) (int (length line));
       case str_index targetedLocation ''='' of
         None \<Rightarrow> Some (lines, False)
       | Some targetedEqIndex \<Rightarrow> do {
           let eqIndex = int targetedEqIndex + l_col loc - 1;
           a \<leftarrow> slice line 0 eqIndex;
           b \<leftarrow> slice line eqIndex (int (length line));
           lines' \<leftarrow> idx_set lines (l_row loc - 1) (a @ ''='' @ b);
           Some (lines', True)
         }
     }
   }"

fun fix_locations :: "(location \<Rightarrow> string list \<Rightarrow> (string list \<times> bool) option) \<Rightarrow> location list
    \<Rightarrow> string list \<Rightarrow> bool \<Rightarrow> (string list \<times> bool) option" where
  "fix_locations step [] lines fixed = Some (lines, fixed)"
| "fix_locations step (loc # locs) lines fixed =
     (case step loc lines of
        None \<Rightarrow> None
      | Some (lines', changed) \<Rightarrow> fix_locations step locs lines' (fixed \<or> changed))"

definition location_fix :: "fix_kind \<Rightarrow> (location \<Rightarrow> string list \<Rightarrow> (string list \<times> bool) option) \<Rightarrow> fix_candidate
    \<Rightarrow> runtime_options option \<Rightarrow> (fix_error + fix_result list) option" where
  "location_fix f step fc opts =
     (case opts of
        None \<Rightarrow> Some (Inl MissingOptions)
      | Some opts \<Rightarrow>
          (case fix_locations step (ro_locations opts) (lines_of (cand_contents fc)) False of
             None \<Rightarrow> None
           | Some (lines, fixed) \<Rightarrow> Some (Inr (contents_result f opts fixed lines))))"

section \<open>Removing locations\<close>

text \<open>One location of \<open>removeLocations\<close>. The slice expressions are in bounds by the tests before them.\<close>

definition remove_step :: "location \<Rightarrow> string list \<Rightarrow> (string list \<times> bool) option" where
  "remove_step loc lines =
     (case l_end loc of
        None \<Rightarrow> Some (lines, False)
      | Some loc_end \<Rightarrow>
          (let startRow = l_row loc - 1; endRow = pos_row loc_end - 1 in
           if startRow < 0 \<or> endRow < startRow \<or> endRow \<ge> int (length lines) then Some (lines, False)
           else do {
             let startCol = l_col loc - 1;
             let endCol = pos_col loc_end - 1;
             startLine \<leftarrow> idx_get lines startRow;
             endLine \<leftarrow> idx_get lines endRow;
             if startCol < 0 \<or> startCol \<ge> int (length startLine) \<or> endCol < 0 \<or> endCol > int (length endLine)
             then Some (lines, False)
             else do {
               a \<leftarrow> slice startLine 0 startCol;
               b \<leftarrow> slice endLine endCol (int (length endLine));
               pre \<leftarrow> slice lines 0 startRow;
               rest \<leftarrow> slice lines (endRow + 1) (int (length lines));
               Some (pre @ (a @ b) # rest, True)
             }
           }))"

text \<open>\<open>slices.SortStableFunc\<close>: the last location of the file first.\<close>

definition bottom_up :: "location list \<Rightarrow> location list" where
  "bottom_up locs = sort_key (\<lambda>l. (- l_row l, - l_col l)) locs"

definition remove_locations :: "string list \<Rightarrow> location list \<Rightarrow> (string list \<times> bool) option" where
  "remove_locations lines locs = fix_locations remove_step (bottom_up locs) lines False"

definition removal_fix :: "fix_kind \<Rightarrow> fix_candidate \<Rightarrow> runtime_options option
    \<Rightarrow> (fix_error + fix_result list) option" where
  "removal_fix f fc opts =
     (case opts of
        None \<Rightarrow> Some (Inl MissingOptions)
      | Some opts \<Rightarrow>
          (case remove_locations (lines_of (cand_contents fc)) (ro_locations opts) of
             None \<Rightarrow> None
           | Some (lines, fixed) \<Rightarrow> Some (Inr (contents_result f opts fixed lines))))"

section \<open>Raw regex patterns\<close>

text \<open>\<open>[]rune(s)\<close> and \<open>string(runes)\<close>: decoding and encoding UTF-8. An invalid byte becomes U+FFFD.\<close>

definition cont_byte :: "char \<Rightarrow> bool" where
  "cont_byte c = (128 \<le> (of_char c :: nat) \<and> (of_char c :: nat) < 192)"

definition low_bits :: "char \<Rightarrow> nat" where
  "low_bits c = of_char c mod 64"

definition rune_error :: nat where
  "rune_error = 65533"

definition decode_rune :: "char \<Rightarrow> string \<Rightarrow> nat \<times> string" where
  "decode_rune c s =
     (let b = (of_char c :: nat) in
      if b < 128 then (b, s)
      else if 194 \<le> b \<and> b < 224 then
        (case s of
           c1 # t \<Rightarrow> if cont_byte c1 then ((b - 192) * 64 + low_bits c1, t) else (rune_error, s)
         | _ \<Rightarrow> (rune_error, s))
      else if 224 \<le> b \<and> b < 240 then
        (case s of
           c1 # c2 # t \<Rightarrow>
             (let r = (b - 224) * 4096 + low_bits c1 * 64 + low_bits c2 in
              if cont_byte c1 \<and> cont_byte c2 \<and> 2048 \<le> r \<and> \<not> (55296 \<le> r \<and> r < 57344)
              then (r, t) else (rune_error, s))
         | _ \<Rightarrow> (rune_error, s))
      else if 240 \<le> b \<and> b < 245 then
        (case s of
           c1 # c2 # c3 # t \<Rightarrow>
             (let r = (b - 240) * 262144 + low_bits c1 * 4096 + low_bits c2 * 64 + low_bits c3 in
              if cont_byte c1 \<and> cont_byte c2 \<and> cont_byte c3 \<and> 65536 \<le> r \<and> r < 1114112
              then (r, t) else (rune_error, s))
         | _ \<Rightarrow> (rune_error, s))
      else (rune_error, s))"

lemma decode_rune_length: "length (snd (decode_rune c s)) \<le> length s"
  by (auto simp: decode_rune_def Let_def split: list.splits)

function runes_of :: "string \<Rightarrow> nat list" where
  "runes_of [] = []"
| "runes_of (c # s) = (case decode_rune c s of (r, t) \<Rightarrow> r # runes_of t)"
  by pat_completeness auto
termination
  by (relation "measure length") (simp_all, metis decode_rune_length le_imp_less_Suc snd_conv)

definition encode_rune :: "nat \<Rightarrow> string" where
  "encode_rune r0 =
     (let r = (if r0 \<ge> 1114112 \<or> (55296 \<le> r0 \<and> r0 < 57344) then rune_error else r0) in
      if r < 128 then [char_of r]
      else if r < 2048 then [char_of (192 + r div 64), char_of (128 + r mod 64)]
      else if r < 65536 then
        [char_of (224 + r div 4096), char_of (128 + r div 64 mod 64), char_of (128 + r mod 64)]
      else [char_of (240 + r div 262144), char_of (128 + r div 4096 mod 64),
            char_of (128 + r div 64 mod 64), char_of (128 + r mod 64)])"

definition string_of_runes :: "nat list \<Rightarrow> string" where
  "string_of_runes rs = concat (map encode_rune rs)"

definition quote_rune :: nat where
  "quote_rune = 34"

definition backtick_rune :: nat where
  "backtick_rune = 96"

abbreviation backslash :: char where
  "backslash \<equiv> CHR 0x5C"

text \<open>One location of \<open>NonRawRegexPattern\<close>: \<open>loc.End\<close> is dereferenced, and the index \<open>endIdx\<close> is only
  tested to be at most the length of the line. The second component is whether a quote was replaced; the
  line is written back in any case.\<close>

definition raw_regex_step :: "location \<Rightarrow> string list \<Rightarrow> (string list \<times> bool) option" where
  "raw_regex_step loc lines =
     (if l_row loc - 1 < 0 \<or> l_row loc - 1 \<ge> int (length lines) then Some (lines, False)
      else do {
        text_line \<leftarrow> idx_get lines (l_row loc - 1);
        let line = runes_of text_line;
        loc_end \<leftarrow> l_end loc;
        let startIdx = l_col loc - 1;
        let endIdx = pos_col loc_end - 2;
        if startIdx < 0 \<or> endIdx > int (length line) \<or> startIdx \<ge> endIdx then Some (lines, False)
        else do {
          s \<leftarrow> idx_get line startIdx;
          line1 \<leftarrow> (if s = quote_rune then idx_set line startIdx backtick_rune else Some line);
          e \<leftarrow> idx_get line1 endIdx;
          line2 \<leftarrow> (if e = quote_rune then idx_set line1 endIdx backtick_rune else Some line1);
          segment \<leftarrow> slice line2 startIdx endIdx;
          let replacement = runes_of (replace_all [backslash, backslash] [backslash] (string_of_runes segment));
          a \<leftarrow> slice line2 0 startIdx;
          b \<leftarrow> slice line2 endIdx (int (length line2));
          lines' \<leftarrow> idx_set lines (l_row loc - 1) (string_of_runes (a @ replacement @ b));
          Some (lines', s = quote_rune \<or> e = quote_rune)
        }
      })"

section \<open>Directory and package\<close>

text \<open>\<open>^[a-zA-Z_][a-zA-Z0-9_-]*$\<close>.\<close>

definition name_start :: "char \<Rightarrow> bool" where
  "name_start c = ((CHR ''a'' \<le> c \<and> c \<le> CHR ''z'') \<or> (CHR ''A'' \<le> c \<and> c \<le> CHR ''Z'') \<or> c = CHR ''_'')"

definition regular_name :: "string \<Rightarrow> bool" where
  "regular_name s =
     (case s of [] \<Rightarrow> False
      | c # cs \<Rightarrow> name_start c \<and> list_all (\<lambda>d. name_start d \<or> is_digit d \<or> d = CHR ''-'') cs)"

definition should_exclude_test_suffix :: "config option \<Rightarrow> bool" where
  "should_exclude_test_suffix conf =
     (case conf of
        None \<Rightarrow> True
      | Some c \<Rightarrow> (case map_get (cfg_rules c) ''idiomatic'' of
            None \<Rightarrow> True
          | Some category \<Rightarrow> (case map_get category ''directory-package-mismatch'' of
              None \<Rightarrow> True
            | Some rule \<Rightarrow> (case map_get (r_extra rule) ''exclude-test-suffix'' of
                Some (GBool exclude) \<Rightarrow> exclude
              | _ \<Rightarrow> True))))"

text \<open>The loop over the package path; a panic, when the path has no first element, is the length that
  \<open>make\<close> is given.\<close>

fun package_parts :: "bool \<Rightarrow> string list \<Rightarrow> fix_error + string list" where
  "package_parts exclude [] = Inr []"
| "package_parts exclude (t # ts) =
     (if \<not> regular_name t then Inl (BadPackageName t)
      else bind_res (package_parts exclude ts) (\<lambda>parts.
        Inr ((if ts = [] \<and> exclude then trim_suffix t ''_test'' else t) # parts)))"

definition candidate_module :: "'r fix_env \<Rightarrow> fix_candidate \<Rightarrow> rules_error + 'r rego_module" where
  "candidate_module env fc =
     module_with_opts (rules_env.truncate env) (cand_rego_version fc) (cand_filename fc) (cand_contents fc)"

definition get_package_path_directory :: "'r fix_env \<Rightarrow> fix_candidate \<Rightarrow> config option
    \<Rightarrow> (fix_error + string) option" where
  "get_package_path_directory env fc conf =
     (case candidate_module env fc of
        Inl e \<Rightarrow> Some (Inl (ModuleNotParsed e))
      | Inr m \<Rightarrow>
          (case mod_package m of
             [] \<Rightarrow> None
           | _ # path \<Rightarrow> Some (bind_res
               (package_parts (should_exclude_test_suffix conf)
                 (map (\<lambda>part. trim_byte (term_string env part) CHR 0x22) path))
               (\<lambda>parts. Inr (fp_join parts)))))"

definition mismatch_fix :: "'r fix_env \<Rightarrow> fix_candidate \<Rightarrow> runtime_options option
    \<Rightarrow> (fix_error + fix_result list) option" where
  "mismatch_fix env fc opts = do {
     opts \<leftarrow> opts;
     r \<leftarrow> get_package_path_directory env fc (ro_config opts);
     Some (bind_res r (\<lambda>pkgPath.
       let rootPath = fp_clean (if ro_base_dir opts \<noteq> '''' then ro_base_dir opts else fp_dir (cand_filename fc));
           newPath = fp_join [rootPath, pkgPath, fp_base (cand_filename fc)]
       in if newPath = cand_filename fc then Inr []
          else Inr [\<lparr>fr_rename = Some \<lparr>rn_from = cand_filename fc, rn_to = newPath\<rparr>,
            fr_title = fix_name DirectoryPackageMismatch, fr_root = rootPath, fr_contents = cand_contents fc\<rparr>]))
   }"

section \<open>Formatting\<close>

definition fmt_fix :: "'r fix_env \<Rightarrow> string \<Rightarrow> fix_candidate \<Rightarrow> runtime_options option
    \<Rightarrow> fix_error + fix_result list" where
  "fmt_fix env nameOverride fc opts =
     (case opts of
        None \<Rightarrow> Inl MissingOptions
      | Some opts \<Rightarrow>
          if cand_filename fc = '''' then Inl FilenameRequired
          else (case candidate_module env fc of
              Inl e \<Rightarrow> Inl (ModuleNotParsed e)
            | Inr m \<Rightarrow>
                (let version = (if mod_version m = RegoV0 then RegoV0CompatV1 else mod_version m) in
                 case format_ast env version m of
                   Inl e \<Rightarrow> Inl (FormatFailed e)
                 | Inr formatted \<Rightarrow>
                     if cand_contents fc = formatted then Inr []
                     else Inr [\<lparr>fr_rename = None, fr_title = fix_name (Fmt nameOverride),
                       fr_root = ro_base_dir opts, fr_contents = formatted\<rparr>])))"

section \<open>Applying a fix\<close>

definition apply_fix :: "'r fix_env \<Rightarrow> fix_kind \<Rightarrow> fix_candidate \<Rightarrow> runtime_options option
    \<Rightarrow> (fix_error + fix_result list) option" where
  "apply_fix env f fc opts = (case f of
       Fmt nameOverride \<Rightarrow> Some (fmt_fix env nameOverride fc opts)
     | UseAssignmentOperator \<Rightarrow> location_fix f assignment_step fc opts
     | NoWhitespaceComment \<Rightarrow> location_fix f comment_step fc opts
     | DirectoryPackageMismatch \<Rightarrow> mismatch_fix env fc opts
     | NonRawRegexPattern \<Rightarrow> location_fix f raw_regex_step fc opts
     | PreferEqualsComparison \<Rightarrow> location_fix f equals_step fc opts
     | RedundantExistenceCheck \<Rightarrow> removal_fix f fc opts
     | ConstantCondition \<Rightarrow> removal_fix f fc opts)"

end
