(* ===== verification/Fixes_Proofs.thy ===== *)
theory Fixes_Proofs
  imports Fixes
begin

text \<open>
  What the fixes do to a file: which of them can panic, what the location-based fixes change, that cutting
  out locations is cutting out spans of the text, and that moving a file to the directory of its package is
  done after one move.
\<close>

section \<open>Panics\<close>

lemma slice_prefix [simp]: "0 \<le> j \<Longrightarrow> j \<le> int (length xs) \<Longrightarrow> slice xs 0 j = Some (take (nat j) xs)"
  by (simp add: slice_def)

lemma slice_rest [simp]: "0 \<le> i \<Longrightarrow> i \<le> int (length xs) \<Longrightarrow> slice xs i (int (length xs)) = Some (drop (nat i) xs)"
  by (simp add: slice_def)

text \<open>The line of a location, when its row is one of the file's.\<close>

definition row_ok :: "location \<Rightarrow> string list \<Rightarrow> bool" where
  "row_ok loc lines \<longleftrightarrow> 1 \<le> l_row loc \<and> l_row loc \<le> int (length lines)"

text \<open>What the inserting fixes do to a line.\<close>

definition assignment_edit :: "int \<Rightarrow> string \<Rightarrow> string option" where
  "assignment_edit col line =
     (if 1 \<le> col \<and> col \<le> int (length line) \<and> line ! nat (col - 1) = CHR ''=''
      then Some (take (nat (col - 1)) line @ '':'' @ drop (nat (col - 1)) line) else None)"

definition comment_edit :: "int \<Rightarrow> string \<Rightarrow> string option" where
  "comment_edit col line =
     (if 1 \<le> col \<and> col \<le> int (length line) \<and> line ! nat (col - 1) = CHR ''#''
      then Some (take (nat col) line @ '' '' @ drop (nat col) line) else None)"

definition equals_edit :: "int \<Rightarrow> string \<Rightarrow> string option" where
  "equals_edit col line =
     (if 1 \<le> col \<and> col \<le> int (length line)
      then map_option (\<lambda>i. take (i + nat (col - 1)) line @ ''='' @ drop (i + nat (col - 1)) line)
        (str_index (drop (nat (col - 1)) line) ''='')
      else None)"

definition edit_line :: "(int \<Rightarrow> string \<Rightarrow> string option) \<Rightarrow> location \<Rightarrow> string list \<Rightarrow> string list \<times> bool" where
  "edit_line edit loc lines =
     (case edit (l_col loc) (lines ! nat (l_row loc - 1)) of
        None \<Rightarrow> (lines, False)
      | Some line \<Rightarrow> (lines[nat (l_row loc - 1) := line], True))"

lemma assignment_step_edit:
  "assignment_step loc lines = Some (if row_ok loc lines then edit_line assignment_edit loc lines else (lines, False))"
  by (auto simp: assignment_step_def row_ok_def edit_line_def assignment_edit_def idx_get_def idx_set_def
      split: if_splits)

lemma comment_step_edit:
  "comment_step loc lines = Some (if row_ok loc lines then edit_line comment_edit loc lines else (lines, False))"
  by (auto simp: comment_step_def row_ok_def edit_line_def comment_edit_def idx_get_def idx_set_def
      split: if_splits)

lemma equals_step_edit:
  "equals_step loc lines = (if row_ok loc lines then Some (edit_line equals_edit loc lines) else None)"
proof (cases "row_ok loc lines")
  case False
  then show ?thesis by (auto simp: equals_step_def row_ok_def idx_get_def)
next
  case True
  then have line: "idx_get lines (l_row loc - 1) = Some (lines ! nat (l_row loc - 1))"
    by (auto simp: row_ok_def idx_get_def)
  let ?line = "lines ! nat (l_row loc - 1)"
  show ?thesis
  proof (cases "l_col loc - 1 < 0 \<or> l_col loc - 1 \<ge> int (length ?line)")
    case out: True
    with True line show ?thesis by (auto simp: equals_step_def edit_line_def equals_edit_def)
  next
    case False
    then have col: "0 \<le> l_col loc - 1" "l_col loc - 1 \<le> int (length ?line)" by auto
    show ?thesis
    proof (cases "str_index (drop (nat (l_col loc - 1)) ?line) ''=''")
      case None
      with True False line col show ?thesis
        by (auto simp: equals_step_def edit_line_def equals_edit_def row_ok_def)
    next
      case (Some i)
      then have b: "i + nat (l_col loc - 1) \<le> length ?line"
        using str_index_Some_bound [OF Some] by simp
      have n: "nat (int i + l_col loc - 1) = i + nat (l_col loc - 1)" using False by auto
      have "int i + l_col loc - 1 \<le> int (length ?line)" "0 \<le> int i + l_col loc - 1" using b False by linarith+
      with True False line col Some n show ?thesis
        by (auto simp: equals_step_def edit_line_def equals_edit_def row_ok_def idx_set_def)
    qed
  qed
qed

lemma edit_line_length [simp]: "length (fst (edit_line edit loc lines)) = length lines"
  by (auto simp: edit_line_def split: option.splits)

lemma fix_locations_Some:
  assumes "\<And>loc lines. step loc lines \<noteq> None"
  shows "fix_locations step locs lines fixed \<noteq> None"
proof (induction locs arbitrary: lines fixed)
  case Nil
  then show ?case by simp
next
  case (Cons loc locs)
  obtain r where "step loc lines = Some r" using assms [of loc lines] by blast
  with Cons.IH show ?case by (cases r) auto
qed

lemma remove_step_Some: "remove_step loc lines \<noteq> None"
  by (cases "l_end loc") (auto simp: remove_step_def Let_def idx_get_def slice_def)

lemma location_fix_None:
  "location_fix f step fc opts = None \<longleftrightarrow>
     (\<exists>o'. opts = Some o' \<and> fix_locations step (ro_locations o') (lines_of (cand_contents fc)) False = None)"
  by (cases opts) (auto simp: location_fix_def split: option.splits)

lemma removal_fix_None:
  "removal_fix f fc opts = None \<longleftrightarrow>
     (\<exists>o'. opts = Some o' \<and> remove_locations (lines_of (cand_contents fc)) (ro_locations o') = None)"
  by (cases opts) (auto simp: removal_fix_def split: option.splits)

text \<open>Formatting, inserting an assignment operator, inserting a space into a comment and cutting out
  locations cannot panic, whatever the file, the options and the locations are.\<close>

theorem safe_fixes_never_panic:
  assumes "f \<notin> {DirectoryPackageMismatch, NonRawRegexPattern, PreferEqualsComparison}"
  shows "\<exists>r. apply_fix env f fc opts = Some r"
proof -
  have "location_fix g assignment_step fc opts \<noteq> None" "location_fix g comment_step fc opts \<noteq> None" for g
    unfolding location_fix_None
    by (simp_all add: fix_locations_Some assignment_step_edit comment_step_edit del: not_None_eq)
  moreover have "removal_fix g fc opts \<noteq> None" for g
    unfolding removal_fix_None remove_locations_def
    by (simp add: fix_locations_Some remove_step_Some del: not_None_eq)
  ultimately show ?thesis using assms by (cases f) (auto simp: apply_fix_def)
qed

text \<open>\<open>PreferEqualsComparison\<close> panics exactly when some location has a row that the file does not
  have: it indexes the lines before it compares the row with their number.\<close>

theorem prefer_equals_panics_iff:
  "apply_fix env PreferEqualsComparison fc (Some opts) = None \<longleftrightarrow>
     (\<exists>loc\<in>set (ro_locations opts). \<not> row_ok loc (lines_of (cand_contents fc)))"
proof -
  have "fix_locations equals_step locs lines fixed = None \<longleftrightarrow> (\<exists>loc\<in>set locs. \<not> row_ok loc lines)"
    for locs lines fixed
  proof (induction locs arbitrary: lines fixed)
    case Nil
    then show ?case by simp
  next
    case (Cons loc locs)
    obtain lines' changed where e: "edit_line equals_edit loc lines = (lines', changed)" by force
    then have "length lines' = length lines" using edit_line_length [of equals_edit loc lines] by simp
    then have "row_ok l lines' = row_ok l lines" for l by (simp add: row_ok_def)
    with Cons.IH e show ?case by (simp add: equals_step_edit)
  qed
  then show ?thesis by (simp add: apply_fix_def location_fix_None)
qed

section \<open>Inserting, line by line\<close>

definition edit_of_fix :: "fix_kind \<Rightarrow> int \<Rightarrow> string \<Rightarrow> string option" where
  "edit_of_fix f = (case f of UseAssignmentOperator \<Rightarrow> assignment_edit | NoWhitespaceComment \<Rightarrow> comment_edit
     | _ \<Rightarrow> equals_edit)"

text \<open>Line \<open>i\<close> after the fix: edited at the column of the location on it, if there is one and it applies.\<close>

definition edited :: "(int \<Rightarrow> string \<Rightarrow> string option) \<Rightarrow> location list \<Rightarrow> string list \<Rightarrow> nat \<Rightarrow> string" where
  "edited edit locs lines i =
     (case List.find (\<lambda>loc. l_row loc = int i + 1) locs of
        None \<Rightarrow> lines ! i
      | Some loc \<Rightarrow> (case edit (l_col loc) (lines ! i) of None \<Rightarrow> lines ! i | Some line \<Rightarrow> line))"

definition applies :: "(int \<Rightarrow> string \<Rightarrow> string option) \<Rightarrow> string list \<Rightarrow> location \<Rightarrow> bool" where
  "applies edit lines loc \<longleftrightarrow> edit (l_col loc) (lines ! nat (l_row loc - 1)) \<noteq> None"

lemma edit_line_other:
  "row_ok loc lines \<Longrightarrow> i < length lines \<Longrightarrow> int i + 1 \<noteq> l_row loc \<Longrightarrow> fst (edit_line edit loc lines) ! i = lines ! i"
  by (auto simp: edit_line_def row_ok_def nth_list_update split: option.splits)

lemma edit_line_same:
  assumes "row_ok loc lines" "int i + 1 = l_row loc"
  shows "fst (edit_line edit loc lines) ! i
    = (case edit (l_col loc) (lines ! i) of None \<Rightarrow> lines ! i | Some line \<Rightarrow> line)"
proof -
  have "nat (l_row loc - 1) = i" "i < length lines" using assms by (auto simp: row_ok_def)
  then show ?thesis by (auto simp: edit_line_def split: option.splits)
qed

lemma fix_locations_edited:
  assumes "\<And>loc lines. row_ok loc lines \<Longrightarrow> step loc lines = Some (edit_line edit loc lines)"
    and "distinct (map l_row locs)" "\<forall>loc\<in>set locs. row_ok loc lines"
  shows "fix_locations step locs lines fixed = Some (map (edited edit locs lines) [0..<length lines],
    fixed \<or> (\<exists>loc\<in>set locs. applies edit lines loc))"
  using assms(2,3)
proof (induction locs arbitrary: lines fixed)
  case Nil
  then show ?case by (simp add: edited_def map_nth)
next
  case (Cons loc locs)
  let ?lines = "fst (edit_line edit loc lines)"
  have ok: "row_ok loc lines" using Cons.prems by simp
  have step: "step loc lines = Some (?lines, snd (edit_line edit loc lines))" using assms(1) [OF ok] by simp
  have rows: "\<forall>l\<in>set locs. l_row l \<noteq> l_row loc" using Cons.prems(1) by (auto simp: image_iff)
  have ok': "\<forall>l\<in>set locs. row_ok l ?lines" using Cons.prems(2) by (simp add: row_ok_def)
  have same: "?lines ! nat (l_row l - 1) = lines ! nat (l_row l - 1)" if "l \<in> set locs" for l
    using that rows Cons.prems(2) by (intro edit_line_other [OF ok]) (auto simp: row_ok_def)
  have lines: "edited edit locs ?lines i = edited edit (loc # locs) lines i" if i: "i < length lines" for i
  proof (cases "l_row loc = int i + 1")
    case True
    then have "List.find (\<lambda>l. l_row l = int i + 1) locs = None" using rows by (auto simp: find_None_iff)
    with True show ?thesis using edit_line_same [OF ok, of i] by (simp add: edited_def)
  next
    case False
    have e: "?lines ! i = lines ! i" by (rule edit_line_other [OF ok i]) (use False in simp)
    show ?thesis using False unfolding edited_def e by simp
  qed
  have ap: "snd (edit_line edit loc lines) = applies edit lines loc"
    by (auto simp: edit_line_def applies_def split: option.splits)
  have aps: "applies edit ?lines l = applies edit lines l" if "l \<in> set locs" for l
    using same [OF that] by (simp add: applies_def)
  have "map (edited edit locs ?lines) [0..<length lines] = map (edited edit (loc # locs) lines) [0..<length lines]"
    using lines by simp
  then show ?case
    using Cons.IH [OF _ ok'] Cons.prems(1) step ap aps by auto
qed

text \<open>On locations in different rows of the file, each inserting fix edits exactly the lines of the
  locations that apply, each at its own column, and leaves every other line as it is; it yields no result
  when no location applies. The edit puts a colon in front of an equals sign, a space behind a number sign,
  or doubles the first equals sign from the column on.\<close>

theorem inserting_fixes_per_line:
  assumes "f \<in> {UseAssignmentOperator, NoWhitespaceComment, PreferEqualsComparison}"
    and "distinct (map l_row (ro_locations opts))"
    and "\<forall>loc\<in>set (ro_locations opts). row_ok loc (lines_of (cand_contents fc))"
  shows "apply_fix env f fc (Some opts) = Some (Inr (contents_result f opts
    (\<exists>loc\<in>set (ro_locations opts). applies (edit_of_fix f) (lines_of (cand_contents fc)) loc)
    (map (edited (edit_of_fix f) (ro_locations opts) (lines_of (cand_contents fc)))
      [0..<length (lines_of (cand_contents fc))])))"
  using assms(1) fix_locations_edited [OF _ assms(2,3), of assignment_step assignment_edit]
    fix_locations_edited [OF _ assms(2,3), of comment_step comment_edit]
    fix_locations_edited [OF _ assms(2,3), of equals_step equals_edit]
  by (elim insertE) (simp_all add: apply_fix_def location_fix_def edit_of_fix_def assignment_step_edit
      comment_step_edit equals_step_edit)

definition sample_location :: "int \<Rightarrow> int \<Rightarrow> location" where
  "sample_location row col = \<lparr>l_end = None, l_text = None, l_file = '''', l_col = col, l_row = row\<rparr>"

definition sample_opts :: "location list \<Rightarrow> runtime_options" where
  "sample_opts locs = \<lparr>ro_config = None, ro_base_dir = '''', ro_locations = locs, ro_client = IdentifierZed\<rparr>"

definition sample_fix_env :: "unit fix_env" where
  "sample_fix_env = \<lparr>parse_module_with_opts = \<lambda>v f p. Inr
     \<lparr>mod_package = [AVar ''data'', AStr ''p''], mod_imports = [], mod_version = v, mod_rest = ()\<rparr>,
     read_file = \<lambda>p. Inr '''', keys_sorted = \<lambda>ks. ks, format_ast = \<lambda>v m. Inr '''',
     term_string = \<lambda>t. case t of AStr s \<Rightarrow> CHR 0x22 # s @ [CHR 0x22] | _ \<Rightarrow> ''data''\<rparr>"

lemma inserting_fixes_per_line_witness:
  "apply_fix sample_fix_env UseAssignmentOperator
     \<lparr>cand_filename = ''p.rego'', cand_contents = ''a = 1'', cand_rego_version = RegoV1\<rparr>
     (Some (sample_opts [sample_location 1 3]))
   = Some (Inr [\<lparr>fr_rename = None, fr_title = ''use-assignment-operator'', fr_root = '''', fr_contents = ''a := 1''\<rparr>])"
  using inserting_fixes_per_line [of UseAssignmentOperator "sample_opts [sample_location 1 3]"
      "\<lparr>cand_filename = ''p.rego'', cand_contents = ''a = 1'', cand_rego_version = RegoV1\<rparr>" sample_fix_env]
  by (simp add: sample_opts_def sample_location_def row_ok_def edit_of_fix_def edited_def applies_def
      assignment_edit_def contents_result_def fix_name_def)

lemma safe_fixes_never_panic_witness:
  "\<exists>r. apply_fix sample_fix_env ConstantCondition
     \<lparr>cand_filename = ''p.rego'', cand_contents = ''a = 1'', cand_rego_version = RegoV1\<rparr>
     (Some (sample_opts [sample_location (- 7) 3])) = Some r"
  by (rule safe_fixes_never_panic) simp

section \<open>Cutting out locations\<close>

text \<open>Offsets into the text: row and column count from 0 here.\<close>

definition line_start :: "string list \<Rightarrow> nat \<Rightarrow> nat" where
  "line_start lines r = length (concat (map (\<lambda>l. l @ [newline]) (take r lines)))"

definition offset :: "string list \<Rightarrow> nat \<Rightarrow> nat \<Rightarrow> nat" where
  "offset lines r c = line_start lines r + c"

definition pos_ok :: "string list \<Rightarrow> nat \<Rightarrow> nat \<Rightarrow> bool" where
  "pos_ok lines r c \<longleftrightarrow> r < length lines \<and> c \<le> length (lines ! r)"

lemma join_lines_append:
  "ys \<noteq> [] \<Longrightarrow> join_lines (xs @ ys) = concat (map (\<lambda>l. l @ [newline]) xs) @ join_lines ys"
  by (induction xs) (auto simp: join_str_Cons)

lemma join_lines_prefix: "join_lines ((a @ b) # rest) = a @ join_lines (b # rest)"
  by (cases rest) auto

lemma offset_split:
  assumes "pos_ok lines r c"
  shows "take (offset lines r c) (join_lines lines) = concat (map (\<lambda>l. l @ [newline]) (take r lines)) @ take c (lines ! r)"
    and "drop (offset lines r c) (join_lines lines) = join_lines (drop c (lines ! r) # drop (Suc r) lines)"
    and "offset lines r c \<le> length (join_lines lines)"
proof -
  have r: "r < length lines" and c: "c \<le> length (lines ! r)" using assms by (auto simp: pos_ok_def)
  have "lines = take r lines @ (take c (lines ! r) @ drop c (lines ! r)) # drop (Suc r) lines"
    using r by (simp add: id_take_nth_drop)
  then have F: "join_lines lines = (concat (map (\<lambda>l. l @ [newline]) (take r lines)) @ take c (lines ! r))
      @ join_lines (drop c (lines ! r) # drop (Suc r) lines)"
    using join_lines_append [of "(take c (lines ! r) @ drop c (lines ! r)) # drop (Suc r) lines" "take r lines"]
    by (simp only: join_lines_prefix list.distinct not_False_eq_True append_assoc)
  have len: "length (concat (map (\<lambda>l. l @ [newline]) (take r lines)) @ take c (lines ! r)) = offset lines r c"
    using c by (simp add: offset_def line_start_def)
  show "take (offset lines r c) (join_lines lines) = concat (map (\<lambda>l. l @ [newline]) (take r lines)) @ take c (lines ! r)"
    "drop (offset lines r c) (join_lines lines) = join_lines (drop c (lines ! r) # drop (Suc r) lines)"
    "offset lines r c \<le> length (join_lines lines)"
    using c unfolding F len [symmetric] by (simp_all add: min_def)
qed

definition pos_le :: "nat \<Rightarrow> nat \<Rightarrow> nat \<Rightarrow> nat \<Rightarrow> bool" where
  "pos_le r c r' c' \<longleftrightarrow> r < r' \<or> (r = r' \<and> c \<le> c')"

lemma offset_mono:
  assumes "pos_ok lines r c" "pos_le r c r' c'" "r' < length lines"
  shows "offset lines r c \<le> offset lines r' c'"
proof (cases "r < r'")
  case True
  have "take r' lines = take r lines @ lines ! r # take (r' - Suc r) (drop (Suc r) lines)"
    using True assms(3) by (metis Suc_leI add_diff_inverse_nat append_Cons append_assoc append_eq_append_conv2
        less_trans take_Suc_conv_app_nth take_add not_less append.simps(1))
  then have "line_start lines r + length (lines ! r) + 1 \<le> line_start lines r'"
    by (simp add: line_start_def)
  then show ?thesis using assms(1) by (simp add: offset_def pos_ok_def)
next
  case False
  with assms(2) show ?thesis by (simp add: pos_le_def offset_def)
qed

text \<open>The lines agree with the original up to a position.\<close>

definition agree :: "string list \<Rightarrow> string list \<Rightarrow> nat \<Rightarrow> nat \<Rightarrow> bool" where
  "agree lines lines' r c \<longleftrightarrow> pos_ok lines r c \<and> pos_ok lines' r c \<and> take r lines' = take r lines
     \<and> take c (lines' ! r) = take c (lines ! r)"

lemma agree_below:
  assumes "agree lines lines' r c" "pos_ok lines r' c'" "pos_le r' c' r c"
  shows "agree lines lines' r' c'" and "offset lines' r' c' = offset lines r' c'"
proof -
  have t: "take r' lines' = take r' lines"
    using assms unfolding agree_def pos_le_def by (metis less_or_eq_imp_le min_def take_take)
  have "lines' ! r' = lines ! r' \<or> (r' = r \<and> c' \<le> c)"
    using assms unfolding agree_def pos_le_def by (metis nth_take)
  moreover have "take c' (take c xs) = take c' xs" if "c' \<le> c" for xs :: string using that by (simp add: min_def)
  ultimately have "take c' (lines' ! r') = take c' (lines ! r')"
    using assms(1) unfolding agree_def by metis
  moreover have "pos_ok lines' r' c'"
    using assms \<open>lines' ! r' = lines ! r' \<or> (r' = r \<and> c' \<le> c)\<close>
    by (auto simp: agree_def pos_ok_def pos_le_def)
  ultimately show "agree lines lines' r' c'" using assms(2) t by (simp add: agree_def)
  show "offset lines' r' c' = offset lines r' c'" by (simp add: offset_def line_start_def t)
qed

text \<open>A location that \<open>removeLocations\<close> accepts, with text between its start and its end.\<close>

definition srow :: "location \<Rightarrow> nat" where "srow l = nat (l_row l - 1)"
definition scol :: "location \<Rightarrow> nat" where "scol l = nat (l_col l - 1)"
definition erow :: "location \<Rightarrow> nat" where "erow l = nat (pos_row (the (l_end l)) - 1)"
definition ecol :: "location \<Rightarrow> nat" where "ecol l = nat (pos_col (the (l_end l)) - 1)"

definition removable :: "string list \<Rightarrow> location \<Rightarrow> bool" where
  "removable lines l \<longleftrightarrow> l_end l \<noteq> None \<and> 1 \<le> l_row l \<and> 1 \<le> l_col l \<and> 1 \<le> pos_row (the (l_end l))
     \<and> 1 \<le> pos_col (the (l_end l)) \<and> srow l < length lines \<and> scol l < length (lines ! srow l)
     \<and> pos_ok lines (erow l) (ecol l) \<and> pos_le (srow l) (Suc (scol l)) (erow l) (ecol l)"

definition span_of :: "string list \<Rightarrow> location \<Rightarrow> nat \<times> nat" where
  "span_of lines l = (offset lines (srow l) (scol l), offset lines (erow l) (ecol l))"

definition cut :: "string list \<Rightarrow> location \<Rightarrow> string list" where
  "cut lines l = take (srow l) lines
     @ (take (scol l) (lines ! srow l) @ drop (ecol l) (lines ! erow l)) # drop (Suc (erow l)) lines"

lemma remove_step_cut:
  assumes "removable lines l" shows "remove_step l lines = Some (cut lines l, True)"
proof -
  obtain e where e: "l_end l = Some e" using assms by (auto simp: removable_def)
  have rows: "l_row l - 1 = int (srow l)" "pos_row e - 1 = int (erow l)"
    and cols: "l_col l - 1 = int (scol l)" "pos_col e - 1 = int (ecol l)"
    using assms e by (auto simp: removable_def srow_def erow_def scol_def ecol_def)
  have ok: "srow l < length lines" "scol l < length (lines ! srow l)" "erow l < length lines"
    "ecol l \<le> length (lines ! erow l)" "srow l \<le> erow l"
    using assms by (auto simp: removable_def pos_ok_def pos_le_def)
  show ?thesis
    using ok unfolding remove_step_def e option.case Let_def rows cols
    by (simp add: idx_get_def slice_def cut_def nat_add_distrib)
qed

lemma cut_agree:
  assumes "removable lines l" shows "agree lines (cut lines l) (srow l) (scol l)"
  using assms by (auto simp: removable_def agree_def pos_ok_def cut_def nth_append min_def)

lemma cut_lines_join:
  assumes "removable lines l"
  shows "join_lines (cut lines l) = take (fst (span_of lines l)) (join_lines lines)
    @ drop (snd (span_of lines l)) (join_lines lines)"
proof -
  have "pos_ok lines (srow l) (scol l)" "pos_ok lines (erow l) (ecol l)"
    using assms by (auto simp: removable_def pos_ok_def)
  then show ?thesis
    using offset_split(1) [of lines "srow l" "scol l"] offset_split(2) [of lines "erow l" "ecol l"]
    by (simp add: span_of_def cut_def join_lines_append join_lines_prefix)
qed

text \<open>What is left of a text without some spans.\<close>

definition cut_spans :: "'a list \<Rightarrow> (nat \<times> nat) list \<Rightarrow> 'a list" where
  "cut_spans F spans = map ((!) F) (filter (\<lambda>i. \<forall>(s, e)\<in>set spans. \<not> (s \<le> i \<and> i < e)) [0..<length F])"

text \<open>One end of a location is not after the other's start.\<close>

definition apart :: "location \<Rightarrow> location \<Rightarrow> bool" where
  "apart a b \<longleftrightarrow> pos_le (erow a) (ecol a) (srow b) (scol b) \<or> pos_le (erow b) (ecol b) (srow a) (scol a)"

lemma removable_agree:
  assumes "removable lines l" "agree lines lines' r c" "pos_le (erow l) (ecol l) r c"
  shows "removable lines' l" and "span_of lines' l = span_of lines l"
proof -
  have e: "pos_ok lines (erow l) (ecol l)" and s: "pos_ok lines (srow l) (Suc (scol l))"
    and le: "pos_le (srow l) (Suc (scol l)) (erow l) (ecol l)"
    using assms(1) by (auto simp: removable_def pos_ok_def)
  from agree_below [OF assms(2) e assms(3)]
  have ae: "agree lines lines' (erow l) (ecol l)" "offset lines' (erow l) (ecol l) = offset lines (erow l) (ecol l)" .
  from agree_below [OF ae(1) s le]
  have as: "agree lines lines' (srow l) (Suc (scol l))"
    and "offset lines' (srow l) (Suc (scol l)) = offset lines (srow l) (Suc (scol l))" .
  then show "span_of lines' l = span_of lines l" using ae(2) by (simp add: span_of_def offset_def)
  show "removable lines' l"
    using assms(1) ae(1) as by (auto simp: removable_def agree_def pos_ok_def)
qed

lemma agree_trans:
  assumes "agree lines lines' r c" "agree lines' lines'' r' c'" "pos_le r' c' r c" "pos_ok lines r' c'"
  shows "agree lines lines'' r' c'"
  using agree_below(1) [OF assms(1,4,3)] assms(2) by (auto simp: agree_def)

lemma span_bounds:
  assumes "removable lines l"
  shows "fst (span_of lines l) < snd (span_of lines l)" "snd (span_of lines l) \<le> length (join_lines lines)"
proof -
  have e: "pos_ok lines (erow l) (ecol l)" and s: "pos_ok lines (srow l) (Suc (scol l))"
    and le: "pos_le (srow l) (Suc (scol l)) (erow l) (ecol l)" and er: "erow l < length lines"
    using assms by (auto simp: removable_def pos_ok_def)
  show "fst (span_of lines l) < snd (span_of lines l)"
    using offset_mono [OF s le er] by (simp add: span_of_def offset_def)
  show "snd (span_of lines l) \<le> length (join_lines lines)"
    using offset_split(3) [OF e] by (simp add: span_of_def)
qed

text \<open>What is kept of a text from an index on.\<close>

definition kept :: "'a list \<Rightarrow> (nat \<times> nat) set \<Rightarrow> nat \<Rightarrow> 'a list" where
  "kept F spans i = map ((!) F) (filter (\<lambda>j. \<forall>(s, e)\<in>spans. \<not> (s \<le> j \<and> j < e)) [i..<length F])"

lemma upt_split: "i \<le> j \<Longrightarrow> j \<le> k \<Longrightarrow> [i..<k] = [i..<j] @ [j..<k]"
  by (metis le_add_diff_inverse upt_add_eq_append)

lemma kept_cut:
  assumes "s < e" "e \<le> i" "i \<le> length F" "\<forall>(s', e')\<in>spans. i \<le> s'"
  shows "kept F (insert (s, e) spans) s = drop e (take i F) @ kept F spans i"
proof -
  let ?P = "\<lambda>j. \<forall>(s', e')\<in>insert (s, e) spans. \<not> (s' \<le> j \<and> j < e')"
  have split: "[s..<length F] = [s..<e] @ [e..<i] @ [i..<length F]"
    using assms upt_split [of s e "length F"] upt_split [of e i "length F"] by simp
  have a: "filter ?P [s..<e] = []" by (auto simp: filter_empty_conv)
  have b: "filter ?P [e..<i] = [e..<i]" using assms(4) by (fastforce intro!: filter_True)
  have c: "filter ?P [i..<length F] = filter (\<lambda>j. \<forall>(s', e')\<in>spans. \<not> (s' \<le> j \<and> j < e')) [i..<length F]"
    using assms(2) by (intro filter_cong) auto
  have d: "map ((!) F) [e..<i] = drop e (take i F)"
    using assms(3) by (intro nth_equalityI) auto
  show ?thesis unfolding kept_def split filter_append map_append a b c d by simp
qed

lemma take_agree:
  assumes "agree lines lines' r c"
  shows "take (offset lines r c) (join_lines lines') = take (offset lines r c) (join_lines lines)"
proof -
  have o: "offset lines' r c = offset lines r c"
    using agree_below(2) [OF assms, of r c] assms by (simp add: agree_def pos_le_def)
  show ?thesis
    using offset_split(1) [of lines r c] offset_split(1) [of lines' r c] assms unfolding o
    by (simp add: agree_def)
qed

text \<open>Cutting one location, when everything cut before lies behind position \<open>(r, c)\<close>.\<close>

lemma cut_next:
  assumes l: "removable lines l" and a: "agree lines lines' r c" and le: "pos_le (erow l) (ecol l) r c"
    and j: "join_lines lines' = take (offset lines r c) (join_lines lines) @ kept (join_lines lines) spans (offset lines r c)"
    and sp: "\<forall>(s, e)\<in>spans. offset lines r c \<le> s"
  shows "join_lines (cut lines' l) = take (fst (span_of lines l)) (join_lines lines)
      @ kept (join_lines lines) (insert (span_of lines l) spans) (fst (span_of lines l))"
    and "agree lines (cut lines' l) (srow l) (scol l)"
proof -
  let ?F = "join_lines lines" and ?o = "offset lines r c"
  obtain s e where se: "span_of lines l = (s, e)" by force
  have l': "removable lines' l" and sp': "span_of lines' l = (s, e)"
    using removable_agree [OF l a le] se by simp_all
  have b: "s < e" using span_bounds [OF l] se by simp
  have pe: "pos_ok lines (erow l) (ecol l)" using l by (simp add: removable_def)
  have rc: "pos_ok lines r c" using a by (simp add: agree_def)
  have eo: "e \<le> ?o" using offset_mono [OF pe le] rc se by (simp add: span_of_def pos_ok_def)
  have oF: "?o \<le> length ?F" by (rule offset_split(3) [OF rc])
  have "join_lines (cut lines' l) = take s (join_lines lines') @ drop e (join_lines lines')"
    using cut_lines_join [OF l'] sp' by simp
  also have "\<dots> = take s ?F @ drop e (take ?o ?F) @ kept ?F spans ?o"
    unfolding j using b eo oF by (simp add: min_def)
  finally show "join_lines (cut lines' l) = take (fst (span_of lines l)) ?F
      @ kept ?F (insert (span_of lines l) spans) (fst (span_of lines l))"
    using kept_cut [OF b eo oF sp] se by simp
  have "pos_ok lines (srow l) (scol l)" "pos_le (srow l) (scol l) r c"
    using l le by (auto simp: removable_def pos_ok_def pos_le_def)
  then show "agree lines (cut lines' l) (srow l) (scol l)"
    using agree_trans [OF a cut_agree [OF l']] by blast
qed

lemma remove_all:
  assumes "\<forall>l\<in>set ls. removable lines l"
    and "sorted_wrt (\<lambda>a b. pos_le (erow b) (ecol b) (srow a) (scol a)) ls"
    and "\<forall>l\<in>set ls. pos_le (erow l) (ecol l) r c" and "agree lines lines' r c"
    and "join_lines lines' = take (offset lines r c) (join_lines lines) @ kept (join_lines lines) spans (offset lines r c)"
    and "\<forall>(s, e)\<in>spans. offset lines r c \<le> s"
  shows "\<exists>lines'' n. fix_locations remove_step ls lines' fixed = Some (lines'', fixed \<or> ls \<noteq> []) \<and>
    n \<le> length (join_lines lines) \<and> (\<forall>(s, e)\<in>spans \<union> span_of lines ` set ls. n \<le> s) \<and>
    join_lines lines'' = take n (join_lines lines) @ kept (join_lines lines) (spans \<union> span_of lines ` set ls) n"
  using assms
proof (induction ls arbitrary: lines' r c spans fixed)
  case Nil
  then have "offset lines r c \<le> length (join_lines lines)"
    using offset_split(3) by (simp add: agree_def)
  with Nil show ?case by (intro exI [of _ lines'] exI [of _ "offset lines r c"]) simp
next
  case (Cons l ls)
  let ?s = "fst (span_of lines l)"
  have l: "removable lines l" "pos_le (erow l) (ecol l) r c" using Cons.prems by auto
  note next' = cut_next [OF l(1) Cons.prems(4) l(2) Cons.prems(5,6)]
  have s: "offset lines (srow l) (scol l) = ?s" by (simp add: span_of_def)
  have "snd (span_of lines l) \<le> offset lines r c"
    using offset_mono [of lines "erow l" "ecol l" r c] l Cons.prems(4)
    by (simp add: span_of_def agree_def pos_ok_def removable_def)
  then have sp: "\<forall>(s, e)\<in>insert (span_of lines l) spans. ?s \<le> s"
    using Cons.prems(6) span_bounds(1) [OF l(1)] by (auto simp: Ball_def split_beta)
  have step: "fix_locations remove_step (l # ls) lines' fixed
      = fix_locations remove_step ls (cut lines' l) True"
    using remove_step_cut [OF removable_agree(1) [OF l(1) Cons.prems(4) l(2)]] by simp
  from Cons.IH [of "srow l" "scol l" "cut lines' l" "insert (span_of lines l) spans" True]
  show ?case
    unfolding step using Cons.prems(1,2) next' sp unfolding s by simp
qed

lemma bottom_up_order:
  assumes "\<forall>l\<in>set locs. removable lines l" "distinct locs"
    and "\<forall>a\<in>set locs. \<forall>b\<in>set locs. a \<noteq> b \<longrightarrow> apart a b"
  shows "sorted_wrt (\<lambda>a b. pos_le (erow b) (ecol b) (srow a) (scol a)) (bottom_up locs)"
proof -
  have s: "sorted_wrt (\<lambda>a b. (- l_row a, - l_col a) \<le> (- l_row b, - l_col b)) (bottom_up locs)"
    using sorted_sort_key [of "\<lambda>l. (- l_row l, - l_col l)" locs] by (simp add: bottom_up_def sorted_map)
  have d: "distinct (bottom_up locs)" and set: "set (bottom_up locs) = set locs"
    using assms(2) by (simp_all add: bottom_up_def)
  from s d have "sorted_wrt (\<lambda>a b. (- l_row a, - l_col a) \<le> (- l_row b, - l_col b) \<and> a \<noteq> b) (bottom_up locs)"
    by (auto simp: sorted_wrt_iff_nth_less distinct_conv_nth)
  then show ?thesis
  proof (rule sorted_wrt_mono_rel [rotated])
    fix a b
    assume ab: "a \<in> set (bottom_up locs)" "b \<in> set (bottom_up locs)"
      and le: "(- l_row a, - l_col a) \<le> (- l_row b, - l_col b) \<and> a \<noteq> b"
    have ra: "removable lines a" and rb: "removable lines b" and "apart a b"
      using ab le assms(1,3) set by auto
    then show "pos_le (erow b) (ecol b) (srow a) (scol a)"
      using le unfolding apart_def removable_def pos_le_def srow_def scol_def
      by (auto simp: less_eq_prod_def)
  qed
qed

text \<open>C10. Cutting out locations is cutting out spans of the text. When every location lies inside the file,
  ends behind its start and overlaps no other, \<open>RedundantExistenceCheck\<close> and \<open>ConstantCondition\<close> leave
  exactly the bytes that no location covers, whatever the order of the locations, also where one line
  carries several locations and where a location spans several lines.\<close>

theorem removal_cuts_spans:
  assumes "f \<in> {RedundantExistenceCheck, ConstantCondition}"
    and "ro_locations opts = locs" "locs \<noteq> []" "distinct locs"
    and "\<forall>l\<in>set locs. removable (lines_of (cand_contents fc)) l"
    and "\<forall>a\<in>set locs. \<forall>b\<in>set locs. a \<noteq> b \<longrightarrow> apart a b"
  shows "apply_fix env f fc (Some opts) = Some (Inr [\<lparr>fr_rename = None, fr_title = fix_name f,
    fr_root = ro_base_dir opts,
    fr_contents = cut_spans (cand_contents fc) (map (span_of (lines_of (cand_contents fc))) locs)\<rparr>])"
proof -
  let ?lines = "lines_of (cand_contents fc)" and ?F = "cand_contents fc"
  let ?r = "length ?lines - 1"
  let ?c = "length (?lines ! ?r)"
  have r: "?r < length ?lines" by (simp add: length_split_byte)
  have end_ok: "pos_ok ?lines ?r ?c" using r by (simp add: pos_ok_def)
  have "offset ?lines ?r ?c = length ?F"
    using offset_split(2) [OF end_ok] offset_split(3) [OF end_ok] r by simp
  then have init: "join_lines ?lines = take (offset ?lines ?r ?c) (join_lines ?lines)
      @ kept (join_lines ?lines) {} (offset ?lines ?r ?c)" by (simp add: kept_def)
  have ends: "\<forall>l\<in>set (bottom_up locs). pos_le (erow l) (ecol l) ?r ?c"
  proof
    fix l
    assume "l \<in> set (bottom_up locs)"
    then have l: "pos_ok ?lines (erow l) (ecol l)" using assms(5) by (auto simp: bottom_up_def removable_def)
    then have "erow l < ?r \<or> erow l = ?r" by (auto simp: pos_ok_def)
    then show "pos_le (erow l) (ecol l) ?r ?c" using l by (auto simp: pos_ok_def pos_le_def)
  qed
  have ag: "agree ?lines ?lines ?r ?c" using end_ok by (simp add: agree_def)
  have set_bu: "set (bottom_up locs) = set locs" by (simp add: bottom_up_def)
  have ne: "bottom_up locs \<noteq> []"
    using assms(3) length_sort [of "\<lambda>l. (- l_row l, - l_col l)" locs] by (metis bottom_up_def length_0_conv)
  have rem: "\<forall>l\<in>set (bottom_up locs). removable ?lines l" using assms(5) unfolding set_bu .
  have none: "\<forall>(s, e)\<in>{}. offset ?lines ?r ?c \<le> s" by simp
  from remove_all [OF rem bottom_up_order [OF assms(5,4,6)] ends ag init none, of False]
  obtain lines'' n where "fix_locations remove_step (bottom_up locs) ?lines False
      = Some (lines'', False \<or> bottom_up locs \<noteq> []) \<and> n \<le> length (join_lines ?lines)
    \<and> (\<forall>(s, e)\<in>{} \<union> span_of ?lines ` set (bottom_up locs). n \<le> s)
    \<and> join_lines lines'' = take n (join_lines ?lines)
        @ kept (join_lines ?lines) ({} \<union> span_of ?lines ` set (bottom_up locs)) n" by (elim exE)
  then have res: "fix_locations remove_step (bottom_up locs) ?lines False = Some (lines'', True)"
    and n: "n \<le> length ?F" "\<forall>(s, e)\<in>span_of ?lines ` set locs. n \<le> s"
    and j: "join_lines lines'' = take n ?F @ kept ?F (span_of ?lines ` set locs) n"
    using ne unfolding set_bu by simp_all
  have "join_lines lines'' = cut_spans ?F (map (span_of ?lines) locs)"
  proof -
    let ?P = "\<lambda>i. \<forall>(s, e)\<in>span_of ?lines ` set locs. \<not> (s \<le> i \<and> i < e)"
    have "[0..<length ?F] = [0..<n] @ [n..<length ?F]" by (rule upt_split) (use n(1) in simp_all)
    moreover have "filter ?P [0..<n] = [0..<n]" using n(2) by (fastforce intro!: filter_True)
    moreover have "map ((!) ?F) [0..<n] = take n ?F" using n(1) by (intro nth_equalityI) auto
    ultimately show ?thesis unfolding j cut_spans_def kept_def by simp
  qed
  then show ?thesis
    using assms(1,2) res by (auto simp: apply_fix_def removal_fix_def remove_locations_def contents_result_def)
qed

definition sample_span :: "int \<Rightarrow> int \<Rightarrow> int \<Rightarrow> int \<Rightarrow> location" where
  "sample_span row col row' col' = \<lparr>l_end = Some \<lparr>pos_row = row', pos_col = col'\<rparr>, l_text = None,
     l_file = '''', l_col = col, l_row = row\<rparr>"

lemma removal_cuts_spans_witness:
  "apply_fix sample_fix_env ConstantCondition
     \<lparr>cand_filename = ''p.rego'', cand_contents = ''abcdef'', cand_rego_version = RegoV1\<rparr>
     (Some (sample_opts [sample_span 1 1 1 2, sample_span 1 4 1 6]))
   = Some (Inr [\<lparr>fr_rename = None, fr_title = ''constant-condition'', fr_root = '''', fr_contents = ''bcf''\<rparr>])"
proof -
  let ?fc = "\<lparr>cand_filename = ''p.rego'', cand_contents = ''abcdef'', cand_rego_version = RegoV1\<rparr>"
  let ?locs = "[sample_span 1 1 1 2, sample_span 1 4 1 6]"
  have "apply_fix sample_fix_env ConstantCondition ?fc (Some (sample_opts ?locs))
    = Some (Inr [\<lparr>fr_rename = None, fr_title = fix_name ConstantCondition, fr_root = ro_base_dir (sample_opts ?locs),
        fr_contents = cut_spans (cand_contents ?fc) (map (span_of (lines_of (cand_contents ?fc))) ?locs)\<rparr>])"
    by (rule removal_cuts_spans)
      (simp_all add: sample_opts_def sample_span_def removable_def apart_def pos_ok_def pos_le_def
        srow_def scol_def erow_def ecol_def)
  moreover have "map (span_of (lines_of (cand_contents ?fc))) ?locs = [(0, 1), (3, 5)]"
    by (simp add: span_of_def offset_def line_start_def sample_span_def srow_def scol_def erow_def ecol_def)
  moreover have "cut_spans ''abcdef'' [(0, 1), (3, 5)] = ''bcf''"
    by (simp add: cut_spans_def upt_rec)
  ultimately show ?thesis by (simp add: fix_name_def sample_opts_def)
qed

section \<open>Raw regex patterns: two on a line\<close>

text \<open>Two patterns on one line, both reported by the linter with their columns in the line as it is: the
  first one becomes shorter, so the columns of the second no longer meet its quotes, and only its escapes
  are halved. What is left, a double-quoted string with \<open>\d\<close>, is not valid Rego.\<close>

definition raw_line :: string where
  "raw_line = ''f('' @ [CHR 0x22, backslash, backslash, CHR ''d'', CHR 0x22] @ '', ''
     @ [CHR 0x22, backslash, backslash, CHR ''d'', CHR 0x22] @ '')''"

lemma char_of_values:
  "char_of (102 :: nat) = CHR ''f''" "char_of (40 :: nat) = CHR ''(''" "char_of (34 :: nat) = CHR 0x22"
  "char_of (92 :: nat) = backslash" "char_of (100 :: nat) = CHR ''d''" "char_of (44 :: nat) = CHR '',''"
  "char_of (32 :: nat) = CHR '' ''" "char_of (41 :: nat) = CHR '')''" "char_of (96 :: nat) = CHR 0x60"
  by code_simp+

lemma runes_of_raw_line:
  "runes_of raw_line = [102, 40, 34, 92, 92, 100, 34, 44, 32, 34, 92, 92, 100, 34, 41]"
  by (simp add: raw_line_def decode_rune_def)

lemmas raw_regex_eval = runes_of_raw_line decode_rune_def string_of_runes_def encode_rune_def char_of_values
  replace_all.simps quote_rune_def backtick_rune_def

lemma raw_regex_second_pattern:
  "fix_locations raw_regex_step [sample_span 1 3 1 8, sample_span 1 10 1 15] [raw_line] False
     = Some ([''f('' @ [CHR 0x60, backslash, CHR ''d'', CHR 0x60] @ '', ''
        @ [CHR 0x22, backslash, CHR ''d'', CHR 0x22] @ '')''], True)"
  by (simp add: raw_regex_step_def sample_span_def idx_get_def idx_set_def slice_def raw_regex_eval)

text \<open>\<open>NonRawRegexPattern\<close> panics on a location without an end, and, because it compares the index of
  the closing quote with the length of the line by \<open>>\<close>, on one whose closing quote would stand right behind
  the line.\<close>

theorem raw_regex_panics:
  assumes "ro_locations opts = loc # locs" "row_ok loc (lines_of (cand_contents fc))"
    and "l_end loc = None \<or> (1 \<le> l_col loc \<and> l_col loc \<le> int (length line)
      \<and> pos_col (the (l_end loc)) - 2 = int (length line))"
    and "line = runes_of (lines_of (cand_contents fc) ! nat (l_row loc - 1))"
  shows "apply_fix env NonRawRegexPattern fc (Some opts) = None"
proof -
  have "raw_regex_step loc (lines_of (cand_contents fc)) = None"
  proof (cases "l_end loc")
    case None
    then show ?thesis by (simp add: raw_regex_step_def idx_get_def split: option.splits)
      (use assms(2) in \<open>auto simp: row_ok_def\<close>)
  next
    case (Some e)
    have row: "idx_get (lines_of (cand_contents fc)) (l_row loc - 1)
        = Some (lines_of (cand_contents fc) ! nat (l_row loc - 1))"
      using assms(2) by (simp add: idx_get_def row_ok_def)
    have col: "0 \<le> l_col loc - 1" "l_col loc - 1 < int (length line)" "pos_col e - 2 = int (length line)"
      using assms(3) Some by auto
    have out: "idx_get xs (int (length line)) = None" if "length xs = length line" for xs :: "nat list"
      using that by (simp add: idx_get_def)
    show ?thesis
      using assms(2) row col Some out [of line] out [of "line[nat (l_col loc - 1) := backtick_rune]"]
      by (simp add: raw_regex_step_def row_ok_def Let_def assms(4) [symmetric] idx_get_Some idx_set_Some)
  qed
  then show ?thesis using assms(1) by (simp add: apply_fix_def location_fix_None)
qed

lemma raw_regex_panics_witness:
  "apply_fix sample_fix_env NonRawRegexPattern
     \<lparr>cand_filename = ''p.rego'', cand_contents = ''ab'', cand_rego_version = RegoV1\<rparr>
     (Some (sample_opts [sample_span 1 1 1 4])) = None"
proof -
  let ?fc = "\<lparr>cand_filename = ''p.rego'', cand_contents = ''ab'', cand_rego_version = RegoV1\<rparr>"
  let ?loc = "sample_span 1 1 1 4"
  have l: "lines_of (cand_contents ?fc) = [''ab'']" by simp
  have r: "runes_of ''ab'' = [97, 98]" by (simp add: decode_rune_def)
  have row: "row_ok ?loc (lines_of (cand_contents ?fc))" unfolding l by (simp add: row_ok_def sample_span_def)
  have line: "[97, 98] = runes_of (lines_of (cand_contents ?fc) ! nat (l_row ?loc - 1))"
    unfolding l by (simp add: sample_span_def r [symmetric] del: runes_of.simps)
  show ?thesis
    by (rule raw_regex_panics [OF _ row _ line, of _ "[]"]) (simp_all add: sample_opts_def sample_span_def)
qed

section \<open>Moving to the directory of the package\<close>

definition target_names :: "bool \<Rightarrow> string list \<Rightarrow> string list" where
  "target_names exclude ts = filter (\<lambda>e. e \<noteq> [])
     (if ts = [] then [] else butlast ts @ [if exclude then trim_suffix (last ts) ''_test'' else last ts])"

lemma package_parts_regular:
  "\<forall>t\<in>set ts. regular_name t \<Longrightarrow> package_parts exclude ts
     = Inr (if ts = [] then [] else butlast ts @ [if exclude then trim_suffix (last ts) ''_test'' else last ts])"
  by (induction ts) auto

lemma name_start_plain: "name_start c \<Longrightarrow> c \<noteq> sep \<and> c \<noteq> CHR ''.''"
proof -
  have n: "name_start sep = False" "name_start CHR ''.'' = False" by (simp_all add: name_start_def less_eq_char_def)
  assume c: "name_start c"
  show ?thesis using c n by blast
qed

lemma digit_plain: "is_digit c \<Longrightarrow> c \<noteq> sep \<and> c \<noteq> CHR ''.''"
  by (auto simp: is_digit_def)

lemma regular_elem:
  assumes "regular_name t" "t = p @ q" "p \<noteq> []"
  shows "elem_ok p \<and> p \<noteq> ''..''"
proof -
  obtain c cs where t: "t = c # cs" "name_start c" "\<forall>d\<in>set cs. name_start d \<or> is_digit d \<or> d = CHR ''-''"
    using assms(1) by (auto simp: regular_name_def list_all_iff split: list.splits)
  have "\<forall>d\<in>set t. d \<noteq> sep \<and> d \<noteq> CHR ''.''"
  proof
    fix d
    assume "d \<in> set t"
    then consider "name_start d" | "is_digit d" | "d = CHR ''-''" using t by auto
    then show "d \<noteq> sep \<and> d \<noteq> CHR ''.''"
      by cases (simp_all add: name_start_plain digit_plain)
  qed
  then have p: "\<forall>d\<in>set p. d \<noteq> sep \<and> d \<noteq> CHR ''.''" using assms(2) by simp
  then have "sep \<notin> set p" by blast
  moreover have "hd p \<noteq> CHR ''.''" using p assms(3) by (metis list.set_sel(1))
  ultimately show ?thesis using assms(3) by (auto simp: elem_ok_def)
qed

lemma target_names_ok:
  assumes "\<forall>t\<in>set ts. regular_name t" "e \<in> set (target_names exclude ts)"
  shows "elem_ok e \<and> e \<noteq> ''..''"
proof (cases "ts = []")
  case True
  with assms(2) show ?thesis by (simp add: target_names_def)
next
  case False
  have "\<exists>t\<in>set ts. \<exists>q. t = e @ q"
  proof (cases "e \<in> set (butlast ts)")
    case True
    then show ?thesis by (intro bexI [of _ e]) (auto dest: in_set_butlastD)
  next
    case out: False
    have "e \<in> set (butlast ts @ [if exclude then trim_suffix (last ts) ''_test'' else last ts])"
      using assms(2) False unfolding target_names_def set_filter by simp
    with out have "e = (if exclude then trim_suffix (last ts) ''_test'' else last ts)" by simp
    then have "\<exists>q. last ts = e @ q"
      by (auto simp: trim_suffix_def split: if_splits) (metis append_take_drop_id)
    then show ?thesis using False last_in_set by blast
  qed
  moreover have "e \<noteq> []" using assms(2) by (auto simp: target_names_def)
  ultimately show ?thesis using regular_elem assms(1) by blast
qed

lemma clean_elems_filter: "clean_elems r es = clean_elems r (filter (\<lambda>e. e \<noteq> []) es)"
proof -
  have "foldl (clean_step r) st es = foldl (clean_step r) st (filter (\<lambda>e. e \<noteq> []) es)" for st
    by (induction es arbitrary: st) (auto simp: clean_step_def)
  then show ?thesis by (simp add: clean_elems_def)
qed

lemma split_join_filter:
  "\<forall>x\<in>set xs. sep \<notin> set x \<Longrightarrow>
     filter (\<lambda>e. e \<noteq> []) (split_byte sep (join_str ''/'' xs)) = filter (\<lambda>e. e \<noteq> []) xs"
  by (cases "xs = []") (auto simp: split_join)

lemma clean_rooted_list: "\<forall>e\<in>set es. elem_ok e \<and> e \<noteq> ''..'' \<Longrightarrow> clean_list True es"
proof (induction es rule: rev_induct)
  case Nil
  then show ?case by simp
next
  case (snoc e es)
  then show ?case by (simp add: clean_list_snoc)
qed

lemma rooted_list_clean: "clean_list True es \<Longrightarrow> \<forall>e\<in>set es. elem_ok e \<and> e \<noteq> ''..''"
proof (induction es rule: rev_induct)
  case Nil
  then show ?case by simp
next
  case (snoc e es)
  then show ?case by (auto simp: clean_list_snoc)
qed

text \<open>Joining elements some of which may be empty.\<close>

lemma fp_join_names:
  assumes "\<forall>x\<in>set xs. x = [] \<or> elem_ok x \<and> x \<noteq> ''..''"
  shows "filter (\<lambda>e. e \<noteq> []) (split_byte sep (fp_join xs)) = filter (\<lambda>e. e \<noteq> []) xs"
    and "fp_join xs = '''' \<longleftrightarrow> filter (\<lambda>e. e \<noteq> []) xs = []"
proof -
  let ?ys = "dropWhile (\<lambda>e. e = []) xs" and ?es = "filter (\<lambda>e. e \<noteq> []) xs"
  have free: "\<forall>x\<in>set xs. sep \<notin> set x"
  proof
    fix x
    assume "x \<in> set xs"
    then have "x = [] \<or> elem_ok x" using assms by blast
    then show "sep \<notin> set x" by (auto simp: elem_ok_def)
  qed
  have f: "filter (\<lambda>e. e \<noteq> []) ?ys = ?es" by (induction xs) auto
  have ok: "\<forall>e\<in>set ?es. elem_ok e \<and> e \<noteq> ''..''" using assms by auto
  have es: "clean_list True ?es" by (rule clean_rooted_list [OF ok])
  have rel: "clean_list False ?es"
  proof -
    have "clean_stack True st \<Longrightarrow> \<forall>e\<in>set st. e \<noteq> ''..'' \<Longrightarrow> clean_stack False st" for st
      by (induction st) auto
    then show ?thesis using es ok by (simp add: clean_list_def)
  qed
  have "filter (\<lambda>e. e \<noteq> []) (split_byte sep (fp_join xs)) = ?es \<and> (fp_join xs = '''' \<longleftrightarrow> ?es = [])"
  proof (cases ?ys)
    case Nil
    then have "?es = []" using f by simp
    moreover have "fp_join xs = []" unfolding fp_join_def Nil by simp
    ultimately show ?thesis by simp
  next
    case (Cons y ys)
    have y: "y \<noteq> []" using hd_dropWhile [of "\<lambda>e. e = []" xs] Cons by simp
    then have ne: "?es \<noteq> []" using f Cons by auto
    have yfree: "\<forall>x\<in>set ?ys. sep \<notin> set x" using free by (auto dest: set_dropWhileD)
    have "\<not> fp_is_abs (join_str ''/'' ?ys)"
      using y yfree Cons by (cases ys; cases y) (auto simp: fp_is_abs_def)
    then have "fp_join xs = unclean False (clean_elems False (split_byte sep (join_str ''/'' ?ys)))"
      using Cons by (simp add: fp_join_def fp_clean_def)
    also have "\<dots> = unclean False ?es"
      using clean_elems_filter [of False "split_byte sep (join_str ''/'' ?ys)"] split_join_filter [OF yfree] f
        clean_elems_fixed [OF rel] by simp
    finally have j: "fp_join xs = join_str ''/'' ?es" using ne by (simp add: unclean_def)
    have okes: "\<forall>e\<in>set ?es. elem_ok e" using ok by blast
    have "join_str ''/'' ?es \<noteq> []"
      using ne okes by (cases ?es; cases "tl ?es") (auto simp: elem_ok_def)
    then show ?thesis using j ne split_join_sep [OF ne okes] by simp
  qed
  then show "filter (\<lambda>e. e \<noteq> []) (split_byte sep (fp_join xs)) = ?es" "fp_join xs = '''' \<longleftrightarrow> ?es = []" by auto
qed

lemma fp_join_target:
  assumes "clean_list True rs" "\<forall>x\<in>set xs. x = [] \<or> elem_ok x \<and> x \<noteq> ''..''" "elem_ok f" "f \<noteq> ''..''"
  shows "fp_join [rooted rs, fp_join xs, f] = rooted (rs @ filter (\<lambda>e. e \<noteq> []) xs @ [f])"
proof -
  let ?es = "rs @ filter (\<lambda>e. e \<noteq> []) xs @ [f]"
  have "clean_list True ?es"
    using clean_rooted_list [of ?es] rooted_list_clean [OF assms(1)] assms(2-4) by auto
  moreover have "filter (\<lambda>e. e \<noteq> []) (split_byte sep (join_str ''/'' rs @ sep # fp_join xs @ sep # f)) = ?es"
    using split_join_filter [of rs] fp_join_names(1) [OF assms(2)] clean_list_ok [OF assms(1)] assms(3)
    by (simp add: split_byte_sep split_byte_no_sep elem_ok_def filter_id_conv)
  moreover have "fp_join [rooted rs, fp_join xs, f] = fp_clean (sep # join_str ''/'' rs @ sep # fp_join xs @ sep # f)"
  proof -
    have "fp_join (rooted rs # zs) = fp_clean (join_str ''/'' (rooted rs # zs))" for zs
      by (simp add: fp_join_def unclean_def)
    then show ?thesis by (simp add: unclean_def)
  qed
  ultimately show ?thesis
    using clean_elems_filter [of True "split_byte sep (join_str ''/'' rs @ sep # fp_join xs @ sep # f)"]
      clean_elems_fixed [of True ?es]
    by (simp add: fp_clean_rooted)
qed

lemma fp_base_rooted:
  assumes "clean_list True (ds @ [f])" shows "fp_base (rooted (ds @ [f])) = f"
proof -
  have f: "f \<noteq> []" "sep \<notin> set f" using assms by (auto simp: clean_list_snoc elem_ok_def)
  obtain pre where p: "rooted (ds @ [f]) = pre @ sep # f"
    by (cases "ds = []") (auto simp: unclean_def join_str_append)
  have "last f \<noteq> sep" using f by (metis last_in_set)
  then obtain c f' where l: "rev f = c # f'" "c \<noteq> sep" using f(1) by (metis hd_rev list.exhaust list.sel(1) rev_is_Nil_conv)
  then have strip: "dropWhile (\<lambda>c. c = sep) (rev (pre @ sep # f)) = rev (pre @ sep # f)" by simp
  have "snd (fp_split (pre @ sep # f)) = f"
    using f(2) by (simp add: fp_split_def last_index_byte_def index_byte_append nat_add_distrib)
  then show ?thesis unfolding fp_base_def p strip by (simp add: Let_def)
qed

text \<open>For a file and a root given by clean absolute paths, \<open>DirectoryPackageMismatch\<close> moves the file to
  the directory that the package names spell below the root, keeping its base name, and does nothing when
  it is there already; applied again at the new place, to the same package, it does nothing.\<close>

theorem mismatch_fix_settles:
  assumes "clean_list True (ds @ [f])" "cand_filename fc = rooted (ds @ [f])"
    and "clean_list True rs" "ro_base_dir opts = rooted rs"
    and "candidate_module env fc = Inr m" "mod_package m = h # path"
    and "ts = map (\<lambda>part. trim_byte (term_string env part) CHR 0x22) path" "\<forall>t\<in>set ts. regular_name t"
    and "target = rooted (rs @ target_names (should_exclude_test_suffix (ro_config opts)) ts @ [f])"
    and "candidate_module env (fc\<lparr>cand_filename := target\<rparr>) = Inr m'" "mod_package m' = mod_package m"
  shows "apply_fix env DirectoryPackageMismatch fc (Some opts) = Some (Inr (if target = cand_filename fc then []
      else [\<lparr>fr_rename = Some \<lparr>rn_from = cand_filename fc, rn_to = target\<rparr>,
        fr_title = ''directory-package-mismatch'', fr_root = rooted rs, fr_contents = cand_contents fc\<rparr>]))
    \<and> apply_fix env DirectoryPackageMismatch (fc\<lparr>cand_filename := target\<rparr>) (Some opts) = Some (Inr [])"
proof -
  let ?ex = "should_exclude_test_suffix (ro_config opts)"
  let ?xs = "if ts = [] then [] else butlast ts @ [if ?ex then trim_suffix (last ts) ''_test'' else last ts]"
  have f: "elem_ok f" "f \<noteq> ''..''" using assms(1) by (simp_all add: clean_list_snoc)
  have xs: "\<forall>x\<in>set ?xs. x = [] \<or> elem_ok x \<and> x \<noteq> ''..''"
  proof
    fix x
    assume x: "x \<in> set ?xs"
    show "x = [] \<or> elem_ok x \<and> x \<noteq> ''..''"
    proof (cases "x = []")
      case False
      with x have "x \<in> set (target_names ?ex ts)" unfolding target_names_def set_filter by blast
      then show ?thesis using target_names_ok [OF assms(8)] by blast
    qed simp
  qed
  have join: "fp_join [rooted rs, fp_join ?xs, f] = target"
    unfolding assms(9) target_names_def by (rule fp_join_target [OF assms(3) xs f])
  have "clean_list True ((rs @ target_names ?ex ts) @ [f])"
    using clean_rooted_list [of "(rs @ target_names ?ex ts) @ [f]"] rooted_list_clean [OF assms(3)]
      target_names_ok [OF assms(8)] f by auto
  then have base': "fp_base target = f" unfolding assms(9) using fp_base_rooted by fastforce
  have base: "fp_base (cand_filename fc) = f" unfolding assms(2) by (rule fp_base_rooted [OF assms(1)])
  have root: "fp_clean (if ro_base_dir opts \<noteq> '''' then ro_base_dir opts else fp_dir p) = rooted rs" for p
    using fp_clean_unclean [OF assms(3)] assms(4) by (simp add: unclean_def)
  have pkg: "get_package_path_directory env fc (ro_config opts) = Some (Inr (fp_join ?xs))"
    "get_package_path_directory env (fc\<lparr>cand_filename := target\<rparr>) (ro_config opts) = Some (Inr (fp_join ?xs))"
    using package_parts_regular [OF assms(8), of ?ex] assms(5,6,7,10,11)
    by (simp_all add: get_package_path_directory_def)
  show ?thesis
    unfolding apply_fix_def fix_kind.case mismatch_fix_def
    by (simp add: pkg base base' root join Let_def fix_name_def)
qed

lemma mismatch_fix_settles_witness:
  "apply_fix sample_fix_env DirectoryPackageMismatch
     \<lparr>cand_filename = ''/ws/x/a.rego'', cand_contents = ''package p'', cand_rego_version = RegoV1\<rparr>
     (Some ((sample_opts [])\<lparr>ro_base_dir := ''/ws''\<rparr>))
   = Some (Inr [\<lparr>fr_rename = Some \<lparr>rn_from = ''/ws/x/a.rego'', rn_to = ''/ws/p/a.rego''\<rparr>,
        fr_title = ''directory-package-mismatch'', fr_root = ''/ws'', fr_contents = ''package p''\<rparr>])"
proof -
  let ?fc = "\<lparr>cand_filename = ''/ws/x/a.rego'', cand_contents = ''package p'', cand_rego_version = RegoV1\<rparr>"
  let ?opts = "(sample_opts [])\<lparr>ro_base_dir := ''/ws''\<rparr>"
  let ?m = "\<lparr>mod_package = [AVar ''data'', AStr ''p''], mod_imports = [], mod_version = RegoV1, mod_rest = ()\<rparr>"
  have m: "candidate_module sample_fix_env (?fc\<lparr>cand_filename := q\<rparr>) = Inr ?m" for q
    by (simp add: candidate_module_def module_with_opts_def sample_fix_env_def rules_env.truncate_def)
  have m0: "candidate_module sample_fix_env ?fc = Inr ?m" using m [of "''/ws/x/a.rego''"] by simp
  have c: "clean_list True ([''ws'', ''x''] @ [''a.rego''])" "clean_list True [''ws'']"
    by (simp_all add: clean_list_def elem_ok_def)
  have ts: "[''p''] = map (\<lambda>part. trim_byte (term_string sample_fix_env part) CHR 0x22) [AStr ''p'']"
    by (simp add: sample_fix_env_def trim_byte_def)
  have reg: "\<forall>t\<in>set [''p'']. regular_name t" by (simp add: regular_name_def name_start_def less_eq_char_def)
  have tgt: "''/ws/p/a.rego'' = rooted ([''ws''] @ target_names (should_exclude_test_suffix (ro_config ?opts)) [''p''] @ [''a.rego''])"
    by (simp add: target_names_def trim_suffix_def has_suffix_def unclean_def)
  show ?thesis
    using mismatch_fix_settles [OF c(1) _ c(2) _ m0 _ ts reg tgt m]
    by (simp add: unclean_def)
qed

end
