(* ===== verification/Lsp_Cache.thy ===== *)
theory Lsp_Cache
  imports Kv_Store Lsp_Types
begin

text \<open>
  \<open>internal/lsp/cache/cache.go\<close>: what the language server remembers of every file, six concurrent maps
  keyed by URI. A parsed module is OPA's, a type parameter; reading a file is the parameter
  \<open>read_file\<close>. Each method makes one or several atomic calls on the maps; a method that makes several
  is the composition of those steps. A nil slice and an empty one are both \<open>[]\<close>.
\<close>

section \<open>State and operations\<close>

record 'm lsp_cache =
  fileContents :: "(string, string) gomap"
  ignoredFileContents :: "(string, string) gomap"
  modules :: "(string, 'm) gomap"
  diagnosticsFile :: "(string, diagnostic list) gomap"
  diagnosticsParseErrors :: "(string, diagnostic list) gomap"
  successfulParseLineCounts :: "(string, nat) gomap"

definition new_lsp_cache :: "'m lsp_cache" where
  "new_lsp_cache = \<lparr>fileContents = cm_map_of [], ignoredFileContents = cm_map_of [], modules = cm_map_of [],
     diagnosticsFile = cm_map_of [], diagnosticsParseErrors = cm_map_of [],
     successfulParseLineCounts = cm_map_of []\<rparr>"

definition get_all_files :: "'m lsp_cache \<Rightarrow> (string, string) gomap" where
  "get_all_files c = cm_clone (fileContents c)"

definition get_file_contents :: "'m lsp_cache \<Rightarrow> string \<Rightarrow> string option" where
  "get_file_contents c uri = cm_get (fileContents c) uri"

definition has_file_contents :: "'m lsp_cache \<Rightarrow> string \<Rightarrow> bool" where
  "has_file_contents c uri = (cm_get (fileContents c) uri \<noteq> None)"

definition set_file_contents :: "'m lsp_cache \<Rightarrow> string \<Rightarrow> string \<Rightarrow> 'm lsp_cache" where
  "set_file_contents c uri content = c\<lparr>fileContents := cm_set (fileContents c) uri content\<rparr>"

definition get_ignored_file_contents :: "'m lsp_cache \<Rightarrow> string \<Rightarrow> string option" where
  "get_ignored_file_contents c uri = cm_get (ignoredFileContents c) uri"

definition set_ignored_file_contents :: "'m lsp_cache \<Rightarrow> string \<Rightarrow> string \<Rightarrow> 'm lsp_cache" where
  "set_ignored_file_contents c uri content =
     c\<lparr>ignoredFileContents := cm_set (ignoredFileContents c) uri content\<rparr>"

definition get_all_ignored_files :: "'m lsp_cache \<Rightarrow> (string, string) gomap" where
  "get_all_ignored_files c = cm_clone (ignoredFileContents c)"

definition clear_ignored_file_contents :: "'m lsp_cache \<Rightarrow> string \<Rightarrow> 'm lsp_cache" where
  "clear_ignored_file_contents c uri = c\<lparr>ignoredFileContents := cm_delete (ignoredFileContents c) uri\<rparr>"

definition get_all_modules :: "'m lsp_cache \<Rightarrow> (string, 'm) gomap" where
  "get_all_modules c = cm_clone (modules c)"

definition get_module :: "'m lsp_cache \<Rightarrow> string \<Rightarrow> 'm option" where
  "get_module c uri = cm_get (modules c) uri"

definition set_module :: "'m lsp_cache \<Rightarrow> string \<Rightarrow> 'm \<Rightarrow> 'm lsp_cache" where
  "set_module c uri m = c\<lparr>modules := cm_set (modules c) uri m\<rparr>"

definition get_content_and_module :: "'m lsp_cache \<Rightarrow> string \<Rightarrow> (string \<times> 'm) option" where
  "get_content_and_module c uri =
     (case get_file_contents c uri of
        Some content \<Rightarrow> (case get_module c uri of Some m \<Rightarrow> Some (content, m) | None \<Rightarrow> None)
      | None \<Rightarrow> None)"

definition cache_rename :: "'m lsp_cache \<Rightarrow> string \<Rightarrow> string \<Rightarrow> 'm lsp_cache" where
  "cache_rename c oldKey newKey =
     \<lparr>fileContents = cm_rename_key (fileContents c) oldKey newKey,
      ignoredFileContents = cm_rename_key (ignoredFileContents c) oldKey newKey,
      modules = cm_rename_key (modules c) oldKey newKey,
      diagnosticsFile = cm_rename_key (diagnosticsFile c) oldKey newKey,
      diagnosticsParseErrors = cm_rename_key (diagnosticsParseErrors c) oldKey newKey,
      successfulParseLineCounts = cm_rename_key (successfulParseLineCounts c) oldKey newKey\<rparr>"

definition get_file_diagnostics :: "'m lsp_cache \<Rightarrow> string \<Rightarrow> diagnostic list option" where
  "get_file_diagnostics c uri = cm_get (diagnosticsFile c) uri"

definition set_file_diagnostics :: "'m lsp_cache \<Rightarrow> string \<Rightarrow> diagnostic list \<Rightarrow> 'm lsp_cache" where
  "set_file_diagnostics c uri diags = c\<lparr>diagnosticsFile := cm_set (diagnosticsFile c) uri diags\<rparr>"

text \<open>The transformer of \<open>SetFileDiagnosticsForRules\<close>: the diagnostics of other rules, in their order,
  then the new ones.\<close>

definition replace_rules :: "string list \<Rightarrow> diagnostic list \<Rightarrow> diagnostic list \<Rightarrow> diagnostic list" where
  "replace_rules rls diags current =
     (let ruleKeys = new_set rls
      in filter (\<lambda>d. \<not> set_contains ruleKeys [Code d]) current @ diags)"

definition set_file_diagnostics_for_rules :: "'m lsp_cache \<Rightarrow> string \<Rightarrow> string list \<Rightarrow> diagnostic list
    \<Rightarrow> 'm lsp_cache" where
  "set_file_diagnostics_for_rules c uri rls diags =
     c\<lparr>diagnosticsFile := cm_update_value (diagnosticsFile c) [] uri (replace_rules rls diags)\<rparr>"

definition clear_file_diagnostics :: "'m lsp_cache \<Rightarrow> 'm lsp_cache" where
  "clear_file_diagnostics c = c\<lparr>diagnosticsFile := cm_clear (diagnosticsFile c)\<rparr>"

definition get_parse_errors :: "'m lsp_cache \<Rightarrow> string \<Rightarrow> diagnostic list option" where
  "get_parse_errors c uri = cm_get (diagnosticsParseErrors c) uri"

definition set_parse_errors :: "'m lsp_cache \<Rightarrow> string \<Rightarrow> diagnostic list \<Rightarrow> 'm lsp_cache" where
  "set_parse_errors c uri diags = c\<lparr>diagnosticsParseErrors := cm_set (diagnosticsParseErrors c) uri diags\<rparr>"

definition get_successful_parse_line_count :: "'m lsp_cache \<Rightarrow> string \<Rightarrow> nat option" where
  "get_successful_parse_line_count c uri = cm_get (successfulParseLineCounts c) uri"

definition set_successful_parse_line_count :: "'m lsp_cache \<Rightarrow> string \<Rightarrow> nat \<Rightarrow> 'm lsp_cache" where
  "set_successful_parse_line_count c uri count =
     c\<lparr>successfulParseLineCounts := cm_set (successfulParseLineCounts c) uri count\<rparr>"

definition cache_delete :: "'m lsp_cache \<Rightarrow> string \<Rightarrow> 'm lsp_cache" where
  "cache_delete c uri =
     \<lparr>fileContents = cm_delete (fileContents c) uri,
      ignoredFileContents = cm_delete (ignoredFileContents c) uri,
      modules = cm_delete (modules c) uri,
      diagnosticsFile = cm_delete (diagnosticsFile c) uri,
      diagnosticsParseErrors = cm_delete (diagnosticsParseErrors c) uri,
      successfulParseLineCounts = cm_delete (successfulParseLineCounts c) uri\<rparr>"

definition update_for_uri_from_disk :: "(string \<Rightarrow> 'e + string) \<Rightarrow> 'm lsp_cache \<Rightarrow> string \<Rightarrow> string
    \<Rightarrow> 'm lsp_cache \<times> ('e + bool \<times> string)" where
  "update_for_uri_from_disk read_file c uri path =
     (case read_file path of
        Inl e \<Rightarrow> (c, Inl e)
      | Inr currentContent \<Rightarrow>
          (case get_file_contents c uri of
             Some cachedContent \<Rightarrow>
               if cachedContent = currentContent then (c, Inr (False, cachedContent))
               else (set_file_contents c uri currentContent, Inr (True, currentContent))
           | None \<Rightarrow> (set_file_contents c uri currentContent, Inr (True, currentContent))))"

section \<open>Invariant and abstraction\<close>

definition cache_wf :: "'m lsp_cache \<Rightarrow> bool" where
  "cache_wf c \<longleftrightarrow> map_wf (fileContents c) \<and> map_wf (ignoredFileContents c) \<and> map_wf (modules c)
     \<and> map_wf (diagnosticsFile c) \<and> map_wf (diagnosticsParseErrors c)
     \<and> map_wf (successfulParseLineCounts c)"

text \<open>Everything the cache holds for one URI.\<close>

record 'm cache_entry =
  ce_contents :: "string option"
  ce_ignored :: "string option"
  ce_module :: "'m option"
  ce_diagnostics :: "diagnostic list option"
  ce_parse_errors :: "diagnostic list option"
  ce_line_count :: "nat option"

definition cache_entry_at :: "'m lsp_cache \<Rightarrow> string \<Rightarrow> 'm cache_entry" where
  "cache_entry_at c uri =
     \<lparr>ce_contents = cm_get (fileContents c) uri, ce_ignored = cm_get (ignoredFileContents c) uri,
      ce_module = cm_get (modules c) uri, ce_diagnostics = cm_get (diagnosticsFile c) uri,
      ce_parse_errors = cm_get (diagnosticsParseErrors c) uri,
      ce_line_count = cm_get (successfulParseLineCounts c) uri\<rparr>"

definition no_entry :: "'m cache_entry" where
  "no_entry = \<lparr>ce_contents = None, ce_ignored = None, ce_module = None, ce_diagnostics = None,
     ce_parse_errors = None, ce_line_count = None\<rparr>"

definition over :: "'a option \<Rightarrow> 'a option \<Rightarrow> 'a option" where
  "over x y = (case x of Some v \<Rightarrow> Some v | None \<Rightarrow> y)"

text \<open>One entry laid over another: a field of the first wins where it is present.\<close>

definition entry_over :: "'m cache_entry \<Rightarrow> 'm cache_entry \<Rightarrow> 'm cache_entry" where
  "entry_over x y =
     \<lparr>ce_contents = over (ce_contents x) (ce_contents y), ce_ignored = over (ce_ignored x) (ce_ignored y),
      ce_module = over (ce_module x) (ce_module y),
      ce_diagnostics = over (ce_diagnostics x) (ce_diagnostics y),
      ce_parse_errors = over (ce_parse_errors x) (ce_parse_errors y),
      ce_line_count = over (ce_line_count x) (ce_line_count y)\<rparr>"

named_theorems cache_ops \<open>the operations of the cache\<close>

lemmas [cache_ops] =
  new_lsp_cache_def set_file_contents_def set_ignored_file_contents_def clear_ignored_file_contents_def
  set_module_def cache_rename_def set_file_diagnostics_def set_file_diagnostics_for_rules_def
  clear_file_diagnostics_def set_parse_errors_def set_successful_parse_line_count_def cache_delete_def

lemma cm_wfs [simp]:
  "map_wf (cm_map_of [])" "map_wf (cm_clear m)"
  "map_wf m \<Longrightarrow> map_wf (cm_set m k v)" "map_wf m \<Longrightarrow> map_wf (cm_delete m k)"
  by (simp_all add: cm_map_of_def cm_clear_def cm.inv_upd cm.inv_del)

lemma cache_wf_ops [simp]:
  "cache_wf new_lsp_cache"
  "cache_wf c \<Longrightarrow> cache_wf (set_file_contents c uri s)"
  "cache_wf c \<Longrightarrow> cache_wf (set_ignored_file_contents c uri s)"
  "cache_wf c \<Longrightarrow> cache_wf (clear_ignored_file_contents c uri)"
  "cache_wf c \<Longrightarrow> cache_wf (set_module c uri m)"
  "cache_wf c \<Longrightarrow> cache_wf (cache_rename c uri uri')"
  "cache_wf c \<Longrightarrow> cache_wf (set_file_diagnostics c uri ds)"
  "cache_wf c \<Longrightarrow> cache_wf (set_file_diagnostics_for_rules c uri rls ds)"
  "cache_wf c \<Longrightarrow> cache_wf (clear_file_diagnostics c)"
  "cache_wf c \<Longrightarrow> cache_wf (set_parse_errors c uri ds)"
  "cache_wf c \<Longrightarrow> cache_wf (set_successful_parse_line_count c uri n)"
  "cache_wf c \<Longrightarrow> cache_wf (cache_delete c uri)"
  by (simp_all add: cache_wf_def cache_ops)

text \<open>The contents alone are a key/value store, which the fixer's provider relies on.\<close>

interpretation lc: kv_store cache_wf get_file_contents set_file_contents cache_delete
  by unfold_locales
    (auto simp: get_file_contents_def set_file_contents_def cache_delete_def cm.lookup_upd cm.lookup_del
      cache_wf_def fun_eq_iff)

section \<open>Properties\<close>

lemma cm_get_delete: "map_wf m \<Longrightarrow> cm_get (cm_delete m a) k = (if k = a then None else cm_get m k)"
  by (simp add: cm.lookup_del)

lemma cm_rename_over:
  assumes "map_wf m" and "a \<noteq> b"
  shows "cm_get (cm_rename_key m a b) k =
    (if k = a then None else if k = b then over (cm_get m a) (cm_get m b) else cm_get m k)"
  using assms by (auto simp: cm_get_rename over_def split: option.splits)

lemma cm_rename_self:
  "map_wf m \<Longrightarrow> cm_get (cm_rename_key m a a) k = (if k = a then None else cm_get m k)"
  by (auto simp: cm_get_rename split: option.splits)

text \<open>C11. \<open>Rename\<close> moves everything the cache holds for a URI, and nothing else changes: the old URI is
  left without any entry, the new one has the moved data, with what it had before where the old URI had
  none, and every other URI keeps its entry. Renaming a URI to itself forgets it, as \<open>Delete\<close> does.\<close>

theorem cache_rename_entries:
  assumes "cache_wf c"
  shows "cache_entry_at (cache_rename c a b) =
    (if a = b then (cache_entry_at c)(a := no_entry)
     else (cache_entry_at c)(a := no_entry, b := entry_over (cache_entry_at c a) (cache_entry_at c b)))
    \<and> cache_entry_at (cache_delete c a) = (cache_entry_at c)(a := no_entry)"
  using assms
  by (auto simp: fun_eq_iff cache_wf_def cache_entry_at_def no_entry_def entry_over_def cache_rename_def
      cache_delete_def cm_rename_over cm_rename_self cm_get_delete)

definition sample_cache :: "nat lsp_cache" where
  "sample_cache = set_parse_errors (set_module (set_file_contents new_lsp_cache ''a'' ''x'') ''a'' 7) ''b'' []"

lemma sample_cache_wf [simp]: "cache_wf sample_cache"
  by (simp add: sample_cache_def)

lemma cache_rename_entries_witness:
  "ce_module (cache_entry_at (cache_rename sample_cache ''a'' ''b'') ''b'') = Some 7
   \<and> ce_parse_errors (cache_entry_at (cache_rename sample_cache ''a'' ''b'') ''b'') = Some []"
  unfolding cache_rename_entries [OF sample_cache_wf, THEN conjunct1]
  by (simp add: entry_over_def over_def cache_entry_at_def sample_cache_def cache_ops cm_map_of_def
      cm_get_def cm_set_def)

definition diagnostics_of :: "'m lsp_cache \<Rightarrow> string \<Rightarrow> string \<Rightarrow> diagnostic list" where
  "diagnostics_of c uri rl =
     filter (\<lambda>d. Code d = rl) (case get_file_diagnostics c uri of None \<Rightarrow> [] | Some ds \<Rightarrow> ds)"

text \<open>The partial update of a file's diagnostics: for every evaluated rule the file's diagnostics of
  that rule are afterwards exactly the new ones, those of every other rule (and of every other file) are
  kept in their order, and making the same update twice changes nothing more.\<close>

theorem partial_diagnostics_update:
  assumes "\<forall>d\<in>set diags. Code d \<in> set rls"
  shows "diagnostics_of (set_file_diagnostics_for_rules c uri rls diags) uri' rl =
      (if uri' = uri \<and> rl \<in> set rls then filter (\<lambda>d. Code d = rl) diags else diagnostics_of c uri' rl)
    \<and> set_file_diagnostics_for_rules (set_file_diagnostics_for_rules c uri rls diags) uri rls diags
      = set_file_diagnostics_for_rules c uri rls diags"
proof
  have twice: "replace_rules rls diags (replace_rules rls diags ds) = replace_rules rls diags ds" for ds
    using assms by (auto simp: replace_rules_def filter_empty_conv)
  have "filter (\<lambda>d. Code d = rl) diags = []" if "rl \<notin> set rls"
    using assms that by (auto simp: filter_empty_conv)
  then show "diagnostics_of (set_file_diagnostics_for_rules c uri rls diags) uri' rl =
      (if uri' = uri \<and> rl \<in> set rls then filter (\<lambda>d. Code d = rl) diags else diagnostics_of c uri' rl)"
    by (auto simp: diagnostics_of_def get_file_diagnostics_def set_file_diagnostics_for_rules_def
        cm_update_value_get replace_rules_def filter_empty_conv
        intro!: filter_cong split: option.splits)
  show "set_file_diagnostics_for_rules (set_file_diagnostics_for_rules c uri rls diags) uri rls diags
      = set_file_diagnostics_for_rules c uri rls diags"
    by (simp add: set_file_diagnostics_for_rules_def cm_update_value_def twice update_last)
qed

lemma partial_diagnostics_update_witness:
  "diagnostics_of (set_file_diagnostics_for_rules sample_cache ''a'' [''r''] []) ''a'' ''r'' = []"
  by (subst partial_diagnostics_update [THEN conjunct1]) simp_all

end
