(* ===== verification/Bundle_Cache.thy ===== *)
theory Bundle_Cache
  imports Kv_Store File_Walk
begin

text \<open>
  \<open>internal/lsp/bundles/bundles.go\<close> and \<open>cache.go\<close>: the data bundles of a workspace, kept in memory and
  reloaded when the digest of one of their files changes. OPA's bundle reader, the digest of a file and
  the file system are the fields of an environment. \<open>Refresh\<close> holds the lock from the first update to the
  last, so it is one step. The order of a Go map's entries stands for the order of one iteration.
\<close>

section \<open>Loading one bundle\<close>

record ('b, 'e) bundle_env =
  be_fs :: "string \<Rightarrow> fs_node option"
  be_digest :: "string \<Rightarrow> 'e + string"
  be_read :: "string \<Rightarrow> (string \<Rightarrow> bool \<Rightarrow> bool) \<Rightarrow> 'e + 'b"
  be_empty :: 'b

datatype 'e bundle_error =
    NoManifest string
  | ReadBundle 'e
  | WalkBundle "'e walk_error"
  | WalkWorkspace "string walk_error"
  | EmptyWorkspace

definition is_file :: "(string \<Rightarrow> fs_node option) \<Rightarrow> string \<Rightarrow> bool" where
  "is_file fs p = (case fs p of Some FileNode \<Rightarrow> True | _ \<Rightarrow> False)"

abbreviation bundle_files :: "string list" where
  "bundle_files \<equiv> [''.manifest'', ''data.json'', ''data.yml'', ''data.yaml'']"

text \<open>\<open>dataFileLoaderFilter\<close>: what OPA's reader leaves out.\<close>

definition data_file_loader_filter :: "string \<Rightarrow> bool \<Rightarrow> bool" where
  "data_file_loader_filter abspath isDir = (\<not> isDir \<and> fp_base abspath \<notin> set bundle_files)"

definition load_data_bundle :: "('b, 'e) bundle_env \<Rightarrow> string \<Rightarrow> 'e bundle_error + 'b" where
  "load_data_bundle env path =
     (if \<not> is_file (be_fs env) (fp_join [path, ''.manifest'']) then Inl (NoManifest path)
      else case be_read env path data_file_loader_filter of
        Inl e \<Rightarrow> Inl (ReadBundle e)
      | Inr b \<Rightarrow> Inr b)"

section \<open>The cache\<close>

record 'b cache_bundle =
  cb_source_digests :: "(string, string) gomap"
  cb_bundle :: 'b

definition hasher :: "('b, 'e) bundle_env \<Rightarrow> string \<Rightarrow> (string, string) gomap
    \<Rightarrow> (string, string) gomap \<times> 'e option" where
  "hasher env path digests =
     (case be_digest env path of Inl e \<Rightarrow> (digests, Some e) | Inr h \<Rightarrow> (map_set digests path h, None))"

definition on_disk_digests :: "('b, 'e) bundle_env \<Rightarrow> string \<Rightarrow> (string, string) gomap \<times> 'e walk_error option" where
  "on_disk_digests env path =
     walker_walk (be_fs env) (with_filters [not_filter (filenames bundle_files)] (default_walker path))
       (hasher env) []"

text \<open>\<open>maps.EqualFunc\<close>.\<close>

definition maps_equal :: "('k, 'v) gomap \<Rightarrow> ('k, 'v) gomap \<Rightarrow> bool" where
  "maps_equal m1 m2 = (length m1 = length m2 \<and> list_all (\<lambda>(k, v). map_get m2 k = Some v) m1)"

definition cache_bundle_refresh :: "('b, 'e) bundle_env \<Rightarrow> 'b cache_bundle \<Rightarrow> string
    \<Rightarrow> 'b cache_bundle \<times> ('e bundle_error + bool)" where
  "cache_bundle_refresh env c path =
     (case on_disk_digests env path of
        (_, Some e) \<Rightarrow> (c, Inl (WalkBundle e))
      | (digests, None) \<Rightarrow>
          if maps_equal (cb_source_digests c) digests then (c, Inr False)
          else let c = c\<lparr>cb_source_digests := digests\<rparr>
            in (case load_data_bundle env path of
                  Inl e \<Rightarrow> (c\<lparr>cb_bundle := be_empty env\<rparr>, Inl e)
                | Inr b \<Rightarrow> (c\<lparr>cb_bundle := b\<rparr>, Inr True)))"

record ('b, 'e) bundle_cache =
  bc_bundles :: "(string, 'b cache_bundle) gomap"
  bc_workspace_path :: string
  bc_log :: "(string \<times> 'e bundle_error) list"

definition new_bundle_cache :: "string \<Rightarrow> ('b, 'e) bundle_cache" where
  "new_bundle_cache workspacePath =
     \<lparr>bc_bundles = [], bc_workspace_path = ensure_suffix workspacePath ''/'', bc_log = []\<rparr>"

definition empty_cache_bundle :: "('b, 'e) bundle_env \<Rightarrow> 'b cache_bundle" where
  "empty_cache_bundle env = \<lparr>cb_source_digests = [], cb_bundle = be_empty env\<rparr>"

fun refresh_roots :: "('b, 'e) bundle_env \<Rightarrow> string list \<Rightarrow> ('b, 'e) bundle_cache \<Rightarrow> string list
    \<Rightarrow> ('b, 'e) bundle_cache \<times> string list" where
  "refresh_roots env [] c refreshed = (c, refreshed)"
| "refresh_roots env (root # roots) c refreshed =
     (let b = (case map_get (bc_bundles c) root of Some b \<Rightarrow> b | None \<Rightarrow> empty_cache_bundle env)
      in case cache_bundle_refresh env b (fp_join [bc_workspace_path c, root]) of
           (b, Inl e) \<Rightarrow>
             refresh_roots env roots
               (c\<lparr>bc_bundles := map_set (bc_bundles c) root b, bc_log := bc_log c @ [(root, e)]\<rparr>) refreshed
         | (b, Inr r) \<Rightarrow>
             refresh_roots env roots (c\<lparr>bc_bundles := map_set (bc_bundles c) root b\<rparr>)
               (if r then refreshed @ [root] else refreshed))"

text \<open>\<open>Cache.Refresh\<close>; a nil cache is \<open>None\<close>.\<close>

definition bundle_cache_refresh :: "('b, 'e) bundle_env \<Rightarrow> ('b, 'e) bundle_cache option
    \<Rightarrow> ('b, 'e) bundle_cache option \<times> ('e bundle_error + string list)" where
  "bundle_cache_refresh env cache =
     (case cache of
        None \<Rightarrow> (None, Inr [])
      | Some c \<Rightarrow>
          if bc_workspace_path c = '''' then (Some c, Inl EmptyWorkspace)
          else case find_manifest_locations (be_fs env) (bc_workspace_path c) of
            (_, Some e) \<Rightarrow> (Some c, Inl (WalkWorkspace e))
          | (found, None) \<Rightarrow>
              (case refresh_roots env found c [] of (c, refreshed) \<Rightarrow>
                 (Some (c\<lparr>bc_bundles := filter (\<lambda>(root, b). root \<in> set found) (bc_bundles c)\<rparr>),
                  Inr refreshed)))"

definition bundle_cache_list :: "('b, 'e) bundle_cache \<Rightarrow> string list" where
  "bundle_cache_list c = map fst (bc_bundles c)"

definition bundle_cache_get :: "('b, 'e) bundle_cache \<Rightarrow> string \<Rightarrow> 'b option" where
  "bundle_cache_get c root = (case map_get (bc_bundles c) root of Some b \<Rightarrow> Some (cb_bundle b) | None \<Rightarrow> None)"

definition bundle_cache_all :: "('b, 'e) bundle_cache \<Rightarrow> (string, 'b) gomap" where
  "bundle_cache_all c = foldl (\<lambda>m (root, b). map_set m root (cb_bundle b)) [] (bc_bundles c)"

section \<open>Lemmas\<close>

lemma maps_equal_iff:
  assumes "map_wf m1" "map_wf m2"
  shows "maps_equal m1 m2 \<longleftrightarrow> map_of m1 = map_of m2"
proof
  assume eq: "maps_equal m1 m2"
  then have sub: "map_of m1 k = Some v \<Longrightarrow> map_of m2 k = Some v" for k v
    by (auto simp: maps_equal_def list_all_iff dest!: map_of_SomeD)
  have "set (map fst m1) \<subseteq> set (map fst m2)"
    using eq by (force simp: maps_equal_def list_all_iff dest!: map_of_SomeD)
  moreover have "card (set (map fst m1)) = card (set (map fst m2))"
    using eq assms by (simp add: maps_equal_def distinct_card del: set_map)
  ultimately have keys: "set (map fst m1) = set (map fst m2)"
    by (simp add: card_subset_eq del: set_map)
  show "map_of m1 = map_of m2"
  proof
    fix k
    show "map_of m1 k = map_of m2 k"
      using sub [of k] keys map_of_None_keys [of m1 k] map_of_None_keys [of m2 k]
      by (cases "map_of m1 k") (auto simp del: set_map)
  qed
next
  assume eq: "map_of m1 = map_of m2"
  then have "set (map fst m1) = set (map fst m2)" by (metis dom_map_of_conv_image_fst set_map)
  then have "length m1 = length m2" using assms by (metis distinct_card length_map)
  moreover have "map_of m2 k = Some v" if "(k, v) \<in> set m1" for k v
    using map_of_is_SomeI [OF assms(1) that] eq by simp
  ultimately show "maps_equal m1 m2" by (auto simp: maps_equal_def list_all_iff)
qed

text \<open>An invariant of a walk's state that every call of the callback keeps.\<close>

lemma walk_invariant:
  "(\<And>p d s. P s \<Longrightarrow> P (fst (f p d s))) \<Longrightarrow> P s \<Longrightarrow> P (fst (walk_dir f path name node s))"
  "(\<And>p d s. P s \<Longrightarrow> P (fst (f p d s))) \<Longrightarrow> P s \<Longrightarrow> P (fst (walk_entries f path es s))"
proof (induction f path name node s and f path es s rule: walk_dir_walk_entries.induct)
  case (1 f path name s)
  then show ?case by simp
next
  case (2 f path name es s)
  from "2.prems"(1) [OF "2.prems"(2), of path "\<lparr>de_name = name, de_is_dir = True\<rparr>"] "2.IH" "2.prems"(1)
  show ?case by (auto split: prod.splits walk_res.splits)
next
  case (3 f path s)
  then show ?case by simp
next
  case (4 f path name d es s)
  from "4.IH"(1) [OF "4.prems"] "4.IH"(2) "4.prems"(1) show ?case
    by (auto split: prod.splits walk_res.splits)
qed

lemma on_disk_digests_wf: "map_wf (fst (on_disk_digests env path))"
proof -
  let ?fw = "with_filters [not_filter (filenames bundle_files)] (default_walker path)"
  have step: "map_wf (fst (walker_fn ?fw (hasher env) p d s))" if "map_wf s" for p d s
    using that by (auto simp: walker_fn_def hasher_def split: sum.splits prod.splits)
  have "map_wf (fst (walk_dir (walker_fn ?fw (hasher env)) p n node []))" for p n node
    by (rule walk_invariant(1) [where P = map_wf]) (use step in auto)
  then show ?thesis
    by (auto simp: on_disk_digests_def walker_walk_def split: option.splits prod.splits walk_res.splits)
      (metis fst_conv)+
qed

definition bundle_wf :: "'b cache_bundle \<Rightarrow> bool" where
  "bundle_wf c \<longleftrightarrow> map_wf (cb_source_digests c)"

lemma cache_bundle_refresh_wf: "bundle_wf c \<Longrightarrow> bundle_wf (fst (cache_bundle_refresh env c path))"
  using on_disk_digests_wf [of env path]
  by (auto simp: cache_bundle_refresh_def bundle_wf_def Let_def split: prod.splits option.splits sum.splits)

text \<open>A cached bundle is read at most once for each state of its files: a refresh reads it exactly when
  a digest changed, and whatever the reading gave, no further refresh reads it again until a file changes.
  A failed reading leaves an empty bundle, and the next refresh reports that nothing changed.\<close>

theorem bundle_read_once_per_change:
  assumes "on_disk_digests env path = (digests, None)" and "bundle_wf c"
    and "on_disk_digests env' path = (digests', None)" "map_of digests' = map_of digests"
  shows "cache_bundle_refresh env c path =
      (if map_of (cb_source_digests c) = map_of digests then (c, Inr False)
       else case load_data_bundle env path of
          Inl e \<Rightarrow> (\<lparr>cb_source_digests = digests, cb_bundle = be_empty env\<rparr>, Inl e)
        | Inr b \<Rightarrow> (\<lparr>cb_source_digests = digests, cb_bundle = b\<rparr>, Inr True))
    \<and> (let c' = fst (cache_bundle_refresh env c path) in cache_bundle_refresh env' c' path = (c', Inr False))"
proof -
  have wf: "map_wf digests" "map_wf digests'"
    using on_disk_digests_wf [of env path] on_disk_digests_wf [of env' path] assms(1,3) by simp_all
  have eq: "maps_equal (cb_source_digests c) digests \<longleftrightarrow> map_of (cb_source_digests c) = map_of digests"
    using maps_equal_iff [OF _ wf(1)] assms(2) by (simp add: bundle_wf_def)
  have first: "cache_bundle_refresh env c path =
      (if map_of (cb_source_digests c) = map_of digests then (c, Inr False)
       else case load_data_bundle env path of
          Inl e \<Rightarrow> (\<lparr>cb_source_digests = digests, cb_bundle = be_empty env\<rparr>, Inl e)
        | Inr b \<Rightarrow> (\<lparr>cb_source_digests = digests, cb_bundle = b\<rparr>, Inr True))"
    using assms(1) eq by (cases c) (auto simp: cache_bundle_refresh_def split: sum.splits)
  define c' where "c' = fst (cache_bundle_refresh env c path)"
  have "map_of (cb_source_digests c') = map_of digests"
    unfolding c'_def first by (auto split: sum.splits)
  moreover have "map_wf (cb_source_digests c')"
    using cache_bundle_refresh_wf [OF assms(2), of env path] by (simp add: c'_def bundle_wf_def)
  ultimately have "maps_equal (cb_source_digests c') digests'"
    using maps_equal_iff [OF _ wf(2)] assms(4) by simp
  then have "cache_bundle_refresh env' c' path = (c', Inr False)"
    using assms(3) by (simp add: cache_bundle_refresh_def)
  with first show ?thesis by (simp add: c'_def)
qed

text \<open>A bundle whose reading fails once, and would succeed the second time.\<close>

definition sample_bundle_env :: "(nat, unit) bundle_env" where
  "sample_bundle_env = \<lparr>be_fs = (\<lambda>p. if p = ''/w'' then Some (DirNode [(''.manifest'', FileNode)])
       else if p = ''/w/.manifest'' then Some FileNode else None),
     be_digest = (\<lambda>p. Inr ''d''), be_read = (\<lambda>p f. Inl ()), be_empty = 0\<rparr>"

definition sample_bundle_env2 :: "(nat, unit) bundle_env" where
  "sample_bundle_env2 = sample_bundle_env\<lparr>be_read := \<lambda>p f. Inr 7\<rparr>"

lemma sample_bundle_digests:
  "on_disk_digests sample_bundle_env ''/w'' = ([(''/w/.manifest'', ''d'')], None)"
  "on_disk_digests sample_bundle_env2 ''/w'' = ([(''/w/.manifest'', ''d'')], None)"
  by code_simp+

lemma bundle_read_once_per_change_witness:
  "cache_bundle_refresh sample_bundle_env2 \<lparr>cb_source_digests = [(''/w/.manifest'', ''d'')], cb_bundle = 0\<rparr> ''/w''
     = (\<lparr>cb_source_digests = [(''/w/.manifest'', ''d'')], cb_bundle = 0\<rparr>, Inr False)"
proof -
  have wf: "bundle_wf \<lparr>cb_source_digests = [], cb_bundle = 5::nat\<rparr>" by (simp add: bundle_wf_def)
  have load: "load_data_bundle sample_bundle_env ''/w'' = Inl (ReadBundle ())"
    by code_simp
  note r = bundle_read_once_per_change [OF sample_bundle_digests(1) wf sample_bundle_digests(2) refl]
  have empty: "be_empty sample_bundle_env = 0" by (simp add: sample_bundle_env_def)
  have "fst (cache_bundle_refresh sample_bundle_env \<lparr>cb_source_digests = [], cb_bundle = 5\<rparr> ''/w'')
      = \<lparr>cb_source_digests = [(''/w/.manifest'', ''d'')], cb_bundle = 0\<rparr>"
    unfolding r [THEN conjunct1] by (simp add: load fun_eq_iff empty exI [where x = "''/w/.manifest''"])
  with r [THEN conjunct2] show ?thesis by (simp only: Let_def)
qed

section \<open>Refreshing the workspace\<close>

definition cached_bundle :: "('b, 'e) bundle_env \<Rightarrow> ('b, 'e) bundle_cache \<Rightarrow> string \<Rightarrow> 'b cache_bundle" where
  "cached_bundle env c root =
     (case map_get (bc_bundles c) root of Some b \<Rightarrow> b | None \<Rightarrow> empty_cache_bundle env)"

abbreviation refreshed_bundle :: "('b, 'e) bundle_env \<Rightarrow> ('b, 'e) bundle_cache \<Rightarrow> string
    \<Rightarrow> 'b cache_bundle \<times> ('e bundle_error + bool)" where
  "refreshed_bundle env c root \<equiv>
     cache_bundle_refresh env (cached_bundle env c root) (fp_join [bc_workspace_path c, root])"

lemma refresh_roots_result:
  "distinct roots \<Longrightarrow> map_wf (bc_bundles c) \<Longrightarrow>
    (\<forall>root. map_get (bc_bundles (fst (refresh_roots env roots c rs))) root =
       (if root \<in> set roots then Some (fst (refreshed_bundle env c root)) else map_get (bc_bundles c) root))
    \<and> map_wf (bc_bundles (fst (refresh_roots env roots c rs)))
    \<and> snd (refresh_roots env roots c rs) = rs @ filter (\<lambda>root. snd (refreshed_bundle env c root) = Inr True) roots"
proof (induction roots arbitrary: c rs)
  case Nil
  then show ?case by simp
next
  case (Cons root roots)
  obtain b r where b: "refreshed_bundle env c root = (b, r)" by fastforce
  define c' where "c' = (case r of
      Inl e \<Rightarrow> c\<lparr>bc_bundles := map_set (bc_bundles c) root b, bc_log := bc_log c @ [(root, e)]\<rparr>
    | Inr _ \<Rightarrow> c\<lparr>bc_bundles := map_set (bc_bundles c) root b\<rparr>)"
  have step: "refresh_roots env (root # roots) c rs
      = refresh_roots env roots c' (if r = Inr True then rs @ [root] else rs)"
    using b by (auto simp: c'_def cached_bundle_def split: sum.splits)
  have c': "bc_bundles c' = map_set (bc_bundles c) root b" "bc_workspace_path c' = bc_workspace_path c"
    by (simp_all add: c'_def split: sum.splits)
  have same: "refreshed_bundle env c' q = refreshed_bundle env c q" if "q \<in> set roots" for q
    using that Cons.prems(1) c' by (auto simp: cached_bundle_def)
  have wf: "map_wf (bc_bundles c')" using Cons.prems(2) c' by simp
  have flt: "filter (\<lambda>q. snd (refreshed_bundle env c' q) = Inr True) roots
      = filter (\<lambda>q. snd (refreshed_bundle env c q) = Inr True) roots"
    by (rule filter_cong) (simp_all add: same)
  show ?case
    using Cons.IH [OF _ wf, of "if r = Inr True then rs @ [root] else rs"] Cons.prems(1) b c'(1) same
    unfolding step flt by auto
qed

lemma map_of_filter_fst: "map_of (filter (\<lambda>(k, v). k \<in> K) m) k = (if k \<in> K then map_of m k else None)"
  by (induction m) auto

lemma map_of_map_snd_loop:
  "map_of (foldl (\<lambda>m (k, b). map_set m k (g b)) acc bs) k
     = (case map_of (rev bs) k of Some b \<Rightarrow> Some (g b) | None \<Rightarrow> map_of acc k)"
  by (induction bs arbitrary: acc) (auto simp: map_add_def split: option.splits)

lemma map_of_rev_wf: "map_wf m \<Longrightarrow> map_of (rev m) = map_of m"
  by (rule map_of_inject_set [THEN iffD2]) (simp_all add: rev_map [symmetric])

text \<open>\<open>Refresh\<close> of the workspace: afterwards the cache has exactly the bundle roots found on disk,
  each with the bundle that its own refresh leaves, bundles of other roots are gone, and the roots
  returned are those that were reloaded without an error. \<open>Get\<close> and \<open>All\<close> then agree.\<close>

theorem workspace_refresh_result:
  assumes "find_manifest_locations (be_fs env) (bc_workspace_path c) = (found, None)" "distinct found"
    and "bc_workspace_path c \<noteq> ''''" "map_wf (bc_bundles c)"
  shows "\<exists>c'. bundle_cache_refresh env (Some c)
        = (Some c', Inr (filter (\<lambda>root. snd (refreshed_bundle env c root) = Inr True) found))
      \<and> set (bundle_cache_list c') = set found
      \<and> bundle_cache_get c' = map_of (bundle_cache_all c')
      \<and> (\<forall>root\<in>set found. bundle_cache_get c' root = Some (cb_bundle (fst (refreshed_bundle env c root))))"
proof -
  obtain d rs where d: "refresh_roots env found c [] = (d, rs)" by fastforce
  note r = refresh_roots_result [OF assms(2,4), of env "[]"]
  define c' where "c' = d\<lparr>bc_bundles := filter (\<lambda>(root, b). root \<in> set found) (bc_bundles d)\<rparr>"
  have get: "map_get (bc_bundles c') root =
      (if root \<in> set found then Some (fst (refreshed_bundle env c root)) else None)" for root
    using r d by (auto simp: c'_def map_of_filter_fst)
  have wf: "map_wf (bc_bundles c')"
    using r d by (auto simp: c'_def distinct_map inj_on_def)
  have "root \<in> set (map fst (bc_bundles c')) \<longleftrightarrow> root \<in> set found" for root
    using get [of root] map_of_None_keys [of "bc_bundles c'" root] by (simp del: set_map split: if_splits)
  then have "set (bundle_cache_list c') = set found"
    unfolding bundle_cache_list_def by blast
  moreover have "bundle_cache_get c' = map_of (bundle_cache_all c')"
    by (auto simp: fun_eq_iff bundle_cache_get_def bundle_cache_all_def map_of_map_snd_loop map_of_rev_wf [OF wf]
      split: option.splits)
  moreover have "bundle_cache_get c' root = Some (cb_bundle (fst (refreshed_bundle env c root)))"
    if "root \<in> set found" for root
    using that get by (simp add: bundle_cache_get_def)
  moreover have "bundle_cache_refresh env (Some c)
        = (Some c', Inr (filter (\<lambda>root. snd (refreshed_bundle env c root) = Inr True) found))"
    using assms(1,3) d r by (simp add: bundle_cache_refresh_def c'_def)
  ultimately show ?thesis by blast
qed

lemma workspace_refresh_result_witness:
  "\<exists>c'. fst (bundle_cache_refresh sample_bundle_env2
      (Some \<lparr>bc_bundles = [], bc_workspace_path = ''/w'', bc_log = []\<rparr>)) = Some c'
     \<and> bundle_cache_get c' ''.'' = Some 7"
proof -
  let ?c = "\<lparr>bc_bundles = [], bc_workspace_path = ''/w'', bc_log = []\<rparr> :: (nat, unit) bundle_cache"
  have f: "find_manifest_locations (be_fs sample_bundle_env2) (bc_workspace_path ?c) = ([''.''], None)"
  proof -
    have p: "fp_join [''/w'', ''.manifest''] = ''/w/.manifest''" "fp_rel ''/w'' ''/w/.manifest'' = Some ''.manifest''"
      "fp_dir ''.manifest'' = ''.''" "fp_base ''/w'' = ''w''"
      by code_simp+
    show ?thesis
      by (simp add: find_manifest_locations_def walker_walk_def walker_validate_def with_filters_def
          default_walker_def with_skip_func_def new_walker_def sample_bundle_env2_def sample_bundle_env_def
          walker_fn_def default_skip_directories_def directories_def not_filter_def filenames_def p)
  qed
  have j: "fp_join [''/w'', ''.''] = ''/w''" by code_simp
  have l: "load_data_bundle sample_bundle_env2 ''/w'' = Inr 7" by code_simp
  have "cb_bundle (fst (refreshed_bundle sample_bundle_env2 ?c ''.'')) = 7"
    by (simp add: j l cache_bundle_refresh_def sample_bundle_digests cached_bundle_def empty_cache_bundle_def
        maps_equal_def)
  moreover have "distinct [''.'']" "bc_workspace_path ?c \<noteq> ''''" "map_wf (bc_bundles ?c)" by simp_all
  note workspace_refresh_result [OF f this]
  ultimately show ?thesis by (elim exE conjE) (intro exI conjI, simp, simp)
qed

end
