(* ===== verification/File_Provider.thy ===== *)
theory File_Provider
  imports Lsp_Cache Uri Rules
begin

text \<open>
  \<open>pkg/fixer/fileprovider/fp.go\<close>, \<open>inmem.go\<close> and \<open>cache.go\<close>: the files that the fixer reads and changes.
  The Go interface \<open>FileProvider\<close> is a record of functions over a state, so that the fixer can be run on
  either provider; the contract it relies on is the locale \<open>file_provider\<close>. \<open>InMemoryFileProvider\<close> meets
  it. \<open>CacheFileProvider\<close>, which the language server uses, does not: its \<open>Put\<close> stores under the path and
  not under the URI.
\<close>

section \<open>The interface\<close>

datatype fp_error =
    FileNotFound string
  | GetFailed string
  | RenameConflictError string string
  | InputFailed rules_error

record ('s, 'r) fp_ops =
  fo_list :: "'s \<Rightarrow> fp_error + string list"
  fo_get :: "'s \<Rightarrow> string \<Rightarrow> fp_error + string"
  fo_put :: "'s \<Rightarrow> string \<Rightarrow> string \<Rightarrow> 's \<times> fp_error option"
  fo_delete :: "'s \<Rightarrow> string \<Rightarrow> 's \<times> fp_error option"
  fo_rename :: "'s \<Rightarrow> string \<Rightarrow> string \<Rightarrow> 's \<times> fp_error option"
  fo_to_input :: "'s \<Rightarrow> (string, rego_version) gomap \<Rightarrow> fp_error + 'r rules_input"

section \<open>Files in memory\<close>

record mem_provider =
  mem_files :: "(string, string) gomap"
  mem_modified :: "string gset"
  mem_deleted :: "string gset"

definition new_mem :: "(string, string) gomap \<Rightarrow> mem_provider" where
  "new_mem files = \<lparr>mem_files = files, mem_modified = new_set [], mem_deleted = new_set []\<rparr>"

fun read_files :: "(string \<Rightarrow> 'e + string) \<Rightarrow> string list \<Rightarrow> (string, string) gomap
    \<Rightarrow> (string \<times> 'e) + (string, string) gomap" where
  "read_files rd [] files = Inr files"
| "read_files rd (path # paths) files =
     (case rd path of
        Inl e \<Rightarrow> Inl (path, e)
      | Inr fc \<Rightarrow> read_files rd paths (map_set files path fc))"

definition new_mem_from_fs :: "(string \<Rightarrow> 'e + string) \<Rightarrow> string list \<Rightarrow> (string \<times> 'e) + mem_provider" where
  "new_mem_from_fs rd paths =
     bind_res (read_files rd paths []) (\<lambda>files.
       Inr \<lparr>mem_files = files, mem_modified = new_set [], mem_deleted = new_set []\<rparr>)"

definition mem_list :: "mem_provider \<Rightarrow> fp_error + string list" where
  "mem_list p = Inr (map fst (mem_files p))"

definition mem_get :: "mem_provider \<Rightarrow> string \<Rightarrow> fp_error + string" where
  "mem_get p file = (case map_get (mem_files p) file of None \<Rightarrow> Inl (FileNotFound file) | Some c \<Rightarrow> Inr c)"

definition mem_put :: "mem_provider \<Rightarrow> string \<Rightarrow> string \<Rightarrow> mem_provider \<times> fp_error option" where
  "mem_put p file content =
     (p\<lparr>mem_files := map_set (mem_files p) file content, mem_modified := set_add (mem_modified p) [file]\<rparr>, None)"

definition mem_delete :: "mem_provider \<Rightarrow> string \<Rightarrow> mem_provider \<times> fp_error option" where
  "mem_delete p file =
     (\<lparr>mem_files = map_del (mem_files p) file, mem_modified = set_remove (mem_modified p) [file],
       mem_deleted = set_add (mem_deleted p) [file]\<rparr>, None)"

definition mem_rename :: "mem_provider \<Rightarrow> string \<Rightarrow> string \<Rightarrow> mem_provider \<times> fp_error option" where
  "mem_rename p from to =
     (case map_get (mem_files p) from of
        None \<Rightarrow> (p, Some (FileNotFound from))
      | Some content \<Rightarrow>
          if map_get (mem_files p) to \<noteq> None then (p, Some (RenameConflictError from to))
          else mem_delete (fst (mem_put p to content)) from)"

definition mem_modified_files :: "mem_provider \<Rightarrow> string list" where
  "mem_modified_files p = set_items (mem_modified p)"

definition mem_deleted_files :: "mem_provider \<Rightarrow> string list" where
  "mem_deleted_files p = set_items (mem_deleted p)"

definition mem_to_input :: "'r rules_env \<Rightarrow> mem_provider \<Rightarrow> (string, rego_version) gomap
    \<Rightarrow> fp_error + 'r rules_input" where
  "mem_to_input env p versionsMap =
     (case input_from_map env (mem_files p) versionsMap of Inl e \<Rightarrow> Inl (InputFailed e) | Inr i \<Rightarrow> Inr i)"

definition mem_ops :: "'r rules_env \<Rightarrow> (mem_provider, 'r) fp_ops" where
  "mem_ops env = \<lparr>fo_list = mem_list, fo_get = mem_get, fo_put = mem_put, fo_delete = mem_delete,
     fo_rename = mem_rename, fo_to_input = mem_to_input env\<rparr>"

section \<open>Files of the language server's cache\<close>

record 'm cache_provider =
  cp_cache :: "'m lsp_cache"
  cp_client :: client_id
  cp_modified :: "string gset"
  cp_deleted :: "string gset"

definition new_cache_provider :: "'m lsp_cache \<Rightarrow> client_id \<Rightarrow> 'm cache_provider" where
  "new_cache_provider c ci = \<lparr>cp_cache = c, cp_client = ci, cp_modified = new_set [], cp_deleted = new_set []\<rparr>"

definition cp_list :: "'m cache_provider \<Rightarrow> fp_error + string list" where
  "cp_list c = Inr (map_keys (get_all_files (cp_cache c)) to_path)"

definition cp_get :: "'m cache_provider \<Rightarrow> string \<Rightarrow> fp_error + string" where
  "cp_get c file =
     (case get_file_contents (cp_cache c) (from_path (cp_client c) file) of
        None \<Rightarrow> Inl (GetFailed file)
      | Some contents \<Rightarrow> Inr contents)"

definition cp_put :: "'m cache_provider \<Rightarrow> string \<Rightarrow> string \<Rightarrow> 'm cache_provider \<times> fp_error option" where
  "cp_put c file content = (c\<lparr>cp_cache := set_file_contents (cp_cache c) file content\<rparr>, None)"

definition cp_delete :: "'m cache_provider \<Rightarrow> string \<Rightarrow> 'm cache_provider \<times> fp_error option" where
  "cp_delete c file = (c\<lparr>cp_cache := cache_delete (cp_cache c) (from_path (cp_client c) file)\<rparr>, None)"

definition cp_rename :: "'m cache_provider \<Rightarrow> string \<Rightarrow> string \<Rightarrow> 'm cache_provider \<times> fp_error option" where
  "cp_rename c from to =
     (let fromURI = from_path (cp_client c) from;
          toURI = from_path (cp_client c) to
      in case get_file_contents (cp_cache c) fromURI of
           None \<Rightarrow> (c, Some (FileNotFound from))
         | Some content \<Rightarrow>
             if has_file_contents (cp_cache c) toURI then (c, Some (RenameConflictError from to))
             else (c\<lparr>cp_cache := cache_delete (set_file_contents (cp_cache c) toURI content) fromURI,
                     cp_modified := set_remove (set_add (cp_modified c) [to]) [from],
                     cp_deleted := set_add (cp_deleted c) [from]\<rparr>, None))"

definition cp_to_input :: "'r rules_env \<Rightarrow> 'm cache_provider \<Rightarrow> (string, rego_version) gomap
    \<Rightarrow> fp_error + 'r rules_input" where
  "cp_to_input env c versionsMap =
     (case input_from_map env (get_all_files (cp_cache c)) versionsMap of
        Inl e \<Rightarrow> Inl (InputFailed e) | Inr i \<Rightarrow> Inr i)"

definition cp_ops :: "'r rules_env \<Rightarrow> ('m cache_provider, 'r) fp_ops" where
  "cp_ops env = \<lparr>fo_list = cp_list, fo_get = cp_get, fo_put = cp_put, fo_delete = cp_delete,
     fo_rename = cp_rename, fo_to_input = cp_to_input env\<rparr>"

section \<open>The contract\<close>

fun is_conflict :: "fp_error \<Rightarrow> bool" where
  "is_conflict (RenameConflictError a b) = True"
| "is_conflict e = False"

locale file_provider =
  fixes ops :: "('s, 'r) fp_ops" and inv :: "'s \<Rightarrow> bool" and view :: "'s \<Rightarrow> string \<Rightarrow> string option"
  assumes list_law: "inv s \<Longrightarrow> \<exists>xs. fo_list ops s = Inr xs \<and> set xs = dom (view s)"
    and get_law: "inv s \<Longrightarrow> (case view s f of Some c \<Rightarrow> fo_get ops s f = Inr c | None \<Rightarrow> \<exists>e. fo_get ops s f = Inl e)"
    and put_law: "inv s \<Longrightarrow> \<exists>t. fo_put ops s f c = (t, None) \<and> inv t \<and> view t = (view s)(f \<mapsto> c)"
    and delete_law: "inv s \<Longrightarrow> \<exists>t. fo_delete ops s f = (t, None) \<and> inv t \<and> view t = (view s)(f := None)"
    and rename_missing: "inv s \<Longrightarrow> view s a = None \<Longrightarrow> \<exists>e. fo_rename ops s a b = (s, Some e) \<and> \<not> is_conflict e"
    and rename_conflict: "inv s \<Longrightarrow> view s a \<noteq> None \<Longrightarrow> view s b \<noteq> None \<Longrightarrow>
      fo_rename ops s a b = (s, Some (RenameConflictError a b))"
    and rename_moves: "inv s \<Longrightarrow> view s a = Some c \<Longrightarrow> view s b = None \<Longrightarrow>
      \<exists>t. fo_rename ops s a b = (t, None) \<and> inv t \<and> view t = (view s)(b \<mapsto> c, a := None)"
begin

lemma get_view: "inv s \<Longrightarrow> fo_get ops s f = Inr c \<longleftrightarrow> view s f = Some c"
  using get_law [of s f] by (auto split: option.splits)

lemma rename_cases:
  assumes "inv s" "view s a = Some c"
  shows "if view s b = None
    then \<exists>t. fo_rename ops s a b = (t, None) \<and> inv t \<and> view t = (view s)(b \<mapsto> c, a := None)
    else fo_rename ops s a b = (s, Some (RenameConflictError a b))"
  using assms rename_moves rename_conflict by simp

text \<open>No operation creates or loses a content unasked: a successful rename permutes the contents.\<close>

lemma rename_contents:
  assumes "inv s" "view s a = Some c" "fo_rename ops s a b = (t, None)"
  shows "ran (view t) = ran (view s)" "card (dom (view t)) = card (dom (view s))"
proof -
  have b: "view s b = None"
    using assms rename_conflict [of s a b] by (cases "view s b") simp_all
  have t: "view t = (view s)(b \<mapsto> c, a := None)"
    using rename_moves [OF assms(1,2) b] assms(3) by (elim exE conjE) simp
  have ab: "a \<noteq> b" using assms(2) b by auto
  have "view t k = (if k = a then None else if k = b then view s a else view s k)" for k
    using t assms(2) by simp
  then have perm: "view t k = view s (if k = a then b else if k = b then a else k)" for k
    using b by simp
  show "ran (view t) = ran (view s)"
  proof
    show "ran (view t) \<subseteq> ran (view s)" using perm by (auto simp: ran_def)
    show "ran (view s) \<subseteq> ran (view t)"
    proof
      fix v assume "v \<in> ran (view s)"
      then obtain k where "view s k = Some v" by (auto simp: ran_def)
      then have "view t (if k = a then b else if k = b then a else k) = Some v"
        unfolding perm using ab by auto
      then show "v \<in> ran (view t)" by (rule ranI)
    qed
  qed
  have "dom (view t) = insert b (dom (view s) - {a})" using t ab by auto
  moreover have "a \<in> dom (view s)" "b \<notin> dom (view s)" using assms(2) b by auto
  ultimately show "card (dom (view t)) = card (dom (view s))"
    by (cases "finite (dom (view s))") (simp_all add: card_Suc_Diff1 del: card_Diff_insert card_Diff_singleton)
qed

end

definition mem_wf :: "mem_provider \<Rightarrow> bool" where
  "mem_wf p \<longleftrightarrow> map_wf (mem_files p)"

abbreviation mem_view :: "mem_provider \<Rightarrow> string \<Rightarrow> string option" where
  "mem_view p \<equiv> map_of (mem_files p)"

lemma mem_put_result:
  "fst (mem_put p f c) = p\<lparr>mem_files := map_set (mem_files p) f c, mem_modified := set_add (mem_modified p) [f]\<rparr>"
  by (simp add: mem_put_def)

lemma mem_rename_result:
  "map_get (mem_files p) a = Some c \<Longrightarrow> map_get (mem_files p) b = None \<Longrightarrow>
    mem_rename p a b = (\<lparr>mem_files = map_del (map_set (mem_files p) b c) a,
       mem_modified = set_remove (set_add (mem_modified p) [b]) [a], mem_deleted = set_add (mem_deleted p) [a]\<rparr>, None)"
  by (simp add: mem_rename_def mem_delete_def mem_put_def)

interpretation mem: file_provider "mem_ops env" mem_wf mem_view
proof unfold_locales
  fix s :: mem_provider and a b c :: string
  assume "mem_wf s" "mem_view s a = Some c" "mem_view s b = None"
  then show "\<exists>t. fo_rename (mem_ops env) s a b = (t, None) \<and> mem_wf t \<and> mem_view t = (mem_view s)(b \<mapsto> c, a := None)"
    by (auto simp: mem_ops_def mem_rename_result mem_wf_def fun_eq_iff)
qed (auto simp: mem_ops_def mem_list_def mem_get_def mem_put_def mem_delete_def mem_rename_def mem_wf_def
    fun_eq_iff dom_map_of_conv_image_fst split: option.splits)

section \<open>Runs of the in-memory provider\<close>

text \<open>The states that a run of successful writes, deletions and renames reaches from the files \<open>D\<close>.\<close>

inductive mem_reach :: "(string, string) gomap \<Rightarrow> mem_provider \<Rightarrow> bool" for D where
  mem_start: "mem_reach D (new_mem D)"
| mem_write: "mem_reach D p \<Longrightarrow> mem_reach D (fst (mem_put p f c))"
| mem_remove: "mem_reach D p \<Longrightarrow> mem_reach D (fst (mem_delete p f))"
| mem_move: "mem_reach D p \<Longrightarrow> mem_rename p a b = (q, None) \<Longrightarrow> mem_reach D q"

text \<open>What the two sets record: a file of the provider that is not marked as modified is the original one
  and is not marked as deleted; an original file that is gone is marked as deleted; modified files exist.\<close>

definition mem_tracked :: "(string, string) gomap \<Rightarrow> mem_provider \<Rightarrow> bool" where
  "mem_tracked D p \<longleftrightarrow> map_wf (mem_files p)
     \<and> (\<forall>f\<in>set (mem_modified p). mem_view p f \<noteq> None)
     \<and> (\<forall>f. f \<notin> set (mem_modified p) \<longrightarrow> mem_view p f = (if f \<in> set (mem_deleted p) then None else map_of D f))
     \<and> distinct (mem_modified p) \<and> distinct (mem_deleted p)"

lemma mem_tracked_put: "mem_tracked D p \<Longrightarrow> mem_tracked D (fst (mem_put p f c))"
  by (auto simp: mem_tracked_def mem_put_def)

lemma mem_tracked_delete: "mem_tracked D p \<Longrightarrow> mem_tracked D (fst (mem_delete p f))"
  by (auto simp: mem_tracked_def mem_delete_def)

lemma mem_tracked_rename: "mem_tracked D p \<Longrightarrow> mem_rename p a b = (q, None) \<Longrightarrow> mem_tracked D q"
  using mem_tracked_delete [OF mem_tracked_put] by (auto simp: mem_rename_def split: option.splits if_splits)
    (metis fst_conv)

lemma mem_reach_tracked: "mem_reach D p \<Longrightarrow> map_wf D \<Longrightarrow> mem_tracked D p"
proof (induction rule: mem_reach.induct)
  case mem_start
  then show ?case by (simp add: mem_tracked_def new_mem_def)
qed (simp_all add: mem_tracked_put mem_tracked_delete mem_tracked_rename)

section \<open>What the cache's provider does with a path\<close>

lemma write_parts_prefix: "\<exists>r. write_parts remaining found acc = acc @ r"
proof (induction remaining found acc rule: write_parts.induct)
  case (1 remaining found acc)
  show ?case
  proof (cases found)
    case False
    then show ?thesis by (subst write_parts.simps) simp
  next
    case True
    obtain part rest f where c: "cut_byte remaining sep = (part, rest, f)" by (cases "cut_byte remaining sep")
    from 1 [OF True c [symmetric] refl] obtain r where
      "write_parts rest f (acc @ ''/'' @ escape_part part) = (acc @ ''/'' @ escape_part part) @ r"
      by auto
    with True c show ?thesis by (subst write_parts.simps) simp
  qed
qed

lemma from_path_not_rooted: "from_path client path \<noteq> sep # p"
proof -
  have hd: "write_parts remaining found (CHR ''f'' # acc) \<noteq> sep # p" for remaining found acc
    using write_parts_prefix [of remaining found "CHR ''f'' # acc"] by auto
  show ?thesis
    unfolding from_path_def Let_def by (simp add: hd split: prod.split)
qed

text \<open>\<open>CacheFileProvider\<close> breaks the contract of a file provider: what \<open>Put\<close> writes to an absolute path
  is stored under the path itself, so \<open>Get\<close>, \<open>Delete\<close> and \<open>Rename\<close>, which look under the path's URI, never
  see it, while the cache has gained a document whose key is no URI.\<close>

theorem cache_provider_put_unseen:
  fixes c :: "'m cache_provider"
  assumes "f = sep # p"
  shows "cp_get (fst (cp_put c f content)) g = cp_get c g
    \<and> map_of (get_all_files (cp_cache (fst (cp_put c f content)))) f = Some content
    \<and> map_of (get_all_files (cp_cache (fst (cp_delete (fst (cp_put c f content)) f)))) f = Some content"
proof -
  have ne: "from_path client q \<noteq> f" for client q using from_path_not_rooted assms by simp
  note ne' = ne [symmetric]
  show ?thesis
    by (simp add: ne ne' cp_get_def cp_put_def cp_delete_def get_file_contents_def set_file_contents_def
        cache_delete_def get_all_files_def cm_clone_def cm_get_def cm_set_def cm_delete_def)
qed

lemma cache_provider_put_unseen_witness:
  "cp_get (fst (cp_put (new_cache_provider (new_lsp_cache :: nat lsp_cache) IdentifierGeneric) ''/a'' ''x'')) ''/a''
     = Inl (GetFailed ''/a'')"
  unfolding cache_provider_put_unseen [of "''/a''" "''a''", simplified, THEN conjunct1]
  by (simp add: cp_get_def new_cache_provider_def new_lsp_cache_def get_file_contents_def cm_get_def cm_map_of_def)

end
