(* ===== verification/Fixer.thy ===== *)
theory Fixer
  imports File_Provider Fixes_Proofs
begin

text \<open>
  \<open>pkg/fixer/fixer.go\<close>, \<open>rename.go\<close> and \<open>report.go\<close>: the loop that applies fixes to the violations a
  linter reports, moves files, resolves conflicts, and keeps a report. The file provider is a
  record of functions (\<open>File_Provider\<close>); the linter, \<open>filepath.Abs\<close> and OPA's \<open>Atoi\<close> are fields of
  environments. A panic of a fix is \<^term>\<open>None\<close>, and so is a loop that does not end. A Go map is an
  association list; wrapping of errors is not modelled.
\<close>

section \<open>The report\<close>

record fix_report =
  fileFixes :: "(string, fix_result list) gomap"
  movedFiles :: "(string, string list) gomap"
  conflictsManyToOne :: "(string, (string, string list) gomap) gomap"
  conflictsSourceFile :: "(string, (string, string list) gomap) gomap"
  totalFixes :: nat

definition new_fix_report :: fix_report where
  "new_fix_report = \<lparr>fileFixes = [], movedFiles = [], conflictsManyToOne = [], conflictsSourceFile = [],
     totalFixes = 0\<rparr>"

definition add_file_fix :: "fix_report \<Rightarrow> string \<Rightarrow> fix_result \<Rightarrow> fix_report" where
  "add_file_fix r file fx =
     r\<lparr>fileFixes := map_set (fileFixes r) file (map_get_or (fileFixes r) file [] @ [fx]),
       totalFixes := (totalFixes r + 1) mod 2 ^ 64\<rparr>"

text \<open>The counter has 64 bits; evaluation needs the modulus as an integer.\<close>

lemma add_file_fix_code [code]:
  "add_file_fix r file fx =
     r\<lparr>fileFixes := map_set (fileFixes r) file (map_get_or (fileFixes r) file [] @ [fx]),
       totalFixes := nat (int (totalFixes r + 1) mod 18446744073709551616)\<rparr>"
  by (simp add: add_file_fix_def nat_mod_distrib nat_add_distrib)

definition fixes_for_file :: "fix_report \<Rightarrow> string \<Rightarrow> fix_result list" where
  "fixes_for_file r file = map_get_or (fileFixes r) file []"

definition merge_fixes :: "fix_report \<Rightarrow> string \<Rightarrow> string \<Rightarrow> fix_report" where
  "merge_fixes r path1 path2 =
     r\<lparr>fileFixes := map_del
         (map_set (fileFixes r) path1 (fixes_for_file r path1 @ fixes_for_file r path2)) path2\<rparr>"

definition register_old_path :: "fix_report \<Rightarrow> string \<Rightarrow> string \<Rightarrow> fix_report" where
  "register_old_path r newPath oldPath =
     r\<lparr>movedFiles := map_set (movedFiles r) newPath (map_get_or (movedFiles r) newPath [] @ [oldPath])\<rparr>"

definition old_path_for_file :: "fix_report \<Rightarrow> string \<Rightarrow> string option" where
  "old_path_for_file r newPath =
     (case map_get (movedFiles r) newPath of Some (oldPath # _) \<Rightarrow> Some oldPath | _ \<Rightarrow> None)"

definition fixed_files :: "fix_report \<Rightarrow> string list" where
  "fixed_files r = sorted_slice (map fst (fileFixes r))"

definition total_fixes :: "fix_report \<Rightarrow> nat" where
  "total_fixes r = totalFixes r"

text \<open>Both kinds of conflict are registered in the same way, under the root and the path in conflict.\<close>

definition register_in :: "(string, (string, string list) gomap) gomap \<Rightarrow> string \<Rightarrow> string \<Rightarrow> string
    \<Rightarrow> (string, (string, string list) gomap) gomap" where
  "register_in m root newPath oldPath =
     (let m = (if map_get m root = None then map_set m root [] else m);
          c = map_get_or m root [];
          c = (if map_get c newPath = None then map_set c newPath [] else c)
      in map_set m root (map_set c newPath (map_get_or c newPath [] @ [oldPath])))"

definition register_conflict_many_to_one :: "fix_report \<Rightarrow> string \<Rightarrow> string \<Rightarrow> string \<Rightarrow> fix_report" where
  "register_conflict_many_to_one r root newPath oldPath =
     r\<lparr>conflictsManyToOne := register_in (conflictsManyToOne r) root newPath oldPath\<rparr>"

definition register_conflict_source_file :: "fix_report \<Rightarrow> string \<Rightarrow> string \<Rightarrow> string \<Rightarrow> fix_report" where
  "register_conflict_source_file r root newPath oldPath =
     r\<lparr>conflictsSourceFile := register_in (conflictsSourceFile r) root newPath oldPath\<rparr>"

definition has_conflicts :: "fix_report \<Rightarrow> bool" where
  "has_conflicts r \<longleftrightarrow> 0 < length (conflictsManyToOne r) \<or> 0 < length (conflictsSourceFile r)"

section \<open>The fixer\<close>

record 'r fixer_env = "'r fix_env" +
  fx_atoi :: "string \<Rightarrow> int"
  fx_abs :: "string \<Rightarrow> string + string"

record 'r linter_env =
  le_determine_enabled :: "string + string list"
  le_prepare :: "string list \<Rightarrow> string option"
  le_lint :: "string list \<Rightarrow> 'r rules_input \<Rightarrow> string + violation list"
  le_config :: "string + config option"

record fixer =
  registeredFixes :: "fix_kind list"
  onConflictOperation :: string
  registeredRoots :: "string list"
  versionsMap :: "(string, rego_version) gomap option"

datatype fixer_error =
    ProviderError fp_error
  | NoFixFor string
  | AbsFailed string
  | FixFailed fix_error
  | UnsupportedConflictOperation string
  | LinterError string

definition on_conflict_error :: string where
  "on_conflict_error = ''error''"

definition on_conflict_rename :: string where
  "on_conflict_rename = ''rename''"

definition new_fixer :: fixer where
  "new_fixer = \<lparr>registeredFixes = [], onConflictOperation = on_conflict_error, registeredRoots = [],
     versionsMap = None\<rparr>"

definition set_on_conflict_operation :: "string \<Rightarrow> fixer \<Rightarrow> fixer" where
  "set_on_conflict_operation op f = f\<lparr>onConflictOperation := op\<rparr>"

definition set_rego_versions_map :: "(string, rego_version) gomap \<Rightarrow> fixer \<Rightarrow> fixer" where
  "set_rego_versions_map m f = f\<lparr>versionsMap := Some m\<rparr>"

definition register_fixes :: "fix_kind list \<Rightarrow> fixer \<Rightarrow> fixer" where
  "register_fixes fs f = f\<lparr>registeredFixes := registeredFixes f @ fs\<rparr>"

definition register_roots :: "string list \<Rightarrow> fixer \<Rightarrow> fixer" where
  "register_roots roots f = f\<lparr>registeredRoots := registeredRoots f @ roots\<rparr>"

definition get_fix_for_name :: "fixer \<Rightarrow> string \<Rightarrow> fix_kind option" where
  "get_fix_for_name f name = List.find (\<lambda>fx. fix_name fx = name) (registeredFixes f)"

section \<open>Renaming\<close>

text \<open>The submatches of \<open>^(.*)_(\d+)$\<close>; the dot does not match a newline, and \<open>\d\<close> no underscore.\<close>

definition numbered_base :: "string \<Rightarrow> (string \<times> string) option" where
  "numbered_base base =
     (let i = last_index_byte base CHR ''_''; b = take (nat i) base; d = drop (nat i + 1) base
      in if 0 \<le> i \<and> is_dec d \<and> newline \<notin> set b then Some (b, d) else None)"

text \<open>The wrap-around of an \<open>int\<close>.\<close>

definition int_wrap :: "int \<Rightarrow> int" where
  "int_wrap i = (i + 2 ^ 63) mod 2 ^ 64 - 2 ^ 63"

definition rename_candidate :: "'r fixer_env \<Rightarrow> string \<Rightarrow> string" where
  "rename_candidate env oldName =
     (let (dir, baseWithExt) = fp_split oldName;
          ext = fp_ext baseWithExt;
          (base, isTest) = cut_suffix (trim_suffix baseWithExt ext) ''_test'';
          suffix = (if isTest then ''_test'' else '''');
          base = (case numbered_base base of
              Some (baseName, d) \<Rightarrow> baseName @ ''_'' @ itoa_int (int_wrap (fx_atoi env d + 1))
            | None \<Rightarrow> base @ ''_1'')
      in fp_join [dir, base @ suffix @ ext])"

text \<open>The loop of \<open>handleRename\<close> up to the point where it is left.\<close>

datatype rename_outcome =
    RenamedTo string
  | ConflictAt string
  | RenameFailed fixer_error

partial_function (option) rename_loop :: "'r fixer_env \<Rightarrow> ('s, 'r) fp_ops \<Rightarrow> string \<Rightarrow> string \<Rightarrow> 's \<Rightarrow> string
    \<Rightarrow> ('s \<times> rename_outcome) option" where
  "rename_loop env ops operation from s to =
     (case fo_rename ops s from to of
        (s, None) \<Rightarrow> Some (s, RenamedTo to)
      | (s, Some e) \<Rightarrow>
          if \<not> is_conflict e then Some (s, RenameFailed (ProviderError e))
          else if operation = on_conflict_error then Some (s, ConflictAt to)
          else if operation = on_conflict_rename then rename_loop env ops operation from s (rename_candidate env to)
          else Some (s, RenameFailed (UnsupportedConflictOperation operation)))"

declare rename_loop.simps [code]

definition report_move :: "fix_report \<Rightarrow> string \<Rightarrow> string \<Rightarrow> fix_result \<Rightarrow> fix_report" where
  "report_move r to from fx = register_old_path (merge_fixes (add_file_fix r to fx) to from) to from"

text \<open>\<open>handleRename\<close>. The path in the fix result is behind a pointer, so the caller sees it change.\<close>

definition handle_rename :: "'r fixer_env \<Rightarrow> ('s, 'r) fp_ops \<Rightarrow> fixer \<Rightarrow> string list \<Rightarrow> rename_paths \<Rightarrow> fix_result
    \<Rightarrow> 's \<Rightarrow> fix_report \<Rightarrow> ('s \<times> fix_report \<times> (fixer_error + fix_result)) option" where
  "handle_rename env ops f startingFiles rn fx s r =
     Option.bind (rename_loop env ops (onConflictOperation f) (rn_from rn) s (rn_to rn)) (\<lambda>(s, out).
       case out of
         RenameFailed e \<Rightarrow> Some (s, r, Inl e)
       | ConflictAt to \<Rightarrow>
           (case fo_delete ops s (rn_from rn) of
              (s, Some e) \<Rightarrow> Some (s, r, Inl (ProviderError e))
            | (s, None) \<Rightarrow>
                let r = (if to \<in> set startingFiles
                    then register_conflict_source_file r (fr_root fx) to (rn_from rn)
                    else register_conflict_many_to_one r (fr_root fx) to (rn_from rn))
                in Some (s, report_move r to (rn_from rn) fx, Inr fx))
       | RenamedTo to \<Rightarrow>
           let fx = (if to \<noteq> rn_to rn then fx\<lparr>fr_rename := Some (rn\<lparr>rn_to := to\<rparr>)\<rparr> else fx)
           in Some (s, report_move r to (rn_from rn) fx, Inr fx))"

section \<open>Fixing\<close>

definition fixer_options :: "fixer \<Rightarrow> config option \<Rightarrow> violation \<Rightarrow> string \<Rightarrow> runtime_options" where
  "fixer_options f conf v absol =
     \<lparr>ro_config = conf, ro_base_dir = find_closest_matching_root absol (registeredRoots f),
      ro_locations = [v_location v], ro_client = IdentifierGeneric\<rparr>"

text \<open>The loop of \<open>FixViolations\<close>.\<close>

fun fix_violations_loop :: "'r fixer_env \<Rightarrow> ('s, 'r) fp_ops \<Rightarrow> fixer \<Rightarrow> config option \<Rightarrow> string list
    \<Rightarrow> violation list \<Rightarrow> 's \<Rightarrow> fix_report \<Rightarrow> ('s \<times> (fixer_error + fix_report)) option" where
  "fix_violations_loop env ops f conf startingFiles [] s r = Some (s, Inr r)"
| "fix_violations_loop env ops f conf startingFiles (v # vs) s r =
     (case get_fix_for_name f (v_title v) of
        None \<Rightarrow> Some (s, Inl (NoFixFor (v_title v)))
      | Some fixInstance \<Rightarrow>
          let file = l_file (v_location v)
          in (case fo_get ops s file of
                Inl e \<Rightarrow> Some (s, Inl (ProviderError e))
              | Inr fc \<Rightarrow> (case fx_abs env file of
                    Inl e \<Rightarrow> Some (s, Inl (AbsFailed e))
                  | Inr absol \<Rightarrow>
                      Option.bind (apply_fix (fix_env.truncate env) fixInstance
                          \<lparr>cand_filename = file, cand_contents = fc, cand_rego_version = RegoUndefined\<rparr>
                          (Some (fixer_options f conf v absol)))
                        (\<lambda>res. case res of
                           Inl e \<Rightarrow> Some (s, Inl (FixFailed e))
                         | Inr [] \<Rightarrow> fix_violations_loop env ops f conf startingFiles vs s r
                         | Inr (fx # _) \<Rightarrow>
                             Option.bind
                               (case fr_rename fx of
                                  None \<Rightarrow> Some (s, r, Inr fx)
                                | Some rn \<Rightarrow> handle_rename env ops f startingFiles rn fx s r)
                               (\<lambda>(s, r, out). case out of
                                  Inl e \<Rightarrow> Some (s, Inl e)
                                | Inr fx \<Rightarrow>
                                    (case fo_put ops s file (fr_contents fx) of
                                       (s, Some e) \<Rightarrow> Some (s, Inl (ProviderError e))
                                     | (s, None) \<Rightarrow> fix_violations_loop env ops f conf startingFiles vs s
                                         (add_file_fix r file fx)))))))"

definition fix_violations :: "'r fixer_env \<Rightarrow> ('s, 'r) fp_ops \<Rightarrow> fixer \<Rightarrow> violation list \<Rightarrow> config option \<Rightarrow> 's
    \<Rightarrow> ('s \<times> (fixer_error + fix_report)) option" where
  "fix_violations env ops f violations conf s =
     (case fo_list ops s of
        Inl e \<Rightarrow> Some (s, Inl (ProviderError e))
      | Inr startingFiles \<Rightarrow> fix_violations_loop env ops f conf startingFiles violations s new_fix_report)"

text \<open>\<open>applyOneFix\<close>: the violations one fix is for, and the fixes. \<open>Inr True\<close> leaves both loops.\<close>

fun one_fix_violations :: "'r fixer_env \<Rightarrow> 'r linter_env \<Rightarrow> ('s, 'r) fp_ops \<Rightarrow> fixer \<Rightarrow> string list \<Rightarrow> fix_kind
    \<Rightarrow> violation list \<Rightarrow> 's \<Rightarrow> fix_report \<Rightarrow> ('s \<times> fix_report \<times> (fixer_error + bool)) option" where
  "one_fix_violations env le ops f startingFiles fixInstance [] s r = Some (s, r, Inr False)"
| "one_fix_violations env le ops f startingFiles fixInstance (v # vs) s r =
     (if v_title v \<noteq> fix_name fixInstance then one_fix_violations env le ops f startingFiles fixInstance vs s r
      else case le_config le of
        Inl e \<Rightarrow> Some (s, r, Inl (LinterError e))
      | Inr conf \<Rightarrow>
          let file = l_file (v_location v)
          in (case fx_abs env file of
                Inl e \<Rightarrow> Some (s, r, Inl (AbsFailed e))
              | Inr absol \<Rightarrow> (case fo_get ops s file of
                    Inl e \<Rightarrow> Some (s, r, Inl (ProviderError e))
                  | Inr fc \<Rightarrow>
                      Option.bind (apply_fix (fix_env.truncate env) fixInstance
                          \<lparr>cand_filename = file, cand_contents = fc, cand_rego_version = RegoUndefined\<rparr>
                          (Some (fixer_options f conf v absol)))
                        (\<lambda>res. case res of
                           Inl e \<Rightarrow> Some (s, r, Inl (FixFailed e))
                         | Inr [] \<Rightarrow> one_fix_violations env le ops f startingFiles fixInstance vs s r
                         | Inr (fx # _) \<Rightarrow>
                             (case fr_rename fx of
                                Some rn \<Rightarrow> map_option (\<lambda>(s, r, out). (s, r, case out of
                                    Inl e \<Rightarrow> Inl e | Inr fx \<Rightarrow> Inr True))
                                  (handle_rename env ops f startingFiles rn fx s r)
                              | None \<Rightarrow>
                                  (case fo_put ops s file (fr_contents fx) of
                                     (s, Some e) \<Rightarrow> Some (s, r, Inl (ProviderError e))
                                   | (s, None) \<Rightarrow> Some (s, add_file_fix r file fx, Inr True)))))))"

fun apply_one_fix :: "'r fixer_env \<Rightarrow> 'r linter_env \<Rightarrow> ('s, 'r) fp_ops \<Rightarrow> fixer \<Rightarrow> string list \<Rightarrow> violation list
    \<Rightarrow> fix_kind list \<Rightarrow> 's \<Rightarrow> fix_report \<Rightarrow> ('s \<times> fix_report \<times> (fixer_error + bool)) option" where
  "apply_one_fix env le ops f startingFiles violations [] s r = Some (s, r, Inr False)"
| "apply_one_fix env le ops f startingFiles violations (fixInstance # fs) s r =
     Option.bind (one_fix_violations env le ops f startingFiles fixInstance violations s r) (\<lambda>(s, r, out).
       case out of
         Inr False \<Rightarrow> apply_one_fix env le ops f startingFiles violations fs s r
       | _ \<Rightarrow> Some (s, r, out))"

partial_function (option) fix_loop :: "'r fixer_env \<Rightarrow> 'r linter_env \<Rightarrow> ('s, 'r) fp_ops \<Rightarrow> fixer \<Rightarrow> string list
    \<Rightarrow> string list \<Rightarrow> 's \<Rightarrow> fix_report \<Rightarrow> ('s \<times> fix_report \<times> fixer_error option) option" where
  "fix_loop env le ops f rls startingFiles s r =
     (case fo_to_input ops s (case versionsMap f of None \<Rightarrow> [] | Some m \<Rightarrow> m) of
        Inl e \<Rightarrow> Some (s, r, Some (ProviderError e))
      | Inr input \<Rightarrow> (case le_lint le rls input of
            Inl e \<Rightarrow> Some (s, r, Some (LinterError e))
          | Inr violations \<Rightarrow>
              if violations = [] then Some (s, r, None)
              else Option.bind (apply_one_fix env le ops f startingFiles violations (registeredFixes f) s r)
                (\<lambda>(s, r, out). case out of
                   Inl e \<Rightarrow> Some (s, r, Some e)
                 | Inr fixMade \<Rightarrow>
                     if \<not> fixMade then Some (s, r, None)
                     else fix_loop env le ops f rls startingFiles s r)))"

declare fix_loop.simps [code]

definition apply_linter_fixes :: "'r fixer_env \<Rightarrow> 'r linter_env \<Rightarrow> ('s, 'r) fp_ops \<Rightarrow> fixer \<Rightarrow> 's \<Rightarrow> fix_report
    \<Rightarrow> ('s \<times> fix_report \<times> fixer_error option) option" where
  "apply_linter_fixes env le ops f s r =
     (case le_determine_enabled le of
        Inl e \<Rightarrow> Some (s, r, Some (LinterError e))
      | Inr enabledRules \<Rightarrow>
          let fixable = filter (\<lambda>rl. get_fix_for_name f rl \<noteq> None) enabledRules
          in (case fo_list ops s of
                Inl e \<Rightarrow> Some (s, r, Some (ProviderError e))
              | Inr startingFiles \<Rightarrow> (case le_prepare le fixable of
                    Some e \<Rightarrow> Some (s, r, Some (LinterError e))
                  | None \<Rightarrow> fix_loop env le ops f fixable startingFiles s r)))"

text \<open>\<open>Fixer.Fix\<close>.\<close>

definition run_fixer :: "'r fixer_env \<Rightarrow> 'r linter_env \<Rightarrow> ('s, 'r) fp_ops \<Rightarrow> fixer \<Rightarrow> 's
    \<Rightarrow> ('s \<times> (fixer_error + fix_report)) option" where
  "run_fixer env le ops f s =
     (if length (registeredFixes f) = 0 then Some (s, Inr new_fix_report)
      else map_option (\<lambda>(s, r, err). (s, case err of Some e \<Rightarrow> Inl e | None \<Rightarrow> Inr r))
        (apply_linter_fixes env le ops f s new_fix_report))"

end
