(* ===== verification/Fixer_Proofs.thy ===== *)
theory Fixer_Proofs
  imports Fixer Config_Find
begin

text \<open>
  Properties of the fixer: what a rename does on any file provider that meets the contract
  \<open>file_provider\<close>, that the search for a free name ends, that the report counts its fixes, and that no
  file is lost without a registered conflict.
\<close>

section \<open>The report counts its fixes\<close>

definition fixes_count :: "(string, fix_result list) gomap \<Rightarrow> nat" where
  "fixes_count m = (\<Sum>(k, fs)\<leftarrow>m. length fs)"

lemma fixes_count_update:
  "fixes_count (AList.update k v m) + length (map_get_or m k []) = fixes_count m + length v"
  by (induction m) (auto simp: fixes_count_def map_get_or_def)

lemma fixes_count_delete:
  "map_wf m \<Longrightarrow> fixes_count (AList.delete k m) + length (map_get_or m k []) = fixes_count m"
proof (induction m)
  case Nil
  then show ?case by (simp add: fixes_count_def map_get_or_def)
next
  case (Cons x m)
  obtain k' v where x: "x = (k', v)" by (cases x)
  show ?case
  proof (cases "k' = k")
    case True
    then have "AList.delete k m = m" using Cons.prems x by (simp add: delete_id)
    then show ?thesis using True x by (simp add: fixes_count_def map_get_or_def)
  next
    case False
    then show ?thesis using Cons x by (simp add: fixes_count_def map_get_or_def)
  qed
qed

definition report_ok :: "fix_report \<Rightarrow> bool" where
  "report_ok r \<longleftrightarrow> map_wf (fileFixes r) \<and> totalFixes r = fixes_count (fileFixes r) mod 2 ^ 64"

lemma report_ok_new: "report_ok new_fix_report"
  by (simp add: report_ok_def new_fix_report_def fixes_count_def)

lemma report_ok_add: "report_ok r \<Longrightarrow> report_ok (add_file_fix r file fx)"
proof -
  assume r: "report_ok r"
  have "fixes_count (AList.update file (map_get_or (fileFixes r) file [] @ [fx]) (fileFixes r))
      = fixes_count (fileFixes r) + 1"
    using fixes_count_update [of "file" "map_get_or (fileFixes r) file [] @ [fx]" "fileFixes r"] by simp
  with r show ?thesis by (simp add: report_ok_def add_file_fix_def mod_simps)
qed

lemma report_ok_merge:
  assumes "report_ok r" "a \<noteq> b" shows "report_ok (merge_fixes r a b)"
proof -
  let ?m = "AList.update a (fixes_for_file r a @ fixes_for_file r b) (fileFixes r)"
  have wf: "map_wf (fileFixes r)" using assms(1) by (simp add: report_ok_def)
  have "fixes_count ?m + length (fixes_for_file r a)
      = fixes_count (fileFixes r) + length (fixes_for_file r a) + length (fixes_for_file r b)"
    using fixes_count_update [of a "fixes_for_file r a @ fixes_for_file r b" "fileFixes r"]
    by (simp add: fixes_for_file_def)
  moreover have "fixes_count (AList.delete b ?m) + length (fixes_for_file r b) = fixes_count ?m"
    using fixes_count_delete [OF map_set_wf [OF wf], of b a "fixes_for_file r a @ fixes_for_file r b"] assms(2)
    by (simp add: fixes_for_file_def)
  ultimately have "fixes_count (AList.delete b ?m) = fixes_count (fileFixes r)" by linarith
  with assms wf show ?thesis by (simp add: report_ok_def merge_fixes_def)
qed

lemma report_ok_move: "report_ok r \<Longrightarrow> to \<noteq> from \<Longrightarrow> report_ok (report_move r to from fx)"
  using report_ok_merge [OF report_ok_add]
  by (simp add: report_move_def register_old_path_def report_ok_def)

lemma report_ok_conflict:
  "report_ok r \<Longrightarrow> report_ok (register_conflict_many_to_one r root a b)"
  "report_ok r \<Longrightarrow> report_ok (register_conflict_source_file r root a b)"
  by (simp_all add: report_ok_def register_conflict_many_to_one_def register_conflict_source_file_def)

section \<open>Conflicts\<close>

definition conflict_count :: "(string, (string, string list) gomap) gomap \<Rightarrow> nat" where
  "conflict_count m = (\<Sum>(root, c)\<leftarrow>m. \<Sum>(to, froms)\<leftarrow>c. length froms)"

definition conflicts :: "fix_report \<Rightarrow> nat" where
  "conflicts r = conflict_count (conflictsManyToOne r) + conflict_count (conflictsSourceFile r)"

lemma sum_update:
  fixes g :: "'v \<Rightarrow> nat"
  shows "(\<Sum>(k, v)\<leftarrow>AList.update k v m. g v) + (case map_of m k of None \<Rightarrow> 0 | Some w \<Rightarrow> g w)
    = (\<Sum>(k, v)\<leftarrow>m. g v) + g v"
  by (induction m) auto

lemma conflict_count_register: "conflict_count (register_in m root to from) = conflict_count m + 1"
proof -
  let ?g = "\<lambda>c. \<Sum>(to, froms)\<leftarrow>c. length (froms :: string list)"
  define m1 where "m1 = (if map_get m root = None then map_set m root [] else m)"
  define c where "c = map_get_or m1 root []"
  define c1 where "c1 = (if map_get c to = None then map_set c to [] else c)"
  have m1: "conflict_count m1 = conflict_count m" "map_of m1 root = Some c"
    using sum_update [of ?g root "[]" m]
    by (auto simp: m1_def c_def map_get_or_def conflict_count_def split: option.splits)
  have c1: "?g c1 = ?g c" "map_of c1 to = Some (map_get_or c1 to [])"
    using sum_update [of length to "[]" c]
    by (auto simp: c1_def map_get_or_def split: option.splits)
  have "?g (AList.update to (map_get_or c1 to [] @ [from]) c1) = ?g c1 + 1"
    using sum_update [of length to "map_get_or c1 to [] @ [from]" c1] c1(2) by simp
  then have "conflict_count (AList.update root (AList.update to (map_get_or c1 to [] @ [from]) c1) m1)
      = conflict_count m + 1"
    using sum_update [of ?g root "AList.update to (map_get_or c1 to [] @ [from]) c1" m1] m1 c1(1)
    by (simp add: conflict_count_def)
  then show ?thesis unfolding register_in_def Let_def c1_def c_def m1_def .
qed

lemma conflicts_simps [simp]:
  "conflicts new_fix_report = 0"
  "conflicts (add_file_fix r file fx) = conflicts r"
  "conflicts (report_move r to from fx) = conflicts r"
  "conflicts (register_conflict_many_to_one r root a b) = Suc (conflicts r)"
  "conflicts (register_conflict_source_file r root a b) = Suc (conflicts r)"
  by (simp_all add: conflicts_def new_fix_report_def conflict_count_def [of "[]"] add_file_fix_def report_move_def
      register_old_path_def merge_fixes_def register_conflict_many_to_one_def
      register_conflict_source_file_def conflict_count_register)

lemma no_conflicts: "\<not> has_conflicts r \<Longrightarrow> conflicts r = 0"
  by (simp add: has_conflicts_def conflicts_def conflict_count_def)

section \<open>Fix results that rename\<close>

lemma apply_fix_rename:
  assumes "apply_fix env k fc opts = Some (Inr fxs)" "fx \<in> set fxs" "fr_rename fx = Some rn"
  shows "rn_from rn = cand_filename fc \<and> rn_from rn \<noteq> rn_to rn"
  using assms
  by (cases k)
    (auto simp: apply_fix_def fmt_fix_def location_fix_def removal_fix_def mismatch_fix_def contents_result_def
      Let_def bind_eq_Some_conv bind_res_eq_Inr split: option.splits sum.splits if_splits prod.splits)

section \<open>Renaming on a file provider\<close>

context file_provider
begin

lemma rename_loop_result:
  assumes "rename_loop env ops operation a s b = Some (t, out)" "inv s"
  shows "(case out of
      RenamedTo c \<Rightarrow> inv t \<and> (\<exists>v. view s a = Some v \<and> view s c = None \<and> view t = (view s)(c \<mapsto> v, a := None))
    | ConflictAt c \<Rightarrow> t = s \<and> c = b \<and> operation = on_conflict_error \<and> view s a \<noteq> None \<and> view s b \<noteq> None
    | RenameFailed e \<Rightarrow> t = s)"
proof -
  let ?R = "\<lambda>operation a s b (t, out). case out of
        RenamedTo c \<Rightarrow> inv t \<and> (\<exists>v. view s a = Some v \<and> view s c = None \<and> view t = (view s)(c \<mapsto> v, a := None))
      | ConflictAt c \<Rightarrow> t = s \<and> c = b \<and> operation = on_conflict_error \<and> view s a \<noteq> None \<and> view s b \<noteq> None
      | RenameFailed e \<Rightarrow> t = s"
  have "ops = ops \<longrightarrow> inv s \<longrightarrow> ?R operation a s b (t, out)"
  proof (rule rename_loop.raw_induct [where P = "\<lambda>env' ops' operation a s b y. ops' = ops \<longrightarrow> inv s \<longrightarrow> ?R operation a s b y",
        OF _ assms(1)], intro impI)
    fix loop env' and ops' :: "('s, 'r) fp_ops" and operation a s b y
    assume IH: "\<And>env' ops' operation a s b y. loop env' ops' operation a s b = Some y \<Longrightarrow>
        ops' = ops \<longrightarrow> inv s \<longrightarrow> ?R operation a s b y"
      and ops: "ops' = ops" and inv: "inv s"
      and body: "(case fo_rename ops' s a b of
          (s, None) \<Rightarrow> Some (s, RenamedTo b)
        | (s, Some e) \<Rightarrow>
            if \<not> is_conflict e then Some (s, RenameFailed (ProviderError e))
            else if operation = on_conflict_error then Some (s, ConflictAt b)
            else if operation = on_conflict_rename then loop env' ops' operation a s (rename_candidate env' b)
            else Some (s, RenameFailed (UnsupportedConflictOperation operation))) = Some y"
    show "?R operation a s b y"
    proof (cases "view s a")
      case None
      with rename_missing [OF inv] obtain e where "fo_rename ops s a b = (s, Some e)" "\<not> is_conflict e" by blast
      with body ops have "y = (s, RenameFailed (ProviderError e))" by simp
      then show ?thesis by simp
    next
      case (Some v)
      show ?thesis
      proof (cases "view s b")
        case None
        from rename_moves [OF inv Some None] obtain t where
          "fo_rename ops s a b = (t, None)" "inv t" "view t = (view s)(b \<mapsto> v, a := None)" by blast
        moreover from this body ops have "y = (t, RenamedTo b)" by simp
        ultimately show ?thesis using Some None by simp
      next
        case (Some w)
        with \<open>view s a = Some v\<close> have conflict: "fo_rename ops s a b = (s, Some (RenameConflictError a b))"
          using rename_conflict [OF inv] by simp
        have r: "(if operation = on_conflict_error then Some (s, ConflictAt b)
            else if operation = on_conflict_rename then loop env' ops' operation a s (rename_candidate env' b)
            else Some (s, RenameFailed (UnsupportedConflictOperation operation))) = Some y"
          using body by (simp add: ops conflict)
        obtain t out where y: "y = (t, out)" by (cases y)
        consider "operation = on_conflict_error" | "operation \<noteq> on_conflict_error" "operation = on_conflict_rename"
          | "operation \<noteq> on_conflict_error" "operation \<noteq> on_conflict_rename" by blast
        then show ?thesis
        proof cases
          case 1
          with r Some \<open>view s a = Some v\<close> show ?thesis by auto
        next
          case 2
          then have "loop env' ops' operation a s (rename_candidate env' b) = Some (t, out)" using r y by simp
          from IH [OF this] ops inv 2 y show ?thesis by (auto split: rename_outcome.splits)
        next
          case 3
          with r show ?thesis by auto
        qed
      qed
    qed
  qed
  from this [THEN mp, OF refl, THEN mp, OF assms(2)] show ?thesis by (simp only: prod.case)
qed

text \<open>Each file is still there or was given up to a registered conflict, and the report still counts.\<close>

definition accounted :: "'s \<Rightarrow> fix_report \<Rightarrow> 's \<Rightarrow> fix_report \<Rightarrow> bool" where
  "accounted s r t r' \<longleftrightarrow> inv t \<and> finite (dom (view t))
     \<and> card (dom (view t)) + conflicts r' = card (dom (view s)) + conflicts r \<and> report_ok r'"

lemma accounted_refl: "inv s \<Longrightarrow> finite (dom (view s)) \<Longrightarrow> report_ok r \<Longrightarrow> accounted s r s r"
  by (simp add: accounted_def)

lemma accounted_trans: "accounted s r t r' \<Longrightarrow> accounted t r' u r'' \<Longrightarrow> accounted s r u r''"
  by (simp add: accounted_def)

lemma accountedD: "accounted s r t r' \<Longrightarrow> inv t \<and> finite (dom (view t)) \<and> report_ok r'"
  by (simp add: accounted_def)

lemma card_dom_move:
  assumes "finite (dom m)" "m a = Some v" "m c = None"
  shows "card (dom (m(c \<mapsto> v, a := None))) = card (dom m)" "finite (dom (m(c \<mapsto> v, a := None)))"
proof -
  have "a \<noteq> c" using assms by auto
  then have d: "dom (m(c \<mapsto> v, a := None)) = insert c (dom m - {a})" by auto
  have "c \<notin> dom m" "a \<in> dom m" using assms by auto
  then show "card (dom (m(c \<mapsto> v, a := None))) = card (dom m)"
    unfolding d using assms(1)
    by (simp add: card_Suc_Diff1 del: card_Diff_insert card_Diff_singleton)
  show "finite (dom (m(c \<mapsto> v, a := None)))" unfolding d using assms(1) by simp
qed

lemma handle_rename_accounted:
  assumes h: "handle_rename env ops f start rn fx s r = Some (t, r', Inr fx')"
    and s: "inv s" "finite (dom (view s))" "report_ok r" and ne: "rn_from rn \<noteq> rn_to rn"
  shows "accounted s r t r'"
proof -
  obtain u out where l: "rename_loop env ops (onConflictOperation f) (rn_from rn) s (rn_to rn) = Some (u, out)"
    using h by (auto simp: handle_rename_def bind_eq_Some_conv)
  note res = rename_loop_result [OF l s(1)]
  show ?thesis
  proof (cases out)
    case (RenameFailed e)
    with h l show ?thesis by (simp add: handle_rename_def)
  next
    case (RenamedTo c)
    with res obtain v where v: "inv u" "view s (rn_from rn) = Some v" "view s c = None"
      "view u = (view s)(c \<mapsto> v, rn_from rn := None)" by auto
    then have "c \<noteq> rn_from rn" by auto
    moreover have "t = u" "\<exists>fx. r' = report_move r c (rn_from rn) fx"
      using h l RenamedTo by (auto simp: handle_rename_def Let_def split: if_splits)
    ultimately show ?thesis
      using v s card_dom_move [OF s(2) v(2,3)] by (auto simp: accounted_def report_ok_move)
  next
    case (ConflictAt c)
    with res have c: "u = s" "c = rn_to rn" "view s (rn_from rn) \<noteq> None" by auto
    obtain w where w: "fo_delete ops s (rn_from rn) = (w, None)" "inv w"
      "view w = (view s)(rn_from rn := None)"
      using delete_law [OF s(1)] by blast
    have t: "t = w" "\<exists>r1. r' = report_move r1 c (rn_from rn) fx \<and> conflicts r1 = Suc (conflicts r) \<and> report_ok r1"
      using h l ConflictAt c(1) w(1) report_ok_conflict [OF s(3)]
      by (auto simp: handle_rename_def Let_def split: if_splits)
    have "card (dom (view w)) + 1 = card (dom (view s))"
      using c(3) s(2) w(3) by (simp add: card_Suc_Diff1 domI domIff del: card_Diff_insert card_Diff_singleton)
    then show ?thesis
      using t w s(2) ne c(2) by (auto simp: accounted_def report_ok_move)
  qed
qed

lemma put_accounted:
  assumes "fo_get ops s file = Inr fc" "fo_put ops s file c = (t, e)" "inv s" "finite (dom (view s))" "report_ok r"
  shows "accounted s r t (add_file_fix r file fx)"
proof -
  have "view s file = Some fc" using assms(1) get_view [OF assms(3)] by simp
  moreover have "inv t \<and> view t = (view s)(file \<mapsto> c)"
    using put_law [OF assms(3), of "file" c] assms(2) by (elim exE conjE) simp
  moreover have "insert file (dom (view s)) = dom (view s)"
    using \<open>view s file = Some fc\<close> by auto
  ultimately show ?thesis
    using assms(4,5) by (simp add: accounted_def report_ok_add)
qed

lemma one_fix_accounted:
  "one_fix_violations env le ops f start k vs s r = Some (t, r', Inr b) \<Longrightarrow>
    inv s \<Longrightarrow> finite (dom (view s)) \<Longrightarrow> report_ok r \<Longrightarrow> accounted s r t r'"
proof (induction vs)
  case Nil
  then show ?case by (simp add: accounted_refl)
next
  case (Cons v vs)
  show ?case
  proof (cases "v_title v = fix_name k")
    case False
    with Cons show ?thesis by simp
  next
    case title: True
    let ?file = "l_file (v_location v)"
    obtain conf absol fc where fc: "le_config le = Inr conf" "fx_abs env ?file = Inr absol" "fo_get ops s ?file = Inr fc"
      using Cons.prems(1) title by (auto simp: Let_def split: sum.splits)
    define fxs where "fxs = apply_fix (fix_env.truncate env) k
        \<lparr>cand_filename = ?file, cand_contents = fc, cand_rego_version = RegoUndefined\<rparr>
        (Some (fixer_options f conf v absol))"
    have step: "Option.bind fxs (\<lambda>res. case res of
           Inl e \<Rightarrow> Some (s, r, Inl (FixFailed e))
         | Inr [] \<Rightarrow> one_fix_violations env le ops f start k vs s r
         | Inr (fx # _) \<Rightarrow>
             (case fr_rename fx of
                Some rn \<Rightarrow> map_option (\<lambda>(s, r, out). (s, r, case out of
                    Inl e \<Rightarrow> Inl e | Inr fx \<Rightarrow> Inr True))
                  (handle_rename env ops f start rn fx s r)
              | None \<Rightarrow>
                  (case fo_put ops s ?file (fr_contents fx) of
                     (s, Some e) \<Rightarrow> Some (s, r, Inl (ProviderError e))
                   | (s, None) \<Rightarrow> Some (s, add_file_fix r ?file fx, Inr True)))) = Some (t, r', Inr b)"
      using Cons.prems(1) title fc by (simp add: fxs_def Let_def)
    then obtain res where res: "fxs = Some res" by (cases fxs) simp_all
    show ?thesis
    proof (cases res)
      case (Inl e)
      with step res show ?thesis by simp
    next
      case (Inr results)
      show ?thesis
      proof (cases results)
        case Nil
        with step res Inr Cons show ?thesis by simp
      next
        case (Cons fx rest)
        show ?thesis
        proof (cases "fr_rename fx")
          case None
          with step res Inr Cons have "\<exists>e. fo_put ops s ?file (fr_contents fx) = (t, e) \<and> r' = add_file_fix r ?file fx"
            by (auto split: prod.splits option.splits)
          then show ?thesis using put_accounted [OF fc(3)] Cons.prems by blast
        next
          case (Some rn)
          have fx: "apply_fix (fix_env.truncate env) k
              \<lparr>cand_filename = ?file, cand_contents = fc, cand_rego_version = RegoUndefined\<rparr>
              (Some (fixer_options f conf v absol)) = Some (Inr results)" "fx \<in> set results"
            using res Inr Cons by (simp_all add: fxs_def)
          have "rn_from rn \<noteq> rn_to rn"
            using apply_fix_rename [OF fx Some] by (rule conjunct2)
          moreover have "\<exists>fx'. handle_rename env ops f start rn fx s r = Some (t, r', Inr fx')"
            using step res Inr Cons Some
            by (cases "handle_rename env ops f start rn fx s r";
                cases "snd (snd (the (handle_rename env ops f start rn fx s r)))") auto
          ultimately show ?thesis using handle_rename_accounted Cons.prems by blast
        qed
      qed
    qed
  qed
qed

lemma apply_one_fix_accounted:
  "apply_one_fix env le ops f start vs fs s r = Some (t, r', Inr b) \<Longrightarrow>
    inv s \<Longrightarrow> finite (dom (view s)) \<Longrightarrow> report_ok r \<Longrightarrow> accounted s r t r'"
proof (induction fs arbitrary: s r)
  case Nil
  then show ?case by (simp add: accounted_refl)
next
  case (Cons k fs)
  obtain u r1 out where one: "one_fix_violations env le ops f start k vs s r = Some (u, r1, out)"
    using Cons.prems(1) by (auto simp: bind_eq_Some_conv)
  show ?case
  proof (cases out)
    case (Inl e)
    with Cons.prems(1) one show ?thesis by simp
  next
    case (Inr made)
    have acc: "accounted s r u r1"
      using one_fix_accounted [OF one [unfolded Inr] Cons.prems(2-)] .
    show ?thesis
    proof (cases made)
      case True
      with Cons.prems(1) one Inr acc show ?thesis by simp
    next
      case False
      with Cons.prems(1) one Inr have "apply_one_fix env le ops f start vs fs u r1 = Some (t, r', Inr b)" by simp
      from Cons.IH [OF this] accountedD [OF acc] have "accounted u r1 t r'" by simp
      with acc show ?thesis by (rule accounted_trans)
    qed
  qed
qed

lemma fix_loop_accounted:
  assumes "fix_loop env le ops f rls start s r = Some (t, r', None)"
    and "inv s" "finite (dom (view s))" "report_ok r"
  shows "accounted s r t r'"
proof -
  let ?R = "\<lambda>ops' s r (t, r', err). ops' = ops \<longrightarrow> inv s \<longrightarrow> finite (dom (view s)) \<longrightarrow> report_ok r \<longrightarrow>
      err = None \<longrightarrow> accounted s r t r'"
  have "?R ops s r (t, r', None :: fixer_error option)"
  proof (rule fix_loop.raw_induct [where P = "\<lambda>env le ops' f rls start s r y. ?R ops' s r y", OF _ assms(1)])
    fix loop env le and ops' :: "('s, 'r) fp_ops" and f rls start s r and y :: "'s \<times> fix_report \<times> fixer_error option"
    assume IH: "\<And>env le ops' f rls start s r y. loop env le ops' f rls start s r = Some y \<Longrightarrow> ?R ops' s r y"
      and body: "(case fo_to_input ops' s (case versionsMap f of None \<Rightarrow> [] | Some m \<Rightarrow> m) of
        Inl e \<Rightarrow> Some (s, r, Some (ProviderError e))
      | Inr input \<Rightarrow> (case le_lint le rls input of
            Inl e \<Rightarrow> Some (s, r, Some (LinterError e))
          | Inr violations \<Rightarrow>
              if violations = [] then Some (s, r, None)
              else Option.bind (apply_one_fix env le ops' f start violations (registeredFixes f) s r)
                (\<lambda>(s, r, out). case out of
                   Inl e \<Rightarrow> Some (s, r, Some e)
                 | Inr fixMade \<Rightarrow>
                     if \<not> fixMade then Some (s, r, None)
                     else loop env le ops' f rls start s r))) = Some y"
    obtain t r' err where y: "y = (t, r', err)" by (cases y)
    show "?R ops' s r y"
      unfolding y prod.case
    proof (intro impI)
      assume ops: "ops' = ops" and inv: "inv s" "finite (dom (view s))" "report_ok r" and err: "err = None"
      obtain input violations where lint:
        "fo_to_input ops s (case versionsMap f of None \<Rightarrow> [] | Some m \<Rightarrow> m) = Inr input"
        "le_lint le rls input = Inr violations"
        using body y ops err by (auto split: sum.splits)
      show "accounted s r t r'"
      proof (cases "violations = []")
        case True
        with body y ops lint inv show ?thesis by (simp add: accounted_refl)
      next
        case False
        let ?one = "apply_one_fix env le ops f start violations (registeredFixes f) s r"
        have step: "Option.bind ?one
                (\<lambda>(s, r, out). case out of
                   Inl e \<Rightarrow> Some (s, r, Some e)
                 | Inr fixMade \<Rightarrow>
                     if \<not> fixMade then Some (s, r, None)
                     else loop env le ops f rls start s r) = Some (t, r', None)"
          using body [unfolded ops] y lint err False by simp
        then obtain u r1 out where o: "?one = Some (u, r1, out)" by (cases ?one) auto
        with step obtain made where "out = Inr made" by (cases out) auto
        with o step have one: "?one = Some (u, r1, Inr made)"
          "if \<not> made then t = u \<and> r' = r1 else loop env le ops f rls start u r1 = Some (t, r', None)"
          by (auto split: if_splits)
        have acc: "accounted s r u r1" using apply_one_fix_accounted [OF one(1) inv] .
        show ?thesis
        proof (cases made)
          case False
          with one(2) acc show ?thesis by simp
        next
          case True
          with one(2) have "loop env le ops f rls start u r1 = Some (t, r', None)" by simp
          from IH [OF this] accountedD [OF acc] have "accounted u r1 t r'" by simp
          with acc show ?thesis by (rule accounted_trans)
        qed
      qed
    qed
  qed
  with assms(2-) show ?thesis by simp
qed

lemma run_fixer_accounted:
  assumes "run_fixer env le ops f s = Some (t, Inr r)" "inv s" "finite (dom (view s))"
  shows "accounted s new_fix_report t r"
proof -
  have start: "accounted s new_fix_report s new_fix_report"
    using assms(2,3) report_ok_new by (rule accounted_refl)
  show ?thesis
  proof (cases "registeredFixes f")
    case Nil
    with assms(1) start show ?thesis by (simp add: run_fixer_def)
  next
    case (Cons k ks)
    with assms(1) have "apply_linter_fixes env le ops f s new_fix_report = Some (t, r, None)"
      by (auto simp: run_fixer_def split: option.splits)
    then obtain rls files where "fix_loop env le ops f rls files s new_fix_report = Some (t, r, None)"
      by (auto simp: apply_linter_fixes_def Let_def split: sum.splits option.splits)
    then show ?thesis using fix_loop_accounted assms(2,3) report_ok_new by blast
  qed
qed

end

section \<open>Properties of a run in memory\<close>

lemma finite_mem_view [simp]: "finite (dom (mem_view p))"
  by (rule finite_dom_map_of)


section \<open>The search for a free name ends\<close>

lemma last_index_byte_at: "c \<notin> set e \<Longrightarrow> last_index_byte (a @ c # e) c = int (length a)"
  by (simp add: last_index_byte_def index_byte_append)

lemma last_index_byte_none: "c \<notin> set e \<Longrightarrow> last_index_byte e c = - 1"
  by (simp add: last_index_byte_def index_byte_None [THEN iffD2])

lemma last_index_byte_split:
  assumes "last_index_byte s c = i"
  shows "i = - 1 \<and> c \<notin> set s \<or> (\<exists>a e. s = a @ c # e \<and> c \<notin> set e \<and> i = int (length a))"
proof (cases "c \<in> set s")
  case True
  then obtain a e where "s = a @ c # e" "c \<notin> set e" by (metis split_list_last)
  then have "s = a @ c # e \<and> c \<notin> set e \<and> i = int (length a)"
    using assms by (simp add: last_index_byte_at)
  then show ?thesis by blast
next
  case False
  with assms show ?thesis by (simp add: last_index_byte_none)
qed

lemma fp_split_rooted:
  assumes "clean_list True (es @ [n])"
  obtains d where "fp_split (rooted (es @ [n])) = (d, n)"
    "\<And>e. elem_ok e \<Longrightarrow> e \<noteq> ''..'' \<Longrightarrow> fp_join [d, e] = rooted (es @ [e])"
proof -
  have n: "sep \<notin> set n" and es: "clean_list True es" using assms by (auto simp: clean_list_snoc elem_ok_def)
  define x where "x = (if es = [] then [] else join_str ''/'' es @ [sep])"
  have "fp_split (rooted (es @ [n])) = (sep # x, n)"
  proof (cases "es = []")
    case True
    then show ?thesis
      using last_index_byte_at [OF n, of "[]"] by (simp add: fp_split_def unclean_def x_def)
  next
    case False
    then have "rooted (es @ [n]) = (sep # join_str ''/'' es) @ sep # n"
      by (simp add: unclean_def join_str_append)
    then show ?thesis
      using last_index_byte_at [OF n, of "sep # join_str ''/'' es"] False
      by (simp add: fp_split_def x_def nat_add_distrib)
  qed
  moreover have "fp_join [sep # x, e] = rooted (es @ [e])" if e: "elem_ok e" "e \<noteq> ''..''" for e
  proof -
    have "fp_join [sep # x, e] = fp_clean (sep # (x @ sep # e))"
      by (simp add: fp_join_def)
    also have "\<dots> = rooted (clean_elems True (split_byte sep (x @ sep # e)))" by (rule fp_clean_rooted)
    also have "clean_elems True (split_byte sep (x @ sep # e)) = es @ [e]"
    proof (cases "es = []")
      case True
      then show ?thesis
        using e by (simp add: x_def split_byte_no_sep elem_ok_def clean_elems_def clean_step_def)
    next
      case False
      have "split_byte sep (x @ sep # e) = es @ ['''', e]"
        using False e split_join_sep [OF False clean_list_ok [OF es]]
        by (simp add: x_def split_byte_sep split_byte_no_sep elem_ok_def)
      moreover have "clean_elems True (es @ ['''', e]) = clean_elems True (es @ [e])"
        by (simp add: clean_elems_def clean_step_def [of True _ "''''"])
      ultimately show ?thesis
        using clean_elems_fixed [of True "es @ [e]"] es e by (simp add: clean_list_snoc)
    qed
    finally show ?thesis .
  qed
  ultimately show ?thesis using that by blast
qed

text \<open>The shape of the names the search goes through.\<close>

definition numbered_name :: "string \<Rightarrow> string \<Rightarrow> string \<Rightarrow> nat \<Rightarrow> string" where
  "numbered_name stem suffix ext k = (stem @ ''_'' @ itoa k) @ suffix @ ext"

definition name_parts_ok :: "string \<Rightarrow> string \<Rightarrow> string \<Rightarrow> bool" where
  "name_parts_ok stem suffix ext \<longleftrightarrow> sep \<notin> set stem \<and> newline \<notin> set stem
     \<and> (suffix = '''' \<or> suffix = ''_test'')
     \<and> (ext = '''' \<and> CHR ''.'' \<notin> set stem
        \<or> (\<exists>e. ext = CHR ''.'' # e \<and> CHR ''.'' \<notin> set e \<and> sep \<notin> set e))"

definition atoi_ok :: "(string \<Rightarrow> int) \<Rightarrow> bool" where
  "atoi_ok atoi \<longleftrightarrow> (\<forall>d. is_dec d \<longrightarrow> 0 \<le> atoi d) \<and> (\<forall>k. int k < 2 ^ 63 \<longrightarrow> atoi (itoa k) = int k)"

lemma digit_not:
  "\<not> is_digit CHR ''_''" "\<not> is_digit CHR ''.''" "\<not> is_digit sep" "\<not> is_digit newline" "\<not> is_digit CHR ''t''"
  by (simp_all add: is_digit_def)

lemma itoa_not: "\<not> is_digit c \<Longrightarrow> c \<notin> set (itoa k)"
  using itoa_digits by blast

lemma elem_ok_numbered:
  assumes "name_parts_ok stem suffix ext"
  shows "elem_ok (numbered_name stem suffix ext k)" "numbered_name stem suffix ext k \<noteq> ''..''"
proof -
  have "CHR ''_'' \<in> set (numbered_name stem suffix ext k)" by (simp add: numbered_name_def)
  moreover have "sep \<notin> set (numbered_name stem suffix ext k)"
    using assms itoa_not [OF digit_not(3)] by (auto simp: numbered_name_def name_parts_ok_def)
  ultimately show "elem_ok (numbered_name stem suffix ext k)" "numbered_name stem suffix ext k \<noteq> ''..''"
    by (auto simp: elem_ok_def)
qed

lemma numbered_base_numbered:
  assumes "newline \<notin> set stem" shows "numbered_base (stem @ ''_'' @ itoa k) = Some (stem, itoa k)"
proof -
  have "last_index_byte (stem @ CHR ''_'' # itoa k) CHR ''_'' = int (length stem)"
    using itoa_not [OF digit_not(1)] by (rule last_index_byte_at)
  then show ?thesis using assms by (simp add: numbered_base_def nat_add_distrib)
qed

lemma int_wrap_small: "- (2 ^ 63) \<le> i \<Longrightarrow> i < 2 ^ 63 \<Longrightarrow> int_wrap i = i"
  by (simp add: int_wrap_def)

text \<open>What a name is taken apart into, and the candidate it gives.\<close>

lemma cut_suffix_cases:
  obtains (cut) r where "cut_suffix s p = (r, True)" "s = r @ p"
    | (not_cut) "cut_suffix s p = (s, False)" "\<not> has_suffix s p"
  by (cases "has_suffix s p") (auto simp: cut_suffix_def has_suffix_iff)

lemma fp_ext_no_sep:
  assumes "sep \<notin> set n"
  shows "fp_ext n = (let i = last_index_byte n CHR ''.'' in if i < 0 then '''' else drop (nat i) n)"
proof -
  have "snd (fp_split n) = n" using assms by (simp add: fp_split_def last_index_byte_none)
  then show ?thesis by (simp add: fp_ext_def)
qed

lemma fp_ext_name:
  assumes "sep \<notin> set n"
  obtains "fp_ext n = ''''" "CHR ''.'' \<notin> set n"
    | a e where "n = a @ CHR ''.'' # e" "CHR ''.'' \<notin> set e" "fp_ext n = CHR ''.'' # e"
proof -
  note s = fp_ext_no_sep [OF assms]
  from last_index_byte_split [OF refl, of n "CHR ''.''"] show ?thesis
  proof (elim disjE conjE exE)
    assume "last_index_byte n CHR ''.'' = - 1" "CHR ''.'' \<notin> set n"
    then show ?thesis using that(1) s by simp
  next
    fix a e assume "n = a @ CHR ''.'' # e" "CHR ''.'' \<notin> set e" "last_index_byte n CHR ''.'' = int (length a)"
    then show ?thesis using that(2) [of a e] s by simp
  qed
qed

lemma numbered_base_Some:
  assumes "numbered_base s = Some (b, d)"
  shows "s = b @ ''_'' @ d" "is_dec d" "newline \<notin> set b"
proof -
  have "0 \<le> last_index_byte s CHR ''_''" "is_dec d" "newline \<notin> set b"
    "b = take (nat (last_index_byte s CHR ''_'')) s" "d = drop (nat (last_index_byte s CHR ''_'') + 1) s"
    using assms by (simp_all add: numbered_base_def Let_def split: if_splits)
  with last_index_byte_split [OF refl, of s "CHR ''_''"]
  show "s = b @ ''_'' @ d" "is_dec d" "newline \<notin> set b" by auto
qed

text \<open>The number in a name that the search starts from.\<close>

definition start_number :: "'r fixer_env \<Rightarrow> string \<Rightarrow> nat" where
  "start_number env n =
     (let ext = fp_ext n; base = fst (cut_suffix (trim_suffix n ext) ''_test'')
      in case numbered_base base of Some (b, d) \<Rightarrow> nat (fx_atoi env d) | None \<Rightarrow> 0)"

lemma rename_candidate_numbered:
  assumes n: "clean_list True (es @ [n])" "newline \<notin> set n" and atoi: "atoi_ok (fx_atoi env)"
    and small: "int (start_number env n) + 1 < 2 ^ 63"
  obtains stem suffix ext where "name_parts_ok stem suffix ext"
    "rename_candidate env (rooted (es @ [n])) = rooted (es @ [numbered_name stem suffix ext (start_number env n + 1)])"
proof -
  obtain d where d: "fp_split (rooted (es @ [n])) = (d, n)"
    and join: "\<And>e. elem_ok e \<Longrightarrow> e \<noteq> ''..'' \<Longrightarrow> fp_join [d, e] = rooted (es @ [e])"
    using fp_split_rooted [OF n(1)] by blast
  have sep: "sep \<notin> set n" using n(1) by (simp add: clean_list_snoc elem_ok_def)
  obtain s where s: "n = s @ fp_ext n" and ext: "fp_ext n = '''' \<and> CHR ''.'' \<notin> set s
      \<or> (\<exists>e. fp_ext n = CHR ''.'' # e \<and> CHR ''.'' \<notin> set e \<and> sep \<notin> set e)"
  proof (rule fp_ext_name [OF sep])
    assume "fp_ext n = ''''" "CHR ''.'' \<notin> set n"
    with that [of n] show ?thesis by simp
  next
    fix a e assume a: "n = a @ CHR ''.'' # e" "CHR ''.'' \<notin> set e" "fp_ext n = CHR ''.'' # e"
    then have "sep \<notin> set e" using sep by simp
    with a that [of a] show ?thesis by simp
  qed
  have trim: "trim_suffix n (fp_ext n) = s" using s trim_suffix_append by metis
  obtain base suffix isTest where cut: "cut_suffix s ''_test'' = (base, isTest)" "s = base @ suffix"
    "suffix = (if isTest then ''_test'' else '''')"
  proof (rule cut_suffix_cases [of s "''_test''"])
    fix r assume "cut_suffix s ''_test'' = (r, True)" "s = r @ ''_test''"
    with that [of r True "''_test''"] show ?thesis by simp
  next
    assume "cut_suffix s ''_test'' = (s, False)"
    with that [of s False "''''"] show ?thesis by simp
  qed
  define k where "k = start_number env n"
  have k: "k = (case numbered_base base of Some (b, d) \<Rightarrow> nat (fx_atoi env d) | None \<Rightarrow> 0)"
    by (simp add: k_def start_number_def trim cut(1))
  define stem where "stem = (case numbered_base base of Some (b, d) \<Rightarrow> b | None \<Rightarrow> base)"
  have sub: "set stem \<subseteq> set base"
    by (auto simp: stem_def split: option.splits dest!: numbered_base_Some(1))
  have "set base \<subseteq> set s" using cut(2) by simp
  moreover have "set s \<subseteq> set n" using s by (metis set_append sup_ge1)
  ultimately have "set base \<subseteq> set n" "set base \<subseteq> set s" by simp_all
  with sub ext sep n(2) have parts: "name_parts_ok stem suffix (fp_ext n)"
    using cut(3) by (auto simp: name_parts_ok_def)
  have num: "(case numbered_base base of
        Some (b, d) \<Rightarrow> b @ ''_'' @ itoa_int (int_wrap (fx_atoi env d + 1)) | None \<Rightarrow> base @ ''_1'')
      = stem @ ''_'' @ itoa (k + 1)"
  proof (cases "numbered_base base")
    case None
    have "itoa 1 = ''1''" by code_simp
    with None show ?thesis by (simp add: stem_def k)
  next
    case (Some bd)
    then obtain b d where bd: "numbered_base base = Some (b, d)" by (cases bd) simp
    then have "0 \<le> fx_atoi env d" using atoi numbered_base_Some(2) by (auto simp: atoi_ok_def)
    moreover have "int k + 1 < 2 ^ 63" using small by (simp add: k_def)
    ultimately show ?thesis
      using bd by (simp add: stem_def k int_wrap_small itoa_int_def nat_add_distrib)
  qed
  have "rename_candidate env (rooted (es @ [n])) = fp_join [d, numbered_name stem suffix (fp_ext n) (k + 1)]"
    using num cut by (simp add: rename_candidate_def d trim numbered_name_def split: option.splits prod.splits)
  then have "rename_candidate env (rooted (es @ [n]))
      = rooted (es @ [numbered_name stem suffix (fp_ext n) (k + 1)])"
    using join elem_ok_numbered [OF parts] by simp
  with that parts show ?thesis unfolding k_def by blast
qed

lemma cut_suffix_numbered:
  assumes "suffix = '''' \<or> suffix = ''_test''"
  shows "cut_suffix ((stem @ ''_'' @ itoa k) @ suffix) ''_test'' = (stem @ ''_'' @ itoa k, suffix \<noteq> '''')"
proof (cases "suffix = ''''")
  case True
  have "\<not> has_suffix (stem @ ''_'' @ itoa k) ''_test''"
  proof
    assume "has_suffix (stem @ ''_'' @ itoa k) ''_test''"
    then obtain r where "stem @ ''_'' @ itoa k = r @ ''_test''" by (auto simp: has_suffix_iff)
    then have "last (stem @ ''_'' @ itoa k) = last (r @ ''_test'')" by simp
    then have "last (itoa k) = CHR ''t''" by simp
    then have "CHR ''t'' \<in> set (itoa k)" by (metis itoa_nonempty last_in_set)
    with itoa_not [OF digit_not(5)] show False by blast
  qed
  with True show ?thesis by (simp add: cut_suffix_def)
next
  case False
  with assms have s: "suffix = ''_test''" by simp
  have "has_suffix ((stem @ ''_'' @ itoa k) @ ''_test'') ''_test''" by (rule has_suffix_append)
  then show ?thesis unfolding s cut_suffix_def by simp
qed

lemma fp_ext_numbered:
  assumes "name_parts_ok stem suffix ext"
  shows "fp_ext (numbered_name stem suffix ext k) = ext"
proof -
  let ?n = "numbered_name stem suffix ext k"
  have sep: "sep \<notin> set ?n" using elem_ok_numbered(1) [OF assms] by (simp add: elem_ok_def)
  note s = fp_ext_no_sep [OF sep]
  show ?thesis
  proof (cases "ext = ''''")
    case True
    then have "CHR ''.'' \<notin> set ?n"
      using assms itoa_not [OF digit_not(2)] by (auto simp: numbered_name_def name_parts_ok_def)
    with s True show ?thesis by (simp add: last_index_byte_none)
  next
    case False
    with assms obtain e where e: "ext = CHR ''.'' # e" "CHR ''.'' \<notin> set e" by (auto simp: name_parts_ok_def)
    define b where "b = (stem @ ''_'' @ itoa k) @ suffix"
    have n: "?n = b @ CHR ''.'' # e" by (simp add: numbered_name_def b_def e(1))
    show ?thesis using s e unfolding n by (simp add: last_index_byte_at)
  qed
qed

lemma rename_candidate_next:
  assumes es: "clean_list True es" and parts: "name_parts_ok stem suffix ext" and atoi: "atoi_ok (fx_atoi env)"
    and small: "int k + 1 < 2 ^ 63"
  shows "rename_candidate env (rooted (es @ [numbered_name stem suffix ext k]))
    = rooted (es @ [numbered_name stem suffix ext (k + 1)])"
proof -
  let ?n = "numbered_name stem suffix ext k"
  have clean: "clean_list True (es @ [?n])" using es elem_ok_numbered [OF parts] by (simp add: clean_list_snoc)
  obtain d where d: "fp_split (rooted (es @ [?n])) = (d, ?n)"
    and join: "\<And>e. elem_ok e \<Longrightarrow> e \<noteq> ''..'' \<Longrightarrow> fp_join [d, e] = rooted (es @ [e])"
    using fp_split_rooted [OF clean] by blast
  have suf: "suffix = '''' \<or> suffix = ''_test''" and nl: "newline \<notin> set stem"
    using parts by (simp_all add: name_parts_ok_def)
  have "?n = ((stem @ ''_'' @ itoa k) @ suffix) @ ext" by (simp add: numbered_name_def)
  then have trim: "trim_suffix ?n ext = (stem @ ''_'' @ itoa k) @ suffix" by (metis trim_suffix_append)
  have "fx_atoi env (itoa k) = int k" using atoi small by (simp add: atoi_ok_def)
  then have num: "itoa_int (int_wrap (fx_atoi env (itoa k) + 1)) = itoa (k + 1)"
    using small by (simp add: int_wrap_small itoa_int_def nat_add_distrib)
  have "rename_candidate env (rooted (es @ [?n])) = fp_join [d, numbered_name stem suffix ext (k + 1)]"
    unfolding rename_candidate_def d Let_def prod.case fp_ext_numbered [OF parts] trim cut_suffix_numbered [OF suf]
      numbered_base_numbered [OF nl] option.case num
    using suf by (auto simp: numbered_name_def)
  then show ?thesis using join elem_ok_numbered [OF parts] by simp
qed

lemma candidate_chain:
  assumes n: "clean_list True (es @ [n])" "newline \<notin> set n" and atoi: "atoi_ok (fx_atoi env)"
    and small: "int (start_number env n) + int N + 1 < 2 ^ 63"
  obtains stem suffix ext where "name_parts_ok stem suffix ext"
    "\<And>j. j \<le> N \<Longrightarrow> (rename_candidate env ^^ Suc j) (rooted (es @ [n]))
        = rooted (es @ [numbered_name stem suffix ext (start_number env n + 1 + j)])"
proof -
  have es: "clean_list True es" using n(1) by (simp add: clean_list_snoc)
  have "int (start_number env n) + 1 < 2 ^ 63" using small by simp
  from rename_candidate_numbered [OF n atoi this] obtain stem suffix ext where
    parts: "name_parts_ok stem suffix ext"
    and first: "rename_candidate env (rooted (es @ [n])) = rooted (es @ [numbered_name stem suffix ext (start_number env n + 1)])"
    by blast
  have "(rename_candidate env ^^ Suc j) (rooted (es @ [n]))
      = rooted (es @ [numbered_name stem suffix ext (start_number env n + 1 + j)])" if "j \<le> N" for j
    using that
  proof (induction j)
    case 0
    then show ?case using first by simp
  next
    case (Suc j)
    then have b: "int (start_number env n + 1 + j) + 1 < 2 ^ 63" using small by simp
    have "(rename_candidate env ^^ Suc (Suc j)) (rooted (es @ [n]))
        = rename_candidate env ((rename_candidate env ^^ Suc j) (rooted (es @ [n])))" by simp
    also have "\<dots> = rename_candidate env (rooted (es @ [numbered_name stem suffix ext (start_number env n + 1 + j)]))"
      using Suc by simp
    also have "\<dots> = rooted (es @ [numbered_name stem suffix ext (start_number env n + 1 + j + 1)])"
      by (rule rename_candidate_next [OF es parts atoi b])
    finally show ?case by simp
  qed
  with parts that show ?thesis by blast
qed

context file_provider
begin

text \<open>If one of the candidates is free, the loop finds a free path.\<close>

lemma rename_loop_finds:
  assumes "inv s" "view s a = Some v"
  shows "view s ((rename_candidate env ^^ m) b) = None \<Longrightarrow>
    \<exists>i\<le>m. \<exists>t. rename_loop env ops on_conflict_rename a s b = Some (t, RenamedTo ((rename_candidate env ^^ i) b))"
proof (induction m arbitrary: b)
  case 0
  then have "view s b = None" by simp
  from rename_moves [OF assms this] have "\<exists>t. fo_rename ops s a b = (t, None)" by blast
  then show ?case by (subst rename_loop.simps) auto
next
  case (Suc m)
  show ?case
  proof (cases "view s b = None")
    case True
    from rename_moves [OF assms this] have "\<exists>t. fo_rename ops s a b = (t, None)" by blast
    then have "\<exists>t. rename_loop env ops on_conflict_rename a s b = Some (t, RenamedTo ((rename_candidate env ^^ 0) b))"
      by (subst rename_loop.simps) auto
    then show ?thesis by blast
  next
    case False
    have next_eq: "rename_loop env ops on_conflict_rename a s b
        = rename_loop env ops on_conflict_rename a s (rename_candidate env b)"
      using rename_conflict [OF assms(1) _ False] assms(2)
      by (subst rename_loop.simps) (simp add: on_conflict_rename_def on_conflict_error_def)
    have "view s ((rename_candidate env ^^ m) (rename_candidate env b)) = None"
      using Suc.prems by (simp add: funpow_swap1)
    from Suc.IH [OF this] obtain i t where "i \<le> m"
      "rename_loop env ops on_conflict_rename a s b
        = Some (t, RenamedTo ((rename_candidate env ^^ i) (rename_candidate env b)))"
      unfolding next_eq by blast
    then show ?thesis by (intro exI [of _ "Suc i"] conjI exI [of _ t]) (simp_all add: funpow_swap1)
  qed
qed

lemma rename_loop_ends:
  assumes s: "inv s" "view s a = Some v" "finite (dom (view s))"
    and n: "clean_list True (es @ [n])" "newline \<notin> set n" and atoi: "atoi_ok (fx_atoi env)"
    and small: "int (start_number env n) + int (card (dom (view s))) + 1 < 2 ^ 63"
  shows "\<exists>t n'. rename_loop env ops on_conflict_rename a s (rooted (es @ [n])) = Some (t, RenamedTo (rooted (es @ [n'])))
    \<and> view s (rooted (es @ [n'])) = None \<and> view t = (view s)(rooted (es @ [n']) \<mapsto> v, a := None)"
proof -
  let ?b = "rooted (es @ [n])" and ?N = "card (dom (view s))"
  obtain stem suffix ext where parts: "name_parts_ok stem suffix ext"
    and chain: "\<And>j. j \<le> ?N \<Longrightarrow> (rename_candidate env ^^ Suc j) ?b
        = rooted (es @ [numbered_name stem suffix ext (start_number env n + 1 + j)])"
    using candidate_chain [OF n atoi small] by blast
  have es: "clean_list True es" using n(1) by (simp add: clean_list_snoc)
  let ?c = "\<lambda>j. rooted (es @ [numbered_name stem suffix ext (start_number env n + 1 + j)])"
  have "inj_on ?c {..?N}"
  proof (rule inj_onI)
    fix i j assume eq: "?c i = ?c j"
    have "clean_list True (es @ [numbered_name stem suffix ext k])" for k
      using es elem_ok_numbered [OF parts] by (simp add: clean_list_snoc)
    then have "numbered_name stem suffix ext (start_number env n + 1 + i)
        = numbered_name stem suffix ext (start_number env n + 1 + j)"
      using eq rooted_inj by blast
    then show "i = j" by (simp add: numbered_name_def)
  qed
  then have "card (?c ` {..?N}) = Suc ?N" by (simp add: card_image)
  then have "\<not> ?c ` {..?N} \<subseteq> dom (view s)"
    using card_mono [OF s(3)] by (metis Suc_n_not_le_n)
  then obtain j where j: "j \<le> ?N" "view s (?c j) = None" by auto
  then have "view s ((rename_candidate env ^^ Suc j) ?b) = None" using chain [OF j(1)] by simp
  from rename_loop_finds [OF s(1,2) this] obtain i t where
    i: "i \<le> Suc j" "rename_loop env ops on_conflict_rename a s ?b = Some (t, RenamedTo ((rename_candidate env ^^ i) ?b))"
    by blast
  obtain n' where n': "(rename_candidate env ^^ i) ?b = rooted (es @ [n'])"
  proof (cases i)
    case 0
    then show ?thesis using that [of n] by simp
  next
    case (Suc l)
    then show ?thesis using that chain [of l] i(1) j(1) by (metis Suc_le_mono le_trans)
  qed
  note r = rename_loop_result [OF i(2) s(1)]
  then show ?thesis using i(2) s(2) unfolding n' by auto
qed

end

text \<open>C12. With \<open>OnConflictRename\<close> a rename ends and succeeds: the search of numbered names in the target's
  directory reaches a free path after at most as many steps as there are files, the content is moved there
  and no file is overwritten. Assumed are the documented behaviour of OPA's \<open>Atoi\<close> on decimal numbers, and
  that the number in the target's name is far enough from the largest \<open>int\<close>.\<close>

theorem rename_on_conflict_ends:
  assumes "mem_wf s" "map_of (mem_files s) a = Some v"
    and "clean_list True (es @ [n])" "newline \<notin> set n" and "atoi_ok (fx_atoi env)"
    and "int (start_number env n) + int (length (mem_files s)) + 1 < 2 ^ 63"
  shows "\<exists>t n'. rename_loop env (mem_ops renv) on_conflict_rename a s (rooted (es @ [n]))
        = Some (t, RenamedTo (rooted (es @ [n'])))
    \<and> map_of (mem_files s) (rooted (es @ [n'])) = None
    \<and> map_of (mem_files t) = (map_of (mem_files s))(rooted (es @ [n']) \<mapsto> v, a := None)"
proof (rule mem.rename_loop_ends [OF assms(1,2) finite_mem_view assms(3-5)])
  have "card (dom (mem_view s)) \<le> length (mem_files s)"
    by (metis card_length dom_map_of_conv_image_fst length_map set_map)
  with assms(6) show "int (start_number env n) + int (card (dom (mem_view s))) + 1 < 2 ^ 63" by simp
qed

definition sample_fixer_env :: "unit fixer_env" where
  "sample_fixer_env = \<lparr>parse_module_with_opts = parse_module_with_opts sample_fix_env, read_file = \<lambda>p. Inr '''',
     keys_sorted = \<lambda>ks. ks, format_ast = \<lambda>v m. Inr '''', term_string = term_string sample_fix_env,
     fx_atoi = \<lambda>d. int (dec_value d), fx_abs = Inr\<rparr>"

lemma rename_on_conflict_ends_witness:
  "\<exists>t n'. rename_loop sample_fixer_env (mem_ops sample_rules_env) on_conflict_rename ''/x''
      (new_mem [(''/x'', ''p''), (''/d/a.rego'', ''q'')]) ''/d/a.rego'' = Some (t, RenamedTo (rooted ([''d''] @ [n'])))
    \<and> map_of (mem_files t) (rooted ([''d''] @ [n'])) = (if rooted ([''d''] @ [n']) = ''/x'' then None else Some ''p'')"
proof -
  let ?s = "new_mem [(''/x'', ''p''), (''/d/a.rego'', ''q'')]"
  have wf: "mem_wf ?s" "map_of (mem_files ?s) ''/x'' = Some ''p''" by (simp_all add: mem_wf_def new_mem_def)
  have n: "clean_list True ([''d''] @ [''a.rego''])" "newline \<notin> set ''a.rego''"
    by (simp_all add: clean_list_def elem_ok_def)
  have atoi: "atoi_ok (fx_atoi sample_fixer_env)" by (simp add: atoi_ok_def sample_fixer_env_def)
  have "start_number sample_fixer_env ''a.rego'' = 0" by code_simp
  then have small: "int (start_number sample_fixer_env ''a.rego'') + int (length (mem_files ?s)) + 1 < 2 ^ 63"
    by (simp add: new_mem_def)
  have path: "rooted ([''d''] @ [''a.rego'']) = ''/d/a.rego''" by (simp add: unclean_def)
  from rename_on_conflict_ends [OF wf n atoi small, of sample_rules_env] show ?thesis
    unfolding path by (elim exE conjE) (intro exI conjI, assumption, simp)
qed


section \<open>\<open>FixViolations\<close> and moved files\<close>

text \<open>\<open>FixViolations\<close>, which has no \<open>continue\<close> after a rename, writes the moved file back to its old
  path: the content is then at both paths, and one violation is counted and listed as two fixes.\<close>

theorem fix_violations_keeps_moved_file:
  assumes "mem_wf s" "l_file (v_location v) = path" "map_of (mem_files s) path = Some fc"
    and "get_fix_for_name f (v_title v) = Some k" "fx_abs env path = Inr absol"
    and "apply_fix (fix_env.truncate env) k
        \<lparr>cand_filename = path, cand_contents = fc, cand_rego_version = RegoUndefined\<rparr>
        (Some (fixer_options f conf v absol)) = Some (Inr (fx # rest))"
    and "fr_rename fx = Some rn" "map_of (mem_files s) (rn_to rn) = None"
  shows "\<exists>t r. fix_violations env (mem_ops renv) f [v] conf s = Some (t, Inr r)
    \<and> map_of (mem_files t) path = Some (fr_contents fx) \<and> map_of (mem_files t) (rn_to rn) = Some fc
    \<and> total_fixes r = 2 \<and> set (fixed_files r) = {path, rn_to rn}"
proof -
  have src: "rn_from rn = path" using apply_fix_rename [OF assms(6) _ assms(7)] by simp
  have ne: "rn_to rn \<noteq> path" using assms(3,8) by auto
  obtain u where u: "mem_rename s path (rn_to rn) = (u, None)"
    "map_of (mem_files u) = (map_of (mem_files s))(rn_to rn \<mapsto> fc, path := None)"
    using mem_rename_result [OF assms(3,8)] by (auto simp: fun_eq_iff)
  have loop: "rename_loop env (mem_ops renv) (onConflictOperation f) path s (rn_to rn) = Some (u, RenamedTo (rn_to rn))"
    using u(1) by (subst rename_loop.simps) (simp add: mem_ops_def)
  have h: "handle_rename env (mem_ops renv) f start rn fx s new_fix_report
      = Some (u, report_move new_fix_report (rn_to rn) path fx, Inr fx)" for start
    using loop by (simp add: handle_rename_def src)
  have "fix_violations env (mem_ops renv) f [v] conf s
      = Some (fst (mem_put u path (fr_contents fx)),
          Inr (add_file_fix (report_move new_fix_report (rn_to rn) path fx) path fx))"
    using assms(2-7) h
    by (simp add: fix_violations_def mem_ops_def mem_list_def mem_get_def mem_put_def Let_def)
  moreover have "set (fixed_files (add_file_fix (report_move new_fix_report (rn_to rn) path fx) path fx)) = {path, rn_to rn}"
    using ne by (auto simp: fixed_files_def sorted_slice_def add_file_fix_def report_move_def register_old_path_def
        merge_fixes_def new_fix_report_def)
  ultimately show ?thesis
    using u(2) ne by (auto simp: mem_put_def total_fixes_def add_file_fix_def report_move_def register_old_path_def
        merge_fixes_def new_fix_report_def)
qed

lemma sample_mismatch:
  "apply_fix (fix_env.truncate sample_fixer_env) DirectoryPackageMismatch
     \<lparr>cand_filename = ''/ws/a.rego'', cand_contents = ''q'', cand_rego_version = RegoUndefined\<rparr>
     (Some \<lparr>ro_config = None, ro_base_dir = ''/ws'', ro_locations = locs, ro_client = IdentifierGeneric\<rparr>)
   = Some (Inr [\<lparr>fr_rename = Some \<lparr>rn_from = ''/ws/a.rego'', rn_to = ''/ws/p/a.rego''\<rparr>,
        fr_title = ''directory-package-mismatch'', fr_root = ''/ws'', fr_contents = ''q''\<rparr>])"
  by code_simp

lemma fix_violations_keeps_moved_file_witness:
  "\<exists>t r. fix_violations sample_fixer_env (mem_ops sample_rules_env)
      (register_roots [''/ws''] (register_fixes [DirectoryPackageMismatch] new_fixer))
      [\<lparr>v_title = ''directory-package-mismatch'', v_description = '''', v_category = '''', v_level = '''',
        v_resources = [], v_location = \<lparr>l_end = None, l_text = None, l_file = ''/ws/a.rego'', l_col = 1, l_row = 1\<rparr>,
        v_aggregate = False\<rparr>] None (new_mem [(''/ws/a.rego'', ''q'')]) = Some (t, Inr r)
    \<and> map_of (mem_files t) ''/ws/a.rego'' = Some ''q'' \<and> map_of (mem_files t) ''/ws/p/a.rego'' = Some ''q''
    \<and> total_fixes r = 2"
proof -
  let ?s = "new_mem [(''/ws/a.rego'', ''q'')]"
  let ?f = "register_roots [''/ws''] (register_fixes [DirectoryPackageMismatch] new_fixer)"
  let ?v = "\<lparr>v_title = ''directory-package-mismatch'', v_description = '''', v_category = '''', v_level = '''',
        v_resources = [], v_location = \<lparr>l_end = None, l_text = None, l_file = ''/ws/a.rego'', l_col = 1, l_row = 1\<rparr>,
        v_aggregate = False\<rparr>"
  let ?fx = "\<lparr>fr_rename = Some \<lparr>rn_from = ''/ws/a.rego'', rn_to = ''/ws/p/a.rego''\<rparr>,
        fr_title = ''directory-package-mismatch'', fr_root = ''/ws'', fr_contents = ''q''\<rparr>"
  have root: "find_closest_matching_root ''/ws/a.rego'' [''/ws''] = ''/ws''" by code_simp
  have opts: "fixer_options ?f None ?v ''/ws/a.rego'' = \<lparr>ro_config = None, ro_base_dir = ''/ws'',
      ro_locations = [v_location ?v], ro_client = IdentifierGeneric\<rparr>"
    by (simp add: fixer_options_def register_roots_def register_fixes_def new_fixer_def root)
  have "\<exists>t r. fix_violations sample_fixer_env (mem_ops sample_rules_env) ?f [?v] None ?s = Some (t, Inr r)
    \<and> map_of (mem_files t) ''/ws/a.rego'' = Some (fr_contents ?fx)
    \<and> map_of (mem_files t) (rn_to \<lparr>rn_from = ''/ws/a.rego'', rn_to = ''/ws/p/a.rego''\<rparr>) = Some ''q''
    \<and> total_fixes r = 2 \<and> set (fixed_files r)
      = {''/ws/a.rego'', rn_to \<lparr>rn_from = ''/ws/a.rego'', rn_to = ''/ws/p/a.rego''\<rparr>}"
  proof (rule fix_violations_keeps_moved_file)
    show "apply_fix (fix_env.truncate sample_fixer_env) DirectoryPackageMismatch
        \<lparr>cand_filename = ''/ws/a.rego'', cand_contents = ''q'', cand_rego_version = RegoUndefined\<rparr>
        (Some (fixer_options ?f None ?v ''/ws/a.rego'')) = Some (Inr (?fx # []))"
      unfolding opts by (rule sample_mismatch)
  qed (simp_all add: mem_wf_def new_mem_def sample_fixer_env_def get_fix_for_name_def register_roots_def
      register_fixes_def new_fixer_def fix_name_def)
  then show ?thesis by auto
qed

end
