(* ===== verification/Linter.thy ===== *)
theory Linter
  imports Report Rules Config_Object File_Walk
begin

text \<open>
  \<open>pkg/linter/linter.go\<close> and \<open>pkg/roast/transform/transform.go\<close>: the linter. A \<open>Linter\<close> is a record, and its
  \<open>With\<close> methods, which have value receivers, are functions from records to records. What is not the
  repository's own code is a field of \<open>lint_env\<close>: OPA's compiler, evaluator and store, its parser, YAML
  merging, the file system and the digest of modules to values. Evaluating a query gives an error, no
  result or one result. Timers, metrics, print hooks and debug output are not modelled, and a nil object is
  the empty one. A panic is \<^term>\<open>None\<close>.
\<close>

section \<open>Environment and state\<close>

record 'r custom_module =
  cm_module :: "'r rego_module"
  cm_file :: "string option"
  cm_pointer :: string

record 'r custom_fs =
  cfs_tree :: "string \<Rightarrow> fs_node option"
  cfs_read :: "string \<Rightarrow> string + string"

datatype store_error = NotFoundErr | OtherStoreErr string

datatype store_op = AddOp | ReplaceOp

record ('q, 'st, 'r, 'g) lint_env =
  lx_ast :: ast_env
  lx_values :: any_env
  lx_fs :: "string \<Rightarrow> fs_node option"
  lx_glob :: "'g glob_env"
  lx_rules :: "'r rules_env"
  lx_stdin :: "string + string"
  lx_parse_custom :: "string \<Rightarrow> string \<Rightarrow> string + 'r custom_module"
  lx_merge :: "config \<Rightarrow> config \<Rightarrow> config_error + config"
  lx_this_version :: capabilities_config
  lx_provided :: config
  lx_find_manifests :: "string \<Rightarrow> config_error + string list"
  lx_manifest :: "string \<Rightarrow> config_error + int option"
  lx_path_for_ref :: "aval list \<Rightarrow> string list option"
  lx_module_value :: "'r rego_module \<Rightarrow> string + aval"
  lx_abs :: "string \<Rightarrow> string option"
  lx_version_string :: "rego_version \<Rightarrow> string"
  lx_capabilities :: aval
  lx_compile :: "aval list \<Rightarrow> (string, 'r custom_module) gomap \<Rightarrow> string + 'q"
  lx_store :: "aobject \<Rightarrow> 'st"
  lx_read :: "'st \<Rightarrow> string list \<Rightarrow> store_error + aval"
  lx_write :: "'st \<Rightarrow> store_op \<Rightarrow> string list \<Rightarrow> aval \<Rightarrow> store_error + 'st"
  lx_commit :: "'st \<Rightarrow> string option"
  lx_eval :: "'q \<Rightarrow> 'st \<Rightarrow> aval \<Rightarrow> string + aval option"
  lx_profile :: "'q \<Rightarrow> 'st \<Rightarrow> aval \<Rightarrow> (string, profile_entry) gomap"
  lx_object_merge :: "aobject \<Rightarrow> aobject \<Rightarrow> aobject option"
  lx_sort_notices :: "notice list \<Rightarrow> notice list"
  lx_sort_entries :: "profile_entry list \<Rightarrow> profile_entry list"

datatype lint_error =
    CustomRules string
  | UnknownNames "string list" "string list"
  | ConfigFailed config_error
  | CompileFailed string
  | EvalFailed string
  | BadResult
  | StoreFailed store_error
  | CommitFailed string
  | ReadFiles filter_error
  | ReadInput rules_error
  | TransformFailed string
  | NothingToLint

record ('q, 'st, 'r) linter =
  l_input_modules :: "'r rules_input option"
  l_user_config :: "config option"
  l_combined_cfg :: "config option"
  l_path_prefix :: string
  l_custom_rule_error :: "string option"
  l_input_paths :: "string list"
  l_rule_bundles :: "'r custom_module list list"
  l_disable :: "string list"
  l_disable_category :: "string list"
  l_enable :: "string list"
  l_enable_category :: "string list"
  l_ignore_files :: "string list"
  l_custom_rule_modules :: "'r custom_module list"
  l_use_collect_query :: bool
  l_debug_mode :: bool
  l_export_aggregates :: bool
  l_disable_all :: bool
  l_enable_all :: bool
  l_profiling :: bool
  l_instrumentation :: bool
  l_is_prepared :: bool
  l_prepared_query :: "('q \<times> 'st) option"

definition eq_ref :: aval where
  "eq_ref = ARef [AVar ''eq'']"

definition lint_query :: "aval list" where
  "lint_query = [eq_ref, AVar ''lint'', ARef [AVar ''data'', AStr ''regal'', AStr ''main'', AStr ''lint'']]"

definition enabled_rules_query :: "aval list" where
  "enabled_rules_query =
     [eq_ref, AVar ''enabled'', ARef [AVar ''data'', AStr ''regal'', AStr ''main'', AStr ''enabled_rules'']]"

definition aggregate_regal_object :: aval where
  "aggregate_regal_object = AObj
     [(AStr ''operations'', AArr [AStr ''aggregate'']),
      (AStr ''file'', AObj [(AStr ''name'', AStr ''__aggregate_report__''), (AStr ''lines'', AArr [])])]"

definition prepared_path :: "string list" where
  "prepared_path = [''internal'', ''prepared'']"

section \<open>Options\<close>

definition new_empty_linter :: "('q, 'st, 'r) linter" where
  "new_empty_linter =
     \<lparr>l_input_modules = None, l_user_config = None, l_combined_cfg = None, l_path_prefix = '''',
      l_custom_rule_error = None, l_input_paths = [], l_rule_bundles = [], l_disable = [],
      l_disable_category = [], l_enable = [], l_enable_category = [], l_ignore_files = [],
      l_custom_rule_modules = [], l_use_collect_query = False, l_debug_mode = False,
      l_export_aggregates = False, l_disable_all = False, l_enable_all = False, l_profiling = False,
      l_instrumentation = False, l_is_prepared = False, l_prepared_query = None\<rparr>"

text \<open>\<open>loaded\<close> is the bundle of built-in rules.\<close>

definition new_linter :: "'r custom_module list \<Rightarrow> ('q, 'st, 'r) linter" where
  "new_linter loaded = new_empty_linter\<lparr>l_rule_bundles := [loaded]\<rparr>"

definition not_prepared :: "('q, 'st, 'r) linter \<Rightarrow> ('q, 'st, 'r) linter" where
  "not_prepared l = l\<lparr>l_is_prepared := False\<rparr>"

definition with_input_paths :: "string list \<Rightarrow> ('q, 'st, 'r) linter \<Rightarrow> ('q, 'st, 'r) linter" where
  "with_input_paths paths l = l\<lparr>l_input_paths := paths\<rparr>"

definition with_input_modules :: "'r rules_input \<Rightarrow> ('q, 'st, 'r) linter \<Rightarrow> ('q, 'st, 'r) linter" where
  "with_input_modules input l = l\<lparr>l_input_modules := Some input\<rparr>"

definition with_added_bundle :: "'r custom_module list \<Rightarrow> ('q, 'st, 'r) linter \<Rightarrow> ('q, 'st, 'r) linter" where
  "with_added_bundle b l = not_prepared (l\<lparr>l_rule_bundles := l_rule_bundles l @ [b]\<rparr>)"

definition with_debug_mode :: "bool \<Rightarrow> ('q, 'st, 'r) linter \<Rightarrow> ('q, 'st, 'r) linter" where
  "with_debug_mode b l = l\<lparr>l_debug_mode := b\<rparr>"

definition with_user_config :: "config \<Rightarrow> ('q, 'st, 'r) linter \<Rightarrow> ('q, 'st, 'r) linter" where
  "with_user_config cfg l = not_prepared (l\<lparr>l_user_config := Some cfg\<rparr>)"

definition with_disabled_rules :: "string list \<Rightarrow> ('q, 'st, 'r) linter \<Rightarrow> ('q, 'st, 'r) linter" where
  "with_disabled_rules disable l = not_prepared (l\<lparr>l_disable := disable\<rparr>)"

definition with_disable_all :: "bool \<Rightarrow> ('q, 'st, 'r) linter \<Rightarrow> ('q, 'st, 'r) linter" where
  "with_disable_all b l = not_prepared (l\<lparr>l_disable_all := b\<rparr>)"

definition with_disabled_categories :: "string list \<Rightarrow> ('q, 'st, 'r) linter \<Rightarrow> ('q, 'st, 'r) linter" where
  "with_disabled_categories cs l = not_prepared (l\<lparr>l_disable_category := cs\<rparr>)"

definition with_enabled_rules :: "string list \<Rightarrow> ('q, 'st, 'r) linter \<Rightarrow> ('q, 'st, 'r) linter" where
  "with_enabled_rules enable l = not_prepared (l\<lparr>l_enable := enable\<rparr>)"

definition with_enable_all :: "bool \<Rightarrow> ('q, 'st, 'r) linter \<Rightarrow> ('q, 'st, 'r) linter" where
  "with_enable_all b l = not_prepared (l\<lparr>l_enable_all := b\<rparr>)"

definition with_enabled_categories :: "string list \<Rightarrow> ('q, 'st, 'r) linter \<Rightarrow> ('q, 'st, 'r) linter" where
  "with_enabled_categories cs l = not_prepared (l\<lparr>l_enable_category := cs\<rparr>)"

definition with_ignore :: "string list \<Rightarrow> ('q, 'st, 'r) linter \<Rightarrow> ('q, 'st, 'r) linter" where
  "with_ignore ps l = not_prepared (l\<lparr>l_ignore_files := ps\<rparr>)"

definition with_profiling :: "bool \<Rightarrow> ('q, 'st, 'r) linter \<Rightarrow> ('q, 'st, 'r) linter" where
  "with_profiling b l = l\<lparr>l_profiling := b\<rparr>"

definition with_instrumentation :: "bool \<Rightarrow> ('q, 'st, 'r) linter \<Rightarrow> ('q, 'st, 'r) linter" where
  "with_instrumentation b l = l\<lparr>l_instrumentation := b\<rparr>"

definition with_path_prefix :: "string \<Rightarrow> ('q, 'st, 'r) linter \<Rightarrow> ('q, 'st, 'r) linter" where
  "with_path_prefix prefix l = not_prepared (l\<lparr>l_path_prefix := prefix\<rparr>)"

definition with_export_aggregates :: "bool \<Rightarrow> ('q, 'st, 'r) linter \<Rightarrow> ('q, 'st, 'r) linter" where
  "with_export_aggregates b l = l\<lparr>l_export_aggregates := b\<rparr>"

definition with_collect_query :: "bool \<Rightarrow> ('q, 'st, 'r) linter \<Rightarrow> ('q, 'st, 'r) linter" where
  "with_collect_query b l = l\<lparr>l_use_collect_query := b\<rparr>"

section \<open>Custom rules\<close>

text \<open>\<open>rio.ModulesFromCustomRuleFS\<close>.\<close>

definition custom_rule_reducer :: "('q, 'st, 'r, 'g) lint_env \<Rightarrow> 'r custom_fs \<Rightarrow> string
    \<Rightarrow> (string, 'r custom_module) gomap \<Rightarrow> (string, 'r custom_module) gomap \<times> string option" where
  "custom_rule_reducer env f path mods =
     (case cfs_read f path of
        Inl e \<Rightarrow> (mods, Some e)
      | Inr bs \<Rightarrow> (case lx_parse_custom env path bs of
            Inl e \<Rightarrow> (mods, Some e)
          | Inr m \<Rightarrow> (map_set mods path m, None)))"

definition modules_from_custom_rule_fs :: "('q, 'st, 'r, 'g) lint_env \<Rightarrow> 'r custom_fs \<Rightarrow> string
    \<Rightarrow> string walk_error + (string, 'r custom_module) gomap" where
  "modules_from_custom_rule_fs env f rootPath =
     (case walker_walk (cfs_tree f) (with_filters [rego_tests] (default_walker rootPath))
         (custom_rule_reducer env f) [] of
        (mods, Some e) \<Rightarrow> Inl e
      | (mods, None) \<Rightarrow> Inr mods)"

fun walk_error_text :: "string walk_error \<Rightarrow> string" where
  "walk_error_text RootEmpty = ''root''"
| "walk_error_text (StatFailed p) = p"
| "walk_error_text (WalkFailed p) = p"
| "walk_error_text (CallbackFailed e) = e"

definition with_custom_rules_from_fs :: "('q, 'st, 'r, 'g) lint_env \<Rightarrow> 'r custom_fs option \<Rightarrow> string
    \<Rightarrow> ('q, 'st, 'r) linter \<Rightarrow> ('q, 'st, 'r) linter" where
  "with_custom_rules_from_fs env f rootPath l = not_prepared
     (case f of
        None \<Rightarrow> l
      | Some f \<Rightarrow> (case modules_from_custom_rule_fs env f rootPath of
            Inl e \<Rightarrow> l\<lparr>l_custom_rule_error := Some (walk_error_text e)\<rparr>
          | Inr mods \<Rightarrow> l\<lparr>l_custom_rule_modules := l_custom_rule_modules l @ map snd mods\<rparr>))"

text \<open>\<open>os.DirFS(path)\<close> and \<open>fstest.MapFS\<close> with one file.\<close>

definition dir_fs :: "('q, 'st, 'r, 'g) lint_env \<Rightarrow> string \<Rightarrow> 'r custom_fs" where
  "dir_fs env path = \<lparr>cfs_tree = \<lambda>p. lx_fs env (fp_join [path, p]),
     cfs_read = \<lambda>p. read_file (lx_rules env) (fp_join [path, p])\<rparr>"

definition one_file_fs :: "string \<Rightarrow> string \<Rightarrow> 'r custom_fs" where
  "one_file_fs name contents =
     \<lparr>cfs_tree = \<lambda>p. if p = ''.'' then Some (DirNode [(name, FileNode)]) else if p = name then Some FileNode else None,
      cfs_read = \<lambda>p. if p = name then Inr contents else Inl p\<rparr>"

fun with_custom_rules :: "('q, 'st, 'r, 'g) lint_env \<Rightarrow> string list \<Rightarrow> ('q, 'st, 'r) linter
    \<Rightarrow> ('q, 'st, 'r) linter" where
  "with_custom_rules env [] l = not_prepared l"
| "with_custom_rules env (path # paths) l =
     (if (case lx_fs env path of Some (DirNode _) \<Rightarrow> True | _ \<Rightarrow> False)
      then with_custom_rules env paths (with_custom_rules_from_fs env (Some (dir_fs env path)) ''.'' l)
      else case read_file (lx_rules env) path of
        Inl e \<Rightarrow> not_prepared (l\<lparr>l_custom_rule_error := Some e\<rparr>)
      | Inr contents \<Rightarrow> with_custom_rules env paths
          (with_custom_rules_from_fs env (Some (one_file_fs (fp_base path) contents)) ''.'' l))"

definition with_custom_rules_paths :: "('q, 'st, 'r, 'g) lint_env \<Rightarrow> string list \<Rightarrow> ('q, 'st, 'r) linter
    \<Rightarrow> ('q, 'st, 'r) linter" where
  "with_custom_rules_paths env paths l = with_custom_rules env (filter (\<lambda>path. path \<noteq> '''') paths) l"

section \<open>Preparing\<close>

definition linter_config :: "('q, 'st, 'r, 'g) lint_env \<Rightarrow> ('q, 'st, 'r) linter \<Rightarrow> config_error + config" where
  "linter_config env l =
     (case l_combined_cfg l of
        Some c \<Rightarrow> Inr c
      | None \<Rightarrow> with_defaults_from_bundle (lx_merge env) (lx_this_version env) (lx_provided env) (l_user_config l))"

definition custom_modules_map :: "('q, 'st, 'r) linter \<Rightarrow> (string, 'r custom_module) gomap" where
  "custom_modules_map l =
     foldl (\<lambda>m md. case cm_file md of
         Some file \<Rightarrow> map_set m file md
       | None \<Rightarrow> map_set m (''module_'' @ cm_pointer md @ ''.rego'') md) [] (l_custom_rule_modules l)"

definition prepare_data :: "('q, 'st, 'r, 'g) lint_env \<Rightarrow> ('q, 'st, 'r) linter \<Rightarrow> config \<Rightarrow> aobject" where
  "prepare_data env l conf =
     (let userConf = (case l_user_config l of None \<Rightarrow> [] | Some c \<Rightarrow> config_to_object (lx_values env) c) in
      [obj_item ''eval'' (AObj [obj_item ''params'' (AObj
         [obj_item ''disable_all'' (ABool (l_disable_all l)),
          obj_item ''disable_category'' (array_term (l_disable_category l)),
          obj_item ''disable'' (array_term (l_disable l)),
          obj_item ''enable_all'' (ABool (l_enable_all l)),
          obj_item ''enable_category'' (array_term (l_enable_category l)),
          obj_item ''enable'' (array_term (l_enable l)),
          obj_item ''ignore_files'' (array_term (l_ignore_files l))])]),
       obj_item ''internal'' (AObj
         [obj_item ''combined_config'' (AObj (config_to_object (lx_values env) conf)),
          obj_item ''user_config'' (AObj userConf),
          obj_item ''capabilities'' (lx_capabilities env),
          obj_item ''path_prefix'' (AStr (l_path_prefix l)),
          obj_item ''prepared'' ANull])])"

definition module_parts :: "('q, 'st, 'r, 'g) lint_env \<Rightarrow> 'r custom_module \<Rightarrow> string list" where
  "module_parts env m = (case lx_path_for_ref env (mod_package (cm_module m)) of Some ps \<Rightarrow> ps | None \<Rightarrow> [])"

text \<open>The categories and rules that exist: the third and fourth part of a built-in rule's package, the
  fourth and fifth of a custom rule's.\<close>

definition add_valid :: "nat \<Rightarrow> string gset \<times> string gset \<Rightarrow> string list \<Rightarrow> string gset \<times> string gset" where
  "add_valid n valid parts =
     (if length parts \<noteq> n then valid
      else (set_add (fst valid) [parts ! (n - 2)], set_add (snd valid) [parts ! (n - 1)]))"

definition valid_names :: "('q, 'st, 'r, 'g) lint_env \<Rightarrow> ('q, 'st, 'r) linter \<Rightarrow> string gset \<times> string gset" where
  "valid_names env l =
     (let builtin = foldl (\<lambda>v b. foldl (\<lambda>v m. add_valid 4 v (module_parts env m)) v b)
            (new_set [], new_set []) (l_rule_bundles l)
      in foldl (\<lambda>v m. add_valid 5 v (module_parts env m)) builtin (l_custom_rule_modules l))"

definition configured_names :: "('q, 'st, 'r) linter \<Rightarrow> config \<Rightarrow> string gset \<times> string gset" where
  "configured_names l conf =
     (let cs = new_set (map fst (cfg_rules conf));
          rs = foldl (\<lambda>s (category, rls). set_add s (map fst rls)) (new_set []) (cfg_rules conf);
          rs = set_add (set_add rs (l_enable l)) (l_disable l);
          cs = set_add (set_add cs (l_enable_category l)) (l_disable_category l)
      in (cs, rs))"

definition linter_validate :: "('q, 'st, 'r, 'g) lint_env \<Rightarrow> ('q, 'st, 'r) linter \<Rightarrow> config \<Rightarrow> lint_error option" where
  "linter_validate env l conf =
     (case l_custom_rule_error l of
        Some e \<Rightarrow> Some (CustomRules e)
      | None \<Rightarrow>
          let (validCategories, validRules) = valid_names env l;
              (configuredCategories, configuredRules) = configured_names l conf;
              invalidCategories = set_diff configuredCategories validCategories;
              invalidRules = set_diff configuredRules validRules
          in if set_size invalidCategories > 0 \<and> set_size invalidRules > 0
             then Some (UnknownNames invalidCategories invalidRules)
             else if set_size invalidCategories > 0 then Some (UnknownNames invalidCategories [])
             else if set_size invalidRules > 0 then Some (UnknownNames [] invalidRules)
             else None)"

section \<open>Preparing the query\<close>

fun ensure_prefixes :: "('q, 'st, 'r, 'g) lint_env \<Rightarrow> string list list \<Rightarrow> 'st \<Rightarrow> store_error + 'st" where
  "ensure_prefixes env [] st = Inr st"
| "ensure_prefixes env (prefix # prefixes) st =
     (case lx_read env st prefix of
        Inr _ \<Rightarrow> ensure_prefixes env prefixes st
      | Inl NotFoundErr \<Rightarrow> bind_res (lx_write env st AddOp prefix (AObj [])) (ensure_prefixes env prefixes)
      | Inl e \<Rightarrow> Inl e)"

definition write_prepared :: "('q, 'st, 'r, 'g) lint_env \<Rightarrow> 'st \<Rightarrow> aval \<Rightarrow> store_error + 'st" where
  "write_prepared env st prep =
     bind_res (ensure_prefixes env (map (\<lambda>i. take i prepared_path) [1..<length prepared_path]) st) (\<lambda>st.
       case lx_read env st prepared_path of
         Inr _ \<Rightarrow> lx_write env st ReplaceOp prepared_path prep
       | Inl NotFoundErr \<Rightarrow> lx_write env st AddOp prepared_path prep
       | Inl e \<Rightarrow> Inl e)"

definition prepare_input :: aval where
  "prepare_input = AObj [obj_item ''regal'' (AObj
     [obj_item ''operations'' (AArr [AStr ''prepare'']),
      obj_item ''file'' (AObj [obj_item ''name'' (AStr ''__prepare__''), obj_item ''rego_version'' (AStr ''v1'')])])]"

definition rego_prepare :: "('q, 'st, 'r, 'g) lint_env \<Rightarrow> 'q \<Rightarrow> 'st \<Rightarrow> lint_error + 'st" where
  "rego_prepare env q st =
     bind_res
       (case lx_eval env q st prepare_input of
          Inl e \<Rightarrow> Inl (EvalFailed e)
        | Inr None \<Rightarrow> Inr st
        | Inr (Some result) \<Rightarrow>
            (case as_obj result of
               None \<Rightarrow> Inl BadResult
             | Some obj \<Rightarrow> (case get_value as_obj obj ''prepared'' of
                   None \<Rightarrow> Inl BadResult
                 | Some prep \<Rightarrow> (case write_prepared env st (AObj prep) of
                       Inl e \<Rightarrow> Inl (StoreFailed e) | Inr st \<Rightarrow> Inr st))))
       (\<lambda>st. case lx_commit env st of Some e \<Rightarrow> Inl (CommitFailed e) | None \<Rightarrow> Inr st)"

definition linter_prepare :: "('q, 'st, 'r, 'g) lint_env \<Rightarrow> ('q, 'st, 'r) linter
    \<Rightarrow> lint_error + ('q, 'st, 'r) linter" where
  "linter_prepare env l =
     (case linter_config env l of
        Inl e \<Rightarrow> Inl (ConfigFailed e)
      | Inr conf \<Rightarrow> (case linter_validate env l conf of
            Some e \<Rightarrow> Inl e
          | None \<Rightarrow> (case lx_compile env lint_query (custom_modules_map l) of
                Inl e \<Rightarrow> Inl (CompileFailed e)
              | Inr q \<Rightarrow> bind_res (rego_prepare env q (lx_store env (prepare_data env l conf))) (\<lambda>st.
                  Inr (l\<lparr>l_combined_cfg := Some conf, l_prepared_query := Some (q, st), l_is_prepared := True\<rparr>)))))"

definition determine_enabled_rules :: "('q, 'st, 'r, 'g) lint_env \<Rightarrow> ('q, 'st, 'r) linter
    \<Rightarrow> lint_error + string list" where
  "determine_enabled_rules env l =
     (case linter_config env l of
        Inl e \<Rightarrow> Inl (ConfigFailed e)
      | Inr conf \<Rightarrow> (case lx_compile env enabled_rules_query [] of
            Inl e \<Rightarrow> Inl (CompileFailed e)
          | Inr q \<Rightarrow> (case lx_eval env q (lx_store env (prepare_data env l conf)) (AObj []) of
                Inl e \<Rightarrow> Inl (EvalFailed e)
              | Inr None \<Rightarrow> Inr (sorted_slice [])
              | Inr (Some result) \<Rightarrow> (case as_obj result of
                    None \<Rightarrow> Inl BadResult
                  | Some enabled \<Rightarrow>
                      if list_all (\<lambda>(category, rls). as_obj rls \<noteq> None) enabled
                      then Inr (sorted_slice (concat (map (\<lambda>(category, rls).
                        map (\<lambda>(title, _). case as_str title of Some t \<Rightarrow> t | None \<Rightarrow> '''')
                          (case as_obj rls of Some kvs \<Rightarrow> kvs | None \<Rightarrow> [])) enabled)))
                      else Inl BadResult))))"

section \<open>The input of one file\<close>

definition regal_context :: "('q, 'st, 'r, 'g) lint_env \<Rightarrow> string \<Rightarrow> string \<Rightarrow> string \<Rightarrow> aobject" where
  "regal_context env name content regoVersion =
     (let absol = (case lx_abs env name of Some a \<Rightarrow> a | None \<Rightarrow> '''')
      in [(AStr ''file'', AObj
            [(AStr ''name'', AStr name), (AStr ''lines'', lines_array_term content), (AStr ''abs'', AStr absol),
             (AStr ''rego_version'', AStr regoVersion)]),
          (AStr ''environment'', AObj [(AStr ''path_separator'', AStr ''/'')])])"

definition regal_context_with_operations :: "('q, 'st, 'r, 'g) lint_env \<Rightarrow> string \<Rightarrow> string \<Rightarrow> string \<Rightarrow> bool
    \<Rightarrow> aobject" where
  "regal_context_with_operations env name content regoVersion collect =
     obj_insert (regal_context env name content regoVersion) ''operations''
       (AArr (if collect then [AStr ''lint'', AStr ''collect''] else [AStr ''lint'']))"

definition to_ast_with_regal_context :: "('q, 'st, 'r, 'g) lint_env \<Rightarrow> 'r rego_module \<Rightarrow> aobject
    \<Rightarrow> (lint_error + aval) option" where
  "to_ast_with_regal_context env m ctx =
     (case lx_module_value env m of
        Inl e \<Rightarrow> Some (Inl (TransformFailed e))
      | Inr v \<Rightarrow> (case as_obj v of
            None \<Rightarrow> None
          | Some obj \<Rightarrow> Some (Inr (AObj (obj_insert obj ''regal'' (AObj ctx))))))"

text \<open>\<open>ToAST\<close>; a nil module makes it panic.\<close>

definition to_ast :: "('q, 'st, 'r, 'g) lint_env \<Rightarrow> string \<Rightarrow> string \<Rightarrow> 'r rego_module option \<Rightarrow> bool
    \<Rightarrow> (lint_error + aval) option" where
  "to_ast env name content md collect =
     (case md of
        None \<Rightarrow> None
      | Some m \<Rightarrow> to_ast_with_regal_context env m
          (regal_context_with_operations env name content (lx_version_string env (mod_version m)) collect))"

section \<open>Linting\<close>

text \<open>One goroutine of \<open>lint\<close>. No result leaves its slot of \<open>results\<close> the zero report, here \<^term>\<open>None\<close>.\<close>

definition lint_file :: "('q, 'st, 'r, 'g) lint_env \<Rightarrow> ('q, 'st, 'r) linter \<Rightarrow> 'q \<Rightarrow> 'st \<Rightarrow> 'r rules_input \<Rightarrow> bool
    \<Rightarrow> string \<Rightarrow> (lint_error + report option) option" where
  "lint_file env l q st input collect name =
     Option.bind (to_ast env name (map_get_or (FileContent input) name '''') (map_get (Modules input) name) collect)
       (\<lambda>v. Some (bind_res v (\<lambda>inputValue.
          case lx_eval env q st inputValue of
            Inl e \<Rightarrow> Inl (EvalFailed e)
          | Inr None \<Rightarrow> Inr None
          | Inr (Some result) \<Rightarrow> (case from_query_result (lx_ast env) result False of
                Inl e \<Rightarrow> Inl BadResult
              | Inr r \<Rightarrow> Inr (Some (if l_profiling l
                  then r\<lparr>AggregateProfile := lx_profile env q st inputValue\<rparr> else r))))))"

definition insert_all :: "aobject \<Rightarrow> aobject \<Rightarrow> aobject" where
  "insert_all obj items = foldl (\<lambda>o' (k, v). map_set o' k v) obj items"

definition merge_report :: "('q, 'st, 'r, 'g) lint_env \<Rightarrow> bool \<Rightarrow> report \<Rightarrow> report \<Rightarrow> report" where
  "merge_report env profiling acc r =
     (let acc = acc\<lparr>Violations := Violations acc @ Violations r, Notices := Notices acc @ Notices r,
            Aggregates := insert_all (Aggregates acc) (Aggregates r),
            IgnoreDirectives := (if IgnoreDirectives r = [] then IgnoreDirectives acc
              else case lx_object_merge env (IgnoreDirectives acc) (IgnoreDirectives r) of
                Some d \<Rightarrow> d | None \<Rightarrow> [])\<rparr>
      in if profiling then add_profile_entries acc (AggregateProfile r) else acc)"

text \<open>The loop over the results: a zero report has no aggregates object to call a method of.\<close>

fun merge_results :: "('q, 'st, 'r, 'g) lint_env \<Rightarrow> bool \<Rightarrow> report option list \<Rightarrow> report option" where
  "merge_results env profiling [] = Some empty_report"
| "merge_results env profiling [r] = Some (case r of Some rep \<Rightarrow> rep | None \<Rightarrow> empty_report)"
| "merge_results env profiling (r # rs) =
     (if r = None \<or> None \<in> set rs then None
      else Some (foldl (merge_report env profiling) (the r) (map the rs)))"

text \<open>\<open>lint\<close>: the goroutines write their results by index; \<open>schedule\<close> is the order in which they end, and
  \<open>wg.Wait\<close> returns the error of the first one that fails.\<close>

definition lint_all :: "('q, 'st, 'r, 'g) lint_env \<Rightarrow> nat list \<Rightarrow> ('q, 'st, 'r) linter \<Rightarrow> 'q \<Rightarrow> 'st \<Rightarrow> 'r rules_input
    \<Rightarrow> (lint_error + report) option" where
  "lint_all env schedule l q st input =
     (let collect = (length (FileNames input) > 1 \<or> l_use_collect_query l);
          outcomes = map (lint_file env l q st input collect) (FileNames input)
      in if None \<in> set outcomes then None
         else (let results = map the outcomes in
           case lefts (map (\<lambda>i. results ! i) schedule) of
             e # _ \<Rightarrow> Some (Inl e)
           | [] \<Rightarrow> map_option Inr (merge_results env (l_profiling l) (rights results))))"

definition lint_with_aggregate_rules :: "('q, 'st, 'r, 'g) lint_env \<Rightarrow> ('q, 'st, 'r) linter \<Rightarrow> 'q \<Rightarrow> 'st \<Rightarrow> aobject
    \<Rightarrow> aobject \<Rightarrow> lint_error + report" where
  "lint_with_aggregate_rules env l q st aggregates ignoreDirectives =
     (let obj = [obj_item ''ignore_directives'' (AObj ignoreDirectives), obj_item ''regal'' aggregate_regal_object];
          obj = (if aggregates \<noteq> [] then obj_insert obj ''aggregates_internal'' (AObj aggregates) else obj)
      in case lx_eval env q st (AObj obj) of
           Inl e \<Rightarrow> Inl (EvalFailed e)
         | Inr None \<Rightarrow> Inr empty_report
         | Inr (Some result) \<Rightarrow> (case from_query_result (lx_ast env) result True of
               Inl e \<Rightarrow> Inl BadResult
             | Inr rep \<Rightarrow>
                 let rep = rep\<lparr>Violations := map (\<lambda>v. v\<lparr>v_aggregate := True\<rparr>) (Violations rep)\<rparr>
                 in Inr (if l_profiling l then rep\<lparr>AggregateProfile := lx_profile env q st (AObj obj)\<rparr> else rep)))"

definition stored_notices :: "aval \<Rightarrow> notice list" where
  "stored_notices v =
     (case as_obj v of
        None \<Rightarrow> []
      | Some categories \<Rightarrow> concat (map (\<lambda>(_, v). case as_obj v of
            None \<Rightarrow> []
          | Some ns \<Rightarrow> concat (map (\<lambda>(_, vv). case as_set vv of
                None \<Rightarrow> []
              | Some s \<Rightarrow> map notice_from_object (values_of_type as_obj s)) ns)) categories))"

definition count_skipped_from_notices :: "('q, 'st, 'r, 'g) lint_env \<Rightarrow> 'st \<Rightarrow> report \<Rightarrow> report \<times> int" where
  "count_skipped_from_notices env st r =
     (let stored = (case lx_read env st [''internal'', ''prepared'', ''notices''] of
            Inr v \<Rightarrow> stored_notices v | Inl _ \<Rightarrow> []);
          r = r\<lparr>Notices := remdups_adj (lx_sort_notices env (Notices r @ stored))\<rparr>
      in (r, int (length (filter (\<lambda>n. n_severity n \<noteq> ''none'') (Notices r)))))"

text \<open>The module of a missing name is nil, which the later lookup panics on.\<close>

definition add_input_modules :: "'r rules_input \<Rightarrow> string list \<Rightarrow> 'r rules_input \<Rightarrow> 'r rules_input" where
  "add_input_modules ms names input =
     foldl (\<lambda>inp name. inp\<lparr>FileNames := FileNames inp @ [name],
         Modules := (case map_get (Modules ms) name of
             Some m \<Rightarrow> map_set (Modules inp) name m | None \<Rightarrow> map_del (Modules inp) name),
         FileContent := map_set (FileContent inp) name (map_get_or (FileContent ms) name '''')\<rparr>) input names"

text \<open>The files of \<open>Lint\<close>: the paths that are not ignored, then the given modules.\<close>

definition lint_input :: "('q, 'st, 'r, 'g) lint_env \<Rightarrow> ('q, 'st, 'r) linter \<Rightarrow> config
    \<Rightarrow> lint_error + 'r rules_input" where
  "lint_input env l conf =
     (let ignored = (if l_ignore_files l \<noteq> [] then l_ignore_files l else ign_files (cfg_ignore conf));
          prefix = l_path_prefix l
      in case filter_ignored_paths (lx_fs env) (lx_glob env) (l_input_paths l) ignored True prefix of
           Inl e \<Rightarrow> Inl (ReadFiles e)
         | Inr filtered \<Rightarrow>
             let versionsMap = (if prefix \<noteq> '''' \<and> \<not> has_prefix prefix ''file://''
                   then (case all_rego_versions (lx_find_manifests env) (lx_manifest env) prefix (Some conf) of
                       Inr vs \<Rightarrow> vs | Inl _ \<Rightarrow> [])
                   else [])
             in (case input_from_paths (lx_rules env) (lx_stdin env) filtered prefix versionsMap of
                   Inl e \<Rightarrow> Inl (ReadInput e)
                 | Inr input \<Rightarrow>
                     bind_res
                       (case l_input_modules l of
                          None \<Rightarrow> Inr input
                        | Some ms \<Rightarrow>
                            (case filter_ignored_paths (lx_fs env) (lx_glob env) (FileNames ms) ignored False prefix of
                               Inl e \<Rightarrow> Inl (ReadFiles e)
                             | Inr names \<Rightarrow> Inr (add_input_modules ms names input)))
                       (\<lambda>input. if l_input_paths l = [] \<and> l_input_modules l = None then Inl NothingToLint
                          else Inr input)))"

definition finish_report :: "('q, 'st, 'r, 'g) lint_env \<Rightarrow> ('q, 'st, 'r) linter \<Rightarrow> 'st \<Rightarrow> 'r rules_input \<Rightarrow> report
    \<Rightarrow> report" where
  "finish_report env l st input r =
     (let (r, skippedCount) = count_skipped_from_notices env st r;
          r = r\<lparr>Summary := \<lparr>FilesScanned = int (length (FileNames input)),
                FilesFailed = int (length (violations_file_count r)), RulesSkipped = skippedCount,
                NumViolations = int (length (Violations r))\<rparr>\<rparr>;
          r = (if \<not> l_export_aggregates l then r\<lparr>Aggregates := []\<rparr> else r)
      in if l_profiling l \<and> AggregateProfile r \<noteq> []
         then (aggregate_profile_to_sorted_profile (lx_sort_entries env) r 10)\<lparr>AggregateProfile := []\<rparr>
         else r)"

text \<open>\<open>Lint\<close>.\<close>

definition run_linter :: "('q, 'st, 'r, 'g) lint_env \<Rightarrow> nat list \<Rightarrow> ('q, 'st, 'r) linter
    \<Rightarrow> (lint_error + report) option" where
  "run_linter env schedule l =
     (case (if \<not> l_is_prepared l then linter_prepare env l else Inr l) of
        Inl e \<Rightarrow> Some (Inl e)
      | Inr l \<Rightarrow> Option.bind (l_combined_cfg l) (\<lambda>conf.
          case lint_input env l conf of
            Inl e \<Rightarrow> Some (Inl e)
          | Inr input \<Rightarrow> Option.bind (l_prepared_query l) (\<lambda>(q, st).
              Option.bind (lint_all env schedule l q st input) (\<lambda>res.
                Some (bind_res res (\<lambda>regoReport.
                  bind_res
                    (if length (FileNames input) > 1 \<and> Aggregates regoReport \<noteq> [] then
                       bind_res (lint_with_aggregate_rules env l q st (Aggregates regoReport)
                           (IgnoreDirectives regoReport)) (\<lambda>aggregateReport.
                         let r = regoReport\<lparr>Violations := Violations regoReport @ Violations aggregateReport\<rparr>
                         in Inr (if l_profiling l then r\<lparr>AggregateProfile := AggregateProfile aggregateReport\<rparr> else r))
                     else Inr regoReport)
                    (\<lambda>r. Inr (finish_report env l st input r))))))))"

end
