(* ===== verification/Linter_Proofs.thy ===== *)
theory Linter_Proofs
  imports Linter
begin

text \<open>
  Properties of the linter: the report does not depend on the order in which the goroutines end, its
  numbers and marks say what they promise, validation accepts exactly the known names, and what a second
  configuration and profiling lose.
\<close>

section \<open>Schedules\<close>

lemma lefts_set: "e \<in> set (lefts xs) \<longleftrightarrow> Inl e \<in> set xs"
  by (induction xs rule: lefts.induct) auto

lemma lefts_nil: "lefts xs = [] \<longleftrightarrow> (\<forall>x\<in>set xs. \<exists>a. x = Inr a)"
  by (induction xs rule: lefts.induct) auto

lemma rights_all: "lefts xs = [] \<Longrightarrow> map Inr (rights xs) = xs"
  by (induction xs rule: lefts.induct) auto

definition schedule_ok :: "nat list \<Rightarrow> nat \<Rightarrow> bool" where
  "schedule_ok s n \<longleftrightarrow> set s = {..<n}"

lemma schedule_lefts:
  assumes "schedule_ok s (length xs)"
  shows "lefts (map (\<lambda>i. xs ! i) s) = [] \<longleftrightarrow> lefts xs = []"
proof -
  have "set (map (\<lambda>i. xs ! i) s) = set xs"
    using assms nth_image [of "length xs" xs] by (simp add: schedule_ok_def lessThan_atLeast0)
  then show ?thesis by (simp add: lefts_nil del: set_map)
qed

definition file_outcomes :: "('q, 'st, 'r, 'g) lint_env \<Rightarrow> ('q, 'st, 'r) linter \<Rightarrow> 'q \<Rightarrow> 'st \<Rightarrow> 'r rules_input
    \<Rightarrow> (lint_error + report option) option list" where
  "file_outcomes env l q st input =
     map (lint_file env l q st input (length (FileNames input) > 1 \<or> l_use_collect_query l)) (FileNames input)"

lemma lint_all_cases:
  assumes "schedule_ok s (length (FileNames input))"
  shows "lint_all env s l q st input = None \<longleftrightarrow>
      None \<in> set (file_outcomes env l q st input) \<or>
      lefts (map the (file_outcomes env l q st input)) = []
        \<and> merge_results env (l_profiling l) (rights (map the (file_outcomes env l q st input))) = None"
    and "lint_all env s l q st input = Some (Inr r) \<longleftrightarrow>
      None \<notin> set (file_outcomes env l q st input) \<and> lefts (map the (file_outcomes env l q st input)) = []
        \<and> merge_results env (l_profiling l) (rights (map the (file_outcomes env l q st input))) = Some r"
proof -
  let ?o = "file_outcomes env l q st input"
  have n: "length (map the ?o) = length (FileNames input)" by (simp add: file_outcomes_def)
  have e: "lefts (map (\<lambda>i. map the ?o ! i) s) = [] \<longleftrightarrow> lefts (map the ?o) = []"
    using schedule_lefts assms unfolding n [symmetric] by blast
  have l: "lint_all env s l q st input =
      (if None \<in> set ?o then None
       else case lefts (map (\<lambda>i. map the ?o ! i) s) of
         e # _ \<Rightarrow> Some (Inl e)
       | [] \<Rightarrow> map_option Inr (merge_results env (l_profiling l) (rights (map the ?o))))"
    unfolding lint_all_def file_outcomes_def Let_def ..
  show "lint_all env s l q st input = None \<longleftrightarrow>
      None \<in> set ?o \<or> lefts (map the ?o) = [] \<and> merge_results env (l_profiling l) (rights (map the ?o)) = None"
    unfolding l using e by (auto split: list.splits)
  show "lint_all env s l q st input = Some (Inr r) \<longleftrightarrow>
      None \<notin> set ?o \<and> lefts (map the ?o) = [] \<and> merge_results env (l_profiling l) (rights (map the ?o)) = Some r"
    unfolding l using e by (auto split: list.splits)
qed

lemma merge_report_violations [simp]:
  "Violations (merge_report env p acc r) = Violations acc @ Violations r"
  "Notices (merge_report env p acc r) = Notices acc @ Notices r"
  by (simp_all add: merge_report_def add_profile_entries_def Let_def)

lemma foldl_merge_violations:
  "Violations (foldl (merge_report env p) acc rs) = Violations acc @ concat (map Violations rs)"
  by (induction rs arbitrary: acc) auto

lemma merge_results_violations:
  "merge_results env p rs = Some r \<Longrightarrow>
    Violations r = concat (map (\<lambda>x. case x of Some rep \<Rightarrow> Violations rep | None \<Rightarrow> []) rs)"
proof (induction env p rs rule: merge_results.induct)
  case (1 env p)
  then show ?case by (auto simp: empty_report_def)
next
  case (2 env p x)
  then show ?case by (auto simp: empty_report_def split: option.splits)
next
  case (3 env p x y zs)
  then have none: "x \<noteq> None" "None \<notin> set (y # zs)" and r: "r = foldl (merge_report env p) (the x) (map the (y # zs))"
    by (auto split: if_splits)
  let ?g = "\<lambda>x. case x of Some rep \<Rightarrow> Violations rep | None \<Rightarrow> []"
  have eq: "map Violations (map the (y # zs)) = map ?g (y # zs)"
    unfolding map_map by (rule map_cong [OF refl]) (use none(2) in \<open>auto split: option.splits\<close>)
  have "Violations r = Violations (the x) @ concat (map Violations (map the (y # zs)))"
    unfolding r by (rule foldl_merge_violations)
  also have "\<dots> = Violations (the x) @ concat (map ?g (y # zs))" by (simp only: eq)
  also have "Violations (the x) = ?g x" using none(1) by auto
  finally show ?case by (simp only: list.map concat.simps)
qed

text \<open>C15. The goroutines of \<open>lint\<close> may end in any order: if the files are linted without an error for one
  schedule they are for every schedule, with the same report, whose violations are those of the files in
  the order of \<open>FileNames\<close>; and whether linting panics does not depend on the schedule either.\<close>

theorem lint_schedule_independent:
  assumes "schedule_ok s (length (FileNames input))" "schedule_ok s' (length (FileNames input))"
  shows "(lint_all env s l q st input = Some (Inr r) \<longleftrightarrow> lint_all env s' l q st input = Some (Inr r))
    \<and> (lint_all env s l q st input = None \<longleftrightarrow> lint_all env s' l q st input = None)
    \<and> (lint_all env s l q st input = Some (Inr r) \<longrightarrow>
        Violations r = concat (map (\<lambda>x. case x of Some (Inr (Some rep)) \<Rightarrow> Violations rep | _ \<Rightarrow> [])
          (file_outcomes env l q st input)))"
proof (intro conjI impI)
  show "lint_all env s l q st input = Some (Inr r) \<longleftrightarrow> lint_all env s' l q st input = Some (Inr r)"
    unfolding lint_all_cases(2) [OF assms(1)] lint_all_cases(2) [OF assms(2)] ..
  show "lint_all env s l q st input = None \<longleftrightarrow> lint_all env s' l q st input = None"
    unfolding lint_all_cases(1) [OF assms(1)] lint_all_cases(1) [OF assms(2)] ..
next
  let ?o = "file_outcomes env l q st input"
  assume "lint_all env s l q st input = Some (Inr r)"
  note c = lint_all_cases(2) [OF assms(1), THEN iffD1, OF this]
  note o' = c [THEN conjunct1] c [THEN conjunct2, THEN conjunct1] and m = c [THEN conjunct2, THEN conjunct2]
  define rs where "rs = rights (map the ?o)"
  have "map (\<lambda>x. Some (the x)) ?o = ?o"
    by (rule map_idI) (use o'(1) in \<open>metis option.exhaust_sel\<close>)
  then have "?o = map Some (map the ?o)" by (simp add: comp_def)
  also have "map the ?o = map Inr rs" using rights_all [OF o'(2)] by (simp add: rs_def)
  finally have o'': "?o = map (\<lambda>x. Some (Inr x)) rs" by (simp add: comp_def)
  have "map (\<lambda>x. case x of Some (Inr (Some rep)) \<Rightarrow> Violations rep | _ \<Rightarrow> []) ?o
      = map (\<lambda>x. case x of Some rep \<Rightarrow> Violations rep | None \<Rightarrow> []) rs"
    unfolding o'' by (simp add: comp_def)
  with merge_results_violations [OF m [folded rs_def]] show "Violations r
      = concat (map (\<lambda>x. case x of Some (Inr (Some rep)) \<Rightarrow> Violations rep | _ \<Rightarrow> []) ?o)" by simp
qed

section \<open>Validation\<close>

lemma add_valid_sets:
  "set (fst (add_valid n v parts)) = set (fst v) \<union> (if length parts = n then {parts ! (n - 2)} else {})"
  "set (snd (add_valid n v parts)) = set (snd v) \<union> (if length parts = n then {parts ! (n - 1)} else {})"
  by (simp_all add: add_valid_def)

lemma add_valid_fold:
  "set (fst (foldl (\<lambda>v m. add_valid n v (f m)) v ms)) = set (fst v) \<union> {f m ! (n - 2) | m. m \<in> set ms \<and> length (f m) = n}"
  "set (snd (foldl (\<lambda>v m. add_valid n v (f m)) v ms)) = set (snd v) \<union> {f m ! (n - 1) | m. m \<in> set ms \<and> length (f m) = n}"
  by (induction ms arbitrary: v) (auto simp: add_valid_sets split: if_splits)

lemma add_valid_bundles:
  "set (fst (foldl (\<lambda>v b. foldl (\<lambda>v m. add_valid n v (f m)) v b) v bs))
     = set (fst v) \<union> {f m ! (n - 2) | m. m \<in> set (concat bs) \<and> length (f m) = n}"
  "set (snd (foldl (\<lambda>v b. foldl (\<lambda>v m. add_valid n v (f m)) v b) v bs))
     = set (snd v) \<union> {f m ! (n - 1) | m. m \<in> set (concat bs) \<and> length (f m) = n}"
  by (induction bs arbitrary: v) (auto simp: add_valid_fold)

text \<open>The packages of rules: \<open>regal.rules.<category>.<rule>\<close>, and \<open>custom.regal.rules.<category>.<rule>\<close>.\<close>

definition rule_exists :: "('q, 'st, 'r, 'g) lint_env \<Rightarrow> ('q, 'st, 'r) linter \<Rightarrow> string \<Rightarrow> string \<Rightarrow> bool" where
  "rule_exists env l category rl \<longleftrightarrow>
     (\<exists>m\<in>set (concat (l_rule_bundles l)). \<exists>a b. module_parts env m = [a, b, category, rl])
     \<or> (\<exists>m\<in>set (l_custom_rule_modules l). \<exists>a b c. module_parts env m = [a, b, c, category, rl])"

lemma list4: "length xs = 4 \<longleftrightarrow> (\<exists>a b c d. xs = [a, b, c, d])"
  by (auto simp: numeral_eq_Suc length_Suc_conv)

lemma list5: "length xs = 5 \<longleftrightarrow> (\<exists>a b c d e. xs = [a, b, c, d, e])"
  by (auto simp: numeral_eq_Suc length_Suc_conv)

text \<open>A part of the lists of one shape.\<close>

lemma parts_at:
  assumes "\<And>xs. length xs = n \<longleftrightarrow> (\<exists>p r. Q xs p r)" "\<And>xs p r. Q xs p r \<Longrightarrow> xs ! i = p"
  shows "{f m ! i |m. m \<in> S \<and> length (f m) = n} = {p. \<exists>r. \<exists>m\<in>S. Q (f m) p r}"
proof (intro set_eqI iffI)
  fix x assume "x \<in> {f m ! i |m. m \<in> S \<and> length (f m) = n}"
  then obtain m where m: "x = f m ! i" "m \<in> S" "length (f m) = n" by auto
  then obtain p r where "Q (f m) p r" using assms(1) by blast
  with m assms(2) show "x \<in> {p. \<exists>r. \<exists>m\<in>S. Q (f m) p r}" by auto
next
  fix x assume "x \<in> {p. \<exists>r. \<exists>m\<in>S. Q (f m) p r}"
  then obtain r m where m: "m \<in> S" "Q (f m) x r" by auto
  then have "x = f m ! i" "length (f m) = n" using assms(1,2) by (metis, metis)
  with m(1) show "x \<in> {f m ! i |m. m \<in> S \<and> length (f m) = n}" by blast
qed

lemma parts4_category: "{f m ! (4 - 2) |m. m \<in> S \<and> length (f m) = 4} = {c. \<exists>r. \<exists>m\<in>S. \<exists>a b. f m = [a, b, c, r]}"
  by (rule parts_at [where Q = "\<lambda>xs c r. \<exists>a b. xs = [a, b, c, r]"]) (auto simp: list4)

lemma parts4_rule: "{f m ! (4 - 1) |m. m \<in> S \<and> length (f m) = 4} = {r. \<exists>c. \<exists>m\<in>S. \<exists>a b. f m = [a, b, c, r]}"
  by (rule parts_at [where Q = "\<lambda>xs r c. \<exists>a b. xs = [a, b, c, r]"]) (auto simp: list4)

lemma parts5_category: "{f m ! (5 - 2) |m. m \<in> S \<and> length (f m) = 5} = {c. \<exists>r. \<exists>m\<in>S. \<exists>a b d. f m = [a, b, d, c, r]}"
  by (rule parts_at [where Q = "\<lambda>xs c r. \<exists>a b d. xs = [a, b, d, c, r]"]) (auto simp: list5)

lemma parts5_rule: "{f m ! (5 - 1) |m. m \<in> S \<and> length (f m) = 5} = {r. \<exists>c. \<exists>m\<in>S. \<exists>a b d. f m = [a, b, d, c, r]}"
  by (rule parts_at [where Q = "\<lambda>xs r c. \<exists>a b d. xs = [a, b, d, c, r]"]) (auto simp: list5)

lemma valid_names_sets:
  "set (fst (valid_names env l)) = {category. \<exists>rl. rule_exists env l category rl}"
  "set (snd (valid_names env l)) = {rl. \<exists>category. rule_exists env l category rl}"
  unfolding valid_names_def Let_def add_valid_fold add_valid_bundles rule_exists_def parts4_category parts4_rule
    parts5_category parts5_rule
  by - (rule set_eqI, simp del: set_concat, blast)+

definition configured_categories :: "('q, 'st, 'r) linter \<Rightarrow> config \<Rightarrow> string set" where
  "configured_categories l conf =
     fst ` set (cfg_rules conf) \<union> set (l_enable_category l) \<union> set (l_disable_category l)"

definition configured_rules :: "('q, 'st, 'r) linter \<Rightarrow> config \<Rightarrow> string set" where
  "configured_rules l conf =
     (\<Union>(category, rls)\<in>set (cfg_rules conf). fst ` set rls) \<union> set (l_enable l) \<union> set (l_disable l)"

lemma configured_rules_fold:
  "set (foldl (\<lambda>s (category, rls). set_add s (map fst rls)) s kvs) = set s \<union> (\<Union>(category, rls)\<in>set kvs. fst ` set rls)"
  by (induction kvs arbitrary: s) auto

lemma configured_names_sets:
  "set (fst (configured_names l conf)) = configured_categories l conf"
  "set (snd (configured_names l conf)) = configured_rules l conf"
  by (auto simp: configured_names_def configured_categories_def configured_rules_def configured_rules_fold Let_def)

text \<open>Validation accepts a configuration exactly when the custom rules could be read and every category
  and every rule that is configured, enabled or disabled is the name of one that exists, among the built-in
  rules (packages \<open>regal.rules.<category>.<rule>\<close>) or the custom ones. The category of a rule is not compared
  with the category it is configured under.\<close>

theorem validate_accepts_known_names:
  "linter_validate env l conf = None \<longleftrightarrow>
     l_custom_rule_error l = None
     \<and> configured_categories l conf \<subseteq> {category. \<exists>rl. rule_exists env l category rl}
     \<and> configured_rules l conf \<subseteq> {rl. \<exists>category. rule_exists env l category rl}"
proof -
  obtain vc vr where v: "valid_names env l = (vc, vr)" by (cases "valid_names env l")
  obtain cc cr where c: "configured_names l conf = (cc, cr)" by (cases "configured_names l conf")
  have sz: "set_size (set_diff a b) > 0 \<longleftrightarrow> \<not> set a \<subseteq> set b" for a b :: "string gset"
    using set_diff_set(1) [of a b] by (metis Diff_eq_empty_iff length_greater_0_conv set_empty set_size_def)
  have "linter_validate env l conf = None \<longleftrightarrow> l_custom_rule_error l = None \<and> set cc \<subseteq> set vc \<and> set cr \<subseteq> set vr"
    by (auto simp: linter_validate_def v c sz Let_def split: option.splits if_splits)
  then show ?thesis
    using valid_names_sets [of env l] configured_names_sets [of l conf] by (simp add: v c)
qed

section \<open>A second configuration\<close>

text \<open>\<open>Prepare\<close> stores the combined configuration in the linter it returns and \<open>GetConfig\<close> prefers it, but
  \<open>WithUserConfig\<close> only marks the linter as not prepared: a linter that was prepared once keeps its first
  configuration, and a new user configuration changes neither its validation nor its files nor the
  combined configuration the rules are given.\<close>

theorem second_user_config_ignored:
  assumes "linter_prepare env l = Inr l'" "linter_config env l = Inr conf"
  shows "linter_config env (with_user_config cfg l') = Inr conf
    \<and> (\<forall>l''. linter_prepare env (with_user_config cfg l') = Inr l'' \<longrightarrow>
        l_combined_cfg l'' = Some conf \<and> l_user_config l'' = Some cfg)"
proof -
  have c: "l_combined_cfg l' = Some conf"
    using assms by (auto simp: linter_prepare_def bind_res_eq_Inr split: option.splits sum.splits)
  then have "linter_config env (with_user_config cfg l') = Inr conf"
    by (simp add: linter_config_def with_user_config_def not_prepared_def)
  then show ?thesis
    by (auto simp: linter_prepare_def bind_res_eq_Inr with_user_config_def not_prepared_def
        split: option.splits sum.splits)
qed

section \<open>The numbers of a report\<close>

lemma file_count_length:
  "length (violations_file_count r) = card ((\<lambda>v. l_file (v_location v)) ` set (Violations r))"
proof -
  let ?g = "\<lambda>v. l_file (v_location v)"
  have wf: "map_wf (violations_file_count r)"
    unfolding violations_file_count_def by (rule file_count_wf) simp
  have "set (map fst (violations_file_count r)) = ?g ` set (Violations r)"
    unfolding violations_file_count_def
    using file_count_keys [of ?g "\<lambda>fc v. map_get_or fc (?g v) 0 + 1" "[]" "Violations r"] by simp
  then show ?thesis using distinct_card [OF wf] by simp
qed

definition notice_sort_ok :: "(notice list \<Rightarrow> notice list) \<Rightarrow> bool" where
  "notice_sort_ok srt \<longleftrightarrow> (\<forall>ns. mset (srt ns) = mset ns \<and> sorted (map n_title (srt ns)))"

lemma aggregate_profile_keeps [simp]:
  "Violations (aggregate_profile_to_sorted_profile srt r n) = Violations r"
  "Notices (aggregate_profile_to_sorted_profile srt r n) = Notices r"
  "Summary (aggregate_profile_to_sorted_profile srt r n) = Summary r"
  "Aggregates (aggregate_profile_to_sorted_profile srt r n) = Aggregates r"
  by (simp_all add: aggregate_profile_to_sorted_profile_def Let_def)

lemma finish_report_fields:
  "Violations (finish_report env l st input r) = Violations r"
  "Notices (finish_report env l st input r) = Notices (fst (count_skipped_from_notices env st r))"
  "Summary (finish_report env l st input r) = \<lparr>FilesScanned = int (length (FileNames input)),
     FilesFailed = int (length (violations_file_count r)),
     RulesSkipped = snd (count_skipped_from_notices env st r), NumViolations = int (length (Violations r))\<rparr>"
  by (simp_all add: finish_report_def count_skipped_from_notices_def Let_def violations_file_count_def)

lemma sorted_remdups_adj_map: "sorted (map f xs) \<Longrightarrow> sorted (map f (remdups_adj xs))"
proof (induction xs rule: remdups_adj.induct)
  case (3 x y xs)
  then show ?case by (auto simp: remdups_adj_set)
qed simp_all

lemma linted_report_decomposed:
  assumes "run_linter env schedule l = Some (Inr r)"
  obtains l' conf input q st rep r1 where
    "(if \<not> l_is_prepared l then linter_prepare env l else Inr l) = Inr l'"
    "l_combined_cfg l' = Some conf" "lint_input env l' conf = Inr input" "l_prepared_query l' = Some (q, st)"
    "lint_all env schedule l' q st input = Some (Inr rep)"
    "if length (FileNames input) > 1 \<and> Aggregates rep \<noteq> [] then
       \<exists>agg. lint_with_aggregate_rules env l' q st (Aggregates rep) (IgnoreDirectives rep) = Inr agg
         \<and> r1 = (let r = rep\<lparr>Violations := Violations rep @ Violations agg\<rparr>
             in if l_profiling l' then r\<lparr>AggregateProfile := AggregateProfile agg\<rparr> else r)
     else r1 = rep"
    "r = finish_report env l' st input r1"
proof -
  obtain l' where l': "(if \<not> l_is_prepared l then linter_prepare env l else Inr l) = Inr l'"
    using assms by (cases "if \<not> l_is_prepared l then linter_prepare env l else Inr l") (simp_all add: run_linter_def)
  obtain conf where conf: "l_combined_cfg l' = Some conf"
    using assms l' by (cases "l_combined_cfg l'") (simp_all add: run_linter_def)
  obtain input where input: "lint_input env l' conf = Inr input"
    using assms l' conf by (cases "lint_input env l' conf") (simp_all add: run_linter_def)
  obtain q st where q: "l_prepared_query l' = Some (q, st)"
    using assms l' conf input by (cases "l_prepared_query l'") (auto simp: run_linter_def)
  obtain res where "lint_all env schedule l' q st input = Some res"
    using assms l' conf input q by (cases "lint_all env schedule l' q st input") (simp_all add: run_linter_def)
  moreover obtain rep where "res = Inr rep"
    using assms l' conf input q calculation by (cases res) (simp_all add: run_linter_def)
  ultimately have rep: "lint_all env schedule l' q st input = Some (Inr rep)" by simp
  show ?thesis
  proof (cases "length (FileNames input) > 1 \<and> Aggregates rep \<noteq> []")
    case False
    then have "r = finish_report env l' st input rep"
      using assms l' conf input q rep by (auto simp: run_linter_def)
    with that [OF l' conf input q rep] False show ?thesis by auto
  next
    case True
    then obtain agg where agg: "lint_with_aggregate_rules env l' q st (Aggregates rep) (IgnoreDirectives rep) = Inr agg"
      using assms l' conf input q rep
      by (cases "lint_with_aggregate_rules env l' q st (Aggregates rep) (IgnoreDirectives rep)") (auto simp: run_linter_def)
    with True have "r = finish_report env l' st input (let r = rep\<lparr>Violations := Violations rep @ Violations agg\<rparr>
             in if l_profiling l' then r\<lparr>AggregateProfile := AggregateProfile agg\<rparr> else r)"
      using assms l' conf input q rep by (auto simp: run_linter_def Let_def)
    with that [OF l' conf input q rep] True agg show ?thesis by auto
  qed
qed

lemma merge_unmarked:
  assumes "\<forall>x\<in>set rs. \<forall>rep. x = Some rep \<longrightarrow> (\<forall>v\<in>set (Violations rep). \<not> v_aggregate v)"
    and "merge_results env p rs = Some r"
  shows "\<forall>v\<in>set (Violations r). \<not> v_aggregate v"
  using merge_results_violations [OF assms(2)] assms(1) by (auto split: option.splits)

lemma from_query_unmarked: "from_query_result ast result b = Inr r \<Longrightarrow> v \<in> set (Violations r) \<Longrightarrow> \<not> v_aggregate v"
  by (auto simp: from_query_result_def violation_from_object_def empty_report_def Let_def split: option.splits)

lemma lint_file_unmarked:
  "lint_file env l q st input b name = Some (Inr (Some rep)) \<Longrightarrow> v \<in> set (Violations rep) \<Longrightarrow> \<not> v_aggregate v"
proof -
  assume l: "lint_file env l q st input b name = Some (Inr (Some rep))" and v: "v \<in> set (Violations rep)"
  then obtain inp where "to_ast env name (map_get_or (FileContent input) name '''') (map_get (Modules input) name) b = Some (Inr inp)"
    by (auto simp: lint_file_def bind_eq_Some_conv bind_res_eq_Inr)
  moreover from this l obtain result where "lx_eval env q st inp = Inr (Some result)"
    by (cases "lx_eval env q st inp"; cases "projr (lx_eval env q st inp)") (auto simp: lint_file_def)
  moreover from calculation l obtain r0 where "from_query_result (lx_ast env) result False = Inr r0"
    by (cases "from_query_result (lx_ast env) result False") (auto simp: lint_file_def)
  ultimately have "Violations rep = Violations r0" "from_query_result (lx_ast env) result False = Inr r0"
    using l by (auto simp: lint_file_def)
  with v show ?thesis using from_query_unmarked by auto
qed

lemma lint_all_unmarked:
  assumes "lint_all env s l q st input = Some (Inr rep)"
  shows "\<forall>v\<in>set (Violations rep). \<not> v_aggregate v"
proof -
  let ?o = "file_outcomes env l q st input"
  have m: "None \<notin> set ?o" "merge_results env (l_profiling l) (rights (map the ?o)) = Some rep"
    using assms unfolding lint_all_def file_outcomes_def Let_def by (auto split: if_splits list.splits)
  have r: "Inr x \<in> set ys" if "x \<in> set (rights ys)" for x ys
    using that by (induction ys rule: rights.induct) auto
  have "\<forall>x\<in>set (rights (map the ?o)). \<forall>rep. x = Some rep \<longrightarrow> (\<forall>v\<in>set (Violations rep). \<not> v_aggregate v)"
  proof (intro ballI allI impI)
    fix x rep' v assume "x \<in> set (rights (map the ?o))" "x = Some rep'" "v \<in> set (Violations rep')"
    then have "Inr (Some rep') \<in> set (map the ?o)" using r [of x "map the ?o"] by simp
    then have "Some (Inr (Some rep')) \<in> set ?o" using m(1) by auto (metis option.collapse)
    then obtain name where "lint_file env l q st input (length (FileNames input) > 1 \<or> l_use_collect_query l) name
        = Some (Inr (Some rep'))" by (auto simp: file_outcomes_def)
    then show "\<not> v_aggregate v" using \<open>v \<in> set (Violations rep')\<close> by (rule lint_file_unmarked)
  qed
  from merge_unmarked [OF this m(2)] show ?thesis .
qed

lemma aggregate_marked:
  "lint_with_aggregate_rules env l q st ags ids = Inr agg \<Longrightarrow> v \<in> set (Violations agg) \<Longrightarrow> v_aggregate v"
  by (auto simp: lint_with_aggregate_rules_def Let_def empty_report_def split: sum.splits option.splits if_splits)

text \<open>C14. What the summary and the marks of a report mean. The numbers are those of the report: violations,
  distinct files with a violation, notices of another severity than \<open>none\<close>, with the notices ordered by
  title and without adjacent duplicates; and the report's violations are those of the single files, none
  of them marked, followed by those of the aggregate phase, all of them marked.\<close>

theorem linter_report_summary:
  assumes "run_linter env schedule l = Some (Inr r)" "notice_sort_ok (lx_sort_notices env)"
  shows "NumViolations (Summary r) = int (length (Violations r))
    \<and> FilesFailed (Summary r) = int (card ((\<lambda>v. l_file (v_location v)) ` set (Violations r)))
    \<and> RulesSkipped (Summary r) = int (length (filter (\<lambda>n. n_severity n \<noteq> ''none'') (Notices r)))
    \<and> sorted (map n_title (Notices r)) \<and> distinct_adj (Notices r)
    \<and> (\<exists>fvs avs. Violations r = fvs @ avs \<and> list_all (\<lambda>v. \<not> v_aggregate v) fvs \<and> list_all v_aggregate avs)"
proof -
  from linted_report_decomposed [OF assms(1)] obtain l' conf input q st rep r1 where
    rep: "lint_all env schedule l' q st input = Some (Inr rep)"
    and r1: "if length (FileNames input) > 1 \<and> Aggregates rep \<noteq> [] then
       \<exists>agg. lint_with_aggregate_rules env l' q st (Aggregates rep) (IgnoreDirectives rep) = Inr agg
         \<and> r1 = (let r = rep\<lparr>Violations := Violations rep @ Violations agg\<rparr>
             in if l_profiling l' then r\<lparr>AggregateProfile := AggregateProfile agg\<rparr> else r)
     else r1 = rep"
    and r: "r = finish_report env l' st input r1" by metis
  have notices: "Notices r = remdups_adj (lx_sort_notices env (Notices r1 @
      (case lx_read env st [''internal'', ''prepared'', ''notices''] of Inr v \<Rightarrow> stored_notices v | Inl _ \<Rightarrow> [])))"
    unfolding r finish_report_fields by (simp add: count_skipped_from_notices_def Let_def)
  have "sorted (map n_title (Notices r))" "distinct_adj (Notices r)"
    unfolding notices using assms(2)
    by (auto simp: notice_sort_ok_def intro!: sorted_remdups_adj_map)
  moreover have "RulesSkipped (Summary r) = int (length (filter (\<lambda>n. n_severity n \<noteq> ''none'') (Notices r)))"
    unfolding r finish_report_fields by (simp add: count_skipped_from_notices_def Let_def)
  moreover have v: "Violations r = Violations r1" unfolding r by (rule finish_report_fields)
  moreover have "FilesFailed (Summary r) = int (card ((\<lambda>v. l_file (v_location v)) ` set (Violations r)))"
    "NumViolations (Summary r) = int (length (Violations r))"
    unfolding v unfolding r finish_report_fields by (simp_all add: file_count_length)
  moreover have "\<exists>fvs avs. Violations r1 = fvs @ avs \<and> list_all (\<lambda>v. \<not> v_aggregate v) fvs \<and> list_all v_aggregate avs"
  proof (cases "length (FileNames input) > 1 \<and> Aggregates rep \<noteq> []")
    case True
    with r1 obtain agg where agg: "lint_with_aggregate_rules env l' q st (Aggregates rep) (IgnoreDirectives rep) = Inr agg"
      "Violations r1 = Violations rep @ Violations agg" by (auto simp: Let_def)
    show ?thesis
      using lint_all_unmarked [OF rep] aggregate_marked [OF agg(1)] agg(2)
      by (intro exI [of _ "Violations rep"] exI [of _ "Violations agg"]) (simp add: list_all_iff)
  next
    case False
    with r1 have "r1 = rep" by auto
    then show ?thesis
      using lint_all_unmarked [OF rep]
      by (intro exI [of _ "Violations rep"] exI [of _ "[]"]) (simp add: list_all_iff)
  qed
  ultimately show ?thesis by simp
qed

section \<open>Profiling several files\<close>

text \<open>With profiling, the profile of the aggregate phase replaces the one collected while the files were
  linted: as soon as there are aggregates, the report lists only expressions of the aggregate phase, and
  nothing of what evaluating the rules on the files took.\<close>

theorem file_profiles_lost:
  assumes "l_is_prepared l" "l_combined_cfg l = Some conf" "l_prepared_query l = Some (q, st)" "l_profiling l"
    and "lint_input env l conf = Inr input" "length (FileNames input) > 1"
    and "lint_all env schedule l q st input = Some (Inr rep)" "Aggregates rep \<noteq> []"
    and "lint_with_aggregate_rules env l q st (Aggregates rep) (IgnoreDirectives rep) = Inr agg"
    and "\<And>ps. set (lx_sort_entries env ps) = set ps" "Profile rep = []"
  shows "\<exists>r. run_linter env schedule l = Some (Inr r) \<and> set (Profile r) \<subseteq> snd ` set (AggregateProfile agg)"
proof -
  let ?r1 = "rep\<lparr>Violations := Violations rep @ Violations agg, AggregateProfile := AggregateProfile agg\<rparr>"
  have run: "run_linter env schedule l = Some (Inr (finish_report env l st input ?r1))"
    using assms by (simp add: run_linter_def)
  have "set (Profile (aggregate_profile_to_sorted_profile (lx_sort_entries env) r2 10)) \<subseteq> snd ` set (AggregateProfile r2)"
    for r2
    using assms(10) [of "map snd (AggregateProfile r2)"] set_take_subset
    by (auto simp: aggregate_profile_to_sorted_profile_def Let_def dest: in_set_takeD split: if_splits)
  moreover have "AggregateProfile (fst (count_skipped_from_notices env st ?r1)) = AggregateProfile agg"
    "Profile (fst (count_skipped_from_notices env st ?r1)) = []"
    using assms(11) by (simp_all add: count_skipped_from_notices_def Let_def)
  ultimately have "set (Profile (finish_report env l st input ?r1)) \<subseteq> snd ` set (AggregateProfile agg)"
    unfolding finish_report_def Let_def
    by (cases "count_skipped_from_notices env st ?r1") (auto split: if_splits; fastforce)
  with run show ?thesis by blast
qed

section \<open>A concrete run\<close>

definition sample_result :: aval where
  "sample_result = AObj [(AStr ''violations'', ASet [AObj [(AStr ''title'', AStr ''t'')]]),
     (AStr ''aggregates'', AObj [(AStr ''k'', ANull)])]"

definition sample_config :: config where
  "sample_config = empty_config"

definition sample_lint_env :: "(unit, unit, unit, string) lint_env" where
  "sample_lint_env =
     \<lparr>lx_ast = \<lparr>num_int64 = \<lambda>s. None, float_number = \<lambda>s. s, json_decode = \<lambda>s. None, sprint = \<lambda>v. ''''\<rparr>,
      lx_values = sample_any_env, lx_fs = \<lambda>p. None, lx_glob = \<lparr>glob_compile = Some, glob_match = \<lambda>g s. g = s\<rparr>,
      lx_rules = sample_rules_env, lx_stdin = Inl '''', lx_parse_custom = \<lambda>p s. Inl p, lx_merge = \<lambda>a b. Inr a,
      lx_this_version = \<lparr>c_builtins = [], c_future_keywords = [], c_features = []\<rparr>,
      lx_provided = sample_config, lx_find_manifests = \<lambda>p. Inr [], lx_manifest = \<lambda>p. Inr None,
      lx_path_for_ref = \<lambda>r. None, lx_module_value = \<lambda>m. Inr (AObj []), lx_abs = Some,
      lx_version_string = \<lambda>v. ''v1'', lx_capabilities = ANull, lx_compile = \<lambda>q ms. Inr (), lx_store = \<lambda>ob. (),
      lx_read = \<lambda>st p. Inr ANull, lx_write = \<lambda>st oper p v. Inr (), lx_commit = \<lambda>st. None,
      lx_eval = \<lambda>q st v. Inr (Some (if v = prepare_input then AObj [(AStr ''prepared'', AObj [])] else sample_result)),
      lx_profile = \<lambda>q st v. [], lx_object_merge = \<lambda>a b. Some a, lx_sort_notices = sort_key n_title,
      lx_sort_entries = \<lambda>ps. ps\<rparr>"

definition sample_module :: "unit rego_module" where
  "sample_module = \<lparr>mod_package = [], mod_imports = [], mod_version = RegoV1, mod_rest = ()\<rparr>"

definition sample_lint_input :: "unit rules_input" where
  "sample_lint_input = \<lparr>FileContent = [(''a'', ''''), (''b'', '''')],
     Modules = [(''a'', sample_module), (''b'', sample_module)], FileNames = [''a'', ''b'']\<rparr>"

definition sample_linter :: "(unit, unit, unit) linter" where
  "sample_linter = with_profiling True (with_input_modules sample_lint_input new_empty_linter)"

lemma second_user_config_ignored_witness:
  "linter_config sample_lint_env (with_user_config (sample_config\<lparr>cfg_capabilities_url := ''u''\<rparr>)
      (case linter_prepare sample_lint_env sample_linter of Inr l \<Rightarrow> l | Inl e \<Rightarrow> sample_linter))
     = Inr (sample_config\<lparr>cfg_capabilities := Some \<lparr>c_builtins = [], c_future_keywords = [], c_features = []\<rparr>\<rparr>)"
proof -
  let ?conf = "sample_config\<lparr>cfg_capabilities := Some \<lparr>c_builtins = [], c_future_keywords = [], c_features = []\<rparr>\<rparr>"
  have conf: "linter_config sample_lint_env sample_linter = Inr ?conf"
    by (simp add: linter_config_def sample_linter_def with_profiling_def with_input_modules_def new_empty_linter_def
        with_defaults_from_bundle_def sample_lint_env_def)
  have "linter_validate sample_lint_env sample_linter ?conf = None"
    by (simp add: linter_validate_def valid_names_def configured_names_def sample_linter_def with_profiling_def
        with_input_modules_def new_empty_linter_def sample_config_def empty_config_def new_set_def set_add_def
        set_diff_def set_size_def)
  moreover have "lx_compile sample_lint_env q ms = Inr ()" for q ms by (simp add: sample_lint_env_def)
  moreover have "\<exists>st. rego_prepare sample_lint_env () st' = Inr st" for st'
    by (simp add: rego_prepare_def sample_lint_env_def get_value_def write_prepared_def prepared_path_def)
  ultimately obtain l' where l': "linter_prepare sample_lint_env sample_linter = Inr l'"
    using conf by (auto simp: linter_prepare_def)
  from second_user_config_ignored [OF l' conf] l' show ?thesis by simp
qed

definition sample_prepared :: "(unit, unit, unit) linter" where
  "sample_prepared = sample_linter\<lparr>l_is_prepared := True, l_combined_cfg := Some sample_config,
     l_prepared_query := Some ((), ())\<rparr>"

definition sample_file_report :: report where
  "sample_file_report = empty_report\<lparr>Violations := [violation_from_object (lx_ast sample_lint_env)
       [(AStr ''title'', AStr ''t'')]], Aggregates := [(AStr ''k'', ANull)]\<rparr>"

lemma sample_from_query: "from_query_result (lx_ast sample_lint_env) sample_result b = Inr sample_file_report"
  by (simp add: from_query_result_def sample_result_def sample_file_report_def get_value_def values_of_type_def
      empty_report_def)

lemma sample_lint_file:
  "name \<in> {''a'', ''b''} \<Longrightarrow> lint_file sample_lint_env sample_prepared () () sample_lint_input b name
     = Some (Inr (Some sample_file_report))"
proof -
  assume name: "name \<in> {''a'', ''b''}"
  define ctx where "ctx = regal_context_with_operations sample_lint_env name
      (map_get_or (FileContent sample_lint_input) name '''') (lx_version_string sample_lint_env RegoV1) b"
  have m: "map_get (Modules sample_lint_input) name = Some sample_module"
    using name by (auto simp: sample_lint_input_def)
  have ast: "to_ast sample_lint_env name (map_get_or (FileContent sample_lint_input) name '''') (Some sample_module) b
      = Some (Inr (AObj [(AStr ''regal'', AObj ctx)]))"
    by (simp add: to_ast_def to_ast_with_regal_context_def sample_lint_env_def [unfolded lint_env.defs] ctx_def
        sample_module_def obj_insert_def)
  have "AStr ''environment'' \<in> fst ` set ctx"
    by (simp add: ctx_def regal_context_with_operations_def regal_context_def obj_insert_def Let_def)
  then have "AObj [(AStr ''regal'', AObj ctx)] \<noteq> prepare_input"
    by (auto simp: prepare_input_def obj_item_def)
  then have "lx_eval sample_lint_env () () (AObj [(AStr ''regal'', AObj ctx)]) = Inr (Some sample_result)"
    by (simp add: sample_lint_env_def)
  then show ?thesis
    using m ast sample_from_query by (simp add: lint_file_def sample_file_report_def empty_report_def sample_lint_env_def)
qed

lemma sample_outcomes:
  "file_outcomes sample_lint_env sample_prepared () () sample_lint_input
     = [Some (Inr (Some sample_file_report)), Some (Inr (Some sample_file_report))]"
  by (simp add: file_outcomes_def sample_lint_input_def [THEN arg_cong, of FileNames] sample_lint_file)

lemma sample_prepared_simps [simp]:
  "l_is_prepared sample_prepared" "l_combined_cfg sample_prepared = Some sample_config"
  "l_prepared_query sample_prepared = Some ((), ())" "l_profiling sample_prepared"
  by (simp_all add: sample_prepared_def sample_linter_def with_profiling_def)

lemma sample_lint_all:
  "lint_all sample_lint_env [0, 1] sample_prepared () () sample_lint_input
     = Some (Inr (merge_report sample_lint_env True sample_file_report sample_file_report))"
  unfolding lint_all_def Let_def file_outcomes_def [symmetric] sample_outcomes by simp

lemma lint_schedule_independent_witness:
  "lint_all sample_lint_env [1, 0] sample_prepared () () sample_lint_input
     = Some (Inr (merge_report sample_lint_env True sample_file_report sample_file_report))"
  using lint_schedule_independent [of "[0, 1]" sample_lint_input "[1, 0]" sample_lint_env sample_prepared "()" "()"]
    sample_lint_all
  by (simp add: schedule_ok_def sample_lint_input_def [THEN arg_cong, of FileNames] lessThan_Suc numeral_2_eq_2 insert_commute)

lemma sample_lint_input: "lint_input sample_lint_env sample_prepared sample_config = Inr sample_lint_input"
  by (simp add: lint_input_def sample_prepared_def sample_linter_def with_profiling_def with_input_modules_def
      new_empty_linter_def sample_config_def empty_config_def filter_ignored_paths_def input_from_paths_def
      path_results_def new_input_def add_input_modules_def sample_lint_input_def sample_lint_env_def sample_rules_env_def
      map_get_or_def)

lemma sample_aggregate:
  "\<exists>agg. lint_with_aggregate_rules sample_lint_env sample_prepared () () ags ids = Inr agg \<and> length (Violations agg) = 1"
proof -
  define obj where "obj = (let obj = [obj_item ''ignore_directives'' (AObj ids), obj_item ''regal'' aggregate_regal_object]
      in if ags \<noteq> [] then obj_insert obj ''aggregates_internal'' (AObj ags) else obj)"
  have "AStr ''regal'' \<in> fst ` set obj" "AStr ''ignore_directives'' \<in> fst ` set obj"
    by (simp_all add: obj_def obj_insert_def obj_item_def Let_def)
  then have "AObj obj \<noteq> prepare_input" by (auto simp: prepare_input_def obj_item_def)
  then have "lx_eval sample_lint_env () () (AObj obj) = Inr (Some sample_result)" by (simp add: sample_lint_env_def)
  then show ?thesis
    unfolding lint_with_aggregate_rules_def Let_def
    by (simp add: obj_def [unfolded Let_def, symmetric] sample_from_query sample_file_report_def)
qed

lemma sample_run: "\<exists>r. run_linter sample_lint_env [0, 1] sample_prepared = Some (Inr r)"
proof -
  let ?rep = "merge_report sample_lint_env True sample_file_report sample_file_report"
  obtain agg where "lint_with_aggregate_rules sample_lint_env sample_prepared () () (Aggregates ?rep) (IgnoreDirectives ?rep) = Inr agg"
    using sample_aggregate by blast
  then show ?thesis by (auto simp: run_linter_def sample_lint_input sample_lint_all [simplified] Let_def)
qed

lemma linter_report_summary_witness:
  "\<exists>r. run_linter sample_lint_env [0, 1] sample_prepared = Some (Inr r) \<and> NumViolations (Summary r) = int (length (Violations r))"
proof -
  obtain r where r: "run_linter sample_lint_env [0, 1] sample_prepared = Some (Inr r)" using sample_run by blast
  have "notice_sort_ok (lx_sort_notices sample_lint_env)"
    by (simp add: notice_sort_ok_def sample_lint_env_def)
  from linter_report_summary [OF r this] r show ?thesis by blast
qed

lemma file_profiles_lost_witness:
  "\<exists>r. run_linter sample_lint_env [0, 1] sample_prepared = Some (Inr r)"
proof -
  let ?rep = "merge_report sample_lint_env True sample_file_report sample_file_report"
  obtain agg where agg: "lint_with_aggregate_rules sample_lint_env sample_prepared () () (Aggregates ?rep) (IgnoreDirectives ?rep) = Inr agg"
    using sample_aggregate by blast
  have "length (FileNames sample_lint_input) > 1" by (simp add: sample_lint_input_def)
  moreover have "Aggregates ?rep \<noteq> []" "Profile ?rep = []"
    by (simp_all add: merge_report_def Let_def insert_all_def sample_file_report_def add_profile_entries_def empty_report_def)
  moreover have "set (lx_sort_entries sample_lint_env ps) = set ps" for ps by (simp add: sample_lint_env_def)
  ultimately show ?thesis
    using file_profiles_lost [of sample_prepared sample_config "()" "()" sample_lint_env sample_lint_input "[0, 1]" ?rep agg]
      sample_lint_input sample_lint_all agg by auto
qed

end
