(* ===== verification/Lsp_Lint.thy ===== *)
theory Lsp_Lint
  imports Lsp_Cache Linter_Proofs Uri
begin

text \<open>
  \<open>internal/lsp/lint.go\<close>, \<open>pkg/hints/hints.go\<close>, \<open>internal/lsp/store/store.go\<close> and the labels of
  \<open>internal/lsp/completions/refs/defined.go\<close>: how the language server turns the contents of a file into a
  module or into parse errors, and the report of a linter run into diagnostics. The parser's errors, their
  decoding by \<open>mapstructure\<close> and the digest of a module are parameters. OPA's store holds what was
  last put under a path; the paths that the server writes have parents, so a write cannot fail.
\<close>

section \<open>Hints\<close>

text \<open>The regular expressions of \<open>patterns\<close>: each starts at the beginning of the text.\<close>

datatype hint_atom = Lit string | AnyText | Digits | MaybeChar char | EndOfText

fun hint_match :: "hint_atom list \<Rightarrow> string \<Rightarrow> bool" where
  "hint_match [] s = True"
| "hint_match (Lit l # as) s = (has_prefix s l \<and> hint_match as (drop (length l) s))"
| "hint_match (AnyText # as) s =
     (hint_match as s \<or> (case s of [] \<Rightarrow> False | c # cs \<Rightarrow> c \<noteq> newline \<and> hint_match (AnyText # as) cs))"
| "hint_match (Digits # as) s =
     (case s of [] \<Rightarrow> False | c # cs \<Rightarrow> is_digit c \<and> (hint_match as cs \<or> hint_match (Digits # as) cs))"
| "hint_match (MaybeChar d # as) s =
     (hint_match as s \<or> (case s of [] \<Rightarrow> False | c # cs \<Rightarrow> c = d \<and> hint_match as cs))"
| "hint_match (EndOfText # as) s = (s = [] \<and> hint_match as s)"

text \<open>A key has one or several alternatives. Go iterates over the table in any order.\<close>

definition hint_patterns :: "(string \<times> hint_atom list list) list" where
  "hint_patterns =
     [(''eval-conflict-error/complete-rules-must-not-produce-multiple-outputs'',
       [[Lit ''eval_conflict_error: complete rules must not produce multiple outputs'', EndOfText]]),
      (''eval-conflict-error/object-keys-must-be-unique'',
       [[Lit ''object insert conflict'', EndOfText],
        [Lit ''eval_conflict_error: object keys must be unique'', EndOfText]]),
      (''rego-unsafe-var-error/var-name-is-unsafe'',
       [[Lit ''rego_unsafe_var_error: var '', AnyText, Lit '' is unsafe'', EndOfText]]),
      (''rego-recursion-error/rule-name-is-recursive'',
       [[Lit ''rego_recursion_error: rule '', AnyText, Lit '' is recursive:'']]),
      (''rego-parse-error/var-cannot-be-used-for-rule-name'',
       [[Lit ''rego_parse_error: var cannot be used for rule name'', EndOfText]]),
      (''rego-type-error/conflicting-rules-name-found'',
       [[Lit ''rego_type_error: conflicting rules '', AnyText, Lit '' found'', EndOfText]]),
      (''rego-type-error/match-error'', [[Lit ''rego_type_error: match error'']]),
      (''rego-type-error/arity-mismatch'', [[Lit ''rego_type_error: '', AnyText, Lit '': arity mismatch'']]),
      (''rego-type-error/function-has-arity-got-argument'',
       [[Lit ''rego_type_error: function '', AnyText, Lit '' has arity '', Digits, Lit '', got '', Digits,
         Lit '' argument'', MaybeChar CHR ''s'', EndOfText]]),
      (''rego-compile-error/assigned-var-name-unused'',
       [[Lit ''rego_compile_error: assigned var '', AnyText, Lit '' unused'', EndOfText]]),
      (''rego-parse-error/unexpected-assign-token'', [[Lit ''rego_parse_error: unexpected assign token:'']]),
      (''rego-parse-error/unexpected-identifier-token'',
       [[Lit ''rego_parse_error: unexpected identifier token:'']]),
      (''rego-parse-error/unexpected-left-curly-token'', [[Lit ''rego_parse_error: unexpected { token:'']]),
      (''rego-parse-error/unexpected-right-curly-token'', [[Lit ''rego_parse_error: unexpected } token'']]),
      (''rego-parse-error/unexpected-name-keyword'',
       [[Lit ''rego_parse_error: unexpected '', AnyText, Lit '' keyword:'']]),
      (''rego-parse-error/unexpected-string-token'', [[Lit ''rego_parse_error: unexpected string token:'']]),
      (''rego-type-error/multiple-default-rules-name-found'',
       [[Lit ''rego_type_error: multiple default rules '', AnyText, Lit '' found'']])]"

text \<open>\<open>extractMessages\<close> on the decoded codes and messages, then \<open>GetForError\<close>; errors give no key.\<close>

definition extract_messages :: "(string \<times> string) list \<Rightarrow> string list" where
  "extract_messages msgs = map (\<lambda>(code, m). (if code \<noteq> '''' then code @ '': '' else '''') @ m) msgs"

definition get_for_error :: "(string \<times> string) list option \<Rightarrow> string list" where
  "get_for_error decoded =
     (case decoded of
        None \<Rightarrow> []
      | Some msgs \<Rightarrow> (case extract_messages msgs of
            [] \<Rightarrow> []
          | m # _ \<Rightarrow> map fst (filter (\<lambda>(u, rs). list_ex (\<lambda>r. hint_match r m) rs) hint_patterns)))"

section \<open>The store\<close>

record 'b regal_store =
  st_parsed :: "(string, aval) gomap"
  st_defined_refs :: "(string, string list) gomap"
  st_builtins :: "'b option"
  st_config :: "config option"
  st_inputs :: "(string, aval) gomap"

definition new_regal_store :: "'b regal_store" where
  "new_regal_store = \<lparr>st_parsed = [], st_defined_refs = [], st_builtins = None, st_config = None, st_inputs = []\<rparr>"

definition put_file_mod :: "('r rego_module \<Rightarrow> string + aval) \<Rightarrow> 'b regal_store \<Rightarrow> string \<Rightarrow> 'r rego_module
    \<Rightarrow> string + 'b regal_store" where
  "put_file_mod module_value st fileURI md =
     (case module_value md of
        Inl e \<Rightarrow> Inl e
      | Inr v \<Rightarrow> Inr (st\<lparr>st_parsed := map_set (st_parsed st) fileURI v\<rparr>))"

definition put_file_refs :: "'b regal_store \<Rightarrow> string \<Rightarrow> string list \<Rightarrow> 'b regal_store" where
  "put_file_refs st fileURI refs = st\<lparr>st_defined_refs := map_set (st_defined_refs st) fileURI refs\<rparr>"

definition remove_file_mod :: "'b regal_store \<Rightarrow> string \<Rightarrow> 'b regal_store" where
  "remove_file_mod st fileURI = st\<lparr>st_parsed := map_del (st_parsed st) fileURI\<rparr>"

definition put_builtins :: "'b regal_store \<Rightarrow> 'b \<Rightarrow> 'b regal_store" where
  "put_builtins st bis = st\<lparr>st_builtins := Some bis\<rparr>"

definition put_config :: "'b regal_store \<Rightarrow> config \<Rightarrow> 'b regal_store" where
  "put_config st c = st\<lparr>st_config := Some c\<rparr>"

section \<open>Parsing a file of the cache\<close>

record ast_error =
  ae_code :: string
  ae_message :: string
  ae_row :: int

text \<open>\<open>ast_errors\<close> is \<^term>\<open>None\<close> for an error that is not the parser's own; \<open>decoded\<close> is what \<open>mapstructure\<close>
  makes of the innermost error; \<open>rule_names\<close> are the heads of the rules in the order of the file.\<close>

record 'r parse_env =
  px_rules :: "'r rules_env"
  px_ast_errors :: "rules_error \<Rightarrow> ast_error list option"
  px_decoded :: "rules_error \<Rightarrow> (string \<times> string) list option"
  px_module_value :: "'r rego_module \<Rightarrow> string + aval"
  px_path_string :: "aval list \<Rightarrow> string"
  px_rule_names :: "'r rego_module \<Rightarrow> string list"

datatype parse_failure =
    NoContents string
  | ModuleNotStored string
  | UnknownErrorType
  | ParseFailNoErrors

text \<open>The labels of \<open>DefinedInModule\<close> other than the package's, one per name and none for a test.\<close>

definition defined_rule_refs :: "'r parse_env \<Rightarrow> 'r rego_module \<Rightarrow> string list" where
  "defined_rule_refs env md =
     (let modKey = px_path_string env (mod_package md)
      in map (\<lambda>g. modKey @ ''.'' @ g)
           (new_set (filter (\<lambda>name. \<not> has_prefix name ''test_'') (px_rule_names env md))))"

definition parse_diagnostic :: "string \<Rightarrow> (string \<times> string) list option \<Rightarrow> ast_error \<Rightarrow> diagnostic" where
  "parse_diagnostic content decoded e =
     (let line = nat (max (ae_row e - 1) 0);
          txt = fst (line_at content (line + 1));
          lineLength = (if length txt = 0 then 1 else length txt);
          (key, link) = (case get_for_error decoded of
              h # _ \<Rightarrow> (h, ''https://www.openpolicyagent.org/docs/errors/'' @ h)
            | [] \<Rightarrow> (''regal/parse'', ''https://www.openpolicyagent.org/docs/errors/''))
      in \<lparr>CodeDescription = Some link, Message = ae_message e, Source = Some key,
          Code = replace_all ''_'' ''-'' (ae_code e), DiagRange = range_between line 0 line lineLength,
          Severity = Some 1\<rparr>)"

definition update_parse :: "'r parse_env \<Rightarrow> workspace \<Rightarrow> rego_version \<Rightarrow> string
    \<Rightarrow> 'r rego_module lsp_cache \<Rightarrow> 'b regal_store
    \<Rightarrow> 'r rego_module lsp_cache \<times> 'b regal_store \<times> (parse_failure + bool)" where
  "update_parse env ws version fileURI c st =
     (case get_file_contents c fileURI of
        None \<Rightarrow> (c, st, Inl (NoContents fileURI))
      | Some content \<Rightarrow>
          (case module_with_opts (px_rules env) version (workspace_relative_path ws fileURI) content of
             Inr md \<Rightarrow>
               let c = set_parse_errors c fileURI []; c = set_module c fileURI md;
                   c = set_successful_parse_line_count c fileURI (nat (num_lines content))
               in (case put_file_mod (px_module_value env) st fileURI md of
                     Inl e \<Rightarrow> (c, st, Inl (ModuleNotStored e))
                   | Inr st \<Rightarrow> (c, put_file_refs st fileURI (defined_rule_refs env md), Inr True))
           | Inl err \<Rightarrow>
               (case px_ast_errors env err of
                  None \<Rightarrow> (c, st, Inl UnknownErrorType)
                | Some errs \<Rightarrow>
                    let diags = map (parse_diagnostic content (px_decoded env err)) errs;
                        c = set_parse_errors c fileURI diags
                    in (c, st, if diags = [] then Inl ParseFailNoErrors else Inr False))))"

section \<open>Linting the workspace\<close>

definition get_range_for_violation :: "violation \<Rightarrow> lsp_range" where
  "get_range_for_violation item =
     (let loc = v_location item;
          startLine = max (l_row loc - 1) 0; startChar = max (l_col loc - 1) 0;
          (endLine, endChar) = (case l_end loc of
              Some e \<Rightarrow> (max (pos_row e - 1) 0, max (pos_col e - 1) 0)
            | None \<Rightarrow> (case l_text loc of
                  Some txt \<Rightarrow> (startLine, startChar + int (length txt))
                | None \<Rightarrow> (startLine, startChar)))
      in range_between (uint_of startLine) (uint_of startChar) (uint_of endLine) (uint_of endChar))"

definition violation_diagnostic :: "violation \<Rightarrow> diagnostic" where
  "violation_diagnostic item =
     \<lparr>CodeDescription = Some (''https://www.openpolicyagent.org/projects/regal/rules/'' @ v_category item @ ''/'' @ v_title item),
      Message = v_description item, Source = Some (''regal/'' @ v_category item), Code = v_title item,
      DiagRange = get_range_for_violation item, Severity = Some (if v_level item = ''warning'' then 3 else 2)\<rparr>"

definition violation_file :: "string \<Rightarrow> violation \<Rightarrow> string" where
  "violation_file root item = (if l_file (v_location item) = '''' then root else l_file (v_location item))"

definition convert_report_to_diagnostics :: "report \<Rightarrow> string \<Rightarrow> (string, diagnostic list) gomap" where
  "convert_report_to_diagnostics rpt root =
     foldl (\<lambda>m item. let file = violation_file root item
        in map_set m file (map_get_or m file [] @ [violation_diagnostic item])) [] (Violations rpt)"

record diagnostics_run_opts =
  do_config :: "config option"
  do_root :: string
  do_custom_rules :: string

definition store_file_diagnostics :: "(string, diagnostic list) gomap \<Rightarrow> string list \<Rightarrow> 'm lsp_cache \<Rightarrow> 'm lsp_cache" where
  "store_file_diagnostics fileDiags names c =
     foldl (\<lambda>c fileURI.
       if (case get_parse_errors c fileURI of Some ds \<Rightarrow> ds | None \<Rightarrow> []) = []
       then set_file_diagnostics c fileURI (map_get_or fileDiags fileURI []) else c) c names"

text \<open>The linter that the server runs: \<open>loaded\<close> are the built-in rules.\<close>

definition workspace_linter :: "('q, 'st, 'r, 'g) lint_env \<Rightarrow> 'r custom_module list \<Rightarrow> diagnostics_run_opts
    \<Rightarrow> 'r rules_input \<Rightarrow> ('q, 'st, 'r) linter" where
  "workspace_linter env loaded opts input =
     (let l = with_custom_rules_paths env [do_custom_rules opts] (with_path_prefix (do_root opts) (new_linter loaded));
          l = (case do_config opts of Some c \<Rightarrow> with_user_config c l | None \<Rightarrow> l)
      in with_input_modules input l)"

definition update_workspace_diagnostics :: "('q, 'st, 'r, 'g) lint_env \<Rightarrow> 'r custom_module list \<Rightarrow> nat list
    \<Rightarrow> diagnostics_run_opts \<Rightarrow> 'r rego_module lsp_cache
    \<Rightarrow> ('r rego_module lsp_cache \<times> lint_error option) option" where
  "update_workspace_diagnostics env loaded schedule opts c =
     (let input = new_input (lx_rules env) (get_all_files c) (get_all_modules c) in
      case linter_prepare env (workspace_linter env loaded opts input) of
        Inl e \<Rightarrow> Some (c, Some e)
      | Inr prepared \<Rightarrow> Option.bind (run_linter env schedule prepared) (\<lambda>res.
          case res of
            Inl e \<Rightarrow> Some (c, Some e)
          | Inr rpt \<Rightarrow> Some (store_file_diagnostics (convert_report_to_diagnostics rpt (do_root opts))
              (FileNames input) c, None)))"

section \<open>What a parse leaves behind\<close>

lemmas cache_reads =
  get_file_contents_def get_ignored_file_contents_def get_module_def get_file_diagnostics_def get_parse_errors_def
  get_successful_parse_line_count_def cache_ops

lemma cm_get_set: "cm_get (cm_set m k v) k' = (if k' = k then Some v else cm_get m k')"
  by (simp add: cm_get_def cm_set_def)

text \<open>A parse changes what the cache holds for its file only, never the contents or the lint diagnostics.\<close>

lemma update_parse_keeps:
  assumes "update_parse env ws version u c st = (c', st', res)"
  shows "fileContents c' = fileContents c" "ignoredFileContents c' = ignoredFileContents c"
    "diagnosticsFile c' = diagnosticsFile c"
    "v \<noteq> u \<Longrightarrow> get_module c' v = get_module c v" "v \<noteq> u \<Longrightarrow> get_parse_errors c' v = get_parse_errors c v"
    "v \<noteq> u \<Longrightarrow> map_get (st_parsed st') v = map_get (st_parsed st) v"
    "st_builtins st' = st_builtins st" "st_config st' = st_config st" "st_inputs st' = st_inputs st"
    "cache_wf c \<Longrightarrow> cache_wf c'"
  using assms
  by (auto simp: update_parse_def Let_def cache_reads cm_get_set put_file_mod_def put_file_refs_def cache_wf_def
      split: option.splits sum.splits if_splits prod.splits)

lemma parse_diagnostic_range:
  assumes "1 \<le> ae_row e" "ae_row e \<le> num_lines content"
  shows "DiagRange (parse_diagnostic content decoded e)
    = range_between (nat (ae_row e - 1)) 0 (nat (ae_row e - 1))
        (max 1 (length (split_byte newline content ! nat (ae_row e - 1))))"
proof -
  have "line_at content (nat (ae_row e - 1) + 1) = (split_byte newline content ! nat (ae_row e - 1), True)"
    using assms line_at_split [of content "nat (ae_row e - 1) + 1"] by simp
  moreover have "(if length t = 0 then 1 else length t) = max 1 (length t)" for t :: string by (cases t) auto
  ultimately show ?thesis
    using assms by (simp add: parse_diagnostic_def Let_def split: list.splits)
qed

lemma parse_diagnostic_fields:
  "Message (parse_diagnostic content decoded e) = ae_message e"
  "Source (parse_diagnostic content decoded e) = Source (parse_diagnostic content decoded e')"
  by (simp_all add: parse_diagnostic_def Let_def split: list.splits)

lemma update_parse_success:
  assumes "update_parse env ws version u c st = (c', st', Inr True)" "get_file_contents c u = Some content"
  shows "\<exists>md v. module_with_opts (px_rules env) version (workspace_relative_path ws u) content = Inr md
        \<and> px_module_value env md = Inr v \<and> get_module c' u = Some md \<and> get_parse_errors c' u = Some []
        \<and> get_successful_parse_line_count c' u = Some (nat (num_lines content)) \<and> map_get (st_parsed st') u = Some v"
proof (cases "module_with_opts (px_rules env) version (workspace_relative_path ws u) content")
  case (Inr md)
  with assms obtain v where "px_module_value env md = Inr v"
    by (cases "px_module_value env md") (auto simp: update_parse_def put_file_mod_def Let_def)
  with assms Inr show ?thesis
    by (auto simp: update_parse_def put_file_mod_def put_file_refs_def Let_def cache_reads cm_get_set)
next
  case (Inl err)
  with assms show ?thesis by (auto simp: update_parse_def Let_def split: option.splits if_splits)
qed

lemma update_parse_failure:
  assumes "update_parse env ws version u c st = (c', st', Inr False)" "get_file_contents c u = Some content"
  shows "\<exists>err errs. module_with_opts (px_rules env) version (workspace_relative_path ws u) content = Inl err
    \<and> px_ast_errors env err = Some errs \<and> errs \<noteq> [] \<and> st' = st
    \<and> c' = set_parse_errors c u (map (parse_diagnostic content (px_decoded env err)) errs)"
proof (cases "module_with_opts (px_rules env) version (workspace_relative_path ws u) content")
  case (Inr md)
  with assms show ?thesis
    by (cases "px_module_value env md") (auto simp: update_parse_def put_file_mod_def Let_def)
next
  case (Inl err)
  with assms obtain errs where "px_ast_errors env err = Some errs"
    by (cases "px_ast_errors env err") (auto simp: update_parse_def)
  with assms Inl show ?thesis by (auto simp: update_parse_def Let_def split: if_splits)
qed

text \<open>The diagnostics that parse errors become: one per error, on the whole of the error's line (one column
  for an empty line) when that is a line of the text, and all with the same source.\<close>

definition errors_shown :: "string \<Rightarrow> ast_error list \<Rightarrow> diagnostic list \<Rightarrow> bool" where
  "errors_shown content errs ds \<longleftrightarrow> map Message ds = map ae_message errs
     \<and> list_all2 (\<lambda>e d. 1 \<le> ae_row e \<and> ae_row e \<le> num_lines content \<longrightarrow> DiagRange d
         = range_between (nat (ae_row e - 1)) 0 (nat (ae_row e - 1))
             (max 1 (length (split_byte newline content ! nat (ae_row e - 1))))) errs ds
     \<and> (\<forall>d\<in>set ds. \<forall>d'\<in>set ds. Source d = Source d')"

lemma errors_shown_parse: "errors_shown content errs (map (parse_diagnostic content decoded) errs)"
  by (auto simp: errors_shown_def parse_diagnostic_fields(1) parse_diagnostic_range list.rel_map
      intro!: list.rel_refl parse_diagnostic_fields(2))


definition sample_parse_env :: "unit parse_env" where
  "sample_parse_env = \<lparr>px_rules = \<lparr>parse_module_with_opts = \<lambda>v p s. if s = ''bad'' then Inl ''e'' else Inr
       \<lparr>mod_package = [], mod_imports = [], mod_version = RegoV1, mod_rest = ()\<rparr>,
     read_file = \<lambda>p. Inl p, keys_sorted = \<lambda>ks. ks\<rparr>,
     px_ast_errors = \<lambda>e. Some [\<lparr>ae_code = ''rego_parse_error'', ae_message = ''unexpected } token'', ae_row = 1\<rparr>,
       \<lparr>ae_code = ''rego_parse_error'', ae_message = ''other'', ae_row = 1\<rparr>],
     px_decoded = \<lambda>e. Some [(''rego_parse_error'', ''unexpected } token''), (''rego_parse_error'', ''other'')],
     px_module_value = \<lambda>m. Inr ANull, px_path_string = \<lambda>p. ''p'', px_rule_names = \<lambda>m. []\<rparr>"


section \<open>What a run of the linter leaves behind\<close>

lemma converted_diagnostics:
  "map_get_or (convert_report_to_diagnostics rpt root) u []
     = map violation_diagnostic (filter (\<lambda>v. violation_file root v = u) (Violations rpt))"
proof -
  have "map_get_or (foldl (\<lambda>m item. let file = violation_file root item
        in map_set m file (map_get_or m file [] @ [violation_diagnostic item])) m vs) u []
     = map_get_or m u [] @ map violation_diagnostic (filter (\<lambda>v. violation_file root v = u) vs)" for m vs
    by (induction vs arbitrary: m) (auto simp: Let_def)
  from this [of "[]"] show ?thesis by (simp add: convert_report_to_diagnostics_def map_get_or_def)
qed

lemma stored_diagnostics:
  "get_file_diagnostics (store_file_diagnostics fd names c) u =
     (if u \<in> set names \<and> (get_parse_errors c u = None \<or> get_parse_errors c u = Some [])
      then Some (map_get_or fd u []) else get_file_diagnostics c u)"
  "get_parse_errors (store_file_diagnostics fd names c) u = get_parse_errors c u"
proof -
  have "get_file_diagnostics (store_file_diagnostics fd names c) u =
     (if u \<in> set names \<and> (get_parse_errors c u = None \<or> get_parse_errors c u = Some [])
      then Some (map_get_or fd u []) else get_file_diagnostics c u)
    \<and> get_parse_errors (store_file_diagnostics fd names c) u = get_parse_errors c u"
    unfolding store_file_diagnostics_def
    by (induction names arbitrary: c) (auto simp: cache_reads cm_get_set split: option.splits)
  then show "get_file_diagnostics (store_file_diagnostics fd names c) u =
     (if u \<in> set names \<and> (get_parse_errors c u = None \<or> get_parse_errors c u = Some [])
      then Some (map_get_or fd u []) else get_file_diagnostics c u)"
    "get_parse_errors (store_file_diagnostics fd names c) u = get_parse_errors c u" by blast+
qed

lemma store_file_diagnostics_keeps:
  "fileContents (store_file_diagnostics fd names c) = fileContents c"
  "ignoredFileContents (store_file_diagnostics fd names c) = ignoredFileContents c"
  "modules (store_file_diagnostics fd names c) = modules c"
  "diagnosticsParseErrors (store_file_diagnostics fd names c) = diagnosticsParseErrors c"
  "cache_wf c \<Longrightarrow> cache_wf (store_file_diagnostics fd names c)"
proof -
  have "fileContents (store_file_diagnostics fd names c) = fileContents c
    \<and> ignoredFileContents (store_file_diagnostics fd names c) = ignoredFileContents c
    \<and> modules (store_file_diagnostics fd names c) = modules c
    \<and> diagnosticsParseErrors (store_file_diagnostics fd names c) = diagnosticsParseErrors c
    \<and> (cache_wf c \<longrightarrow> cache_wf (store_file_diagnostics fd names c))"
    unfolding store_file_diagnostics_def
    by (induction names arbitrary: c) (auto simp: set_file_diagnostics_def cache_wf_def)
  then show "fileContents (store_file_diagnostics fd names c) = fileContents c"
    "ignoredFileContents (store_file_diagnostics fd names c) = ignoredFileContents c"
    "modules (store_file_diagnostics fd names c) = modules c"
    "diagnosticsParseErrors (store_file_diagnostics fd names c) = diagnosticsParseErrors c"
    "cache_wf c \<Longrightarrow> cache_wf (store_file_diagnostics fd names c)" by blast+
qed

text \<open>The diagnostics after a run of the linter that succeeds. Every file that has a module and no parse
  errors has exactly the violations that the report gives for it, in their order; the diagnostics of
  every other URI stay as they were. So a violation without a file, which is filed under the workspace
  root, is shown nowhere, unless there is a module of that name.\<close>

theorem workspace_diagnostics_result:
  assumes "update_workspace_diagnostics env loaded schedule opts c = Some (c', None)"
    and "\<And>ks. set (keys_sorted (lx_rules env) ks) = set ks"
  shows "\<exists>prepared rpt.
      linter_prepare env (workspace_linter env loaded opts (new_input (lx_rules env) (get_all_files c) (get_all_modules c)))
        = Inr prepared
    \<and> run_linter env schedule prepared = Some (Inr rpt)
    \<and> get_file_diagnostics c' u =
      (if get_module c u \<noteq> None \<and> (get_parse_errors c u = None \<or> get_parse_errors c u = Some [])
       then Some (map violation_diagnostic (filter (\<lambda>v. violation_file (do_root opts) v = u) (Violations rpt)))
       else get_file_diagnostics c u)"
proof -
  let ?input = "new_input (lx_rules env) (get_all_files c) (get_all_modules c)"
  obtain prepared where p: "linter_prepare env (workspace_linter env loaded opts ?input) = Inr prepared"
    using assms(1) by (cases "linter_prepare env (workspace_linter env loaded opts ?input)")
      (simp_all add: update_workspace_diagnostics_def Let_def)
  then obtain res where "run_linter env schedule prepared = Some res"
    using assms(1) by (cases "run_linter env schedule prepared") (simp_all add: update_workspace_diagnostics_def Let_def)
  moreover obtain rpt where "res = Inr rpt"
    using assms(1) p calculation by (cases res) (simp_all add: update_workspace_diagnostics_def Let_def)
  ultimately have rpt: "run_linter env schedule prepared = Some (Inr rpt)"
      "c' = store_file_diagnostics (convert_report_to_diagnostics rpt (do_root opts)) (FileNames ?input) c"
    using assms(1) p by (simp_all add: update_workspace_diagnostics_def Let_def)
  have "u \<in> set (FileNames ?input) \<longleftrightarrow> get_module c u \<noteq> None"
    using assms(2) map_of_None_keys [of "modules c" u]
    by (auto simp: new_input_def get_all_modules_def get_module_def cm_get_def cm_clone_def)
  then show ?thesis
    using rpt(1) p unfolding rpt(2)
    by (intro exI [of _ prepared] exI [of _ rpt]) (simp add: stored_diagnostics converted_diagnostics)
qed

lemma sample_prepares:
  assumes "l_combined_cfg l = None" "l_user_config l = None" "l_custom_rule_error l = None"
    "l_enable l = []" "l_disable l = []" "l_enable_category l = []" "l_disable_category l = []"
  shows "linter_prepare sample_lint_env l = Inr (l\<lparr>l_combined_cfg := Some (sample_config\<lparr>cfg_capabilities :=
    Some \<lparr>c_builtins = [], c_future_keywords = [], c_features = []\<rparr>\<rparr>), l_prepared_query := Some ((), ()), l_is_prepared := True\<rparr>)"
proof -
  let ?conf = "sample_config\<lparr>cfg_capabilities := Some \<lparr>c_builtins = [], c_future_keywords = [], c_features = []\<rparr>\<rparr>"
  have "linter_config sample_lint_env l = Inr ?conf"
    using assms by (simp add: linter_config_def with_defaults_from_bundle_def sample_lint_env_def)
  moreover have "linter_validate sample_lint_env l ?conf = None"
    using assms by (simp add: linter_validate_def configured_names_def sample_config_def empty_config_def new_set_def
        set_add_def set_diff_def set_size_def)
  moreover have "lx_compile sample_lint_env q ms = Inr ()" for q ms by (simp add: sample_lint_env_def)
  moreover have "\<exists>st. rego_prepare sample_lint_env () st' = Inr st" for st'
    by (simp add: rego_prepare_def sample_lint_env_def get_value_def write_prepared_def prepared_path_def)
  ultimately show ?thesis by (auto simp: linter_prepare_def bind_res_def split: sum.splits)
qed

lemma workspace_diagnostics_result_witness:
  "\<exists>c'. update_workspace_diagnostics sample_lint_env [] [] \<lparr>do_config = None, do_root = '''', do_custom_rules = ''''\<rparr>
      new_lsp_cache = Some (c', None) \<and> get_file_diagnostics c' ''w'' = None"
proof -
  let ?opts = "\<lparr>do_config = None, do_root = '''', do_custom_rules = ''''\<rparr>"
  let ?c = "new_lsp_cache :: unit rego_module lsp_cache"
  let ?input = "new_input (lx_rules sample_lint_env) (get_all_files ?c) (get_all_modules ?c)"
  let ?l = "workspace_linter sample_lint_env [] ?opts ?input"
  have input: "?input = \<lparr>FileContent = [], Modules = [], FileNames = []\<rparr>"
    by (simp add: new_input_def get_all_files_def get_all_modules_def new_lsp_cache_def cm_map_of_def cm_clone_def
        sample_lint_env_def sample_rules_env_def)
  have l: "?l = with_input_modules ?input (not_prepared (with_path_prefix '''' (new_linter [])))"
    by (simp add: workspace_linter_def with_custom_rules_paths_def Let_def)
  obtain p where p: "linter_prepare sample_lint_env ?l = Inr p" "l_is_prepared p" "l_combined_cfg p \<noteq> None"
      "l_prepared_query p \<noteq> None" "l_input_modules p = Some ?input" "l_input_paths p = []" "l_path_prefix p = ''''"
      "\<not> l_profiling p"
    using sample_prepares [of ?l] unfolding l
    by (auto simp: with_input_modules_def not_prepared_def with_path_prefix_def new_linter_def new_empty_linter_def)
  have in0: "lint_input sample_lint_env p conf = Inr \<lparr>FileContent = [], Modules = [], FileNames = []\<rparr>" for conf
    using p(5-7) unfolding input
    by (simp add: lint_input_def filter_ignored_paths_def input_from_paths_def path_results_def new_input_def
        add_input_modules_def sample_lint_env_def sample_rules_env_def Let_def sample_config_def empty_config_def)
  have all: "lint_all sample_lint_env [] p q st \<lparr>FileContent = [], Modules = [], FileNames = []\<rparr> = Some (Inr empty_report)" for q st
    by (simp add: lint_all_def Let_def)
  obtain conf q st where "l_combined_cfg p = Some conf" "l_prepared_query p = Some (q, st)" using p(3,4) by auto
  then have "\<exists>r. run_linter sample_lint_env [] p = Some (Inr r)"
    using p(2) by (simp add: run_linter_def in0 all)
  then obtain c' where c': "update_workspace_diagnostics sample_lint_env [] [] ?opts ?c = Some (c', None)"
    using p(1) by (auto simp: update_workspace_diagnostics_def Let_def)
  have "set (keys_sorted (lx_rules sample_lint_env) ks) = set ks" for ks
    by (simp add: sample_lint_env_def sample_rules_env_def)
  from workspace_diagnostics_result [OF c' this, of "''w''"] c' show ?thesis
    by (auto simp: cache_reads cm_get_def cm_map_of_def)
qed

end
