(* ===== verification/Input_Manager.thy ===== *)
theory Input_Manager
  imports Lsp_Lint Bundle_Cache
begin

text \<open>
  \<open>internal/lsp/input/input.go\<close>: the input files of a workspace, kept in memory and in the store. Decoding
  JSON and YAML is a parameter, as is the file system of the workspace, whose paths are relative to its
  root. Every method holds the lock for its whole body. The keys of the store's
  \<open>workspace/inputs\<close> are the paths.
\<close>

section \<open>State and operations\<close>

record input_file =
  if_dir :: string
  if_raw :: string

record input_env =
  ix_tree :: "string \<Rightarrow> fs_node option"
  ix_read :: "string \<Rightarrow> string + string"
  ix_json :: "string \<Rightarrow> string + aval"
  ix_yaml :: "string \<Rightarrow> string + aval"

record input_manager =
  im_workspace :: "workspace option"
  im_inputs :: "(string, input_file) gomap"

definition new_manager :: input_manager where
  "new_manager = \<lparr>im_workspace = None, im_inputs = []\<rparr>"

definition internal_path :: "input_manager \<Rightarrow> string \<Rightarrow> string" where
  "internal_path m pathOrURI =
     trim_prefix (trim_prefix (to_path pathOrURI)
       (case im_workspace m of Some w \<Rightarrow> workspace_path w [] | None \<Rightarrow> '''')) ''/''"

definition path_suffix :: "string \<Rightarrow> string" where
  "path_suffix path = drop (nat (last_index_byte path CHR ''.'' + 1)) path"

text \<open>The directory that an input file is for.\<close>

definition input_dir :: "string \<Rightarrow> string" where
  "input_dir path = trim_suffix (trim_suffix (trim_suffix path (path_suffix path)) ''input.'') ''/''"

text \<open>A file that is neither JSON nor YAML leaves a nil value, which is stored.\<close>

definition decode_input :: "input_env \<Rightarrow> string \<Rightarrow> string \<Rightarrow> string + aval" where
  "decode_input env suffix content =
     (if suffix = ''json'' then ix_json env content
      else if suffix = ''yaml'' then ix_yaml env content
      else Inr ANull)"

definition input_update :: "input_env \<Rightarrow> input_manager \<Rightarrow> 'b regal_store \<Rightarrow> string \<Rightarrow> string option
    \<Rightarrow> input_manager \<times> 'b regal_store \<times> string option" where
  "input_update env m st pathOrURI content =
     (let path = internal_path m pathOrURI in
      case (case content of
              Some c \<Rightarrow> Inr c
            | None \<Rightarrow> (case ix_read env path of
                  Inl e \<Rightarrow> Inl e
                | Inr c \<Rightarrow> Inr (if c = '''' then ''{}'' else c))) of
        Inl e \<Rightarrow> (m, st, Some e)
      | Inr content \<Rightarrow>
          if (case map_get (im_inputs m) path of Some cur \<Rightarrow> if_raw cur = content | None \<Rightarrow> False)
          then (m, st, None)
          else (case decode_input env (path_suffix path) content of
                  Inl e \<Rightarrow> (m, st, Some e)
                | Inr val \<Rightarrow>
                    (m\<lparr>im_inputs := map_set (im_inputs m) path \<lparr>if_dir = input_dir path, if_raw = content\<rparr>\<rparr>,
                     st\<lparr>st_inputs := map_set (st_inputs st) path val\<rparr>, None)))"

definition input_delete :: "input_manager \<Rightarrow> 'b regal_store \<Rightarrow> string \<Rightarrow> input_manager \<times> 'b regal_store" where
  "input_delete m st pathOrURI =
     (let path = internal_path m pathOrURI in
      (m\<lparr>im_inputs := map_del (im_inputs m) path\<rparr>, st\<lparr>st_inputs := map_del (st_inputs st) path\<rparr>))"

definition has_input_suffix :: "string \<Rightarrow> bool" where
  "has_input_suffix path = has_any_suffix path [''input.json'', ''input.yaml'']"

text \<open>The loop of \<open>FindForPath\<close>; Go iterates over the inputs in any order.\<close>

fun closest_input :: "string \<Rightarrow> (string, input_file) gomap \<Rightarrow> string \<times> string \<Rightarrow> string \<times> string" where
  "closest_input path [] best = best"
| "closest_input path ((inputPath, file) # fs) (closestDir, closestPath) =
     (if has_prefix path (if_dir file) \<and> length closestDir \<le> length (if_dir file)
      then closest_input path fs (if_dir file, inputPath)
      else closest_input path fs (closestDir, closestPath))"

definition find_for_path :: "input_manager \<Rightarrow> string \<Rightarrow> string" where
  "find_for_path m pathOrURI = snd (closest_input (internal_path m pathOrURI) (im_inputs m) ('''', ''''))"

definition input_get :: "input_manager \<Rightarrow> 'b regal_store \<Rightarrow> string \<Rightarrow> aval" where
  "input_get m st inputPath =
     (let inputPath = trim_byte inputPath CHR ''/'' in
      case map_get (im_inputs m) inputPath of
        None \<Rightarrow> AObj []
      | Some file \<Rightarrow> (case map_get (st_inputs st) inputPath of Some v \<Rightarrow> v | None \<Rightarrow> AObj []))"

definition load_from_workspace :: "input_env \<Rightarrow> input_manager \<Rightarrow> 'b regal_store \<Rightarrow> workspace
    \<Rightarrow> input_manager \<times> 'b regal_store" where
  "load_from_workspace env m st w =
     fst (walker_walk (ix_tree env)
       (with_filters [not_filter (suffixes_filter [''input.json'', ''input.yaml''])] (default_walker ''.''))
       (\<lambda>path (m, st). case input_update env m st path None of (m, st, e) \<Rightarrow> ((m, st), e))
       (m\<lparr>im_workspace := Some w\<rparr>, st))"

section \<open>Invariant\<close>

text \<open>The manager and the store hold the same inputs, each for the directory of its path.\<close>

definition inputs_ok :: "input_manager \<Rightarrow> 'b regal_store \<Rightarrow> bool" where
  "inputs_ok m st \<longleftrightarrow> map_wf (im_inputs m) \<and> map_wf (st_inputs st)
     \<and> set (map fst (im_inputs m)) = set (map fst (st_inputs st))
     \<and> list_all (\<lambda>(p, f). if_dir f = input_dir p) (im_inputs m)"

lemma inputs_ok_new: "inputs_ok new_manager new_regal_store"
  by (simp add: inputs_ok_def new_manager_def new_regal_store_def)

lemma list_all_update: "list_all P m \<Longrightarrow> P (k, v) \<Longrightarrow> list_all P (map_set m k v)"
  by (induction m) auto

lemma list_all_delete: "list_all P m \<Longrightarrow> list_all P (map_del m k)"
  by (induction m) auto

lemma input_update_ok:
  assumes "inputs_ok m st" "input_update env m st p content = (m', st', e)"
  shows "inputs_ok m' st'"
proof (cases "m' = m \<and> st' = st")
  case False
  then obtain path c val where "m' = m\<lparr>im_inputs := map_set (im_inputs m) path \<lparr>if_dir = input_dir path, if_raw = c\<rparr>\<rparr>"
      "st' = st\<lparr>st_inputs := map_set (st_inputs st) path val\<rparr>"
    using assms(2) by (auto simp: input_update_def Let_def split: sum.splits option.splits if_splits)
  then show ?thesis using assms(1) by (simp add: inputs_ok_def keys_update list_all_update del: set_map)
qed (use assms in simp)

lemma input_delete_ok: "inputs_ok m st \<Longrightarrow> input_delete m st p = (m', st') \<Longrightarrow> inputs_ok m' st'"
  by (auto simp: inputs_ok_def input_delete_def Let_def keys_delete list_all_delete simp del: set_map)

lemma load_from_workspace_ok:
  assumes "inputs_ok m st" "load_from_workspace env m st w = (m', st')"
  shows "inputs_ok m' st'"
proof -
  let ?fw = "with_filters [not_filter (suffixes_filter [''input.json'', ''input.yaml''])] (default_walker ''.'')"
  let ?f = "\<lambda>path (m, st). case input_update env m st path None of (m, st, e) \<Rightarrow> ((m, st), e)"
  let ?P = "\<lambda>(m, st). inputs_ok m st"
  have step: "?P (fst (walker_fn ?fw ?f p d s))" if "?P s" for p d s
    using that input_update_ok by (auto simp: walker_fn_def split: prod.splits option.splits)
  have start: "?P (m\<lparr>im_workspace := Some w\<rparr>, st)" using assms(1) by (simp add: inputs_ok_def)
  have "?P (fst (walk_dir (walker_fn ?fw ?f) p n node (m\<lparr>im_workspace := Some w\<rparr>, st)))" for p n node
    by (rule walk_invariant(1) [where P = ?P]) (rule step, assumption, rule start)
  then have "?P (fst (walker_walk (ix_tree env) ?fw ?f (m\<lparr>im_workspace := Some w\<rparr>, st)))"
    using start by (auto simp: walker_walk_def split: option.splits prod.splits walk_res.splits)
      (metis fst_conv old.prod.case)+
  then show ?thesis using assms(2) by (auto simp: load_from_workspace_def)
qed

section \<open>The most specific input\<close>

lemma closest_input_bound:
  "closest_input path fs (d, p) = (d', p') \<Longrightarrow> length d \<le> length d'
    \<and> (\<forall>(q, f)\<in>set fs. has_prefix path (if_dir f) \<longrightarrow> length (if_dir f) \<le> length d')
    \<and> ((d', p') = (d, p) \<or> (\<exists>f. (p', f) \<in> set fs \<and> if_dir f = d' \<and> has_prefix path d'))"
proof (induction fs arbitrary: d p)
  case (Cons e fs)
  obtain q f where e: "e = (q, f)" by (cases e)
  show ?case
  proof (cases "has_prefix path (if_dir f) \<and> length d \<le> length (if_dir f)")
    case True
    with Cons.prems have "closest_input path fs (if_dir f, q) = (d', p')" by (simp add: e)
    from Cons.IH [OF this] True show ?thesis by (auto simp: e)
  next
    case False
    with Cons.prems have "closest_input path fs (d, p) = (d', p')" by (auto simp: e)
    from Cons.IH [OF this] False show ?thesis by (auto simp: e)
  qed
qed simp

lemma closest_input_found:
  "closest_input path fs (d, p) = (d', p') \<Longrightarrow> (q, f) \<in> set fs \<Longrightarrow> has_prefix path (if_dir f)
    \<Longrightarrow> length d \<le> length (if_dir f) \<Longrightarrow> \<exists>f. (p', f) \<in> set fs \<and> if_dir f = d' \<and> has_prefix path d'"
proof (induction fs arbitrary: d p)
  case (Cons e fs)
  obtain r g where e: "e = (r, g)" by (cases e)
  show ?case
  proof (cases "has_prefix path (if_dir g) \<and> length d \<le> length (if_dir g)")
    case True
    with Cons.prems have "closest_input path fs (if_dir g, r) = (d', p')" by (simp add: e)
    from closest_input_bound [OF this] True show ?thesis by (auto simp: e)
  next
    case False
    with Cons.prems have "closest_input path fs (d, p) = (d', p')" "(q, f) \<in> set fs" by (auto simp: e)
    from Cons.IH [OF this Cons.prems(3,4)] show ?thesis by auto
  qed
qed simp

text \<open>The input found for a file is one for the longest directory among those that are a prefix of the
  file's path, and there is one as soon as any input's directory is a prefix. The prefix is one of text:
  the input of a directory \<open>foo\<close> is also found for files of a sibling \<open>foobar\<close>.\<close>

theorem find_for_path_most_specific:
  assumes "inputs_ok m st"
  shows "let path = internal_path m pathOrURI; found = find_for_path m pathOrURI; keys = map fst (im_inputs m) in
    if \<exists>q\<in>set keys. has_prefix path (input_dir q)
    then found \<in> set keys \<and> has_prefix path (input_dir found)
      \<and> (\<forall>q\<in>set keys. has_prefix path (input_dir q) \<longrightarrow> length (input_dir q) \<le> length (input_dir found))
    else found = ''''"
proof -
  let ?path = "internal_path m pathOrURI"
  obtain d p where r: "closest_input ?path (im_inputs m) ('''', '''') = (d, p)" by fastforce
  have dir: "if_dir f = input_dir q" if "(q, f) \<in> set (im_inputs m)" for q f
    using assms that by (auto simp: inputs_ok_def list_all_iff)
  have found: "find_for_path m pathOrURI = p" using r by (simp add: find_for_path_def)
  have ex: "(\<exists>(q, f)\<in>set (im_inputs m). has_prefix ?path (if_dir f)) \<longleftrightarrow>
      (\<exists>q\<in>set (map fst (im_inputs m)). has_prefix ?path (input_dir q))" using dir by force
  show ?thesis
  proof (cases "\<exists>q\<in>set (map fst (im_inputs m)). has_prefix ?path (input_dir q)")
    case True
    then obtain q f where q: "(q, f) \<in> set (im_inputs m)" "has_prefix ?path (if_dir f)" using ex by auto
    from closest_input_found [OF r q] obtain f' where f: "(p, f') \<in> set (im_inputs m)" "if_dir f' = d" "has_prefix ?path d"
      by auto
    then have p: "input_dir p = d" "p \<in> set (map fst (im_inputs m))" using dir by force+
    moreover have "length (input_dir q) \<le> length d"
      if "q \<in> set (map fst (im_inputs m))" "has_prefix ?path (input_dir q)" for q
      using that dir closest_input_bound [OF r] by fastforce
    ultimately show ?thesis using True f(3) by (simp add: found Let_def del: set_map)
  next
    case False
    with ex have "\<not> (\<exists>f. (p, f) \<in> set (im_inputs m) \<and> if_dir f = d \<and> has_prefix ?path d)" by auto
    with closest_input_bound [OF r] have "p = ''''" by auto
    with False show ?thesis by (auto simp: found Let_def)
  qed
qed

definition sample_manager :: input_manager where
  "sample_manager = \<lparr>im_workspace = Some (new_workspace ''file:///w''),
     im_inputs = [(''input.json'', \<lparr>if_dir = '''', if_raw = ''{}''\<rparr>), (''foo/input.json'', \<lparr>if_dir = ''foo'', if_raw = ''{}''\<rparr>)]\<rparr>"

lemma find_for_path_most_specific_witness: "find_for_path sample_manager ''/w/foobar/p.rego'' = ''foo/input.json''"
proof -
  let ?st = "new_regal_store\<lparr>st_inputs := [(''input.json'', AObj []), (''foo/input.json'', AObj [])]\<rparr> :: unit regal_store"
  have dirs: "input_dir ''input.json'' = ''''" "input_dir ''foo/input.json'' = ''foo''" by code_simp+
  have path: "internal_path sample_manager ''/w/foobar/p.rego'' = ''foobar/p.rego''" by code_simp
  have "inputs_ok sample_manager ?st"
    by (simp add: inputs_ok_def sample_manager_def dirs new_regal_store_def)
  moreover have "map fst (im_inputs sample_manager) = [''input.json'', ''foo/input.json'']"
    by (simp add: sample_manager_def)
  ultimately show ?thesis
    using find_for_path_most_specific [of sample_manager ?st "''/w/foobar/p.rego''"]
    by (auto simp: Let_def path dirs simp del: set_map)
qed

end
