(* ===== verification/Lsp_Edits.thy ===== *)
theory Lsp_Edits
  imports Input_Manager Fixer_Proofs Config_Find Diff
begin

text \<open>
  The language server's state, and the edits it computes from it: \<open>internal/lsp/server_command.go\<close> (code
  actions as edits and renames) and the templating of new files in \<open>internal/lsp/server.go\<close>. Everything
  outside the repository is a field of \<open>server_env\<close>: the linter's, fixer's and parser's environments, the
  decoding of configuration files, and the lookup of capabilities. The messages that the server puts on its
  channels or sends to the client are appended to \<open>sv_out\<close>, in their order; that a send on a full channel
  waits is not modelled here. Logging, the web server and the debug server are left out. A panic, or a
  search for a file that does not end, is \<^term>\<open>None\<close>.
\<close>

section \<open>Environment and state\<close>

record ('q, 'st, 'r, 'g, 'b, 'd) server_env =
  sx_lint :: "('q, 'st, 'r, 'g) lint_env"
  sx_fix :: "'r fixer_env"
  sx_parse :: "'r parse_env"
  sx_bundles :: "('d, string) bundle_env"
  sx_input :: input_env
  sx_loaded :: "'r custom_module list"
  sx_schedule :: "nat list"
  sx_load_conf :: "string \<Rightarrow> config option"
  sx_from_path :: "string \<Rightarrow> string + config"
  sx_abs :: "string \<Rightarrow> string"
  sx_global_config :: "string option"
  sx_builtins :: "string \<Rightarrow> string + 'b"
  sx_default_builtins :: 'b
  sx_default_url :: string

record client_options =
  co_formatter :: string
  co_testing :: bool

datatype doc_change =
    EditDoc string "text_edit list"
  | RenameDoc string string
  | DeleteDoc string

record command_args =
  ca_target :: string
  ca_diagnostic :: "diagnostic option"

datatype server_output =
    LintJob string
  | TemplateJob string
  | TestLocationJob string
  | WatchConfig string
  | Publish string "diagnostic list"
  | ApplyEdit string "doc_change list"
  | ShowMessage string

record ('r, 'b, 'd) server =
  sv_cache :: "'r rego_module lsp_cache"
  sv_store :: "'b regal_store"
  sv_bundles :: "('d, string) bundle_cache option"
  sv_config :: config
  sv_versions :: "(string, rego_version) gomap"
  sv_builtins :: "(string, 'b) gomap"
  sv_inputs :: input_manager
  sv_templating :: "string gset"
  sv_workspace :: workspace
  sv_options :: client_options
  sv_out :: "server_output list"

abbreviation server_fs :: "('q, 'st, 'r, 'g, 'b, 'd) server_env \<Rightarrow> string \<Rightarrow> fs_node option" where
  "server_fs env \<equiv> lx_fs (sx_lint env)"

abbreviation server_read :: "('q, 'st, 'r, 'g, 'b, 'd) server_env \<Rightarrow> string \<Rightarrow> string + string" where
  "server_read env \<equiv> read_file (lx_rules (sx_lint env))"

definition rego_version_for_uri :: "('r, 'b, 'd) server \<Rightarrow> string \<Rightarrow> rego_version" where
  "rego_version_for_uri s fileURI =
     rego_version_from_map (sv_versions s) (trim_prefix (to_path fileURI) (workspace_path (sv_workspace s) []))
       RegoUndefined"

section \<open>Templates for new files\<close>

datatype template_error =
    InWorkspaceRoot
  | NoFileContents string
  | HasContents
  | HasDiskContents
  | RootsFailed config_error
  | NoRoot string
  | InvalidPart string

text \<open>\<open>validPathComponentPattern\<close>, \<open>^\w+[\w\-]*\w+$\<close>.\<close>

definition word_char :: "char \<Rightarrow> bool" where
  "word_char c \<longleftrightarrow> is_letter c \<or> is_digit c \<or> c = CHR ''_''"

definition valid_path_component :: "string \<Rightarrow> bool" where
  "valid_path_component p \<longleftrightarrow> length p \<ge> 2 \<and> word_char (hd p) \<and> word_char (last p)
     \<and> list_all (\<lambda>c. word_char c \<or> c = CHR ''-'') p"

definition longest_prefix_root :: "string \<Rightarrow> string list \<Rightarrow> string" where
  "longest_prefix_root dir roots =
     foldl (\<lambda>longest root. if has_prefix dir root \<and> length root > length longest then root else longest) '''' roots"

definition add_package_part :: "string \<Rightarrow> string \<Rightarrow> string" where
  "add_package_part pkg part =
     (if CHR ''-'' \<in> set part then pkg @ ''['' @ [CHR 0x22] @ part @ [CHR 0x22] @ '']''
      else if pkg = '''' then part
      else pkg @ ''.'' @ part)"

fun package_of_parts :: "string list \<Rightarrow> string \<Rightarrow> template_error + string" where
  "package_of_parts [] pkg = Inr pkg"
| "package_of_parts (part # parts) pkg =
     (if part = '''' then package_of_parts parts pkg
      else if \<not> valid_path_component part then Inl (InvalidPart part)
      else package_of_parts parts (add_package_part pkg part))"

definition template_package :: "string \<Rightarrow> string list \<Rightarrow> template_error + string" where
  "template_package fileURI parts =
     bind_res (package_of_parts parts '''') (\<lambda>pkg.
       let pkg = (if pkg = '''' then ''main'' else pkg)
       in Inr (if has_suffix fileURI ''_test.rego'' then pkg @ ''_test'' else pkg))"

definition template_text :: "rego_version \<Rightarrow> string \<Rightarrow> string" where
  "template_text v pkg =
     ''package '' @ pkg @ [newline, newline] @ (if v = RegoV0 then ''import rego.v1'' @ [newline] else '''')"

definition template_roots :: "string \<Rightarrow> string \<Rightarrow> string list \<Rightarrow> string list" where
  "template_roots root dir roots = (if roots = [dir] then [root] else roots @ [root])"

definition template_contents_for_file :: "('q, 'st, 'r, 'g, 'b, 'd) server_env \<Rightarrow> ('r, 'b, 'd) server \<Rightarrow> string
    \<Rightarrow> (template_error + string) option" where
  "template_contents_for_file env s fileURI =
     (let path = to_path fileURI; dir = fp_dir path; root = workspace_path (sv_workspace s) [] in
      if dir = root then Some (Inl InWorkspaceRoot)
      else (case get_file_contents (sv_cache s) fileURI of
          None \<Rightarrow> Some (Inl (NoFileContents fileURI))
        | Some content \<Rightarrow>
            if content \<noteq> '''' then Some (Inl HasContents)
            else if (case server_read env path of Inr diskContent \<Rightarrow> length diskContent > 0 | Inl e \<Rightarrow> False)
            then Some (Inl HasDiskContents)
            else Option.bind (get_potential_roots (server_fs env) (sx_load_conf env) (sx_abs env) [path]) (\<lambda>res.
              case res of
                Inl e \<Rightarrow> Some (Inl (RootsFailed e))
              | Inr roots \<Rightarrow>
                  let longest = longest_prefix_root dir (template_roots root dir roots) in
                  Some (if longest = '''' then Inl (NoRoot path)
                    else bind_res
                      (template_package fileURI (remdups_adj (split_byte sep (trim_prefix dir longest))))
                      (\<lambda>pkg. Inr (template_text (rego_version_for_uri s fileURI) pkg))))))"

section \<open>Code actions as edits\<close>

datatype edit_error =
    ContentsMissing string
  | FixError fix_error
  | PotentialRoots config_error
  | FixerError fixer_error
  | OldLocationMissing
  | OutOfRoot
  | CleanUpFailed string

definition position_of :: "lsp_position \<Rightarrow> int \<times> int" where
  "position_of p = (safe_uint_to_int (int (Line p) + 1), safe_uint_to_int (int (Character p) + 1))"

definition diagnostic_location :: "diagnostic \<Rightarrow> location" where
  "diagnostic_location d =
     (let (row, col) = position_of (RStart (DiagRange d)); (row', col') = position_of (REnd (DiagRange d))
      in empty_location\<lparr>l_row := row, l_col := col, l_end := Some \<lparr>pos_row = row', pos_col = col'\<rparr>\<rparr>)"

text \<open>The edits for a client; IntelliJ gets a single one over the whole file.\<close>

definition client_edits :: "workspace \<Rightarrow> string \<Rightarrow> string \<Rightarrow> text_edit list option" where
  "client_edits ws oldContent newContent =
     (if ws_client ws = IdentifierIntelliJ then
        (let numLines = num_lines oldContent; line = fst (line_at oldContent (nat numLines))
         in Some [\<lparr>NewText = newContent, EditRange = range_between 0 0 (nat (numLines - 1)) (length line)\<rparr>])
      else compute_edits oldContent newContent)"

definition fix_edit_params :: "('q, 'st, 'r, 'g, 'b, 'd) server_env \<Rightarrow> ('r, 'b, 'd) server \<Rightarrow> fix_kind
    \<Rightarrow> command_args \<Rightarrow> (edit_error + doc_change list) option" where
  "fix_edit_params env s fx args =
     (case get_file_contents (sv_cache s) (ca_target args) of
        None \<Rightarrow> Some (Inl (ContentsMissing (ca_target args)))
      | Some oldContent \<Rightarrow>
          let ws = sv_workspace s;
              rto = \<lparr>ro_config = None, ro_base_dir = workspace_path ws [],
                ro_locations = (case ca_diagnostic args of Some d \<Rightarrow> [diagnostic_location d] | None \<Rightarrow> []),
                ro_client = IdentifierGeneric\<rparr>
          in Option.bind (apply_fix (fix_env.truncate (sx_fix env)) fx
                 \<lparr>cand_filename = fp_base (to_path (ca_target args)), cand_contents = oldContent,
                  cand_rego_version = RegoUndefined\<rparr> (Some rto))
               (\<lambda>res. case res of
                  Inl e \<Rightarrow> Some (Inl (FixError e))
                | Inr [] \<Rightarrow> Some (Inr [])
                | Inr (fxr # _) \<Rightarrow>
                    map_option (\<lambda>edits. Inr [EditDoc (ca_target args) edits])
                      (client_edits ws oldContent (fr_contents fxr))))"

section \<open>Renaming a file to match its package\<close>

definition mismatch_violation :: "string \<Rightarrow> violation" where
  "mismatch_violation fileURI =
     \<lparr>v_title = fix_name DirectoryPackageMismatch, v_description = '''', v_category = '''', v_level = '''',
      v_resources = [], v_location = empty_location\<lparr>l_file := to_path fileURI\<rparr>, v_aggregate = False\<rparr>"

fun first_moved :: "fix_report \<Rightarrow> string list \<Rightarrow> (string \<times> string) option" where
  "first_moved r [] = None"
| "first_moved r (f # fs) = (case old_path_for_file r f of Some old \<Rightarrow> Some (f, old) | None \<Rightarrow> first_moved r fs)"

text \<open>The fixer works on the server's own cache, which keeps the changes whatever happens after it.\<close>

definition fix_rename_changes :: "('q, 'st, 'r, 'g, 'b, 'd) server_env \<Rightarrow> ('r, 'b, 'd) server \<Rightarrow> string
    \<Rightarrow> ('r rego_module lsp_cache \<times> (edit_error + doc_change list)) option" where
  "fix_rename_changes env s fileURI =
     (let ws = sv_workspace s; root = workspace_path ws [] in
      Option.bind (get_potential_roots (server_fs env) (sx_load_conf env) (sx_abs env) [root]) (\<lambda>res. case res of
        Inl e \<Rightarrow> Some (sv_cache s, Inl (PotentialRoots e))
      | Inr roots \<Rightarrow>
          let f = set_on_conflict_operation on_conflict_rename
                (register_fixes [DirectoryPackageMismatch] (register_roots roots new_fixer))
          in Option.bind (fix_violations (sx_fix env) (cp_ops (lx_rules (sx_lint env))) f [mismatch_violation fileURI]
                 (Some (sv_config s)) (new_cache_provider (sv_cache s) (ws_client ws)))
               (\<lambda>(cp, res). case res of
                  Inl e \<Rightarrow> Some (cp_cache cp, Inl (FixerError e))
                | Inr r \<Rightarrow>
                    if fixed_files r = [] then Some (cp_cache cp, Inr [])
                    else (case first_moved r (fixed_files r) of
                        None \<Rightarrow> Some (cp_cache cp, Inl OldLocationMissing)
                      | Some (fixedFile, oldFile) \<Rightarrow>
                          let oldURI = workspace_uri ws [oldFile]; newURI = workspace_uri ws [fixedFile] in
                          if \<not> has_prefix newURI (workspace_uri ws []) then Some (cp_cache cp, Inl OutOfRoot)
                          else Option.bind (dir_clean_up_paths (server_fs env) (to_path oldURI) [root, to_path newURI])
                            (\<lambda>dirs. case dirs of
                               Inl d \<Rightarrow> Some (cp_cache cp, Inl (CleanUpFailed d))
                             | Inr ds \<Rightarrow> Some (cache_delete (cp_cache cp) oldURI,
                                 Inr (RenameDoc oldURI newURI # map (\<lambda>dir. DeleteDoc (workspace_uri ws [dir])) ds)))))))"

section \<open>Which templates are packages\<close>

text \<open>The references that Rego's \<open>package\<close> takes: a name, then names behind dots and strings in brackets.\<close>

datatype ref_mode = RefStart | InName | OpenBracket | InQuotes | CloseQuotes | RefEnd

definition name_start :: "char \<Rightarrow> bool" where
  "name_start c \<longleftrightarrow> word_char c \<and> \<not> is_digit c"

fun ref_step :: "ref_mode \<Rightarrow> char \<Rightarrow> ref_mode option" where
  "ref_step RefStart c = (if name_start c then Some InName else None)"
| "ref_step InName c = (if word_char c then Some InName else if c = CHR ''.'' then Some RefStart
     else if c = CHR ''['' then Some OpenBracket else None)"
| "ref_step OpenBracket c = (if c = CHR 0x22 then Some InQuotes else None)"
| "ref_step InQuotes c = Some (if c = CHR 0x22 then CloseQuotes else InQuotes)"
| "ref_step CloseQuotes c = (if c = CHR '']'' then Some RefEnd else None)"
| "ref_step RefEnd c = (if c = CHR ''.'' then Some RefStart else if c = CHR ''['' then Some OpenBracket else None)"

fun ref_run :: "ref_mode \<Rightarrow> string \<Rightarrow> ref_mode option" where
  "ref_run m [] = Some m"
| "ref_run m (c # cs) = Option.bind (ref_step m c) (\<lambda>m. ref_run m cs)"

definition is_rego_ref :: "string \<Rightarrow> bool" where
  "is_rego_ref s \<longleftrightarrow> ref_run RefStart s \<in> {Some InName, Some RefEnd}"

lemma ref_run_append: "ref_run m (s @ t) = Option.bind (ref_run m s) (\<lambda>m. ref_run m t)"
  by (induction m s rule: ref_run.induct) (auto split: Option.bind_splits)

lemma ref_run_words: "list_all word_char w \<Longrightarrow> ref_run InName w = Some InName"
  by (induction w) auto

lemma ref_run_name: "w \<noteq> [] \<Longrightarrow> name_start (hd w) \<Longrightarrow> list_all word_char w \<Longrightarrow> ref_run RefStart w = Some InName"
  by (cases w) (auto simp: ref_run_words)

lemma ref_run_quoted: "CHR 0x22 \<notin> set w \<Longrightarrow> ref_run InQuotes w = Some InQuotes"
  by (induction w) auto

definition part_ok :: "string \<Rightarrow> bool" where
  "part_ok p \<longleftrightarrow> valid_path_component p \<and> \<not> is_digit (hd p)"

lemma not_word [simp]: "\<not> word_char CHR ''['' " "\<not> word_char CHR ''.''" "\<not> word_char CHR 0x22" "word_char CHR ''_''"
    "\<not> is_digit CHR ''_''" "\<not> word_char CHR ''-''"
  by (auto simp: word_char_def is_letter_def is_digit_def)

lemma part_words: "part_ok p \<Longrightarrow> CHR ''-'' \<notin> set p \<Longrightarrow> list_all word_char p \<and> name_start (hd p) \<and> p \<noteq> []"
  by (auto simp: part_ok_def valid_path_component_def name_start_def list_all_iff)

lemma part_unquoted: "part_ok p \<Longrightarrow> CHR 0x22 \<notin> set p"
  by (auto simp: part_ok_def valid_path_component_def list_all_iff)

lemma ref_run_bracket:
  "part_ok p \<Longrightarrow> m \<in> {InName, RefEnd} \<Longrightarrow> ref_run m (''['' @ [CHR 0x22] @ p @ [CHR 0x22] @ '']'') = Some RefEnd"
  using part_unquoted [of p] by (auto simp: ref_run_append ref_run_quoted)

definition part_end :: "string \<Rightarrow> ref_mode" where
  "part_end p = (if CHR ''-'' \<in> set p then RefEnd else InName)"

lemma ref_run_add_none: "pkg \<noteq> [] \<Longrightarrow> ref_run RefStart pkg = None \<Longrightarrow> ref_run RefStart (add_package_part pkg p) = None"
  by (auto simp: add_package_part_def ref_run_append)

lemma ref_run_add:
  assumes "part_ok p" "pkg \<noteq> []" "is_rego_ref pkg"
  shows "ref_run RefStart (add_package_part pkg p) = Some (part_end p)"
proof (cases "CHR ''-'' \<in> set p")
  case True
  from assms(3) obtain m where "ref_run RefStart pkg = Some m" "m \<in> {InName, RefEnd}" by (auto simp: is_rego_ref_def)
  with True ref_run_bracket [OF assms(1), of m] show ?thesis
    by (simp only: add_package_part_def part_end_def if_True ref_run_append [of _ pkg] Option.bind.bind_lunit)
next
  case False
  with assms part_words [OF assms(1)] show ?thesis
    by (auto simp: add_package_part_def part_end_def ref_run_append is_rego_ref_def ref_run_name)
qed

lemma add_package_part_ne: "part_ok p \<Longrightarrow> add_package_part pkg p \<noteq> []"
  by (auto simp: add_package_part_def part_ok_def valid_path_component_def)

text \<open>The parts behind a package text that is already there, and their last end.\<close>

lemma package_of_parts_none:
  assumes "\<forall>p\<in>set parts. p = '''' \<or> part_ok p" "pkg \<noteq> []" "ref_run RefStart pkg = None"
  shows "\<exists>pkg'. package_of_parts parts pkg = Inr pkg' \<and> pkg' \<noteq> [] \<and> ref_run RefStart pkg' = None"
  using assms
proof (induction parts arbitrary: pkg)
  case (Cons p ps)
  show ?case
  proof (cases "p = ''''")
    case False
    with Cons.prems have p: "part_ok p" "valid_path_component p" by (auto simp: part_ok_def)
    from Cons.IH [OF _ add_package_part_ne [OF p(1), of pkg]] Cons.prems ref_run_add_none [OF Cons.prems(2,3)] p False
    show ?thesis by simp
  qed (use Cons in simp)
qed simp

lemma package_of_parts_run:
  assumes "\<forall>p\<in>set parts. p = '''' \<or> part_ok p" "pkg \<noteq> []" "is_rego_ref pkg"
  shows "\<exists>pkg'. package_of_parts parts pkg = Inr pkg' \<and> pkg' \<noteq> []
    \<and> ref_run RefStart pkg' = (case filter (\<lambda>p. p \<noteq> '''') parts of [] \<Rightarrow> ref_run RefStart pkg
        | ps \<Rightarrow> Some (part_end (last ps)))"
  using assms
proof (induction parts arbitrary: pkg)
  case (Cons p ps)
  show ?case
  proof (cases "p = ''''")
    case True
    with Cons show ?thesis by simp
  next
    case False
    with Cons.prems have p: "part_ok p" "valid_path_component p" by (auto simp: part_ok_def)
    note run = ref_run_add [OF p(1) Cons.prems(2,3)]
    then have "is_rego_ref (add_package_part pkg p)" by (simp add: is_rego_ref_def part_end_def)
    from Cons.IH [OF _ add_package_part_ne [OF p(1)] this] Cons.prems(1) run p False show ?thesis
      by (simp split: list.splits)
  qed
qed simp

text \<open>The package that a new file is templated with, when every directory below the root has a name of
  letters, digits, hyphens and underscores that could be part of one: it is a reference of Rego exactly
  if the first directory has no hyphen and, for a test file, neither has the last one. Otherwise the
  template does not parse: it starts with a bracket, or has \<open>_test\<close> behind one.\<close>

theorem template_package_parses:
  assumes "filter (\<lambda>p. p \<noteq> '''') parts = p # ps" "\<forall>q\<in>set (p # ps). valid_path_component q \<and> \<not> is_digit (hd q)"
  shows "\<exists>pkg. template_package fileURI parts = Inr pkg
    \<and> (is_rego_ref pkg \<longleftrightarrow> CHR ''-'' \<notin> set p
        \<and> (has_suffix fileURI ''_test.rego'' \<longrightarrow> CHR ''-'' \<notin> set (last (p # ps))))"
proof -
  have ok: "part_ok q" if "q \<in> set (p # ps)" for q using assms(2) that by (auto simp: part_ok_def)
  obtain rest where rest: "package_of_parts parts '''' = package_of_parts rest (add_package_part '''' p)"
      "filter (\<lambda>p. p \<noteq> '''') rest = ps" "set rest \<subseteq> insert '''' (set (p # ps))"
    using assms ok
  proof (induction parts)
    case (Cons q qs)
    then show ?case by (cases "q = ''''") (force simp: part_ok_def)+
  qed simp
  have first: "ref_run RefStart (add_package_part '''' p) = (if CHR ''-'' \<in> set p then None else Some InName)"
    using part_words [OF ok [of p]] by (auto simp: add_package_part_def ref_run_name name_start_def)
  have "\<forall>q\<in>set rest. q = '''' \<or> part_ok q" using rest(3) ok by auto
  note run = package_of_parts_run [OF this add_package_part_ne] package_of_parts_none [OF this add_package_part_ne]
  have "p \<in> set (p # ps)" by simp
  then have "\<exists>pkg. package_of_parts parts '''' = Inr pkg \<and> pkg \<noteq> [] \<and> ref_run RefStart pkg
      = (if CHR ''-'' \<in> set p then None else Some (part_end (last (p # ps))))"
    using run(1) [OF ok, of p "''''"] run(2) [OF ok, of p "''''"] first
    by (auto simp: rest is_rego_ref_def part_end_def split: list.splits)
  then obtain pkg where
    pkg: "package_of_parts parts '''' = Inr pkg" "pkg \<noteq> []"
      "ref_run RefStart pkg = (if CHR ''-'' \<in> set p then None
        else Some (part_end (last (p # ps))))" by blast
  have "ref_run RefStart (pkg @ ''_test'') = (if CHR ''-'' \<in> set p \<or> CHR ''-'' \<in> set (last (p # ps)) then None else Some InName)"
    using pkg(3) by (simp add: ref_run_append part_end_def word_char_def is_letter_def)
  with pkg show ?thesis by (auto simp: template_package_def Let_def is_rego_ref_def part_end_def)
qed

lemma template_package_parses_witness: "\<not> is_rego_ref (projr (template_package ''p.rego'' ['''', ''my-app'', ''policy'']))"
proof -
  have parts: "filter (\<lambda>p. p \<noteq> '''') ['''', ''my-app'', ''policy''] = ''my-app'' # [''policy'']" by simp
  have "\<forall>q\<in>set (''my-app'' # [''policy'']). valid_path_component q \<and> \<not> is_digit (hd q)"
    by (auto simp: valid_path_component_def word_char_def is_letter_def is_digit_def)
  from template_package_parses [OF parts this, of "''p.rego''"] show ?thesis by auto
qed

section \<open>What a rename leaves in the cache\<close>

lemma fix_one_violation_puts:
  assumes "fix_violations env (cp_ops renv) f [v] conf cp = Some (cp', Inr r)"
  shows "fixed_files r = [] \<or> (\<exists>t content. cp' = fst (cp_put t (l_file (v_location v)) content))"
proof -
  let ?file = "l_file (v_location v)"
  from assms obtain start where l: "fix_violations_loop env (cp_ops renv) f conf start [v] cp new_fix_report = Some (cp', Inr r)"
    by (auto simp: fix_violations_def cp_ops_def cp_list_def)
  have put: "fo_put (cp_ops renv) t q x = (fst (cp_put t q x), None)" for t q x by (simp add: cp_ops_def cp_put_def)
  obtain k where k: "get_fix_for_name f (v_title v) = Some k" using l by (cases "get_fix_for_name f (v_title v)") simp_all
  obtain fc where fc: "fo_get (cp_ops renv) cp ?file = Inr fc"
    using l k by (cases "fo_get (cp_ops renv) cp ?file") (simp_all add: Let_def)
  obtain absol where ab: "fx_abs env ?file = Inr absol" using l k fc by (cases "fx_abs env ?file") (simp_all add: Let_def)
  let ?fix = "apply_fix (fix_env.truncate env) k
      \<lparr>cand_filename = ?file, cand_contents = fc, cand_rego_version = RegoUndefined\<rparr> (Some (fixer_options f conf v absol))"
  obtain res where res: "?fix = Some res" using l k fc ab by (cases ?fix) (simp_all add: Let_def)
  obtain fxs where fxs: "res = Inr fxs" using l k fc ab res by (cases res) (simp_all add: Let_def)
  show ?thesis
  proof (cases fxs)
    case Nil
    then have "r = new_fix_report" using l k fc ab res fxs by (simp add: Let_def)
    then show ?thesis by (simp add: fixed_files_def new_fix_report_def sorted_slice_def)
  next
    case (Cons fx rest)
    let ?inner = "case fr_rename fx of None \<Rightarrow> Some (cp, new_fix_report, Inr fx)
      | Some rn \<Rightarrow> handle_rename env (cp_ops renv) f start rn fx cp new_fix_report"
    obtain t r1 out where inner: "?inner = Some (t, r1, out)"
      using l k fc ab res fxs Cons by (cases ?inner) (auto simp: Let_def)
    obtain fx' where "out = Inr fx'"
      using l k fc ab res fxs Cons inner by (cases out) (auto simp: Let_def)
    with l k fc ab res fxs Cons inner have "cp' = fst (cp_put t ?file (fr_contents fx'))" by (simp add: Let_def put)
    then show ?thesis by blast
  qed
qed

lemma workspace_uri_not_rooted: "workspace_uri ws [q] \<noteq> sep # p"
  by (simp add: workspace_uri_def from_relative_path_def from_path_not_rooted)

text \<open>What the server computes to move a file to the directory of its package: a rename, then the
  deletion of directories, into a URI that has the workspace's as a prefix. The old URI is forgotten, but
  the server's cache has gained a document: the fixer writes the moved file back to its old path, and
  the cache's provider stores it under that path, which is not a URI.\<close>

theorem rename_changes_leave_path:
  assumes "fix_rename_changes env s fileURI = Some (c', Inr changes)" "changes \<noteq> []" "to_path fileURI = sep # p"
  shows "\<exists>oldURI newURI dirs content. changes = RenameDoc oldURI newURI # map DeleteDoc dirs
    \<and> has_prefix newURI (workspace_uri (sv_workspace s) []) \<and> get_file_contents c' oldURI = None
    \<and> map_get (get_all_files c') (to_path fileURI) = Some content"
proof -
  let ?ws = "sv_workspace s" let ?root = "workspace_path ?ws []"
  let ?roots = "get_potential_roots (server_fs env) (sx_load_conf env) (sx_abs env) [?root]"
  obtain roots where roots: "?roots = Some (Inr roots)"
    using assms(1,2) by (cases ?roots; cases "the ?roots") (auto simp: fix_rename_changes_def Let_def)
  let ?f = "set_on_conflict_operation on_conflict_rename
      (register_fixes [DirectoryPackageMismatch] (register_roots roots new_fixer))"
  let ?v = "mismatch_violation fileURI"
  let ?run = "fix_violations (sx_fix env) (cp_ops (lx_rules (sx_lint env))) ?f [?v]
      (Some (sv_config s)) (new_cache_provider (sv_cache s) (ws_client ?ws))"
  obtain cp res where cp: "?run = Some (cp, res)"
    using assms(1) roots by (cases ?run) (auto simp: fix_rename_changes_def Let_def)
  obtain r where r: "res = Inr r"
    using assms(1) roots cp by (cases res) (auto simp: fix_rename_changes_def Let_def)
  have ne: "fixed_files r \<noteq> []"
    using assms(1,2) roots cp r by (auto simp: fix_rename_changes_def Let_def)
  obtain new old where moved: "first_moved r (fixed_files r) = Some (new, old)"
    using assms(1) roots cp r ne by (cases "first_moved r (fixed_files r)") (auto simp: fix_rename_changes_def Let_def)
  let ?old = "workspace_uri ?ws [old]" let ?new = "workspace_uri ?ws [new]"
  have inside: "has_prefix ?new (workspace_uri ?ws [])"
    using assms(1) roots cp r ne moved by (auto simp: fix_rename_changes_def Let_def split: if_splits)
  let ?dirs = "dir_clean_up_paths (server_fs env) (to_path ?old) [?root, to_path ?new]"
  obtain ds where ds: "?dirs = Some (Inr ds)"
    using assms(1) roots cp r ne moved inside
    by (cases ?dirs; cases "the ?dirs") (auto simp: fix_rename_changes_def Let_def)
  have res: "c' = cache_delete (cp_cache cp) ?old" "changes = RenameDoc ?old ?new # map DeleteDoc (map (\<lambda>d. workspace_uri ?ws [d]) ds)"
    using assms(1) roots cp r ne moved inside ds by (auto simp: fix_rename_changes_def Let_def)
  obtain t content where "cp = fst (cp_put t (to_path fileURI) content)"
    using fix_one_violation_puts cp r ne by (fastforce simp: mismatch_violation_def)
  then have "map_get (get_all_files c') (to_path fileURI) = Some content"
    using workspace_uri_not_rooted [of ?ws old p] assms(3)
    by (auto simp: res get_all_files_def cm_clone_def cp_put_def set_file_contents_def cm_set_def cache_delete_def
        cm_delete_def)
  moreover have "get_file_contents c' ?old = None"
    by (simp add: res get_file_contents_def cache_delete_def cm_get_def cm_delete_def)
  ultimately show ?thesis using res inside by blast
qed

section \<open>A concrete rename\<close>

declare find_upwards_loop.simps [code] preserve_up.simps [code] clean_up_loop.simps [code] rename_loop.simps [code]
definition sample_tree :: "string \<Rightarrow> fs_node option" where
  "sample_tree p = (if p = ''/ws'' then Some (DirNode [(''a.rego'', FileNode)]) else None)"

definition sample_server_env :: "(unit, unit, unit, string, unit, nat) server_env" where
  "sample_server_env = \<lparr>sx_lint = sample_lint_env\<lparr>lx_fs := sample_tree\<rparr>, sx_fix = sample_fixer_env,
     sx_parse = sample_parse_env, sx_bundles = \<lparr>be_fs = sample_tree, be_digest = Inl,
       be_read = \<lambda>p f. Inl p, be_empty = 0\<rparr>,
     sx_input = \<lparr>ix_tree = \<lambda>p. None, ix_read = Inl, ix_json = Inl, ix_yaml = Inl\<rparr>, sx_loaded = [], sx_schedule = [],
     sx_load_conf = \<lambda>p. None, sx_from_path = Inl, sx_abs = \<lambda>p. p, sx_global_config = None, sx_builtins = \<lambda>u. Inr (),
     sx_default_builtins = (), sx_default_url = ''regal:///capabilities/default''\<rparr>"

definition sample_server :: "(unit, unit, nat) server" where
  "sample_server = \<lparr>sv_cache = set_file_contents new_lsp_cache ''file:///ws/a.rego'' ''q'', sv_store = new_regal_store,
     sv_bundles = None, sv_config = sample_config, sv_versions = [], sv_builtins = [], sv_inputs = new_manager,
     sv_templating = new_set [], sv_workspace = new_workspace ''file:///ws'', sv_options = \<lparr>co_formatter = '''', co_testing = False\<rparr>,
     sv_out = []\<rparr>"


lemma sample_uris:
  "to_path ''file:///ws/a.rego'' = ''/ws/a.rego''" "to_path ''file:///ws/p/a.rego'' = ''/ws/p/a.rego''"
  "from_path IdentifierGeneric ''/ws/a.rego'' = ''file:///ws/a.rego''"
  "from_path IdentifierGeneric ''/ws/p/a.rego'' = ''file:///ws/p/a.rego''"
  "workspace_path (new_workspace ''file:///ws'') [] = ''/ws''"
  "workspace_uri (new_workspace ''file:///ws'') [''/ws/a.rego''] = ''file:///ws/a.rego''"
  "workspace_uri (new_workspace ''file:///ws'') [''/ws/p/a.rego''] = ''file:///ws/p/a.rego''"
  "workspace_uri (new_workspace ''file:///ws'') [] = ''file:///ws''"
  by code_simp+

lemma sample_roots: "get_potential_roots sample_tree (\<lambda>p. None) (\<lambda>p. p) [''/ws''] = Some (Inr [''/ws''])"
  by code_simp

lemma sample_clean_up: "dir_clean_up_paths sample_tree ''/ws/a.rego'' [''/ws'', ''/ws/p/a.rego''] = Some (Inr [])"
  by code_simp

definition sample_fixer :: fixer where
  "sample_fixer = set_on_conflict_operation on_conflict_rename
      (register_fixes [DirectoryPackageMismatch] (register_roots [''/ws''] new_fixer))"

lemma sample_package_mismatch:
  "apply_fix (fix_env.truncate sample_fixer_env) DirectoryPackageMismatch
     \<lparr>cand_filename = ''/ws/a.rego'', cand_contents = ''q'', cand_rego_version = RegoUndefined\<rparr>
     (Some (fixer_options sample_fixer (Some sample_config) (mismatch_violation ''file:///ws/a.rego'') ''/ws/a.rego''))
   = Some (Inr [\<lparr>fr_rename = Some \<lparr>rn_from = ''/ws/a.rego'', rn_to = ''/ws/p/a.rego''\<rparr>,
        fr_title = ''directory-package-mismatch'', fr_root = ''/ws'', fr_contents = ''q''\<rparr>])"
  by code_simp

definition sample_moved :: "unit rego_module cache_provider" where
  "sample_moved = fst (cp_rename (new_cache_provider (sv_cache sample_server) IdentifierGeneric) ''/ws/a.rego'' ''/ws/p/a.rego'')"

lemma sample_rename:
  "cp_rename (new_cache_provider (sv_cache sample_server) IdentifierGeneric) ''/ws/a.rego'' ''/ws/p/a.rego'' = (sample_moved, None)"
proof -
  have "snd (cp_rename (new_cache_provider (sv_cache sample_server) IdentifierGeneric) ''/ws/a.rego'' ''/ws/p/a.rego'') = None"
    by code_simp
  then show ?thesis by (simp add: sample_moved_def prod_eq_iff)
qed

lemma first_moved_only:
  "b \<in> set fs \<Longrightarrow> old_path_for_file r b = Some old \<Longrightarrow> (\<And>f. f \<in> set fs \<Longrightarrow> f \<noteq> b \<Longrightarrow> old_path_for_file r f = None)
    \<Longrightarrow> first_moved r fs = Some (b, old)"
proof (induction fs)
  case (Cons f fs)
  then show ?case by (cases "f = b") auto
qed simp

lemma sample_fix:
  "\<exists>cp r. fix_violations sample_fixer_env (cp_ops (lx_rules (sx_lint sample_server_env))) sample_fixer
      [mismatch_violation ''file:///ws/a.rego''] (Some sample_config)
      (new_cache_provider (sv_cache sample_server) IdentifierGeneric) = Some (cp, Inr r)
    \<and> first_moved r (fixed_files r) = Some (''/ws/p/a.rego'', ''/ws/a.rego'') \<and> fixed_files r \<noteq> []"
proof -
  let ?rules = "lx_rules (sx_lint sample_server_env)" let ?v = "mismatch_violation ''file:///ws/a.rego''"
  let ?cp = "new_cache_provider (sv_cache sample_server) IdentifierGeneric"
  let ?fx = "\<lparr>fr_rename = Some \<lparr>rn_from = ''/ws/a.rego'', rn_to = ''/ws/p/a.rego''\<rparr>,
        fr_title = ''directory-package-mismatch'', fr_root = ''/ws'', fr_contents = ''q''\<rparr>"
  have loop: "rename_loop sample_fixer_env (cp_ops ?rules) (onConflictOperation sample_fixer) ''/ws/a.rego'' ?cp ''/ws/p/a.rego''
      = Some (sample_moved, RenamedTo ''/ws/p/a.rego'')"
    by (subst rename_loop.simps) (simp add: cp_ops_def sample_rename)
  have h: "handle_rename sample_fixer_env (cp_ops ?rules) sample_fixer start \<lparr>rn_from = ''/ws/a.rego'', rn_to = ''/ws/p/a.rego''\<rparr>
      ?fx ?cp new_fix_report = Some (sample_moved, report_move new_fix_report ''/ws/p/a.rego'' ''/ws/a.rego'' ?fx, Inr ?fx)" for start
    using loop by (simp add: handle_rename_def Let_def)
  have v: "l_file (v_location ?v) = ''/ws/a.rego''" "v_title ?v = fix_name DirectoryPackageMismatch"
    by (simp_all add: mismatch_violation_def sample_uris)
  have "fo_get (cp_ops ?rules) ?cp ''/ws/a.rego'' = Inr ''q''"
    by (simp add: cp_ops_def cp_get_def sample_uris new_cache_provider_def sample_server_def cache_reads cm_get_set)
  moreover have "fx_abs sample_fixer_env p = Inr p" for p by (simp add: sample_fixer_env_def)
  moreover have "get_fix_for_name sample_fixer (fix_name DirectoryPackageMismatch) = Some DirectoryPackageMismatch"
    by (simp add: get_fix_for_name_def sample_fixer_def set_on_conflict_operation_def register_fixes_def
        register_roots_def new_fixer_def)
  ultimately have "fix_violations sample_fixer_env (cp_ops ?rules) sample_fixer [?v] (Some sample_config) ?cp
      = Some (fst (cp_put sample_moved ''/ws/a.rego'' ''q''),
          Inr (add_file_fix (report_move new_fix_report ''/ws/p/a.rego'' ''/ws/a.rego'' ?fx) ''/ws/a.rego'' ?fx))"
    using h sample_package_mismatch
    by (simp add: fix_violations_def v Let_def cp_ops_def cp_list_def cp_put_def)
  moreover have "set (fixed_files (add_file_fix (report_move new_fix_report ''/ws/p/a.rego'' ''/ws/a.rego'' ?fx) ''/ws/a.rego'' ?fx))
      = {''/ws/a.rego'', ''/ws/p/a.rego''}" (is "set (fixed_files ?r) = _")
    by (auto simp: fixed_files_def sorted_slice_def add_file_fix_def report_move_def register_old_path_def merge_fixes_def
        new_fix_report_def)
  moreover have "old_path_for_file ?r ''/ws/a.rego'' = None" "old_path_for_file ?r ''/ws/p/a.rego'' = Some ''/ws/a.rego''"
    by (simp_all add: add_file_fix_def report_move_def register_old_path_def merge_fixes_def new_fix_report_def
        old_path_for_file_def map_get_or_def)
  moreover have "first_moved ?r (fixed_files ?r) = Some (''/ws/p/a.rego'', ''/ws/a.rego'')"
  proof (rule first_moved_only)
    show "''/ws/p/a.rego'' \<in> set (fixed_files ?r)" by (simp only: calculation(2)) simp
    show "old_path_for_file ?r ''/ws/p/a.rego'' = Some ''/ws/a.rego''" by (rule calculation(4))
    show "old_path_for_file ?r f = None" if "f \<in> set (fixed_files ?r)" "f \<noteq> ''/ws/p/a.rego''" for f
    proof -
      have "f = ''/ws/p/a.rego'' \<or> f = ''/ws/a.rego''"
        using that(1) unfolding calculation(2) by (elim insertE emptyE) (rule disjI2, assumption, rule disjI1, assumption)
      with that(2) have "f = ''/ws/a.rego''" by (simp only: simp_thms)
      then show ?thesis using calculation(3) by (rule ssubst)
    qed
  qed
  moreover have "fixed_files ?r \<noteq> []"
  proof
    assume "fixed_files ?r = []"
    then have "set (fixed_files ?r) = {}" by (simp only: list.set)
    then show False unfolding calculation(2) by (rule insert_not_empty [THEN notE])
  qed
  ultimately show ?thesis by (intro exI conjI)
qed

lemma rename_changes_leave_path_witness:
  "\<exists>c' chs content. fix_rename_changes sample_server_env sample_server ''file:///ws/a.rego'' = Some (c', Inr chs)
    \<and> map_get (get_all_files c') ''/ws/a.rego'' = Some content"
proof -
  have s: "sv_workspace sample_server = new_workspace ''file:///ws''" "sv_config sample_server = sample_config"
    "ws_client (new_workspace ''file:///ws'') = IdentifierGeneric" by (simp_all add: sample_server_def new_workspace_def)
  have e: "sx_fix sample_server_env = sample_fixer_env" "server_fs sample_server_env = sample_tree"
    "sx_load_conf sample_server_env = (\<lambda>p. None)" "sx_abs sample_server_env = (\<lambda>p. p)" by (simp_all add: sample_server_env_def)
  obtain c' dirs where r: "fix_rename_changes sample_server_env sample_server ''file:///ws/a.rego''
      = Some (c', Inr (RenameDoc ''file:///ws/a.rego'' ''file:///ws/p/a.rego'' # dirs))"
    using sample_fix unfolding sample_fixer_def
    by (auto simp: fix_rename_changes_def Let_def s e sample_uris sample_roots sample_clean_up)
  from rename_changes_leave_path [OF r _ sample_uris(1)] r show ?thesis by (auto simp: sample_uris)
qed

end
