(* ===== verification/Lsp_Server.thy ===== *)
theory Lsp_Server
  imports Lsp_Edits
begin

text \<open>
  \<open>internal/lsp/server.go\<close>: the handlers and workers of the language server, as functions from states to
  states; Lsp_Run has the runs they make up. A handler or a round of a worker is one step, although the server runs
  them concurrently: its shared maps are locked per call, not per handler. Messages for channels and for
  the client go to \<open>sv_out\<close>. A panic, or a search that does not end, is \<^term>\<open>None\<close>. The
  requests that only ask, and the dispatch of all of them, are in Lsp_Dispatch; what is delegated to Rego is in
  Lsp_Router. Logging, timers, the web and debug servers and development mode are left out.
\<close>

section \<open>Shared steps\<close>

definition emit :: "server_output \<Rightarrow> ('r, 'b, 'd) server \<Rightarrow> ('r, 'b, 'd) server" where
  "emit out s = s\<lparr>sv_out := sv_out s @ [out]\<rparr>"

definition ignore_uri :: "('q, 'st, 'r, 'g, 'b, 'd) server_env \<Rightarrow> ('r, 'b, 'd) server \<Rightarrow> string \<Rightarrow> bool" where
  "ignore_uri env s fileURI =
     (if \<not> has_suffix fileURI ''.rego'' then True
      else case filter_ignored_paths (server_fs env) (lx_glob (sx_lint env)) [to_path fileURI]
          (ign_files (cfg_ignore (sv_config s))) False (workspace_path (sv_workspace s) []) of
        Inl e \<Rightarrow> True
      | Inr paths \<Rightarrow> paths = [])"

definition current_capabilities_url :: "('q, 'st, 'r, 'g, 'b, 'd) server_env \<Rightarrow> config \<Rightarrow> string" where
  "current_capabilities_url env conf =
     (if cfg_capabilities_url conf = '''' then sx_default_url env else cfg_capabilities_url conf)"

definition builtins_for_current_capabilities :: "('q, 'st, 'r, 'g, 'b, 'd) server_env \<Rightarrow> ('r, 'b, 'd) server \<Rightarrow> 'b" where
  "builtins_for_current_capabilities env s =
     (case map_get (sv_builtins s) (current_capabilities_url env (sv_config s)) of
        Some bis \<Rightarrow> bis | None \<Rightarrow> sx_default_builtins env)"

text \<open>\<open>updateParse\<close> with \<open>parseOpts\<close>.\<close>

definition parse_uri :: "('q, 'st, 'r, 'g, 'b, 'd) server_env \<Rightarrow> ('r, 'b, 'd) server \<Rightarrow> string
    \<Rightarrow> ('r, 'b, 'd) server \<times> (parse_failure + bool)" where
  "parse_uri env s fileURI =
     (case update_parse (sx_parse env) (sv_workspace s) (rego_version_for_uri s fileURI) fileURI (sv_cache s) (sv_store s) of
        (c, st, res) \<Rightarrow> (s\<lparr>sv_cache := c, sv_store := st\<rparr>, res))"

text \<open>What most handlers do after an update: parse, and have the tests of the file located.\<close>

definition reparse :: "('q, 'st, 'r, 'g, 'b, 'd) server_env \<Rightarrow> string \<Rightarrow> ('r, 'b, 'd) server
    \<Rightarrow> ('r, 'b, 'd) server" where
  "reparse env fileURI s =
     (case parse_uri env s fileURI of
        (s, Inr True) \<Rightarrow> if co_testing (sv_options s) then emit (TestLocationJob fileURI) s else s
      | (s, _) \<Rightarrow> s)"

definition send_file_diagnostics :: "string \<Rightarrow> ('r, 'b, 'd) server \<Rightarrow> ('r, 'b, 'd) server" where
  "send_file_diagnostics fileURI s =
     (let errs = (case get_parse_errors (sv_cache s) fileURI of Some ds \<Rightarrow> ds | None \<Rightarrow> []);
          diags = (if errs = [] then (case get_file_diagnostics (sv_cache s) fileURI of Some ds \<Rightarrow> ds | None \<Rightarrow> [])
            else errs)
      in emit (Publish fileURI diags) s)"

definition delete_file :: "string \<Rightarrow> ('r, 'b, 'd) server \<Rightarrow> ('r, 'b, 'd) server" where
  "delete_file fileURI s = s\<lparr>sv_cache := cache_delete (sv_cache s) fileURI\<rparr>"

definition put_contents :: "string \<Rightarrow> string \<Rightarrow> ('r, 'b, 'd) server \<Rightarrow> ('r, 'b, 'd) server" where
  "put_contents fileURI contents s = s\<lparr>sv_cache := set_file_contents (sv_cache s) fileURI contents\<rparr>"

definition put_ignored :: "string \<Rightarrow> string \<Rightarrow> ('r, 'b, 'd) server \<Rightarrow> ('r, 'b, 'd) server" where
  "put_ignored fileURI contents s = s\<lparr>sv_cache := set_ignored_file_contents (sv_cache s) fileURI contents\<rparr>"

section \<open>Configuration\<close>

text \<open>The two loops at the end of \<open>loadConfig\<close>, over snapshots of the cache.\<close>

definition unload_ignored :: "('q, 'st, 'r, 'g, 'b, 'd) server_env \<Rightarrow> string \<Rightarrow> ('r, 'b, 'd) server
    \<Rightarrow> ('r, 'b, 'd) server" where
  "unload_ignored env k s =
     (if \<not> ignore_uri env s k then s
      else let s = (case get_file_contents (sv_cache s) k of
          Some contents \<Rightarrow> put_ignored k contents (delete_file k s)
        | None \<Rightarrow> s)
      in s\<lparr>sv_store := remove_file_mod (sv_store s) k\<rparr>)"

definition reload_unignored :: "('q, 'st, 'r, 'g, 'b, 'd) server_env \<Rightarrow> string \<times> string \<Rightarrow> ('r, 'b, 'd) server
    \<Rightarrow> ('r, 'b, 'd) server" where
  "reload_unignored env = (\<lambda>(k, v) s.
     (if ignore_uri env s k then s
      else let s = (if has_file_contents (sv_cache s) k then s else fst (parse_uri env (put_contents k v s) k))
      in s\<lparr>sv_cache := clear_ignored_file_contents (sv_cache s) k\<rparr>))"

definition load_config :: "('q, 'st, 'r, 'g, 'b, 'd) server_env \<Rightarrow> config \<Rightarrow> ('r, 'b, 'd) server
    \<Rightarrow> ('r, 'b, 'd) server" where
  "load_config env conf s =
     (let s = s\<lparr>sv_config := conf, sv_store := put_config (sv_store s) conf\<rparr>;
          root = workspace_path (sv_workspace s) [];
          s = (if root = '''' then s
            else (case all_rego_versions (lx_find_manifests (sx_lint env)) (lx_manifest (sx_lint env)) root (Some conf) of
                Inl e \<Rightarrow> s
              | Inr vs \<Rightarrow> s\<lparr>sv_versions := foldl (\<lambda>m (k, v). map_set m k v) [] vs\<rparr>));
          url = current_capabilities_url env conf
      in case sx_builtins env url of
           Inl e \<Rightarrow> s
         | Inr bis \<Rightarrow>
             (let s = s\<lparr>sv_builtins := map_set (sv_builtins s) url bis, sv_store := put_builtins (sv_store s) bis\<rparr>;
                  s = fold (unload_ignored env) (map fst (get_all_files (sv_cache s))) s
              in fold (reload_unignored env) (get_all_ignored_files (sv_cache s)) s))"

text \<open>The two events of the configuration worker.\<close>

definition config_reload :: "('q, 'st, 'r, 'g, 'b, 'd) server_env \<Rightarrow> string \<Rightarrow> ('r, 'b, 'd) server
    \<Rightarrow> ('r, 'b, 'd) server" where
  "config_reload env path s =
     (case sx_from_path env path of
        Inl e \<Rightarrow> s
      | Inr userConfig \<Rightarrow>
          (case with_defaults_from_bundle (lx_merge (sx_lint env)) (lx_this_version (sx_lint env))
              (lx_provided (sx_lint env)) (Some userConfig) of
             Inl e \<Rightarrow> s
           | Inr merged \<Rightarrow> emit (LintJob ''config file changed'') (load_config env merged s)))"

definition default_config :: "('q, 'st, 'r, 'g, 'b, 'd) server_env \<Rightarrow> config" where
  "default_config env = (lx_provided (sx_lint env))\<lparr>cfg_capabilities := Some (lx_this_version (sx_lint env))\<rparr>"

definition config_drop :: "('q, 'st, 'r, 'g, 'b, 'd) server_env \<Rightarrow> ('r, 'b, 'd) server \<Rightarrow> ('r, 'b, 'd) server" where
  "config_drop env s = emit (LintJob ''config file dropped'') (s\<lparr>sv_config := default_config env\<rparr>)"

section \<open>The workspace\<close>

text \<open>\<open>loadWorkspace\<close>: the new state, or the error that leaves it as it was.\<close>

definition load_workspace :: "('q, 'st, 'r, 'g, 'b, 'd) server_env \<Rightarrow> string \<Rightarrow> client_id \<Rightarrow> client_options
    \<Rightarrow> ('r, 'b, 'd) server \<Rightarrow> (string + ('r, 'b, 'd) server) option" where
  "load_workspace env rootURI client opts s =
     (let normalized = trim_suffix rootURI ''/'' in
      case find_config_roots (server_fs env) (to_path normalized) of
        (roots, Some e) \<Rightarrow> Some (Inl ''failed to find config roots'')
      | (roots, None) \<Rightarrow>
          (let ws = (new_workspace (case roots of r # _ \<Rightarrow> from_path client r | [] \<Rightarrow> rootURI))\<lparr>ws_client := client\<rparr>
           in Option.bind (find_config (server_fs env) (workspace_path ws [])) (\<lambda>found.
             let configFilePath = (case found of Inr f \<Rightarrow> Some f | Inl e \<Rightarrow> sx_global_config env);
                 s = s\<lparr>sv_bundles := Some (new_bundle_cache (workspace_path ws [])), sv_workspace := ws, sv_options := opts\<rparr>;
                 s = (case configFilePath of Some f \<Rightarrow> emit (WatchConfig f) s | None \<Rightarrow> s)
             in case load_from_workspace (sx_input env) (sv_inputs s) (sv_store s) ws of
                  (im, st) \<Rightarrow> Some (Inr (s\<lparr>sv_inputs := im, sv_store := st\<rparr>)))))"

text \<open>The files of the workspace that the cache is loaded with, and one of them. The ten goroutines that
  load them work on disjoint keys; the model takes the files in the order of the walk.\<close>

definition workspace_files :: "('q, 'st, 'r, 'g, 'b, 'd) server_env \<Rightarrow> bool \<Rightarrow> ('r, 'b, 'd) server
    \<Rightarrow> string list \<times> unit walk_error option" where
  "workspace_files env newOnly s =
     walker_walk (server_fs env) (default_walker (workspace_path (sv_workspace s) []))
       (\<lambda>path found. let fileURI = workspace_uri (sv_workspace s) [path] in
          (if ignore_uri env s fileURI \<or> newOnly \<and> has_file_contents (sv_cache s) fileURI then found else found @ [path], None)) []"

definition load_file :: "('q, 'st, 'r, 'g, 'b, 'd) server_env \<Rightarrow> string \<Rightarrow> ('r, 'b, 'd) server \<times> string list
    \<Rightarrow> ('r, 'b, 'd) server \<times> string list" where
  "load_file env path = (\<lambda>(s, loaded).
     (let fileURI = workspace_uri (sv_workspace s) [path] in
      case update_for_uri_from_disk (server_read env) (sv_cache s) fileURI path of
        (c, Inr (True, _)) \<Rightarrow> (fst (parse_uri env (s\<lparr>sv_cache := c\<rparr>) fileURI), loaded @ [fileURI])
      | (c, _) \<Rightarrow> (s\<lparr>sv_cache := c\<rparr>, loaded)))"

definition load_workspace_contents :: "('q, 'st, 'r, 'g, 'b, 'd) server_env \<Rightarrow> bool \<Rightarrow> ('r, 'b, 'd) server
    \<Rightarrow> ('r, 'b, 'd) server \<times> string list option" where
  "load_workspace_contents env newOnly s =
     (if workspace_path (sv_workspace s) [] = '''' then (s, Some [])
      else case workspace_files env newOnly s of
        (paths, err) \<Rightarrow> (case fold (load_file env) paths (s, []) of
          (s, loaded) \<Rightarrow>
            if err \<noteq> None then (s, None)
            else (case bundle_cache_refresh (sx_bundles env) (sv_bundles s) of
              (bc, Inl e) \<Rightarrow> (s\<lparr>sv_bundles := bc\<rparr>, None)
            | (bc, Inr _) \<Rightarrow> (s\<lparr>sv_bundles := bc\<rparr>, Some loaded))))"

text \<open>The goroutine that \<open>initializedResultHandler\<close> starts.\<close>

definition initialized :: "('q, 'st, 'r, 'g, 'b, 'd) server_env \<Rightarrow> ('r, 'b, 'd) server \<Rightarrow> ('r, 'b, 'd) server" where
  "initialized env s =
     (case load_workspace_contents env True s of
        (s, loaded) \<Rightarrow> emit (LintJob ''Workspace Initialization'')
          (fold (reparse env) (case loaded of Some us \<Rightarrow> us | None \<Rightarrow> []) s))"

text \<open>One tick of the worker that follows changes on disk.\<close>

definition drop_missing :: "('q, 'st, 'r, 'g, 'b, 'd) server_env \<Rightarrow> string \<Rightarrow> ('r, 'b, 'd) server
    \<Rightarrow> ('r, 'b, 'd) server" where
  "drop_missing env fileURI s =
     (if server_fs env (to_path fileURI) = None then send_file_diagnostics fileURI (delete_file fileURI s) else s)"

definition workspace_state_tick :: "('q, 'st, 'r, 'g, 'b, 'd) server_env \<Rightarrow> ('r, 'b, 'd) server
    \<Rightarrow> ('r, 'b, 'd) server" where
  "workspace_state_tick env s =
     (let s = fold (drop_missing env) (map fst (get_all_files (sv_cache s))) s in
      if workspace_uri (sv_workspace s) [] = '''' then s
      else case load_workspace_contents env True s of
        (s, None) \<Rightarrow> s
      | (s, Some newURIs) \<Rightarrow>
          fold (\<lambda>u s. emit (LintJob ''internal/workspaceStateWorker/changedOrNewFile'') (reparse env u s)) newURIs s)"

section \<open>Handlers of notifications\<close>

datatype handler_error =
    UpdateFailed string
  | TemplateFailed template_error
  | RenameFailed edit_error
  | FormatterInput fp_error
  | FormatterRoots config_error
  | FormatterFailed fixer_error
  | FormatterResult fp_error
  | UnknownFormatter string

datatype response =
    EmptyResp
  | NullResp
  | EditsResp "text_edit list"
  | ReportResp "workspace_diagnostic_report list"

definition handle_did_open :: "('q, 'st, 'r, 'g, 'b, 'd) server_env \<Rightarrow> string \<Rightarrow> string \<Rightarrow> ('r, 'b, 'd) server
    \<Rightarrow> ('r, 'b, 'd) server option" where
  "handle_did_open env fileURI txt s =
     map_option (\<lambda>s.
         if ignore_uri env s fileURI then put_ignored fileURI txt s
         else emit (LintJob ''textDocument/didOpen'') (reparse env fileURI
           (if set_contains (sv_templating s) [fileURI] then s else put_contents fileURI txt s)))
       (if workspace_uri (sv_workspace s) [] = '''' then
          map_option (\<lambda>res. case res of Inl e \<Rightarrow> s | Inr s \<Rightarrow> s)
            (load_workspace env (workspace_uri (sv_workspace s) [fp_dir (to_path fileURI)])
              (ws_client (sv_workspace s)) (sv_options s) s)
        else Some s)"

definition handle_did_close :: "('q, 'st, 'r, 'g, 'b, 'd) server_env \<Rightarrow> string \<Rightarrow> ('r, 'b, 'd) server
    \<Rightarrow> ('r, 'b, 'd) server" where
  "handle_did_close env fileURI s = (if ignore_uri env s fileURI then delete_file fileURI s else s)"

definition maybe_ignored_contents :: "('q, 'st, 'r, 'g, 'b, 'd) server_env \<Rightarrow> ('r, 'b, 'd) server \<Rightarrow> string
    \<Rightarrow> string option" where
  "maybe_ignored_contents env s uri =
     (if ignore_uri env s uri then get_ignored_file_contents (sv_cache s) uri else get_file_contents (sv_cache s) uri)"

definition set_maybe_ignored_contents :: "('q, 'st, 'r, 'g, 'b, 'd) server_env \<Rightarrow> string \<Rightarrow> string
    \<Rightarrow> ('r, 'b, 'd) server \<Rightarrow> ('r, 'b, 'd) server \<times> bool" where
  "set_maybe_ignored_contents env uri contents s =
     (let ignored = ignore_uri env s uri
      in (if ignored then put_ignored uri contents s else put_contents uri contents s, ignored))"

text \<open>Only a change without a range is applied; the last one wins.\<close>

definition changed_contents :: "content_change list \<Rightarrow> string" where
  "changed_contents changes =
     foldl (\<lambda>contents ch. if ChangeRange ch = None then ChangeText ch else contents) '''' changes"

definition handle_did_change :: "('q, 'st, 'r, 'g, 'b, 'd) server_env \<Rightarrow> string \<Rightarrow> content_change list
    \<Rightarrow> ('r, 'b, 'd) server \<Rightarrow> ('r, 'b, 'd) server" where
  "handle_did_change env fileURI changes s =
     (if changes = [] then s
      else case set_maybe_ignored_contents env fileURI (changed_contents changes) s of
        (s, True) \<Rightarrow> s
      | (s, False) \<Rightarrow> emit (LintJob ''textDocument/didChange'') (reparse env fileURI s))"

definition handle_did_save :: "('q, 'st, 'r, 'g, 'b, 'd) server_env \<Rightarrow> string option \<Rightarrow> ('r, 'b, 'd) server
    \<Rightarrow> ('r, 'b, 'd) server" where
  "handle_did_save env txt s =
     (case txt of
        None \<Rightarrow> s
      | Some t \<Rightarrow>
          if \<not> str_contains t [CHR 0x0D, CHR 0x0A] then s
          else (case determine_enabled_rules (sx_lint env) (with_user_config (sv_config s) (new_linter (sx_loaded env))) of
              Inl e \<Rightarrow> s
            | Inr enabled \<Rightarrow>
                if list_ex (\<lambda>r. r = ''opa-fmt'' \<or> r = ''use-rego-v1'') enabled
                then emit (ShowMessage ''CRLF line ending detected. Please change editor setting to use LF for line endings.'') s
                else s))"

text \<open>\<open>handleWorkspaceDidCreateFiles\<close> looks at the first file only to decide whether they are ignored, and
  panics without one.\<close>

fun create_files :: "('q, 'st, 'r, 'g, 'b, 'd) server_env \<Rightarrow> string list \<Rightarrow> ('r, 'b, 'd) server
    \<Rightarrow> ('r, 'b, 'd) server \<times> handler_error option" where
  "create_files env [] s = (s, None)"
| "create_files env (fileURI # files) s =
     (case update_for_uri_from_disk (server_read env) (sv_cache s) fileURI (to_path fileURI) of
        (c, Inl e) \<Rightarrow> (s\<lparr>sv_cache := c\<rparr>, Some (UpdateFailed fileURI))
      | (c, Inr _) \<Rightarrow> create_files env files
          (emit (TemplateJob fileURI) (emit (LintJob ''textDocument/didCreate'')
            (reparse env fileURI (s\<lparr>sv_cache := c\<rparr>)))))"

definition handle_did_create_files :: "('q, 'st, 'r, 'g, 'b, 'd) server_env \<Rightarrow> string list \<Rightarrow> ('r, 'b, 'd) server
    \<Rightarrow> (('r, 'b, 'd) server \<times> handler_error option) option" where
  "handle_did_create_files env files s =
     (case files of
        [] \<Rightarrow> None
      | first # _ \<Rightarrow> Some (if ignore_uri env s first then (s, None) else create_files env files s))"

definition handle_did_delete_files :: "('q, 'st, 'r, 'g, 'b, 'd) server_env \<Rightarrow> string list \<Rightarrow> ('r, 'b, 'd) server
    \<Rightarrow> ('r, 'b, 'd) server" where
  "handle_did_delete_files env files s =
     fold (\<lambda>u s. if ignore_uri env s u then s else send_file_diagnostics u (delete_file u s)) files s"

fun handle_did_rename_files :: "('q, 'st, 'r, 'g, 'b, 'd) server_env \<Rightarrow> file_rename list \<Rightarrow> ('r, 'b, 'd) server
    \<Rightarrow> ('r, 'b, 'd) server \<times> handler_error option" where
  "handle_did_rename_files env [] s = (s, None)"
| "handle_did_rename_files env (op # ops) s =
     (let old = OldURI op; new = NewURI op in
      if ignore_uri env s old \<and> ignore_uri env s new then handle_did_rename_files env ops s
      else case (case get_file_contents (sv_cache s) old of
              Some content \<Rightarrow> if content = '''' then update_for_uri_from_disk (server_read env) (sv_cache s) new (to_path new)
                else (sv_cache s, Inr (False, content))
            | None \<Rightarrow> update_for_uri_from_disk (server_read env) (sv_cache s) new (to_path new)) of
        (c, Inl e) \<Rightarrow> (s\<lparr>sv_cache := c\<rparr>, Some (UpdateFailed new))
      | (c, Inr (_, content)) \<Rightarrow>
          let s = send_file_diagnostics old (delete_file old (s\<lparr>sv_cache := c\<rparr>))
          in if ignore_uri env s new then handle_did_rename_files env ops s
             else handle_did_rename_files env ops
               (emit (TemplateJob new) (emit (LintJob ''textDocument/didRename'')
                 (reparse env new (put_contents new content s)))))"

record watched_change =
  wc_uri :: string
  wc_type :: nat

definition has_config_suffix :: "string \<Rightarrow> bool" where
  "has_config_suffix path = has_any_suffix path [''.regal.yaml'', ''.regal/config.yaml'', ''.regal'' @ [CHR 0x5C] @ ''config.yaml'']"

text \<open>One change; the flag says whether to lint afterwards.\<close>

definition watched_change_step :: "('q, 'st, 'r, 'g, 'b, 'd) server_env \<Rightarrow> watched_change
    \<Rightarrow> ('r, 'b, 'd) server \<times> bool \<Rightarrow> (('r, 'b, 'd) server \<times> bool) option" where
  "watched_change_step env ch = (\<lambda>(s, changes).
     (let u = wc_uri ch in
      if u = '''' then Some (s, changes)
      else if ignore_uri env s u then
        (if has_input_suffix u then
           (if wc_type ch = 1 \<or> wc_type ch = 2 then
              (case input_update (sx_input env) (sv_inputs s) (sv_store s) u None of
                 (im, st, _) \<Rightarrow> Some (s\<lparr>sv_inputs := im, sv_store := st\<rparr>, changes))
            else if wc_type ch = 3 then
              (case input_delete (sv_inputs s) (sv_store s) u of
                 (im, st) \<Rightarrow> Some (s\<lparr>sv_inputs := im, sv_store := st\<rparr>, changes))
            else Some (s, changes))
         else if wc_type ch = 1 \<and> has_config_suffix u then
           map_option (\<lambda>found. (case found of Inr f \<Rightarrow> emit (WatchConfig f) s | Inl e \<Rightarrow> s, changes))
             (find_config (server_fs env) (workspace_path (sv_workspace s) []))
         else Some (s, changes))
      else if has_suffix u ''.rego'' then
        (case parse_uri env s u of
           (s, Inl e) \<Rightarrow> Some (s, changes)
         | (s, Inr parsed) \<Rightarrow>
             Some (if parsed \<and> co_testing (sv_options s) then emit (TestLocationJob u) s else s, True))
      else Some (s, changes)))"

fun watched_changes :: "('q, 'st, 'r, 'g, 'b, 'd) server_env \<Rightarrow> watched_change list
    \<Rightarrow> ('r, 'b, 'd) server \<times> bool \<Rightarrow> (('r, 'b, 'd) server \<times> bool) option" where
  "watched_changes env [] st = Some st"
| "watched_changes env (ch # chs) st = Option.bind (watched_change_step env ch st) (watched_changes env chs)"

definition handle_did_change_watched_files :: "('q, 'st, 'r, 'g, 'b, 'd) server_env \<Rightarrow> watched_change list
    \<Rightarrow> ('r, 'b, 'd) server \<Rightarrow> ('r, 'b, 'd) server option" where
  "handle_did_change_watched_files env changes s =
     map_option (\<lambda>(s, changed). if changed then emit (LintJob ''workspace/didChangeWatchedFiles'') s else s)
       (watched_changes env (remdups_adj changes) (s, False))"


section \<open>Requests\<close>

definition format_source :: "('q, 'st, 'r, 'g, 'b, 'd) server_env \<Rightarrow> (config \<Rightarrow> 'r rules_input \<Rightarrow> 'r linter_env)
    \<Rightarrow> ('r, 'b, 'd) server \<Rightarrow> string \<Rightarrow> string \<Rightarrow> (handler_error + string option) option" where
  "format_source env linter_of s fileURI oldContent =
     (let formatter = (if co_formatter (sv_options s) = '''' then ''opa-fmt'' else co_formatter (sv_options s));
          root = workspace_path (sv_workspace s) []; path = to_path fileURI in
      if formatter = ''opa-fmt'' \<or> formatter = ''opa-fmt-rego-v1'' then
        Some (case fmt_fix (fix_env.truncate (sx_fix env)) ''''
            \<lparr>cand_filename = fp_base path, cand_contents = oldContent, cand_rego_version = RegoUndefined\<rparr>
            (Some \<lparr>ro_config = None, ro_base_dir = root, ro_locations = [], ro_client = IdentifierGeneric\<rparr>) of
          Inl e \<Rightarrow> Inr None
        | Inr [] \<Rightarrow> Inr (Some oldContent)
        | Inr (fx # _) \<Rightarrow> Inr (Some (fr_contents fx)))
      else if formatter = ''regal-fix'' then
        (let memfp = new_mem [(fileURI, oldContent)] in
         case mem_to_input (lx_rules (sx_lint env)) memfp (sv_versions s) of
           Inl e \<Rightarrow> Some (Inl (FormatterInput e))
         | Inr input \<Rightarrow>
             Option.bind (get_potential_roots (server_fs env) (sx_load_conf env) (sx_abs env) [root, path]) (\<lambda>res. case res of
               Inl e \<Rightarrow> Some (Inl (FormatterRoots e))
             | Inr roots \<Rightarrow>
                 Option.bind (run_fixer (sx_fix env) (linter_of (sv_config s) input) (mem_ops (lx_rules (sx_lint env)))
                     (register_roots roots (register_fixes default_formatter_fixes new_fixer)) memfp)
                   (\<lambda>(memfp, res). Some (case res of
                      Inl e \<Rightarrow> Inl (FormatterFailed e)
                    | Inr rpt \<Rightarrow>
                        if total_fixes rpt = 0 then Inr (Some oldContent)
                        else (case mem_get memfp fileURI of
                            Inl e \<Rightarrow> Inl (FormatterResult e)
                          | Inr newContent \<Rightarrow> Inr (Some newContent))))))
      else Some (Inl (UnknownFormatter formatter)))"

text \<open>\<open>handleTextDocumentFormatting\<close>. Formatting without a change is an empty list of edits either way;
  \<open>linter_of\<close> is the linter that is built for the fixer.\<close>

definition handle_formatting :: "('q, 'st, 'r, 'g, 'b, 'd) server_env \<Rightarrow> (config \<Rightarrow> 'r rules_input \<Rightarrow> 'r linter_env)
    \<Rightarrow> string \<Rightarrow> ('r, 'b, 'd) server \<Rightarrow> (('r, 'b, 'd) server \<times> (handler_error + response)) option" where
  "handle_formatting env linter_of fileURI s =
     (let oldContent = (case maybe_ignored_contents env s fileURI of Some c \<Rightarrow> c | None \<Rightarrow> '''') in
      if oldContent = '''' then
        (if fp_dir (to_path fileURI) = workspace_path (sv_workspace s) [] then Some (s, Inr (EditsResp []))
         else Option.bind (template_contents_for_file env s fileURI) (\<lambda>res. case res of
           Inl e \<Rightarrow> Some (s, Inl (TemplateFailed e))
         | Inr newContent \<Rightarrow>
             let s = s\<lparr>sv_cache := clear_file_diagnostics (sv_cache s)\<rparr>;
                 s = emit (LintJob ''internal/templateFormattingFallback'')
                   (reparse env fileURI (put_contents fileURI newContent s))
             in map_option (\<lambda>edits. (s, Inr (EditsResp edits))) (compute_edits oldContent newContent)))
      else Option.bind (format_source env linter_of s fileURI oldContent) (\<lambda>res. case res of
        Inl e \<Rightarrow> Some (s, Inl e)
      | Inr None \<Rightarrow> Some (s, Inr NullResp)
      | Inr (Some newContent) \<Rightarrow>
          map_option (\<lambda>edits. (s, Inr (EditsResp edits)))
            (if newContent = oldContent then Some [] else compute_edits oldContent newContent)))"

definition handle_workspace_diagnostic :: "('r, 'b, 'd) server \<Rightarrow> response" where
  "handle_workspace_diagnostic s =
     (let rootURI = workspace_uri (sv_workspace s) [] in
      if rootURI = '''' then ReportResp []
      else ReportResp [\<lparr>ReportURI = rootURI, ReportVersion = None, ReportKind = ''full'',
        ReportItems = (case get_file_diagnostics (sv_cache s) rootURI of Some ds \<Rightarrow> ds | None \<Rightarrow> [])\<rparr>])"

section \<open>Workers\<close>

text \<open>\<open>processTemplateJob\<close>. The mark that the file is being templated is set and removed in one step.\<close>

definition process_template_job :: "('q, 'st, 'r, 'g, 'b, 'd) server_env \<Rightarrow> string \<Rightarrow> ('r, 'b, 'd) server
    \<Rightarrow> (('r, 'b, 'd) server \<times> handler_error option) option" where
  "process_template_job env fileURI s =
     (let done = (\<lambda>s. s\<lparr>sv_templating := set_remove (sv_templating s) [fileURI]\<rparr>);
          s = s\<lparr>sv_templating := set_add (sv_templating s) [fileURI]\<rparr> in
      if fp_dir (to_path fileURI) = workspace_path (sv_workspace s) [] then Some (done s, None)
      else Option.bind (template_contents_for_file env s fileURI) (\<lambda>res. case res of
        Inl e \<Rightarrow> Some (done s, Some (TemplateFailed e))
      | Inr newContents \<Rightarrow>
          let s = put_contents fileURI newContents s in
          Option.bind (fix_rename_changes env s fileURI) (\<lambda>(c, res).
            let s = s\<lparr>sv_cache := c\<rparr> in
            case res of
              Inl e \<Rightarrow> Some (done s, Some (RenameFailed e))
            | Inr renames \<Rightarrow>
                map_option (\<lambda>edits. (done (emit (LintJob ''internal/templateNewFile'')
                    (emit (ApplyEdit ''Template new Rego file'' (EditDoc fileURI edits # renames)) s)), None))
                  (compute_edits '''' newContents))))"

definition custom_rules_path :: "('q, 'st, 'r, 'g, 'b, 'd) server_env \<Rightarrow> ('r, 'b, 'd) server \<Rightarrow> string" where
  "custom_rules_path env s =
     (let ws = sv_workspace s; path = workspace_path ws [''.regal'', ''rules''] in
      if workspace_uri ws [] \<noteq> '''' \<and> is_dir (server_fs env) path then path else '''')"

text \<open>One run of the worker that lints the workspace.\<close>

definition lint_workspace :: "('q, 'st, 'r, 'g, 'b, 'd) server_env \<Rightarrow> ('r, 'b, 'd) server
    \<Rightarrow> ('r, 'b, 'd) server option" where
  "lint_workspace env s =
     map_option (\<lambda>(c, err). let s = s\<lparr>sv_cache := c\<rparr> in
         if err \<noteq> None then s else fold send_file_diagnostics (map fst (get_all_files c)) s)
       (update_workspace_diagnostics (sx_lint env) (sx_loaded env) (sx_schedule env)
         \<lparr>do_config = Some (sv_config s), do_root = workspace_uri (sv_workspace s) [],
          do_custom_rules = custom_rules_path env s\<rparr> (sv_cache s))"

text \<open>The command that renames a file, and the one that ends in an edit of the file.\<close>

definition rename_command :: "('q, 'st, 'r, 'g, 'b, 'd) server_env \<Rightarrow> string \<Rightarrow> ('r, 'b, 'd) server
    \<Rightarrow> ('r, 'b, 'd) server option" where
  "rename_command env fileURI s =
     map_option (\<lambda>(c, res). let s = s\<lparr>sv_cache := c\<rparr> in
         case res of
           Inl e \<Rightarrow> s
         | Inr changes \<Rightarrow> emit (ApplyEdit ''Rename file to match package path'' changes) s)
       (fix_rename_changes env s fileURI)"

definition fix_command :: "('q, 'st, 'r, 'g, 'b, 'd) server_env \<Rightarrow> string \<Rightarrow> fix_kind \<Rightarrow> command_args
    \<Rightarrow> ('r, 'b, 'd) server \<Rightarrow> ('r, 'b, 'd) server option" where
  "fix_command env label fx args s =
     map_option (\<lambda>res. case res of
         Inl e \<Rightarrow> emit (ShowMessage ''command failed'') s
       | Inr [] \<Rightarrow> s
       | Inr changes \<Rightarrow> emit (ApplyEdit label changes) s)
       (fix_edit_params env s fx args)"


end
