(* ===== verification/Fixer_Law.thy ===== *)
theory Fixer_Law
  imports Fixer_Proofs
begin

text \<open>
  Invariants of file providers: whatever \<open>Put\<close>, \<open>Delete\<close> and \<open>Rename\<close> keep is kept by a whole run of
  \<open>FixViolations\<close>, whether it succeeds or not.
\<close>

section \<open>What every file provider keeps, the fixer keeps\<close>

locale provider_law =
  fixes ops :: "('s, 'r) fp_ops" and keeps :: "'s \<Rightarrow> bool"
  assumes put_keeps: "keeps s \<Longrightarrow> keeps (fst (fo_put ops s f c))"
    and delete_keeps: "keeps s \<Longrightarrow> keeps (fst (fo_delete ops s f))"
    and rename_keeps: "keeps s \<Longrightarrow> keeps (fst (fo_rename ops s a b))"
begin

lemma rename_loop_keeps:
  assumes "rename_loop env ops operation a s b = Some (t, out)" "keeps s"
  shows "keeps t"
proof -
  let ?P = "\<lambda>env' ops' operation a s b y. ops' = ops \<longrightarrow> keeps s \<longrightarrow> keeps (fst y)"
  have "?P env ops operation a s b (t, out)"
  proof (rule rename_loop.raw_induct [where P = ?P, OF _ assms(1)], intro impI)
    fix loop env' and ops' :: "('s, 'r) fp_ops" and operation a s b y
    assume IH: "\<And>env' ops' operation a s b y. loop env' ops' operation a s b = Some y \<Longrightarrow>
        ?P env' ops' operation a s b y"
      and ops: "ops' = ops" and inv: "keeps s"
      and body: "(case fo_rename ops' s a b of
          (s, None) \<Rightarrow> Some (s, RenamedTo b)
        | (s, Some e) \<Rightarrow>
            if \<not> is_conflict e then Some (s, RenameFailed (ProviderError e))
            else if operation = on_conflict_error then Some (s, ConflictAt b)
            else if operation = on_conflict_rename then loop env' ops' operation a s (rename_candidate env' b)
            else Some (s, RenameFailed (UnsupportedConflictOperation operation))) = Some y"
    obtain s1 e where s1: "fo_rename ops s a b = (s1, e)" by (cases "fo_rename ops s a b")
    with rename_keeps [OF inv, of a b] have "keeps s1" by simp
    show "keeps (fst y)"
    proof (cases e)
      case None
      with body s1 ops \<open>keeps s1\<close> show ?thesis by auto
    next
      case (Some e')
      show ?thesis
      proof (cases "is_conflict e' \<and> operation \<noteq> on_conflict_error \<and> operation = on_conflict_rename")
        case True
        with body s1 ops Some have "loop env' ops' operation a s1 (rename_candidate env' b) = Some y" by (auto split: if_splits)
        from IH [OF this] ops \<open>keeps s1\<close> show ?thesis by blast
      next
        case False
        with body s1 ops Some \<open>keeps s1\<close> show ?thesis by (auto split: if_splits)
      qed
    qed
  qed
  with assms(2) show ?thesis by simp
qed

lemma handle_rename_keeps:
  assumes "handle_rename env ops f start rn fx s r = Some (t, r', out)" "keeps s"
  shows "keeps t"
proof -
  obtain u o1 where l: "rename_loop env ops (onConflictOperation f) (rn_from rn) s (rn_to rn) = Some (u, o1)"
    using assms(1) by (auto simp: handle_rename_def bind_eq_Some_conv)
  have "keeps u" by (rule rename_loop_keeps [OF l assms(2)])
  with delete_keeps [OF this, of "rn_from rn"] assms(1) l show ?thesis
    by (cases o1) (auto simp: handle_rename_def Let_def split: prod.splits option.splits)
qed

lemma fix_violations_loop_keeps:
  "fix_violations_loop env ops f conf start vs s r = Some (t, out) \<Longrightarrow> keeps s \<Longrightarrow> keeps t"
proof (induction vs arbitrary: s r)
  case (Cons v vs)
  show ?case
  proof (cases "get_fix_for_name f (v_title v)")
    case (Some k)
    let ?file = "l_file (v_location v)"
    show ?thesis
    proof (cases "fo_get ops s ?file")
      case (Inr fc)
      show ?thesis
      proof (cases "fx_abs env ?file")
        case (Inr absol)
        note step = Cons.prems(1) [unfolded fix_violations_loop.simps Some Let_def option.case \<open>fo_get ops s ?file = Inr fc\<close>
            Inr sum.case, unfolded bind_eq_Some_conv]
        then obtain res where res: "(case res of Inl e \<Rightarrow> Some (s, Inl (FixFailed e))
             | Inr [] \<Rightarrow> fix_violations_loop env ops f conf start vs s r
             | Inr (fx # _) \<Rightarrow>
                 Option.bind (case fr_rename fx of None \<Rightarrow> Some (s, r, Inr fx)
                    | Some rn \<Rightarrow> handle_rename env ops f start rn fx s r)
                   (\<lambda>(s, r, out). case out of
                      Inl e \<Rightarrow> Some (s, Inl e)
                    | Inr fx \<Rightarrow>
                        (case fo_put ops s ?file (fr_contents fx) of
                           (s, Some e) \<Rightarrow> Some (s, Inl (ProviderError e))
                         | (s, None) \<Rightarrow> fix_violations_loop env ops f conf start vs s
                             (add_file_fix r ?file fx)))) = Some (t, out)"
          by blast
        show ?thesis
        proof (cases res)
          case (Inr fxs)
          show ?thesis
          proof (cases fxs)
            case Nil
            with res Inr Cons show ?thesis by simp
          next
            case (Cons fx fxs')
            with res Inr obtain s1 r1 o1 where s1: "(case fr_rename fx of None \<Rightarrow> Some (s, r, Inr fx)
                | Some rn \<Rightarrow> handle_rename env ops f start rn fx s r) = Some (s1, r1, o1)"
              and rest: "(case o1 of Inl e \<Rightarrow> Some (s1, Inl e)
                | Inr fx \<Rightarrow> (case fo_put ops s1 ?file (fr_contents fx) of
                     (s, Some e) \<Rightarrow> Some (s, Inl (ProviderError e))
                   | (s, None) \<Rightarrow> fix_violations_loop env ops f conf start vs s (add_file_fix r1 ?file fx))) = Some (t, out)"
              by (auto simp: bind_eq_Some_conv)
            have k1: "keeps s1"
              using s1 Cons.prems(2) handle_rename_keeps by (auto split: option.splits)
            show ?thesis
            proof (cases o1)
              case (Inr fx')
              obtain s2 e where s2: "fo_put ops s1 ?file (fr_contents fx') = (s2, e)"
                by (cases "fo_put ops s1 ?file (fr_contents fx')")
              with put_keeps [OF k1, of ?file "fr_contents fx'"] have "keeps s2" by simp
              with rest Inr s2 Cons.IH show ?thesis by (auto split: option.splits)
            qed (use rest k1 in auto)
          qed
        qed (use res \<open>keeps s\<close> in auto)
      qed (use Cons.prems Some Inr in \<open>auto simp: Let_def\<close>)
    qed (use Cons.prems Some in \<open>auto simp: Let_def\<close>)
  qed (use Cons.prems in auto)
qed auto

lemma fix_violations_keeps:
  "fix_violations env ops f vs conf s = Some (t, out) \<Longrightarrow> keeps s \<Longrightarrow> keeps t"
  by (auto simp: fix_violations_def fix_violations_loop_keeps split: sum.splits)

lemma one_fix_violations_keeps:
  "one_fix_violations env le ops f start fi vs s r = Some (t, r', out) \<Longrightarrow> keeps s \<Longrightarrow> keeps t"
proof (induction vs arbitrary: s r)
  case (Cons v vs)
  let ?file = "l_file (v_location v)"
  show ?case
  proof (cases "v_title v = fix_name fi")
    case True
    show ?thesis
    proof (cases "le_config le")
      case conf: (Inr conf)
      show ?thesis
      proof (cases "fx_abs env ?file")
        case absol: (Inr absol)
        show ?thesis
        proof (cases "fo_get ops s ?file")
          case fc: (Inr fc)
          with Cons.prems True conf absol obtain res where
            rest: "(case res of
               Inl e \<Rightarrow> Some (s, r, Inl (FixFailed e))
             | Inr [] \<Rightarrow> one_fix_violations env le ops f start fi vs s r
             | Inr (fx # _) \<Rightarrow>
                 (case fr_rename fx of
                    Some rn \<Rightarrow> map_option (\<lambda>(s, r, out). (s, r, case out of Inl e \<Rightarrow> Inl e | Inr fx \<Rightarrow> Inr True))
                      (handle_rename env ops f start rn fx s r)
                  | None \<Rightarrow> (case fo_put ops s ?file (fr_contents fx) of
                         (s, Some e) \<Rightarrow> Some (s, r, Inl (ProviderError e))
                       | (s, None) \<Rightarrow> Some (s, add_file_fix r ?file fx, Inr True)))) = Some (t, r', out)"
            by (auto simp: Let_def bind_eq_Some_conv)
          show ?thesis
          proof (cases res)
            case res: (Inr fxs)
            show ?thesis
            proof (cases fxs)
              case Nil
              with rest res Cons show ?thesis by simp
            next
              case (Cons fx fxs')
              with rest res \<open>keeps s\<close> put_keeps [OF \<open>keeps s\<close>, of ?file "fr_contents fx"] show ?thesis
                by (auto intro: handle_rename_keeps split: option.splits prod.splits)
            qed
          qed (use rest Cons.prems in auto)
        qed (use Cons.prems True conf absol in \<open>auto simp: Let_def\<close>)
      qed (use Cons.prems True conf in \<open>auto simp: Let_def\<close>)
    qed (use Cons.prems True in auto)
  qed (use Cons in auto)
qed auto

lemma apply_one_fix_keeps:
  "apply_one_fix env le ops f start vs fs s r = Some (t, r', out) \<Longrightarrow> keeps s \<Longrightarrow> keeps t"
proof (induction fs arbitrary: s r)
  case (Cons fi fs)
  then obtain s1 r1 o1 where s1: "one_fix_violations env le ops f start fi vs s r = Some (s1, r1, o1)"
    and rest: "(case o1 of Inr False \<Rightarrow> apply_one_fix env le ops f start vs fs s1 r1 | _ \<Rightarrow> Some (s1, r1, o1)) = Some (t, r', out)"
    by (auto simp: bind_eq_Some_conv)
  from one_fix_violations_keeps [OF s1 Cons.prems(2)] have k: "keeps s1" .
  show ?case
  proof (cases o1)
    case (Inr made)
    with rest k Cons.IH show ?thesis by (cases made) auto
  qed (use rest k in auto)
qed auto

lemma fix_loop_keeps:
  assumes "fix_loop env le ops f rls start s r = Some (t, r', e)" "keeps s"
  shows "keeps t"
proof -
  let ?P = "\<lambda>env' le' ops' f' rls' start' s r y. ops' = ops \<longrightarrow> keeps s \<longrightarrow> keeps (fst y)"
  have "?P env le ops f rls start s r (t, r', e)"
  proof (rule fix_loop.raw_induct [where P = ?P, OF _ assms(1)], intro impI)
    fix loop env' le' and ops' :: "('s, 'r) fp_ops" and f' rls' start' s r y
    assume IH: "\<And>env' le' ops' f' rls' start' s r y. loop env' le' ops' f' rls' start' s r = Some y \<Longrightarrow>
        ?P env' le' ops' f' rls' start' s r y"
      and ops: "ops' = ops" and inv: "keeps s"
      and body: "(case fo_to_input ops' s (case versionsMap f' of None \<Rightarrow> [] | Some m \<Rightarrow> m) of
        Inl e \<Rightarrow> Some (s, r, Some (ProviderError e))
      | Inr input \<Rightarrow> (case le_lint le' rls' input of
            Inl e \<Rightarrow> Some (s, r, Some (LinterError e))
          | Inr violations \<Rightarrow>
              if violations = [] then Some (s, r, None)
              else Option.bind (apply_one_fix env' le' ops' f' start' violations (registeredFixes f') s r)
                (\<lambda>(s, r, out). case out of
                   Inl e \<Rightarrow> Some (s, r, Some e)
                 | Inr fixMade \<Rightarrow>
                     if \<not> fixMade then Some (s, r, None)
                     else loop env' le' ops' f' rls' start' s r))) = Some y"
    show "keeps (fst y)"
    proof (cases "\<exists>input vs. fo_to_input ops' s (case versionsMap f' of None \<Rightarrow> [] | Some m \<Rightarrow> m) = Inr input
        \<and> le_lint le' rls' input = Inr vs \<and> vs \<noteq> []")
      case False
      with body inv show ?thesis by (auto split: sum.splits if_splits)
    next
      case True
      then obtain input vs where "fo_to_input ops' s (case versionsMap f' of None \<Rightarrow> [] | Some m \<Rightarrow> m) = Inr input"
        "le_lint le' rls' input = Inr vs" "vs \<noteq> []" by blast
      with body obtain s1 r1 out where s1: "apply_one_fix env' le' ops' f' start' vs (registeredFixes f') s r = Some (s1, r1, out)"
        and rest: "(case out of Inl e \<Rightarrow> Some (s1, r1, Some e)
           | Inr fixMade \<Rightarrow> if \<not> fixMade then Some (s1, r1, None) else loop env' le' ops' f' rls' start' s1 r1) = Some y"
        by (auto simp: bind_eq_Some_conv)
      from apply_one_fix_keeps s1 ops inv have k: "keeps s1" by blast
      with rest IH ops show ?thesis by (auto split: sum.splits if_splits)
    qed
  qed
  with assms(2) show ?thesis by simp
qed

lemma run_fixer_keeps:
  "run_fixer env le ops f s = Some (t, out) \<Longrightarrow> keeps s \<Longrightarrow> keeps t"
  by (auto simp: run_fixer_def apply_linter_fixes_def Let_def fix_loop_keeps split: if_splits sum.splits option.splits)

end

text \<open>The contract of a file provider is such an invariant.\<close>

sublocale file_provider < law: provider_law ops inv
proof
  fix s f c a b
  assume s: "inv s"
  show "inv (fst (fo_put ops s f c))" using put_law [OF s, of f c] by auto
  show "inv (fst (fo_delete ops s f))" using delete_law [OF s, of f] by auto
  show "inv (fst (fo_rename ops s a b))"
  proof (cases "view s a")
    case None
    with rename_missing [OF s] s show ?thesis by (metis fst_conv)
  next
    case (Some v)
    then show ?thesis
      using rename_moves [OF s Some, of b] rename_conflict [OF s, of a b] s by (cases "view s b") auto
  qed
qed

end
