(* ===== verification/Lsp_Run.thy ===== *)
theory Lsp_Run
  imports Lsp_Server Fixer_Law
begin

text \<open>
  Runs of the language server: the step relation of its handlers and workers, and what holds in every state
  that a run reaches.
\<close>

section \<open>Steps and runs\<close>

definition is_rego :: "string \<Rightarrow> bool" where
  "is_rego u \<longleftrightarrow> has_suffix u ''.rego''"

text \<open>What the disk and the outside look like may differ from step to step, so every step has an
  environment of its own. A client asks to format Rego documents only, which is what it registers for, and to run
  tests of them.\<close>

inductive server_step :: "('q, 'st, 'r, 'g, 'b, 'd) server_env \<Rightarrow> ('r, 'b, 'd) server \<Rightarrow> ('r, 'b, 'd) server \<Rightarrow> bool"
  for env where
  step_initialize: "load_workspace env root client opts s = Some (Inr s') \<Longrightarrow> server_step env s s'"
| step_initialized: "server_step env s (initialized env s)"
| step_open: "handle_did_open env u txt s = Some s' \<Longrightarrow> server_step env s s'"
| step_close: "server_step env s (handle_did_close env u s)"
| step_change: "server_step env s (handle_did_change env u changes s)"
| step_save: "server_step env s (handle_did_save env saved s)"
| step_create: "handle_did_create_files env us s = Some (s', err) \<Longrightarrow> server_step env s s'"
| step_delete: "server_step env s (handle_did_delete_files env us s)"
| step_rename: "handle_did_rename_files env renames s = (s', err) \<Longrightarrow> server_step env s s'"
| step_watched: "handle_did_change_watched_files env chs s = Some s' \<Longrightarrow> server_step env s s'"
| step_format: "is_rego u \<Longrightarrow> handle_formatting env linter_of u s = Some (s', res) \<Longrightarrow> server_step env s s'"
| step_template: "process_template_job env u s = Some (s', err) \<Longrightarrow> server_step env s s'"
| step_rename_command: "rename_command env u s = Some s' \<Longrightarrow> server_step env s s'"
| step_fix_command: "fix_command env label fx args s = Some s' \<Longrightarrow> server_step env s s'"
| step_lint: "lint_workspace env s = Some s' \<Longrightarrow> server_step env s s'"
| step_tick: "server_step env s (workspace_state_tick env s)"
| step_reload: "server_step env s (config_reload env path s)"
| step_drop: "server_step env s (config_drop env s)"
| step_parse: "is_rego u \<Longrightarrow> server_step env s (fst (parse_uri env s u))"
| step_message: "server_step env s (emit (ShowMessage msg) s)"

inductive server_run :: "(('q, 'st, 'r, 'g, 'b, 'd) server_env \<Rightarrow> bool) \<Rightarrow> ('r, 'b, 'd) server \<Rightarrow> ('r, 'b, 'd) server \<Rightarrow> bool"
  for E where
  run_refl: "server_run E s s"
| run_step: "server_run E s t \<Longrightarrow> E env \<Longrightarrow> server_step env t u \<Longrightarrow> server_run E s u"

text \<open>\<open>NewLanguageServer\<close>: nothing is known but the configuration.\<close>

definition new_server :: "('q, 'st, 'r, 'g, 'b, 'd) server_env \<Rightarrow> config \<Rightarrow> ('r, 'b, 'd) server" where
  "new_server env merged = load_config env merged
     \<lparr>sv_cache = new_lsp_cache, sv_store = new_regal_store, sv_bundles = None, sv_config = merged, sv_versions = [],
      sv_builtins = [], sv_inputs = new_manager, sv_templating = new_set [],
      sv_workspace = \<lparr>ws_uri = '''', ws_path = '''', ws_client = IdentifierGeneric\<rparr>,
      sv_options = \<lparr>co_formatter = '''', co_testing = False\<rparr>, sv_out = []\<rparr>"

section \<open>The files of the workspace\<close>

definition disk_files :: "('q, 'st, 'r, 'g, 'b, 'd) server_env \<Rightarrow> string \<Rightarrow> string list" where
  "disk_files env root = (case server_fs env root of None \<Rightarrow> []
     | Some node \<Rightarrow> map fst (tree_files root (fp_base root) node))"

lemma workspace_files_eq:
  "workspace_files env newOnly s =
    (let root = workspace_path (sv_workspace s) [] in
     (filter (\<lambda>p. let u = workspace_uri (sv_workspace s) [p] in
          \<not> (ignore_uri env s u \<or> newOnly \<and> has_file_contents (sv_cache s) u))
        (if root = '''' then [] else disk_files env root),
      if root = '''' then Some RootEmpty else if server_fs env root = None then Some (WalkFailed root) else None))"
proof -
  let ?root = "workspace_path (sv_workspace s) []"
  let ?Q = "\<lambda>p. let u = workspace_uri (sv_workspace s) [p] in ignore_uri env s u \<or> newOnly \<and> has_file_contents (sv_cache s) u"
  let ?f = "\<lambda>path found. let fileURI = workspace_uri (sv_workspace s) [path] in
      (if ignore_uri env s fileURI \<or> newOnly \<and> has_file_contents (sv_cache s) fileURI then found else found @ [path],
       None :: unit option)"
  let ?fw = "default_walker ?root"
  have fw: "w_filters ?fw = directories # []" "w_skip_func ?fw = Some default_skip_directories" "w_root ?fw = ?root"
    "\<not> w_stat_root ?fw"
    by (simp_all add: with_filters_def default_walker_def with_skip_func_def new_walker_def)
  have f: "?f p acc = (if ?Q p then acc else acc @ [p], None)" for p acc by (simp add: Let_def)
  show ?thesis
    using default_walk_fold(1) [where f = ?f and g = "\<lambda>p acc. if ?Q p then acc else acc @ [p]", OF fw(1,2) f,
        of ?root "fp_base ?root" "the (server_fs env ?root)" "[]"] fw(3,4)
      foldl_append_filter [where Q = ?Q and s = "[]" and xs = "tree_files ?root (fp_base ?root) (the (server_fs env ?root))"]
    by (auto simp: workspace_files_def walker_walk_def walker_validate_def disk_files_def case_prod_unfold Let_def
        split: option.splits)
qed

lemma workspace_files_wanted:
  "p \<in> set (fst (workspace_files env newOnly s)) \<Longrightarrow>
     \<not> ignore_uri env s (workspace_uri (sv_workspace s) [p])
     \<and> (newOnly \<longrightarrow> \<not> has_file_contents (sv_cache s) (workspace_uri (sv_workspace s) [p]))"
  by (auto simp: workspace_files_eq Let_def)

lemma parse_uri_keeps [simp]: "sv_workspace (fst (parse_uri env s u)) = sv_workspace s"
  by (auto simp: parse_uri_def split: prod.splits)

lemma bind_sum_eq_Some:
  "Option.bind x (\<lambda>r. case r of Inl e \<Rightarrow> f e | Inr v \<Rightarrow> g v) = Some z \<longleftrightarrow>
    (\<exists>e. x = Some (Inl e) \<and> f e = Some z) \<or> (\<exists>v. x = Some (Inr v) \<and> g v = Some z)"
  by (cases x) (auto split: sum.splits)

lemma load_workspace_cache:
  "load_workspace env root client opts s = Some (Inr s') \<Longrightarrow> sv_cache s' = sv_cache s"
  by (cases "find_config_roots (server_fs env) (to_path (trim_suffix root ''/''))")
    (auto simp: load_workspace_def Let_def bind_eq_Some_conv emit_def case_prod_unfold split: option.splits)

section \<open>What every step keeps of the cache\<close>

text \<open>\<open>P\<close> holds of the cache, \<open>allowed\<close> are the URIs that may be parsed: Rego documents, and what can be
  read from disk in the environments of \<open>E\<close>.\<close>

locale server_cache_law =
  fixes P :: "'r rego_module lsp_cache \<Rightarrow> bool" and allowed :: "string \<Rightarrow> bool"
    and E :: "('q, 'st, 'r, 'g, 'b, 'd) server_env \<Rightarrow> bool"
  assumes keeps_put: "P c \<Longrightarrow> P (set_file_contents c u t)"
    and keeps_ignored: "P c \<Longrightarrow> P (set_ignored_file_contents c u t)"
    and keeps_clear_ignored: "P c \<Longrightarrow> P (clear_ignored_file_contents c u)"
    and keeps_delete: "P c \<Longrightarrow> P (cache_delete c u)"
    and keeps_clear: "P c \<Longrightarrow> P (clear_file_diagnostics c)"
    and keeps_diagnostics: "P c \<Longrightarrow> get_module c u \<noteq> None \<Longrightarrow> P (set_file_diagnostics c u ds)"
    and keeps_parse: "P c \<Longrightarrow> allowed u \<Longrightarrow> get_file_contents c u \<noteq> None \<Longrightarrow>
      update_parse px ws v u c (st :: 'b regal_store) = (c', st', res) \<Longrightarrow> P c'"
    and allowed_rego: "is_rego u \<Longrightarrow> allowed u"
    and allowed_read: "E env \<Longrightarrow> server_read env (to_path u) = Inr t \<Longrightarrow> allowed u"
    and sorted_keys: "E env \<Longrightarrow> set (keys_sorted (lx_rules (sx_lint env)) ks) = set ks"
begin

abbreviation kept :: "('r, 'b, 'd) server \<Rightarrow> bool" where
  "kept s \<equiv> P (sv_cache s)"

lemma kept_simple [simp, intro]:
  "kept s \<Longrightarrow> kept (emit out s)"
  "kept s \<Longrightarrow> kept (delete_file u s)"
  "kept s \<Longrightarrow> kept (put_contents u txt s)"
  "kept s \<Longrightarrow> kept (put_ignored u txt s)"
  "kept s \<Longrightarrow> kept (send_file_diagnostics u s)"
  by (simp_all add: emit_def delete_file_def put_contents_def put_ignored_def send_file_diagnostics_def Let_def
      keeps_put keeps_ignored keeps_delete)

lemma kept_fold: "(\<And>x s. x \<in> set xs \<Longrightarrow> kept s \<Longrightarrow> kept (f x s)) \<Longrightarrow> kept s \<Longrightarrow> kept (fold f xs s)"
  by (induction xs arbitrary: s) auto

lemma kept_disk:
  "update_for_uri_from_disk rd c u p = (c', res) \<Longrightarrow> P c \<Longrightarrow> P c'"
  by (auto simp: update_for_uri_from_disk_def keeps_put split: sum.splits option.splits if_splits)

lemma kept_parse: "allowed u \<Longrightarrow> kept s \<Longrightarrow> kept (fst (parse_uri env s u))"
proof -
  assume a: "allowed u" "kept s"
  obtain c st res where r: "update_parse (sx_parse env) (sv_workspace s) (rego_version_for_uri s u) u (sv_cache s) (sv_store s)
      = (c, st, res)" by (metis prod_cases3)
  have "P c"
  proof (cases "get_file_contents (sv_cache s) u")
    case None
    with r a show ?thesis by (auto simp: update_parse_def)
  qed (use keeps_parse [OF a(2,1) _ r] in simp)
  then show ?thesis by (simp add: parse_uri_def r)
qed

lemma kept_reparse: "allowed u \<Longrightarrow> kept s \<Longrightarrow> kept (reparse env u s)"
  using kept_parse [of u s env] by (auto simp: reparse_def split: prod.splits sum.splits bool.splits)

lemma not_ignored_allowed: "\<not> ignore_uri env s u \<Longrightarrow> allowed u"
  by (auto simp: ignore_uri_def is_rego_def intro: allowed_rego split: if_splits)

sublocale cp: provider_law "cp_ops renv" "\<lambda>c. P (cp_cache c)" for renv
  by unfold_locales (auto simp: cp_ops_def cp_put_def cp_delete_def cp_rename_def Let_def keeps_put keeps_delete
      split: option.splits)

section \<open>The handlers\<close>

lemma kept_load_config:
  assumes "kept s"
  shows "kept (load_config env conf s)"
proof -
  have un: "kept (unload_ignored env k s)" if "kept s" for k s
    using that by (auto simp: unload_ignored_def Let_def split: option.splits)
  have re: "kept (reload_unignored env kv s)" if "kept s" for kv s
    using that
    by (auto simp: reload_unignored_def Let_def split: prod.splits
      intro!: keeps_clear_ignored kept_parse kept_simple dest: not_ignored_allowed)
  show ?thesis
    using assms by (auto simp: load_config_def Let_def intro!: kept_fold un re split: sum.splits)
qed

lemma kept_config_reload: "kept s \<Longrightarrow> kept (config_reload env path s)"
  by (auto simp: config_reload_def intro: kept_load_config split: sum.splits)

lemma kept_config_drop: "kept s \<Longrightarrow> kept (config_drop env s)"
  by (simp add: config_drop_def)

lemma kept_load_workspace: "load_workspace env root client opts s = Some (Inr s') \<Longrightarrow> kept s \<Longrightarrow> kept s'"
  using load_workspace_cache [of env root client opts s s'] by simp

lemma kept_load_files:
  assumes "\<forall>p\<in>set paths. allowed (workspace_uri (sv_workspace s) [p])" "kept s" "\<forall>u\<in>set l. allowed u"
    and "fold (load_file env) paths (s, l) = (t, l')"
  shows "kept t \<and> sv_workspace t = sv_workspace s \<and> (\<forall>u\<in>set l'. allowed u)"
  using assms
proof (induction paths arbitrary: s l)
  case (Cons p ps)
  let ?u = "workspace_uri (sv_workspace s) [p]"
  obtain c res where c: "update_for_uri_from_disk (server_read env) (sv_cache s) ?u p = (c, res)" by fastforce
  have k: "kept (s\<lparr>sv_cache := c\<rparr>)" using kept_disk [OF c] Cons.prems(2) by simp
  have u: "allowed ?u" using Cons.prems(1) by simp
  obtain s1 l1 where s1: "load_file env p (s, l) = (s1, l1)" by fastforce
  with c u k kept_parse [OF u k] have "kept s1 \<and> sv_workspace s1 = sv_workspace s \<and> (\<forall>u\<in>set l1. allowed u)"
    using Cons.prems(3) by (auto simp: load_file_def Let_def split: sum.splits bool.splits prod.splits)
  with Cons.IH [of s1 l1] Cons.prems s1 show ?case by simp
qed auto

lemma kept_load_workspace_contents:
  assumes "load_workspace_contents env newOnly s = (t, loaded)" "kept s"
  shows "kept t \<and> (\<forall>us. loaded = Some us \<longrightarrow> (\<forall>u\<in>set us. allowed u))"
proof (cases "workspace_path (sv_workspace s) [] = ''''")
  case False
  obtain paths err where p: "workspace_files env newOnly s = (paths, err)" by fastforce
  obtain t1 l1 where t1: "fold (load_file env) paths (s, []) = (t1, l1)" by fastforce
  have "\<forall>p\<in>set paths. allowed (workspace_uri (sv_workspace s) [p])"
    using workspace_files_wanted [of _ env newOnly s] not_ignored_allowed p by (metis fst_conv)
  from kept_load_files [OF this assms(2) _ t1] have "kept t1 \<and> (\<forall>u\<in>set l1. allowed u)" by simp
  with assms(1) False p t1 show ?thesis
    by (auto simp: load_workspace_contents_def split: if_splits prod.splits sum.splits)
qed (use assms in \<open>auto simp: load_workspace_contents_def\<close>)

lemma kept_initialized: "kept s \<Longrightarrow> kept (initialized env s)"
proof -
  assume "kept s"
  obtain t loaded where l: "load_workspace_contents env True s = (t, loaded)" by fastforce
  from kept_load_workspace_contents [OF l \<open>kept s\<close>] show ?thesis
    unfolding initialized_def l
    by (auto intro!: kept_simple kept_fold kept_reparse split: option.splits)
qed

lemma kept_tick: "kept s \<Longrightarrow> kept (workspace_state_tick env s)"
proof -
  assume s: "kept s"
  let ?s = "fold (drop_missing env) (map fst (get_all_files (sv_cache s))) s"
  have k: "kept ?s" using s by (auto intro!: kept_fold simp: drop_missing_def)
  obtain t loaded where l: "load_workspace_contents env True ?s = (t, loaded)" by fastforce
  from kept_load_workspace_contents [OF l k] k show ?thesis
    unfolding workspace_state_tick_def l Let_def
    by (auto intro!: kept_simple kept_fold kept_reparse split: option.splits)
qed

lemma kept_did_open:
  assumes "handle_did_open env u txt s = Some s'" "kept s"
  shows "kept s'"
proof -
  obtain s1 where s1: "(if workspace_uri (sv_workspace s) [] = '''' then
        map_option (\<lambda>res. case res of Inl e \<Rightarrow> s | Inr s \<Rightarrow> s)
          (load_workspace env (workspace_uri (sv_workspace s) [fp_dir (to_path u)])
            (ws_client (sv_workspace s)) (sv_options s) s)
      else Some s) = Some s1"
    and s': "s' = (if ignore_uri env s1 u then put_ignored u txt s1
         else emit (LintJob ''textDocument/didOpen'') (reparse env u
           (if set_contains (sv_templating s1) [u] then s1 else put_contents u txt s1)))"
    using assms(1) unfolding handle_did_open_def map_option_eq_Some by blast
  have "kept s1"
  proof (cases "workspace_uri (sv_workspace s) [] = ''''")
    case True
    with s1 obtain res where res: "load_workspace env (workspace_uri (sv_workspace s) [fp_dir (to_path u)])
        (ws_client (sv_workspace s)) (sv_options s) s = Some res" "s1 = (case res of Inl e \<Rightarrow> s | Inr s \<Rightarrow> s)" by auto
    then show ?thesis using kept_load_workspace [OF _ assms(2)] assms(2) by (cases res) simp_all
  qed (use s1 assms(2) in simp)
  then show ?thesis
    unfolding s' using not_ignored_allowed [of env s1 u] kept_reparse [of u _ env]
    by simp
qed

lemma kept_did_close: "kept s \<Longrightarrow> kept (handle_did_close env u s)"
  by (simp add: handle_did_close_def)

lemma kept_did_change: "kept s \<Longrightarrow> kept (handle_did_change env u changes s)"
  by (auto simp: handle_did_change_def set_maybe_ignored_contents_def Let_def intro!: kept_simple kept_reparse
      dest: not_ignored_allowed)

lemma kept_did_save: "kept s \<Longrightarrow> kept (handle_did_save env txt s)"
  by (auto simp: handle_did_save_def split: option.splits sum.splits)

lemma kept_create_files:
  "E env \<Longrightarrow> create_files env us s = (s', err) \<Longrightarrow> kept s \<Longrightarrow> kept s'"
proof (induction us arbitrary: s)
  case (Cons u us)
  obtain c res where c: "update_for_uri_from_disk (server_read env) (sv_cache s) u (to_path u) = (c, res)" by fastforce
  have k: "P c" by (rule kept_disk [OF c Cons.prems(3)])
  show ?case
  proof (cases res)
    case (Inl e)
    with Cons.prems(2) c k show ?thesis by (auto simp: prod_eq_iff)
  next
    case (Inr r)
    with c have "allowed u"
      using allowed_read [OF Cons.prems(1)] by (auto simp: update_for_uri_from_disk_def split: sum.splits)
    with k have "kept (reparse env u (s\<lparr>sv_cache := c\<rparr>))" by (simp add: kept_reparse)
    with Cons.IH [OF Cons.prems(1)] Cons.prems(2) c Inr show ?thesis by simp
  qed
qed simp

lemma kept_did_create:
  "E env \<Longrightarrow> handle_did_create_files env us s = Some (s', err) \<Longrightarrow> kept s \<Longrightarrow> kept s'"
  using kept_create_files [of env us s s' err]
  by (cases us) (simp_all add: handle_did_create_files_def split: if_splits del: create_files.simps)

lemma kept_did_delete: "kept s \<Longrightarrow> kept (handle_did_delete_files env us s)"
  by (auto simp: handle_did_delete_files_def intro!: kept_fold)

lemma kept_did_rename:
  "handle_did_rename_files env ops s = (s', err) \<Longrightarrow> kept s \<Longrightarrow> kept s'"
proof (induction ops arbitrary: s)
  case (Cons op ops)
  show ?case
  proof (cases "ignore_uri env s (OldURI op) \<and> ignore_uri env s (NewURI op)")
    case True
    with Cons show ?thesis by (simp add: Let_def)
  next
    case False
    define found where "found = (case get_file_contents (sv_cache s) (OldURI op) of
              Some content \<Rightarrow> if content = '''' then update_for_uri_from_disk (server_read env) (sv_cache s) (NewURI op) (to_path (NewURI op))
                else (sv_cache s, Inr (False, content))
            | None \<Rightarrow> update_for_uri_from_disk (server_read env) (sv_cache s) (NewURI op) (to_path (NewURI op)))"
    obtain c res where c: "found = (c, res)" by fastforce
    have k: "P c" using c Cons.prems(2) unfolding found_def by (auto split: option.splits if_splits intro: kept_disk)
    define t where "t = send_file_diagnostics (OldURI op) (delete_file (OldURI op) (s\<lparr>sv_cache := c\<rparr>))"
    have t: "kept t" unfolding t_def using k by simp
    show ?thesis
    proof (cases res)
      case (Inl e)
      with Cons.prems(1) False c k show ?thesis unfolding found_def by (auto simp: Let_def)
    next
      case (Inr r)
      then obtain b content where r: "res = Inr (b, content)" by (cases r) simp
      have eq: "handle_did_rename_files env (op # ops) s =
          (if ignore_uri env t (NewURI op) then handle_did_rename_files env ops t
           else handle_did_rename_files env ops
               (emit (TemplateJob (NewURI op)) (emit (LintJob ''textDocument/didRename'')
                 (reparse env (NewURI op) (put_contents (NewURI op) content t)))))"
        unfolding handle_did_rename_files.simps(2) Let_def if_not_P [OF False] found_def [symmetric] c r t_def by simp
      show ?thesis
      proof (cases "ignore_uri env t (NewURI op)")
        case True
        with Cons.IH [OF _ t] Cons.prems(1) eq show ?thesis by simp
      next
        case False
        then have "kept (reparse env (NewURI op) (put_contents (NewURI op) content t))"
          using t not_ignored_allowed [of env t "NewURI op"] by (simp add: kept_reparse)
        with False Cons.IH Cons.prems(1) eq show ?thesis by simp
      qed
    qed
  qed
qed simp

lemma kept_watched_step:
  "watched_change_step env ch (s, b) = Some (s', b') \<Longrightarrow> kept s \<Longrightarrow> kept s'"
proof -
  assume step: "watched_change_step env ch (s, b) = Some (s', b')" and s: "kept s"
  show "kept s'"
  proof (cases "wc_uri ch \<noteq> '''' \<and> \<not> ignore_uri env s (wc_uri ch)")
    case True
    then have "allowed (wc_uri ch)" using not_ignored_allowed by blast
    from kept_parse [OF this s, of env] True step s show ?thesis
      by (auto simp: watched_change_step_def Let_def split: if_splits prod.splits sum.splits)
  next
    case False
    with step s show ?thesis
      by (auto simp: watched_change_step_def Let_def case_prod_unfold split: if_splits)
        (simp_all split: sum.split)
  qed
qed

lemma kept_watched_changes:
  "watched_changes env chs (s, b) = Some (s', b') \<Longrightarrow> kept s \<Longrightarrow> kept s'"
proof (induction chs arbitrary: s b)
  case (Cons ch chs)
  then obtain s1 b1 where "watched_change_step env ch (s, b) = Some (s1, b1)" "watched_changes env chs (s1, b1) = Some (s', b')"
    by (auto simp: bind_eq_Some_conv)
  with Cons kept_watched_step show ?case by blast
qed simp

lemma kept_did_watch: "handle_did_change_watched_files env chs s = Some s' \<Longrightarrow> kept s \<Longrightarrow> kept s'"
  using kept_watched_changes [of env "remdups_adj chs" s False]
  by (auto simp: handle_did_change_watched_files_def)

lemma kept_rename_changes:
  assumes "fix_rename_changes env s u = Some (c, res)" "kept s"
  shows "P c"
proof -
  let ?roots = "get_potential_roots (server_fs env) (sx_load_conf env) (sx_abs env) [workspace_path (sv_workspace s) []]"
  obtain r where r: "?roots = Some r" using assms(1) by (cases ?roots) (auto simp: fix_rename_changes_def Let_def)
  show ?thesis
  proof (cases r)
    case (Inl e)
    with assms r show ?thesis by (auto simp: fix_rename_changes_def Let_def)
  next
    case (Inr roots)
    let ?f = "set_on_conflict_operation on_conflict_rename
                (register_fixes [DirectoryPackageMismatch] (register_roots roots new_fixer))"
    let ?fv = "fix_violations (sx_fix env) (cp_ops (lx_rules (sx_lint env))) ?f [mismatch_violation u]
        (Some (sv_config s)) (new_cache_provider (sv_cache s) (ws_client (sv_workspace s)))"
    obtain cp out where fv: "?fv = Some (cp, out)"
      using assms(1) r Inr by (cases ?fv) (auto simp: fix_rename_changes_def Let_def)
    have "P (cp_cache cp)"
      by (rule cp.fix_violations_keeps [OF fv]) (simp add: new_cache_provider_def assms(2))
    with assms(1) r Inr fv keeps_delete show ?thesis
      by (cases out) (auto simp: fix_rename_changes_def Let_def bind_sum_eq_Some split: if_splits option.splits)
  qed
qed

lemma kept_template:
  assumes "process_template_job env u s = Some (s', err)" "kept s"
  shows "kept s'"
proof -
  let ?s = "s\<lparr>sv_templating := set_add (sv_templating s) [u]\<rparr>"
  have k: "kept ?s" using assms(2) by simp
  show ?thesis
  proof (cases "fp_dir (to_path u) = workspace_path (sv_workspace ?s) []")
    case True
    with assms show ?thesis by (auto simp: process_template_job_def Let_def)
  next
    case False
    then obtain res where res: "template_contents_for_file env ?s u = Some res"
      using assms(1) by (cases "template_contents_for_file env ?s u") (auto simp: process_template_job_def Let_def)
    show ?thesis
    proof (cases res)
      case (Inl e)
      with assms False res show ?thesis by (auto simp: process_template_job_def Let_def)
    next
      case (Inr contents)
      let ?t = "put_contents u contents ?s"
      obtain c out where c: "fix_rename_changes env ?t u = Some (c, out)"
        using assms(1) False res Inr
        by (cases "fix_rename_changes env ?t u") (auto simp: process_template_job_def Let_def)
      have "P c" by (rule kept_rename_changes [OF c]) (use k in simp)
      with assms(1) False res Inr c show ?thesis
        by (cases out) (auto simp: process_template_job_def Let_def emit_def)
    qed
  qed
qed

lemma kept_rename_command: "rename_command env u s = Some s' \<Longrightarrow> kept s \<Longrightarrow> kept s'"
  by (auto simp: rename_command_def Let_def dest!: kept_rename_changes) (simp split: sum.split)

lemma kept_fix_command: "fix_command env label fx args s = Some s' \<Longrightarrow> kept s \<Longrightarrow> kept s'"
  by (auto simp: fix_command_def) (simp split: sum.split list.split)

lemma kept_format:
  assumes "handle_formatting env linter_of u s = Some (s', res)" "kept s" "allowed u"
  shows "kept s'"
proof -
  let ?old = "case maybe_ignored_contents env s u of Some c \<Rightarrow> c | None \<Rightarrow> ''''"
  show ?thesis
  proof (cases "?old = ''''")
    case False
    from assms(1) [unfolded handle_formatting_def Let_def if_not_P [OF False] bind_sum_eq_Some] assms(2) show ?thesis
      by (auto split: option.split_asm)
  next
    case old: True
    show ?thesis
    proof (cases "fp_dir (to_path u) = workspace_path (sv_workspace s) []")
      case True
      with old assms(1,2) show ?thesis by (simp add: handle_formatting_def)
    next
      case False
      have k: "kept (reparse env u (put_contents u new (s\<lparr>sv_cache := clear_file_diagnostics (sv_cache s)\<rparr>)))" for new
        by (rule kept_reparse [OF assms(3)]) (simp add: keeps_clear assms(2))
      obtain r where r: "template_contents_for_file env s u = Some r"
        using assms(1) old False
        by (cases "template_contents_for_file env s u") (simp_all add: handle_formatting_def)
      from assms(1,2) old False r k show ?thesis
        by (cases r) (auto simp: handle_formatting_def Let_def)
    qed
  qed
qed

lemma store_file_diagnostics_kept:
  "P c \<Longrightarrow> \<forall>u\<in>set names. get_module c u \<noteq> None \<Longrightarrow> P (store_file_diagnostics fd names c)"
proof (induction names arbitrary: c)
  case (Cons u us)
  define c1 where "c1 = (if (case get_parse_errors c u of Some ds \<Rightarrow> ds | None \<Rightarrow> []) = []
       then set_file_diagnostics c u (map_get_or fd u []) else c)"
  have "P c1" "\<forall>v\<in>set us. get_module c1 v \<noteq> None"
    using Cons.prems keeps_diagnostics [of c u] by (auto simp: c1_def get_module_def set_file_diagnostics_def)
  from Cons.IH [OF this] show ?case
    unfolding store_file_diagnostics_def c1_def foldl.simps .
qed (simp add: store_file_diagnostics_def)

lemma kept_lint:
  assumes "lint_workspace env s = Some s'" "kept s" "E env"
  shows "kept s'"
proof -
  let ?input = "new_input (lx_rules (sx_lint env)) (get_all_files (sv_cache s)) (get_all_modules (sv_cache s))"
  obtain c err where c: "update_workspace_diagnostics (sx_lint env) (sx_loaded env) (sx_schedule env)
         \<lparr>do_config = Some (sv_config s), do_root = workspace_uri (sv_workspace s) [],
          do_custom_rules = custom_rules_path env s\<rparr> (sv_cache s) = Some (c, err)"
    and s': "s' = (if err \<noteq> None then s\<lparr>sv_cache := c\<rparr>
      else fold send_file_diagnostics (map fst (get_all_files c)) (s\<lparr>sv_cache := c\<rparr>))"
    using assms(1) by (auto simp: lint_workspace_def Let_def split: prod.splits)
  have "\<forall>u\<in>set (FileNames ?input). get_module (sv_cache s) u \<noteq> None"
    using sorted_keys [OF assms(3)] map_of_None_keys [of "modules (sv_cache s)"]
    by (auto simp: new_input_def get_all_modules_def get_module_def cm_get_def cm_clone_def)
  from store_file_diagnostics_kept [OF assms(2) this] have "P c"
    using c assms(2) by (auto simp: update_workspace_diagnostics_def Let_def bind_sum_eq_Some split: sum.splits)
  then show ?thesis unfolding s' by (auto intro!: kept_fold kept_simple)
qed

section \<open>Steps and runs keep it\<close>

theorem kept_step:
  assumes "server_step env s t" "E env" "kept s"
  shows "kept t"
  using assms(1)
proof cases
  case step_initialize then show ?thesis by (rule kept_load_workspace [OF _ assms(3)])
next
  case step_initialized then show ?thesis using kept_initialized [OF assms(3)] by simp
next
  case step_open then show ?thesis by (rule kept_did_open [OF _ assms(3)])
next
  case step_close then show ?thesis using kept_did_close [OF assms(3)] by simp
next
  case step_change then show ?thesis using kept_did_change [OF assms(3)] by simp
next
  case step_save then show ?thesis using kept_did_save [OF assms(3)] by simp
next
  case step_create then show ?thesis by (rule kept_did_create [OF assms(2) _ assms(3)])
next
  case step_delete then show ?thesis using kept_did_delete [OF assms(3)] by simp
next
  case step_rename then show ?thesis by (rule kept_did_rename [OF _ assms(3)])
next
  case step_watched then show ?thesis by (rule kept_did_watch [OF _ assms(3)])
next
  case step_format then show ?thesis by (meson kept_format assms(3) allowed_rego)
next
  case step_template then show ?thesis by (rule kept_template [OF _ assms(3)])
next
  case step_rename_command then show ?thesis by (rule kept_rename_command [OF _ assms(3)])
next
  case step_fix_command then show ?thesis by (rule kept_fix_command [OF _ assms(3)])
next
  case step_lint then show ?thesis by (rule kept_lint [OF _ assms(3,2)])
next
  case step_tick then show ?thesis using kept_tick [OF assms(3)] by simp
next
  case step_reload then show ?thesis using kept_config_reload [OF assms(3)] by simp
next
  case step_drop then show ?thesis using kept_config_drop [OF assms(3)] by simp
next
  case step_parse then show ?thesis using kept_parse [OF allowed_rego assms(3)] by simp
next
  case step_message then show ?thesis using assms(3) by simp
qed

theorem kept_run: "server_run E s t \<Longrightarrow> kept s \<Longrightarrow> kept t"
  by (induction rule: server_run.induct) (use kept_step in blast)+

end

section \<open>Invariants of the server's cache\<close>

definition sorted_env :: "('q, 'st, 'r, 'g, 'b, 'd) server_env \<Rightarrow> bool" where
  "sorted_env env \<longleftrightarrow> (\<forall>ks. set (keys_sorted (lx_rules (sx_lint env)) ks) = set ks)"

text \<open>What is known of a file is known together with its contents.\<close>

definition known_with_contents :: "'m lsp_cache \<Rightarrow> bool" where
  "known_with_contents c \<longleftrightarrow> cache_wf c
     \<and> dom (get_module c) \<union> dom (get_file_diagnostics c) \<union> dom (get_parse_errors c)
         \<union> dom (get_successful_parse_line_count c) \<subseteq> dom (get_file_contents c)"

lemma dom_reads:
  "dom (get_file_contents (set_file_contents c u t)) = insert u (dom (get_file_contents c))"
  "dom (get_file_diagnostics (set_file_diagnostics c u ds)) = insert u (dom (get_file_diagnostics c))"
  "dom (get_file_diagnostics (clear_file_diagnostics c)) = {}"
  "dom (get_file_contents (cache_delete c u)) = dom (get_file_contents c) - {u}"
  "dom (get_module (cache_delete c u)) = dom (get_module c) - {u}"
  "dom (get_file_diagnostics (cache_delete c u)) = dom (get_file_diagnostics c) - {u}"
  "dom (get_parse_errors (cache_delete c u)) = dom (get_parse_errors c) - {u}"
  "dom (get_successful_parse_line_count (cache_delete c u)) = dom (get_successful_parse_line_count c) - {u}"
  by (auto simp: cache_reads dom_def cm_get_def cm_set_def cm_delete_def cm_clear_def delete_conv' split: if_splits)

lemma same_reads [simp]:
  "get_module (set_file_contents c u t) = get_module c"
  "get_file_diagnostics (set_file_contents c u t) = get_file_diagnostics c"
  "get_parse_errors (set_file_contents c u t) = get_parse_errors c"
  "get_successful_parse_line_count (set_file_contents c u t) = get_successful_parse_line_count c"
  "get_module (set_file_diagnostics c u ds) = get_module c"
  "get_file_contents (set_file_diagnostics c u ds) = get_file_contents c"
  "get_parse_errors (set_file_diagnostics c u ds) = get_parse_errors c"
  "get_successful_parse_line_count (set_file_diagnostics c u ds) = get_successful_parse_line_count c"
  "get_module (clear_file_diagnostics c) = get_module c"
  "get_file_contents (clear_file_diagnostics c) = get_file_contents c"
  "get_parse_errors (clear_file_diagnostics c) = get_parse_errors c"
  "get_successful_parse_line_count (clear_file_diagnostics c) = get_successful_parse_line_count c"
  "get_module (set_ignored_file_contents c u t) = get_module c"
  "get_file_contents (set_ignored_file_contents c u t) = get_file_contents c"
  "get_file_diagnostics (set_ignored_file_contents c u t) = get_file_diagnostics c"
  "get_parse_errors (set_ignored_file_contents c u t) = get_parse_errors c"
  "get_successful_parse_line_count (set_ignored_file_contents c u t) = get_successful_parse_line_count c"
  "get_module (clear_ignored_file_contents c u) = get_module c"
  "get_file_contents (clear_ignored_file_contents c u) = get_file_contents c"
  "get_file_diagnostics (clear_ignored_file_contents c u) = get_file_diagnostics c"
  "get_parse_errors (clear_ignored_file_contents c u) = get_parse_errors c"
  "get_successful_parse_line_count (clear_ignored_file_contents c u) = get_successful_parse_line_count c"
  by (simp_all add: cache_reads fun_eq_iff)

lemma parse_known:
  assumes "known_with_contents c" "get_file_contents c u \<noteq> None"
    "update_parse px ws v u c st = (c', st', res)"
  shows "known_with_contents c'"
proof -
  note k = update_parse_keeps [OF assms(3)]
  have c: "get_file_contents c' = get_file_contents c" "get_file_diagnostics c' = get_file_diagnostics c"
    using k(1,3) by (simp_all add: get_file_contents_def get_file_diagnostics_def fun_eq_iff)
  have n: "get_successful_parse_line_count c' w = get_successful_parse_line_count c w" if "w \<noteq> u" for w
    using assms(3) that
    by (auto simp: update_parse_def Let_def cache_reads cm_get_set split: option.splits sum.splits if_splits prod.splits)
  have "dom (get_module c') \<subseteq> insert u (dom (get_module c))"
    "dom (get_parse_errors c') \<subseteq> insert u (dom (get_parse_errors c))"
    "dom (get_successful_parse_line_count c') \<subseteq> insert u (dom (get_successful_parse_line_count c))"
    using k(4,5) n by (metis domIff insertI1 insertI2 subsetI)+
  moreover have "u \<in> dom (get_file_contents c)" using assms(2) by blast
  ultimately show ?thesis using assms(1) k(10) unfolding known_with_contents_def c by blast
qed

interpretation known: server_cache_law known_with_contents "\<lambda>u. True" sorted_env
proof (unfold_locales, goal_cases)
  case 7
  from 7(1,3,4) show ?case by (rule parse_known)
qed (auto simp: known_with_contents_def dom_reads sorted_env_def)

text \<open>A document that is no Rego file and cannot be read, such as a directory.\<close>

definition blind_to :: "string \<Rightarrow> ('q, 'st, 'r, 'g, 'b, 'd) server_env \<Rightarrow> bool" where
  "blind_to d env \<longleftrightarrow> sorted_env env \<and> (\<forall>t. server_read env (to_path d) \<noteq> Inr t)"

definition unlisted :: "string \<Rightarrow> 'm lsp_cache \<Rightarrow> bool" where
  "unlisted d c \<longleftrightarrow> is_rego d \<or> get_module c d = None \<and> get_file_diagnostics c d = None"

interpretation unlisted: server_cache_law "unlisted d" "\<lambda>u. is_rego d \<or> u \<noteq> d" "blind_to d" for d
proof (unfold_locales, goal_cases)
  case 7
  from 7(1,2) update_parse_keeps(3,4) [OF 7(4)] show ?case
    by (auto simp: unlisted_def get_file_diagnostics_def)
qed (auto simp: unlisted_def cache_reads cm_get_def cm_set_def cm_delete_def cm_clear_def blind_to_def sorted_env_def)

lemma new_server_kept:
  "server_cache_law P A (E :: ('q, 'st, 'r, 'g, 'b, 'd) server_env \<Rightarrow> bool) \<Longrightarrow> P new_lsp_cache \<Longrightarrow>
    P (sv_cache (new_server (env :: ('q, 'st, 'r, 'g, 'b, 'd) server_env) conf))"
  unfolding new_server_def by (rule server_cache_law.kept_load_config) simp_all

lemma fresh_cache: "known_with_contents new_lsp_cache" "unlisted d new_lsp_cache"
  by (simp_all add: known_with_contents_def unlisted_def cache_reads new_lsp_cache_def cm_map_of_def cm_get_def cache_wf_def dom_def)


text \<open>A server without a workspace, which opens one file of a directory.\<close>

definition run_env :: "(unit, unit, unit, string, unit, nat) server_env" where
  "run_env = sample_server_env\<lparr>sx_lint := (sx_lint sample_server_env)\<lparr>lx_rules := sample_rules_env\<lparr>
     read_file := \<lambda>p. if p = ''/ws/a.rego'' then Inr ''package p'' else Inl p\<rparr>\<rparr>\<rparr>"

definition run_opened :: "(unit, unit, nat) server" where
  "run_opened = the (handle_did_open run_env ''file:///ws/a.rego'' ''q'' (new_server run_env sample_config))"

lemma run_opens:
  "handle_did_open run_env ''file:///ws/a.rego'' ''q'' (new_server run_env sample_config) = Some run_opened"
proof -
  have "handle_did_open run_env ''file:///ws/a.rego'' ''q'' (new_server run_env sample_config) \<noteq> None" by code_simp
  then show ?thesis unfolding run_opened_def by (rule option.collapse [symmetric])
qed

lemma run_env_sorted: "sorted_env run_env"
  by (simp add: sorted_env_def run_env_def sample_server_env_def sample_lint_env_def sample_rules_env_def)

lemma run_env_blind: "blind_to ''file:///ws'' run_env"
proof -
  have "to_path ''file:///ws'' = ''/ws''" by code_simp
  then show ?thesis using run_env_sorted
    by (simp add: blind_to_def run_env_def sample_server_env_def sample_lint_env_def sample_rules_env_def)
qed

lemma run_of_opened:
  assumes "E run_env"
  shows "server_run E (new_server run_env sample_config) run_opened"
  using run_step [of E "new_server run_env sample_config", OF run_refl, OF assms step_open [OF run_opens]] .

lemma run_opened_module: "get_module (sv_cache run_opened) ''file:///ws/a.rego'' \<noteq> None"
  unfolding run_opened_def by code_simp


text \<open>The violations that a lint files under the root of the workspace are lost for good: as long as the
  root is no Rego file and cannot be read as a file, \<open>workspace/diagnostic\<close> answers with an empty list in
  every state that a run of the server reaches.\<close>

theorem workspace_report_stays_empty:
  assumes "server_run (blind_to d) (new_server env conf) s" "workspace_uri (sv_workspace s) [] = d"
    and "\<not> is_rego d" "d \<noteq> ''''"
  shows "handle_workspace_diagnostic s
    = ReportResp [\<lparr>ReportURI = d, ReportVersion = None, ReportKind = ''full'', ReportItems = []\<rparr>]"
proof -
  have "unlisted d (sv_cache s)"
    by (rule unlisted.kept_run [OF assms(1)]) (rule new_server_kept [OF unlisted.server_cache_law_axioms fresh_cache(2)])
  with assms(2-4) show ?thesis by (simp add: handle_workspace_diagnostic_def unlisted_def Let_def)
qed

lemma workspace_report_stays_empty_witness:
  "handle_workspace_diagnostic run_opened
    = ReportResp [\<lparr>ReportURI = ''file:///ws'', ReportVersion = None, ReportKind = ''full'', ReportItems = []\<rparr>]"
proof -
  have "workspace_uri (sv_workspace run_opened) [] = ''file:///ws''" unfolding run_opened_def by code_simp
  moreover have "\<not> is_rego ''file:///ws''" by code_simp
  ultimately show ?thesis
    by (intro workspace_report_stays_empty [OF run_of_opened [of "blind_to ''file:///ws''", OF run_env_blind]]) simp_all
qed

end
