(* ===== verification/Lsp_Behaviour.thy ===== *)
theory Lsp_Behaviour
  imports Lsp_Run
begin

text \<open>
  What the handlers of \<open>internal/lsp/server.go\<close> do to the server's documents: which part of the cache a
  document is in after the configuration was loaded or dropped, and what opening, creating, deleting and
  renaming files leaves behind.
\<close>

section \<open>Reading the parts of a state\<close>

abbreviation text_of :: "('r, 'b, 'd) server \<Rightarrow> string \<Rightarrow> string option" where
  "text_of s \<equiv> get_file_contents (sv_cache s)"

abbreviation ignored_text_of :: "('r, 'b, 'd) server \<Rightarrow> string \<Rightarrow> string option" where
  "ignored_text_of s \<equiv> get_ignored_file_contents (sv_cache s)"

lemma text_reads [simp]:
  "text_of (emit out s) = text_of s"
  "ignored_text_of (emit out s) = ignored_text_of s"
  "text_of (put_contents u t s) = (text_of s)(u \<mapsto> t)"
  "ignored_text_of (put_contents u t s) = ignored_text_of s"
  "text_of (put_ignored u t s) = text_of s"
  "ignored_text_of (put_ignored u t s) = (ignored_text_of s)(u \<mapsto> t)"
  "text_of (delete_file u s) = (text_of s)(u := None)"
  "ignored_text_of (delete_file u s) = (ignored_text_of s)(u := None)"
  "text_of (send_file_diagnostics u s) = text_of s"
  "ignored_text_of (send_file_diagnostics u s) = ignored_text_of s"
  "get_file_contents (clear_ignored_file_contents c u) = get_file_contents c"
  "get_ignored_file_contents (clear_ignored_file_contents c u) = (get_ignored_file_contents c)(u := None)"
  by (auto simp: emit_def put_contents_def put_ignored_def delete_file_def send_file_diagnostics_def Let_def
      cache_reads cm_get_set cm_get_def cm_set_def cm_delete_def fun_eq_iff)

lemma state_reads [simp]:
  "sv_config (emit out s) = sv_config s" "sv_workspace (emit out s) = sv_workspace s"
  "sv_config (put_contents u t s) = sv_config s" "sv_workspace (put_contents u t s) = sv_workspace s"
  "sv_config (put_ignored u t s) = sv_config s" "sv_workspace (put_ignored u t s) = sv_workspace s"
  "sv_config (delete_file u s) = sv_config s" "sv_workspace (delete_file u s) = sv_workspace s"
  "sv_config (send_file_diagnostics u s) = sv_config s" "sv_workspace (send_file_diagnostics u s) = sv_workspace s"
  "sv_config (fst (parse_uri env s u)) = sv_config s"
  "sv_templating (emit out s) = sv_templating s" "sv_templating (put_contents u t s) = sv_templating s"
  by (auto simp: emit_def put_contents_def put_ignored_def delete_file_def send_file_diagnostics_def Let_def
      parse_uri_def split: prod.splits)

lemma parse_text [simp]:
  "text_of (fst (parse_uri env s u)) = text_of s" "ignored_text_of (fst (parse_uri env s u)) = ignored_text_of s"
proof -
  obtain c st res where r: "update_parse (sx_parse env) (sv_workspace s) (rego_version_for_uri s u) u (sv_cache s) (sv_store s)
      = (c, st, res)" by (metis prod_cases3)
  from update_parse_keeps(1,2) [OF r]
  show "text_of (fst (parse_uri env s u)) = text_of s" "ignored_text_of (fst (parse_uri env s u)) = ignored_text_of s"
    by (simp_all add: parse_uri_def r get_file_contents_def get_ignored_file_contents_def fun_eq_iff)
qed

lemma reparse_text [simp]:
  "text_of (reparse env u s) = text_of s" "ignored_text_of (reparse env u s) = ignored_text_of s"
  "sv_workspace (reparse env u s) = sv_workspace s" "sv_config (reparse env u s) = sv_config s"
proof -
  obtain s1 res where r: "parse_uri env s u = (s1, res)" by fastforce
  have s1: "text_of s1 = text_of s" "ignored_text_of s1 = ignored_text_of s" "sv_workspace s1 = sv_workspace s"
    "sv_config s1 = sv_config s"
    using parse_text [of env s u] parse_uri_keeps [of env s u] state_reads(11) [of env s u] r by simp_all
  then show "text_of (reparse env u s) = text_of s" "ignored_text_of (reparse env u s) = ignored_text_of s"
    "sv_workspace (reparse env u s) = sv_workspace s" "sv_config (reparse env u s) = sv_config s"
    unfolding reparse_def r by (simp_all split: sum.split bool.split)
qed

lemma ignore_uri_cong:
  "sv_config s = sv_config t \<Longrightarrow> sv_workspace s = sv_workspace t \<Longrightarrow> ignore_uri env s u = ignore_uri env t u"
  by (simp add: ignore_uri_def)

lemma has_file_contents_iff: "has_file_contents c u \<longleftrightarrow> get_file_contents c u \<noteq> None"
  by (simp add: has_file_contents_def get_file_contents_def)

section \<open>Loading a configuration\<close>

lemma unload_step:
  assumes "t = unload_ignored env k s"
  shows "text_of t = (if ignore_uri env s k then (text_of s)(k := None) else text_of s)"
    "ignored_text_of t = (if ignore_uri env s k \<and> text_of s k \<noteq> None then (ignored_text_of s)(k := text_of s k)
      else ignored_text_of s)"
    "sv_config t = sv_config s" "sv_workspace t = sv_workspace s"
  using assms by (auto simp: unload_ignored_def Let_def fun_eq_iff split: option.splits)

lemma unload_fold:
  assumes "t = fold (unload_ignored env) ks s"
  shows "text_of t u = (if ignore_uri env s u \<and> u \<in> set ks then None else text_of s u)
    \<and> ignored_text_of t u = (if ignore_uri env s u \<and> u \<in> set ks \<and> text_of s u \<noteq> None then text_of s u
        else ignored_text_of s u)
    \<and> sv_config t = sv_config s \<and> sv_workspace t = sv_workspace s"
  using assms
proof (induction ks arbitrary: s)
  case (Cons k ks)
  define s1 where "s1 = unload_ignored env k s"
  note s1 = unload_step [OF s1_def]
  from Cons.IH [of s1] Cons.prems have
    "text_of t u = (if ignore_uri env s1 u \<and> u \<in> set ks then None else text_of s1 u)
    \<and> ignored_text_of t u = (if ignore_uri env s1 u \<and> u \<in> set ks \<and> text_of s1 u \<noteq> None then text_of s1 u
        else ignored_text_of s1 u) \<and> sv_config t = sv_config s1 \<and> sv_workspace t = sv_workspace s1"
    by (simp add: s1_def)
  then show ?case unfolding ignore_uri_cong [OF s1(3,4)] s1 by auto
qed simp

lemma reload_step:
  assumes "t = reload_unignored env (k, v) s"
  shows "text_of t = (if \<not> ignore_uri env s k \<and> text_of s k = None then (text_of s)(k \<mapsto> v) else text_of s)"
    "ignored_text_of t = (if ignore_uri env s k then ignored_text_of s else (ignored_text_of s)(k := None))"
    "sv_config t = sv_config s" "sv_workspace t = sv_workspace s"
  using assms by (auto simp: reload_unignored_def Let_def fun_eq_iff has_file_contents_iff)

lemma reload_fold:
  assumes "t = fold (reload_unignored env) kvs s"
  shows "text_of t u = (if \<not> ignore_uri env s u \<and> text_of s u = None then map_of kvs u else text_of s u)
    \<and> ignored_text_of t u = (if \<not> ignore_uri env s u \<and> u \<in> fst ` set kvs then None else ignored_text_of s u)
    \<and> sv_config t = sv_config s \<and> sv_workspace t = sv_workspace s"
  using assms
proof (induction kvs arbitrary: s)
  case (Cons kv kvs)
  obtain k v where kv: "kv = (k, v)" by fastforce
  define s1 where "s1 = reload_unignored env (k, v) s"
  note s1 = reload_step [OF s1_def]
  from Cons.IH [of s1] Cons.prems have
    "text_of t u = (if \<not> ignore_uri env s1 u \<and> text_of s1 u = None then map_of kvs u else text_of s1 u)
    \<and> ignored_text_of t u = (if \<not> ignore_uri env s1 u \<and> u \<in> fst ` set kvs then None else ignored_text_of s1 u)
    \<and> sv_config t = sv_config s1 \<and> sv_workspace t = sv_workspace s1"
    by (simp add: s1_def kv)
  then show ?case unfolding ignore_uri_cong [OF s1(3,4)] s1 kv by auto
qed simp

lemma load_config_cache:
  assumes "sx_builtins env (current_capabilities_url env conf) = Inr bis" "t = load_config env conf s"
  shows "text_of t u = (if ignore_uri env t u then None else over (text_of s u) (ignored_text_of s u))
    \<and> ignored_text_of t u = (if ignore_uri env t u then over (text_of s u) (ignored_text_of s u) else None)
    \<and> sv_config t = conf \<and> sv_workspace t = sv_workspace s"
proof -
  have "\<exists>s0. sv_cache s0 = sv_cache s \<and> sv_config s0 = conf \<and> sv_workspace s0 = sv_workspace s
    \<and> t = fold (reload_unignored env)
        (get_all_ignored_files (sv_cache (fold (unload_ignored env) (map fst (get_all_files (sv_cache s0))) s0)))
        (fold (unload_ignored env) (map fst (get_all_files (sv_cache s0))) s0)"
    unfolding assms(2) load_config_def Let_def assms(1) sum.case
    by (intro exI conjI, rule_tac [4] refl) (simp_all split: sum.split)
  then obtain s0 where s0: "sv_cache s0 = sv_cache s" "sv_config s0 = conf" "sv_workspace s0 = sv_workspace s"
    and t: "t = fold (reload_unignored env)
        (get_all_ignored_files (sv_cache (fold (unload_ignored env) (map fst (get_all_files (sv_cache s))) s0)))
        (fold (unload_ignored env) (map fst (get_all_files (sv_cache s))) s0)"
    by (elim exE conjE) simp
  define s1 where "s1 = fold (unload_ignored env) (map fst (get_all_files (sv_cache s))) s0"
  have ks: "u \<in> set (map fst (get_all_files (sv_cache s))) \<longleftrightarrow> text_of s u \<noteq> None" for u
    using map_of_None_keys [of "fileContents (sv_cache s)" u]
    by (simp add: get_all_files_def get_file_contents_def cm_get_def cm_clone_def del: set_map)
  have kvs: "map_of (get_all_ignored_files (sv_cache s1)) u = ignored_text_of s1 u"
    by (simp add: get_all_ignored_files_def get_ignored_file_contents_def cm_get_def cm_clone_def)
  note u1 = unload_fold [OF s1_def, of u]
  note u2 = reload_fold [OF t [folded s1_def], of u]
  have "ignore_uri env t u = ignore_uri env s1 u" "ignore_uri env s1 u = ignore_uri env s0 u"
    using u1 u2 ignore_uri_cong [of t s1 env u] ignore_uri_cong [of s1 s0 env u] by blast+
  moreover have "u \<in> fst ` set (get_all_ignored_files (sv_cache s1)) \<longleftrightarrow> ignored_text_of s1 u \<noteq> None"
    using kvs map_of_eq_None_iff [of "get_all_ignored_files (sv_cache s1)" u] by simp
  ultimately show ?thesis
    using u1 u2 ks [of u] kvs s0 by (auto simp: over_def split: option.splits)
qed

text \<open>C18. After a configuration was loaded, a document is in the part of the cache that the new configuration
  puts it in, the ignored part if it is ignored and else the other one, and in that part only; its text is
  the one the cache had, where a text in the main part goes first. If the capabilities that the
  configuration names cannot be found, the cache is not split anew, although the configuration and the
  Rego versions are the new ones.\<close>

theorem load_config_splits_cache:
  "let t = load_config env conf s; txt = over (text_of s u) (ignored_text_of s u) in
     sv_config t = conf
     \<and> (case sx_builtins env (current_capabilities_url env conf) of
          Inl e \<Rightarrow> sv_cache t = sv_cache s
        | Inr bis \<Rightarrow> text_of t u = (if ignore_uri env t u then None else txt)
            \<and> ignored_text_of t u = (if ignore_uri env t u then txt else None)
            \<and> maybe_ignored_contents env t u = txt)"
proof (cases "sx_builtins env (current_capabilities_url env conf)")
  case (Inl e)
  then show ?thesis by (auto simp: load_config_def Let_def split: sum.splits)
next
  case (Inr bis)
  from load_config_cache [OF Inr refl, of s u] Inr show ?thesis
    by (simp add: Let_def maybe_ignored_contents_def)
qed

text \<open>When the configuration file goes away the defaults take its place, but the cache is not split anew.
  A document that only the old configuration ignored is hidden from then on: its text is in the ignored
  part and is looked for in the other one, so that formatting it takes it for empty and fails. Loading the
  same configuration would have made it visible.\<close>

theorem dropped_config_hides_document:
  assumes "text_of s u = None" "ignored_text_of s u = Some t"
    and "\<not> ignore_uri env (config_drop env s) u" "fp_dir (to_path u) \<noteq> workspace_path (sv_workspace s) []"
  shows "maybe_ignored_contents env (config_drop env s) u = None
    \<and> handle_formatting env linter_of u (config_drop env s)
        = Some (config_drop env s, Inl (TemplateFailed (NoFileContents u)))
    \<and> (\<forall>bis. sx_builtins env (current_capabilities_url env (default_config env)) = Inr bis \<longrightarrow>
        maybe_ignored_contents env (load_config env (default_config env) s) u = Some t)"
proof -
  have d: "text_of (config_drop env s) u = None" "sv_workspace (config_drop env s) = sv_workspace s"
    using assms(1) by (simp_all add: config_drop_def)
  have m: "maybe_ignored_contents env (config_drop env s) u = None"
    using assms(3) d by (simp add: maybe_ignored_contents_def)
  have f: "template_contents_for_file env (config_drop env s) u = Some (Inl (NoFileContents u))"
    using assms(4) d by (simp add: template_contents_for_file_def Let_def)
  have l: "maybe_ignored_contents env (load_config env (default_config env) s) u = Some t"
    if "sx_builtins env (current_capabilities_url env (default_config env)) = Inr bis" for bis
    using load_config_cache [OF that refl, of s u] assms(1,2) by (simp add: maybe_ignored_contents_def over_def)
  show ?thesis
    using assms(4) m f l d by (simp add: handle_formatting_def Let_def)
qed

section \<open>Loading the workspace\<close>

lemma update_disk_text:
  "update_for_uri_from_disk rd c u p = (c', res) \<Longrightarrow>
    get_file_contents c' = (case rd p of Inl e \<Rightarrow> get_file_contents c | Inr t \<Rightarrow> (get_file_contents c)(u \<mapsto> t))"
  by (auto simp: update_for_uri_from_disk_def cache_reads cm_get_set fun_eq_iff cm_get_def cm_set_def
      split: sum.splits option.splits if_splits)

lemma load_file_text:
  assumes "load_file env p (s, l) = (s', l')"
  shows "text_of s' = (case server_read env p of Inl e \<Rightarrow> text_of s
      | Inr t \<Rightarrow> (text_of s)(workspace_uri (sv_workspace s) [p] \<mapsto> t))"
    "sv_workspace s' = sv_workspace s"
proof -
  let ?u = "workspace_uri (sv_workspace s) [p]"
  obtain c res where c: "update_for_uri_from_disk (server_read env) (sv_cache s) ?u p = (c, res)" by fastforce
  have s': "text_of s' = get_file_contents c \<and> sv_workspace s' = sv_workspace s"
    using assms c by (auto simp: load_file_def Let_def split: sum.splits prod.splits bool.splits)
  show "text_of s' = (case server_read env p of Inl e \<Rightarrow> text_of s | Inr t \<Rightarrow> (text_of s)(?u \<mapsto> t))"
    "sv_workspace s' = sv_workspace s"
    using s' update_disk_text [OF c] by simp_all
qed

lemma load_files_keep:
  assumes "fold (load_file env) ps (s, l) = (s', l')" "\<forall>p\<in>set ps. workspace_uri (sv_workspace s) [p] \<noteq> u"
  shows "text_of s' u = text_of s u \<and> sv_workspace s' = sv_workspace s"
  using assms
proof (induction ps arbitrary: s l)
  case (Cons p ps)
  obtain s1 l1 where s1: "load_file env p (s, l) = (s1, l1)" by fastforce
  note r = load_file_text [OF s1]
  from Cons.IH [of s1 l1] Cons.prems s1 r(2) have "text_of s' u = text_of s1 u" "sv_workspace s' = sv_workspace s1"
    by simp_all
  with r Cons.prems(2) show ?case by (auto split: sum.splits)
qed simp

lemma load_contents_keeps:
  assumes "load_workspace_contents env True s = (s', loaded)" "text_of s u \<noteq> None"
  shows "text_of s' u = text_of s u"
proof (cases "workspace_path (sv_workspace s) [] = ''''")
  case False
  obtain paths err where p: "workspace_files env True s = (paths, err)" by fastforce
  obtain s1 l1 where s1: "fold (load_file env) paths (s, []) = (s1, l1)" by fastforce
  have "\<forall>p\<in>set paths. workspace_uri (sv_workspace s) [p] \<noteq> u"
    using workspace_files_wanted [of _ env True s] assms(2) p by (metis fst_conv has_file_contents_iff)
  from load_files_keep [OF s1 this] assms(1) False p s1 show ?thesis
    by (auto simp: load_workspace_contents_def split: if_splits prod.splits sum.splits)
qed (use assms in \<open>simp add: load_workspace_contents_def\<close>)

lemma fold_keeps_text: "(\<And>x s. text_of (f x s) = text_of s) \<Longrightarrow> text_of (fold f xs s) = text_of s"
  by (induction xs arbitrary: s) simp_all

lemma initialized_keeps:
  assumes "text_of s u \<noteq> None"
  shows "text_of (initialized env s) u = text_of s u"
proof -
  obtain s' loaded where l: "load_workspace_contents env True s = (s', loaded)" by fastforce
  from load_contents_keeps [OF this assms] show ?thesis
    by (simp add: initialized_def l fold_keeps_text)
qed

text \<open>The first load of the workspace and a file that is opened while it runs. Files that have a text when
  the directory is walked keep it, so if the load starts after the file was opened, the editor's text
  stays. But the walk only lists what is to be loaded: if the file is opened after the walk has listed it,
  reading it from disk overwrites what the editor sent.\<close>

theorem initial_load_overwrites_open:
  assumes "path \<in> set (fst (workspace_files env True s))" "server_read env path = Inr disk"
    and "workspace_uri (sv_workspace s) [] \<noteq> ''''" "\<not> set_contains (sv_templating s) [workspace_uri (sv_workspace s) [path]]"
    and "handle_did_open env (workspace_uri (sv_workspace s) [path]) t s = Some s'"
  shows "text_of s' (workspace_uri (sv_workspace s) [path]) = Some t
    \<and> text_of (initialized env s') (workspace_uri (sv_workspace s) [path]) = Some t
    \<and> text_of (fst (load_file env path (s', l))) (workspace_uri (sv_workspace s) [path]) = Some disk"
proof -
  let ?u = "workspace_uri (sv_workspace s) [path]"
  have "\<not> ignore_uri env s ?u" using workspace_files_wanted [OF assms(1)] by blast
  with assms(3-5) have s': "s' = emit (LintJob ''textDocument/didOpen'') (reparse env ?u (put_contents ?u t s))"
    by (simp add: handle_did_open_def)
  have o: "text_of s' ?u = Some t" "sv_workspace s' = sv_workspace s" by (simp_all add: s')
  obtain s2 l2 where l2: "load_file env path (s', l) = (s2, l2)" by fastforce
  have "text_of s2 ?u = Some disk" using load_file_text(1) [OF l2] assms(2) o(2) by simp
  with o initialized_keeps [of s' ?u env] l2 show ?thesis by simp
qed

section \<open>Files that the client creates, deletes and renames\<close>

lemma create_files_text:
  assumes "\<forall>u\<in>set us. \<exists>t. server_read env (to_path u) = Inr t"
  shows "\<exists>s'. create_files env us s = (s', None)
    \<and> (\<forall>u. text_of s' u = (if u \<in> set us then Some (projr (server_read env (to_path u))) else text_of s u))"
  using assms
proof (induction us arbitrary: s)
  case (Cons u us)
  obtain t where t: "server_read env (to_path u) = Inr t" using Cons.prems by auto
  obtain c res where c: "update_for_uri_from_disk (server_read env) (sv_cache s) u (to_path u) = (c, res)" by fastforce
  then obtain r where r: "res = Inr r"
    using t by (auto simp: update_for_uri_from_disk_def split: option.splits if_splits)
  define s1 where "s1 = emit (TemplateJob u) (emit (LintJob ''textDocument/didCreate'') (reparse env u (s\<lparr>sv_cache := c\<rparr>)))"
  have "text_of s1 = (text_of s)(u \<mapsto> t)" using update_disk_text [OF c] t by (simp add: s1_def)
  moreover obtain s' where "create_files env us s1 = (s', None)"
    "\<forall>u. text_of s' u = (if u \<in> set us then Some (projr (server_read env (to_path u))) else text_of s1 u)"
    using Cons.IH [of s1] Cons.prems by (metis list.set_intros(2))
  ultimately show ?case using c r t by (auto simp: s1_def)
qed simp

text \<open>\<open>workspace/didCreateFiles\<close> looks at the first file to decide whether to skip them all. So if it is not
  ignored, every file of the request is read into the main part of the cache, the ignored ones too; if it
  is, none is; and a request without files is a panic.\<close>

theorem created_files_unchecked:
  assumes "\<forall>u\<in>set us. \<exists>t. server_read env (to_path u) = Inr t"
  shows "case us of
      [] \<Rightarrow> handle_did_create_files env us s = None
    | first # _ \<Rightarrow> (\<exists>s'. handle_did_create_files env us s = Some (s', None)
        \<and> (\<forall>u. text_of s' u = (if u \<in> set us \<and> \<not> ignore_uri env s first
              then Some (projr (server_read env (to_path u))) else text_of s u)))"
proof (cases us)
  case (Cons u vs)
  from create_files_text [OF assms, of s] obtain s' where s': "create_files env us s = (s', None)"
    "\<forall>u. text_of s' u = (if u \<in> set us then Some (projr (server_read env (to_path u))) else text_of s u)" by blast
  then show ?thesis
    by (cases "ignore_uri env s u") (simp_all add: handle_did_create_files_def Cons del: create_files.simps)
qed (simp add: handle_did_create_files_def)

lemma published_after_delete:
  "send_file_diagnostics u (delete_file u s) = emit (Publish u []) (delete_file u s)"
  by (simp add: send_file_diagnostics_def delete_file_def cache_reads cm_get_def cm_delete_def)

lemma entry_after_delete:
  "cache_entry_at (sv_cache (delete_file u s)) v = (if v = u then no_entry else cache_entry_at (sv_cache s) v)"
  by (simp add: delete_file_def cache_delete_def cache_entry_at_def no_entry_def cm_get_def cm_delete_def)

text \<open>Deleting files forgets everything about those that are not ignored, changes nothing else of the
  cache, and clears the diagnostics of each of them at the client, in order.\<close>

theorem deleted_files_forgotten:
  "cache_entry_at (sv_cache (handle_did_delete_files env us s)) v
     = (if v \<in> set us \<and> \<not> ignore_uri env s v then no_entry else cache_entry_at (sv_cache s) v)
   \<and> sv_out (handle_did_delete_files env us s)
     = sv_out s @ map (\<lambda>u. Publish u []) (filter (\<lambda>u. \<not> ignore_uri env s u) us)"
proof (induction us arbitrary: s)
  case (Cons u us)
  define s1 where "s1 = (if ignore_uri env s u then s else emit (Publish u []) (delete_file u s))"
  have h: "handle_did_delete_files env (u # us) s = handle_did_delete_files env us s1"
    by (simp add: handle_did_delete_files_def s1_def published_after_delete)
  have ign: "ignore_uri env s1 w = ignore_uri env s w" for w
    by (rule ignore_uri_cong) (simp_all add: s1_def)
  have "cache_entry_at (sv_cache s1) v = (if v = u \<and> \<not> ignore_uri env s u then no_entry else cache_entry_at (sv_cache s) v)"
    "sv_out s1 = sv_out s @ (if ignore_uri env s u then [] else [Publish u []])"
    using entry_after_delete [of u s v] by (auto simp: s1_def emit_def) (simp add: delete_file_def)
  with Cons.IH [of s1] h ign show ?case by auto
qed (simp add: handle_did_delete_files_def)

lemma reparse_other:
  "v \<noteq> u \<Longrightarrow> cache_entry_at (sv_cache (reparse env u s)) v = cache_entry_at (sv_cache s) v"
  "\<exists>tests. sv_out (reparse env u s) = sv_out s @ tests \<and> set tests \<subseteq> {TestLocationJob u}"
proof -
  obtain c st res where r: "update_parse (sx_parse env) (sv_workspace s) (rego_version_for_uri s u) u (sv_cache s) (sv_store s)
      = (c, st, res)" by (metis prod_cases3)
  have e: "sv_cache (reparse env u s) = c" "sv_out (reparse env u s) = sv_out s \<or> sv_out (reparse env u s) = sv_out s @ [TestLocationJob u]"
    by (auto simp: reparse_def parse_uri_def r emit_def split: sum.split bool.split)
  from e(2) show "\<exists>tests. sv_out (reparse env u s) = sv_out s @ tests \<and> set tests \<subseteq> {TestLocationJob u}"
    by (elim disjE) auto
  assume "v \<noteq> u"
  then have "cm_get (successfulParseLineCounts c) v = cm_get (successfulParseLineCounts (sv_cache s)) v"
    using r by (auto simp: update_parse_def Let_def cache_ops cm_get_set split: option.splits sum.splits if_splits prod.splits)
  with update_parse_keeps(1-3) [OF r] update_parse_keeps(4,5) [OF r \<open>v \<noteq> u\<close>] show "cache_entry_at (sv_cache (reparse env u s)) v = cache_entry_at (sv_cache s) v"
    by (simp add: e(1) cache_entry_at_def get_module_def get_parse_errors_def)
qed

lemma rename_one:
  assumes "\<not> (ignore_uri env s old \<and> ignore_uri env s new)" "old \<noteq> new"
    and "(case text_of s old of Some t \<Rightarrow> if t = '''' then update_for_uri_from_disk (server_read env) (sv_cache s) new (to_path new)
                else (sv_cache s, Inr (False, t))
            | None \<Rightarrow> update_for_uri_from_disk (server_read env) (sv_cache s) new (to_path new)) = (c, Inr (b, t))"
    and "s1 = emit (Publish old []) (delete_file old (s\<lparr>sv_cache := c\<rparr>))"
  shows "handle_did_rename_files env [\<lparr>NewURI = new, OldURI = old\<rparr>] s =
      (if ignore_uri env s new then s1
       else emit (TemplateJob new) (emit (LintJob ''textDocument/didRename'') (reparse env new (put_contents new t s1))), None)"
proof -
  have "ignore_uri env s1 new = ignore_uri env s new"
    by (rule ignore_uri_cong) (simp_all add: assms(4))
  then show ?thesis
    using assms(1) unfolding handle_did_rename_files.simps Let_def file_rename.simps if_not_P [OF assms(1)] assms(3)
    by (simp add: published_after_delete assms(4))
qed

text \<open>Renaming a document that has a text. If the new name is not ignored the document has its text under
  the new name and nothing is left under the old one, whose diagnostics are cleared at the client; a lint
  and a template job follow. If the new name is ignored the document is only forgotten.\<close>

theorem renamed_document_moves:
  assumes "text_of s old = Some t" "t \<noteq> ''''" "old \<noteq> new" "\<not> ignore_uri env s old"
    and "handle_did_rename_files env [\<lparr>NewURI = new, OldURI = old\<rparr>] s = (s', err)"
  shows "err = None \<and> cache_entry_at (sv_cache s') old = no_entry
    \<and> text_of s' = (if ignore_uri env s new then (text_of s)(old := None) else (text_of s)(old := None, new \<mapsto> t))
    \<and> (\<exists>tests. sv_out s' = sv_out s @ [Publish old []]
        @ (if ignore_uri env s new then [] else tests @ [LintJob ''textDocument/didRename'', TemplateJob new])
        \<and> set tests \<subseteq> {TestLocationJob new})"
proof -
  define s1 where "s1 = emit (Publish old []) (delete_file old s)"
  have s': "s' = (if ignore_uri env s new then s1
       else emit (TemplateJob new) (emit (LintJob ''textDocument/didRename'') (reparse env new (put_contents new t s1))))"
    and e: "err = None"
    using rename_one [of env s old new "sv_cache s" False t s1] assms by (auto simp: s1_def)
  have old: "cache_entry_at (sv_cache s1) old = no_entry" "text_of s1 = (text_of s)(old := None)"
      "sv_out s1 = sv_out s @ [Publish old []]"
    using entry_after_delete [of old s old] by (simp_all add: s1_def emit_def) (simp add: delete_file_def)
  have p: "cache_entry_at (sv_cache (put_contents new t s1)) old = no_entry"
    using old(1) assms(3) by (simp add: put_contents_def cache_entry_at_def set_file_contents_def cm_get_set)
  show ?thesis
  proof (cases "ignore_uri env s new")
    case True
    with s' e old show ?thesis by simp (rule exI [of _ "[]"], simp)
  next
    case False
    let ?t = "put_contents new t s1"
    obtain tests where tests: "sv_out (reparse env new ?t) = sv_out ?t @ tests" "set tests \<subseteq> {TestLocationJob new}"
      using reparse_other(2) by blast
    have "cache_entry_at (sv_cache s') old = no_entry"
      using reparse_other(1) [OF assms(3), of env ?t] p s' False by (simp add: emit_def)
    moreover have "sv_out s' = sv_out s @ [Publish old []] @ tests @ [LintJob ''textDocument/didRename'', TemplateJob new]"
      using tests(1) s' False old(3) by (simp add: emit_def put_contents_def)
    moreover have "text_of s' = (text_of s)(old := None, new \<mapsto> t)" using s' False old(2) by simp
    ultimately show ?thesis using False e tests(2) by auto
  qed
qed

text \<open>Renaming a document without a text to an ignored name reads the file under its new name into the
  main part of the cache and leaves it there, where the documents are that the configuration does not ignore.\<close>

theorem renamed_document_unsplit:
  assumes "text_of s old = None \<or> text_of s old = Some ''''" "old \<noteq> new" "\<not> ignore_uri env s old" "ignore_uri env s new"
    and "server_read env (to_path new) = Inr disk"
    and "handle_did_rename_files env [\<lparr>NewURI = new, OldURI = old\<rparr>] s = (s', err)"
  shows "err = None \<and> text_of s' new = Some disk \<and> ignore_uri env s' new"
proof -
  obtain c res where c: "update_for_uri_from_disk (server_read env) (sv_cache s) new (to_path new) = (c, res)" by fastforce
  then obtain b t where r: "res = Inr (b, t)"
    using assms(5) by (auto simp: update_for_uri_from_disk_def split: option.splits if_splits)
  define s1 where "s1 = emit (Publish old []) (delete_file old (s\<lparr>sv_cache := c\<rparr>))"
  have "s' = s1" "err = None"
    using rename_one [OF _ assms(2) _ s1_def, of env b t] assms(1,3,4,6) c r by auto
  moreover have "ignore_uri env s1 new = ignore_uri env s new" by (rule ignore_uri_cong) (simp_all add: s1_def)
  moreover have "text_of s1 new = Some disk" using update_disk_text [OF c] assms(2,5) by (simp add: s1_def)
  ultimately show ?thesis using assms(4) by simp
qed

section \<open>Concrete runs\<close>

text \<open>A workspace whose configuration ignores \<open>b.rego\<close>; the document's text is in the ignored part.\<close>

definition two_files :: "string \<Rightarrow> fs_node option" where
  "two_files p = (if p = ''/ws'' then Some (DirNode [(''a.rego'', FileNode), (''p'', DirNode [(''b.rego'', FileNode)])])
     else if p = ''/ws/a.rego'' \<or> p = ''/ws/p/b.rego'' then Some FileNode else None)"

definition files_env :: "(unit, unit, unit, string, unit, nat) server_env" where
  "files_env = run_env\<lparr>sx_lint := (sx_lint run_env)\<lparr>lx_fs := two_files,
     lx_rules := (lx_rules (sx_lint run_env))\<lparr>read_file := \<lambda>p. Inr ''package p''\<rparr>,
     lx_glob := \<lparr>glob_compile = Some, glob_match = \<lambda>g p. has_suffix g p\<rparr>\<rparr>\<rparr>"

definition ignoring_server :: "(unit, unit, nat) server" where
  "ignoring_server = put_ignored ''file:///ws/p/b.rego'' ''q''
     (sample_server\<lparr>sv_config := sample_config\<lparr>cfg_ignore := \<lparr>ign_files = [''p/b.rego'']\<rparr>\<rparr>\<rparr>)"

lemma ignoring_facts:
  "text_of ignoring_server ''file:///ws/p/b.rego'' = None"
  "ignored_text_of ignoring_server ''file:///ws/p/b.rego'' = Some ''q''"
  "\<not> ignore_uri files_env (config_drop files_env ignoring_server) ''file:///ws/p/b.rego''"
  "ignore_uri files_env ignoring_server ''file:///ws/p/b.rego''"
  "fp_dir (to_path ''file:///ws/p/b.rego'') \<noteq> workspace_path (sv_workspace ignoring_server) []"
  "\<not> ignore_uri files_env ignoring_server ''file:///ws/c.rego''"
  "\<not> ignore_uri files_env ignoring_server ''file:///ws/a.rego''"
  by code_simp+

lemma dropped_config_hides_document_witness:
  "maybe_ignored_contents files_env (config_drop files_env ignoring_server) ''file:///ws/p/b.rego'' = None
   \<and> maybe_ignored_contents files_env (load_config files_env (default_config files_env) ignoring_server) ''file:///ws/p/b.rego''
      = Some ''q''"
proof -
  have "sx_builtins files_env u = Inr ()" for u
    by (simp add: files_env_def run_env_def sample_server_env_def)
  then show ?thesis
    using dropped_config_hides_document [OF ignoring_facts(1-3,5), THEN conjunct1]
      dropped_config_hides_document [OF ignoring_facts(1-3,5), THEN conjunct2, THEN conjunct2] by blast
qed

definition opened_late :: "(unit, unit, nat) server" where
  "opened_late = the (handle_did_open files_env ''file:///ws/p/b.rego'' ''edited'' sample_server)"

lemma late_facts:
  "''/ws/p/b.rego'' \<in> set (fst (workspace_files files_env True sample_server))"
  "workspace_uri (sv_workspace sample_server) [''/ws/p/b.rego''] = ''file:///ws/p/b.rego''"
  "workspace_uri (sv_workspace sample_server) [] \<noteq> ''''"
  "\<not> set_contains (sv_templating sample_server) [''file:///ws/p/b.rego'']"
  "handle_did_open files_env ''file:///ws/p/b.rego'' ''edited'' sample_server \<noteq> None"
  by code_simp+

lemma initial_load_overwrites_open_witness:
  "text_of opened_late ''file:///ws/p/b.rego'' = Some ''edited''
   \<and> text_of (fst (load_file files_env ''/ws/p/b.rego'' (opened_late, []))) ''file:///ws/p/b.rego'' = Some ''package p''"
proof -
  have r: "server_read files_env p = Inr ''package p''" for p by (simp add: files_env_def)
  have o: "handle_did_open files_env (workspace_uri (sv_workspace sample_server) [''/ws/p/b.rego'']) ''edited'' sample_server
      = Some opened_late"
    unfolding late_facts(2) opened_late_def by (rule option.collapse [symmetric]) (rule late_facts(5))
  note i = initial_load_overwrites_open [OF late_facts(1) r late_facts(3) _ o, unfolded late_facts(2), OF late_facts(4)]
  from i show ?thesis by blast
qed

lemma created_files_unchecked_witness:
  "\<exists>s'. handle_did_create_files files_env [''file:///ws/c.rego'', ''file:///ws/p/b.rego''] ignoring_server = Some (s', None)
     \<and> text_of s' ''file:///ws/p/b.rego'' = Some ''package p''"
proof -
  have r: "server_read files_env p = Inr ''package p''" for p by (simp add: files_env_def)
  have "\<exists>s'. handle_did_create_files files_env [''file:///ws/c.rego'', ''file:///ws/p/b.rego''] ignoring_server = Some (s', None)
      \<and> (\<forall>u. text_of s' u = (if u \<in> set [''file:///ws/c.rego'', ''file:///ws/p/b.rego'']
            \<and> \<not> ignore_uri files_env ignoring_server ''file:///ws/c.rego''
          then Some (projr (server_read files_env (to_path u))) else text_of ignoring_server u))"
    by (rule created_files_unchecked [of "[''file:///ws/c.rego'', ''file:///ws/p/b.rego'']" files_env ignoring_server,
        unfolded list.case]) (simp add: r)
  with ignoring_facts(6) r show ?thesis by (auto simp del: not_None_eq)
qed

definition renamed_server :: "(unit, unit, nat) server" where
  "renamed_server = fst (handle_did_rename_files files_env [\<lparr>NewURI = ''file:///ws/c.rego'', OldURI = ''file:///ws/a.rego''\<rparr>]
     ignoring_server)"

lemma renamed_document_moves_witness:
  "text_of renamed_server ''file:///ws/a.rego'' = None \<and> text_of renamed_server ''file:///ws/c.rego'' = Some ''q''"
proof -
  have t: "text_of ignoring_server ''file:///ws/a.rego'' = Some ''q''" by code_simp
  obtain err where h: "handle_did_rename_files files_env [\<lparr>NewURI = ''file:///ws/c.rego'', OldURI = ''file:///ws/a.rego''\<rparr>]
      ignoring_server = (renamed_server, err)"
    unfolding renamed_server_def by (metis prod.collapse)
  have ne: "''file:///ws/a.rego'' \<noteq> ''file:///ws/c.rego''" by code_simp
  from renamed_document_moves [OF t _ ne ignoring_facts(7) h] ignoring_facts(6) ne show ?thesis by simp
qed

definition unsplit_server :: "(unit, unit, nat) server" where
  "unsplit_server = fst (handle_did_rename_files files_env [\<lparr>NewURI = ''file:///ws/p/b.rego'', OldURI = ''file:///ws/c.rego''\<rparr>]
     ignoring_server)"

lemma renamed_document_unsplit_witness:
  "text_of unsplit_server ''file:///ws/p/b.rego'' = Some ''package p'' \<and> ignore_uri files_env unsplit_server ''file:///ws/p/b.rego''"
proof -
  have r: "server_read files_env p = Inr ''package p''" for p by (simp add: files_env_def)
  have t: "text_of ignoring_server ''file:///ws/c.rego'' = None" by code_simp
  obtain err where h: "handle_did_rename_files files_env [\<lparr>NewURI = ''file:///ws/p/b.rego'', OldURI = ''file:///ws/c.rego''\<rparr>]
      ignoring_server = (unsplit_server, err)"
    unfolding unsplit_server_def by (metis prod.collapse)
  have ne: "''file:///ws/c.rego'' \<noteq> ''file:///ws/p/b.rego''" by code_simp
  from renamed_document_unsplit [OF _ ne ignoring_facts(6,4) r h] t show ?thesis by simp
qed

end
