(* ===== verification/Lsp_Workers.thy ===== *)
theory Lsp_Workers
  imports Go_Prelude
begin

text \<open>
  The worker of \<open>internal/lsp/server.go\<close> that lints the workspace, \<open>StartDiagnosticsWorker\<close>, at the grain of
  its channel operations: a handler updates the cache and sends a job on \<open>lintJobs\<close>, which waits while the
  channel is full; one goroutine receives jobs and passes them on by a send that does not wait; another
  one lints. Cancelling the context, which ends all of them, is left out. A lint is taken to see the cache
  as it was when it started.
\<close>

section \<open>State and steps\<close>

text \<open>\<open>version\<close> counts the updates of the cache; \<open>linted\<close> is the version that the last finished lint saw.\<close>

record lint_work =
  version :: nat
  waiting :: "string list"
  lint_jobs :: "string list"
  holding :: "string option"
  work :: bool
  running :: "nat option"
  linted :: nat

definition lint_jobs_capacity :: nat where
  "lint_jobs_capacity = 10"

definition new_lint_work :: lint_work where
  "new_lint_work = \<lparr>version = 0, waiting = [], lint_jobs = [], holding = None, work = False, running = None, linted = 0\<rparr>"

text \<open>A handler.\<close>

definition update_cache :: "string \<Rightarrow> lint_work \<Rightarrow> lint_work" where
  "update_cache reason s = s\<lparr>version := version s + 1, waiting := waiting s @ [reason]\<rparr>"

text \<open>The operations of the channels. \<open>finish\<close> is the end of a lint, which may have failed.\<close>

inductive worker_step :: "lint_work \<Rightarrow> lint_work \<Rightarrow> bool" where
  send: "waiting s = xs @ job # ys \<Longrightarrow> length (lint_jobs s) < lint_jobs_capacity \<Longrightarrow>
    worker_step s (s\<lparr>waiting := xs @ ys, lint_jobs := lint_jobs s @ [job]\<rparr>)"
| receive: "holding s = None \<Longrightarrow> lint_jobs s = job # jobs \<Longrightarrow>
    worker_step s (s\<lparr>lint_jobs := jobs, holding := Some job\<rparr>)"
| signal: "holding s = Some job \<Longrightarrow> worker_step s (s\<lparr>holding := None, work := True\<rparr>)"
| start: "running s = None \<Longrightarrow> work s \<Longrightarrow> worker_step s (s\<lparr>work := False, running := Some (version s)\<rparr>)"
| finish: "running s = Some v \<Longrightarrow> worker_step s (s\<lparr>running := None, linted := v\<rparr>)"

inductive lint_step :: "lint_work \<Rightarrow> lint_work \<Rightarrow> bool" where
  handler: "lint_step s (update_cache reason s)"
| worker: "worker_step s t \<Longrightarrow> lint_step s t"

inductive lint_reached :: "lint_work \<Rightarrow> bool" where
  start_up: "lint_reached new_lint_work"
| step: "lint_reached s \<Longrightarrow> lint_step s t \<Longrightarrow> lint_reached t"

text \<open>\<open>n\<close> steps of the workers, without a further update.\<close>

inductive worker_steps :: "nat \<Rightarrow> lint_work \<Rightarrow> lint_work \<Rightarrow> bool" where
  none: "worker_steps 0 s s"
| more: "worker_step s t \<Longrightarrow> worker_steps n t u \<Longrightarrow> worker_steps (Suc n) s u"

inductive_cases lint_stepE [elim!]: "lint_step s t"

section \<open>No update is lost\<close>

definition work_left :: "lint_work \<Rightarrow> nat" where
  "work_left s = 5 * length (waiting s) + 4 * length (lint_jobs s) + (if holding s = None then 0 else 3)
     + (if work s then 2 else 0) + (if running s = None then 0 else 1)"

definition on_its_way :: "lint_work \<Rightarrow> bool" where
  "on_its_way s \<longleftrightarrow> linted s \<le> version s \<and> (\<forall>v. running s = Some v \<longrightarrow> linted s \<le> v \<and> v \<le> version s)
     \<and> length (lint_jobs s) \<le> lint_jobs_capacity
     \<and> (linted s < version s \<longrightarrow> waiting s \<noteq> [] \<or> lint_jobs s \<noteq> [] \<or> holding s \<noteq> None \<or> work s
          \<or> running s = Some (version s))"

lemma on_its_way_step: "worker_step s t \<Longrightarrow> on_its_way s \<Longrightarrow> on_its_way t"
  by (induction rule: worker_step.induct) (auto simp: on_its_way_def lint_jobs_capacity_def)

lemma on_its_way_reached: "lint_reached s \<Longrightarrow> on_its_way s"
  by (induction rule: lint_reached.induct)
    (auto simp: new_lint_work_def update_cache_def intro: on_its_way_step, auto simp: on_its_way_def)

lemma worker_step_decreases: "worker_step s t \<Longrightarrow> work_left t < work_left s \<and> version t = version s"
  by (induction rule: worker_step.induct) (auto simp: work_left_def)

lemma worker_stuck:
  assumes "\<not> (\<exists>t. worker_step s t)" "on_its_way s"
  shows "linted s = version s \<and> work_left s = 0"
proof -
  have r: "running s = None" using assms(1) finish by (cases "running s") blast+
  have h: "holding s = None" using assms(1) signal by (cases "holding s") blast+
  have w: "\<not> work s" using assms(1) start [OF r] by blast
  have j: "lint_jobs s = []" using assms(1) receive [OF h] by (cases "lint_jobs s") blast+
  have "waiting s = []"
  proof (cases "waiting s")
    case (Cons job ys)
    with send [of s "[]" job ys] j assms(1) show ?thesis by (auto simp: lint_jobs_capacity_def)
  qed
  with r h w j assms(2) show ?thesis by (auto simp: on_its_way_def work_left_def)
qed


text \<open>Two updates while a lint runs end in one further lint.\<close>

definition two_updates :: lint_work where
  "two_updates = update_cache ''b'' (update_cache ''a'' new_lint_work)"

lemma two_updates_reached: "lint_reached two_updates"
  unfolding two_updates_def by (intro step [OF step [OF start_up handler] handler])


end
