(* ===== verification/Config_Modify.thy ===== *)
theory Config_Modify
  imports Go_Util Config_Find Lsp_Edits "HOL-Library.Sublist"
begin

text \<open>
  \<open>pkg/config/modify/modify.go\<close>: setting a key in the text of a YAML document, and the command of the
  language server that disables a rule with it (\<open>handleIgnoreRuleCommand\<close>). Parsing and printing YAML is a
  parameter. The nodes are those of \<open>yaml.Node\<close>; the contents of a mapping, alternating keys and values
  in Go, are a list of pairs. The code changes the tree in place and gives up the whole tree on an error,
  so the functions return the new tree.
\<close>

section \<open>Nodes\<close>

datatype yaml_node =
    YScalar string string string
  | YMapping nat string "(yaml_node \<times> yaml_node) list"
  | YSequence string "yaml_node list"
  | YAlias string
  | YDocument "yaml_node list"

text \<open>A scalar has its value, its tag and its comment; a mapping its style and comment. The zero value of
  the style is the default one.\<close>

fun node_value :: "yaml_node \<Rightarrow> string" where
  "node_value (YScalar v tg com) = v"
| "node_value (YAlias name) = name"
| "node_value n = ''''"

fun is_mapping :: "yaml_node \<Rightarrow> bool" where
  "is_mapping (YMapping style com es) = True"
| "is_mapping n = False"

datatype yaml_value = VString string | VBool bool | VOther

datatype modify_error =
    EmptyPath
  | ParseFailed string
  | InvalidDocument
  | RootNoMapping
  | CannotNavigate string
  | UnsupportedType
  | EncodeFailed string

section \<open>Setting a key\<close>

fun create_node_from_value :: "yaml_value \<Rightarrow> modify_error + yaml_node" where
  "create_node_from_value (VString s) = Inr (YScalar s '''' '''')"
| "create_node_from_value (VBool b) = Inr (YScalar (if b then ''true'' else ''false'') ''!!bool'' '''')"
| "create_node_from_value VOther = Inl UnsupportedType"

definition key_node :: "string \<Rightarrow> yaml_node" where
  "key_node k = YScalar k '''' ''''"

text \<open>The first entry with the key is updated by \<open>f\<close>; without one a new entry is appended.\<close>

fun update_entry :: "string \<Rightarrow> (yaml_node option \<Rightarrow> 'e + yaml_node) \<Rightarrow> (yaml_node \<times> yaml_node) list
    \<Rightarrow> 'e + (yaml_node \<times> yaml_node) list" where
  "update_entry key f [] = bind_res (f None) (\<lambda>v. Inr [(key_node key, v)])"
| "update_entry key f ((k, v) # es) =
     (if node_value k = key then bind_res (f (Some v)) (\<lambda>v'. Inr ((k, v') # es))
      else bind_res (update_entry key f es) (\<lambda>es'. Inr ((k, v) # es')))"

text \<open>The entries of the mapping that \<open>current\<close> points to, for the rest of the path.\<close>

fun set_in_entries :: "string \<Rightarrow> string list \<Rightarrow> yaml_value \<Rightarrow> (yaml_node \<times> yaml_node) list
    \<Rightarrow> modify_error + (yaml_node \<times> yaml_node) list" where
  "set_in_entries key [] v es = update_entry key (\<lambda>old. create_node_from_value v) es"
| "set_in_entries key (next_key # path) v es =
     update_entry key (\<lambda>old. case old of
         None \<Rightarrow> bind_res (set_in_entries next_key path v []) (\<lambda>es'. Inr (YMapping 0 '''' es'))
       | Some (YMapping style com es') \<Rightarrow> bind_res (set_in_entries next_key path v es') (\<lambda>es'. Inr (YMapping 0 com es'))
       | Some n \<Rightarrow> Inl (CannotNavigate key)) es"

record yaml_env =
  yx_parse :: "string \<Rightarrow> string + yaml_node"
  yx_encode :: "yaml_node \<Rightarrow> string + string"

definition set_in_root :: "string list \<Rightarrow> yaml_value \<Rightarrow> yaml_node \<Rightarrow> modify_error + yaml_node" where
  "set_in_root path v root =
     (case path of
        [] \<Rightarrow> Inl EmptyPath
      | key # rest \<Rightarrow> (case root of
            YDocument (document # others) \<Rightarrow> (case document of
                YMapping style com es \<Rightarrow>
                  bind_res (set_in_entries key rest v es) (\<lambda>es'. Inr (YDocument (YMapping style com es' # others)))
              | _ \<Rightarrow> Inl RootNoMapping)
          | _ \<Rightarrow> Inl InvalidDocument))"

definition set_key :: "yaml_env \<Rightarrow> string \<Rightarrow> string list \<Rightarrow> yaml_value \<Rightarrow> modify_error + string" where
  "set_key env yamlContent path v =
     (if path = [] then Inl EmptyPath
      else case yx_parse env yamlContent of
        Inl e \<Rightarrow> Inl (ParseFailed e)
      | Inr root \<Rightarrow> bind_res (set_in_root path v root) (\<lambda>root.
          case yx_encode env root of Inl e \<Rightarrow> Inl (EncodeFailed e) | Inr s \<Rightarrow> Inr s))"

section \<open>Disabling a rule\<close>

datatype ignore_rule_error =
    DiagnosticRequired
  | CreateDirFailed string
  | ModifyFailed modify_error
  | WriteFailed string

text \<open>What the command does to the disk, as far as it got: a directory that it creates, then the file that it
  writes. \<open>mk\<close> and \<open>wr\<close> say whether that fails. A diagnostic without a source is a panic.\<close>

definition handle_ignore_rule_command :: "yaml_env \<Rightarrow> ('q, 'st, 'r, 'g, 'b, 'd) server_env \<Rightarrow> (string \<Rightarrow> string option)
    \<Rightarrow> (string \<Rightarrow> string option) \<Rightarrow> ('r, 'b, 'd) server \<Rightarrow> command_args
    \<Rightarrow> (string list \<times> (string \<times> string) list \<times> ignore_rule_error option) option" where
  "handle_ignore_rule_command yenv env mk wr s args =
     (case ca_diagnostic args of
        None \<Rightarrow> Some ([], [], Some DiagnosticRequired)
      | Some d \<Rightarrow>
          let ws = sv_workspace s; regalDir = workspace_path ws [''.regal'']; created = workspace_path ws [''.regal'', ''config.yaml'']
          in Option.bind (find_config (server_fs env) (workspace_path ws [])) (\<lambda>found.
            case (case found of
                Inr f \<Rightarrow> ([], Inr f)
              | Inl e \<Rightarrow> (case mk regalDir of Some e \<Rightarrow> ([regalDir], Inl (CreateDirFailed e)) | None \<Rightarrow> ([regalDir], Inr created))) of
              (dirs, Inl e) \<Rightarrow> Some (dirs, [], Some e)
            | (dirs, Inr configPath) \<Rightarrow>
                let content = (case server_read env configPath of Inr c \<Rightarrow> c | Inl e \<Rightarrow> '''');
                    content = (if trim_space content = '''' then ''rules: {}'' @ [newline] else content)
                in (case Source d of
                      None \<Rightarrow> None
                    | Some src \<Rightarrow> (case set_key yenv content [''rules'', trim_prefix src ''regal/'', Code d, ''level''] (VString ''ignore'') of
                        Inl e \<Rightarrow> Some (dirs, [], Some (ModifyFailed e))
                      | Inr newContent \<Rightarrow> Some (dirs, [(configPath, newContent)], map_option WriteFailed (wr configPath))))))"

section \<open>Reading a node by a path\<close>

fun entry_at :: "string \<Rightarrow> (yaml_node \<times> yaml_node) list \<Rightarrow> yaml_node option" where
  "entry_at key [] = None"
| "entry_at key ((k, v) # es) = (if node_value k = key then Some v else entry_at key es)"

fun node_at :: "string list \<Rightarrow> yaml_node \<Rightarrow> yaml_node option" where
  "node_at [] n = Some n"
| "node_at (key # path) (YMapping style com es) = Option.bind (entry_at key es) (node_at path)"
| "node_at (key # path) n = None"

lemma update_entry_at:
  assumes "update_entry key f es = Inr es'"
  shows "\<exists>v. f (entry_at key es) = Inr v \<and> entry_at key es' = Some v"
    and "k \<noteq> key \<Longrightarrow> entry_at k es' = entry_at k es"
  using assms
  by (induction es arbitrary: es') (auto simp: bind_res_eq_Inr key_node_def split: if_splits)

lemma update_entry_error: "update_entry key f es = Inl e \<longleftrightarrow> f (entry_at key es) = Inl e"
proof (induction es)
  case (Cons kv es)
  then show ?case by (cases kv) (auto simp: bind_res_def split: sum.splits if_splits)
qed (auto simp: bind_res_def split: sum.splits)

lemma set_in_entries_at:
  "set_in_entries key rest v es = Inr es' \<Longrightarrow>
    \<exists>n. create_node_from_value v = Inr n \<and> node_at (key # rest) (YMapping style com es') = Some n"
proof (induction key rest v es arbitrary: es' style com rule: set_in_entries.induct)
  case (1 key v es)
  from update_entry_at(1) [OF 1 [unfolded set_in_entries.simps]] show ?case by auto
next
  case (2 key next_key path v es)
  from update_entry_at(1) [OF 2(3) [unfolded set_in_entries.simps]] obtain c where
    c: "(case entry_at key es of
         None \<Rightarrow> bind_res (set_in_entries next_key path v []) (\<lambda>es'. Inr (YMapping 0 '''' es'))
       | Some (YMapping style com es') \<Rightarrow> bind_res (set_in_entries next_key path v es') (\<lambda>es'. Inr (YMapping 0 com es'))
       | Some n \<Rightarrow> Inl (CannotNavigate key)) = Inr c" "entry_at key es' = Some c" by blast
  show ?case
  proof (cases "entry_at key es")
    case None
    with c obtain es1 where "set_in_entries next_key path v [] = Inr es1" "c = YMapping 0 '''' es1"
      by (auto simp: bind_res_eq_Inr)
    with 2(1) c(2) show ?thesis by simp
  next
    case (Some n)
    with c(1) obtain st co es0 es1 where "n = YMapping st co es0" "set_in_entries next_key path v es0 = Inr es1"
      "c = YMapping 0 co es1" by (cases n) (auto simp: bind_res_eq_Inr)
    with 2(2) c(2) show ?thesis by simp
  qed
qed

text \<open>Every path that neither leads to the place nor starts there reads what it read before.\<close>

lemma set_in_entries_frame:
  "set_in_entries key rest v es = Inr es' \<Longrightarrow> \<not> prefix p (key # rest) \<Longrightarrow> \<not> prefix (key # rest) p \<Longrightarrow>
    node_at p (YMapping style com es') = node_at p (YMapping style' com' es)"
proof (induction key rest v es arbitrary: es' style com style' com' p rule: set_in_entries.induct)
  case (1 key v es)
  then obtain k q where p: "p = k # q" "k \<noteq> key" by (cases p) auto
  from update_entry_at(2) [OF 1(1) [unfolded set_in_entries.simps] p(2)] p show ?case by simp
next
  case (2 key next_key path v es)
  then obtain k q where p: "p = k # q" by (cases p) auto
  note u = 2(3) [unfolded set_in_entries.simps]
  show ?case
  proof (cases "k = key")
    case False
    from update_entry_at(2) [OF u False] p show ?thesis by simp
  next
    case True
    with p 2(4,5) have q: "\<not> prefix q (next_key # path)" "\<not> prefix (next_key # path) q" by auto
    then obtain k' q' where q': "q = k' # q'" by (cases q) auto
    from update_entry_at(1) [OF u] obtain c where
      c: "(case entry_at key es of
           None \<Rightarrow> bind_res (set_in_entries next_key path v []) (\<lambda>es'. Inr (YMapping 0 '''' es'))
         | Some (YMapping style com es') \<Rightarrow> bind_res (set_in_entries next_key path v es') (\<lambda>es'. Inr (YMapping 0 com es'))
         | Some n \<Rightarrow> Inl (CannotNavigate key)) = Inr c" "entry_at key es' = Some c" by blast
    show ?thesis
    proof (cases "entry_at key es")
      case None
      with c obtain es1 where "set_in_entries next_key path v [] = Inr es1" "c = YMapping 0 '''' es1"
        by (auto simp: bind_res_eq_Inr)
      with 2(1) [OF this(1) q, of 0 "''''" 0 "''''"] c(2) p True None q' show ?thesis by simp
    next
      case (Some n)
      with c(1) obtain st co es0 es1 where n: "n = YMapping st co es0" "set_in_entries next_key path v es0 = Inr es1"
        "c = YMapping 0 co es1" by (cases n) (auto simp: bind_res_eq_Inr)
      with 2(2) [OF n(2) q, of 0 co st co] c(2) p True Some show ?thesis by simp
    qed
  qed
qed

text \<open>It fails on an unsupported value, or when a key on the way has a value that is not a mapping.\<close>

lemma strict_prefix_Cons_iff:
  "strict_prefix q (k # path) \<longleftrightarrow> q = [] \<or> (\<exists>q'. q = k # q' \<and> strict_prefix q' path)"
  by (cases q) (auto simp: strict_prefix_def)

lemma node_at_none: "node_at q (YMapping s c []) = (if q = [] then Some (YMapping s c []) else None)"
  by (cases q) auto

lemma set_in_entries_error:
  "(\<exists>e. set_in_entries key rest v es = Inl e) \<longleftrightarrow>
    v = VOther \<or> (\<exists>q n. strict_prefix q (key # rest) \<and> node_at q (YMapping style com es) = Some n \<and> \<not> is_mapping n)"
proof (induction key rest v es arbitrary: style com rule: set_in_entries.induct)
  case (1 key v es)
  have "strict_prefix q [key] \<longleftrightarrow> q = []" for q by (simp add: strict_prefix_Cons_iff)
  then show ?case by (cases v) (simp_all add: update_entry_error)
next
  case (2 key next_key path v es)
  define g where "g = (\<lambda>old. case old of
           None \<Rightarrow> bind_res (set_in_entries next_key path v []) (\<lambda>es'. Inr (YMapping 0 '''' es'))
         | Some (YMapping style com es') \<Rightarrow> bind_res (set_in_entries next_key path v es') (\<lambda>es'. Inr (YMapping 0 com es'))
         | Some n \<Rightarrow> Inl (CannotNavigate key))"
  have e: "(\<exists>e. set_in_entries key (next_key # path) v es = Inl e) \<longleftrightarrow> (\<exists>e. g (entry_at key es) = Inl e)"
    by (simp add: update_entry_error g_def)
  let ?R = "\<lambda>p m. \<exists>q n. strict_prefix q p \<and> node_at q m = Some n \<and> \<not> is_mapping n"
  have r: "?R (key # next_key # path) (YMapping style com es) \<longleftrightarrow>
      (case entry_at key es of None \<Rightarrow> False | Some m \<Rightarrow> ?R (next_key # path) m)"
    by (auto simp: strict_prefix_Cons_iff [of _ key] split: option.split)
  show ?case
  proof (cases "entry_at key es")
    case None
    have "(\<exists>e. g None = Inl e) \<longleftrightarrow> (\<exists>e. set_in_entries next_key path v [] = Inl e)"
      by (auto simp: g_def bind_res_def split: sum.splits)
    also have "\<dots> \<longleftrightarrow> v = VOther" unfolding 2(1) [of 0 "''''"] by (auto simp: node_at_none split: if_splits)
    finally show ?thesis unfolding e r None by simp
  next
    case (Some m)
    show ?thesis
    proof (cases m)
      case (YMapping st co es0)
      have "(\<exists>e. g (Some m) = Inl e) \<longleftrightarrow> (\<exists>e. set_in_entries next_key path v es0 = Inl e)"
        by (auto simp: g_def YMapping bind_res_def split: sum.splits)
      also have "\<dots> \<longleftrightarrow> v = VOther \<or> ?R (next_key # path) m" unfolding YMapping by (rule 2(2))
      finally show ?thesis unfolding e r Some by simp
    next
      case (YScalar a b c)
      then have "?R (next_key # path) m" by (intro exI [of _ "[]"] exI [of _ m]) simp
      then show ?thesis unfolding e r Some by (simp add: g_def YScalar)
    next
      case (YSequence a b)
      then have "?R (next_key # path) m" by (intro exI [of _ "[]"] exI [of _ m]) simp
      then show ?thesis unfolding e r Some by (simp add: g_def YSequence)
    next
      case (YAlias a)
      then have "?R (next_key # path) m" by (intro exI [of _ "[]"] exI [of _ m]) simp
      then show ?thesis unfolding e r Some by (simp add: g_def YAlias)
    next
      case (YDocument a)
      then have "?R (next_key # path) m" by (intro exI [of _ "[]"] exI [of _ m]) simp
      then show ?thesis unfolding e r Some by (simp add: g_def YDocument)
    qed
  qed
qed

text \<open>C20. What \<open>SetKey\<close> does to the document when it succeeds: the path leads to a fresh node of the value,
  without the comment that the old one had, and every path that neither leads to the place nor starts
  there reads what it read before.\<close>

theorem set_key_sets:
  assumes "set_key env content path v = Inr text"
  shows "\<exists>doc doc' others n.
      yx_parse env content = Inr (YDocument (doc # others)) \<and> yx_encode env (YDocument (doc' # others)) = Inr text
    \<and> create_node_from_value v = Inr n \<and> node_at path doc' = Some n
    \<and> (\<forall>p. prefix p path \<or> prefix path p \<or> node_at p doc' = node_at p doc)"
proof -
  obtain key rest where path: "path = key # rest" using assms by (cases path) (auto simp: set_key_def)
  obtain root root' where r: "yx_parse env content = Inr root" "set_in_root path v root = Inr root'"
      "yx_encode env root' = Inr text"
    using assms path
    by (cases "yx_parse env content"; cases "set_in_root path v (projr (yx_parse env content))";
        cases "yx_encode env (projr (set_in_root path v (projr (yx_parse env content))))") (auto simp: set_key_def)
  then obtain style com es others es' where e: "root = YDocument (YMapping style com es # others)"
      "set_in_entries key rest v es = Inr es'" "root' = YDocument (YMapping style com es' # others)"
    using path by (auto simp: set_in_root_def bind_res_eq_Inr split: yaml_node.splits list.splits)
  from set_in_entries_at [OF e(2), of style com] obtain n where
    "create_node_from_value v = Inr n" "node_at path (YMapping style com es') = Some n" unfolding path by blast
  moreover have "prefix p path \<or> prefix path p \<or> node_at p (YMapping style com es') = node_at p (YMapping style com es)" for p
    using set_in_entries_frame [OF e(2)] unfolding path by blast
  ultimately show ?thesis using r(1,3) unfolding e(1,3) by blast
qed

definition plain_entries :: "(yaml_node \<times> yaml_node) list" where
  "plain_entries = [(key_node ''rules'', YMapping 0 ''''
       [(key_node ''style'', YScalar '''' ''!!null'' ''''),
        (key_node ''bugs'', YMapping 0 '''' [(key_node ''r'', YMapping 0 ''''
          [(key_node ''level'', YScalar ''error'' '''' ''# keep'')])])])]"

definition plain_yaml :: yaml_env where
  "plain_yaml = \<lparr>yx_parse = \<lambda>s. Inr (YDocument [YMapping 0 '''' plain_entries]), yx_encode = \<lambda>n. Inr ''printed''\<rparr>"

lemma set_key_sets_witness:
  "\<exists>doc' others. yx_encode plain_yaml (YDocument (doc' # others)) = Inr ''printed''
     \<and> node_at [''rules'', ''bugs'', ''r'', ''level''] doc' = Some (YScalar ''ignore'' '''' '''')"
proof -
  have "set_key plain_yaml ''text'' [''rules'', ''bugs'', ''r'', ''level''] (VString ''ignore'') = Inr ''printed''"
    by code_simp
  from set_key_sets [OF this] show ?thesis by auto
qed

text \<open>When \<open>SetKey\<close> fails on a document that is a mapping: the value is neither a string nor a boolean, a
  key on the way to the place has a value that is no mapping, or the printer fails. So a rule cannot be
  disabled in a file in which its category is there but empty, which YAML reads as null.\<close>

theorem set_key_fails_iff:
  assumes "yx_parse env content = Inr (YDocument (YMapping style com es # others))" "path \<noteq> []"
    and "\<And>n. \<exists>text. yx_encode env n = Inr text"
  shows "(\<exists>e. set_key env content path v = Inl e) \<longleftrightarrow>
    v = VOther \<or> (\<exists>q n. strict_prefix q path \<and> node_at q (YMapping style com es) = Some n \<and> \<not> is_mapping n)"
proof -
  obtain key rest where path: "path = key # rest" using assms(2) by (cases path) auto
  have "(\<exists>e. set_key env content path v = Inl e) \<longleftrightarrow> (\<exists>e. set_in_entries key rest v es = Inl e)"
  proof (cases "set_in_entries key rest v es")
    case (Inr es')
    obtain out where "yx_encode env (YDocument (YMapping style com es' # others)) = Inr out" using assms(3) by blast
    with Inr assms(1) show ?thesis by (simp add: set_key_def set_in_root_def path)
  qed (use assms(1) in \<open>simp add: set_key_def set_in_root_def path\<close>)
  then show ?thesis unfolding path set_in_entries_error [of key rest v es style com] .
qed

lemma set_key_fails_iff_witness:
  "\<exists>e. set_key plain_yaml ''text'' [''rules'', ''style'', ''r'', ''level''] (VString ''ignore'') = Inl e"
proof -
  have p: "yx_parse plain_yaml ''text'' = Inr (YDocument (YMapping 0 '''' plain_entries # []))" by (simp add: plain_yaml_def)
  have n: "node_at [''rules'', ''style''] (YMapping 0 '''' plain_entries) = Some (YScalar '''' ''!!null'' '''')" by code_simp
  have s: "strict_prefix [''rules'', ''style''] [''rules'', ''style'', ''r'', ''level'']" by (simp add: strict_prefix_def)
  have e: "\<exists>out. yx_encode plain_yaml n = Inr out" for n by (simp add: plain_yaml_def)
  show ?thesis
    unfolding set_key_fails_iff [OF p list.distinct(2) e]
    by (intro disjI2 exI conjI, rule s, rule n) simp
qed

end
