(* ===== verification/Reporter.thy ===== *)
theory Reporter
  imports Fixer
begin

text \<open>
  \<open>pkg/reporter/reporter.go\<close>: the reporters that publish a report of the linter. A reporter writes its
  texts one by one to a writer, \<open>rp_write\<close>, which gives the error of a failed write or the new state of
  the output. The table, SARIF, JUnit and JSON libraries are functions of what the code hands to them:
  rows of cells, the calls that build a SARIF run, and test suites. Colours, the environment variables
  and the order in which Go iterates over a map are parameters too.
\<close>

section \<open>What the reporters hand to their libraries\<close>

record sarif_region =
  StartLine :: int
  StartColumn :: int
  EndPosition :: "(int \<times> int) option"

record sarif_location =
  ArtifactLocation :: string
  Region :: "sarif_region option"

datatype sarif_call =
    AddRule string string "string option" string
  | AddDistinctArtifact string
  | CreateResultForRule string "string option" string string "sarif_location option"

record junit_failure =
  Message :: string
  FailureType :: string
  Data :: string

record junit_testcase =
  TestName :: string
  Classname :: string
  Failure :: junit_failure

record junit_testsuite =
  SuiteName :: string
  Testcases :: "junit_testcase list"

record 'o reporter_env =
  rp_write :: "string \<Rightarrow> 'o \<Rightarrow> string + 'o"
  rp_standalone :: bool
  rp_no_color :: bool
  rp_yellow :: "string \<Rightarrow> string"
  rp_cyan :: "string \<Rightarrow> string"
  rp_red :: "string \<Rightarrow> string"
  rp_table :: "string list list \<Rightarrow> string"
  rp_compact_table :: "string list \<Rightarrow> string list list \<Rightarrow> string"
  rp_json :: "report \<Rightarrow> string + string"
  rp_sarif :: "sarif_call list \<Rightarrow> string + string"
  rp_junit :: "string \<Rightarrow> junit_testsuite list \<Rightarrow> string + string"
  rp_ci :: string
  rp_holidays :: "string option"
  rp_step_summary :: "string option"
  rp_append :: "string \<Rightarrow> string \<Rightarrow> 'o \<Rightarrow> string + 'o"
  rp_range :: "(string, string) gomap \<Rightarrow> (string \<times> string) list"

definition nl :: string where
  "nl = [CHR 0x0A]"

section \<open>Helpers\<close>

definition pluralize :: "string \<Rightarrow> int \<Rightarrow> string" where
  "pluralize singular n = (if n = 1 then singular else singular @ ''s'')"

fun get_documentation_url_in :: "related_resource list \<Rightarrow> string" where
  "get_documentation_url_in [] = ''''"
| "get_documentation_url_in (resource # rs) =
     (if rr_description resource = ''documentation'' then rr_reference resource
      else get_documentation_url_in rs)"

definition get_documentation_url :: "violation \<Rightarrow> string" where
  "get_documentation_url v = get_documentation_url_in (v_resources v)"

definition get_unique_violation_urls :: "violation list \<Rightarrow> (string, string) gomap" where
  "get_unique_violation_urls vs =
     foldl (\<lambda>urls v. map_set urls (v_description v) (get_documentation_url v)) [] vs"

section \<open>Pretty\<close>

definition text_cell :: "string \<Rightarrow> string" where
  "text_cell t = (if length t > 117 then take 117 t @ ''...'' else trim_space t)"

definition violation_rows :: "'o reporter_env \<Rightarrow> violation \<Rightarrow> string list list" where
  "violation_rows env v =
     (let description = (if v_level v = ''warning'' then rp_yellow env (v_description v)
                         else rp_red env (v_description v))
      in [[rp_yellow env ''Rule:'', v_title v]]
         @ (if rp_no_color env then [[''Level:'', v_level v]] else [])
         @ [[rp_yellow env ''Description:'', description],
            [rp_yellow env ''Category:'', v_category v],
            [rp_yellow env ''Location:'', rp_cyan env (location_string (v_location v))]]
         @ (case l_text (v_location v) of
              Some t \<Rightarrow> [[rp_yellow env ''Text:'', text_cell t]]
            | None \<Rightarrow> [])
         @ [[rp_yellow env ''Documentation:'', rp_cyan env (get_documentation_url v)]])"

fun violations_rows :: "'o reporter_env \<Rightarrow> violation list \<Rightarrow> string list list" where
  "violations_rows env [] = []"
| "violations_rows env (v # vs) =
     violation_rows env v @ (if vs \<noteq> [] then [['''']] else []) @ violations_rows env vs"

definition build_pretty_violations_table :: "'o reporter_env \<Rightarrow> violation list \<Rightarrow> string" where
  "build_pretty_violations_table env vs =
     rp_table env (violations_rows env vs) @ (if 0 < length vs then nl else '''')"

definition level_count :: "string \<Rightarrow> violation list \<Rightarrow> int" where
  "level_count lvl vs = foldl (\<lambda>n v. if v_level v = lvl then n + 1 else n) 0 vs"

definition violations_footer :: "summary \<Rightarrow> int \<Rightarrow> int \<Rightarrow> string" where
  "violations_footer s numsWarning numsError =
     (if NumViolations s = 0 then '' No violations found.''
      else '' '' @ itoa_int (NumViolations s) @ '' '' @ pluralize ''violation'' (NumViolations s) @ '' ''
        @ (if 0 < numsWarning then
             ''('' @ itoa_int numsError @ '' '' @ pluralize ''error'' numsError @ '', ''
               @ itoa_int numsWarning @ '' '' @ pluralize ''warning'' numsWarning @ '') found''
           else ''found'')
        @ (if 1 < FilesScanned s \<and> 0 < FilesFailed s then
             '' in '' @ itoa_int (FilesFailed s) @ '' '' @ pluralize ''file'' (FilesFailed s) @ ''.''
           else ''.''))"

definition skipped_notices :: "notice list \<Rightarrow> string" where
  "skipped_notices ns = concat (map (\<lambda>n.
     if n_severity n = ''none'' then '''' else ''- '' @ n_title n @ '': '' @ n_description n @ nl) ns)"

definition pretty_footer :: "report \<Rightarrow> string" where
  "pretty_footer r =
     itoa_int (FilesScanned (Summary r)) @ '' '' @ pluralize ''file'' (FilesScanned (Summary r)) @ '' linted.''
     @ violations_footer (Summary r) (level_count ''warning'' (Violations r)) (level_count ''error'' (Violations r))
     @ (if 0 < RulesSkipped (Summary r) then
          '' '' @ itoa_int (RulesSkipped (Summary r)) @ '' '' @ pluralize ''rule'' (RulesSkipped (Summary r))
            @ '' skipped:'' @ nl @ skipped_notices (Notices r)
        else '''')"

text \<open>The names of the fixes for the violations of a report, and how many violations have one.\<close>

definition fixable_violations :: "violation list \<Rightarrow> string gset \<times> int" where
  "fixable_violations vs =
     (let f = register_fixes default_fixes new_fixer
      in foldl (\<lambda>(fixable, count) v.
           (case get_fix_for_name f (v_title v) of
              Some fx \<Rightarrow> (set_add fixable [fix_name fx], count + 1)
            | None \<Rightarrow> (fixable, count))) (new_set [], 0) vs)"

definition fix_hint :: "report \<Rightarrow> string option" where
  "fix_hint r =
     (let (fixable, count) = fixable_violations (Violations r)
      in if 0 < set_size fixable then
           Some (nl @ ''Hint: '' @ itoa_int count @ ''/'' @ itoa_int (NumViolations (Summary r))
             @ '' violations can be automatically fixed ('' @ join_str '', '' (sorted_slice (set_items fixable))
             @ '')'' @ nl @ ''      Run regal fix --help for more details.'' @ nl)
         else None)"

definition publish_pretty :: "'o reporter_env \<Rightarrow> report \<Rightarrow> 'o \<Rightarrow> string + 'o" where
  "publish_pretty env r out =
     bind_res (rp_write env (build_pretty_violations_table env (Violations r) @ pretty_footer r @ nl) out) (\<lambda>out.
       if \<not> rp_standalone env then Inr out
       else (case fix_hint r of Some hint \<Rightarrow> rp_write env hint out | None \<Rightarrow> Inr out))"

definition publish_festive :: "'o reporter_env \<Rightarrow> report \<Rightarrow> 'o \<Rightarrow> string + 'o" where
  "publish_festive env r out =
     (case (if rp_ci env = '''' \<and> length (Violations r) = 0 then rp_holidays env else None) of
        Some err \<Rightarrow> Inl err
      | None \<Rightarrow> publish_pretty env r out)"

section \<open>Compact and JSON\<close>

definition publish_compact :: "'o reporter_env \<Rightarrow> report \<Rightarrow> 'o \<Rightarrow> string + 'o" where
  "publish_compact env r out =
     (if length (Violations r) = 0 then rp_write env nl out
      else
        (let table = rp_compact_table env [''Location'', ''Description'']
               (map (\<lambda>v. [location_string (v_location v), v_description v]) (Violations r));
             s = Summary r;
             summary = itoa_int (FilesScanned s) @ '' '' @ pluralize ''file'' (FilesScanned s) @ '' linted , ''
               @ itoa_int (NumViolations s) @ '' '' @ pluralize ''violation'' (NumViolations s) @ '' found.''
         in rp_write env (table @ '' '' @ summary @ nl) out))"

definition publish_json :: "'o reporter_env \<Rightarrow> report \<Rightarrow> 'o \<Rightarrow> string + 'o" where
  "publish_json env r out = bind_res (rp_json env r) (\<lambda>bs. rp_write env bs out)"

section \<open>GitHub\<close>

definition annotation :: "violation \<Rightarrow> string" where
  "annotation v =
     ''::'' @ v_level v @ '' file='' @ l_file (v_location v) @ '',line='' @ itoa_int (l_row (v_location v))
       @ '',col='' @ itoa_int (l_col (v_location v)) @ ''::'' @ v_description v @ ''. To learn more, see: ''
       @ get_documentation_url v @ nl"

definition write_all :: "'o reporter_env \<Rightarrow> string list \<Rightarrow> 'o \<Rightarrow> string + 'o" where
  "write_all env ts out = foldl (\<lambda>acc t. bind_res acc (rp_write env t)) (Inr out) ts"

definition step_summary :: "'o reporter_env \<Rightarrow> report \<Rightarrow> string" where
  "step_summary env r =
     (let s = Summary r in
      ''### Regal Lint Report'' @ nl @ nl
      @ itoa_int (FilesScanned s) @ '' '' @ pluralize ''file'' (FilesScanned s) @ '' linted.''
      @ (if NumViolations s = 0 then '' No violations found''
         else '' '' @ itoa_int (NumViolations s) @ '' '' @ pluralize ''violation'' (NumViolations s) @ '' found''
           @ (if 1 < FilesScanned s \<and> 0 < FilesFailed s then
                '' in '' @ itoa_int (FilesFailed s) @ '' '' @ pluralize ''file'' (FilesFailed s) @ ''.''
                @ '' See Files tab in PR for locations and details.'' @ nl @ nl
                @ ''#### Violations'' @ nl @ nl
                @ concat (map (\<lambda>(description, url). ''* ['' @ description @ '']('' @ url @ '')'' @ nl)
                    (rp_range env (get_unique_violation_urls (Violations r))))
              else '''')))"

definition publish_github :: "'o reporter_env \<Rightarrow> report \<Rightarrow> 'o \<Rightarrow> string + 'o" where
  "publish_github env r out =
     bind_res (publish_pretty env r out) (\<lambda>out.
     bind_res (write_all env (map annotation (Violations r)) out) (\<lambda>out.
       (case rp_step_summary env of
          Some summaryFileLoc \<Rightarrow>
            if summaryFileLoc \<noteq> '''' then rp_append env summaryFileLoc (step_summary env r) out else Inr out
        | None \<Rightarrow> Inr out)))"

section \<open>SARIF\<close>

definition get_location :: "violation \<Rightarrow> sarif_location" where
  "get_location v =
     (let l = v_location v;
          region = \<lparr>StartLine = l_row l, StartColumn = l_col l,
            EndPosition = map_option (\<lambda>p. (pos_row p, pos_col p)) (l_end l)\<rparr>
      in \<lparr>ArtifactLocation = l_file l,
          Region = (if 0 < l_row l \<and> 0 < l_col l then Some region else None)\<rparr>)"

definition sarif_violation :: "violation \<Rightarrow> sarif_call list" where
  "sarif_violation v =
     [AddRule (v_title v) (v_description v) (Some (get_documentation_url v)) (v_category v),
      AddDistinctArtifact (l_file (v_location v)),
      CreateResultForRule (v_title v) None (v_level v) (v_description v) (Some (get_location v))]"

definition sarif_notice :: "notice \<Rightarrow> sarif_call list" where
  "sarif_notice n =
     (if n_severity n = ''none'' then []
      else [AddRule (n_title n) (n_description n) None (n_category n),
            CreateResultForRule (n_title n) (Some ''informational'') ''none'' (n_description n) None])"

definition sarif_run :: "report \<Rightarrow> sarif_call list" where
  "sarif_run r = concat (map sarif_violation (Violations r)) @ concat (map sarif_notice (Notices r))"

definition publish_sarif :: "'o reporter_env \<Rightarrow> report \<Rightarrow> 'o \<Rightarrow> string + 'o" where
  "publish_sarif env r out = bind_res (rp_sarif env (sarif_run r)) (\<lambda>bs. rp_write env bs out)"

section \<open>JUnit\<close>

definition junit_case :: "violation \<Rightarrow> junit_testcase" where
  "junit_case v =
     (let txt' = (case l_text (v_location v) of Some t \<Rightarrow> trim_space t | None \<Rightarrow> '''')
      in \<lparr>TestName = v_category v @ ''/'' @ v_title v @ '': '' @ v_description v,
          Classname = location_string (v_location v),
          Failure = \<lparr>
            Message = v_description v @ ''. To learn more, see: '' @ get_documentation_url v,
            FailureType = v_level v,
            Data = ''Rule: '' @ v_title v @ nl @ ''Description: '' @ v_description v @ nl
              @ ''Category: '' @ v_category v @ nl @ ''Location: '' @ location_string (v_location v) @ nl
              @ ''Text: '' @ txt' @ nl @ ''Documentation: '' @ get_documentation_url v\<rparr>\<rparr>)"

definition group_by_file :: "violation list \<Rightarrow> string list \<times> (string, violation list) gomap" where
  "group_by_file vs = foldl (\<lambda>(files, perFile) v.
     (files @ [l_file (v_location v)],
      map_set perFile (l_file (v_location v)) (map_get_or perFile (l_file (v_location v)) [] @ [v])))
     ([], []) vs"

definition junit_suites :: "report \<Rightarrow> junit_testsuite list" where
  "junit_suites r =
     (let (files, violationsPerFile) = group_by_file (Violations r)
      in map (\<lambda>f. \<lparr>SuiteName = f, Testcases = map junit_case (map_get_or violationsPerFile f [])\<rparr>)
           (sorted_slice files))"

definition publish_junit :: "'o reporter_env \<Rightarrow> report \<Rightarrow> 'o \<Rightarrow> string + 'o" where
  "publish_junit env r out = bind_res (rp_junit env ''regal'' (junit_suites r)) (\<lambda>bs. rp_write env bs out)"

section \<open>Lemmas\<close>

abbreviation file_of :: "violation \<Rightarrow> string" where
  "file_of v \<equiv> l_file (v_location v)"

lemma group_by_file_loop:
  "fst (foldl (\<lambda>(files, perFile) v.
       (files @ [file_of v], map_set perFile (file_of v) (map_get_or perFile (file_of v) [] @ [v]))) (files, perFile) vs)
     = files @ map file_of vs"
  "map_get_or (snd (foldl (\<lambda>(files, perFile) v.
       (files @ [file_of v], map_set perFile (file_of v) (map_get_or perFile (file_of v) [] @ [v]))) (files, perFile) vs)) f []
     = map_get_or perFile f [] @ filter (\<lambda>v. file_of v = f) vs"
  by (induction vs arbitrary: files perFile) auto

lemma group_by_file_result:
  "fst (group_by_file vs) = map file_of vs"
  "map_get_or (snd (group_by_file vs)) f [] = filter (\<lambda>v. file_of v = f) vs"
  by (simp_all add: group_by_file_def group_by_file_loop) (simp add: map_get_or_def)

definition suite_of :: "violation list \<Rightarrow> string \<Rightarrow> junit_testsuite" where
  "suite_of vs f = \<lparr>SuiteName = f, Testcases = map junit_case (filter (\<lambda>v. file_of v = f) vs)\<rparr>"

lemma junit_suites_eq: "junit_suites r = map (suite_of (Violations r)) (sort (map file_of (Violations r)))"
  by (simp add: junit_suites_def split_beta group_by_file_result suite_of_def sorted_slice_def)

lemma count_files: "length (filter (\<lambda>v. g v = f) vs) = count_list (map g vs) f"
  by (induction vs) auto

lemma junit_cases_total:
  "(\<Sum>s\<leftarrow>junit_suites r. length (Testcases s))
     = (\<Sum>f\<in>file_of ` set (Violations r). (count_list (map file_of (Violations r)) f)\<^sup>2)"
proof -
  let ?vs = "Violations r" and ?fs = "map file_of (Violations r)"
  have "(\<Sum>s\<leftarrow>junit_suites r. length (Testcases s)) = (\<Sum>f\<leftarrow>sort ?fs. count_list ?fs f)"
    by (simp add: junit_suites_eq suite_of_def comp_def count_files)
  also have "\<dots> = sum_mset (image_mset (count_list ?fs) (mset ?fs))"
    by (simp flip: sum_mset_sum_list)
  also have "\<dots> = (\<Sum>f\<leftarrow>?fs. count_list ?fs f)"
    by (simp only: mset_map [symmetric] sum_mset_sum_list)
  also have "\<dots> = (\<Sum>f\<in>set ?fs. count_list ?fs f * count_list ?fs f)"
    by (rule sum_list_map_eq_sum_count)
  finally show ?thesis by (simp add: power2_eq_square)
qed

lemma counts_square:
  "(\<Sum>x\<in>set xs. (count_list xs x)\<^sup>2) = length xs \<longleftrightarrow> distinct xs"
proof
  assume sum: "(\<Sum>x\<in>set xs. (count_list xs x)\<^sup>2) = length xs"
  show "distinct xs"
  proof (rule ccontr)
    assume "\<not> distinct xs"
    then obtain y where y: "y \<in> set xs" "1 < count_list xs y"
      by (metis One_nat_def count_list_0_iff distinct_count_atmost_1 count_mset less_one linorder_neqE_nat
          set_mset_mset count_eq_zero_iff)
    have "(\<Sum>x\<in>set xs. count_list xs x) < (\<Sum>x\<in>set xs. (count_list xs x)\<^sup>2)"
      by (rule sum_strict_mono_ex1) (use y in \<open>auto simp: power2_eq_square intro!: bexI [of _ y]\<close>)
    with sum sum_count_set [of xs "set xs"] show False by simp
  qed
next
  assume d: "distinct xs"
  then have "count_list xs x = 1" if "x \<in> set xs" for x
    using that by (induction xs) (auto simp: count_list_0_iff)
  with d show "(\<Sum>x\<in>set xs. (count_list xs x)\<^sup>2) = length xs" by (simp add: distinct_card)
qed

text \<open>The JUnit report of a lint has, in the order of the file names, one suite for every
  violation, named by its file, and each has all the violations of that file, as the list of the files
  is sorted but not freed of duplicates: a file with k violations is reported in k equal suites, k * k
  test cases in all, and the report has a test case for each violation only when no two are in one
  file.\<close>

theorem junit_repeats_files:
  "let vs = Violations r; suites = junit_suites r; cases = (\<Sum>s\<leftarrow>suites. length (Testcases s)) in
     sorted (map SuiteName suites)
     \<and> mset (map SuiteName suites) = image_mset (\<lambda>v. l_file (v_location v)) (mset vs)
     \<and> map Testcases suites
         = map (\<lambda>s. map junit_case (filter (\<lambda>v. l_file (v_location v) = SuiteName s) vs)) suites
     \<and> cases = (\<Sum>f\<in>(\<lambda>v. l_file (v_location v)) ` set vs. (length (filter (\<lambda>v. l_file (v_location v) = f) vs))\<^sup>2)
     \<and> (cases = length vs \<longleftrightarrow> distinct (map (\<lambda>v. l_file (v_location v)) vs))"
  using counts_square [of "map file_of (Violations r)"] junit_cases_total [of r]
  by (simp add: Let_def count_files) (simp add: junit_suites_eq suite_of_def comp_def image_mset.compositionality)

end
