(* ===== verification/Cmd_Lint.thy ===== *)
theory Cmd_Lint
  imports Reporter Linter Config_Find
begin

text \<open>
  \<open>regal lint\<close>: \<open>cmd/lint.go\<close> and \<open>cmd/utils.go\<close>, the flags, the search for a Regal directory, a
  configuration file and custom rules, the linter that they set up, the choice of a reporter and the exit
  code. A record of the environment holds the working and the home directory, the YAML decoder and the
  outcome of opening the output file. A file that was opened is its path. Logging, metrics, profiling of
  the process and the check for a new version, which do not change the outcome, are left out, and
  \<^term>\<open>None\<close> is a search that does not end or a panic of the linter.
\<close>

section \<open>Flags\<close>

record repeated_flag =
  rf_v :: "string list"
  rf_is_set :: bool

definition unset_flag :: repeated_flag where
  "unset_flag = \<lparr>rf_v = [], rf_is_set = False\<rparr>"

definition flag_set :: "string \<Rightarrow> repeated_flag \<Rightarrow> repeated_flag" where
  "flag_set s f = \<lparr>rf_v = rf_v f @ [s], rf_is_set = True\<rparr>"

definition flag_string :: "repeated_flag \<Rightarrow> string" where
  "flag_string f = join_str '','' (rf_v f)"

record lint_and_fix_params =
  cp_config_file :: string
  cp_format :: string
  cp_output_file :: string
  cp_rules :: repeated_flag
  cp_disable :: repeated_flag
  cp_disable_category :: repeated_flag
  cp_enable :: repeated_flag
  cp_enable_category :: repeated_flag
  cp_ignore_files :: repeated_flag
  cp_debug :: bool
  cp_disable_all :: bool
  cp_enable_all :: bool

record lint_params = lint_and_fix_params +
  lp_fail_level :: string
  lp_profile :: bool
  lp_instrument :: bool

text \<open>The defaults of \<open>setCommonFlags\<close>, and those of the flags of \<open>lint\<close>.\<close>

definition common_flags :: "bool \<Rightarrow> lint_and_fix_params" where
  "common_flags runnerDebug = \<lparr>cp_config_file = '''', cp_format = ''pretty'', cp_output_file = '''',
     cp_rules = unset_flag, cp_disable = unset_flag, cp_disable_category = unset_flag, cp_enable = unset_flag,
     cp_enable_category = unset_flag, cp_ignore_files = unset_flag, cp_debug = runnerDebug,
     cp_disable_all = False, cp_enable_all = False\<rparr>"

definition lint_flags :: "bool \<Rightarrow> lint_params" where
  "lint_flags runnerDebug = lint_and_fix_params.extend (common_flags runnerDebug)
     \<lparr>lp_fail_level = ''error'', lp_profile = False, lp_instrument = False\<rparr>"

section \<open>The environment\<close>

datatype decoded = DecodedEof | DecodeError string | Decoded config

record ('q, 'st, 'r, 'g, 'o) cmd_env =
  ce_lint :: "('q, 'st, 'r, 'g) lint_env"
  ce_loaded :: "'r custom_module list"
  ce_wd :: "string option"
  ce_home :: "string option"
  ce_decode :: "string \<Rightarrow> decoded"
  ce_open_output :: "string \<Rightarrow> string option"
  ce_reporter :: "'o reporter_env"
  ce_lint_error :: "lint_error \<Rightarrow> string"
  ce_json_error :: "string \<Rightarrow> string"
  ce_junit_error :: "string \<Rightarrow> string"

datatype cmd_error =
    NoArguments
  | ProfileWithoutJson
  | OutputFailed string
  | ConfigNotFound string string
  | ConfigDecode string
  | PrepareFailed lint_error
  | LintFailed string
  | UnknownFormat string
  | PublishFailed string

abbreviation ce_fs :: "('q, 'st, 'r, 'g, 'o, 'z) cmd_env_scheme \<Rightarrow> string \<Rightarrow> fs_node option" where
  "ce_fs env \<equiv> lx_fs (ce_lint env)"

abbreviation ce_read :: "('q, 'st, 'r, 'g, 'o, 'z) cmd_env_scheme \<Rightarrow> string \<Rightarrow> string + string" where
  "ce_read env \<equiv> read_file (lx_rules (ce_lint env))"

text \<open>\<open>filepath.Abs\<close>, \<open>rio.Getwd\<close>, \<open>rio.Exists\<close> and \<open>rio.IsFile\<close>.\<close>

definition fp_abs :: "string option \<Rightarrow> string \<Rightarrow> string + string" where
  "fp_abs wd path =
     (if fp_is_abs path then Inr (fp_clean path)
      else case wd of None \<Rightarrow> Inl ''getwd'' | Some dir \<Rightarrow> Inr (fp_join [dir, path]))"

definition rio_getwd :: "('q, 'st, 'r, 'g, 'o, 'z) cmd_env_scheme \<Rightarrow> string" where
  "rio_getwd env = (case ce_wd env of Some dir \<Rightarrow> dir | None \<Rightarrow> '''')"

definition rio_exists :: "('q, 'st, 'r, 'g, 'o, 'z) cmd_env_scheme \<Rightarrow> string \<Rightarrow> bool" where
  "rio_exists env path \<longleftrightarrow> ce_fs env path \<noteq> None"

definition rio_is_file :: "('q, 'st, 'r, 'g, 'o, 'z) cmd_env_scheme \<Rightarrow> string \<Rightarrow> bool" where
  "rio_is_file env path \<longleftrightarrow> stat_dir (ce_fs env) path = Some False"

text \<open>\<open>GlobalConfigDir(false)\<close> of \<open>pkg/config/global.go\<close>.\<close>

definition global_config_dir :: "('q, 'st, 'r, 'g, 'o, 'z) cmd_env_scheme \<Rightarrow> string" where
  "global_config_dir env =
     (case ce_home env of
        None \<Rightarrow> ''''
      | Some cfgDir \<Rightarrow>
          let regalDir = fp_join [cfgDir, ''.config'', ''regal'']
          in if \<not> rio_exists env regalDir then '''' else regalDir)"

section \<open>Finding the configuration\<close>

definition get_search_path :: "('q, 'st, 'r, 'g, 'o, 'z) cmd_env_scheme \<Rightarrow> string list \<Rightarrow> string" where
  "get_search_path env args =
     (let searchPath = (case args of
            [] \<Rightarrow> ''''
          | arg # _ \<Rightarrow>
              let p = (if \<not> fp_is_abs arg then (case fp_abs (ce_wd env) arg of Inr a \<Rightarrow> a | Inl _ \<Rightarrow> '''') else arg)
              in if \<not> rio_exists env p then '''' else p)
      in if searchPath \<noteq> '''' then searchPath else rio_getwd env)"

text \<open>The file that \<open>readUserConfig\<close> opens. Without one the error of \<open>Find\<close> comes back with a nil file.\<close>

definition open_file :: "('q, 'st, 'r, 'g, 'o, 'z) cmd_env_scheme \<Rightarrow> string \<Rightarrow> string + string" where
  "open_file env path = (case ce_fs env path of None \<Rightarrow> Inl path | Some _ \<Rightarrow> Inr path)"

definition read_user_config :: "('q, 'st, 'r, 'g, 'o, 'z) cmd_env_scheme \<Rightarrow> 'p lint_and_fix_params_scheme
    \<Rightarrow> string \<Rightarrow> (string + string) option" where
  "read_user_config env params searchPath =
     (if cp_config_file params \<noteq> '''' then Some (open_file env (cp_config_file params))
      else map_option (\<lambda>found. case found of
          Inr userConfig \<Rightarrow> Inr userConfig
        | Inl e \<Rightarrow>
            (let globalConfigDir = global_config_dir env
             in if globalConfigDir \<noteq> '''' then open_file env (fp_join [globalConfigDir, ''config.yaml''])
                else Inl ''no config''))
        (find_config (ce_fs env) searchPath))"

text \<open>\<open>config.FromFile\<close> of an open file.\<close>

definition from_file :: "('q, 'st, 'r, 'g, 'o, 'z) cmd_env_scheme \<Rightarrow> string \<Rightarrow> decoded" where
  "from_file env path = (case ce_read env path of Inl e \<Rightarrow> DecodeError e | Inr bs \<Rightarrow> ce_decode env bs)"

definition load_user_config :: "('q, 'st, 'r, 'g, 'o, 'z) cmd_env_scheme \<Rightarrow> 'p lint_and_fix_params_scheme
    \<Rightarrow> string \<Rightarrow> (cmd_error + config \<times> string) option" where
  "load_user_config env params root =
     map_option (\<lambda>file. case file of
         Inl e \<Rightarrow> if cp_config_file params \<noteq> '''' then Inl (ConfigNotFound (cp_config_file params) e)
                  else Inr (empty_config, '''')
       | Inr path \<Rightarrow> (case from_file env path of
             DecodedEof \<Rightarrow> Inr (empty_config, path)
           | DecodeError e \<Rightarrow> Inl (ConfigDecode e)
           | Decoded cfg \<Rightarrow> Inr (cfg, path)))
       (read_user_config env params root)"

section \<open>Linting\<close>

definition lint_options :: "'p lint_and_fix_params_scheme \<Rightarrow> ('q, 'st, 'r) linter \<Rightarrow> ('q, 'st, 'r) linter" where
  "lint_options params l =
     with_debug_mode (cp_debug params)
       (with_enabled_rules (rf_v (cp_enable params))
         (with_enabled_categories (rf_v (cp_enable_category params))
           (with_enable_all (cp_enable_all params)
             (with_disabled_rules (rf_v (cp_disable params))
               (with_disabled_categories (rf_v (cp_disable_category params))
                 (with_disable_all (cp_disable_all params) l))))))"

text \<open>What a Regal directory changes: the path prefix, the configuration file of the flags, and the
  custom rules.\<close>

definition use_regal_dir :: "('q, 'st, 'r, 'g, 'o, 'z) cmd_env_scheme \<Rightarrow> string \<Rightarrow> lint_params
    \<Rightarrow> ('q, 'st, 'r) linter \<Rightarrow> lint_params \<times> ('q, 'st, 'r) linter" where
  "use_regal_dir env regalPath params l =
     (let l = with_path_prefix regalPath l;
          regalConf = fp_join [regalPath, ''config.yaml''];
          params' = (if cp_config_file params = '''' \<and> rio_is_file env regalConf
             then params\<lparr>cp_config_file := regalConf\<rparr> else params);
          rulesDir = fp_join [regalPath, ''rules'']
      in (params', if \<not> rf_is_set (cp_rules params) \<and> is_dir (ce_fs env) rulesDir
             then with_custom_rules_paths (ce_lint env) [rulesDir] l else l))"

definition lint_setup :: "('q, 'st, 'r, 'g, 'o, 'z) cmd_env_scheme \<Rightarrow> string list \<Rightarrow> lint_params
    \<Rightarrow> (cmd_error + ('q, 'st, 'r) linter) option" where
  "lint_setup env args params =
     (let regal = with_input_paths args (with_custom_rules_paths (ce_lint env) (rf_v (cp_rules params))
            (with_instrumentation (lp_instrument params) (with_profiling (lp_profile params)
              (lint_options params (new_linter (ce_loaded env))))));
          regal = (if rf_is_set (cp_ignore_files params) then with_ignore (rf_v (cp_ignore_files params)) regal
            else regal);
          searchPath = get_search_path env args
      in Option.bind
        (if searchPath = '''' then Some (params, regal)
         else map_option (\<lambda>found. case found of
             Inl e \<Rightarrow> (params, regal)
           | Inr regalPath \<Rightarrow> use_regal_dir env regalPath params regal)
           (find_upwards (ce_fs env) searchPath ''.regal'' True))
        (\<lambda>(params, regal). map_option (\<lambda>res. bind_res res (\<lambda>(userConfig, path).
             Inr (with_user_config userConfig regal)))
           (load_user_config env params searchPath)))"

definition get_reporter :: "('o reporter_env) \<Rightarrow> string \<Rightarrow> (report \<Rightarrow> 'o \<Rightarrow> string + 'o) option" where
  "get_reporter env format =
     (if format = ''pretty'' then Some (publish_pretty env)
      else if format = ''compact'' then Some (publish_compact env)
      else if format = ''json'' then Some (publish_json env)
      else if format = ''github'' then Some (publish_github env)
      else if format = ''festive'' then Some (publish_festive env)
      else if format = ''sarif'' then Some (publish_sarif env)
      else if format = ''junit'' then Some (publish_junit env)
      else None)"

definition format_error :: "('q, 'st, 'r, 'g, 'o, 'z) cmd_env_scheme \<Rightarrow> string \<Rightarrow> string \<Rightarrow> string" where
  "format_error env format err =
     (if format = ''json'' \<or> format = ''sarif'' then ce_json_error env err
      else if format = ''junit'' then ce_junit_error env err
      else err)"

definition lint :: "('q, 'st, 'r, 'g, 'o, 'z) cmd_env_scheme \<Rightarrow> nat list \<Rightarrow> string list \<Rightarrow> lint_params \<Rightarrow> 'o
    \<Rightarrow> (cmd_error + report \<times> 'o) option" where
  "lint env schedule args params out =
     (if lp_profile params \<and> cp_format params \<noteq> ''json'' then Some (Inl ProfileWithoutJson)
      else case (if cp_output_file params = '''' then None else ce_open_output env (cp_output_file params)) of
        Some e \<Rightarrow> Some (Inl (OutputFailed e))
      | None \<Rightarrow> Option.bind (lint_setup env args params) (\<lambda>res. case res of
            Inl e \<Rightarrow> Some (Inl e)
          | Inr regal \<Rightarrow> (case linter_prepare (ce_lint env) regal of
                Inl e \<Rightarrow> Some (Inl (PrepareFailed e))
              | Inr regal \<Rightarrow> map_option (\<lambda>result. case result of
                    Inl e \<Rightarrow> Inl (LintFailed (format_error env (cp_format params) (ce_lint_error env e)))
                  | Inr rep \<Rightarrow> (case get_reporter (ce_reporter env) (cp_format params) of
                        None \<Rightarrow> Inl (UnknownFormat (cp_format params))
                      | Some publish \<Rightarrow> (case publish rep out of
                            Inl e \<Rightarrow> Inl (PublishFailed e)
                          | Inr out \<Rightarrow> Inr (rep, out))))
                  (run_linter (ce_lint env) schedule regal))))"

section \<open>The command\<close>

definition count_levels :: "violation list \<Rightarrow> nat \<times> nat" where
  "count_levels vs = foldl (\<lambda>(errorsFound, warningsFound) v.
     if v_level v = ''error'' then (errorsFound + 1, warningsFound)
     else if v_level v = ''warning'' then (errorsFound, warningsFound + 1)
     else (errorsFound, warningsFound)) (0, 0) vs"

definition exit_code :: "string \<Rightarrow> violation list \<Rightarrow> nat" where
  "exit_code failLevel vs =
     (let (errorsFound, warningsFound) = count_levels vs;
          code = (if failLevel = ''error'' \<and> 0 < errorsFound then 3 else 0)
      in if failLevel = ''warning'' then
           (if 0 < errorsFound then 3 else if 0 < warningsFound then 2 else code)
         else code)"

text \<open>\<open>PreRunE\<close> and \<open>RunE\<close>: the code that the process exits with.\<close>

definition lint_command :: "('q, 'st, 'r, 'g, 'o, 'z) cmd_env_scheme \<Rightarrow> nat list \<Rightarrow> string list \<Rightarrow> lint_params \<Rightarrow> 'o
    \<Rightarrow> nat option" where
  "lint_command env schedule args params out =
     (if length args = 0 then Some 1
      else map_option (\<lambda>res. case res of
          Inl e \<Rightarrow> 1
        | Inr (rep, out) \<Rightarrow> exit_code (lp_fail_level params) (Violations rep))
        (lint env schedule args params out))"

end
