(* ===== verification/Fix_Report.thy ===== *)
theory Fix_Report
  imports Fixer File_Walk Reporter
begin

text \<open>
  \<open>pkg/fixer/reporter.go\<close>: what \<open>regal fix\<close> prints about the fixes it applied and about the files that it
  cannot move. The errors of the writer are ignored there, so a report is the list of the lines that are
  written. A Go map is an association list, and \<open>util.KeysSorted\<close> gives its keys in order.
\<close>

definition keys_in_order :: "(string, 'v) gomap \<Rightarrow> string list" where
  "keys_in_order m = sorted_slice (map fst m)"

text \<open>\<open>relOrDefault\<close>; on Unix \<open>filepath.ToSlash\<close> changes nothing.\<close>

definition rel_or_default :: "string \<Rightarrow> string \<Rightarrow> string \<Rightarrow> string" where
  "rel_or_default root path default' = (case fp_rel root path of None \<Rightarrow> default' | Some rel \<Rightarrow> rel)"

text \<open>The blocks of the roots, an empty line between two of them.\<close>

fun spaced :: "('a \<Rightarrow> string list) \<Rightarrow> 'a list \<Rightarrow> string list" where
  "spaced f [] = []"
| "spaced f [x] = f x"
| "spaced f (x # y # xs) = f x @ [''''] @ spaced f (y # xs)"

definition source_file_conflicts :: "fix_report \<Rightarrow> string \<Rightarrow> string list" where
  "source_file_conflicts r rootKey =
     (let cs = map_get_or (conflictsSourceFile r) rootKey [] in
      (''In project root: '' @ rootKey) # concat (map (\<lambda>f.
        (''Cannot overwrite existing file: '' @ rel_or_default rootKey f f)
          # map (\<lambda>oldPath. ''- '' @ rel_or_default rootKey oldPath oldPath)
              (sorted_slice (map_get_or cs f []))) (keys_in_order cs)))"

definition many_to_one_conflicts :: "fix_report \<Rightarrow> string \<Rightarrow> string list" where
  "many_to_one_conflicts r rootKey =
     (let cs = map_get_or (conflictsManyToOne r) rootKey [] in
      (''In project root: '' @ rootKey) # concat (map (\<lambda>f.
        (''Cannot move multiple files to: '' @ rel_or_default rootKey f f)
          # map (\<lambda>oldPath. ''- '' @ rel_or_default rootKey oldPath oldPath)
              (sorted_slice (map_get_or (movedFiles r) f []))) (keys_in_order cs)))"

definition report_conflicts :: "fix_report \<Rightarrow> string list" where
  "report_conflicts r =
     (let roots = keys_in_order (conflictsSourceFile r) in
      if 0 < length roots then ''Source file conflicts:'' # spaced (source_file_conflicts r) roots else [])
     @ (let roots = keys_in_order (conflictsManyToOne r) in
        if 0 < length roots then
          (if 0 < length (conflictsSourceFile r) then [''''] else [])
          @ ''Many to one conflicts:'' # spaced (many_to_one_conflicts r) roots
        else [])"

text \<open>The fixes by root and file.\<close>

definition add_by_root :: "(string, (string, fix_result list) gomap) gomap \<Rightarrow> string \<Rightarrow> fix_result
    \<Rightarrow> (string, (string, fix_result list) gomap) gomap" where
  "add_by_root m f fx =
     (let m = (if map_get m (fr_root fx) = None then map_set m (fr_root fx) [] else m);
          c = map_get_or m (fr_root fx) []
      in map_set m (fr_root fx) (map_set c f (map_get_or c f [] @ [fx])))"

definition fixes_by_root :: "fix_report \<Rightarrow> (string, (string, fix_result list) gomap) gomap" where
  "fixes_by_root r = foldl (\<lambda>m (f, fxs). foldl (\<lambda>m fx. add_by_root m f fx) m fxs) [] (fileFixes r)"

definition file_lines :: "fix_report \<Rightarrow> string \<Rightarrow> nat \<Rightarrow> string \<times> fix_result list \<Rightarrow> string list" where
  "file_lines r root n entry =
     (case entry of (f, fxs) \<Rightarrow>
        (let rel = rel_or_default root f f in
         [case old_path_for_file r f of
            Some oldPath \<Rightarrow> rel_or_default root oldPath oldPath @ '' -> '' @ rel @ '':''
          | None \<Rightarrow> rel @ '':'']
         @ map (\<lambda>fx. ''- '' @ fr_title fx) fxs
         @ (if 3 < n then [''''] else [])))"

definition root_lines :: "fix_report \<Rightarrow> (string, (string, fix_result list) gomap) gomap \<Rightarrow> string \<Rightarrow> string list" where
  "root_lines r byRoot root =
     (let fixesByFile = map_get_or byRoot root [];
          names = keys_in_order fixesByFile
      in (''In project root: '' @ root)
         # concat (map (\<lambda>f. file_lines r root (length names) (f, map_get_or fixesByFile f [])) names))"

definition pretty_fix_report :: "bool \<Rightarrow> fix_report \<Rightarrow> string list" where
  "pretty_fix_report dryRun r =
     (let action = (if dryRun then ''to apply'' else ''applied'') in
      if has_conflicts r then report_conflicts r
      else if totalFixes r = 0 then [''No fixes '' @ action @ ''.'']
      else (if totalFixes r = 1 then ''1 fix '' @ action @ '':''
            else itoa (totalFixes r) @ '' fixes '' @ action @ '':'')
        # spaced (root_lines r (fixes_by_root r)) (keys_in_order (fixes_by_root r)))"

section \<open>Lemmas\<close>

lemma add_by_root_get:
  "map_get_or (map_get_or (add_by_root m f fx) root []) g []
     = map_get_or (map_get_or m root []) g [] @ (if root = fr_root fx \<and> g = f then [fx] else [])"
  by (auto simp: add_by_root_def Let_def map_get_or_def split: option.splits)

lemma add_file_by_root:
  "map_get_or (map_get_or (foldl (\<lambda>m fx. add_by_root m f fx) m fxs) root []) g []
     = map_get_or (map_get_or m root []) g [] @ (if g = f then filter (\<lambda>fx. fr_root fx = root) fxs else [])"
  by (induction fxs arbitrary: m) (auto simp: add_by_root_get)

text \<open>What is printed of a file under a root are its fixes with that root, in their order.\<close>

lemma fixes_by_root_get:
  assumes "map_wf (fileFixes r)"
  shows "map_get_or (map_get_or (fixes_by_root r) root []) f []
     = filter (\<lambda>fx. fr_root fx = root) (map_get_or (fileFixes r) f [])"
proof -
  have "map_get_or (map_get_or (foldl (\<lambda>m (f, fxs). foldl (\<lambda>m fx. add_by_root m f fx) m fxs) m ffs) root []) f []
     = map_get_or (map_get_or m root []) f [] @ filter (\<lambda>fx. fr_root fx = root) (map_get_or ffs f [])"
    if "map_wf ffs" for m ffs
    using that
  proof (induction ffs arbitrary: m)
    case (Cons e ffs)
    obtain g fxs where e: "e = (g, fxs)" by (cases e)
    with Cons.prems have no: "map_get ffs g = None" by (simp add: map_of_eq_None_iff)
    from Cons.prems e Cons.IH [of "foldl (\<lambda>m fx. add_by_root m g fx) m fxs"] show ?case
      by (auto simp: e add_file_by_root map_get_or_def [of ffs] map_get_or_def [of "(g, fxs) # ffs"] no)
  qed (simp add: map_get_or_def)
  with assms show ?thesis by (simp add: fixes_by_root_def map_get_or_def)
qed

end
