(* ===== verification/Disk.thy ===== *)
theory Disk
  imports File_Walk "HOL-Library.Sublist"
begin

text \<open>
  The part of a Unix file system that \<open>regal fix\<close> writes to: a tree of directories and files, and what
  \<open>os.Remove\<close>, \<open>os.MkdirAll\<close>, \<open>os.WriteFile\<close>, \<open>os.ReadFile\<close> and \<open>os.Stat\<close> of the Go library do to it. A
  path is its elements from the root. There are no symbolic links and no permissions; an operation fails
  where the shape of the tree makes it fail.
\<close>

section \<open>Operations\<close>

datatype dnode = DFile string nat | DDir "(string \<times> dnode) list"

datatype disk_error = NotExist | NotADirectory | IsADirectory | NotEmpty | RootPath

fun node_at :: "dnode \<Rightarrow> string list \<Rightarrow> dnode option" where
  "node_at d [] = Some d"
| "node_at (DFile c m) (e # es) = None"
| "node_at (DDir ns) (e # es) = (case map_get ns e of None \<Rightarrow> None | Some d \<Rightarrow> node_at d es)"

text \<open>Change the entry at a path; \<open>f\<close> gets the entry, if there is one, and says what becomes of it.\<close>

fun change_at :: "(dnode option \<Rightarrow> disk_error + dnode option) \<Rightarrow> string list \<Rightarrow> dnode \<Rightarrow> disk_error + dnode" where
  "change_at f [] d = Inl RootPath"
| "change_at f es (DFile c m) = Inl NotADirectory"
| "change_at f [e] (DDir ns) =
     bind_res (f (map_get ns e)) (\<lambda>new. Inr (DDir (case new of None \<Rightarrow> map_del ns e | Some d \<Rightarrow> map_set ns e d)))"
| "change_at f (e # es) (DDir ns) =
     (case map_get ns e of
        None \<Rightarrow> Inl NotExist
      | Some d \<Rightarrow> bind_res (change_at f es d) (\<lambda>d. Inr (DDir (map_set ns e d))))"

definition os_remove :: "string list \<Rightarrow> dnode \<Rightarrow> disk_error + dnode" where
  "os_remove = change_at (\<lambda>old. case old of
     None \<Rightarrow> Inl NotExist
   | Some (DDir (_ # _)) \<Rightarrow> Inl NotEmpty
   | Some _ \<Rightarrow> Inr None)"

text \<open>\<open>os.WriteFile\<close> truncates a file that exists and keeps its mode.\<close>

definition os_write_file :: "string \<Rightarrow> nat \<Rightarrow> string list \<Rightarrow> dnode \<Rightarrow> disk_error + dnode" where
  "os_write_file content fileMode = change_at (\<lambda>old. case old of
     None \<Rightarrow> Inr (Some (DFile content fileMode))
   | Some (DFile _ m) \<Rightarrow> Inr (Some (DFile content m))
   | Some (DDir _) \<Rightarrow> Inl IsADirectory)"

fun os_mkdir_all :: "string list \<Rightarrow> dnode \<Rightarrow> disk_error + dnode" where
  "os_mkdir_all es (DFile c m) = Inl NotADirectory"
| "os_mkdir_all [] (DDir ns) = Inr (DDir ns)"
| "os_mkdir_all (e # es) (DDir ns) =
     bind_res (os_mkdir_all es (case map_get ns e of None \<Rightarrow> DDir [] | Some d \<Rightarrow> d))
       (\<lambda>d. Inr (DDir (map_set ns e d)))"

definition os_read_file :: "dnode \<Rightarrow> string list \<Rightarrow> disk_error + string" where
  "os_read_file d es = (case node_at d es of
     None \<Rightarrow> Inl NotExist | Some (DFile c m) \<Rightarrow> Inr c | Some (DDir _) \<Rightarrow> Inl IsADirectory)"

definition os_mode :: "dnode \<Rightarrow> string list \<Rightarrow> nat option" where
  "os_mode d es = (case node_at d es of
     None \<Rightarrow> None | Some (DFile c m) \<Rightarrow> Some m | Some (DDir _) \<Rightarrow> Some 493)"

text \<open>The tree without the contents, by path.\<close>

fun shape :: "dnode \<Rightarrow> fs_node" where
  "shape (DFile c m) = FileNode"
| "shape (DDir ns) = DirNode (map (\<lambda>(name, d). (name, shape d)) ns)"

definition disk_tree :: "dnode \<Rightarrow> string \<Rightarrow> fs_node option" where
  "disk_tree d path = map_option shape (node_at d (path_elems path))"

section \<open>What the operations do to the files\<close>

definition file_at :: "dnode \<Rightarrow> string list \<Rightarrow> string option" where
  "file_at d es = (case node_at d es of Some (DFile c m) \<Rightarrow> Some c | _ \<Rightarrow> None)"

lemma os_read_file_iff: "os_read_file d es = Inr c \<longleftrightarrow> file_at d es = Some c"
  by (auto simp: os_read_file_def file_at_def split: option.splits dnode.splits)

lemma file_at_DDir_Cons: "file_at (DDir ns) (e # es) = (case map_get ns e of None \<Rightarrow> None | Some d \<Rightarrow> file_at d es)"
  by (simp add: file_at_def split: option.split)

lemma file_at_Nil_DDir [simp]: "file_at (DDir ns) [] = None"
  by (simp add: file_at_def)

lemma file_at_DFile_Cons [simp]: "file_at (DFile c m) (e # es) = None"
  by (simp add: file_at_def)

text \<open>A change at a path gives the entry there and changes no file that is not at the path or below.\<close>

lemma change_at_file:
  "change_at f p d = Inr d' \<Longrightarrow> \<not> prefix p q \<Longrightarrow> file_at d' q = file_at d q"
proof (induction f p d arbitrary: d' q rule: change_at.induct)
  case (3 f e ns)
  then show ?case
    by (cases q) (auto simp: bind_res_eq_Inr file_at_DDir_Cons split: option.splits if_splits)
next
  case (4 f e e' es ns)
  then show ?case
    by (cases q) (auto simp: bind_res_eq_Inr file_at_DDir_Cons split: option.splits if_splits)
qed auto

lemma change_at_entry:
  "change_at f p d = Inr d' \<Longrightarrow> \<exists>new. f (node_at d p) = Inr new \<and> node_at d' p = new"
proof (induction f p d arbitrary: d' rule: change_at.induct)
  case (3 f e ns)
  then obtain new where "f (map_get ns e) = Inr new"
    "d' = DDir (case new of None \<Rightarrow> map_del ns e | Some d \<Rightarrow> map_set ns e d)"
    by (auto simp: bind_res_eq_Inr)
  then show ?case by (cases new) (auto split: option.splits)
next
  case (4 f e e' es ns)
  then show ?case by (auto simp: bind_res_eq_Inr split: option.splits)
qed auto

lemma node_at_append: "node_at d (p @ q) = Option.bind (node_at d p) (\<lambda>d. node_at d q)"
  by (induction d p rule: node_at.induct) (auto split: option.splits)

lemma file_at_append: "file_at d (p @ q) = (case node_at d p of None \<Rightarrow> None | Some n \<Rightarrow> file_at n q)"
  by (simp add: file_at_def node_at_append split: option.split)

text \<open>Removing takes one file, or no file when the entry is a directory.\<close>

lemma os_remove_files:
  assumes "os_remove p d = Inr d'"
  shows "file_at d' q = (if q = p then None else file_at d q)"
proof (cases "prefix p q")
  case True
  then obtain r where q: "q = p @ r" by (auto elim: prefixE)
  from change_at_entry [OF assms [unfolded os_remove_def]]
  have gone: "node_at d' p = None" and old: "(\<exists>c m. node_at d p = Some (DFile c m)) \<or> node_at d p = Some (DDir [])"
    by (auto split: option.splits dnode.splits list.splits)
  from gone have "file_at d' q = None" by (simp add: q file_at_append)
  moreover have "file_at d q = None" if "r \<noteq> []"
    using old that by (cases r) (auto simp: q file_at_append file_at_DDir_Cons)
  ultimately show ?thesis by (auto simp: q)
next
  case False
  with change_at_file [OF assms [unfolded os_remove_def] False] show ?thesis by auto
qed

lemma os_write_file_files:
  assumes "os_write_file c m p d = Inr d'"
  shows "file_at d' q = (if q = p then Some c else file_at d q)"
proof (cases "prefix p q")
  case True
  then obtain r where q: "q = p @ r" by (auto elim: prefixE)
  from change_at_entry [OF assms [unfolded os_write_file_def]]
  obtain m' where new: "node_at d' p = Some (DFile c m')"
    and old: "node_at d p = None \<or> (\<exists>c m. node_at d p = Some (DFile c m))"
    by (auto split: option.splits dnode.splits dest: sym)
  from new old show ?thesis
    by (cases r) (auto simp: q file_at_append, simp_all add: file_at_def)
next
  case False
  with change_at_file [OF assms [unfolded os_write_file_def] False] show ?thesis by auto
qed

lemma os_mkdir_all_files: "os_mkdir_all p d = Inr d' \<Longrightarrow> file_at d' q = file_at d q"
proof (induction p d arbitrary: d' q rule: os_mkdir_all.induct)
  case (3 e es ns)
  have empty: "file_at (DDir []) r = None" for r by (cases r) (simp_all add: file_at_DDir_Cons)
  from 3 show ?case
    by (cases q) (auto simp: bind_res_eq_Inr file_at_DDir_Cons empty split: option.splits if_splits)
qed auto

end
