(* ===== verification/Cmd_Fix.thy ===== *)
theory Cmd_Fix
  imports Cmd_Lint Fix_Report Disk Fixer_Law
begin

text \<open>
  \<open>regal fix\<close>: \<open>cmd/fix.go\<close>. The command reads the files that it is given into the in-memory provider,
  runs the fixer on it and then brings the disk in line with the provider. The disk is a tree (\<open>Disk\<close>); the
  linter, the fixer and the provider are those of \<open>Linter\<close>, \<open>Fixer\<close> and \<open>File_Provider\<close>. The sets of
  modified and deleted files are Go maps: \<open>cf_range\<close> is the order in which they are iterated over. A panic
  of the linter inside the fixer counts as an error, as the disk has not been written yet in both cases.
\<close>

section \<open>Parameters and errors\<close>

record fix_params = lint_and_fix_params +
  xp_conflict_mode :: string
  xp_dry_run :: bool
  xp_verbose :: bool

record ('q, 'st, 'r, 'g, 'o) fix_cmd_env = "('q, 'st, 'r, 'g, 'o) cmd_env" +
  cf_fixer :: "'r fixer_env"
  cf_schedule :: "'r rules_input \<Rightarrow> nat list"
  cf_range :: "string list \<Rightarrow> string list"

datatype write_error =
    DeleteFailed string disk_error
  | CleanUpFailed string
  | DeleteDirFailed string disk_error
  | CreateDirFailed string disk_error
  | ContentsFailed fp_error
  | WriteFailed string disk_error

datatype fix_cmd_error =
    FixOutput string
  | FixConfigNotFound string
  | FixConfigDecode string
  | RootsFailed
  | VersionsFailed config_error
  | InvalidConflictMode string
  | FilterFailed filter_error
  | AbsPathFailed string
  | ProviderFailed string
  | UnsupportedFormat string
  | FixerFailed fixer_error
  | FixConflicts
  | WriteBackFailed write_error

section \<open>Writing back\<close>

fun delete_dirs :: "string list \<Rightarrow> dnode \<Rightarrow> dnode \<times> write_error option" where
  "delete_dirs [] d = (d, None)"
| "delete_dirs (dir # dirs) d =
     (case os_remove (path_elems dir) d of
        Inl e \<Rightarrow> (d, Some (DeleteDirFailed dir e))
      | Inr d \<Rightarrow> delete_dirs dirs d)"

fun delete_files :: "string list \<Rightarrow> string list \<Rightarrow> dnode \<Rightarrow> (dnode \<times> write_error option) option" where
  "delete_files roots [] d = Some (d, None)"
| "delete_files roots (f # fs) d =
     (case os_remove (path_elems f) d of
        Inl e \<Rightarrow> Some (d, Some (DeleteFailed f e))
      | Inr d \<Rightarrow> Option.bind (dir_clean_up_paths (disk_tree d) f roots) (\<lambda>dirs. case dirs of
            Inl p \<Rightarrow> Some (d, Some (CleanUpFailed p))
          | Inr dirs \<Rightarrow> (case delete_dirs dirs d of
                (d, Some e) \<Rightarrow> Some (d, Some e)
              | (d, None) \<Rightarrow> delete_files roots fs d)))"

fun write_files :: "mem_provider \<Rightarrow> string list \<Rightarrow> dnode \<Rightarrow> dnode \<times> write_error option" where
  "write_files p [] d = (d, None)"
| "write_files p (f # fs) d =
     (case os_mkdir_all (path_elems (fp_dir f)) d of
        Inl e \<Rightarrow> (d, Some (CreateDirFailed f e))
      | Inr d \<Rightarrow> (case mem_get p f of
            Inl e \<Rightarrow> (d, Some (ContentsFailed e))
          | Inr fc \<Rightarrow>
              (let fileMode = (case os_mode d (path_elems f) of Some m \<Rightarrow> m | None \<Rightarrow> 384) in
               case os_write_file fc fileMode (path_elems f) d of
                 Inl e \<Rightarrow> (d, Some (WriteFailed f e))
               | Inr d \<Rightarrow> write_files p fs d)))"

definition write_back :: "(string list \<Rightarrow> string list) \<Rightarrow> string list \<Rightarrow> mem_provider \<Rightarrow> dnode
    \<Rightarrow> (dnode \<times> write_error option) option" where
  "write_back iter roots p d =
     Option.bind (delete_files roots (iter (mem_deleted_files p)) d) (\<lambda>(d, e). Some (case e of
       Some e \<Rightarrow> (d, Some e)
     | None \<Rightarrow> write_files p (iter (mem_modified_files p)) d))"

fun verbose_sets :: "mem_provider \<Rightarrow> string list \<Rightarrow> fp_error + string list" where
  "verbose_sets p [] = Inr []"
| "verbose_sets p (f # fs) =
     bind_res (mem_get p f) (\<lambda>fc. bind_res (verbose_sets p fs) (\<lambda>ls.
       Inr ((''Set: '' @ f @ '' to:'' @ nl @ '' '' @ fc @ '' '' @ nl @ ''----------'') # ls)))"

definition verbose_lines :: "(string list \<Rightarrow> string list) \<Rightarrow> fix_params \<Rightarrow> mem_provider
    \<Rightarrow> write_error + string list" where
  "verbose_lines iter params p =
     (if \<not> xp_verbose params then Inr []
      else case verbose_sets p (iter (mem_modified_files p)) of
        Inl e \<Rightarrow> Inl (ContentsFailed e)
      | Inr sets \<Rightarrow> Inr
          ((if xp_dry_run params then [''Dry run mode enabled, the following changes would be made:''] else [])
           @ sets @ map (\<lambda>f. ''Delete: '' @ f) (iter (mem_deleted_files p))))"

section \<open>The linter of the fixer\<close>

text \<open>What \<open>applyLinterFixes\<close> does with the linter \<open>l\<close> that the command hands to \<open>Fix\<close>.\<close>

definition or_text :: "('q, 'st, 'r, 'g, 'o, 'z) cmd_env_scheme \<Rightarrow> lint_error + 'a \<Rightarrow> string + 'a" where
  "or_text env res = (case res of Inl e \<Rightarrow> Inl (ce_lint_error env e) | Inr x \<Rightarrow> Inr x)"

definition fixer_linter :: "('q, 'st, 'r, 'g, 'o) fix_cmd_env \<Rightarrow> ('q, 'st, 'r) linter \<Rightarrow> 'r linter_env" where
  "fixer_linter env l =
     (let prepared = (\<lambda>rls. linter_prepare (ce_lint env) (with_enabled_rules rls (with_disable_all True l)))
      in \<lparr>le_determine_enabled = or_text env (determine_enabled_rules (ce_lint env) l),
          le_prepare = (\<lambda>rls. case prepared rls of Inl e \<Rightarrow> Some (ce_lint_error env e) | Inr _ \<Rightarrow> None),
          le_lint = (\<lambda>rls input. case prepared rls of
              Inl e \<Rightarrow> Inl (ce_lint_error env e)
            | Inr li \<Rightarrow> (case run_linter (ce_lint env) (cf_schedule env input) (with_input_modules input li) of
                  None \<Rightarrow> Inl ''panic''
                | Some res \<Rightarrow> bind_res (or_text env res) (\<lambda>rep. Inr (Violations rep)))),
          le_config = (case linter_config (ce_lint env) l of
              Inl e \<Rightarrow> Inl (ce_lint_error env (ConfigFailed e)) | Inr c \<Rightarrow> Inr (Some c))\<rparr>)"

section \<open>The command\<close>

text \<open>The environment over a disk: its tree and its files.\<close>

definition on_disk :: "dnode \<Rightarrow> ('q, 'st, 'r, 'g, 'o) fix_cmd_env \<Rightarrow> ('q, 'st, 'r, 'g, 'o) fix_cmd_env" where
  "on_disk d env = env\<lparr>ce_lint := (ce_lint env)\<lparr>lx_fs := disk_tree d,
     lx_rules := (lx_rules (ce_lint env))\<lparr>read_file := \<lambda>p. case os_read_file d (path_elems p) of
       Inl e \<Rightarrow> Inl p | Inr c \<Rightarrow> Inr c\<rparr>\<rparr>\<rparr>"

definition config_search_path :: "('q, 'st, 'r, 'g, 'o, 'z) cmd_env_scheme \<Rightarrow> string list \<Rightarrow> string" where
  "config_search_path env args =
     (case args of
        [arg] \<Rightarrow> if \<not> fp_is_abs arg then fp_join [rio_getwd env, arg] else arg
      | _ \<Rightarrow> rio_getwd env)"

definition fix_linter :: "('q, 'st, 'r, 'g, 'o, 'z) cmd_env_scheme \<Rightarrow> fix_params \<Rightarrow> string option
    \<Rightarrow> ('q, 'st, 'r) linter" where
  "fix_linter env params regalDir =
     (let l = lint_options params (new_linter (ce_loaded env));
          customRulesDir = (case regalDir of
              Some dir \<Rightarrow> if is_dir (ce_fs env) (fp_join [dir, ''rules'']) then fp_join [dir, ''rules''] else ''''
            | None \<Rightarrow> '''');
          l = (if customRulesDir \<noteq> '''' then with_custom_rules_paths (ce_lint env) [customRulesDir] l else l);
          l = (if rf_is_set (cp_rules params) then with_custom_rules_paths (ce_lint env) (rf_v (cp_rules params)) l
            else l);
          l = (if rf_is_set (cp_ignore_files params) then with_ignore (rf_v (cp_ignore_files params)) l else l)
      in case regalDir of Some dir \<Rightarrow> with_path_prefix (fp_dir dir) l | None \<Rightarrow> l)"

text \<open>The configuration of the user: the file, if one is found, what is decoded from it, and the linter.\<close>

definition fix_user_config :: "('q, 'st, 'r, 'g, 'o, 'z) cmd_env_scheme \<Rightarrow> fix_params \<Rightarrow> string + string
    \<Rightarrow> ('q, 'st, 'r) linter \<Rightarrow> fix_cmd_error + string option \<times> config \<times> ('q, 'st, 'r) linter" where
  "fix_user_config env params userConfigFile l =
     (case userConfigFile of
        Inr path \<Rightarrow> (case from_file env path of
            DecodedEof \<Rightarrow> Inr (Some path, empty_config, with_user_config empty_config l)
          | DecodeError e \<Rightarrow> Inl (FixConfigDecode e)
          | Decoded cfg \<Rightarrow> Inr (Some path, cfg, with_user_config cfg l))
      | Inl e \<Rightarrow> if cp_config_file params \<noteq> '''' then Inl (FixConfigNotFound e) else Inr (None, empty_config, l))"

definition fix_roots :: "('q, 'st, 'r, 'g, 'o, 'z) cmd_env_scheme \<Rightarrow> string list
    \<Rightarrow> (fix_cmd_error + string list) option" where
  "fix_roots env args =
     (if list_ex (\<lambda>p. isl (fp_abs (ce_wd env) p)) args then Some (Inl RootsFailed)
      else map_option (\<lambda>res. case res of Inl e \<Rightarrow> Inl RootsFailed | Inr roots \<Rightarrow> Inr roots)
        (get_potential_roots (ce_fs env)
          (\<lambda>p. case from_file env p of Decoded cfg \<Rightarrow> Some cfg | _ \<Rightarrow> None)
          (\<lambda>p. case fp_abs (ce_wd env) p of Inr a \<Rightarrow> a | Inl _ \<Rightarrow> '''') args))"

fun abs_all :: "string option \<Rightarrow> string list \<Rightarrow> fix_cmd_error + string list" where
  "abs_all wd [] = Inr []"
| "abs_all wd (f # fs) =
     (if fp_is_abs f then bind_res (abs_all wd fs) (\<lambda>as. Inr (f # as))
      else case fp_abs wd f of
        Inl e \<Rightarrow> Inl (AbsPathFailed f)
      | Inr a \<Rightarrow> bind_res (abs_all wd fs) (\<lambda>as. Inr (a # as)))"

definition command_fixer :: "('q, 'st, 'r, 'g, 'o, 'z) cmd_env_scheme \<Rightarrow> fix_params \<Rightarrow> string list
    \<Rightarrow> string option \<Rightarrow> config \<Rightarrow> fix_cmd_error + fixer" where
  "command_fixer env params roots userConfigFile userConfig =
     (let f = register_fixes default_fixes (register_roots roots new_fixer) in
      bind_res
        (case userConfigFile of
           None \<Rightarrow> Inr f
         | Some path \<Rightarrow> (case all_rego_versions (lx_find_manifests (ce_lint env)) (lx_manifest (ce_lint env))
               (fp_dir path) (Some userConfig) of
               Inl e \<Rightarrow> Inl (VersionsFailed e)
             | Inr vs \<Rightarrow> Inr (set_rego_versions_map vs f)))
        (\<lambda>f. if xp_conflict_mode params \<notin> {''error'', ''rename''} then Inl (InvalidConflictMode (xp_conflict_mode params))
          else Inr (if xp_conflict_mode params = ''rename'' then set_on_conflict_operation on_conflict_rename f else f)))"

text \<open>The files to fix, read into the provider.\<close>

definition files_to_fix :: "('q, 'st, 'r, 'g, 'o, 'z) cmd_env_scheme \<Rightarrow> fix_params \<Rightarrow> string list \<Rightarrow> config
    \<Rightarrow> fix_cmd_error + mem_provider" where
  "files_to_fix env params args userConfig =
     (let ignored = (if 0 < length (rf_v (cp_ignore_files params)) then rf_v (cp_ignore_files params)
            else ign_files (cfg_ignore userConfig))
      in case filter_ignored_paths (ce_fs env) (lx_glob (ce_lint env)) args ignored True '''' of
           Inl e \<Rightarrow> Inl (FilterFailed e)
         | Inr filtered \<Rightarrow> bind_res (abs_all (ce_wd env) (remdups_adj (sorted_slice filtered))) (\<lambda>absFiltered.
             case new_mem_from_fs (ce_read env) absFiltered of
               Inl (f, e) \<Rightarrow> Inl (ProviderFailed f)
             | Inr p \<Rightarrow> Inr p))"

text \<open>What is left to do once the fixer is done: the new disk, the lines that are printed, the error.\<close>

definition finish_fix :: "(string list \<Rightarrow> string list) \<Rightarrow> fix_params \<Rightarrow> string list \<Rightarrow> dnode
    \<Rightarrow> mem_provider \<Rightarrow> fix_report \<Rightarrow> (dnode \<times> string list \<times> fix_cmd_error option) option" where
  "finish_fix iter params roots d p rep =
     (if has_conflicts rep then Some (d, pretty_fix_report (xp_dry_run params) rep, Some FixConflicts)
      else (case verbose_lines iter params p of
         Inl e \<Rightarrow> Some (d, [], Some (WriteBackFailed e))
       | Inr verbose \<Rightarrow>
         Option.bind (if \<not> xp_dry_run params then write_back iter roots p d else Some (d, None)) (\<lambda>(d, e).
           Some (case e of
             Some e \<Rightarrow> (d, verbose, Some (WriteBackFailed e))
           | None \<Rightarrow> (d, verbose @ pretty_fix_report (xp_dry_run params) rep, None)))))"

text \<open>\<open>fix\<close> up to the end of the fixer: the roots, the provider before and after, and the report; first
  what follows once the Regal directory and the configuration file have been looked for.\<close>

definition fix_from_config :: "('q, 'st, 'r, 'g, 'o) fix_cmd_env \<Rightarrow> string list \<Rightarrow> fix_params \<Rightarrow> string option
    \<Rightarrow> string + string \<Rightarrow> (fix_cmd_error + string list \<times> mem_provider \<times> mem_provider \<times> fix_report) option" where
  "fix_from_config env args params regalDir userConfigFile =
     (case fix_user_config env params userConfigFile (fix_linter env params regalDir) of
        Inl e \<Rightarrow> Some (Inl e)
      | Inr (configFile, userConfig, l) \<Rightarrow>
          Option.bind (fix_roots env args) (\<lambda>roots. case roots of
            Inl e \<Rightarrow> Some (Inl e)
          | Inr roots \<Rightarrow> (case command_fixer env params roots configFile userConfig of
              Inl e \<Rightarrow> Some (Inl e)
            | Inr f \<Rightarrow> (case files_to_fix env params args userConfig of
                Inl e \<Rightarrow> Some (Inl e)
              | Inr p \<Rightarrow>
                  if cp_format params \<noteq> ''pretty'' then Some (Inl (UnsupportedFormat (cp_format params)))
                  else Option.bind (run_fixer (cf_fixer env) (fixer_linter env l) (mem_ops (lx_rules (ce_lint env))) f p)
                    (\<lambda>(q, res). case res of
                       Inl e \<Rightarrow> Some (Inl (FixerFailed e))
                     | Inr rep \<Rightarrow> Some (Inr (roots, p, q, rep)))))))"

definition fix_in_memory :: "('q, 'st, 'r, 'g, 'o) fix_cmd_env \<Rightarrow> string list \<Rightarrow> fix_params
    \<Rightarrow> (fix_cmd_error + string list \<times> mem_provider \<times> mem_provider \<times> fix_report) option" where
  "fix_in_memory env args params =
     (case (if cp_output_file params = '''' then None else ce_open_output env (cp_output_file params)) of
        Some e \<Rightarrow> Some (Inl (FixOutput e))
      | None \<Rightarrow>
          (let searchPath = config_search_path env args in
           Option.bind (if searchPath = '''' then Some None
               else map_option (\<lambda>found. case found of Inl e \<Rightarrow> None | Inr dir \<Rightarrow> Some dir)
                 (find_upwards (ce_fs env) searchPath ''.regal'' True)) (\<lambda>regalDir.
           Option.bind (read_user_config env params searchPath) (fix_from_config env args params regalDir))))"

definition fix_on_disk :: "('q, 'st, 'r, 'g, 'o) fix_cmd_env \<Rightarrow> string list \<Rightarrow> fix_params \<Rightarrow> dnode
    \<Rightarrow> (dnode \<times> string list \<times> fix_cmd_error option) option" where
  "fix_on_disk env args params d =
     Option.bind (fix_in_memory (on_disk d env) args params) (\<lambda>res. case res of
       Inl e \<Rightarrow> Some (d, [], Some e)
     | Inr (roots, p, q, rep) \<Rightarrow> finish_fix (cf_range env) params roots d q rep)"

definition run_fix_command :: "('q, 'st, 'r, 'g, 'o) fix_cmd_env \<Rightarrow> string list \<Rightarrow> fix_params \<Rightarrow> dnode
    \<Rightarrow> (dnode \<times> nat) option" where
  "run_fix_command env args params d =
     (if length args = 0 then Some (d, 1)
      else map_option (\<lambda>(d, printed, e). (d, if e = None then 0 else 1)) (fix_on_disk env args params d))"

end
