(* ===== verification/Cmd_Fix_Proofs.thy ===== *)
theory Cmd_Fix_Proofs
  imports Cmd_Fix Linter_Proofs
begin

text \<open>
  What \<open>regal fix\<close> does to the disk. The state that the fixer leaves the in-memory provider in is tracked
  (\<open>mem_tracked\<close>, kept by every run of the fixer: \<open>provider_law\<close>), and writing it back gives the disk the
  files of the provider and leaves all others alone.
\<close>

section \<open>The in-memory provider keeps track of a run\<close>

interpretation tracked: provider_law "mem_ops env" "mem_tracked D"
proof
  fix s :: mem_provider and f c a b :: string
  assume s: "mem_tracked D s"
  show "mem_tracked D (fst (fo_put (mem_ops env) s f c))" "mem_tracked D (fst (fo_delete (mem_ops env) s f))"
    using s by (simp_all add: mem_ops_def mem_tracked_put mem_tracked_delete)
  show "mem_tracked D (fst (fo_rename (mem_ops env) s a b))"
  proof (cases "mem_rename s a b")
    case (Pair q e)
    show ?thesis
    proof (cases e)
      case None
      with Pair s show ?thesis by (simp add: mem_ops_def mem_tracked_rename)
    next
      case (Some e')
      with Pair have "q = s" by (auto simp: mem_rename_def mem_delete_def mem_put_def split: option.splits if_splits)
      with Pair s show ?thesis by (simp add: mem_ops_def)
    qed
  qed
qed

section \<open>Deleting\<close>

lemma clean_up_loop_dirs:
  assumes "clean_up_loop fs target keep dirs dir = Some (Inr ds)"
    and "\<forall>p\<in>set dirs. is_dir fs p"
  shows "\<forall>p\<in>set ds. is_dir fs p"
proof -
  let ?P = "\<lambda>fs' target keep dirs dir (y :: string + string list). fs' = fs \<longrightarrow> (\<forall>p\<in>set dirs. is_dir fs p)
    \<longrightarrow> (\<forall>ds. y = Inr ds \<longrightarrow> (\<forall>p\<in>set ds. is_dir fs p))"
  have "?P fs target keep dirs dir (Inr ds)"
  proof (rule clean_up_loop.raw_induct [where P = ?P, OF _ assms(1)], intro impI allI)
    fix loop fs' target keep dirs dir y ds
    assume IH: "\<And>fs' target keep dirs dir y. loop fs' target keep dirs dir = Some y \<Longrightarrow> ?P fs' target keep dirs dir y"
      and fs: "fs' = fs" and dirs: "\<forall>p\<in>set dirs. is_dir fs p" and y: "y = Inr ds"
      and body: "(if set_contains keep [dir] then Some (Inr dirs)
        else if sep \<notin> set dir then Some (Inr dirs)
        else (case fs' dir of
          Some (DirNode entries) \<Rightarrow>
            if list_all (entry_gone target dirs dir) entries
            then loop fs' target keep (dirs @ [dir]) (fp_dir dir) else Some (Inr dirs)
        | _ \<Rightarrow> Some (Inl dir))) = Some y"
    show "\<forall>p\<in>set ds. is_dir fs p"
    proof (cases "\<exists>entries. \<not> set_contains keep [dir] \<and> sep \<in> set dir \<and> fs' dir = Some (DirNode entries)
        \<and> list_all (entry_gone target dirs dir) entries")
      case True
      then obtain entries where e: "\<not> set_contains keep [dir]" "sep \<in> set dir" "fs' dir = Some (DirNode entries)"
        "list_all (entry_gone target dirs dir) entries" by blast
      with body have "loop fs' target keep (dirs @ [dir]) (fp_dir dir) = Some y" by auto
      moreover have "\<forall>p\<in>set (dirs @ [dir]). is_dir fs p"
        using dirs e(3) fs by (simp add: is_dir_def stat_dir_def)
      ultimately show ?thesis using IH fs y by blast
    next
      case False
      with body y dirs show ?thesis by (auto split: if_splits option.splits fs_node.splits)
    qed
  qed
  with assms(2) show ?thesis by simp
qed

lemma dir_clean_up_dirs: "dir_clean_up_paths fs target keep = Some (Inr ds) \<Longrightarrow> p \<in> set ds \<Longrightarrow> is_dir fs p"
  using clean_up_loop_dirs by (fastforce simp: dir_clean_up_paths_def bind_eq_Some_conv)

lemma is_dir_no_file: "is_dir (disk_tree d) p \<Longrightarrow> file_at d (path_elems p) = None"
  by (auto simp: is_dir_def stat_dir_def disk_tree_def file_at_def split: option.splits dnode.splits)

lemma delete_dirs_files:
  "delete_dirs dirs d = (d', e) \<Longrightarrow> (\<And>p. p \<in> set dirs \<Longrightarrow> file_at d (path_elems p) = None) \<Longrightarrow> file_at d' = file_at d"
proof (induction dirs arbitrary: d)
  case (Cons dir dirs)
  show ?case
  proof (cases "os_remove (path_elems dir) d")
    case (Inr d1)
    have "file_at d1 q = file_at d q" for q
      using os_remove_files [OF Inr, of q] Cons.prems(2) [of dir] by auto
    then have d1: "file_at d1 = file_at d" ..
    with Cons.IH [of d1] Cons.prems Inr show ?thesis by auto
  qed (use Cons in auto)
qed auto

text \<open>Deleting takes the deleted files, those before the failing one if it fails.\<close>

lemma delete_files_result:
  assumes "delete_files roots fs d = Some (d', None)"
  shows "file_at d' q = (if q \<in> path_elems ` set fs then None else file_at d q)"
  using assms
proof (induction fs arbitrary: d)
  case (Cons f fs)
  show ?case
  proof (cases "os_remove (path_elems f) d")
    case d1: (Inr d1)
    with Cons.prems obtain out where out: "dir_clean_up_paths (disk_tree d1) f roots = Some out"
      by (auto simp: bind_eq_Some_conv)
    with Cons.prems d1 obtain dirs where dirs: "dir_clean_up_paths (disk_tree d1) f roots = Some (Inr dirs)"
      by (cases out) auto
    obtain d2 e where d2: "delete_dirs dirs d1 = (d2, e)" by (cases "delete_dirs dirs d1")
    with Cons.prems d1 dirs have rest: "delete_files roots fs d2 = Some (d', None)" by (auto split: option.splits)
    have "file_at d2 = file_at d1"
      using delete_dirs_files [OF d2] dir_clean_up_dirs [OF dirs] is_dir_no_file by blast
    with Cons.IH [OF rest] os_remove_files [OF d1, of q] show ?thesis by auto
  qed (use Cons in auto)
qed auto

section \<open>Writing\<close>

text \<open>The last of the files at a path.\<close>

definition last_at :: "string list \<Rightarrow> string list \<Rightarrow> string option" where
  "last_at q fs = List.find (\<lambda>f. path_elems f = q) (rev fs)"

lemma last_at_Cons: "last_at q (f # fs) = (case last_at q fs of Some g \<Rightarrow> Some g
    | None \<Rightarrow> if path_elems f = q then Some f else None)"
proof -
  have "List.find P (xs @ ys) = (case List.find P xs of Some g \<Rightarrow> Some g | None \<Rightarrow> List.find P ys)" for P and xs ys :: "string list"
    by (induction xs) auto
  then show ?thesis by (simp add: last_at_def split: option.split)
qed

lemma write_files_result:
  assumes "write_files p fs d = (d', None)"
  shows "file_at d' q = (case last_at q fs of Some f \<Rightarrow> map_get (mem_files p) f | None \<Rightarrow> file_at d q)"
  using assms
proof (induction fs arbitrary: d)
  case Nil
  then show ?case by (simp add: last_at_def)
next
  case (Cons f fs)
  obtain d1 where d1: "os_mkdir_all (path_elems (fp_dir f)) d = Inr d1"
    using Cons.prems by (auto split: sum.splits)
  obtain c where c: "mem_get p f = Inr c" using Cons.prems d1 by (auto split: sum.splits)
  let ?m = "case os_mode d1 (path_elems f) of Some m \<Rightarrow> m | None \<Rightarrow> 384"
  obtain d2 where d2: "os_write_file c ?m (path_elems f) d1 = Inr d2"
    using Cons.prems d1 c by (auto simp: Let_def split: sum.splits)
  have rest: "write_files p fs d2 = (d', None)" using Cons.prems d1 c d2 by (simp add: Let_def)
  have "map_get (mem_files p) f = Some c" using c by (auto simp: mem_get_def split: option.splits)
  with Cons.IH [OF rest] os_write_file_files [OF d2, of q] os_mkdir_all_files [OF d1, of q] show ?case
    by (auto simp: last_at_Cons split: option.splits)
qed

text \<open>Where deleting and writing fail.\<close>

lemma delete_dirs_error: "delete_dirs dirs d = (d', Some w) \<Longrightarrow> \<exists>f e. w = DeleteDirFailed f e"
  by (induction dirs arbitrary: d) (auto split: sum.splits)

lemma delete_files_error:
  "delete_files roots fs d = Some (d', Some w) \<Longrightarrow> w \<noteq> CreateDirFailed b e \<and> w \<noteq> WriteFailed b e"
proof (induction fs arbitrary: d)
  case (Cons f fs)
  show ?case
  proof (cases "os_remove (path_elems f) d")
    case d1: (Inr d1)
    with Cons.prems obtain out where out: "dir_clean_up_paths (disk_tree d1) f roots = Some out"
      by (auto simp: bind_eq_Some_conv)
    show ?thesis
    proof (cases out)
      case dirs: (Inr dirs)
      obtain d2 e2 where d2: "delete_dirs dirs d1 = (d2, e2)" by (cases "delete_dirs dirs d1")
      with Cons d1 out dirs delete_dirs_error [of dirs d1 d2] show ?thesis by (cases e2) auto
    qed (use Cons.prems d1 out in auto)
  qed (use Cons.prems in auto)
qed auto

lemma write_files_error:
  "write_files p fs d = (d', Some w) \<Longrightarrow> w = CreateDirFailed b e \<or> w = WriteFailed b e \<Longrightarrow> b \<in> set fs"
  by (induction fs arbitrary: d) (auto simp: Let_def split: sum.splits)

lemma write_files_other:
  "write_files p fs d = (d', w) \<Longrightarrow> q \<notin> path_elems ` set fs \<Longrightarrow> file_at d' q = file_at d q"
proof (induction fs arbitrary: d)
  case (Cons f fs)
  show ?case
  proof (cases "os_mkdir_all (path_elems (fp_dir f)) d")
    case d1: (Inr d1)
    note k1 = os_mkdir_all_files [OF d1, of q]
    show ?thesis
    proof (cases "mem_get p f")
      case c: (Inr c)
      let ?m = "case os_mode d1 (path_elems f) of Some m \<Rightarrow> m | None \<Rightarrow> 384"
      show ?thesis
      proof (cases "os_write_file c ?m (path_elems f) d1")
        case d2: (Inr d2)
        from os_write_file_files [OF d2, of q] Cons k1 d1 c d2 show ?thesis by (auto simp: Let_def)
      qed (use Cons.prems d1 c k1 in \<open>auto simp: Let_def\<close>)
    qed (use Cons.prems d1 k1 in auto)
  qed (use Cons.prems in auto)
qed auto

lemma write_back_result:
  assumes "write_back iter roots p d = Some (d', None)" "set (iter (mem_deleted p)) = set (mem_deleted p)"
  shows "file_at d' q = (case last_at q (iter (mem_modified p)) of
      Some f \<Rightarrow> map_get (mem_files p) f
    | None \<Rightarrow> if q \<in> path_elems ` set (mem_deleted p) then None else file_at d q)"
proof -
  from assms(1) obtain d1 where d1: "delete_files roots (iter (mem_deleted p)) d = Some (d1, None)"
    "write_files p (iter (mem_modified p)) d1 = (d', None)"
    by (auto simp: write_back_def bind_eq_Some_conv mem_deleted_files_def mem_modified_files_def set_items_def split: option.splits)
  from write_files_result [OF d1(2), of q] delete_files_result [OF d1(1), of q] assms(2) show ?thesis
    by (simp split: option.split)
qed

text \<open>The files of the disk, by the names that the provider uses.\<close>

abbreviation disk_view :: "dnode \<Rightarrow> string \<Rightarrow> string option" where
  "disk_view d f \<equiv> file_at d (path_elems f)"

lemma last_at_known:
  assumes "inj_on path_elems K" "set fs \<subseteq> K" "f \<in> K"
  shows "last_at (path_elems f) fs = (if f \<in> set fs then Some f else None)"
  using assms(2)
proof (induction fs)
  case (Cons g fs)
  with assms(1,3) show ?case by (auto simp: last_at_Cons inj_on_def)
qed (simp add: last_at_def)

lemma last_at_None: "last_at q fs = None \<longleftrightarrow> q \<notin> path_elems ` set fs"
  by (induction fs) (auto simp: last_at_Cons last_at_def [of q "[]"] split: option.split)

text \<open>The names that a run is about: the files at its start and at its end, and what it deleted.\<close>

definition names_of_run :: "mem_provider \<Rightarrow> mem_provider \<Rightarrow> string set" where
  "names_of_run p q = dom (mem_view p) \<union> dom (mem_view q) \<union> set (mem_deleted q)"

lemma write_back_in_line:
  assumes wb: "write_back iter roots q d = Some (d', None)"
    and iter: "\<And>fs. set (iter fs) = set fs"
    and tracked: "mem_tracked (mem_files p) q" and start: "mem_view p \<subseteq>\<^sub>m disk_view d"
    and inj: "inj_on path_elems (names_of_run p q)" and f: "f \<in> names_of_run p q"
  shows "f \<in> dom (mem_view p) \<union> dom (mem_view q) \<Longrightarrow> disk_view d' f = mem_view q f"
proof -
  assume f': "f \<in> dom (mem_view p) \<union> dom (mem_view q)"
  let ?ms = "iter (mem_modified q)"
  have ms: "set ?ms \<subseteq> names_of_run p q"
    using tracked by (auto simp: iter mem_tracked_def names_of_run_def)
  have res: "disk_view d' f = (case last_at (path_elems f) ?ms of Some g \<Rightarrow> mem_view q g
      | None \<Rightarrow> if path_elems f \<in> path_elems ` set (mem_deleted q) then None else disk_view d f)"
    by (rule write_back_result [OF wb]) (simp add: iter)
  have del: "path_elems f \<in> path_elems ` set (mem_deleted q) \<longleftrightarrow> f \<in> set (mem_deleted q)"
    using inj f by (auto simp: names_of_run_def inj_on_def)
  show ?thesis
  proof (cases "f \<in> set (mem_modified q)")
    case True
    with res last_at_known [OF inj ms f] show ?thesis by (simp add: iter)
  next
    case False
    with tracked have v: "mem_view q f = (if f \<in> set (mem_deleted q) then None else mem_view p f)"
      by (simp add: mem_tracked_def)
    have "disk_view d f = mem_view p f" if "f \<notin> set (mem_deleted q)"
      using start f' v that by (auto simp: map_le_def dom_def)
    with res last_at_known [OF inj ms f] False v del show ?thesis by (simp add: iter)
  qed
qed

section \<open>The command\<close>

lemma sum_cases_success:
  "(case m of Inl e \<Rightarrow> Inl (g e) | Inr x \<Rightarrow> k x) = Inr z \<longleftrightarrow> (\<exists>x. m = Inr x \<and> k x = Inr z)"
  "(case m of Inl e \<Rightarrow> Some (Inl (g e)) | Inr x \<Rightarrow> l x) = Some (Inr w) \<longleftrightarrow> (\<exists>x. m = Inr x \<and> l x = Some (Inr w))"
  by (cases m; simp)+

lemma read_files_view:
  "read_files rd fs m = Inr m' \<Longrightarrow> map_wf m \<Longrightarrow> map_wf m' \<and>
     map_get m' f = (if f \<in> set fs then (case rd f of Inr c \<Rightarrow> Some c | Inl _ \<Rightarrow> None) else map_get m f)"
proof (induction fs arbitrary: m)
  case (Cons g fs)
  then obtain c where c: "rd g = Inr c" "read_files rd fs (map_set m g c) = Inr m'" by (auto split: sum.splits)
  from Cons.IH [OF c(2)] Cons.prems(2) c(1) show ?case by (cases "g = f") (simp_all split: if_splits)
qed simp

text \<open>The provider starts with the files of the disk and is tracked from there.\<close>

lemma files_to_fix_view:
  assumes "files_to_fix (on_disk d env) params args cfg = Inr p"
  shows "mem_view p \<subseteq>\<^sub>m disk_view d" "mem_tracked (mem_files p) p"
proof -
  let ?rd = "ce_read (on_disk d env)"
  obtain fs m where fs: "read_files ?rd fs [] = Inr m" and p: "p = \<lparr>mem_files = m, mem_modified = new_set [], mem_deleted = new_set []\<rparr>"
  proof -
    from assms obtain fs where "(case new_mem_from_fs ?rd fs of Inl (f, e) \<Rightarrow> Inl (ProviderFailed f) | Inr p \<Rightarrow> Inr p) = Inr p"
      by (auto simp: files_to_fix_def Let_def sum_cases_success bind_res_eq_Inr)
    then have "new_mem_from_fs ?rd fs = Inr p" by (auto split: sum.splits)
    then show ?thesis using that by (auto simp: new_mem_from_fs_def bind_res_eq_Inr)
  qed
  have "disk_view d f = Some c" if "map_get m f = Some c" for f c
    using read_files_view [OF fs, of f] that
    by (auto simp: on_disk_def os_read_file_iff [symmetric] split: sum.splits if_splits)
  then show "mem_view p \<subseteq>\<^sub>m disk_view d" by (auto simp: map_le_def p)
  show "mem_tracked (mem_files p) p"
    using read_files_view [OF fs] by (simp add: mem_tracked_def p new_set_def set_add_def)
qed

lemma fix_in_memory_tracked:
  assumes "fix_in_memory (on_disk d env) args params = Some (Inr (roots, p, q, rep))"
  shows "mem_view p \<subseteq>\<^sub>m disk_view d" "mem_tracked (mem_files p) q"
proof -
  from assms obtain dir u where "fix_from_config (on_disk d env) args params dir u = Some (Inr (roots, p, q, rep))"
    unfolding fix_in_memory_def Let_def by (auto simp only: bind_eq_Some_conv option.case option.inject split: option.split_asm)
  then obtain l f cfg where p: "files_to_fix (on_disk d env) params args cfg = Inr p"
    and run: "run_fixer (cf_fixer (on_disk d env)) (fixer_linter (on_disk d env) l)
        (mem_ops (lx_rules (ce_lint (on_disk d env)))) f p = Some (q, Inr rep)"
    by (auto simp: fix_from_config_def bind_eq_Some_conv sum_cases_success split: if_splits prod.splits)
  from files_to_fix_view(1) [OF p] show "mem_view p \<subseteq>\<^sub>m disk_view d" .
  from tracked.run_fixer_keeps [OF run files_to_fix_view(2) [OF p]] show "mem_tracked (mem_files p) q" .
qed

section \<open>What the command does to the disk\<close>

lemma on_disk_range [simp]: "cf_range (on_disk d env) = cf_range env"
  by (simp add: on_disk_def)

lemma sum_cases_failure:
  "(case m of Inl e \<Rightarrow> Some (Inl e) | Inr x \<Rightarrow> l x) = Some (Inl w) \<longleftrightarrow> m = Inl w \<or> (\<exists>x. m = Inr x \<and> l x = Some (Inl w))"
  "(case m of Inl e \<Rightarrow> Some (Inl (g e)) | Inr x \<Rightarrow> l x) = Some (Inl w)
     \<longleftrightarrow> (\<exists>e. m = Inl e \<and> w = g e) \<or> (\<exists>x. m = Inr x \<and> l x = Some (Inl w))"
  by (cases m; auto)+

lemma bind_res_eq_Inl: "bind_res m f = Inl e \<longleftrightarrow> m = Inl e \<or> (\<exists>a. m = Inr a \<and> f a = Inl e)"
  by (cases m) auto

lemma setup_errors:
  "fix_user_config env params f l \<noteq> Inl (WriteBackFailed w)"
  "fix_roots env args \<noteq> Some (Inl (WriteBackFailed w))"
  "command_fixer env params roots cf cfg \<noteq> Inl (WriteBackFailed w)"
  "abs_all wd fs \<noteq> Inl (WriteBackFailed w)"
  "files_to_fix env params args cfg \<noteq> Inl (WriteBackFailed w)"
proof -
  show abs: "abs_all wd fs \<noteq> Inl (WriteBackFailed w)" for wd fs
    by (induction fs) (auto simp: bind_res_eq_Inl split: sum.splits)
  show "fix_user_config env params f l \<noteq> Inl (WriteBackFailed w)"
    by (auto simp: fix_user_config_def split: sum.splits decoded.splits)
  show "fix_roots env args \<noteq> Some (Inl (WriteBackFailed w))"
    by (auto simp: fix_roots_def split: sum.splits)
  show "command_fixer env params roots cf cfg \<noteq> Inl (WriteBackFailed w)"
    by (auto simp: command_fixer_def Let_def bind_res_eq_Inl split: sum.splits option.splits)
  show "files_to_fix env params args cfg \<noteq> Inl (WriteBackFailed w)"
    by (auto simp: files_to_fix_def Let_def bind_res_eq_Inl abs split: sum.splits)
qed

lemma fix_from_config_error: "fix_from_config env args params dir u \<noteq> Some (Inl (WriteBackFailed w))"
  unfolding fix_from_config_def
  by (auto simp: bind_eq_Some_conv sum_cases_failure setup_errors) (simp split: sum.splits)

lemma fix_in_memory_error: "fix_in_memory env args params \<noteq> Some (Inl (WriteBackFailed w))"
  using fix_from_config_error [of env args params] unfolding fix_in_memory_def Let_def bind_eq_Some_conv
  by (auto simp only: bind_eq_Some_conv option.case option.inject sum.inject fix_cmd_error.distinct split: option.split_asm)

text \<open>The outcomes of \<open>fix\<close>: an error before the disk is written, conflicts, or a write-back.\<close>

lemma fix_on_disk_cases:
  assumes "fix_on_disk env args params d = Some (d', printed, e)"
  obtains err where "fix_in_memory (on_disk d env) args params = Some (Inl err)" "d' = d" "e = Some err"
      "\<And>w. err \<noteq> WriteBackFailed w"
  | roots p q rep where "fix_in_memory (on_disk d env) args params = Some (Inr (roots, p, q, rep))"
      "d' = d" "has_conflicts rep \<and> e = Some FixConflicts \<or> xp_dry_run params
            \<and> e = None \<or> (\<exists>w. e = Some (WriteBackFailed (ContentsFailed w)))"
  | roots p q rep w where "fix_in_memory (on_disk d env) args params = Some (Inr (roots, p, q, rep))"
      "\<not> has_conflicts rep" "\<not> xp_dry_run params" "write_back (cf_range env) roots q d = Some (d', w)"
      "e = map_option WriteBackFailed w"
proof -
  from assms obtain res where res: "fix_in_memory (on_disk d env) args params = Some res"
    by (auto simp: fix_on_disk_def bind_eq_Some_conv)
  show ?thesis
  proof (cases res)
    case (Inl err)
    have "err \<noteq> WriteBackFailed w" for w
      using fix_in_memory_error [of "on_disk d env" args params w] res Inl by auto
    moreover have "d' = d" "e = Some err" using assms res Inl by (simp_all add: fix_on_disk_def)
    ultimately show ?thesis using that(1) res Inl by blast
  next
    case (Inr x)
    obtain roots p q rep where x: "x = (roots, p, q, rep)" by (cases x)
    from assms res Inr x have fin: "finish_fix (cf_range env) params roots d q rep = Some (d', printed, e)"
      by (simp add: fix_on_disk_def)
    show ?thesis
    proof (cases "has_conflicts rep")
      case True
      with fin have "d' = d" "e = Some FixConflicts" by (simp_all add: finish_fix_def)
      with that(2) res Inr x True show ?thesis by blast
    next
      case no: False
      show ?thesis
      proof (cases "verbose_lines (cf_range env) params q")
        case (Inl err)
        then have "\<exists>w. err = ContentsFailed w" by (auto simp: verbose_lines_def split: if_splits sum.splits)
        moreover have "d' = d" "e = Some (WriteBackFailed err)" using fin no Inl by (simp_all add: finish_fix_def)
        ultimately show ?thesis using that(2) res Inr x by blast
      next
        case v: (Inr verbose)
        show ?thesis
        proof (cases "xp_dry_run params")
          case True
          with fin no v have "d' = d" "e = None" by (simp_all add: finish_fix_def)
          with that(2) res Inr x True show ?thesis by blast
        next
          case False
          with fin no v obtain w where "write_back (cf_range env) roots q d = Some (d', w)" "e = map_option WriteBackFailed w"
            by (auto simp: finish_fix_def bind_eq_Some_conv split: option.splits)
          with that(3) res Inr x no False show ?thesis by blast
        qed
      qed
    qed
  qed
qed



text \<open>C23. The command deletes before it writes, and stops at the first error: if the directory of a new
  file cannot be created, or the file cannot be written, all files that were to be moved are gone already,
  and the contents that only the provider had are lost with the process.\<close>

theorem failed_write_loses_moved_files:
  assumes "fix_on_disk env args params d = Some (d', printed, Some (WriteBackFailed w))"
    and "w = CreateDirFailed b err \<or> w = WriteFailed b err"
    and "\<And>fs. set (cf_range env fs) = set fs"
  shows "\<exists>roots p q rep. fix_in_memory (on_disk d env) args params = Some (Inr (roots, p, q, rep))
     \<and> b \<in> set (mem_modified q)
     \<and> (\<forall>f\<in>set (mem_deleted q). path_elems f \<notin> path_elems ` set (mem_modified q) \<longrightarrow> disk_view d' f = None)"
  using assms(1)
proof (cases rule: fix_on_disk_cases)
  case (3 roots p q rep w')
  then have wb: "write_back (cf_range env) roots q d = Some (d', Some w)" by (cases w') auto
  then obtain d1 where d1: "delete_files roots (cf_range env (mem_deleted q)) d = Some (d1, None)"
    and wr: "write_files q (cf_range env (mem_modified q)) d1 = (d', Some w)"
    using assms(2) delete_files_error by (fastforce simp: write_back_def bind_eq_Some_conv mem_deleted_files_def
        mem_modified_files_def set_items_def split: option.splits)
  have b: "b \<in> set (mem_modified q)" using write_files_error [OF wr assms(2)] by (simp add: assms(3))
  have "disk_view d' f = None" if f: "f \<in> set (mem_deleted q)" "path_elems f \<notin> path_elems ` set (mem_modified q)" for f
  proof -
    have "file_at d1 (path_elems f) = None" using delete_files_result [OF d1, of "path_elems f"] f(1) by (simp add: assms(3))
    with write_files_other [OF wr, of "path_elems f"] f(2) show ?thesis by (simp add: assms(3))
  qed
  with 3(1) b show ?thesis by blast
qed (use assms(2) in auto)


section \<open>A concrete run\<close>

fun mentions :: "string \<Rightarrow> aval \<Rightarrow> bool" where
  "mentions s (AStr t) = (s = t)"
| "mentions s (AArr vs) = list_ex (mentions s) vs"
| "mentions s (AObj kvs) = list_ex (\<lambda>(k, v). mentions s v) kvs"
| "mentions s v = False"

definition sample_reporter_env :: "string reporter_env" where
  "sample_reporter_env = \<lparr>rp_write = \<lambda>s out. Inr (out @ s), rp_standalone = True, rp_no_color = True,
     rp_yellow = \<lambda>s. s, rp_cyan = \<lambda>s. s, rp_red = \<lambda>s. s, rp_table = \<lambda>rows. concat (concat rows),
     rp_compact_table = \<lambda>h rows. concat (concat rows), rp_json = \<lambda>r. Inr '''', rp_sarif = \<lambda>cs. Inr '''',
     rp_junit = \<lambda>n ss. Inr '''', rp_ci = '''', rp_holidays = None, rp_step_summary = None,
     rp_append = \<lambda>f s out. Inr out, rp_range = \<lambda>m. m\<rparr>"

text \<open>A linter that finds one file, \<open>/w/a.rego\<close>, in the wrong directory.\<close>

definition mismatch_result :: aval where
  "mismatch_result = AObj [(AStr ''violations'', ASet [AObj
     [(AStr ''title'', AStr ''directory-package-mismatch''),
      (AStr ''location'', AObj [(AStr ''file'', AStr ''/w/a.rego'')])]])]"

definition sample_fix_cmd_env :: "(unit, unit, unit, string, string) fix_cmd_env" where
  "sample_fix_cmd_env =
     \<lparr>ce_lint = sample_lint_env\<lparr>lx_path_for_ref := \<lambda>r. Some [''regal'', ''rules'', ''idiomatic'', ''directory-package-mismatch''], lx_eval := \<lambda>q st v. Inr (Some
        (if v = prepare_input then AObj [(AStr ''prepared'', AObj [])]
         else if v = AObj [] then AObj [(AStr ''idiomatic'', AObj [(AStr ''directory-package-mismatch'', ANull)])]
         else if mentions ''/w/a.rego'' v then mismatch_result else AObj []))\<rparr>,
      ce_loaded = [\<lparr>cm_module = sample_module, cm_file = None, cm_pointer = ''''\<rparr>], ce_wd = Some ''/w'', ce_home = None, ce_decode = \<lambda>s. DecodedEof,
      ce_open_output = \<lambda>f. None, ce_reporter = sample_reporter_env, ce_lint_error = \<lambda>e. ''lint'',
      ce_json_error = \<lambda>e. e, ce_junit_error = \<lambda>e. e,
      cf_fixer = sample_fixer_env, cf_schedule = \<lambda>i. [0..<length (FileNames i)], cf_range = \<lambda>fs. fs\<rparr>"

definition sample_fix_params :: fix_params where
  "sample_fix_params = lint_and_fix_params.extend (common_flags False)
     \<lparr>xp_conflict_mode = ''error'', xp_dry_run = False, xp_verbose = False\<rparr>"

definition sample_disk :: dnode where
  "sample_disk = DDir [(''w'', DDir [(''a.rego'', DFile ''q'' 420), (''p'', DDir [(''a.rego'', DFile ''old'' 420)])])]"

text \<open>\<open>/w/a.rego\<close>, of package \<open>p\<close>, is the file that is given; there is another file at \<open>/w/p/a.rego\<close>.\<close>

lemma sample_fix_in_memory:
  "fix_in_memory (on_disk sample_disk sample_fix_cmd_env) [''/w/a.rego''] sample_fix_params
     = Some (Inr ([''/w''],
         \<lparr>mem_files = [(''/w/a.rego'', ''q'')], mem_modified = [], mem_deleted = []\<rparr>,
         \<lparr>mem_files = [(''/w/p/a.rego'', ''q'')], mem_modified = [''/w/p/a.rego''], mem_deleted = [''/w/a.rego'']\<rparr>,
         \<lparr>fileFixes = [(''/w/p/a.rego'', [\<lparr>fr_rename = Some \<lparr>rn_from = ''/w/a.rego'', rn_to = ''/w/p/a.rego''\<rparr>,
            fr_title = ''directory-package-mismatch'', fr_root = ''/w'', fr_contents = ''q''\<rparr>])],
          movedFiles = [(''/w/p/a.rego'', [''/w/a.rego''])], conflictsManyToOne = [], conflictsSourceFile = [],
          totalFixes = 1\<rparr>))"
  by code_simp

definition sample_fix_lines :: "string list" where
  "sample_fix_lines = [''1 fix applied:'', ''In project root: /w'', ''a.rego -> p/a.rego:'', ''- directory-package-mismatch'']"

lemma sample_fix_on_disk:
  "fix_on_disk sample_fix_cmd_env [''/w/a.rego''] sample_fix_params sample_disk
     = Some (DDir [(''w'', DDir [(''p'', DDir [(''a.rego'', DFile ''q'' 420)])])], sample_fix_lines, None)"
  by code_simp

lemma sample_names:
  "path_elems ''/w/a.rego'' = [''w'', ''a.rego'']" "path_elems ''/w/p/a.rego'' = [''w'', ''p'', ''a.rego'']"
  by code_simp+

lemma sample_inj: "inj_on path_elems {''/w/a.rego'', ''/w/p/a.rego''}"
  by (simp add: inj_on_def sample_names)

lemma sample_write: "\<not> xp_dry_run sample_fix_params" "set (cf_range sample_fix_cmd_env fs) = set fs"
  by (simp_all add: sample_fix_params_def sample_fix_cmd_env_def lint_and_fix_params.extend_def)




text \<open>The same with a file \<open>/w/p\<close> where the package needs a directory.\<close>

definition blocked_disk :: dnode where
  "blocked_disk = DDir [(''w'', DDir [(''a.rego'', DFile ''q'' 420), (''p'', DFile ''notes'' 420)])]"

lemma blocked_fix_on_disk:
  "fix_on_disk sample_fix_cmd_env [''/w/a.rego''] sample_fix_params blocked_disk
     = Some (DDir [(''w'', DDir [(''p'', DFile ''notes'' 420)])], [],
         Some (WriteBackFailed (CreateDirFailed ''/w/p/a.rego'' NotADirectory)))"
  by code_simp

lemma failed_write_loses_moved_files_witness:
  "\<exists>d' e. fix_on_disk sample_fix_cmd_env [''/w/a.rego''] sample_fix_params blocked_disk
       = Some (d', [], Some (WriteBackFailed e))
     \<and> disk_view blocked_disk ''/w/a.rego'' = Some ''q'' \<and> disk_view d' ''/w/a.rego'' = None
     \<and> disk_view d' ''/w/p/a.rego'' = None"
proof -
  have mem: "fix_in_memory (on_disk blocked_disk sample_fix_cmd_env) [''/w/a.rego''] sample_fix_params
     = fix_in_memory (on_disk sample_disk sample_fix_cmd_env) [''/w/a.rego''] sample_fix_params" by code_simp
  have "disk_view blocked_disk ''/w/a.rego'' = Some ''q''"
    "disk_view (DDir [(''w'', DDir [(''p'', DFile ''notes'' 420)])]) ''/w/p/a.rego'' = None" by code_simp+
  with failed_write_loses_moved_files [OF blocked_fix_on_disk disjI1 [OF refl] sample_write(2)] blocked_fix_on_disk
  show ?thesis by (auto simp: mem sample_fix_in_memory sample_names)
qed

end
