(* ===== verification/Cmd_Lint_Proofs.thy ===== *)
theory Cmd_Lint_Proofs
  imports Cmd_Fix_Proofs
begin

text \<open>
  The exit code of \<open>regal lint\<close>, and where \<open>regal lint\<close> and \<open>regal fix\<close> differ in the configuration and the
  path prefix that they use for the same files.
\<close>

section \<open>The exit code\<close>

lemma count_levels_loop:
  "foldl (\<lambda>(errorsFound, warningsFound) v.
     if v_level v = ''error'' then (errorsFound + 1, warningsFound)
     else if v_level v = ''warning'' then (errorsFound, warningsFound + 1)
     else (errorsFound, warningsFound)) (m, n) vs
   = (m + length (filter (\<lambda>v. v_level v = ''error'') vs), n + length (filter (\<lambda>v. v_level v = ''warning'') vs))"
  by (induction vs arbitrary: m n) auto

lemma count_levels_eq:
  "count_levels vs = (length (filter (\<lambda>v. v_level v = ''error'') vs), length (filter (\<lambda>v. v_level v = ''warning'') vs))"
  using count_levels_loop [of 0 0 vs] by (simp add: count_levels_def)

lemma some_level: "0 < length (filter P vs) \<longleftrightarrow> list_ex P vs"
  by (induction vs) auto

text \<open>The exit code of \<open>regal lint\<close> is 3 for errors, 2 for warnings if these are to fail, and 0 otherwise;
  the fail level is not checked, so for any other level than \<open>error\<close> and \<open>warning\<close> it is 0 whatever was
  found.\<close>

theorem exit_code_levels:
  "exit_code failLevel vs =
     (if failLevel \<in> {''error'', ''warning''} \<and> list_ex (\<lambda>v. v_level v = ''error'') vs then 3
      else if failLevel = ''warning'' \<and> list_ex (\<lambda>v. v_level v = ''warning'') vs then 2
      else 0)"
  using some_level [of "\<lambda>v. v_level v = ''error''" vs] some_level [of "\<lambda>v. v_level v = ''warning''" vs]
  by (auto simp: exit_code_def count_levels_eq Let_def)

section \<open>The configuration\<close>

lemma with_custom_rules_prefix [simp]: "l_path_prefix (with_custom_rules env paths l) = l_path_prefix l"
  by (induction env paths l rule: with_custom_rules.induct)
    (auto simp: with_custom_rules_from_fs_def not_prepared_def split: option.splits sum.splits)

lemma with_custom_rules_paths_prefix [simp]: "l_path_prefix (with_custom_rules_paths env paths l) = l_path_prefix l"
  by (simp add: with_custom_rules_paths_def)

lemmas linter_options = with_path_prefix_def with_user_config_def with_ignore_def not_prepared_def

text \<open>When there is a Regal directory with a configuration file above the files, \<open>regal lint\<close> takes that
  file, even if a \<open>.regal.yaml\<close> is closer to the files, which \<open>regal fix\<close>, by way of \<open>Find\<close>, takes; and
  when both are in one directory, \<open>Find\<close> reports the conflict, but \<open>regal lint\<close> does not ask it.\<close>

theorem lint_skips_closer_config:
  assumes "cp_config_file params = ''''" "find_upwards (ce_fs env) search ''.regal'' True = Some (Inr dir)"
    and "rio_is_file env (fp_join [dir, ''config.yaml''])"
    and "find_upwards (ce_fs env) search ''.regal.yaml'' False = Some (Inr f)" "fp_is_abs dir"
  shows "read_user_config env (fst (use_regal_dir env dir params l)) search = Some (Inr (fp_join [dir, ''config.yaml'']))
    \<and> (if fp_dir dir = fp_dir f then find_config (ce_fs env) search = Some (Inl BothFound)
       else length (fp_dir dir) < length (fp_dir f) \<longrightarrow> read_user_config env params search = Some (Inr f))"
proof -
  have "fp_join [dir, ''config.yaml''] \<noteq> ''''"
    using assms(5) by (cases dir) (auto simp: fp_join_def fp_clean_def unclean_def Let_def fp_is_abs_def)
  then have "read_user_config env (fst (use_regal_dir env dir params l)) search = Some (Inr (fp_join [dir, ''config.yaml'']))"
    using assms(1,3) by (auto simp: read_user_config_def use_regal_dir_def Let_def open_file_def rio_is_file_def
        stat_dir_def split: option.splits)
  moreover have "find_config (ce_fs env) search = Some (Inl BothFound)" if "fp_dir dir = fp_dir f"
    using that assms(2,4) by (simp add: find_config_def)
  moreover have "read_user_config env params search = Some (Inr f)"
    if "fp_dir dir \<noteq> fp_dir f" "length (fp_dir dir) < length (fp_dir f)"
    using that assms(1,2,4) by (simp add: read_user_config_def find_config_def)
  ultimately show ?thesis by simp
qed

text \<open>A project with a Regal directory at its root and a configuration file of its own for one directory.\<close>

definition config_disk :: dnode where
  "config_disk = DDir [(''w'', DDir [(''.regal'', DDir [(''config.yaml'', DFile '''' 420)]),
     (''sub'', DDir [(''.regal.yaml'', DFile '''' 420), (''a.rego'', DFile ''q'' 420)])])]"

abbreviation config_env :: "(unit, unit, unit, string, string) fix_cmd_env" where
  "config_env \<equiv> on_disk config_disk sample_fix_cmd_env"

lemma lint_skips_closer_config_witness:
  "read_user_config config_env (fst (use_regal_dir config_env ''/w/.regal'' (lint_flags False) new_empty_linter)) ''/w/sub''
       = Some (Inr ''/w/.regal/config.yaml'')
   \<and> read_user_config config_env (lint_flags False) ''/w/sub'' = Some (Inr ''/w/sub/.regal.yaml'')"
proof -
  have flags: "cp_config_file (lint_flags False) = ''''" by code_simp
  have dir: "find_upwards (ce_fs config_env) ''/w/sub'' ''.regal'' True = Some (Inr ''/w/.regal'')" by code_simp
  have conf: "rio_is_file config_env (fp_join [''/w/.regal'', ''config.yaml''])" by code_simp
  have f: "find_upwards (ce_fs config_env) ''/w/sub'' ''.regal.yaml'' False = Some (Inr ''/w/sub/.regal.yaml'')" by code_simp
  have names: "fp_is_abs ''/w/.regal''" "fp_join [''/w/.regal'', ''config.yaml''] = ''/w/.regal/config.yaml''"
    "fp_dir ''/w/.regal'' = ''/w''" "fp_dir ''/w/sub/.regal.yaml'' = ''/w/sub''" by code_simp+
  from lint_skips_closer_config [OF flags dir conf f names(1), of new_empty_linter] show ?thesis
    by (simp add: names)
qed

section \<open>The path prefix\<close>

text \<open>For the same Regal directory \<open>dir\<close>, \<open>regal fix\<close> makes its parent the path prefix of the linter and
  \<open>regal lint\<close> the directory itself. No file of the project is below that, so the linter of \<open>regal lint\<close>
  matches the patterns of files to ignore with the whole path of a file, where that of \<open>regal fix\<close> matches
  them with the path from the root of the project.\<close>

theorem lint_prefix_is_regal_dir:
  assumes "lint_setup env args params = Some (Inr l)" "get_search_path env args = search" "search \<noteq> ''''"
    and "find_upwards (ce_fs env) search ''.regal'' True = Some (Inr dir)" "dir = root @ ''/.regal''"
    and "fp_dir dir = root" "root \<noteq> ''''" "\<not> has_suffix root ''/''" "\<not> has_prefix rel ''.regal/''" "\<not> has_prefix rel ''/''"
    and "has_prefix root ''/''"
  shows "l_path_prefix l = dir \<and> l_path_prefix (fix_linter env fixParams (Some dir)) = root
    \<and> exclude_file g pat (root @ ''/'' @ rel) (ensure_suffix (l_path_prefix l) ''/'')
        = glob_match g pat (tl (root @ ''/'' @ rel))
    \<and> exclude_file g pat (root @ ''/'' @ rel) (ensure_suffix (l_path_prefix (fix_linter env fixParams (Some dir))) ''/'')
        = glob_match g pat rel"
proof -
  have l: "l_path_prefix l = dir"
    using assms(1-4) by (auto simp: lint_setup_def Let_def bind_eq_Some_conv bind_res_eq_Inr use_regal_dir_def linter_options)
  have fx: "l_path_prefix (fix_linter env fixParams (Some dir)) = root"
    using assms(6) by (simp add: fix_linter_def Let_def linter_options)
  have dir': "ensure_suffix dir ''/'' = root @ ''/'' @ ''.regal/''"
    by (simp add: assms(5) ensure_suffix_def has_suffix_def)
  have root': "ensure_suffix root ''/'' = root @ ''/''" using assms(7,8) by (simp add: ensure_suffix_def)
  have no: "\<not> has_prefix (root @ ''/'' @ rel) (root @ ''/'' @ ''.regal/'')"
    using assms(9) by (auto simp: has_prefix_iff)
  have "trim_prefix (trim_prefix (root @ ''/'' @ rel) (root @ ''/'' @ ''.regal/'')) ''/'' = tl (root @ ''/'' @ rel)"
    using no assms(11) by (cases root) (auto simp: trim_prefix_def has_prefix_iff)
  moreover have "trim_prefix (trim_prefix (root @ ''/'' @ rel) (root @ ''/'')) ''/'' = rel"
    using trim_prefix_append [of "root @ ''/''" rel] assms(10) by (simp add: trim_prefix_def)
  ultimately show ?thesis unfolding l fx dir' root' by (simp add: exclude_file_def)
qed

lemma lint_prefix_is_regal_dir_witness:
  "\<exists>l. lint_setup config_env [''/w/sub''] (lint_flags False) = Some (Inr l)
     \<and> l_path_prefix l = ''/w/.regal''
     \<and> l_path_prefix (fix_linter config_env sample_fix_params (Some ''/w/.regal'')) = ''/w''
     \<and> \<not> exclude_file (lx_glob sample_lint_env) ''sub/a.rego'' ''/w/sub/a.rego'' (ensure_suffix (l_path_prefix l) ''/'')"
proof -
  have "(case lint_setup config_env [''/w/sub''] (lint_flags False) of Some (Inr l) \<Rightarrow> True | _ \<Rightarrow> False)" by code_simp
  then obtain l where l: "lint_setup config_env [''/w/sub''] (lint_flags False) = Some (Inr l)"
    by (auto split: option.splits sum.splits)
  have search: "get_search_path config_env [''/w/sub''] = ''/w/sub''" by code_simp
  have dir: "find_upwards (ce_fs config_env) ''/w/sub'' ''.regal'' True = Some (Inr ''/w/.regal'')" by code_simp
  have names: "''/w/.regal'' = ''/w'' @ ''/.regal''" "fp_dir ''/w/.regal'' = ''/w''" "''/w'' \<noteq> ''''"
    "\<not> has_suffix ''/w'' ''/''" "\<not> has_prefix ''sub/a.rego'' ''.regal/''" "\<not> has_prefix ''sub/a.rego'' ''/''"
    "has_prefix ''/w'' ''/''" by code_simp+
  have glob: "\<not> glob_match (lx_glob sample_lint_env) ''sub/a.rego'' ''w/sub/a.rego''" by code_simp
  from lint_prefix_is_regal_dir [OF l search _ dir names, of sample_fix_params "lx_glob sample_lint_env" "''sub/a.rego''"] l glob
  show ?thesis by auto
qed

end
