(* ===== verification/Roast_Ast.thy ===== *)
theory Roast_Ast
  imports Rast
begin

text \<open>
  OPA's syntax tree and \<open>internal/roast/transforms/module/module.go\<close>, which turns a module into a value
  without going through JSON. A node's location is a pointer: an address, which \<open>IsBodyGenerated\<close>
  compares, and what it points to. The parser makes no nil terms, expressions and values, and the model
  has none. The order of OPA's terms, the names of the kinds of value, \<open>Number.Int\<close>, \<open>Value.String\<close> and
  \<open>InterfaceToValue\<close> are fields of an environment, as is what the JSON library makes of types that have
  no encoder in this repository (\<open>Roast_Encode\<close>). A value from \<open>InterfaceToValue\<close> that cannot be
  converted is a panic, \<^term>\<open>None\<close>.
\<close>

section \<open>The syntax tree\<close>

type_synonym ast_loc = "nat \<times> ast_location"

datatype ast_term = Term ast_value "ast_loc option"
and ast_value =
    VNull
  | VBool bool
  | VNum string
  | VStr string
  | VVar string
  | VRef "ast_term list"
  | VCall "ast_term list"
  | VArray "ast_term list"
  | VObject "(ast_term \<times> ast_term) list"
  | VSet "ast_term list"
  | VArrayComp ast_term "ast_expr list"
  | VSetComp ast_term "ast_expr list"
  | VObjectComp ast_term ast_term "ast_expr list"
  | VTemplate "template_part list" bool
and template_part = TermPart ast_term | ExprPart ast_expr
and ast_with = With ast_term ast_term "ast_loc option"
and expr_terms =
    OneTerm ast_term
  | TermList "ast_term list"
  | SomeDecl "ast_loc option" "ast_term list"
  | Every "ast_loc option" "ast_term option" ast_term ast_term "ast_expr list"
  | NotBody "ast_loc option" "ast_expr list" bool
  | LogicalAnd "ast_loc option" "ast_expr list" "ast_expr list" bool bool
  | LogicalOr "ast_loc option" "ast_expr list" "ast_expr list" bool bool
and ast_expr = Expr bool bool "ast_with list" "expr_terms option" "ast_loc option"

type_synonym ast_body = "ast_expr list"

fun term_loc :: "ast_term \<Rightarrow> ast_loc option" where
  "term_loc (Term v l) = l"

fun term_value :: "ast_term \<Rightarrow> ast_value" where
  "term_value (Term v l) = v"

fun expr_loc :: "ast_expr \<Rightarrow> ast_loc option" where
  "expr_loc (Expr negated generated withs terms l) = l"

record 'x schema_annotation =
  sa_path :: "ast_term list"
  sa_schema :: "ast_term list"
  sa_definition :: "'x option"

record 'x annotations =
  an_scope :: string
  an_title :: string
  an_description :: string
  an_entrypoint :: bool
  an_organizations :: "string list"
  an_related :: "(string \<times> string) list"
  an_authors :: "(string \<times> string) list"
  an_schemas :: "'x schema_annotation list"
  an_custom :: "(string \<times> 'x) list"
  an_loc :: "ast_loc option"

record ast_head =
  h_reference :: "ast_term list option"
  h_args :: "ast_term list"
  h_assign :: bool
  h_key :: "ast_term option"
  h_value :: "ast_term option"
  h_loc :: "ast_loc option"

datatype 'x ast_rule = Rule
  (r_loc: "ast_loc option") (r_annotations: "'x annotations list") (r_default: bool)
  (r_head: "ast_head option") (r_body: ast_body) (r_else: "'x ast_rule option")

record ast_import =
  im_path :: "ast_term option"
  im_alias :: string
  im_loc :: "ast_loc option"

record ast_package =
  pk_path :: "ast_term list option"
  pk_loc :: "ast_loc option"

record 'x ast_module =
  m_package :: "ast_package option"
  m_imports :: "ast_import list"
  m_rules :: "'x ast_rule list"
  m_comments :: "ast_location list"
  m_annotations :: "'x annotations list"

record 'x roast_env =
  te_name :: "ast_value \<Rightarrow> string"
  te_int :: "string \<Rightarrow> int option"
  te_rank :: "ast_term \<Rightarrow> nat"
  te_string :: "ast_value \<Rightarrow> string"
  te_interface :: "'x \<Rightarrow> aval option"
  te_custom :: "(string \<times> 'x) list \<Rightarrow> aval option"
  te_json_null :: aval
  te_json_any :: "'x \<Rightarrow> aval"
  te_json_related :: "string \<times> string \<Rightarrow> aval"
  te_json_author :: "string \<times> string \<Rightarrow> aval"
  te_json_schema :: "'x schema_annotation \<Rightarrow> aval"

section \<open>Generated bodies\<close>

text \<open>\<open>IsBodyGenerated\<close> of \<open>pkg/roast/rast/rast.go\<close>: locations are compared as pointers, and a nil
  location of the first expression or the key makes the last test panic.\<close>

definition same_ptr :: "ast_loc option \<Rightarrow> ast_loc option \<Rightarrow> bool" where
  "same_ptr a b \<longleftrightarrow> map_option fst a = map_option fst b"

definition is_body_generated :: "'x ast_rule \<Rightarrow> bool option" where
  "is_body_generated r =
     (if r_default r \<or> r_body r = [] then Some True
      else case r_head r of
        None \<Rightarrow> Some False
      | Some h \<Rightarrow>
          let bodyStart = expr_loc (hd (r_body r)) in
          if same_ptr bodyStart (r_loc r)
             \<or> (case h_value h of Some v \<Rightarrow> same_ptr bodyStart (term_loc v) | None \<Rightarrow> False)
          then Some True
          else (case h_key h of
              None \<Rightarrow> Some False
            | Some k \<Rightarrow> (case (bodyStart, term_loc k) of
                  (Some (_, b), Some (_, kl)) \<Rightarrow> Some (loc_row b = loc_row kl \<and> loc_col b < loc_col kl)
                | _ \<Rightarrow> None)))"

section \<open>Objects\<close>

text \<open>The items of an object, in the order in which they are inserted, their keys being different.\<close>

definition field :: "string \<Rightarrow> aval \<Rightarrow> (aval \<times> aval) list" where
  "field key v = [(AStr key, v)]"

definition field_if :: "bool \<Rightarrow> string \<Rightarrow> aval \<Rightarrow> (aval \<times> aval) list" where
  "field_if c key v = (if c then field key v else [])"

definition loc_term :: "ast_loc \<Rightarrow> aval" where
  "loc_term l = AStr (append_location '''' (snd l))"

definition loc_fields :: "ast_loc option \<Rightarrow> (aval \<times> aval) list" where
  "loc_fields l = (case l of None \<Rightarrow> [] | Some l \<Rightarrow> field ''location'' (loc_term l))"

section \<open>Terms and bodies\<close>

text \<open>\<open>termToObjectLoc\<close>, over the value of the term.\<close>

definition term_object :: "'x roast_env \<Rightarrow> bool \<Rightarrow> ast_value \<Rightarrow> aval \<Rightarrow> ast_loc option \<Rightarrow> aval" where
  "term_object env includeLocation v value l =
     AObj (field ''type'' (AStr (te_name env v)) @ field ''value'' value
       @ (if includeLocation then loc_fields l else []))"

text \<open>Sets and objects keep their elements in the order of OPA's terms.\<close>

definition by_rank :: "'x roast_env \<Rightarrow> ast_term list \<Rightarrow> 'a list \<Rightarrow> 'a list" where
  "by_rank env ts vs = map snd (sort_key (\<lambda>(t, _). te_rank env t) (zip ts vs))"

definition number_to_value :: "'x roast_env \<Rightarrow> string \<Rightarrow> aval" where
  "number_to_value env s = (case te_int env s of Some i \<Rightarrow> ANum (itoa_int i) | None \<Rightarrow> ANum s)"

definition logical_to_term :: "string \<Rightarrow> ast_loc option \<Rightarrow> aval \<Rightarrow> aval \<Rightarrow> bool \<Rightarrow> bool \<Rightarrow> aval" where
  "logical_to_term oper l lhs rhs explicitLhs explicitRhs =
     AObj (loc_fields l @ field ''type'' (AStr oper) @ field_if explicitLhs ''explicit_lhs'' (ABool True)
       @ field_if explicitRhs ''explicit_rhs'' (ABool True) @ field ''lhs'' lhs @ field ''rhs'' rhs)"

text \<open>The terms of an expression inside a template string: only a term or a list of terms is kept.\<close>

definition interpolated_terms :: "expr_terms option \<Rightarrow> aval option \<Rightarrow> (aval \<times> aval) list" where
  "interpolated_terms terms value =
     (case (terms, value) of
        (Some (OneTerm _), Some v) \<Rightarrow> field ''terms'' v
      | (Some (TermList _), Some v) \<Rightarrow> field ''terms'' v
      | _ \<Rightarrow> [])"

primrec term_to_object :: "'x roast_env \<Rightarrow> ast_term \<Rightarrow> aval"
  and term_value_term :: "'x roast_env \<Rightarrow> ast_value \<Rightarrow> aval"
  and part_to_value :: "'x roast_env \<Rightarrow> template_part \<Rightarrow> aval"
  and with_to_object :: "'x roast_env \<Rightarrow> ast_with \<Rightarrow> aval"
  and terms_to_value :: "'x roast_env \<Rightarrow> expr_terms \<Rightarrow> aval"
  and expr_to_object :: "'x roast_env \<Rightarrow> ast_expr \<Rightarrow> aval \<times> aval" where
  "term_to_object env (Term v l) = term_object env True v (term_value_term env v) l"
| "term_value_term env VNull = ANull"
| "term_value_term env (VBool b) = ABool b"
| "term_value_term env (VNum s) = number_to_value env s"
| "term_value_term env (VStr s) = AStr s"
| "term_value_term env (VVar s) = AStr s"
| "term_value_term env (VRef ts) = AArr (map (term_to_object env) ts)"
| "term_value_term env (VCall ts) = AArr (map (term_to_object env) ts)"
| "term_value_term env (VArray ts) = AArr (map (term_to_object env) ts)"
| "term_value_term env (VObject kvs) =
     AArr (by_rank env (map fst kvs)
       (map (\<lambda>(k, v). AArr [k, v]) (map (map_prod (term_to_object env) (term_to_object env)) kvs)))"
| "term_value_term env (VSet ts) = AArr (by_rank env ts (map (term_to_object env) ts))"
| "term_value_term env (VArrayComp t b) =
     AObj (field ''term'' (term_to_object env t) @ field ''body'' (AArr (map (fst \<circ> expr_to_object env) b)))"
| "term_value_term env (VSetComp t b) =
     AObj (field ''term'' (term_to_object env t) @ field ''body'' (AArr (map (fst \<circ> expr_to_object env) b)))"
| "term_value_term env (VObjectComp k v b) =
     AObj (field ''key'' (term_to_object env k) @ field ''value'' (term_to_object env v)
       @ field ''body'' (AArr (map (fst \<circ> expr_to_object env) b)))"
| "term_value_term env (VTemplate ps multiLine) =
     AObj (field ''parts'' (AArr (map (part_to_value env) ps)) @ field_if multiLine ''multi_line'' (ABool True))"
| "part_to_value env (TermPart t) = term_to_object env t"
| "part_to_value env (ExprPart e) = snd (expr_to_object env e)"
| "with_to_object env (With target value l) =
     AObj (loc_fields l @ field ''target'' (term_to_object env target) @ field ''value'' (term_to_object env value))"
| "terms_to_value env (OneTerm t) = term_to_object env t"
| "terms_to_value env (TermList ts) = AArr (map (term_to_object env) ts)"
| "terms_to_value env (SomeDecl l ts) = AObj (loc_fields l @ field ''symbols'' (AArr (map (term_to_object env) ts)))"
| "terms_to_value env (Every l k v d b) =
     AObj (loc_fields l
       @ (case map_option (term_to_object env) k of None \<Rightarrow> [] | Some k \<Rightarrow> field ''key'' k)
       @ field ''value'' (term_to_object env v) @ field ''domain'' (term_to_object env d)
       @ field ''body'' (AArr (map (fst \<circ> expr_to_object env) b)))"
| "terms_to_value env (NotBody l b explicitBody) =
     AObj (loc_fields l @ field ''type'' (AStr ''not'') @ field ''body'' (AArr (map (fst \<circ> expr_to_object env) b))
       @ field_if explicitBody ''explicit_body'' (ABool True))"
| "terms_to_value env (LogicalAnd l lhs rhs el er) = logical_to_term ''and'' l
     (AArr (map (fst \<circ> expr_to_object env) lhs)) (AArr (map (fst \<circ> expr_to_object env) rhs)) el er"
| "terms_to_value env (LogicalOr l lhs rhs el er) = logical_to_term ''or'' l
     (AArr (map (fst \<circ> expr_to_object env) lhs)) (AArr (map (fst \<circ> expr_to_object env) rhs)) el er"
| "expr_to_object env (Expr negated generated withs terms l) =
     (AObj (loc_fields l @ field_if negated ''negated'' (ABool True) @ field_if generated ''generated'' (ABool True)
        @ field_if (withs \<noteq> []) ''with'' (AArr (map (with_to_object env) withs))
        @ (case map_option (terms_to_value env) terms of None \<Rightarrow> [] | Some v \<Rightarrow> field ''terms'' v)),
      AObj (loc_fields l @ interpolated_terms terms (map_option (terms_to_value env) terms)
        @ field ''interpolated'' (ABool True)))"

section \<open>Modules\<close>

definition body_to_array :: "'x roast_env \<Rightarrow> ast_body \<Rightarrow> aval" where
  "body_to_array env b = AArr (map (fst \<circ> expr_to_object env) b)"

text \<open>\<open>pathArray\<close>: the location of the first term, \<open>data\<close>, is left out.\<close>

definition term_to_object_loc :: "'x roast_env \<Rightarrow> ast_term \<Rightarrow> bool \<Rightarrow> aval" where
  "term_to_object_loc env t includeLocation =
     term_object env includeLocation (term_value t) (term_value_term env (term_value t)) (term_loc t)"

definition path_array :: "'x roast_env \<Rightarrow> ast_term list \<Rightarrow> aval" where
  "path_array env ts = AArr (map (\<lambda>i. term_to_object_loc env (ts ! i) (i \<noteq> 0)) [0..<length ts])"

definition ref_to_array :: "'x roast_env \<Rightarrow> ast_term list \<Rightarrow> aval" where
  "ref_to_array env ref = AArr (map (\<lambda>t. case term_value t of VStr s \<Rightarrow> AStr s | v \<Rightarrow> AStr (te_string env v)) ref)"

definition related_to_object :: "string \<times> string \<Rightarrow> aval" where
  "related_to_object rr = AObj (field ''ref'' (AStr (fst rr)) @ field_if (snd rr \<noteq> '''') ''description'' (AStr (snd rr)))"

definition author_to_object :: "string \<times> string \<Rightarrow> aval" where
  "author_to_object author = AObj (field_if (fst author \<noteq> '''') ''name'' (AStr (fst author))
     @ field_if (snd author \<noteq> '''') ''email'' (AStr (snd author)))"

definition schema_to_object :: "'x roast_env \<Rightarrow> 'x schema_annotation \<Rightarrow> aval option" where
  "schema_to_object env s =
     Option.bind (case sa_definition s of None \<Rightarrow> Some [] | Some def \<Rightarrow> map_option (field ''definition'') (te_interface env def))
       (\<lambda>def. Some (AObj (field_if (sa_path s \<noteq> []) ''path'' (ref_to_array env (sa_path s))
          @ field_if (sa_schema s \<noteq> []) ''schema'' (ref_to_array env (sa_schema s)) @ def)))"

text \<open>All results of a list of calls that may panic.\<close>

fun all_some :: "'a option list \<Rightarrow> 'a list option" where
  "all_some [] = Some []"
| "all_some (x # xs) = Option.bind x (\<lambda>v. map_option ((#) v) (all_some xs))"

definition annotations_to_object :: "'x roast_env \<Rightarrow> 'x annotations \<Rightarrow> aval option" where
  "annotations_to_object env a =
     Option.bind (all_some (map (schema_to_object env) (an_schemas a))) (\<lambda>ss.
     Option.bind (if an_custom a = [] then Some [] else map_option (field ''custom'') (te_custom env (an_custom a))) (\<lambda>c.
       Some (AObj (loc_fields (an_loc a)
         @ field_if (an_scope a \<noteq> '''') ''scope'' (AStr (an_scope a))
         @ field_if (an_title a \<noteq> '''') ''title'' (AStr (an_title a))
         @ field_if (an_entrypoint a) ''entrypoint'' (ABool True)
         @ field_if (an_description a \<noteq> '''') ''description'' (AStr (an_description a))
         @ field_if (an_organizations a \<noteq> []) ''organizations'' (AArr (map AStr (an_organizations a)))
         @ field_if (an_related a \<noteq> []) ''related_resources'' (AArr (map related_to_object (an_related a)))
         @ field_if (an_authors a \<noteq> []) ''authors'' (AArr (map author_to_object (an_authors a)))
         @ field_if (an_schemas a \<noteq> []) ''schemas'' (AArr ss) @ c))))"

definition package_scope :: "'x annotations \<Rightarrow> bool" where
  "package_scope a \<longleftrightarrow> an_scope a \<noteq> ''document'' \<and> an_scope a \<noteq> ''rule''"

definition package_to_value :: "'x roast_env \<Rightarrow> ast_package \<Rightarrow> 'x annotations list \<Rightarrow> aval option" where
  "package_to_value env p as =
     Option.bind (all_some (map (annotations_to_object env) (filter package_scope as))) (\<lambda>pkgan.
       Some (AObj (loc_fields (pk_loc p)
         @ (case pk_path p of None \<Rightarrow> [] | Some ts \<Rightarrow> field ''path'' (path_array env ts))
         @ field_if (pkgan \<noteq> []) ''annotations'' (AArr pkgan))))"

text \<open>A nil path of an import is an empty object.\<close>

definition import_to_object :: "'x roast_env \<Rightarrow> ast_import \<Rightarrow> aval" where
  "import_to_object env i =
     AObj (loc_fields (im_loc i)
       @ field ''path'' (case im_path i of None \<Rightarrow> AObj [] | Some t \<Rightarrow> term_to_object_loc env t True)
       @ field_if (im_alias i \<noteq> '''') ''alias'' (AStr (im_alias i)))"

text \<open>The value of a head, without its location if that is the one of the head: the term is changed in
  place, so the location is gone for whoever looks at the module afterwards.\<close>

definition strip_value_loc :: "ast_head \<Rightarrow> ast_head" where
  "strip_value_loc h =
     (case (h_value h, h_loc h) of
        (Some (Term v (Some (_, vl))), Some (_, hl)) \<Rightarrow>
          if loc_row vl = loc_row hl \<and> loc_col vl = loc_col hl then h\<lparr>h_value := Some (Term v None)\<rparr> else h
      | _ \<Rightarrow> h)"

definition head_to_object :: "'x roast_env \<Rightarrow> ast_head \<Rightarrow> aval" where
  "head_to_object env h =
     (let opt = (\<lambda>key t. case t of None \<Rightarrow> [] | Some t \<Rightarrow> field key (term_to_object env t)) in
      AObj (loc_fields (h_loc h)
        @ (case h_reference h of None \<Rightarrow> [] | Some ref \<Rightarrow> field ''ref'' (term_value_term env (VRef ref)))
        @ field_if (h_args h \<noteq> []) ''args'' (AArr (map (term_to_object env) (h_args h)))
        @ field_if (h_assign h) ''assign'' (ABool True)
        @ opt ''key'' (h_key h) @ opt ''value'' (h_value (strip_value_loc h))))"

primrec module_rule_to_object :: "'x roast_env \<Rightarrow> 'x ast_rule \<Rightarrow> aval option" where
  "module_rule_to_object env (Rule l as dflt head body els) =
     Option.bind (is_body_generated (Rule l as dflt head body els)) (\<lambda>generated.
     Option.bind (all_some (map (annotations_to_object env) as)) (\<lambda>ans.
     Option.bind (case map_option (module_rule_to_object env) els of None \<Rightarrow> Some [] | Some e \<Rightarrow> map_option (field ''else'') e) (\<lambda>els.
       Some (AObj (loc_fields l @ field_if (as \<noteq> []) ''annotations'' (AArr ans)
         @ field_if dflt ''default'' (ABool True)
         @ (case head of None \<Rightarrow> [] | Some h \<Rightarrow> field ''head'' (head_to_object env h))
         @ field_if (\<not> generated) ''body'' (body_to_array env body) @ els)))))"

definition to_value :: "'x roast_env \<Rightarrow> 'x ast_module \<Rightarrow> aval option" where
  "to_value env m =
     Option.bind (case m_package m of None \<Rightarrow> Some []
       | Some p \<Rightarrow> map_option (field ''package'') (package_to_value env p (m_annotations m))) (\<lambda>pkg.
     Option.bind (all_some (map (module_rule_to_object env) (m_rules m))) (\<lambda>rls.
       Some (AObj (pkg
         @ field_if (m_imports m \<noteq> []) ''imports'' (AArr (map (import_to_object env) (m_imports m)))
         @ field_if (m_rules m \<noteq> []) ''rules'' (AArr rls)
         @ field_if (m_comments m \<noteq> []) ''comments''
             (AArr (map (\<lambda>l. AStr (append_location '''' l)) (m_comments m)))))))"

end
