(* ===== verification/Roast_Encode.thy ===== *)
theory Roast_Encode
  imports Roast_Ast
begin

text \<open>
  \<open>internal/roast/encoding\<close>: the JSON encoders of OPA's syntax tree, and the helpers of its package
  \<open>write\<close>. The stream of the JSON library is a buffer of tokens with an attachment; a literal is a
  string, a boolean, a number or any other value that the library writes by itself, and \<^term>\<open>Raw\<close> is text
  that is put into the buffer as it is. An encoder is a function
  on streams, and the statements of its body are the list that \<open>run\<close> goes through. Encoders of modules may
  panic; whether they do is independent of the stream.
\<close>

section \<open>Streams\<close>

datatype token = ObjStart | ObjEnd | ArrStart | ArrEnd | Comma | Key string | Raw string | Lit aval

datatype 'x attachment = Unattached | Interpolated | Annotated "'x annotations list"

record 'x json_stream =
  st_buf :: "token list"
  st_att :: "'x attachment"

type_synonym 'x writer = "'x json_stream \<Rightarrow> 'x json_stream"

definition put :: "token \<Rightarrow> 'x writer" where
  "put t s = s\<lparr>st_buf := st_buf s @ [t]\<rparr>"

definition attach :: "'x attachment \<Rightarrow> 'x writer" where
  "attach a s = s\<lparr>st_att := a\<rparr>"

definition run :: "'x writer list \<Rightarrow> 'x writer" where
  "run ws s = fold (\<lambda>w. w) ws s"

definition only_if :: "bool \<Rightarrow> 'x writer \<Rightarrow> 'x writer" where
  "only_if c w = (if c then w else (\<lambda>s. s))"

section \<open>The package write\<close>

fun write_items :: "nat \<Rightarrow> 'x writer list \<Rightarrow> 'x writer" where
  "write_items i [] s = s"
| "write_items i (w # ws) s = write_items (Suc i) ws (w (if i > 0 then put Comma s else s))"

definition vals_array :: "'x writer list \<Rightarrow> 'x writer" where
  "vals_array ws = run [put ArrStart, write_items 0 ws, put ArrEnd]"

definition write_val :: "string \<Rightarrow> 'x writer \<Rightarrow> 'x writer" where
  "write_val key w = run [put (Key key), w, put Comma]"

definition vals_array_attr :: "string \<Rightarrow> 'x writer list \<Rightarrow> 'x writer" where
  "vals_array_attr name ws = run [put (Key name), vals_array ws, put Comma]"

definition write_string :: "string \<Rightarrow> string \<Rightarrow> 'x writer" where
  "write_string key v = run [put (Key key), put (Lit (AStr v)), put Comma]"

definition write_bool :: "string \<Rightarrow> bool \<Rightarrow> 'x writer" where
  "write_bool key v = run [put (Key key), put (Lit (ABool v)), put Comma]"

definition write_object :: "string \<Rightarrow> (string \<times> 'x writer) list \<Rightarrow> 'x writer" where
  "write_object name obj =
     run [put (Key name), put ObjStart, write_items 0 (map (\<lambda>(k, w). run [put (Key k), w]) obj), put ObjEnd, put Comma]"

text \<open>The encoder of a location: its text between quotes.\<close>

definition encode_location :: "ast_location \<Rightarrow> 'x writer" where
  "encode_location l = put (Lit (AStr (append_location '''' l)))"

definition object_start :: "ast_loc option \<Rightarrow> 'x writer" where
  "object_start l = run [put ObjStart,
     (case l of None \<Rightarrow> run [] | Some (_, l) \<Rightarrow> write_val ''location'' (encode_location l))]"

text \<open>\<open>bytes.TrimRight\<close>: the commas (and blanks, which nobody writes) at the end of the buffer.\<close>

definition trim_commas :: "token list \<Rightarrow> token list" where
  "trim_commas ts = rev (dropWhile (\<lambda>t. t = Comma) (rev ts))"

definition object_end :: "'x writer" where
  "object_end s = put ObjEnd (s\<lparr>st_buf := trim_commas (st_buf s)\<rparr>)"

definition write_term :: "'x roast_env \<Rightarrow> ast_value \<Rightarrow> 'x writer \<Rightarrow> ast_loc option \<Rightarrow> 'x writer" where
  "write_term env v w l =
     run [object_start l, write_string ''type'' (te_name env v), write_val ''value'' w, object_end]"

section \<open>Terms and expressions\<close>

definition write_logical :: "string \<Rightarrow> ast_loc option \<Rightarrow> 'x writer list \<Rightarrow> 'x writer list \<Rightarrow> bool \<Rightarrow> bool \<Rightarrow> 'x writer" where
  "write_logical oper l lhs rhs explicitLhs explicitRhs =
     run [object_start l, write_val ''type'' (put (Lit (AStr oper))),
       only_if explicitLhs (write_bool ''explicit_lhs'' explicitLhs),
       only_if explicitRhs (write_bool ''explicit_rhs'' explicitRhs),
       write_val ''lhs'' (vals_array lhs), write_val ''rhs'' (vals_array rhs), object_end]"

text \<open>The attachment that a template string leaves for the expressions in it.\<close>

definition take_interpolated :: "'x writer" where
  "take_interpolated s =
     (if st_att s = Interpolated then attach Unattached (write_bool ''interpolated'' True s) else s)"

text \<open>One encoder per type, over the encoders of the parts.\<close>

definition number_codec :: "string \<Rightarrow> 'x writer" where
  "number_codec s = put (Lit (ANum s))"

definition ref_codec :: "'x writer list \<Rightarrow> 'x writer" where
  "ref_codec ts = vals_array ts"

definition array_codec :: "'x writer list \<Rightarrow> 'x writer" where
  "array_codec ts = run [put ArrStart, write_items 0 ts, put ArrEnd]"

definition object_codec :: "('x writer \<times> 'x writer) list \<Rightarrow> 'x writer" where
  "object_codec kvs = run [put ArrStart,
     write_items 0 (map (\<lambda>(k, v). run [put ArrStart, k, put Comma, v, put ArrEnd]) kvs), put ArrEnd]"

definition set_codec :: "'x writer list \<Rightarrow> 'x writer" where
  "set_codec ts = vals_array ts"

definition array_comprehension_codec :: "'x writer \<Rightarrow> 'x writer list \<Rightarrow> 'x writer" where
  "array_comprehension_codec t b = run [put ObjStart, put (Key ''term''), t, put Comma,
     put (Key ''body''), vals_array b, put ObjEnd]"

definition set_comprehension_codec :: "'x writer \<Rightarrow> 'x writer list \<Rightarrow> 'x writer" where
  "set_comprehension_codec t b = run [put ObjStart, put (Key ''term''), t, put Comma,
     put (Key ''body''), vals_array b, put ObjEnd]"

definition object_comprehension_codec :: "'x writer \<Rightarrow> 'x writer \<Rightarrow> 'x writer list \<Rightarrow> 'x writer" where
  "object_comprehension_codec k v b =
     run [object_start None, write_val ''key'' k, write_val ''value'' v, vals_array_attr ''body'' b, object_end]"

definition template_string_codec :: "'x writer list \<Rightarrow> bool \<Rightarrow> 'x writer" where
  "template_string_codec ps multiLine =
     run [put ObjStart,
       only_if multiLine (run [put (Key ''multi_line''), put (Lit (ABool multiLine)), put Comma]),
       put (Key ''parts''), put ArrStart, write_items 0 ps, put ArrEnd, put ObjEnd]"

definition with_codec :: "ast_loc option \<Rightarrow> 'x writer \<Rightarrow> 'x writer \<Rightarrow> 'x writer" where
  "with_codec l target value =
     run [object_start l, put (Key ''target''), target, put Comma, put (Key ''value''), value, object_end]"

definition some_decl_codec :: "ast_loc option \<Rightarrow> 'x writer list \<Rightarrow> 'x writer" where
  "some_decl_codec l ts = run [object_start l, vals_array_attr ''symbols'' ts, object_end]"

definition every_codec :: "ast_loc option \<Rightarrow> 'x writer option \<Rightarrow> 'x writer \<Rightarrow> 'x writer \<Rightarrow> 'x writer list \<Rightarrow> 'x writer" where
  "every_codec l key v d b =
     run [object_start l,
       (case key of None \<Rightarrow> run [] | Some k \<Rightarrow> run [put (Key ''key''), k, put Comma]),
       put (Key ''value''), v, put Comma, put (Key ''domain''), d, put Comma,
       put (Key ''body''), vals_array b, put ObjEnd]"

definition not_codec :: "ast_loc option \<Rightarrow> 'x writer list \<Rightarrow> bool \<Rightarrow> 'x writer" where
  "not_codec l b explicitBody =
     run [object_start l, write_val ''type'' (put (Lit (AStr ''not''))),
       only_if explicitBody (write_bool ''explicit_body'' explicitBody),
       write_val ''body'' (vals_array b), object_end]"

definition expr_codec :: "ast_loc option \<Rightarrow> bool \<Rightarrow> bool \<Rightarrow> 'x writer list \<Rightarrow> 'x writer option \<Rightarrow> 'x writer" where
  "expr_codec l negated generated withs terms =
     run [object_start l, only_if negated (write_bool ''negated'' negated),
       only_if generated (write_bool ''generated'' generated), take_interpolated,
       only_if (withs \<noteq> []) (vals_array_attr ''with'' withs),
       (case terms of None \<Rightarrow> run [] | Some w \<Rightarrow> run [put (Key ''terms''), w]),
       object_end]"

text \<open>The library's choice of the encoder: that of the type, or its own for strings, booleans and calls.\<close>

primrec encode_term :: "'x roast_env \<Rightarrow> ast_term \<Rightarrow> 'x writer"
  and encode_value :: "'x roast_env \<Rightarrow> ast_value \<Rightarrow> 'x writer"
  and encode_part :: "'x roast_env \<Rightarrow> template_part \<Rightarrow> 'x writer"
  and encode_with :: "'x roast_env \<Rightarrow> ast_with \<Rightarrow> 'x writer"
  and encode_terms :: "'x roast_env \<Rightarrow> expr_terms \<Rightarrow> 'x writer"
  and encode_expr :: "'x roast_env \<Rightarrow> ast_expr \<Rightarrow> 'x writer" where
  "encode_term env (Term v l) = write_term env v (encode_value env v) l"
| "encode_value env VNull = put (Lit (te_json_null env))"
| "encode_value env (VBool b) = put (Lit (ABool b))"
| "encode_value env (VNum s) = number_codec s"
| "encode_value env (VStr s) = put (Lit (AStr s))"
| "encode_value env (VVar s) = put (Lit (AStr s))"
| "encode_value env (VRef ts) = ref_codec (map (encode_term env) ts)"
| "encode_value env (VCall ts) = vals_array (map (encode_term env) ts)"
| "encode_value env (VArray ts) = array_codec (map (encode_term env) ts)"
| "encode_value env (VObject kvs) = object_codec (map (map_prod (encode_term env) (encode_term env)) kvs)"
| "encode_value env (VSet ts) = set_codec (map (encode_term env) ts)"
| "encode_value env (VArrayComp t b) = array_comprehension_codec (encode_term env t) (map (encode_expr env) b)"
| "encode_value env (VSetComp t b) = set_comprehension_codec (encode_term env t) (map (encode_expr env) b)"
| "encode_value env (VObjectComp k v b) =
     object_comprehension_codec (encode_term env k) (encode_term env v) (map (encode_expr env) b)"
| "encode_value env (VTemplate ps multiLine) = template_string_codec (map (encode_part env) ps) multiLine"
| "encode_part env (TermPart t) = encode_term env t"
| "encode_part env (ExprPart e) = run [attach Interpolated, encode_expr env e]"
| "encode_with env (With target value l) = with_codec l (encode_term env target) (encode_term env value)"
| "encode_terms env (OneTerm t) = encode_term env t"
| "encode_terms env (TermList ts) = vals_array (map (encode_term env) ts)"
| "encode_terms env (SomeDecl l ts) = some_decl_codec l (map (encode_term env) ts)"
| "encode_terms env (Every l k v d b) =
     every_codec l (map_option (encode_term env) k) (encode_term env v) (encode_term env d) (map (encode_expr env) b)"
| "encode_terms env (NotBody l b explicitBody) = not_codec l (map (encode_expr env) b) explicitBody"
| "encode_terms env (LogicalAnd l lhs rhs el er) =
     write_logical ''and'' l (map (encode_expr env) lhs) (map (encode_expr env) rhs) el er"
| "encode_terms env (LogicalOr l lhs rhs el er) =
     write_logical ''or'' l (map (encode_expr env) lhs) (map (encode_expr env) rhs) el er"
| "encode_expr env (Expr negated generated withs terms l) =
     expr_codec l negated generated (map (encode_with env) withs) (map_option (encode_terms env) terms)"

definition encode_body :: "'x roast_env \<Rightarrow> ast_body \<Rightarrow> 'x writer" where
  "encode_body env b = vals_array (map (encode_expr env) b)"

definition encode_ref :: "'x roast_env \<Rightarrow> ast_term list \<Rightarrow> 'x writer" where
  "encode_ref env ref = vals_array (map (encode_term env) ref)"

section \<open>Modules\<close>

definition encode_annotations :: "'x roast_env \<Rightarrow> 'x annotations \<Rightarrow> 'x writer" where
  "encode_annotations env a =
     run [object_start (an_loc a), write_string ''scope'' (an_scope a),
       only_if (an_title a \<noteq> '''') (write_string ''title'' (an_title a)),
       only_if (an_description a \<noteq> '''') (write_string ''description'' (an_description a)),
       only_if (an_entrypoint a) (write_bool ''entrypoint'' (an_entrypoint a)),
       only_if (an_organizations a \<noteq> []) (vals_array_attr ''organizations'' (map (\<lambda>s. put (Lit (AStr s))) (an_organizations a))),
       only_if (an_related a \<noteq> [])
         (vals_array_attr ''related_resources'' (map (\<lambda>r. put (Lit (te_json_related env r))) (an_related a))),
       only_if (an_authors a \<noteq> [])
         (vals_array_attr ''authors'' (map (\<lambda>p. put (Lit (te_json_author env p))) (an_authors a))),
       only_if (an_schemas a \<noteq> [])
         (vals_array_attr ''schemas'' (map (\<lambda>c. put (Lit (te_json_schema env c))) (an_schemas a))),
       only_if (an_custom a \<noteq> [])
         (write_object ''custom'' (map (\<lambda>(k, v). (k, put (Lit (te_json_any env v)))) (an_custom a))),
       object_end]"

text \<open>\<open>write.Val(stream, "annotations", stream.Attachment)\<close>: a list without elements is a nil slice, as
  \<open>util.Filter\<close> makes one.\<close>

definition write_attachment :: "'x roast_env \<Rightarrow> 'x writer" where
  "write_attachment env s =
     (case st_att s of
        Unattached \<Rightarrow> s
      | Interpolated \<Rightarrow> write_val ''annotations'' (put (Lit (AStr ''interpolated''))) s
      | Annotated [] \<Rightarrow> write_val ''annotations'' (put (Lit ANull)) s
      | Annotated as \<Rightarrow> write_val ''annotations'' (vals_array (map (encode_annotations env) as)) s)"

fun clear_loc :: "ast_term \<Rightarrow> ast_term" where
  "clear_loc (Term v l) = Term v None"

definition encode_package :: "'x roast_env \<Rightarrow> ast_package \<Rightarrow> 'x writer option" where
  "encode_package env p =
     (case pk_path p of
        None \<Rightarrow> Some (run [object_start (pk_loc p), write_attachment env, object_end])
      | Some [] \<Rightarrow> None
      | Some (t # ts) \<Rightarrow> Some (run [object_start (pk_loc p),
          write_val ''path'' (encode_ref env (clear_loc t # ts)), write_attachment env, object_end]))"

definition encode_import :: "'x roast_env \<Rightarrow> ast_import \<Rightarrow> 'x writer" where
  "encode_import env i =
     run [object_start (im_loc i),
       (case im_path i of
          None \<Rightarrow> run []
        | Some t \<Rightarrow> run [write_val ''path'' (encode_term env t),
            only_if (im_alias i \<noteq> '''') (write_val ''alias'' (put (Lit (AStr (im_alias i)))))]),
       object_end]"

definition encode_head :: "'x roast_env \<Rightarrow> ast_head \<Rightarrow> 'x writer" where
  "encode_head env h =
     run [object_start (h_loc h),
       (case h_reference h of None \<Rightarrow> run [] | Some ref \<Rightarrow> vals_array_attr ''ref'' (map (encode_term env) ref)),
       only_if (h_args h \<noteq> []) (vals_array_attr ''args'' (map (encode_term env) (h_args h))),
       only_if (h_assign h) (write_bool ''assign'' (h_assign h)),
       (case h_key h of None \<Rightarrow> run [] | Some k \<Rightarrow> run [put (Key ''key''), encode_term env k]),
       (case h_value (strip_value_loc h) of
          None \<Rightarrow> run []
        | Some v \<Rightarrow> run [only_if (h_key h \<noteq> None) (put Comma), put (Key ''value''), encode_term env v]),
       object_end]"

text \<open>The head is encoded, and its value stripped, before the body is looked at.\<close>

primrec encode_rule :: "'x roast_env \<Rightarrow> 'x ast_rule \<Rightarrow> 'x writer option" where
  "encode_rule env (Rule l as dflt head body els) =
     Option.bind (is_body_generated (Rule l as dflt (map_option strip_value_loc head) body els)) (\<lambda>generated.
     Option.bind (case map_option (encode_rule env) els of
         None \<Rightarrow> Some (run []) | Some e \<Rightarrow> map_option (write_val ''else'') e) (\<lambda>write_else.
       Some (run [object_start l,
         only_if (as \<noteq> []) (vals_array_attr ''annotations'' (map (encode_annotations env) as)),
         only_if dflt (write_bool ''default'' dflt),
         (case head of None \<Rightarrow> run [] | Some h \<Rightarrow> write_val ''head'' (encode_head env h)),
         only_if (\<not> generated) (vals_array_attr ''body'' (map (encode_expr env) body)),
         write_else, object_end])))"

definition encode_comment :: "ast_location \<Rightarrow> 'x writer" where
  "encode_comment l = put (Lit (AStr (append_location '''' l)))"

definition encode_module :: "'x roast_env \<Rightarrow> 'x ast_module \<Rightarrow> 'x writer option" where
  "encode_module env m =
     Option.bind (case m_package m of
         None \<Rightarrow> Some (run [])
       | Some p \<Rightarrow> map_option (\<lambda>w. run [
             only_if (m_annotations m \<noteq> []) (attach (Annotated (filter package_scope (m_annotations m)))),
             write_val ''package'' w, attach Unattached]) (encode_package env p)) (\<lambda>pkg.
     Option.bind (all_some (map (encode_rule env) (m_rules m))) (\<lambda>rls.
       Some (run [object_start None, pkg,
         only_if (m_imports m \<noteq> []) (vals_array_attr ''imports'' (map (encode_import env) (m_imports m))),
         only_if (m_rules m \<noteq> []) (vals_array_attr ''rules'' rls),
         only_if (m_comments m \<noteq> []) (vals_array_attr ''comments'' (map encode_comment (m_comments m))),
         object_end])))"

definition marshal :: "'x roast_env \<Rightarrow> 'x ast_module \<Rightarrow> token list option" where
  "marshal env m =
     map_option (\<lambda>w. st_buf (w \<lparr>st_buf = [], st_att = Unattached\<rparr>)) (encode_module env m)"

end
