(* ===== verification/Roast_Json.thy ===== *)
theory Roast_Json
  imports Roast_Encode "HOL-Library.Multiset"
begin

text \<open>
  JSON as sequences of tokens, a parser for it that refuses objects with a key twice, and what it means
  that an encoder writes a value: the rules that follow the statements of the encoders of
  \<open>Roast_Encode\<close>.
\<close>

section \<open>JSON texts\<close>

fun separated :: "token list list \<Rightarrow> token list" where
  "separated [] = []"
| "separated [ts] = ts"
| "separated (ts # tss) = ts @ Comma # separated tss"

fun member_start :: "string \<times> token list \<Rightarrow> token list" where
  "member_start (k, ts) = Key k # ts"

text \<open>The texts of values, where \<open>lit\<close> is what is read for a literal and \<open>mk\<close> what is made of the
  members of an object.\<close>

inductive json_of :: "(aval \<Rightarrow> aval) \<Rightarrow> ((string \<times> aval) list \<Rightarrow> aval option) \<Rightarrow> token list \<Rightarrow> aval \<Rightarrow> bool" for lit mk where
  lit_of: "json_of lit mk [Lit v] (lit v)"
| arr_of: "list_all2 (json_of lit mk) tss vs \<Longrightarrow> json_of lit mk (ArrStart # separated tss @ [ArrEnd]) (AArr vs)"
| obj_of: "list_all2 (\<lambda>m kv. fst m = fst kv \<and> json_of lit mk (snd m) (snd kv)) ms kvs \<Longrightarrow> mk kvs = Some v
    \<Longrightarrow> json_of lit mk (ObjStart # separated (map member_start ms) @ [ObjEnd]) v"

fun parse_value :: "(aval \<Rightarrow> aval) \<Rightarrow> ((string \<times> aval) list \<Rightarrow> aval option) \<Rightarrow> nat \<Rightarrow> token list \<Rightarrow> (aval \<times> token list) option"
  and parse_elements :: "(aval \<Rightarrow> aval) \<Rightarrow> ((string \<times> aval) list \<Rightarrow> aval option) \<Rightarrow> nat \<Rightarrow> token list \<Rightarrow> (aval list \<times> token list) option"
  and parse_members :: "(aval \<Rightarrow> aval) \<Rightarrow> ((string \<times> aval) list \<Rightarrow> aval option) \<Rightarrow> nat \<Rightarrow> token list \<Rightarrow> ((string \<times> aval) list \<times> token list) option" where
  "parse_value lit mk (Suc n) (Lit v # ts) = Some (lit v, ts)"
| "parse_value lit mk (Suc n) (ArrStart # ArrEnd # ts) = Some (AArr [], ts)"
| "parse_value lit mk (Suc n) (ArrStart # ts) = map_option (map_prod AArr id) (parse_elements lit mk n ts)"
| "parse_value lit mk (Suc n) (ObjStart # ObjEnd # ts) = map_option (\<lambda>v. (v, ts)) (mk [])"
| "parse_value lit mk (Suc n) (ObjStart # ts) =
     Option.bind (parse_members lit mk n ts) (\<lambda>(kvs, ts). map_option (\<lambda>v. (v, ts)) (mk kvs))"
| "parse_value lit mk n ts = None"
| "parse_elements lit mk (Suc n) ts =
     (case parse_value lit mk n ts of
        Some (v, Comma # ts) \<Rightarrow> map_option (map_prod ((#) v) id) (parse_elements lit mk n ts)
      | Some (v, ArrEnd # ts) \<Rightarrow> Some ([v], ts)
      | _ \<Rightarrow> None)"
| "parse_elements lit mk 0 ts = None"
| "parse_members lit mk (Suc n) (Key k # ts) =
     (case parse_value lit mk n ts of
        Some (v, Comma # ts) \<Rightarrow> map_option (map_prod ((#) (k, v)) id) (parse_members lit mk n ts)
      | Some (v, ObjEnd # ts) \<Rightarrow> Some ([(k, v)], ts)
      | _ \<Rightarrow> None)"
| "parse_members lit mk n ts = None"

definition reads :: "(aval \<Rightarrow> aval) \<Rightarrow> ((string \<times> aval) list \<Rightarrow> aval option) \<Rightarrow> token list \<Rightarrow> aval \<Rightarrow> bool" where
  "reads lit mk ts v \<longleftrightarrow> (\<forall>n rest. length ts \<le> n \<longrightarrow> parse_value lit mk n (ts @ rest) = Some (v, rest))"

lemma json_first: "json_of lit mk ts v \<Longrightarrow> ts \<noteq> [] \<and> hd ts \<noteq> ArrEnd \<and> hd ts \<noteq> ObjEnd \<and> last ts \<noteq> Comma"
  by (induction rule: json_of.cases) auto

lemma parse_value_reads: "reads lit mk ts v \<Longrightarrow> length ts \<le> n \<Longrightarrow> parse_value lit mk n (ts @ rest) = Some (v, rest)"
  by (simp add: reads_def)

lemma separated_Cons: "separated (ts # tss) = ts @ (if tss = [] then [] else Comma # separated tss)"
  by (cases tss) auto

lemma read_elements:
  assumes "list_all2 (reads lit mk) tss vs" and "tss \<noteq> []" and "length (separated tss) < n"
  shows "parse_elements lit mk n (separated tss @ ArrEnd # rest) = Some (vs, rest)"
  using assms
proof (induction tss arbitrary: vs n rest)
  case (Cons ts tss)
  then obtain v vs' m where vs: "vs = v # vs'" "n = Suc m" "reads lit mk ts v" "list_all2 (reads lit mk) tss vs'"
    by (cases n) (auto simp: list_all2_Cons1)
  show ?case
  proof (cases tss)
    case Nil
    then show ?thesis using Cons.prems vs by (simp add: parse_value_reads)
  next
    case (Cons t us)
    have "parse_elements lit mk m (separated tss @ ArrEnd # rest) = Some (vs', rest)"
      using Cons.IH[OF vs(4)] Cons.prems vs Cons by (simp add: separated_Cons)
    then show ?thesis using Cons.prems vs Cons by (simp add: separated_Cons parse_value_reads)
  qed
qed simp

lemma read_members:
  assumes "list_all2 (\<lambda>m kv. fst m = fst kv \<and> reads lit mk (snd m) (snd kv)) ms kvs" and "ms \<noteq> []"
    and "length (separated (map member_start ms)) < n"
  shows "parse_members lit mk n (separated (map member_start ms) @ ObjEnd # rest) = Some (kvs, rest)"
  using assms
proof (induction ms arbitrary: kvs n rest)
  case (Cons m ms)
  obtain k ts where m: "m = (k, ts)" by fastforce
  obtain v kvs' n' where vs: "kvs = (k, v) # kvs'" "n = Suc n'" "reads lit mk ts v"
      "list_all2 (\<lambda>m kv. fst m = fst kv \<and> reads lit mk (snd m) (snd kv)) ms kvs'"
    using Cons.prems m by (cases n) (auto simp: list_all2_Cons1)
  show ?case
  proof (cases ms)
    case Nil
    then show ?thesis using Cons.prems vs m by (simp add: parse_value_reads)
  next
    case (Cons x us)
    have "parse_members lit mk n' (separated (map member_start ms) @ ObjEnd # rest) = Some (kvs', rest)"
      using Cons.IH[OF vs(4)] Cons.prems vs m Cons by (simp add: separated_Cons)
    then show ?thesis using Cons.prems vs m Cons by (simp add: separated_Cons parse_value_reads)
  qed
qed simp

lemma parse_value_arr: "ts \<noteq> [] \<Longrightarrow> hd ts \<noteq> ArrEnd \<Longrightarrow>
    parse_value lit mk (Suc n) (ArrStart # ts) = map_option (map_prod AArr id) (parse_elements lit mk n ts)"
  by (cases ts rule: list.exhaust; cases "hd ts") auto

lemma parse_value_obj: "ts \<noteq> [] \<Longrightarrow> hd ts \<noteq> ObjEnd \<Longrightarrow>
    parse_value lit mk (Suc n) (ObjStart # ts) =
    Option.bind (parse_members lit mk n ts) (\<lambda>(kvs, ts). map_option (\<lambda>v. (v, ts)) (mk kvs))"
  by (cases ts rule: list.exhaust; cases "hd ts") auto

lemma separated_hd: "\<forall>ts\<in>set tss. ts \<noteq> [] \<and> hd ts \<noteq> c \<Longrightarrow> tss \<noteq> [] \<Longrightarrow>
    separated tss @ us \<noteq> [] \<and> hd (separated tss @ us) \<noteq> c"
  by (cases tss) (auto simp: separated_Cons)

lemma json_reads: "json_of lit mk ts v \<Longrightarrow> reads lit mk ts v"
proof (induction rule: json_of.induct)
  case (lit_of v)
  then show ?case by (auto simp: reads_def Suc_le_eq gr0_conv_Suc)
next
  case (arr_of tss vs)
  have r: "list_all2 (reads lit mk) tss vs" using arr_of by (auto elim: list_all2_mono)
  have "\<forall>ts\<in>set tss. ts \<noteq> [] \<and> hd ts \<noteq> ArrEnd"
    using arr_of json_first by (fastforce simp: list_all2_iff set_zip in_set_conv_nth)
  note h = separated_hd[OF this]
  show ?case unfolding reads_def
  proof (intro allI impI)
    fix n rest assume "length (ArrStart # separated tss @ [ArrEnd]) \<le> n"
    then obtain m where n: "n = Suc m" "length (separated tss) < m" by (cases n) auto
    show "parse_value lit mk n ((ArrStart # separated tss @ [ArrEnd]) @ rest) = Some (AArr vs, rest)"
    proof (cases "tss = []")
      case True then show ?thesis using r n by simp
    next
      case False
      then show ?thesis using h[OF False, of "ArrEnd # rest"] read_elements[OF r False n(2)] n
        by (simp add: parse_value_arr)
    qed
  qed
next
  case (obj_of ms kvs v)
  have r: "list_all2 (\<lambda>m kv. fst m = fst kv \<and> reads lit mk (snd m) (snd kv)) ms kvs"
    using obj_of by (auto elim: list_all2_mono)
  have "\<forall>ts\<in>set (map member_start ms). ts \<noteq> [] \<and> hd ts \<noteq> ObjEnd" by auto
  note h = separated_hd[OF this]
  show ?case unfolding reads_def
  proof (intro allI impI)
    let ?s = "separated (map member_start ms)"
    fix n rest assume "length (ObjStart # ?s @ [ObjEnd]) \<le> n"
    then obtain m where n: "n = Suc m" "length ?s < m" by (cases n) auto
    show "parse_value lit mk n ((ObjStart # ?s @ [ObjEnd]) @ rest) = Some (v, rest)"
    proof (cases "ms = []")
      case True then show ?thesis using r n obj_of(2) by simp
    next
      case False
      then show ?thesis using h[of "ObjEnd # rest"] read_members[OF r False n(2)] n obj_of(2)
        by (simp add: parse_value_obj)
    qed
  qed
qed

text \<open>JSON proper: an object has no key twice.\<close>

definition strict_object :: "(string \<times> aval) list \<Rightarrow> aval option" where
  "strict_object kvs = (if distinct (map fst kvs) then Some (AObj (map (map_prod AStr id) kvs)) else None)"

abbreviation json :: "token list \<Rightarrow> aval \<Rightarrow> bool" where
  "json \<equiv> json_of (\<lambda>v. v) strict_object"

lemma json_lit: "json [Lit v] v"
  using lit_of[of "\<lambda>v. v" strict_object v] by simp

lemmas json_arr = arr_of[of "\<lambda>v. v" strict_object]

lemma json_obj: "list_all2 (\<lambda>m kv. fst m = fst kv \<and> json (snd m) (snd kv)) ms kvs \<Longrightarrow> distinct (map fst kvs)
    \<Longrightarrow> json (ObjStart # separated (map member_start ms) @ [ObjEnd]) (AObj (map (map_prod AStr id) kvs))"
  by (rule obj_of, assumption) (simp add: strict_object_def)

definition parse_json :: "token list \<Rightarrow> aval option" where
  "parse_json ts = (case parse_value (\<lambda>v. v) strict_object (length ts) ts of Some (v, []) \<Rightarrow> Some v | _ \<Rightarrow> None)"

lemma json_parse: "json ts v \<Longrightarrow> parse_json ts = Some v"
  using parse_value_reads[OF json_reads, of "\<lambda>v. v" strict_object ts v "length ts" "[]"] by (simp add: parse_json_def)

section \<open>Equal values\<close>

text \<open>Equal up to the order in which objects hold their members.\<close>

inductive same :: "aval \<Rightarrow> aval \<Rightarrow> bool" where
  same_refl: "same v v"
| same_arr: "list_all2 same vs ws \<Longrightarrow> same (AArr vs) (AArr ws)"
| same_obj: "list_all2 (\<lambda>p q. fst p = fst q \<and> same (snd p) (snd q)) kvs kws \<Longrightarrow> mset kws = mset kws'
    \<Longrightarrow> same (AObj kvs) (AObj kws')"

section \<open>What encoders write\<close>

text \<open>\<open>adds A w ts\<close>: the writer appends the tokens to any stream whose attachment is in \<open>A\<close>, and
  keeps the attachment. \<open>emits A P w x\<close>: what it appends is the text of a value, which is \<open>x\<close> if \<open>P\<close>.
  \<open>members A P ws ks kvs\<close>: the writers append members of an object, each with its comma; the keys are
  \<open>ks\<close>, and the members are \<open>kvs\<close> if \<open>P\<close>.\<close>

definition adds :: "'x attachment set \<Rightarrow> 'x writer \<Rightarrow> token list \<Rightarrow> bool" where
  "adds A w ts \<longleftrightarrow> (\<forall>s. st_att s \<in> A \<longrightarrow> w s = s\<lparr>st_buf := st_buf s @ ts\<rparr>)"

definition emits :: "'x attachment set \<Rightarrow> bool \<Rightarrow> 'x writer \<Rightarrow> aval \<Rightarrow> bool" where
  "emits A P w x \<longleftrightarrow> (\<exists>ts v. adds A w ts \<and> json ts v \<and> (P \<longrightarrow> same v x))"

fun member_text :: "string \<times> token list \<Rightarrow> token list" where
  "member_text (k, ts) = Key k # ts @ [Comma]"

definition members :: "'x attachment set \<Rightarrow> bool \<Rightarrow> 'x writer list \<Rightarrow> string list \<Rightarrow> (aval \<times> aval) list \<Rightarrow> bool" where
  "members A P ws ks kvs \<longleftrightarrow> (\<exists>ms vs. adds A (run ws) (concat (map member_text ms)) \<and> map fst ms = ks
     \<and> list_all2 (\<lambda>m v. json (snd m) v) ms vs
     \<and> (P \<longrightarrow> list_all2 (\<lambda>p q. fst p = fst q \<and> same (snd p) (snd q)) (zip (map AStr ks) vs) kvs))"

lemma run_Nil: "run [] s = s"
  by (simp add: run_def)

lemma run_Cons: "run (w # ws) s = run ws (w s)"
  by (simp add: run_def)

lemma run_run: "run (run ws # us) = run (ws @ us)"
  by (simp add: run_def fun_eq_iff)

lemma adds_Nil: "adds A (run []) []"
  by (simp add: adds_def run_Nil)

lemma adds_Cons: "adds A w ts \<Longrightarrow> adds A (run ws) us \<Longrightarrow> adds A (run (w # ws)) (ts @ us)"
  by (simp add: adds_def run_Cons)

lemma adds_put: "adds A (put t) [t]"
  by (simp add: adds_def put_def)

lemma adds_runI: "adds A (run ws) ts \<Longrightarrow> adds A (run us) vs \<Longrightarrow> adds A (run (ws @ us)) (ts @ vs)"
  by (simp add: adds_def run_def)

lemma emits_weaken: "emits A P w x \<Longrightarrow> (Q \<Longrightarrow> P) \<Longrightarrow> (Q \<Longrightarrow> x = y) \<Longrightarrow> emits A Q w y"
  by (auto simp: emits_def)

lemma emits_lit: "(P \<Longrightarrow> same v x) \<Longrightarrow> emits A P (put (Lit v)) x"
  unfolding emits_def using adds_put json_lit by blast

lemma adds_items:
  "list_all2 (adds A) ws tss \<Longrightarrow>
   adds A (write_items i ws) (if i > 0 then concat (map ((#) Comma) tss) else separated tss)"
proof (induction ws tss arbitrary: i rule: list_all2_induct)
  case (Cons w ws ts tss)
  have "concat (map ((#) Comma) us) = (if us = [] then [] else Comma # separated us)" for us
    by (induction us) (auto simp: separated_Cons)
  with Cons(1) Cons(3)[of "Suc i"] show ?case
    by (auto simp: adds_def put_def separated_Cons)
qed (simp add: adds_def)

lemma emits_items:
  assumes "list_all2 (emits A P) ws xs"
  shows "\<exists>tss vs. adds A (write_items 0 ws) (separated tss) \<and> list_all2 json tss vs \<and> (P \<longrightarrow> list_all2 same vs xs)"
proof -
  from assms have "\<exists>tss vs. list_all2 (adds A) ws tss \<and> list_all2 json tss vs \<and> (P \<longrightarrow> list_all2 same vs xs)"
  proof (induction ws xs rule: list_all2_induct)
    case (Cons w ws x xs)
    then obtain ts v tss vs where "adds A w ts" "json ts v" "P \<longrightarrow> same v x"
        "list_all2 (adds A) ws tss" "list_all2 json tss vs" "P \<longrightarrow> list_all2 same vs xs"
      by (auto simp: emits_def)
    then show ?case by (intro exI[of _ "ts # tss"] exI[of _ "v # vs"]) auto
  qed auto
  then show ?thesis using adds_items[where i = 0] by fastforce
qed

lemma emits_array:
  assumes "list_all2 (emits A P) ws xs"
  shows "emits A P (run [put ArrStart, write_items 0 ws, put ArrEnd]) (AArr xs)"
proof -
  obtain tss vs where t: "adds A (write_items 0 ws) (separated tss)" "list_all2 json tss vs"
      "P \<longrightarrow> list_all2 same vs xs"
    using emits_items[OF assms] by blast
  have "adds A (run [put ArrStart, write_items 0 ws, put ArrEnd]) (ArrStart # separated tss @ [ArrEnd])"
    using t(1) by (simp add: adds_def run_def put_def)
  then show ?thesis using json_arr[OF t(2)] t(3) same_arr unfolding emits_def by blast
qed

lemma emits_vals_array: "list_all2 (emits A P) ws xs \<Longrightarrow> emits A P (vals_array ws) (AArr xs)"
  by (simp add: vals_array_def emits_array)

lemma members_Nil: "members A P [] [] []"
  unfolding members_def by (intro exI[of _ "[]"]) (simp add: adds_Nil)

lemma members_append:
  assumes "members A P ws ks kvs" and "members A P us ls lvs"
  shows "members A P (ws @ us) (ks @ ls) (kvs @ lvs)"
proof -
  obtain ms vs where 1: "adds A (run ws) (concat (map member_text ms))" "map fst ms = ks"
     "list_all2 (\<lambda>m v. json (snd m) v) ms vs"
     "P \<longrightarrow> list_all2 (\<lambda>p q. fst p = fst q \<and> same (snd p) (snd q)) (zip (map AStr ks) vs) kvs"
    using assms(1) by (auto simp: members_def)
  obtain ns us' where 2: "adds A (run us) (concat (map member_text ns))" "map fst ns = ls"
     "list_all2 (\<lambda>m v. json (snd m) v) ns us'"
     "P \<longrightarrow> list_all2 (\<lambda>p q. fst p = fst q \<and> same (snd p) (snd q)) (zip (map AStr ls) us') lvs"
    using assms(2) by (auto simp: members_def)
  have "length ks = length vs" using 1 by (auto dest: list_all2_lengthD)
  then show ?thesis unfolding members_def
    using 1 2 adds_runI[OF 1(1) 2(1)]
    by (intro exI[of _ "ms @ ns"] exI[of _ "vs @ us'"]) (auto intro!: list_all2_appendI)
qed

lemma member_val:
  assumes "emits A P w x"
  shows "members A P [write_val k w] [k] [(AStr k, x)]"
proof -
  obtain ts v where "adds A w ts" "json ts v" "P \<longrightarrow> same v x" using assms by (auto simp: emits_def)
  then show ?thesis unfolding members_def
    by (intro exI[of _ "[(k, ts)]"] exI[of _ "[v]"]) (simp add: adds_def run_def write_val_def put_def)
qed

lemma members_Cons:
  "members A P [w] ks kvs \<Longrightarrow> members A P ws ls lvs \<Longrightarrow> members A P (w # ws) (ks @ ls) (kvs @ lvs)"
  using members_append[of A P "[w]" ks kvs ws ls lvs] by simp

lemma members_weaken: "members A P ws ks kvs \<Longrightarrow> (Q \<Longrightarrow> P \<and> kvs = lvs) \<Longrightarrow> members A Q ws ks lvs"
  by (auto simp: members_def)

lemma member_none: "members A P [run []] [] []"
  unfolding members_def by (intro exI[of _ "[]"]) (simp add: adds_def run_def)

lemma member_skip: "members A P [only_if False w] [] []"
  unfolding members_def by (intro exI[of _ "[]"]) (simp add: only_if_def adds_def run_def)

lemma member_if:
  "(c \<Longrightarrow> emits A P w x) \<Longrightarrow>
   members A P [only_if c (write_val k w)] (if c then [k] else []) (field_if c k x)"
  using member_skip member_val by (auto simp: only_if_def field_if_def field_def)

lemma member_option:
  "(\<And>y. t = Some y \<Longrightarrow> emits A P (f y) (g y)) \<Longrightarrow>
   members A P [case t of None \<Rightarrow> run [] | Some y \<Rightarrow> write_val k (f y)] (if t = None then [] else [k])
     (case t of None \<Rightarrow> [] | Some y \<Rightarrow> field k (g y))"
  using member_none member_val by (auto simp: field_def split: option.split)

lemma member_loc:
  "members A P [case l of None \<Rightarrow> run [] | Some (_, l) \<Rightarrow> write_val ''location'' (encode_location l)]
     (if l = None then [] else [''location'']) (loc_fields l)"
proof (cases l)
  case (Some p)
  then show ?thesis using member_val[OF emits_lit, of P "AStr (append_location '''' (snd p))" _ A] same_refl
    by (cases p) (simp add: loc_fields_def field_def loc_term_def encode_location_def)
qed (simp add: loc_fields_def member_none)

lemma trim_last: "ts \<noteq> [] \<Longrightarrow> last ts \<noteq> Comma \<Longrightarrow> trim_commas ts = ts"
  by (cases ts rule: rev_cases) (auto simp: trim_commas_def)

lemma trim_comma: "trim_commas (ts @ [Comma]) = trim_commas ts"
  by (simp add: trim_commas_def)

lemma member_texts_open:
  "concat (map member_text ms) @ Key k # ts = separated (map member_start (ms @ [(k, ts)]))"
  by (induction ms) (auto simp: separated_Cons)

lemma trim_open: "json ts v \<Longrightarrow>
    trim_commas (us @ ObjStart # concat (map member_text ms) @ Key k # ts)
    = us @ ObjStart # separated (map member_start (ms @ [(k, ts)]))"
proof -
  assume "json ts v"
  then have "trim_commas (us @ ObjStart # concat (map member_text ms) @ Key k # ts)
      = us @ ObjStart # concat (map member_text ms) @ Key k # ts"
    using json_first[of "\<lambda>v. v" strict_object ts v] trim_last[of "us @ ObjStart # concat (map member_text ms) @ Key k # ts"] by simp
  then show ?thesis by (simp only: member_texts_open)
qed

lemma trim_members: "\<forall>m\<in>set ms. \<exists>v. json (snd m) v \<Longrightarrow>
    trim_commas (us @ ObjStart # concat (map member_text ms))
    = us @ ObjStart # separated (map member_start ms)"
proof (cases ms rule: rev_cases)
  case Nil
  then show ?thesis using trim_last[of "us @ [ObjStart]"] by simp
next
  case (snoc ns m)
  assume "\<forall>m\<in>set ms. \<exists>v. json (snd m) v"
  then show ?thesis
    using trim_comma[of "us @ ObjStart # concat (map member_text ns) @ Key (fst m) # snd m"] snoc
      trim_open[of "snd m" _ us ns "fst m"] by (cases m) auto
qed

lemma object_start_None: "object_start None = put ObjStart"
  by (simp add: object_start_def run_def fun_eq_iff)

lemma members_json:
  assumes "map fst ms = ks" and "list_all2 (\<lambda>m v. json (snd m) v) ms vs" and "distinct ks"
    and "P \<longrightarrow> list_all2 (\<lambda>p q. fst p = fst q \<and> same (snd p) (snd q)) (zip (map AStr ks) vs) kvs"
    and "P \<Longrightarrow> mset kvs = mset kvs'"
  shows "\<exists>v. json (ObjStart # separated (map member_start ms) @ [ObjEnd]) v \<and> (P \<longrightarrow> same v (AObj kvs'))"
proof -
  have l: "length ms = length vs" using assms(2) by (rule list_all2_lengthD)
  have "list_all2 (\<lambda>m kv. fst m = fst kv \<and> json (snd m) (snd kv)) ms (zip ks vs)"
    using assms(1,2) l by (auto simp: list_all2_conv_all_nth)
  moreover have "map fst (zip ks vs) = ks" using assms(1) l by (metis length_map map_fst_zip)
  ultimately have "json (ObjStart # separated (map member_start ms) @ [ObjEnd])
      (AObj (map (map_prod AStr id) (zip ks vs)))"
    using json_obj[of ms "zip ks vs"] assms(3) by simp
  moreover have "map (map_prod AStr id) (zip ks vs) = zip (map AStr ks) vs"
    by (simp add: zip_map1 map_prod_def)
  ultimately show ?thesis using assms(4,5) same_obj[of "zip (map AStr ks) vs" kvs kvs'] by auto
qed

text \<open>The three ways in which encoders end an object.\<close>

lemma members_start:
  assumes "members A P ws ks kvs"
  shows "\<exists>ms vs. (\<forall>s. st_att s \<in> A \<longrightarrow>
        run (object_start l # ws) s = s\<lparr>st_buf := st_buf s @ ObjStart # concat (map member_text ms)\<rparr>)
     \<and> map fst ms = (if l = None then [] else [''location'']) @ ks \<and> list_all2 (\<lambda>m v. json (snd m) v) ms vs
     \<and> (P \<longrightarrow> list_all2 (\<lambda>p q. fst p = fst q \<and> same (snd p) (snd q))
          (zip (map AStr ((if l = None then [] else [''location'']) @ ks)) vs) (loc_fields l @ kvs))"
proof -
  let ?l = "case l of None \<Rightarrow> run [] | Some (_, l) \<Rightarrow> write_val ''location'' (encode_location l)"
  have "run (object_start l # ws) s = run (?l # ws) (put ObjStart s)" for s :: "'a json_stream"
    by (simp add: object_start_def run_def)
  then show ?thesis using members_Cons[OF member_loc assms, of l]
    unfolding members_def adds_def put_def by fastforce
qed

lemma emits_object:
  assumes "members A P ws ks kvs" and "distinct (''location'' # ks)"
    and "P \<Longrightarrow> mset (loc_fields l @ kvs) = mset kvs'"
  shows "emits A P (run (object_start l # ws @ [object_end])) (AObj kvs')"
proof -
  obtain ms vs where m: "\<And>s. st_att s \<in> A \<Longrightarrow>
      run (object_start l # ws) s = s\<lparr>st_buf := st_buf s @ ObjStart # concat (map member_text ms)\<rparr>"
    "map fst ms = (if l = None then [] else [''location'']) @ ks" "list_all2 (\<lambda>m v. json (snd m) v) ms vs"
    "P \<longrightarrow> list_all2 (\<lambda>p q. fst p = fst q \<and> same (snd p) (snd q))
       (zip (map AStr ((if l = None then [] else [''location'']) @ ks)) vs) (loc_fields l @ kvs)"
    using members_start[OF assms(1), of l] by blast
  have j: "\<forall>m\<in>set ms. \<exists>v. json (snd m) v" using m(3) by (metis in_set_conv_nth list_all2_conv_all_nth)
  have "run (object_start l # ws @ [object_end]) s = object_end (run (object_start l # ws) s)" for s :: "'a json_stream"
    by (simp add: run_def)
  then have "adds A (run (object_start l # ws @ [object_end]))
      (ObjStart # separated (map member_start ms) @ [ObjEnd])"
    using m(1) by (simp add: adds_def object_end_def put_def trim_members[OF j])
  moreover have "distinct ((if l = None then [] else [''location'']) @ ks)" using assms(2) by simp
  ultimately show ?thesis using members_json[OF m(2,3) _ m(4) assms(3)] unfolding emits_def by blast
qed

lemma pairs_snoc:
  "length ks = length vs \<Longrightarrow> list_all2 R (zip (map AStr ks) vs) kvs \<Longrightarrow> R (AStr k, v) x \<Longrightarrow>
   list_all2 R (zip (map AStr (ks @ [k])) (vs @ [v])) (kvs @ [x])"
  by (simp add: list_all2_appendI)

lemma emits_object_open:
  assumes "members A P ws ks kvs" and "emits A P w x" and "distinct (''location'' # ks @ [k])"
    and "P \<Longrightarrow> mset (loc_fields l @ kvs @ field k x) = mset kvs'"
  shows "emits A P (run (object_start l # ws @ [put (Key k), w, object_end])) (AObj kvs')"
    and "emits A P (run (object_start l # ws @ [put (Key k), w, put ObjEnd])) (AObj kvs')"
proof -
  obtain ms vs where m: "\<And>s. st_att s \<in> A \<Longrightarrow>
      run (object_start l # ws) s = s\<lparr>st_buf := st_buf s @ ObjStart # concat (map member_text ms)\<rparr>"
    "map fst ms = (if l = None then [] else [''location'']) @ ks" "list_all2 (\<lambda>m v. json (snd m) v) ms vs"
    "P \<longrightarrow> list_all2 (\<lambda>p q. fst p = fst q \<and> same (snd p) (snd q))
       (zip (map AStr ((if l = None then [] else [''location'']) @ ks)) vs) (loc_fields l @ kvs)"
    using members_start[OF assms(1), of l] by blast
  obtain ts v where w: "adds A w ts" "json ts v" "P \<longrightarrow> same v x" using assms(2) by (auto simp: emits_def)
  let ?ts = "ObjStart # separated (map member_start (ms @ [(k, ts)])) @ [ObjEnd]"
  have e: "run (object_start l # ws @ [put (Key k), w, e]) s = e (w (put (Key k) (run (object_start l # ws) s)))"
    for s :: "'a json_stream" and e by (simp add: run_def)
  have 1: "adds A (run (object_start l # ws @ [put (Key k), w, object_end])) ?ts"
    using m(1) w(1) unfolding adds_def e object_end_def by (simp add: put_def trim_open[OF w(2)] del: map_append)
  have 2: "adds A (run (object_start l # ws @ [put (Key k), w, put ObjEnd])) ?ts"
    using m(1) w(1) unfolding adds_def e by (simp add: put_def member_texts_open[symmetric] del: map_append)
  have "\<exists>v. json ?ts v \<and> (P \<longrightarrow> same v (AObj kvs'))"
  proof (rule members_json)
    show "map fst (ms @ [(k, ts)]) = ((if l = None then [] else [''location'']) @ ks) @ [k]" using m(2) by simp
    show "list_all2 (\<lambda>m v. json (snd m) v) (ms @ [(k, ts)]) (vs @ [v])" using m(3) w(2) by (simp add: list_all2_appendI)
    show "distinct (((if l = None then [] else [''location'']) @ ks) @ [k])" using assms(3) by auto
    have "length (map fst ms) = length vs" using list_all2_lengthD[OF m(3)] by simp
    note len = this
    show "P \<longrightarrow> list_all2 (\<lambda>p q. fst p = fst q \<and> same (snd p) (snd q))
        (zip (map AStr (((if l = None then [] else [''location'']) @ ks) @ [k])) (vs @ [v])) ((loc_fields l @ kvs) @ field k x)"
    proof
      assume P
      show "list_all2 (\<lambda>p q. fst p = fst q \<and> same (snd p) (snd q))
        (zip (map AStr (((if l = None then [] else [''location'']) @ ks) @ [k])) (vs @ [v])) ((loc_fields l @ kvs) @ field k x)"
        unfolding field_def by (rule pairs_snoc) (use len m(2,4) w(3) \<open>P\<close> in simp_all)
    qed
    show "mset ((loc_fields l @ kvs) @ field k x) = mset kvs'" if P using assms(4) that by simp
  qed
  then show "emits A P (run (object_start l # ws @ [put (Key k), w, object_end])) (AObj kvs')"
    "emits A P (run (object_start l # ws @ [put (Key k), w, put ObjEnd])) (AObj kvs')"
    using 1 2 unfolding emits_def by blast+
qed

end
