(* ===== verification/Roast_Proofs.thy ===== *)
theory Roast_Proofs
  imports Roast_Json
begin

text \<open>
  The encoders write JSON, and what they write is the value that \<open>ToValue\<close> makes of the same module, for
  modules without the things that the two treat differently: the predicates \<open>plain\<close> name them.
\<close>

section \<open>Rules for the bodies of encoders\<close>

lemma write_string_val: "write_string k v = write_val k (put (Lit (AStr v)))"
  by (simp add: write_string_def write_val_def)

lemma write_bool_val: "write_bool k v = write_val k (put (Lit (ABool v)))"
  by (simp add: write_bool_def write_val_def)

lemma vals_array_attr_val: "vals_array_attr k ws = write_val k (vals_array ws)"
  by (simp add: vals_array_attr_def write_val_def)

lemmas write_vals = write_string_val write_bool_val vals_array_attr_val write_val_def[symmetric]

lemma snoc_Nil: "zs = [] @ zs"
  by simp

lemma snoc_Cons: "xs = ys @ zs \<Longrightarrow> x # xs = (x # ys) @ zs"
  by simp

lemmas snocs = snoc_Nil snoc_Cons

lemma emits_objectI:
  "us = ws @ [object_end] \<Longrightarrow> members A P ws ks kvs \<Longrightarrow> distinct (''location'' # ks)
   \<Longrightarrow> (P \<Longrightarrow> mset (loc_fields l @ kvs) = mset kvs')
   \<Longrightarrow> emits A P (run (object_start l # us)) (AObj kvs')"
  using emits_object by metis

lemma emits_object_openI:
  "us = ws @ [put (Key k), w, object_end] \<Longrightarrow> members A P ws ks kvs \<Longrightarrow> emits A P w x
   \<Longrightarrow> distinct (''location'' # ks @ [k]) \<Longrightarrow> (P \<Longrightarrow> mset (loc_fields l @ kvs @ field k x) = mset kvs')
   \<Longrightarrow> emits A P (run (object_start l # us)) (AObj kvs')"
  "us = ws @ [put (Key k), w, put ObjEnd] \<Longrightarrow> members A P ws ks kvs \<Longrightarrow> emits A P w x
   \<Longrightarrow> distinct (''location'' # ks @ [k]) \<Longrightarrow> (P \<Longrightarrow> mset (loc_fields l @ kvs @ field k x) = mset kvs')
   \<Longrightarrow> emits A P (run (object_start l # us)) (AObj kvs')"
  using emits_object_open by metis+

lemma members_raw:
  assumes "emits A P w x" and "members A P ws ks kvs"
  shows "members A P (put (Key k) # w # put Comma # ws) ([k] @ ks) ([(AStr k, x)] @ kvs)"
proof -
  have "run (put (Key k) # w # put Comma # ws) = run ([write_val k w] @ ws)"
    by (simp add: fun_eq_iff run_def write_val_def)
  then show ?thesis using members_append[OF member_val[OF assms(1)] assms(2), of k]
    unfolding members_def by simp
qed

lemma member_map_option:
  "(\<And>y. t = Some y \<Longrightarrow> emits A P (f y) (g y)) \<Longrightarrow>
   members A P [case map_option f t of None \<Rightarrow> run [] | Some w \<Rightarrow> write_val k w] (if t = None then [] else [k])
     (case map_option g t of None \<Rightarrow> [] | Some x \<Rightarrow> field k x)"
  using member_option[of t A P f g k] by (cases t) simp_all

lemma object_end_comma: "object_end (put Comma s) = object_end s"
  by (simp add: object_end_def put_def trim_comma)

lemma run_append: "run (ws @ us) s = run us (run ws s)"
  by (simp add: run_def)

lemma run_optional_end:
  "run (us @ [case t of None \<Rightarrow> run [] | Some w \<Rightarrow> run [put (Key k), w], object_end])
   = run (us @ [case t of None \<Rightarrow> run [] | Some w \<Rightarrow> write_val k w, object_end])"
  by (auto simp: fun_eq_iff run_append run_Nil run_Cons write_val_def object_end_comma split: option.split)

lemma emits_list:
  "(\<And>x. x \<in> set ts \<Longrightarrow> emits A (p x) (f x) (g x)) \<Longrightarrow> (P \<Longrightarrow> list_all (\<lambda>b. b) (map p ts)) \<Longrightarrow>
   list_all2 (emits A P) (map f ts) (map g ts)"
  by (auto simp: list.rel_map list_all_iff intro!: list.rel_refl_strong intro: emits_weaken)

lemma emits_bool: "emits A P (put (Lit (ABool b))) (ABool b)"
  by (simp add: emits_lit same_refl)

lemma emits_true: "emits A P (put (Lit (ABool True))) (ABool True)"
  by (rule emits_bool)

lemma emits_str: "emits A P (put (Lit (AStr s))) (AStr s)"
  by (simp add: emits_lit same_refl)

lemmas member_rules = member_val member_if member_option member_map_option members_raw members_Nil members_Cons
  emits_bool emits_str emits_vals_array

lemma only_if_True: "only_if c (write_val k (put (Lit (ABool c)))) = only_if c (write_val k (put (Lit (ABool True))))"
  by (simp add: only_if_def)

lemma emits_write_term:
  assumes "emits A P w x"
  shows "emits A P (write_term env v w l) (term_object env True v x l)"
  unfolding write_term_def term_object_def write_vals
  by (rule emits_objectI, (rule snocs)+, (rule member_rules assms)+) (simp_all add: field_def)

lemma by_rank_id:
  assumes "sorted (map (te_rank env) ts)" and "length vs = length ts"
  shows "by_rank env ts vs = vs"
proof -
  have "sorted (map (\<lambda>(t, _). te_rank env t) (zip ts vs))"
    using assms by (simp add: sorted_iff_nth_mono)
  then show ?thesis using assms(2) by (simp add: by_rank_def sort_key_id_if_sorted)
qed

section \<open>Terms and expressions\<close>

text \<open>What the encoders and \<open>ToValue\<close> write alike: numbers that are not respelled, sets and objects that are
  sorted already, and expressions in template strings that consist of their terms.\<close>

fun only_terms :: "ast_expr \<Rightarrow> bool" where
  "only_terms (Expr negated generated withs terms l) =
     (\<not> negated \<and> \<not> generated \<and> withs = [] \<and>
      (case terms of None \<Rightarrow> True | Some (OneTerm _) \<Rightarrow> True | Some (TermList _) \<Rightarrow> True | _ \<Rightarrow> False))"

definition all_plain :: "bool list \<Rightarrow> bool" where
  "all_plain bs = list_all (\<lambda>b. b) bs"

primrec plain_term :: "'x roast_env \<Rightarrow> ast_term \<Rightarrow> bool"
  and plain_value :: "'x roast_env \<Rightarrow> ast_value \<Rightarrow> bool"
  and plain_part :: "'x roast_env \<Rightarrow> template_part \<Rightarrow> bool"
  and plain_with :: "'x roast_env \<Rightarrow> ast_with \<Rightarrow> bool"
  and plain_terms :: "'x roast_env \<Rightarrow> expr_terms \<Rightarrow> bool"
  and plain_expr :: "'x roast_env \<Rightarrow> ast_expr \<Rightarrow> bool" where
  "plain_term env (Term v l) = plain_value env v"
| "plain_value env VNull = (te_json_null env = ANull)"
| "plain_value env (VBool b) = True"
| "plain_value env (VNum s) = (number_to_value env s = ANum s)"
| "plain_value env (VStr s) = True"
| "plain_value env (VVar s) = True"
| "plain_value env (VRef ts) = all_plain (map (plain_term env) ts)"
| "plain_value env (VCall ts) = all_plain (map (plain_term env) ts)"
| "plain_value env (VArray ts) = all_plain (map (plain_term env) ts)"
| "plain_value env (VObject kvs) =
     (sorted (map (te_rank env) (map fst kvs)) \<and>
      all_plain (map (\<lambda>(a, b). a \<and> b) (map (map_prod (plain_term env) (plain_term env)) kvs)))"
| "plain_value env (VSet ts) = (sorted (map (te_rank env) ts) \<and> all_plain (map (plain_term env) ts))"
| "plain_value env (VArrayComp t b) = (plain_term env t \<and> all_plain (map (plain_expr env) b))"
| "plain_value env (VSetComp t b) = (plain_term env t \<and> all_plain (map (plain_expr env) b))"
| "plain_value env (VObjectComp k v b) =
     (plain_term env k \<and> plain_term env v \<and> all_plain (map (plain_expr env) b))"
| "plain_value env (VTemplate ps multiLine) = all_plain (map (plain_part env) ps)"
| "plain_part env (TermPart t) = plain_term env t"
| "plain_part env (ExprPart e) = (only_terms e \<and> plain_expr env e)"
| "plain_with env (With target value l) = (plain_term env target \<and> plain_term env value)"
| "plain_terms env (OneTerm t) = plain_term env t"
| "plain_terms env (TermList ts) = all_plain (map (plain_term env) ts)"
| "plain_terms env (SomeDecl l ts) = all_plain (map (plain_term env) ts)"
| "plain_terms env (Every l k v d b) =
     ((case map_option (plain_term env) k of None \<Rightarrow> True | Some p \<Rightarrow> p) \<and> plain_term env v \<and> plain_term env d
      \<and> all_plain (map (plain_expr env) b))"
| "plain_terms env (NotBody l b explicitBody) = all_plain (map (plain_expr env) b)"
| "plain_terms env (LogicalAnd l lhs rhs el er) =
     (all_plain (map (plain_expr env) lhs) \<and> all_plain (map (plain_expr env) rhs))"
| "plain_terms env (LogicalOr l lhs rhs el er) =
     (all_plain (map (plain_expr env) lhs) \<and> all_plain (map (plain_expr env) rhs))"
| "plain_expr env (Expr negated generated withs terms l) =
     (all_plain (map (plain_with env) withs) \<and> (case map_option (plain_terms env) terms of None \<Rightarrow> True | Some p \<Rightarrow> p))"

lemma emits_list_plain:
  "(\<And>x. x \<in> set ts \<Longrightarrow> emits A (p x) (f x) (g x)) \<Longrightarrow> (P \<Longrightarrow> all_plain (map p ts)) \<Longrightarrow>
   list_all2 (emits A P) (map f ts) (map g ts)"
  by (rule emits_list) (auto simp: all_plain_def)

lemma emits_list_self:
  "(\<And>x. x \<in> set ts \<Longrightarrow> emits A (p x) (f x) (g x)) \<Longrightarrow>
   list_all2 (emits A (all_plain (map p ts))) (map f ts) (map g ts)"
  by (rule emits_list_plain)

text \<open>The attachment is seen by the first expression that is encoded, and by no other.\<close>

definition encode_interpolated :: "'x roast_env \<Rightarrow> ast_expr \<Rightarrow> 'x writer" where
  "encode_interpolated env e = (case e of Expr negated generated withs terms l \<Rightarrow>
     run [object_start l, only_if negated (write_bool ''negated'' negated),
       only_if generated (write_bool ''generated'' generated), write_bool ''interpolated'' True,
       only_if (map (encode_with env) withs \<noteq> []) (vals_array_attr ''with'' (map (encode_with env) withs)),
       (case map_option (encode_terms env) terms of None \<Rightarrow> run [] | Some w \<Rightarrow> run [put (Key ''terms''), w]),
       object_end])"

lemma adds_interpolated:
  assumes "st_att s = Unattached"
  shows "encode_part env (ExprPart e) s = encode_interpolated env e s"
proof -
  obtain negated generated withs terms l where e: "e = Expr negated generated withs terms l" by (cases e)
  have commute: "run [object_start l, only_if negated (write_bool ''negated'' negated),
      only_if generated (write_bool ''generated'' generated), take_interpolated] (attach Interpolated s)
    = run [object_start l, only_if negated (write_bool ''negated'' negated),
      only_if generated (write_bool ''generated'' generated), write_bool ''interpolated'' True] s"
    using assms
    by (simp add: run_def object_start_def put_def attach_def only_if_def write_bool_def take_interpolated_def
        write_val_def encode_location_def split: option.split prod.split)
  have split: "run (a # b # c # d # w # ws) t = run (w # ws) (run [a, b, c, d] t)" for a b c d w ws and t :: "'a json_stream"
    by (simp add: run_def)
  have "encode_part env (ExprPart e) s = encode_expr env e (attach Interpolated s)" by (simp add: run_def)
  then show ?thesis unfolding e encode_interpolated_def encode_expr.simps expr_codec_def ast_expr.case split commute .
qed

lemma emits_cong: "(\<And>s. st_att s \<in> A \<Longrightarrow> w s = w' s) \<Longrightarrow> emits A P w x = emits A P w' x"
  by (auto simp: emits_def adds_def)

section \<open>One encoder at a time\<close>

lemmas object_simps = field_def field_if_def

lemma emits_comprehension:
  assumes "emits A P t x" and "list_all2 (emits A P) b ys"
  shows "emits A P (array_comprehension_codec t b) (AObj (field ''term'' x @ field ''body'' (AArr ys)))"
    and "emits A P (set_comprehension_codec t b) (AObj (field ''term'' x @ field ''body'' (AArr ys)))"
  unfolding array_comprehension_codec_def set_comprehension_codec_def object_start_None[symmetric]
  by (rule emits_object_openI(2), (rule snocs)+, (rule member_rules assms)+, simp_all add: field_def loc_fields_def)+

lemma emits_object_comprehension:
  assumes "emits A P k x" and "emits A P v y" and "list_all2 (emits A P) b zs"
  shows "emits A P (object_comprehension_codec k v b)
    (AObj (field ''key'' x @ field ''value'' y @ field ''body'' (AArr zs)))"
  unfolding object_comprehension_codec_def write_vals
  by (rule emits_objectI, (rule snocs)+, (rule member_rules assms)+) (simp_all add: field_def loc_fields_def)

lemma emits_template:
  assumes "list_all2 (emits A P) ps xs"
  shows "emits A P (template_string_codec ps multiLine)
    (AObj (field ''parts'' (AArr xs) @ field_if multiLine ''multi_line'' (ABool True)))"
proof -
  have "run [put ObjStart, m, put (Key ''parts''), put ArrStart, write_items 0 ps, put ArrEnd, put ObjEnd]
    = run [object_start None, m, put (Key ''parts''), vals_array ps, put ObjEnd]" for m
    by (simp add: fun_eq_iff run_def vals_array_def object_start_None)
  moreover have "emits A P (run [object_start None, only_if multiLine (write_val ''multi_line'' (put (Lit (ABool multiLine)))),
      put (Key ''parts''), vals_array ps, put ObjEnd])
    (AObj (field ''parts'' (AArr xs) @ field_if multiLine ''multi_line'' (ABool True)))"
    by (rule emits_object_openI(2), (rule snocs)+, (rule member_rules assms)+) (simp_all add: object_simps loc_fields_def)
  ultimately show ?thesis by (simp add: write_val_def template_string_codec_def)
qed

lemma emits_with:
  assumes "emits A P t x" and "emits A P v y"
  shows "emits A P (with_codec l t v) (AObj (loc_fields l @ field ''target'' x @ field ''value'' y))"
  unfolding with_codec_def
  by (rule emits_object_openI(1), (rule snocs)+, (rule member_rules assms)+) (simp_all add: field_def)

lemma emits_some:
  assumes "list_all2 (emits A P) ts xs"
  shows "emits A P (some_decl_codec l ts) (AObj (loc_fields l @ field ''symbols'' (AArr xs)))"
  unfolding some_decl_codec_def write_vals
  by (rule emits_objectI, (rule snocs)+, (rule member_rules assms)+) (simp_all add: field_def)

lemma emits_every:
  assumes k: "\<And>t. k = Some t \<Longrightarrow> emits A P (f t) (g t)" and "emits A P v y" and "emits A P d z"
    and "list_all2 (emits A P) b us"
  shows "emits A P (every_codec l (map_option f k) v d b)
    (AObj (loc_fields l @ (case map_option g k of None \<Rightarrow> [] | Some k \<Rightarrow> field ''key'' k)
       @ field ''value'' y @ field ''domain'' z @ field ''body'' (AArr us)))"
  unfolding every_codec_def write_vals
  by (rule emits_object_openI(2), (rule snocs)+, (rule member_rules assms | assumption)+) (simp_all add: field_def)

lemma emits_not:
  assumes "list_all2 (emits A P) b xs"
  shows "emits A P (not_codec l b explicitBody)
    (AObj (loc_fields l @ field ''type'' (AStr ''not'') @ field ''body'' (AArr xs)
       @ field_if explicitBody ''explicit_body'' (ABool True)))"
  unfolding not_codec_def write_vals
  by (rule emits_objectI, (rule snocs)+, (rule member_rules assms)+) (simp_all add: object_simps)

lemma emits_logical:
  assumes "list_all2 (emits A P) lhs xs" and "list_all2 (emits A P) rhs ys"
  shows "emits A P (write_logical oper l lhs rhs el er) (logical_to_term oper l (AArr xs) (AArr ys) el er)"
  unfolding write_logical_def logical_to_term_def write_vals
  by (rule emits_objectI, (rule snocs)+, (rule member_rules assms)+) (simp_all add: object_simps)

lemma emits_expr:
  assumes "list_all2 (emits {Unattached} P) ws xs"
    and "\<And>t. terms = Some t \<Longrightarrow> emits {Unattached} P (f t) (g t)" and c: "c \<longleftrightarrow> ws \<noteq> []"
  shows "emits {Unattached} P (expr_codec l negated generated ws (map_option f terms))
    (AObj (loc_fields l @ field_if negated ''negated'' (ABool True) @ field_if generated ''generated'' (ABool True)
       @ field_if c ''with'' (AArr xs) @ (case map_option g terms of None \<Rightarrow> [] | Some v \<Rightarrow> field ''terms'' v)))"
proof -
  have skip: "members {Unattached} P [take_interpolated] [] []"
    unfolding members_def by (intro exI[of _ "[]"]) (simp add: adds_def run_def take_interpolated_def)
  show ?thesis
    unfolding expr_codec_def c[symmetric] write_vals run_optional_end[where us = "[_, _, _, _, _]", simplified]
    by (rule emits_objectI, (rule snocs)+, (rule skip member_rules assms(1,2) | assumption)+) (simp_all add: object_simps)
qed

lemma emits_interpolated:
  assumes "list_all2 (emits {Unattached} P) ws xs"
    and "\<And>t. terms = Some t \<Longrightarrow> emits {Unattached} P (f t) (g t)" and "c \<longleftrightarrow> ws \<noteq> []"
    and P: "P \<Longrightarrow> \<not> negated \<and> \<not> generated \<and> \<not> c \<and> kept = (case map_option g terms of None \<Rightarrow> [] | Some v \<Rightarrow> field ''terms'' v)"
  shows "emits {Unattached} P (run [object_start l, only_if negated (write_bool ''negated'' negated),
       only_if generated (write_bool ''generated'' generated), write_bool ''interpolated'' True,
       only_if c (vals_array_attr ''with'' ws),
       (case map_option f terms of None \<Rightarrow> run [] | Some w \<Rightarrow> run [put (Key ''terms''), w]), object_end])
    (AObj (loc_fields l @ kept @ field ''interpolated'' (ABool True)))"
  unfolding write_vals run_optional_end[where us = "[_, _, _, _, _]", simplified]
  by (rule emits_objectI, (rule snocs)+, (rule member_rules assms(1,2) | assumption)+)
    (simp_all add: object_simps P)

lemma emits_member_pair:
  assumes "emits A P k x" and "emits A P v y"
  shows "emits A P (run [put ArrStart, k, put Comma, v, put ArrEnd]) (AArr [x, y])"
proof -
  have "run [put ArrStart, k, put Comma, v, put ArrEnd] = run [put ArrStart, write_items 0 [k, v], put ArrEnd]"
    by (simp add: fun_eq_iff run_def)
  then show ?thesis using emits_array[of A P "[k, v]" "[x, y]"] assms by simp
qed

lemma encode_emits:
  fixes env :: "'x roast_env"
  shows "emits {Unattached} (plain_term env t) (encode_term env t) (term_to_object env t)"
    and "emits {Unattached} (plain_value env v) (encode_value env v) (term_value_term env v)"
    and "emits {Unattached} (plain_part env p) (encode_part env p) (part_to_value env p)"
    and "emits {Unattached} (plain_with env w) (encode_with env w) (with_to_object env w)"
    and "emits {Unattached} (plain_terms env ts) (encode_terms env ts) (terms_to_value env ts)"
    and "emits {Unattached} (plain_expr env e) (encode_expr env e) (fst (expr_to_object env e))
       \<and> emits {Unattached} (only_terms e \<and> plain_expr env e) (encode_interpolated env e) (snd (expr_to_object env e))"
proof (induction t and v and p and w and ts and e)
  case (Term v l)
  then show ?case by (simp add: emits_write_term)
next
  case VNull
  then show ?case by (simp add: emits_lit same_refl)
next
  case (VBool b)
  then show ?case by (simp add: emits_bool)
next
  case (VNum s)
  then show ?case by (simp add: number_codec_def emits_lit same_refl)
next
  case (VStr s)
  then show ?case by (simp add: emits_str)
next
  case (VVar s)
  then show ?case by (simp add: emits_str)
next
  case (VRef ts)
  then show ?case by (simp add: ref_codec_def emits_vals_array emits_list_self)
next
  case (VCall ts)
  then show ?case by (simp add: emits_vals_array emits_list_self)
next
  case (VArray ts)
  then show ?case by (simp add: array_codec_def emits_array emits_list_self)
next
  case (VObject kvs)
  let ?P = "plain_value env (VObject kvs)"
  let ?pair = "\<lambda>(k, v). run [put ArrStart, k, put Comma, v, put ArrEnd]"
  have "emits {Unattached} (case kv of (k, v) \<Rightarrow> plain_term env k \<and> plain_term env v)
      (?pair (map_prod (encode_term env) (encode_term env) kv))
      (case map_prod (term_to_object env) (term_to_object env) kv of (k, v) \<Rightarrow> AArr [k, v])" if "kv \<in> set kvs" for kv
  proof -
    obtain k v where kv: "kv = (k, v)" by fastforce
    have "emits {Unattached} (plain_term env k) (encode_term env k) (term_to_object env k)"
      "emits {Unattached} (plain_term env v) (encode_term env v) (term_to_object env v)"
      using VObject(1)[OF that, of k] VObject(2)[OF that, of v] kv by auto
    then show ?thesis unfolding kv
      by (simp, intro emits_member_pair) (auto intro: emits_weaken)
  qed
  then have "list_all2 (emits {Unattached} ?P)
      (map (\<lambda>kv. ?pair (map_prod (encode_term env) (encode_term env) kv)) kvs)
      (map (\<lambda>kv. case map_prod (term_to_object env) (term_to_object env) kv of (k, v) \<Rightarrow> AArr [k, v]) kvs)"
    by (rule emits_list_plain) (auto simp: o_def split_def)
  then have "emits {Unattached} ?P (encode_value env (VObject kvs))
      (AArr (map (\<lambda>kv. case map_prod (term_to_object env) (term_to_object env) kv of (k, v) \<Rightarrow> AArr [k, v]) kvs))"
    by (simp add: object_codec_def emits_array o_def)
  then show ?case by (rule emits_weaken) (auto simp: by_rank_id o_def)
next
  case (VSet ts)
  then have "emits {Unattached} (plain_value env (VSet ts)) (encode_value env (VSet ts)) (AArr (map (term_to_object env) ts))"
    unfolding encode_value.simps set_codec_def by (intro emits_vals_array emits_list_plain) auto
  then show ?case by (rule emits_weaken) (auto simp: by_rank_id)
next
  case (VArrayComp t b)
  show ?case unfolding encode_value.simps term_value_term.simps
    by (rule emits_comprehension(1), rule emits_weaken[OF VArrayComp(1)])
      (auto simp: o_def intro!: emits_list_plain VArrayComp(2)[THEN conjunct1])
next
  case (VSetComp t b)
  show ?case unfolding encode_value.simps term_value_term.simps
    by (rule emits_comprehension(2), rule emits_weaken[OF VSetComp(1)])
      (auto simp: o_def intro!: emits_list_plain VSetComp(2)[THEN conjunct1])
next
  case (VObjectComp k v b)
  show ?case unfolding encode_value.simps term_value_term.simps
    by (rule emits_object_comprehension, rule emits_weaken[OF VObjectComp(1)], simp, simp,
        rule emits_weaken[OF VObjectComp(2)])
      (auto simp: o_def intro!: emits_list_plain VObjectComp(3)[THEN conjunct1])
next
  case (VTemplate ps multiLine)
  then show ?case by (simp add: emits_template emits_list_self)
next
  case (TermPart t)
  then show ?case by simp
next
  case (ExprPart e)
  have "emits {Unattached} P (encode_part env (ExprPart e)) x = emits {Unattached} P (encode_interpolated env e) x" for P x
    by (rule emits_cong) (simp add: adds_interpolated del: encode_part.simps)
  then show ?case using ExprPart by (simp only: plain_part.simps part_to_value.simps)
next
  case (With target "value" l)
  show ?case unfolding encode_with.simps with_to_object.simps
    by (rule emits_with, rule emits_weaken[OF With(1)], simp, simp, rule emits_weaken[OF With(2)]) auto
next
  case (OneTerm t)
  then show ?case by simp
next
  case (TermList ts)
  then show ?case by (simp add: emits_vals_array emits_list_self)
next
  case (SomeDecl l ts)
  then show ?case by (simp add: emits_some emits_list_self)
next
  case (Every l k v d b)
  show ?case unfolding encode_terms.simps terms_to_value.simps
    by (rule emits_every, rule emits_weaken[OF Every(1)], simp, simp, simp, rule emits_weaken[OF Every(2)], simp, simp,
        rule emits_weaken[OF Every(3)])
      (auto simp: o_def intro!: emits_list_plain Every(4)[THEN conjunct1])
next
  case (NotBody l b explicitBody)
  show ?case unfolding encode_terms.simps terms_to_value.simps
    by (rule emits_not) (auto simp: o_def intro!: emits_list_plain NotBody[THEN conjunct1])
next
  case (LogicalAnd l lhs rhs el er)
  show ?case unfolding encode_terms.simps terms_to_value.simps
    by (rule emits_logical) (auto simp: o_def intro!: emits_list_plain LogicalAnd[THEN conjunct1])
next
  case (LogicalOr l lhs rhs el er)
  show ?case unfolding encode_terms.simps terms_to_value.simps
    by (rule emits_logical) (auto simp: o_def intro!: emits_list_plain LogicalOr[THEN conjunct1])
next
  case (Expr negated generated withs terms l)
  let ?P = "plain_expr env (Expr negated generated withs terms l)"
  have w: "list_all2 (emits {Unattached} P) (map (encode_with env) withs) (map (with_to_object env) withs)"
    if "P \<Longrightarrow> ?P" for P by (rule emits_list_plain, rule Expr(1), assumption) (use that in auto)
  have t: "emits {Unattached} P (encode_terms env t) (terms_to_value env t)" if "terms = Some t" "P \<Longrightarrow> ?P" for P t
    using that by (intro emits_weaken[OF Expr(2)]) auto
  have "emits {Unattached} ?P (encode_expr env (Expr negated generated withs terms l))
      (fst (expr_to_object env (Expr negated generated withs terms l)))"
    unfolding encode_expr.simps expr_to_object.simps fst_conv by (rule emits_expr) (auto intro: w t)
  moreover have "emits {Unattached} (only_terms (Expr negated generated withs terms l) \<and> ?P)
      (encode_interpolated env (Expr negated generated withs terms l))
      (snd (expr_to_object env (Expr negated generated withs terms l)))"
    unfolding encode_interpolated_def ast_expr.case expr_to_object.simps snd_conv
  proof (rule emits_interpolated[where g = "terms_to_value env"])
    show "list_all2 (emits {Unattached} (only_terms (Expr negated generated withs terms l) \<and> ?P))
        (map (encode_with env) withs) (map (with_to_object env) withs)" by (rule w, erule conjunct2)
    show "emits {Unattached} (only_terms (Expr negated generated withs terms l) \<and> ?P) (encode_terms env t) (terms_to_value env t)"
      if "terms = Some t" for t by (rule t[OF that], erule conjunct2)
  qed (auto simp: interpolated_terms_def split: option.splits expr_terms.splits)
  ultimately show ?case ..
qed

section \<open>Annotations\<close>

text \<open>What the JSON library makes of the types of OPA without an encoder here is what \<open>module.go\<close> makes of
  them: OPA encodes its annotations with the same names, and leaves out what is empty.\<close>

definition json_agrees :: "'x roast_env \<Rightarrow> bool" where
  "json_agrees env \<longleftrightarrow>
     (\<forall>r. te_json_related env r = related_to_object r) \<and> (\<forall>p. te_json_author env p = author_to_object p)
   \<and> (\<forall>s. schema_to_object env s = Some (te_json_schema env s))
   \<and> (\<forall>c. te_custom env c = Some (AObj (map (map_prod AStr (te_json_any env)) c)))"

text \<open>The custom attributes are a Go map.\<close>

definition wf_annotations :: "'x annotations \<Rightarrow> bool" where
  "wf_annotations a \<longleftrightarrow> distinct (map fst (an_custom a))"

lemma emits_strings: "emits A P (vals_array (map (\<lambda>x. put (Lit (f x))) xs)) (AArr (map f xs))"
  by (intro emits_vals_array) (auto simp: list.rel_map intro!: list.rel_refl_strong emits_lit same_refl)

lemma emits_custom:
  assumes "distinct (map fst c)"
  shows "emits A P (run [put ObjStart, write_items 0 (map (\<lambda>(k, w). run [put (Key k), w]) (map (\<lambda>(k, v). (k, put (Lit (f v)))) c)), put ObjEnd])
    (AObj (map (map_prod AStr f) c))"
proof -
  let ?ts = "map (\<lambda>(k, v). (k, [Lit (f v)])) c"
  have "list_all2 (adds A) (map (\<lambda>(k, w). run [put (Key k), w]) (map (\<lambda>(k, v). (k, put (Lit (f v)))) c)) (map member_start ?ts)"
    by (auto simp: list.rel_map adds_def run_def put_def intro!: list.rel_refl_strong)
  from adds_items[OF this, of 0]
  have "adds A (run [put ObjStart, write_items 0 (map (\<lambda>(k, w). run [put (Key k), w]) (map (\<lambda>(k, v). (k, put (Lit (f v)))) c)), put ObjEnd])
      (ObjStart # separated (map member_start ?ts) @ [ObjEnd])"
    by (simp add: adds_def run_def put_def)
  moreover have "json (ObjStart # separated (map member_start ?ts) @ [ObjEnd]) (AObj (map (map_prod AStr id) (map (\<lambda>(k, v). (k, f v)) c)))"
    by (rule json_obj) (use assms in \<open>auto simp: list.rel_map o_def split_def intro!: list.rel_refl_strong json_lit\<close>)
  moreover have "map (map_prod AStr id) (map (\<lambda>(k, v). (k, f v)) c) = map (map_prod AStr f) c" by auto
  ultimately show ?thesis unfolding emits_def using same_refl by metis
qed

lemma write_object_val:
  "write_object k obj = write_val k (run [put ObjStart, write_items 0 (map (\<lambda>(k, w). run [put (Key k), w]) obj), put ObjEnd])"
  by (simp add: write_object_def write_val_def fun_eq_iff run_def)

lemma all_some_map: "(\<And>x. x \<in> set xs \<Longrightarrow> f x = Some (g x)) \<Longrightarrow> all_some (map f xs) = Some (map g xs)"
  by (induction xs) auto

lemma annotations_to_object_agrees:
  assumes "json_agrees env"
  shows "annotations_to_object env a = Some (AObj (loc_fields (an_loc a)
         @ field_if (an_scope a \<noteq> '''') ''scope'' (AStr (an_scope a))
         @ field_if (an_title a \<noteq> '''') ''title'' (AStr (an_title a))
         @ field_if (an_entrypoint a) ''entrypoint'' (ABool True)
         @ field_if (an_description a \<noteq> '''') ''description'' (AStr (an_description a))
         @ field_if (an_organizations a \<noteq> []) ''organizations'' (AArr (map AStr (an_organizations a)))
         @ field_if (an_related a \<noteq> []) ''related_resources'' (AArr (map (te_json_related env) (an_related a)))
         @ field_if (an_authors a \<noteq> []) ''authors'' (AArr (map (te_json_author env) (an_authors a)))
         @ field_if (an_schemas a \<noteq> []) ''schemas'' (AArr (map (te_json_schema env) (an_schemas a)))
         @ field_if (an_custom a \<noteq> []) ''custom'' (AObj (map (map_prod AStr (te_json_any env)) (an_custom a)))))"
proof -
  have "all_some (map (schema_to_object env) (an_schemas a)) = Some (map (te_json_schema env) (an_schemas a))"
    using assms by (intro all_some_map) (simp add: json_agrees_def)
  moreover have "te_json_related env = related_to_object" "te_json_author env = author_to_object"
    using assms by (auto simp: json_agrees_def)
  ultimately show ?thesis using assms by (simp add: annotations_to_object_def json_agrees_def field_if_def)
qed

lemma emits_annotations:
  assumes "wf_annotations a"
  shows "emits A (json_agrees env \<and> an_scope a \<noteq> '''') (encode_annotations env a) (the (annotations_to_object env a))"
proof -
  let ?P = "json_agrees env \<and> an_scope a \<noteq> ''''"
  note c = assms[unfolded wf_annotations_def]
  have "emits A ?P (encode_annotations env a) (AObj (loc_fields (an_loc a)
         @ field ''scope'' (AStr (an_scope a))
         @ field_if (an_title a \<noteq> '''') ''title'' (AStr (an_title a))
         @ field_if (an_entrypoint a) ''entrypoint'' (ABool True)
         @ field_if (an_description a \<noteq> '''') ''description'' (AStr (an_description a))
         @ field_if (an_organizations a \<noteq> []) ''organizations'' (AArr (map AStr (an_organizations a)))
         @ field_if (an_related a \<noteq> []) ''related_resources'' (AArr (map (te_json_related env) (an_related a)))
         @ field_if (an_authors a \<noteq> []) ''authors'' (AArr (map (te_json_author env) (an_authors a)))
         @ field_if (an_schemas a \<noteq> []) ''schemas'' (AArr (map (te_json_schema env) (an_schemas a)))
         @ field_if (an_custom a \<noteq> []) ''custom'' (AObj (map (map_prod AStr (te_json_any env)) (an_custom a)))))"
    unfolding encode_annotations_def write_vals write_object_val
    by (rule emits_objectI, (rule snocs)+,
        (rule member_val member_if members_Nil members_Cons emits_strings emits_custom c emits_str emits_bool)+)
      (simp_all add: object_simps)
  then show ?thesis
    by (rule emits_weaken) (auto simp: annotations_to_object_agrees field_if_def)
qed

section \<open>Packages, imports and rules\<close>

text \<open>The path of a package is written while the annotations are attached; it has variables and strings
  only.\<close>

fun simple_term :: "ast_term \<Rightarrow> bool" where
  "simple_term (Term (VVar s) l) = True"
| "simple_term (Term (VStr s) l) = True"
| "simple_term (Term v l) = False"

lemma emits_simple: "simple_term t \<Longrightarrow> emits A P (encode_term env t) (term_to_object env t)"
  by (cases t rule: simple_term.cases) (auto intro!: emits_write_term emits_str)

lemma term_to_object_loc_True: "term_to_object_loc env t True = term_to_object env t"
  by (cases t) (simp add: term_to_object_loc_def)

lemma term_to_object_loc_False: "term_to_object_loc env t False = term_to_object env (clear_loc t)"
  by (cases t) (simp add: term_to_object_loc_def term_object_def loc_fields_def)

lemma path_array_Cons: "path_array env (t # ts) = AArr (map (term_to_object env) (clear_loc t # ts))"
proof -
  have "[0..<length (t # ts)] = 0 # map Suc [0..<length ts]" by (simp add: upt_conv_Cons map_Suc_upt del: upt_Suc)
  moreover have "map (\<lambda>i. term_to_object env (ts ! i)) [0..<length ts] = map (term_to_object env) ts"
    by (rule nth_equalityI) auto
  ultimately show ?thesis
    by (simp add: path_array_def term_to_object_loc_True term_to_object_loc_False o_def del: upt_Suc)
qed

lemma emits_path:
  assumes "list_all simple_term (t # ts)"
  shows "emits A P (encode_ref env (clear_loc t # ts)) (path_array env (t # ts))"
proof -
  have "simple_term (clear_loc t)" using assms by (cases t rule: simple_term.cases) auto
  then have "list_all2 (emits A P) (map (encode_term env) (clear_loc t # ts)) (map (term_to_object env) (clear_loc t # ts))"
    using assms by (auto simp: list.rel_map list_all_iff intro!: list.rel_refl_strong emits_simple)
  then show ?thesis unfolding encode_ref_def path_array_Cons by (rule emits_vals_array)
qed

definition wf_package :: "ast_package \<Rightarrow> bool" where
  "wf_package p \<longleftrightarrow> (case pk_path p of None \<Rightarrow> True | Some ts \<Rightarrow> list_all simple_term ts)"

text \<open>The attachment of a package: none without annotations, else those of the package, which are \<open>null\<close>
  for the encoder if there are none of this scope.\<close>

definition package_attachment :: "'x annotations list \<Rightarrow> 'x attachment" where
  "package_attachment as = (if as = [] then Unattached else Annotated (filter package_scope as))"

definition package_plain :: "'x roast_env \<Rightarrow> 'x annotations list \<Rightarrow> bool" where
  "package_plain env as \<longleftrightarrow> json_agrees env \<and> (as \<noteq> [] \<longrightarrow> filter package_scope as \<noteq> [])
     \<and> (\<forall>a\<in>set as. package_scope a \<longrightarrow> an_scope a \<noteq> '''')"

lemma emits_annotations_list:
  assumes "list_all wf_annotations as"
  shows "list_all2 (emits A (json_agrees env \<and> (\<forall>a\<in>set as. an_scope a \<noteq> ''''))) (map (encode_annotations env) as)
     (map (\<lambda>a. the (annotations_to_object env a)) as)"
  using assms by (auto simp: list.rel_map list_all_iff intro!: list.rel_refl_strong intro: emits_weaken[OF emits_annotations])

lemma members_attachment:
  assumes "list_all wf_annotations as"
  shows "members {package_attachment as} (package_plain env as) [write_attachment env]
    (if as = [] then [] else [''annotations''])
    (field_if (filter package_scope as \<noteq> []) ''annotations''
      (AArr (map (\<lambda>a. the (annotations_to_object env a)) (filter package_scope as))))"
proof (cases "as = []")
  case True
  have "members {Unattached} P [write_attachment env] [] []" for P
    unfolding members_def by (intro exI[of _ "[]"]) (simp add: adds_def run_def write_attachment_def)
  then show ?thesis using True by (simp add: package_attachment_def field_if_def)
next
  case False
  let ?as = "filter package_scope as" and ?P = "package_plain env as"
  let ?w = "if ?as = [] then put (Lit ANull) else vals_array (map (encode_annotations env) ?as)"
  let ?x = "if ?as = [] then ANull else AArr (map (\<lambda>a. the (annotations_to_object env a)) ?as)"
  have "list_all wf_annotations ?as" using assms by (simp add: list_all_iff)
  then have "emits {Annotated ?as} ?P (vals_array (map (encode_annotations env) ?as))
      (AArr (map (\<lambda>a. the (annotations_to_object env a)) ?as))"
    by (intro emits_weaken[OF emits_vals_array[OF emits_annotations_list]]) (auto simp: package_plain_def)
  then have "emits {Annotated ?as} ?P ?w ?x" using emits_lit[OF same_refl] by auto
  then have "members {Annotated ?as} ?P [write_val ''annotations'' ?w] [''annotations''] [(AStr ''annotations'', ?x)]"
    by (rule member_val)
  moreover have "write_attachment env s = write_val ''annotations'' ?w s" if "st_att s = Annotated ?as" for s
    using that by (auto simp: write_attachment_def split: list.split)
  then have "adds {Annotated ?as} (run [write_attachment env]) ts = adds {Annotated ?as} (run [write_val ''annotations'' ?w]) ts" for ts
    by (simp add: adds_def run_def)
  ultimately have m: "members {Annotated ?as} ?P [write_attachment env] [''annotations''] [(AStr ''annotations'', ?x)]"
    by (simp only: members_def)
  have "members {Annotated ?as} ?P [write_attachment env] [''annotations'']
      (field_if (?as \<noteq> []) ''annotations'' (AArr (map (\<lambda>a. the (annotations_to_object env a)) ?as)))"
    by (rule members_weaken[OF m]) (use False in \<open>simp add: package_plain_def field_if_def field_def\<close>)
  then show ?thesis unfolding package_attachment_def using False by (simp only: if_False)
qed

lemma emits_package:
  assumes "list_all wf_annotations as" and "wf_package p" and "encode_package env p = Some w"
  shows "emits {package_attachment as} (package_plain env as) w (the (package_to_value env p as))"
proof -
  let ?A = "{package_attachment as}" and ?P = "package_plain env as"
  note att = members_attachment[OF assms(1), of env]
  let ?an = "field_if (filter package_scope as \<noteq> []) ''annotations''
      (AArr (map (\<lambda>a. the (annotations_to_object env a)) (filter package_scope as)))"
  have v: "the (package_to_value env p as) = AObj (loc_fields (pk_loc p)
      @ (case pk_path p of None \<Rightarrow> [] | Some ts \<Rightarrow> field ''path'' (path_array env ts)) @ ?an)" if ?P
  proof -
    have "all_some (map (annotations_to_object env) (filter package_scope as))
        = Some (map (\<lambda>a. the (annotations_to_object env a)) (filter package_scope as))"
      using that by (intro all_some_map) (simp add: package_plain_def annotations_to_object_agrees)
    then show ?thesis by (simp add: package_to_value_def)
  qed
  have "emits ?A ?P w (AObj (loc_fields (pk_loc p)
      @ (case pk_path p of None \<Rightarrow> [] | Some ts \<Rightarrow> field ''path'' (path_array env ts)) @ ?an))"
  proof (cases "pk_path p")
    case None
    then have w: "w = run [object_start (pk_loc p), write_attachment env, object_end]"
      using assms(3) by (simp add: encode_package_def)
    show ?thesis unfolding w None option.case
      by (rule emits_objectI, (rule snocs)+, rule att) (simp_all add: field_if_def)
  next
    case (Some path)
    then obtain t ts where path: "path = t # ts" and w: "w = run [object_start (pk_loc p),
          write_val ''path'' (encode_ref env (clear_loc t # ts)), write_attachment env, object_end]"
      using assms(3) by (cases path) (auto simp: encode_package_def)
    have "list_all simple_term (t # ts)" using assms(2) Some path by (simp add: wf_package_def)
    note p = emits_path[OF this]
    show ?thesis unfolding w Some option.case path
      by (rule emits_objectI, (rule snocs)+, rule members_Cons, rule member_val, rule p, rule att)
        (simp_all add: field_if_def field_def)
  qed
  then show ?thesis by (rule emits_weaken) (use v in auto)
qed

definition import_plain :: "'x roast_env \<Rightarrow> ast_import \<Rightarrow> bool" where
  "import_plain env i \<longleftrightarrow> (case im_path i of None \<Rightarrow> False | Some t \<Rightarrow> plain_term env t)"

lemma emits_import: "emits {Unattached} (import_plain env i) (encode_import env i) (import_to_object env i)"
proof (cases "im_path i")
  case None
  have "emits {Unattached} False (run [object_start (im_loc i), run [], object_end]) (AObj [])"
    by (rule emits_objectI, (rule snocs)+, rule member_none) simp_all
  then show ?thesis by (simp add: encode_import_def import_plain_def None emits_def)
next
  case (Some t)
  have t: "emits {Unattached} (import_plain env i) (encode_term env t) (term_to_object env t)"
    using Some by (intro emits_weaken[OF encode_emits(1)]) (auto simp: import_plain_def)
  have "run [object_start (im_loc i), run [p, a], object_end] = run [object_start (im_loc i), p, a, object_end]" for p a :: "'a writer"
    by (simp add: fun_eq_iff run_def)
  moreover have "emits {Unattached} (import_plain env i) (run [object_start (im_loc i), write_val ''path'' (encode_term env t),
      only_if (im_alias i \<noteq> '''') (write_val ''alias'' (put (Lit (AStr (im_alias i))))), object_end]) (import_to_object env i)"
    unfolding import_to_object_def
    by (rule emits_objectI, (rule snocs)+, (rule member_rules t)+) (simp_all add: object_simps Some term_to_object_loc_True)
  ultimately show ?thesis by (simp add: encode_import_def Some)
qed

definition head_plain :: "'x roast_env \<Rightarrow> ast_head \<Rightarrow> bool" where
  "head_plain env h \<longleftrightarrow>
     (case h_reference h of None \<Rightarrow> True | Some ref \<Rightarrow> all_plain (map (plain_term env) ref))
   \<and> all_plain (map (plain_term env) (h_args h))
   \<and> (case h_key h of None \<Rightarrow> True | Some k \<Rightarrow> plain_term env k)
   \<and> (case h_value h of None \<Rightarrow> True | Some v \<Rightarrow> plain_term env v)"

lemma run_head_end:
  "run (us @ [case k of None \<Rightarrow> run [] | Some k \<Rightarrow> run [put (Key ''key''), f k],
      case v of None \<Rightarrow> run [] | Some v \<Rightarrow> run [only_if (k \<noteq> None) (put Comma), put (Key ''value''), g v], object_end])
   = run (us @ [case k of None \<Rightarrow> run [] | Some k \<Rightarrow> write_val ''key'' (f k),
      case v of None \<Rightarrow> run [] | Some v \<Rightarrow> write_val ''value'' (g v), object_end])"
  by (auto simp: fun_eq_iff run_append run_Nil run_Cons write_val_def object_end_comma only_if_def split: option.split)

lemma strip_value_plain: "h_value (strip_value_loc h) = Some v \<Longrightarrow> head_plain env h \<Longrightarrow> plain_term env v"
  by (auto simp: strip_value_loc_def head_plain_def split: option.splits ast_term.splits if_splits)

lemma emits_head: "emits {Unattached} (head_plain env h) (encode_head env h) (head_to_object env h)"
proof -
  let ?P = "head_plain env h" and ?A = "{Unattached :: 'a attachment}"
  have ref: "emits ?A ?P (vals_array (map (encode_term env) ref)) (AArr (map (term_to_object env) ref))"
    if "h_reference h = Some ref" for ref
    by (rule emits_vals_array, rule emits_list_plain, rule encode_emits(1)) (use that in \<open>simp add: head_plain_def\<close>)
  have args: "emits ?A ?P (vals_array (map (encode_term env) (h_args h))) (AArr (map (term_to_object env) (h_args h)))"
    by (rule emits_vals_array, rule emits_list_plain, rule encode_emits(1)) (simp add: head_plain_def)
  have key: "emits ?A ?P (encode_term env k) (term_to_object env k)" if "h_key h = Some k" for k
    using that by (intro emits_weaken[OF encode_emits(1)]) (auto simp: head_plain_def)
  have val: "emits ?A ?P (encode_term env v) (term_to_object env v)" if "h_value (strip_value_loc h) = Some v" for v
    using strip_value_plain[OF that] by (intro emits_weaken[OF encode_emits(1)]) auto
  show ?thesis
    unfolding encode_head_def head_to_object_def write_vals run_head_end[where us = "[_, _, _, _]", simplified] Let_def
    by (rule emits_objectI, (rule snocs)+, (rule member_rules ref args key val | assumption)+)
      (auto simp: object_simps head_plain_def split: option.split)
qed

text \<open>A rule is plain if stripping its value does not change whether its body is found to be generated.\<close>

primrec rule_plain :: "'x roast_env \<Rightarrow> 'x ast_rule \<Rightarrow> bool" where
  "rule_plain env (Rule l as dflt head body els) \<longleftrightarrow>
     json_agrees env \<and> (\<forall>a\<in>set as. an_scope a \<noteq> '''')
   \<and> (case head of None \<Rightarrow> True | Some h \<Rightarrow> head_plain env h)
   \<and> is_body_generated (Rule l as dflt (map_option strip_value_loc head) body els)
     = is_body_generated (Rule l as dflt head body els)
   \<and> all_plain (map (plain_expr env) body)
   \<and> (case map_option (rule_plain env) els of None \<Rightarrow> True | Some p \<Rightarrow> p)"

primrec wf_rule :: "'x ast_rule \<Rightarrow> bool" where
  "wf_rule (Rule l as dflt head body els) \<longleftrightarrow>
     list_all wf_annotations as \<and> (case map_option wf_rule els of None \<Rightarrow> True | Some p \<Rightarrow> p)"

lemma emits_body:
  "(P \<Longrightarrow> all_plain (map (plain_expr env) b)) \<Longrightarrow>
   emits {Unattached} P (vals_array (map (encode_expr env) b)) (body_to_array env b)"
  unfolding body_to_array_def
  by (rule emits_vals_array, rule emits_list_plain) (auto intro: encode_emits(6)[THEN conjunct1])

lemma emits_rule:
  assumes "wf_rule r" and "encode_rule env r = Some w"
  shows "(rule_plain env r \<longrightarrow> module_rule_to_object env r \<noteq> None)
    \<and> emits {Unattached} (rule_plain env r) w (the (module_rule_to_object env r))"
  using assms
proof (induction r arbitrary: w)
  case (Rule l as dflt head body els)
  let ?r = "Rule l as dflt head body els" and ?r' = "Rule l as dflt (map_option strip_value_loc head) body els"
  let ?P = "rule_plain env ?r" and ?A = "{Unattached :: 'a attachment}"
  obtain g e where g: "is_body_generated ?r' = Some g"
    and e: "(case map_option (encode_rule env) els of None \<Rightarrow> Some (run []) | Some e \<Rightarrow> map_option (write_val ''else'') e) = Some e"
    and w: "w = run [object_start l,
         only_if (as \<noteq> []) (vals_array_attr ''annotations'' (map (encode_annotations env) as)),
         only_if dflt (write_bool ''default'' dflt),
         (case head of None \<Rightarrow> run [] | Some h \<Rightarrow> write_val ''head'' (encode_head env h)),
         only_if (\<not> g) (vals_array_attr ''body'' (map (encode_expr env) body)),
         e, object_end]"
    using Rule.prems(2) by (auto simp: bind_eq_Some_conv)
  let ?else = "case els of None \<Rightarrow> [] | Some r \<Rightarrow> field ''else'' (the (module_rule_to_object env r))"
  have e': "members ?A ?P [e] (if els = None then [] else [''else'']) ?else
      \<and> (?P \<longrightarrow> (\<forall>r. els = Some r \<longrightarrow> module_rule_to_object env r \<noteq> None))"
  proof (cases els)
    case None
    then have "e = run []" using e by simp
    with None show ?thesis by (simp add: member_none del: rule_plain.simps)
  next
    case (Some r)
    then obtain w' where w': "encode_rule env r = Some w'" "e = write_val ''else'' w'" using e by auto
    have "wf_rule r" using Rule.prems(1) Some by simp
    moreover have "r \<in> set_option els" using Some by simp
    ultimately
    have "emits ?A (rule_plain env r) w' (the (module_rule_to_object env r))" and "rule_plain env r \<longrightarrow> module_rule_to_object env r \<noteq> None"
      using Rule.IH w'(1) by auto
    then show ?thesis using Some w'(2)
      by (auto simp: field_def intro!: member_val intro: emits_weaken)
  qed
  have an: "emits ?A ?P (vals_array (map (encode_annotations env) as)) (AArr (map (\<lambda>a. the (annotations_to_object env a)) as))"
    by (rule emits_weaken[OF emits_vals_array[OF emits_annotations_list]]) (use Rule.prems(1) in auto)
  have hd: "emits ?A ?P (encode_head env h) (head_to_object env h)" if "head = Some h" for h
    by (rule emits_weaken[OF emits_head]) (use that in auto)
  have bd: "emits ?A ?P (vals_array (map (encode_expr env) body)) (body_to_array env body)"
    by (rule emits_body) simp
  have o: "emits ?A ?P w (AObj (loc_fields l
        @ field_if (as \<noteq> []) ''annotations'' (AArr (map (\<lambda>a. the (annotations_to_object env a)) as))
        @ field_if dflt ''default'' (ABool True)
        @ (case head of None \<Rightarrow> [] | Some h \<Rightarrow> field ''head'' (head_to_object env h))
        @ field_if (\<not> g) ''body'' (body_to_array env body) @ ?else))"
    unfolding w write_vals
    by (rule emits_objectI, (rule snocs)+, (rule conjunct1[OF e'] member_rules an hd bd | assumption)+)
      (auto simp: object_simps split: option.split)
  have v: "module_rule_to_object env ?r = Some (AObj (loc_fields l
        @ field_if (as \<noteq> []) ''annotations'' (AArr (map (\<lambda>a. the (annotations_to_object env a)) as))
        @ field_if dflt ''default'' (ABool True)
        @ (case head of None \<Rightarrow> [] | Some h \<Rightarrow> field ''head'' (head_to_object env h))
        @ field_if (\<not> g) ''body'' (body_to_array env body) @ ?else))" if P: ?P
  proof -
    have "all_some (map (annotations_to_object env) as) = Some (map (\<lambda>a. the (annotations_to_object env a)) as)"
      using P by (intro all_some_map) (simp add: annotations_to_object_agrees)
    moreover have "is_body_generated ?r = Some g" using P g by simp
    moreover have "(case map_option (module_rule_to_object env) els of None \<Rightarrow> Some [] | Some e \<Rightarrow> map_option (field ''else'') e) = Some ?else"
      using conjunct2[OF e'] P by (cases els) auto
    ultimately show ?thesis by (simp add: field_if_def)
  qed
  show ?case using emits_weaken[OF o] v by auto
qed

section \<open>Modules\<close>

text \<open>A module that the parser can make: custom attributes are maps, and a package path has variables and
  strings.\<close>

definition wf_module :: "'x ast_module \<Rightarrow> bool" where
  "wf_module m \<longleftrightarrow> list_all wf_annotations (m_annotations m) \<and> list_all wf_rule (m_rules m)
     \<and> (case m_package m of None \<Rightarrow> True | Some p \<Rightarrow> wf_package p)"

definition plain_module :: "'x roast_env \<Rightarrow> 'x ast_module \<Rightarrow> bool" where
  "plain_module env m \<longleftrightarrow> list_all (import_plain env) (m_imports m) \<and> list_all (rule_plain env) (m_rules m)
     \<and> (m_package m \<noteq> None \<longrightarrow> package_plain env (m_annotations m))"

lemma all_some_rules:
  assumes "list_all wf_rule rs" and "all_some (map (encode_rule env) rs) = Some ws"
  shows "list_all2 (emits {Unattached} (list_all (rule_plain env) rs)) ws (map (\<lambda>r. the (module_rule_to_object env r)) rs)
     \<and> (list_all (rule_plain env) rs \<longrightarrow>
         all_some (map (module_rule_to_object env) rs) = Some (map (\<lambda>r. the (module_rule_to_object env r)) rs))"
  using assms
proof (induction rs arbitrary: ws)
  case (Cons r rs)
  then obtain w ws' where w: "encode_rule env r = Some w" "all_some (map (encode_rule env) rs) = Some ws'" "ws = w # ws'"
    by (auto simp: bind_eq_Some_conv)
  from Cons.prems(1) have wf: "wf_rule r" "list_all wf_rule rs" by auto
  note r = emits_rule[OF wf(1) w(1)]
  have "emits {Unattached} (list_all (rule_plain env) (r # rs)) w (the (module_rule_to_object env r))"
    by (rule emits_weaken[OF conjunct2[OF r]]) auto
  moreover have "list_all2 (emits {Unattached} (list_all (rule_plain env) (r # rs))) ws' (map (\<lambda>r. the (module_rule_to_object env r)) rs)"
    using Cons.IH[OF wf(2) w(2)] by (auto elim!: list_all2_mono intro: emits_weaken)
  ultimately show ?case using w(3) Cons.IH[OF wf(2) w(2)] r by auto
qed auto

lemma members_adds:
  "members B P us ks kvs \<Longrightarrow> (\<And>ts. adds B (run us) ts \<Longrightarrow> adds A (run ws) ts) \<Longrightarrow> members A P ws ks kvs"
  unfolding members_def by (elim exE conjE, intro exI conjI) assumption+

lemma emits_module:
  assumes "wf_module m" and "encode_module env m = Some w"
  shows "(plain_module env m \<longrightarrow> to_value env m \<noteq> None)
    \<and> emits {Unattached} (plain_module env m) w (the (to_value env m))"
proof -
  let ?A = "{Unattached :: 'a attachment}" and ?P = "plain_module env m"
  let ?as = "m_annotations m"
  let ?att = "only_if (?as \<noteq> []) (attach (Annotated (filter package_scope ?as)))"
  obtain pkg rls where
    pkg: "(case m_package m of None \<Rightarrow> Some (run [])
       | Some p \<Rightarrow> map_option (\<lambda>w. run [?att, write_val ''package'' w, attach Unattached]) (encode_package env p)) = Some pkg"
    and rls: "all_some (map (encode_rule env) (m_rules m)) = Some rls"
    and w: "w = run [object_start None, pkg,
         only_if (m_imports m \<noteq> []) (vals_array_attr ''imports'' (map (encode_import env) (m_imports m))),
         only_if (m_rules m \<noteq> []) (vals_array_attr ''rules'' rls),
         only_if (m_comments m \<noteq> []) (vals_array_attr ''comments'' (map encode_comment (m_comments m))),
         object_end]"
    using assms(2) by (auto simp: encode_module_def bind_eq_Some_conv)
  let ?pkg = "case m_package m of None \<Rightarrow> [] | Some p \<Rightarrow> field ''package'' (the (package_to_value env p ?as))"
  have p: "members ?A ?P [pkg] (if m_package m = None then [] else [''package'']) ?pkg"
  proof (cases "m_package m")
    case None
    then have "pkg = run []" using pkg by simp
    then show ?thesis using None by (simp add: member_none)
  next
    case (Some p)
    then obtain w' where w': "encode_package env p = Some w'" "pkg = run [?att, write_val ''package'' w', attach Unattached]"
      using pkg by auto
    have "list_all wf_annotations ?as" "wf_package p" using assms(1) Some by (auto simp: wf_module_def)
    from emits_package[OF this w'(1)]
    have "emits {package_attachment ?as} ?P w' (the (package_to_value env p ?as))"
      by (rule emits_weaken) (use Some in \<open>auto simp: plain_module_def\<close>)
    from member_val[OF this, of "''package''"]
    have m: "members {package_attachment ?as} ?P [write_val ''package'' w'] [''package''] [(AStr ''package'', the (package_to_value env p ?as))]" .
    have "adds ?A (run [pkg]) ts" if "adds {package_attachment ?as} (run [write_val ''package'' w']) ts" for ts
      unfolding adds_def
    proof (intro allI impI)
      fix s :: "'a json_stream" assume s: "st_att s \<in> ?A"
      let ?t = "s\<lparr>st_att := package_attachment ?as\<rparr>"
      have "?att s = ?t" using s by (cases "?as = []") (simp_all add: only_if_def attach_def package_attachment_def)
      moreover have "run [pkg] s = attach Unattached (run [write_val ''package'' w'] (?att s))"
        by (simp add: w'(2) run_def)
      moreover have "run [write_val ''package'' w'] ?t = ?t\<lparr>st_buf := st_buf ?t @ ts\<rparr>"
        using that unfolding adds_def by simp
      ultimately show "run [pkg] s = s\<lparr>st_buf := st_buf s @ ts\<rparr>" using s by (simp add: attach_def)
    qed
    then have "members ?A ?P [pkg] [''package''] [(AStr ''package'', the (package_to_value env p ?as))]"
      by (rule members_adds[OF m])
    then show ?thesis using Some by (simp add: field_def)
  qed
  have im: "emits ?A ?P (vals_array (map (encode_import env) (m_imports m))) (AArr (map (import_to_object env) (m_imports m)))"
    by (intro emits_vals_array)
      (auto simp: list.rel_map plain_module_def list_all_iff intro!: list.rel_refl_strong intro: emits_weaken[OF emits_import])
  have wf: "list_all wf_rule (m_rules m)" using assms(1) by (simp add: wf_module_def)
  note r = all_some_rules[OF wf rls]
  have rl: "emits ?A ?P (vals_array rls) (AArr (map (\<lambda>r. the (module_rule_to_object env r)) (m_rules m)))"
    by (rule emits_weaken[OF emits_vals_array[OF conjunct1[OF r]]]) (auto simp: plain_module_def)
  have "map encode_comment (m_comments m) = map (\<lambda>l. put (Lit (AStr (append_location '''' l))) :: 'a writer) (m_comments m)"
    by (simp add: encode_comment_def)
  then have co: "emits ?A ?P (vals_array (map encode_comment (m_comments m))) (AArr (map (\<lambda>l. AStr (append_location '''' l)) (m_comments m)))"
    by (simp only: emits_strings[of ?A ?P "\<lambda>l. AStr (append_location '''' l)"])
  let ?v = "AObj (?pkg @ field_if (m_imports m \<noteq> []) ''imports'' (AArr (map (import_to_object env) (m_imports m)))
        @ field_if (m_rules m \<noteq> []) ''rules'' (AArr (map (\<lambda>r. the (module_rule_to_object env r)) (m_rules m)))
        @ field_if (m_comments m \<noteq> []) ''comments'' (AArr (map (\<lambda>l. AStr (append_location '''' l)) (m_comments m))))"
  have o: "emits ?A ?P w ?v"
    unfolding w write_vals
    by (rule emits_objectI, (rule snocs)+, (rule p member_if members_Nil members_Cons im rl co | assumption)+)
      (simp_all add: object_simps loc_fields_def)
  have "to_value env m = Some ?v" if P: ?P
  proof -
    have "(case m_package m of None \<Rightarrow> Some []
       | Some p \<Rightarrow> map_option (field ''package'') (package_to_value env p ?as)) = Some ?pkg"
    proof (cases "m_package m")
      case (Some p)
      then have "package_plain env ?as" using P by (simp add: plain_module_def)
      then have "package_to_value env p ?as \<noteq> None"
        by (simp add: package_to_value_def package_plain_def annotations_to_object_agrees all_some_map)
      then show ?thesis using Some by auto
    qed simp
    then show ?thesis using conjunct2[OF r] P by (simp add: to_value_def plain_module_def)
  qed
  then show ?thesis using emits_weaken[OF o] by auto
qed

section \<open>The two representations of a module\<close>

text \<open>C25. What the encoders write for a module is JSON: it parses as one value with nothing after it, and no
  object in it has a key twice, whatever commas were written and trimmed on the way.\<close>

theorem marshal_writes_json:
  assumes "wf_module m" and "marshal env m = Some ts"
  shows "\<exists>v. parse_json ts = Some v"
proof -
  obtain w where w: "encode_module env m = Some w" "ts = st_buf (w \<lparr>st_buf = [], st_att = Unattached\<rparr>)"
    using assms(2) by (auto simp: marshal_def)
  from emits_module[OF assms(1) w(1)] obtain us v where "adds {Unattached} w us" "json us v"
    unfolding emits_def by blast
  with w(2) show ?thesis using json_parse by (auto simp: adds_def)
qed


text \<open>A module with an annotated package, an import and the rule \<open>p contains 1 if "a" in {"a", "b"}\<close>.\<close>

definition sample_roast_env :: "bool roast_env" where
  "sample_roast_env = \<lparr>te_name = (\<lambda>v. case v of VNum _ \<Rightarrow> ''number'' | VStr _ \<Rightarrow> ''string'' | VVar _ \<Rightarrow> ''var''
       | VRef _ \<Rightarrow> ''ref'' | VSet _ \<Rightarrow> ''set'' | _ \<Rightarrow> ''other''),
     te_int = (\<lambda>s. if s = ''1'' then Some 1 else None),
     te_rank = (\<lambda>t. case term_value t of VStr s \<Rightarrow> (if s = ''a'' then 0 else 1) | _ \<Rightarrow> 2),
     te_string = (\<lambda>v. ''''), te_interface = (\<lambda>b. Some (ABool b)),
     te_custom = (\<lambda>c. Some (AObj (map (map_prod AStr ABool) c))), te_json_null = AObj [], te_json_any = ABool,
     te_json_related = related_to_object, te_json_author = author_to_object,
     te_json_schema = (\<lambda>s.
       let ref = (\<lambda>r. AArr (map (\<lambda>t. case term_value t of VStr s \<Rightarrow> AStr s | v \<Rightarrow> AStr '''') r)) in
       AObj (field_if (sa_path s \<noteq> []) ''path'' (ref (sa_path s)) @ field_if (sa_schema s \<noteq> []) ''schema'' (ref (sa_schema s))
         @ (case sa_definition s of None \<Rightarrow> [] | Some d \<Rightarrow> field ''definition'' (ABool d))))\<rparr>"

definition sample_loc :: "nat \<Rightarrow> int \<Rightarrow> int \<Rightarrow> string \<Rightarrow> ast_loc option" where
  "sample_loc a row col t = Some (a, \<lparr>loc_text = t, loc_row = row, loc_col = col\<rparr>)"

definition sample_annotations :: "bool annotations" where
  "sample_annotations = \<lparr>an_scope = ''package'', an_title = ''T'', an_description = '''', an_entrypoint = True,
     an_organizations = [], an_related = [(''r'', '''')], an_authors = [], an_schemas = [],
     an_custom = [(''c'', True)], an_loc = None\<rparr>"

definition sample_ast_module :: "bool ast_module" where
  "sample_ast_module =
     (let str = (\<lambda>s. Term (VStr s) None); var = (\<lambda>s. Term (VVar s) None);
          eq = Term (VRef [var ''internal'', str ''member_2'']) (sample_loc 5 3 20 ''in'');
          body = [Expr False False [] (Some (TermList [eq, str ''a'', Term (VSet [str ''a'', str ''b'']) None]))
            (sample_loc 6 3 17 ''x'')] in
      \<lparr>m_package = Some \<lparr>pk_path = Some [var ''data'', str ''p''], pk_loc = sample_loc 1 1 1 ''package''\<rparr>,
       m_imports = [\<lparr>im_path = Some (Term (VRef [var ''data'', str ''q'']) None), im_alias = ''q2'', im_loc = None\<rparr>],
       m_rules = [Rule (sample_loc 2 3 1 ''p contains 1'') [] False
         (Some \<lparr>h_reference = Some [var ''p''], h_args = [], h_assign = False,
            h_key = Some (Term (VNum ''1'') (sample_loc 4 3 12 ''1'')), h_value = None, h_loc = sample_loc 3 3 1 ''p''\<rparr>)
         body None],
       m_comments = [], m_annotations = [sample_annotations]\<rparr>)"

lemma sample_roast_env_string: "te_string sample_roast_env = (\<lambda>v. '''')"
  "te_interface sample_roast_env = (\<lambda>b. Some (ABool b))"
  by (simp_all add: sample_roast_env_def)

lemma sample_json_agrees: "json_agrees sample_roast_env"
  unfolding json_agrees_def schema_to_object_def ref_to_array_def sample_roast_env_string
  by (auto simp: sample_roast_env_def Let_def split: option.split)

lemma sample_is_wf: "wf_module sample_ast_module"
  by code_simp

lemma sample_is_plain: "plain_module sample_roast_env sample_ast_module"
  by (simp add: plain_module_def package_plain_def sample_ast_module_def Let_def sample_json_agrees sample_annotations_def
      package_scope_def import_plain_def head_plain_def all_plain_def is_body_generated_def strip_value_loc_def
      sample_loc_def same_ptr_def)
    (code_simp)

lemma sample_marshal: "\<exists>ts. marshal sample_roast_env sample_ast_module = Some ts"
proof -
  have "marshal sample_roast_env sample_ast_module \<noteq> None" by code_simp
  then show ?thesis by auto
qed

theorem marshal_writes_json_witness:
  "\<exists>ts. marshal sample_roast_env sample_ast_module = Some ts \<and> (\<exists>v. parse_json ts = Some v)"
  using sample_marshal marshal_writes_json[OF sample_is_wf] by blast


text \<open>A module whose only annotations belong to a rule: its package has \<open>null\<close> annotations in the JSON, and none
  in the value.\<close>

definition member_of :: "string \<Rightarrow> aval option \<Rightarrow> aval option" where
  "member_of k v = (case v of Some (AObj kvs) \<Rightarrow> map_of kvs (AStr k) | _ \<Rightarrow> None)"

lemma rule_annotations_null:
  "let m = sample_ast_module\<lparr>m_annotations := [sample_annotations\<lparr>an_scope := ''rule''\<rparr>]\<rparr> in
   member_of ''annotations'' (member_of ''package'' (Option.bind (marshal sample_roast_env m) parse_json)) = Some ANull
   \<and> member_of ''annotations'' (member_of ''package'' (to_value sample_roast_env m)) = None"
  by code_simp

end
