(* ===== verification/Value_Json.thy ===== *)
theory Value_Json
  imports Roast_Json Config_Object
begin

text \<open>
  \<open>pkg/roast/encoding/json.go\<close>: values to JSON and back, without a syntax tree in between. The stream and the
  iterator of the JSON library are the tokens of \<open>Roast_Json\<close>. What belongs to OPA is a
  field of \<open>value_env\<close>: the interned integers, whether a kind of value can append itself as text
  (\<open>encoding.TextAppender\<close>) and the text, \<open>Value.String\<close>, and the way of a float to a number. An error of the
  iterator is \<^term>\<open>None\<close>, as is the panic of the encoder on values that are not JSON.
\<close>

record value_env =
  ve_interned :: "string \<Rightarrow> aval option"
  ve_append_text :: "aval \<Rightarrow> string option"
  ve_string :: "aval \<Rightarrow> string"
  ve_float :: "string \<Rightarrow> aval"

section \<open>Encoding\<close>

text \<open>The loops of \<open>toJSON\<close>: a comma after each element but the last of \<open>l\<close>.\<close>

fun with_more :: "nat \<Rightarrow> nat \<Rightarrow> token list list \<Rightarrow> token list" where
  "with_more l i [] = []"
| "with_more l i (ts # tss) = ts @ (if int i \<noteq> int l - 1 then [Comma] else []) @ with_more l (Suc i) tss"

definition key_tokens :: "value_env \<Rightarrow> aval \<Rightarrow> token list" where
  "key_tokens env k = (case k of AStr s \<Rightarrow> [Key s]
     | k \<Rightarrow> (case ve_append_text env k of Some s \<Rightarrow> [Raw s] | None \<Rightarrow> [Key (ve_string env k)]))"

primrec to_json :: "value_env \<Rightarrow> aval \<Rightarrow> token list option" where
  "to_json env ANull = Some [Lit ANull]"
| "to_json env (ABool b) = Some [Lit (ABool b)]"
| "to_json env (ANum s) = Some [Lit (ANum s)]"
| "to_json env (AStr s) = Some [Lit (AStr s)]"
| "to_json env (AVar s) = None"
| "to_json env (AArr vs) = map_option (\<lambda>tss. ArrStart # with_more (length vs) 0 tss @ [ArrEnd])
     (all_some (map (to_json env) vs))"
| "to_json env (ASet vs) = map_option (\<lambda>tss. ArrStart # with_more (length vs) 0 tss @ [ArrEnd])
     (all_some (map (to_json env) vs))"
| "to_json env (AObj kvs) = map_option (\<lambda>tss. ObjStart # with_more (length kvs) 0 tss @ [ObjEnd])
     (all_some (map (\<lambda>(k, ts). map_option (\<lambda>ts. key_tokens env k @ ts) ts) (map (map_prod id (to_json env)) kvs)))"
| "to_json env (ARef vs) = None"

section \<open>Decoding\<close>

text \<open>What \<open>toValue\<close> makes of a literal; of the other tokens it makes arrays and, with a later member of
  the same key taking the place of an earlier one, objects.\<close>

definition read_literal :: "value_env \<Rightarrow> bool \<Rightarrow> aval \<Rightarrow> aval" where
  "read_literal env useNumber v =
     (case v of ANum s \<Rightarrow> if useNumber then (case ve_interned env s of Some v \<Rightarrow> v | None \<Rightarrow> ANum s) else ve_float env s
      | v \<Rightarrow> v)"

definition read_object :: "(string \<times> aval) list \<Rightarrow> aval option" where
  "read_object kvs = Some (AObj (items_object kvs))"

definition of_json :: "value_env \<Rightarrow> bool \<Rightarrow> token list \<Rightarrow> (aval \<times> token list) option" where
  "of_json env useNumber ts = parse_value (read_literal env useNumber) read_object (length ts) ts"

text \<open>\<open>Decode\<close> does not look at what comes after the value.\<close>

definition decode :: "value_env \<Rightarrow> bool \<Rightarrow> token list \<Rightarrow> aval option" where
  "decode env useNumber ts = map_option fst (of_json env useNumber ts)"

text \<open>Two configurations, the fast one first.\<close>

definition json_unmarshal_to :: "(string \<Rightarrow> 'e + 'a) \<Rightarrow> (string \<Rightarrow> 'e + 'a) \<Rightarrow> string \<Rightarrow> 'e + 'a" where
  "json_unmarshal_to fast safe bs = (case fast bs of Inr v \<Rightarrow> Inr v | Inl _ \<Rightarrow> safe bs)"

definition json_round_trip :: "('a \<Rightarrow> 'e + string) \<Rightarrow> (string \<Rightarrow> 'e + 'b) \<Rightarrow> (string \<Rightarrow> 'e + 'b) \<Rightarrow> 'a \<Rightarrow> 'e + 'b" where
  "json_round_trip enc fast safe v = (case enc v of Inl e \<Rightarrow> Inl e | Inr bs \<Rightarrow> json_unmarshal_to fast safe bs)"

section \<open>Round trips\<close>

text \<open>A JSON value whose objects have different strings as keys.\<close>

primrec json_valued :: "aval \<Rightarrow> bool" where
  "json_valued ANull = True"
| "json_valued (ABool b) = True"
| "json_valued (ANum s) = True"
| "json_valued (AStr s) = True"
| "json_valued (AVar s) = False"
| "json_valued (AArr vs) = list_all (\<lambda>b. b) (map json_valued vs)"
| "json_valued (ASet vs) = list_all (\<lambda>b. b) (map json_valued vs)"
| "json_valued (AObj kvs) = (list_all (\<lambda>(k, b). b) (map (map_prod id json_valued) kvs)
     \<and> distinct (map fst kvs) \<and> list_all (\<lambda>k. \<exists>s. k = AStr s) (map fst kvs))"
| "json_valued (ARef vs) = False"

text \<open>Sets come back as arrays.\<close>

primrec without_sets :: "aval \<Rightarrow> aval" where
  "without_sets ANull = ANull"
| "without_sets (ABool b) = ABool b"
| "without_sets (ANum s) = ANum s"
| "without_sets (AStr s) = AStr s"
| "without_sets (AVar s) = AVar s"
| "without_sets (AArr vs) = AArr (map without_sets vs)"
| "without_sets (ASet vs) = AArr (map without_sets vs)"
| "without_sets (AObj kvs) = AObj (map (map_prod id without_sets) kvs)"
| "without_sets (ARef vs) = ARef vs"

definition interns_itself :: "value_env \<Rightarrow> bool" where
  "interns_itself env \<longleftrightarrow> (\<forall>s v. ve_interned env s = Some v \<longrightarrow> v = ANum s)"

lemma with_more_separated: "i + length tss = l \<Longrightarrow> with_more l i tss = separated tss"
  by (induction tss arbitrary: i) (auto simp: separated_Cons)

lemma update_new: "k \<notin> fst ` set m \<Longrightarrow> AList.update k v m = m @ [(k, v)]"
  by (induction m) auto

lemma items_object_distinct:
  assumes "distinct (map fst kvs)"
  shows "items_object kvs = map (map_prod AStr id) kvs"
  using assms
proof (induction kvs rule: rev_induct)
  case (snoc kv kvs)
  have "items_object kvs = map (map_prod AStr id) kvs" by (rule snoc.IH) (use snoc.prems in simp)
  moreover have "AStr (fst kv) \<notin> fst ` set (map (map_prod AStr id) kvs)" using snoc.prems by (auto simp: map_prod_def split_def image_iff)
  moreover have "items_object (kvs @ [kv]) = AList.update (AStr (fst kv)) (snd kv) (items_object kvs)"
    by (simp add: items_object_def obj_insert_def split_def)
  ultimately have "items_object (kvs @ [kv]) = map (map_prod AStr id) kvs @ [(AStr (fst kv), snd kv)]"
    by (simp only: update_new not_False_eq_True)
  also have "\<dots> = map (map_prod AStr id) (kvs @ [kv])" by (cases kv) simp
  finally show ?case .
qed (simp add: items_object_def)

lemma all_some_list: "(\<And>x. x \<in> set xs \<Longrightarrow> \<exists>y. f x = Some y \<and> R x y) \<Longrightarrow>
    \<exists>ys. all_some (map f xs) = Some ys \<and> list_all2 R xs ys"
  by (induction xs) (fastforce simp: list_all2_Cons1)+

lemma lit_same: "read_literal env n v = v \<Longrightarrow> json_of (read_literal env n) mk [Lit v] v"
  using lit_of[of "read_literal env n" mk v] by simp

lemma to_json_json:
  assumes "interns_itself env" and "json_valued v"
  shows "\<exists>ts. to_json env v = Some ts \<and> json_of (read_literal env True) read_object ts (without_sets v)"
  using assms(2)
proof (induction v)
  case (ANum s)
  have "read_literal env True (ANum s) = ANum s"
    using assms(1) by (auto simp: read_literal_def interns_itself_def split: option.split)
  then show ?case using lit_of[of "read_literal env True" read_object "ANum s"] by simp
next
  case (AArr vs)
  have "\<exists>tss. all_some (map (to_json env) vs) = Some tss \<and>
      list_all2 (\<lambda>v ts. json_of (read_literal env True) read_object ts (without_sets v)) vs tss"
    using AArr by (intro all_some_list) (auto simp: list_all_iff)
  then obtain tss where t: "all_some (map (to_json env) vs) = Some tss"
    "list_all2 (json_of (read_literal env True) read_object) tss (map without_sets vs)"
    by (auto simp: list.rel_map list_all2_conv_all_nth)
  then have "length tss = length vs" by (auto dest: list_all2_lengthD)
  with arr_of[OF t(2)] t(1) show ?case by (simp add: with_more_separated)
next
  case (ASet vs)
  have "\<exists>tss. all_some (map (to_json env) vs) = Some tss \<and>
      list_all2 (\<lambda>v ts. json_of (read_literal env True) read_object ts (without_sets v)) vs tss"
    using ASet by (intro all_some_list) (auto simp: list_all_iff)
  then obtain tss where t: "all_some (map (to_json env) vs) = Some tss"
    "list_all2 (json_of (read_literal env True) read_object) tss (map without_sets vs)"
    by (auto simp: list.rel_map list_all2_conv_all_nth)
  then have "length tss = length vs" by (auto dest: list_all2_lengthD)
  with arr_of[OF t(2)] t(1) show ?case by (simp add: with_more_separated)
next
  case (AObj kvs)
  let ?J = "json_of (read_literal env True) read_object"
  let ?f = "\<lambda>kv. map_option (\<lambda>ts. key_tokens env (fst kv) @ ts) (to_json env (snd kv))"
  let ?R = "\<lambda>kv m. \<exists>k ts. m = Key k # ts \<and> fst kv = AStr k \<and> ?J ts (without_sets (snd kv))"
  have "\<exists>tss. all_some (map ?f kvs) = Some tss \<and> list_all2 ?R kvs tss"
  proof (rule all_some_list)
    fix kv assume kv: "kv \<in> set kvs"
    then obtain k where k: "fst kv = AStr k" using AObj.prems by (auto simp: list_all_iff)
    have "json_valued (snd kv)" using AObj.prems kv by (cases kv) (fastforce simp: list_all_iff)
    moreover have "snd kv \<in> Basic_BNFs.snds kv" by (cases kv) auto
    ultimately obtain ts where "to_json env (snd kv) = Some ts" "?J ts (without_sets (snd kv))"
      using AObj.IH(2)[OF kv] by auto
    then show "\<exists>m. ?f kv = Some m \<and> ?R kv m" using k by (simp add: key_tokens_def)
  qed
  then obtain tss where t: "all_some (map ?f kvs) = Some tss" "list_all2 ?R kvs tss" by blast
  define ms where "ms = map (\<lambda>m. case m of Key k # ts \<Rightarrow> (k, ts) | _ \<Rightarrow> ('''', [])) tss"
  define ws where "ws = map (\<lambda>kv. (case fst kv of AStr k \<Rightarrow> k | _ \<Rightarrow> '''', without_sets (snd kv))) kvs"
  have len: "length tss = length kvs" using t(2) by (auto dest: list_all2_lengthD)
  have ms: "map member_start ms = tss" unfolding ms_def
    using t(2) by (intro nth_equalityI) (auto simp: list_all2_conv_all_nth)
  have "list_all2 (\<lambda>m kv. fst m = fst kv \<and> ?J (snd m) (snd kv)) ms ws"
    using t(2) unfolding ms_def ws_def by (fastforce simp: list_all2_conv_all_nth)
  moreover have ws: "map (map_prod AStr id) ws = map (map_prod id without_sets) kvs"
    using AObj.prems unfolding ws_def by (auto simp: list_all_iff map_prod_def split_def)
  have "map fst kvs = map AStr (map fst ws)"
    using AObj.prems unfolding ws_def by (auto simp: list_all_iff)
  then have "distinct (map fst ws)" using AObj.prems by (metis distinct_map json_valued.simps(8))
  then have "read_object ws = Some (AObj (map (map_prod id without_sets) kvs))"
    by (simp add: read_object_def items_object_distinct ws)
  ultimately have "?J (ObjStart # separated (map member_start ms) @ [ObjEnd]) (AObj (map (map_prod id without_sets) kvs))"
    by (rule obj_of)
  then have j: "?J (ObjStart # separated tss @ [ObjEnd]) (without_sets (AObj kvs))" by (simp add: ms)
  have m: "map (\<lambda>(k, ts). map_option (\<lambda>ts. key_tokens env k @ ts) ts) (map (map_prod id (to_json env)) kvs) = map ?f kvs"
    by (simp add: split_def)
  have "to_json env (AObj kvs) = Some (ObjStart # separated tss @ [ObjEnd])"
    unfolding to_json.simps m t(1) by (simp add: with_more_separated len)
  with j show ?case by blast
next
  case ANull
  show ?case by (simp, rule lit_same) (simp add: read_literal_def)
next
  case (ABool b)
  show ?case by (simp, rule lit_same) (simp add: read_literal_def)
next
  case (AStr s)
  show ?case by (simp, rule lit_same) (simp add: read_literal_def)
qed auto

text \<open>C27. Decoding what was encoded gives the value back, its sets as arrays, for all values of JSON with strings as
  keys; whatever follows in the text is not looked at.\<close>

theorem decode_encode:
  assumes "interns_itself env" and "json_valued v"
  shows "\<exists>ts. to_json env v = Some ts \<and> (\<forall>rest. decode env True (ts @ rest) = Some (without_sets v))"
proof -
  obtain ts where ts: "to_json env v = Some ts" "json_of (read_literal env True) read_object ts (without_sets v)"
    using to_json_json[OF assms] by blast
  then have "decode env True (ts @ rest) = Some (without_sets v)" for rest
    using parse_value_reads[OF json_reads[OF ts(2)], of "length (ts @ rest)" rest]
    by (simp add: decode_def of_json_def)
  with ts(1) show ?thesis by blast
qed

definition sample_value_env :: value_env where
  "sample_value_env = \<lparr>ve_interned = (\<lambda>s. if s = ''1'' then Some (ANum ''1'') else None),
     ve_append_text = (\<lambda>v. case v of ANum s \<Rightarrow> Some s | _ \<Rightarrow> None), ve_string = (\<lambda>v. ''x''), ve_float = ANum\<rparr>"

theorem decode_encode_witness:
  "\<exists>ts. to_json sample_value_env (AObj [(AStr ''a'', AArr [ANum ''1'', ASet [ANull]]), (AStr ''b'', AObj [])]) = Some ts
     \<and> (\<forall>rest. decode sample_value_env True (ts @ rest)
         = Some (AObj [(AStr ''a'', AArr [ANum ''1'', AArr [ANull]]), (AStr ''b'', AObj [])]))"
proof -
  have "interns_itself sample_value_env" by (simp add: interns_itself_def sample_value_env_def)
  from decode_encode[OF this, of "AObj [(AStr ''a'', AArr [ANum ''1'', ASet [ANull]]), (AStr ''b'', AObj [])]"]
  show ?thesis by simp
qed

text \<open>A key that is a number is appended to the buffer as it is, without quotes and without the colon
  that \<open>WriteObjectField\<close> writes: an object with such a key is not encoded as JSON.\<close>

theorem number_keys_not_json:
  assumes "ve_append_text env (ANum n) = Some s" and "to_json env (AObj ((ANum n, v) # kvs)) = Some ts"
  shows "decode env useNumber ts = None"
proof -
  obtain us where "ts = ObjStart # Raw s # us"
    using assms by (auto simp: bind_eq_Some_conv key_tokens_def)
  then show ?thesis by (simp add: decode_def of_json_def)
qed

theorem number_keys_not_json_witness:
  "decode sample_value_env True (the (to_json sample_value_env (AObj [(ANum ''1'', ANum ''2'')]))) = None"
  by (rule number_keys_not_json[where n = "''1''" and s = "''1''" and v = "ANum ''2''" and kvs = "[]"]) (simp_all add: sample_value_env_def)

end
