(* ===== verification/Semantic_Tokens.thy ===== *)
theory Semantic_Tokens
  imports Go_Prelude "HOL-Library.Word" "HOL-Library.Multiset"
begin

text \<open>
  \<open>internal/lsp/semantictokens/semantictokens.go\<close>: the tokens that a query found, sorted by position and
  written as differences of 32-bit numbers. \<open>slices.SortFunc\<close> is not stable, so it is a parameter that
  returns some sorted arrangement of the tokens.
\<close>

record semantic_token =
  tk_line :: "32 word"
  tk_col :: "32 word"
  tk_length :: "32 word"
  tk_type :: "32 word"
  tk_modifiers :: "32 word"

record semantic_tokens_result =
  sr_packages :: "semantic_token list"
  sr_imports :: "semantic_token list"
  sr_vars :: "semantic_token list"

text \<open>The comparison: differences of \<open>int\<close>, which has 64 bits, so nothing wraps.\<close>

definition compare_tokens :: "semantic_token \<Rightarrow> semantic_token \<Rightarrow> int" where
  "compare_tokens a b =
     (if tk_line a \<noteq> tk_line b then int (unat (tk_line a)) - int (unat (tk_line b))
      else int (unat (tk_col a)) - int (unat (tk_col b)))"

text \<open>The loop over the sorted tokens; the differences wrap around.\<close>

fun encode_tokens :: "32 word \<Rightarrow> 32 word \<Rightarrow> semantic_token list \<Rightarrow> 32 word list" where
  "encode_tokens prevLine prevCol [] = []"
| "encode_tokens prevLine prevCol (tok # toks) =
     (let deltaLine = tk_line tok - prevLine;
          deltaCol = (if deltaLine = 0 then tk_col tok - prevCol else tk_col tok) in
      deltaLine # deltaCol # tk_length tok # tk_type tok # tk_modifiers tok
        # encode_tokens (tk_line tok) (tk_col tok) toks)"

definition full_tokens :: "(semantic_token list \<Rightarrow> semantic_token list) \<Rightarrow> semantic_tokens_result \<Rightarrow> 32 word list" where
  "full_tokens sort_tokens result =
     (let tokens = sr_packages result @ sr_vars result @ sr_imports result in
      if tokens = [] then [] else encode_tokens 0 0 (sort_tokens tokens))"

text \<open>\<open>ResultHandler\<close>: nothing, a raw message, or something else.\<close>

datatype 'v handler_input = NoResult | RawMessage string | OtherResult 'v

definition semantic_result_handler ::
  "(string \<Rightarrow> 'e + semantic_tokens_result) \<Rightarrow> (32 word list \<Rightarrow> 'e + string) \<Rightarrow> ('v \<Rightarrow> 'e)
   \<Rightarrow> (semantic_token list \<Rightarrow> semantic_token list) \<Rightarrow> 'v handler_input \<Rightarrow> 'e + string option" where
  "semantic_result_handler unmarshal marshal unexpected sort_tokens result =
     (case result of
        NoResult \<Rightarrow> Inr None
      | RawMessage raw \<Rightarrow>
          (case unmarshal raw of
             Inl e \<Rightarrow> Inl e
           | Inr res \<Rightarrow> map_sum id Some (marshal (full_tokens sort_tokens res)))
      | OtherResult v \<Rightarrow> Inl (unexpected v))"

section \<open>What a client reads\<close>

text \<open>The protocol: each token is placed relative to the one before it.\<close>

fun decode_tokens :: "32 word \<Rightarrow> 32 word \<Rightarrow> 32 word list \<Rightarrow> semantic_token list" where
  "decode_tokens line col (dl # dc # len # typ # mods # data) =
     (let line' = line + dl; col' = (if dl = 0 then col + dc else dc) in
      \<lparr>tk_line = line', tk_col = col', tk_length = len, tk_type = typ, tk_modifiers = mods\<rparr>
        # decode_tokens line' col' data)"
| "decode_tokens line col data = []"

text \<open>A sorting function as Go's: sorted for the comparison, and a permutation.\<close>

definition sorts_tokens :: "(semantic_token list \<Rightarrow> semantic_token list) \<Rightarrow> bool" where
  "sorts_tokens f \<longleftrightarrow> (\<forall>ts. mset (f ts) = mset ts \<and> sorted_wrt (\<lambda>a b. compare_tokens a b \<le> 0) (f ts))"

definition before_token :: "semantic_token \<Rightarrow> semantic_token \<Rightarrow> bool" where
  "before_token a b \<longleftrightarrow> tk_line a < tk_line b \<or> tk_line a = tk_line b \<and> tk_col a \<le> tk_col b"

lemma int_diff_sign: "(int m - int n \<le> 0) = (m \<le> n)"
  by linarith

lemma compare_before: "compare_tokens a b \<le> 0 \<longleftrightarrow> before_token a b"
proof (cases "tk_line a = tk_line b")
  case True
  then show ?thesis
    unfolding compare_tokens_def before_token_def word_le_nat_alt
    by (simp only: int_diff_sign simp_thms less_irrefl not_True_eq_False if_False)
next
  case False
  then have "unat (tk_line a) \<noteq> unat (tk_line b)" unfolding word_unat_eq_iff .
  then have "unat (tk_line a) \<le> unat (tk_line b) \<longleftrightarrow> unat (tk_line a) < unat (tk_line b)" by linarith
  with False show ?thesis
    unfolding compare_tokens_def before_token_def word_less_nat_alt
    by (simp only: int_diff_sign if_True not_False_eq_True simp_thms)
qed

lemma decode_encode_tokens: "decode_tokens line col (encode_tokens line col toks) = toks"
  by (induction toks arbitrary: line col) (auto simp: Let_def)

lemma encode_tokens_length: "length (encode_tokens line col toks) = 5 * length toks"
  by (induction toks arbitrary: line col) (auto simp: Let_def)

text \<open>A difference never wraps when the tokens are sorted: what is written is the distance.\<close>

fun deltas_in_range :: "32 word \<Rightarrow> 32 word \<Rightarrow> semantic_token list \<Rightarrow> bool" where
  "deltas_in_range line col [] = True"
| "deltas_in_range line col (t # ts) \<longleftrightarrow>
     unat (tk_line t - line) = unat (tk_line t) - unat line \<and> line \<le> tk_line t
     \<and> (tk_line t = line \<longrightarrow> unat (tk_col t - col) = unat (tk_col t) - unat col \<and> col \<le> tk_col t)
     \<and> deltas_in_range (tk_line t) (tk_col t) ts"

lemma sorted_deltas:
  "sorted_wrt before_token ts \<Longrightarrow> (ts \<noteq> [] \<longrightarrow> line < tk_line (hd ts) \<or> line = tk_line (hd ts) \<and> col \<le> tk_col (hd ts))
   \<Longrightarrow> deltas_in_range line col ts"
proof (induction ts arbitrary: line col)
  case (Cons t ts)
  have "line \<le> tk_line t" "tk_line t = line \<longrightarrow> col \<le> tk_col t" using Cons.prems(2) by auto
  moreover have "deltas_in_range (tk_line t) (tk_col t) ts"
    using Cons.prems(1) by (intro Cons.IH) (auto simp: before_token_def)
  ultimately show ?case by (simp add: unat_sub)
qed simp

text \<open>C28. What the editor reads from the data of \<open>Full\<close> is the tokens of the query, each once, in the order of their
  positions; with five numbers for each, and no difference that wraps around below zero.\<close>

theorem full_tokens_decode:
  assumes "sorts_tokens f"
  shows "let toks = sr_packages r @ sr_vars r @ sr_imports r; data = full_tokens f r; got = decode_tokens 0 0 data in
    mset got = mset toks \<and> sorted_wrt before_token got \<and> length data = 5 * length toks \<and> deltas_in_range 0 0 got"
proof -
  let ?t = "sr_packages r @ sr_vars r @ sr_imports r"
  have f: "mset (f ?t) = mset ?t" "sorted_wrt before_token (f ?t)"
    using assms by (auto simp: sorts_tokens_def compare_before)
  have e: "full_tokens f r = encode_tokens 0 0 (f ?t)"
    using f(1) by (auto simp: full_tokens_def Let_def)
  have "length (f ?t) = length ?t" using f(1) by (metis size_mset)
  moreover have "deltas_in_range 0 0 (f ?t)"
    using f(2) by (rule sorted_deltas) (auto simp: word_gt_0)
  ultimately show ?thesis
    using f by (simp add: Let_def e decode_encode_tokens encode_tokens_length)
qed

definition position_key :: "semantic_token \<Rightarrow> nat" where
  "position_key t = unat (tk_line t) * 2 ^ 32 + unat (tk_col t)"

lemma lex_as_number:
  fixes l m :: nat
  assumes "c < N" "d < N"
  shows "l < m \<or> l = m \<and> c \<le> d \<longleftrightarrow> l * N + c \<le> m * N + d"
proof -
  have step: "x * N + c' < y * N + d'" if "x < y" "c' < N" for x y c' d'
    using mult_le_mono1[OF Suc_leI[OF \<open>x < y\<close>], of N] that(2) by simp
  show ?thesis
  proof (cases l m rule: linorder_cases)
    case less
    with step[OF less \<open>c < N\<close>, of d] show ?thesis by simp
  next
    case greater
    with step[OF greater \<open>d < N\<close>, of c] show ?thesis by simp
  qed simp
qed

lemma position_key_before: "before_token a b \<longleftrightarrow> position_key a \<le> position_key b"
proof -
  have b: "unat (tk_col t) < 2 ^ 32" for t using unsigned_less[of "tk_col t"] by simp
  show ?thesis
    unfolding before_token_def position_key_def word_less_nat_alt word_le_nat_alt word_unat_eq_iff
    by (rule lex_as_number[OF b b])
qed

lemma sort_key_sorts: "sorts_tokens (sort_key position_key)"
proof -
  have "sorted_wrt before_token (sort_key position_key ts)" for ts
    using sorted_sort_key[of position_key ts] by (simp add: sorted_map position_key_before[abs_def])
  then show ?thesis by (simp add: sorts_tokens_def compare_before)
qed

definition sample_tokens :: semantic_tokens_result where
  "sample_tokens = \<lparr>sr_packages = [\<lparr>tk_line = 0, tk_col = 8, tk_length = 3, tk_type = 0, tk_modifiers = 0\<rparr>],
     sr_imports = [\<lparr>tk_line = 2, tk_col = 7, tk_length = 4, tk_type = 2, tk_modifiers = 0\<rparr>],
     sr_vars = [\<lparr>tk_line = 4, tk_col = 9, tk_length = 1, tk_type = 1, tk_modifiers = 0\<rparr>,
       \<lparr>tk_line = 4, tk_col = 2, tk_length = 1, tk_type = 1, tk_modifiers = 1\<rparr>]\<rparr>"

theorem full_tokens_decode_witness:
  "let toks = sr_packages sample_tokens @ sr_vars sample_tokens @ sr_imports sample_tokens;
       data = full_tokens (sort_key position_key) sample_tokens; got = decode_tokens 0 0 data in
    mset got = mset toks \<and> sorted_wrt before_token got \<and> length data = 5 * length toks \<and> deltas_in_range 0 0 got"
  by (rule full_tokens_decode[OF sort_key_sorts])

end
