(* ===== verification/Query_Cache.thy ===== *)
theory Query_Cache
  imports Kv_Store Rast Uri
begin

text \<open>
  \<open>internal/lsp/rego/query/query.go\<close>: queries that are prepared once and kept. A query that the language server
  prepares against its store does so in a transaction of the store, which the code opens and has to end.

  OPA is a record of functions: the parser, the preparation of a query for evaluation, and the store. What the
  store does is a history of events, and what it answers is a function of that history: the transaction that
  \<open>NewTransaction\<close> opens (the code ignores its error and goes on without one) and the error of \<open>Commit\<close>.
  As OPA documents it, a commit that fails ends the transaction as well. A panic is \<^term>\<open>None\<close>.
\<close>

datatype txn_event =
    Opened nat
  | Committed nat
  | Aborted "nat option"

type_synonym history = "txn_event list"

text \<open>What a query is prepared with: the body, the bundle, and the store with its transaction, if there is a
  store; without one, the evaluator's own store is told to return AST values.\<close>

datatype 's query_data =
    StoreReadAST
  | WithStore 's "nat option"

record ('y, 'd, 's) query_args =
  qa_body :: 'y
  qa_bundle :: 'd
  qa_data :: "'s query_data"

record ('y, 'd, 's, 'p) query_env =
  qe_parse :: "string \<Rightarrow> 'y option"
  qe_body :: "aval list \<Rightarrow> 'y"
  qe_prepare :: "('y, 'd, 's) query_args \<Rightarrow> string + 'p"
  qe_new_transaction :: "history \<Rightarrow> nat option"
  qe_commit :: "history \<Rightarrow> nat \<Rightarrow> string option"
  qe_dev :: bool
  qe_loaded :: 'd
  qe_embedded :: 'd

record ('y, 's, 'p) prepared =
  pr_body :: 'y
  pr_prepared :: 'p
  pr_store :: "'s option"

type_synonym ('y, 's, 'p) query_cache = "(string, ('y, 's, 'p) prepared) gomap"

definition rule_head_locations :: string where "rule_head_locations = ''data.regal.ast.rule_head_locations''"
definition main_eval :: string where "main_eval = ''data.regal.lsp.main.eval''"
definition test_locations :: string where "test_locations = ''data.regal.lsp.testlocations.result''"

section \<open>Preparing a query\<close>

text \<open>\<open>simpleRefPattern\<close>, \<open>^[a-zA-Z.]$\<close>, which has no repetition.\<close>

definition simple_ref_match :: "string \<Rightarrow> bool" where
  "simple_ref_match q = (case q of [c] \<Rightarrow>
     is_letter c \<or> c = CHR ''.'' | _ \<Rightarrow> False)"

definition parse_query :: "('y, 'd, 's, 'p) query_env \<Rightarrow> string \<Rightarrow> 'y option" where
  "parse_query env q =
     (if simple_ref_match q then Some (qe_body env (ref_string_to_body q)) else qe_parse env q)"

definition prepare_query_args :: "('y, 'd, 's, 'p) query_env \<Rightarrow> 'y \<Rightarrow> 's option \<Rightarrow> 'd \<Rightarrow> history
    \<Rightarrow> history \<times> ('y, 'd, 's) query_args \<times> nat option" where
  "prepare_query_args env q store rb h =
     (case store of
        None \<Rightarrow> (h, \<lparr>qa_body = q, qa_bundle = rb, qa_data = StoreReadAST\<rparr>, None)
      | Some st \<Rightarrow>
          let txn = qe_new_transaction env h in
          (case txn of None \<Rightarrow> h | Some t \<Rightarrow> h @ [Opened t],
           \<lparr>qa_body = q, qa_bundle = rb, qa_data = WithStore st txn\<rparr>, txn))"

definition end_abort :: "'s option \<Rightarrow> nat option \<Rightarrow> history \<Rightarrow> history" where
  "end_abort store txn h = (if store \<noteq> None then h @ [Aborted txn] else h)"

definition end_commit :: "('y, 'd, 's, 'p) query_env \<Rightarrow> 's option \<Rightarrow> nat option \<Rightarrow> 'p \<Rightarrow> history
    \<Rightarrow> history \<times> (string + 'p)" where
  "end_commit env store txn pq h =
     (case (store, txn) of
        (Some st, Some t) \<Rightarrow> (h @ [Committed t], case qe_commit env h t of Some e \<Rightarrow> Inl e | None \<Rightarrow> Inr pq)
      | _ \<Rightarrow> (h, Inr pq))"

definition prepare_query :: "('y, 'd, 's, 'p) query_env \<Rightarrow> 'y \<Rightarrow> 's option \<Rightarrow> history
    \<Rightarrow> history \<times> (string + 'p)" where
  "prepare_query env q store h =
     (case prepare_query_args env q store (qe_loaded env) h of (h, args, txn) \<Rightarrow>
        (case qe_prepare env args of
           Inr pq \<Rightarrow> end_commit env store txn pq h
         | Inl e \<Rightarrow>
             let h = end_abort store txn h in
             if qe_dev env then
               (case prepare_query_args env q store (qe_embedded env) h of (h, args, txn) \<Rightarrow>
                  (case qe_prepare env args of
                     Inr pq \<Rightarrow> end_commit env store txn pq h
                   | Inl e \<Rightarrow> (end_abort store txn h, Inl e)))
             else (h, Inl e)))"

section \<open>The cache\<close>

definition cache_store :: "('y, 'd, 's, 'p) query_env \<Rightarrow> string \<Rightarrow> 's option
    \<Rightarrow> history \<times> ('y, 's, 'p) query_cache \<Rightarrow> ((history \<times> ('y, 's, 'p) query_cache) \<times> string option) option" where
  "cache_store env q store w =
     (case parse_query env q of
        None \<Rightarrow> None
      | Some body \<Rightarrow>
          (case prepare_query env body store (fst w) of
             (h, Inl e) \<Rightarrow> Some ((h, snd w), Some e)
           | (h, Inr pq) \<Rightarrow>
               Some ((h, cm_set (snd w) q \<lparr>pr_body = body, pr_prepared = pq, pr_store = store\<rparr>), None)))"

definition cache_get :: "('y, 's, 'p) query_cache \<Rightarrow> string \<Rightarrow> ('y, 's, 'p) prepared option" where
  "cache_get c q = cm_get c q"

text \<open>In development mode the entry is prepared again, and written to in place: whoever has got it earlier sees
  the new preparation as well.\<close>

definition cache_get_or_set :: "('y, 'd, 's, 'p) query_env \<Rightarrow> 's option \<Rightarrow> string
    \<Rightarrow> history \<times> ('y, 's, 'p) query_cache
    \<Rightarrow> ((history \<times> ('y, 's, 'p) query_cache) \<times> (string + ('y, 's, 'p) prepared)) option" where
  "cache_get_or_set env store q w =
     (case cm_get (snd w) q of
        None \<Rightarrow>
          (case parse_query env q of
             None \<Rightarrow> None
           | Some body \<Rightarrow>
               (case prepare_query env body store (fst w) of
                  (h, Inl e) \<Rightarrow> Some ((h, snd w), Inl e)
                | (h, Inr pq) \<Rightarrow>
                    let cq = \<lparr>pr_body = body, pr_prepared = pq, pr_store = store\<rparr> in
                    Some ((h, cm_set (snd w) q cq), Inr cq)))
      | Some cq \<Rightarrow>
          if qe_dev env then
            (case prepare_query env (pr_body cq) (pr_store cq) (fst w) of
               (h, Inl e) \<Rightarrow> Some ((h, snd w), Inl e)
             | (h, Inr pq) \<Rightarrow>
                 let cq = cq\<lparr>pr_prepared := pq\<rparr> in Some ((h, cm_set (snd w) q cq), Inr cq))
          else Some (w, Inr cq))"

text \<open>\<open>schemaResolvers\<close>: one resolver for each schema that the annotations of the bundle name. A reference is
  given by its terms; its text is OPA's.\<close>

fun add_resolvers :: "(aval list \<Rightarrow> string) \<Rightarrow> (aval list \<Rightarrow> aval) \<Rightarrow> aval list list
    \<Rightarrow> string gset \<times> (aval list \<times> aval) list \<Rightarrow> string gset \<times> (aval list \<times> aval) list" where
  "add_resolvers str get [] acc = acc"
| "add_resolvers str get (s # ss) (added, resolvers) =
     (if s = [] \<or> set_contains added [str s] then add_resolvers str get ss (added, resolvers)
      else add_resolvers str get ss (set_add added [str s], resolvers @ [(AVar ''data'' # s, get s)]))"

definition schema_resolvers :: "(aval list \<Rightarrow> string) \<Rightarrow> (aval list \<Rightarrow> aval) \<Rightarrow> aval list list list list
    \<Rightarrow> (aval list \<times> aval) list" where
  "schema_resolvers str get modules = snd (add_resolvers str get (concat (concat modules)) (new_set [], []))"

section \<open>Transactions are ended, and entries are what they say\<close>

text \<open>A run of the server: the cache starts empty, is asked and told to store, and in development mode the bundle
  on disk changes.\<close>

inductive query_run :: "('y, 'd, 's, 'p) query_env \<Rightarrow> history \<times> ('y, 's, 'p) query_cache \<Rightarrow> bool" where
  run_start: "query_run env ([], [])"
| run_store: "query_run env w \<Longrightarrow> cache_store env q store w = Some (w', r) \<Longrightarrow> query_run env w'"
| run_get: "query_run env w \<Longrightarrow> cache_get_or_set env store q w = Some (w', res) \<Longrightarrow> query_run env w'"
| run_bundle: "query_run env w \<Longrightarrow> query_run (env\<lparr>qe_loaded := b\<rparr>) w"

text \<open>Each transaction is ended right after it was opened, before another one is.\<close>

fun all_ended :: "history \<Rightarrow> bool" where
  "all_ended [] = True"
| "all_ended (Opened t # Committed t' # h) = (t' = t \<and> all_ended h)"
| "all_ended (Opened t # Aborted t' # h) = (t' = Some t \<and> all_ended h)"
| "all_ended (Aborted None # h) = all_ended h"
| "all_ended h = False"

definition data_of :: "'s option \<Rightarrow> nat option \<Rightarrow> 's query_data" where
  "data_of store txn = (case store of None \<Rightarrow> StoreReadAST | Some st \<Rightarrow> WithStore st txn)"

definition prepared_from :: "('y, 'd, 's, 'p) query_env \<Rightarrow> 'd \<Rightarrow> 'y \<Rightarrow> 's option \<Rightarrow> string + 'p \<Rightarrow> bool" where
  "prepared_from env b y store res \<longleftrightarrow>
     (\<exists>txn. qe_prepare env \<lparr>qa_body = y, qa_bundle = b, qa_data = data_of store txn\<rparr> = res)"

lemma all_ended_append: "all_ended h \<Longrightarrow> all_ended h' \<Longrightarrow> all_ended (h @ h')"
  by (induction h rule: all_ended.induct) auto

lemma prepare_query_args_data:
  "prepare_query_args env y store b h =
     (case store of None \<Rightarrow> h | Some st \<Rightarrow> case qe_new_transaction env h of None \<Rightarrow> h | Some t \<Rightarrow> h @ [Opened t],
      \<lparr>qa_body = y, qa_bundle = b,
       qa_data = data_of store (case store of None \<Rightarrow> None | Some st \<Rightarrow> qe_new_transaction env h)\<rparr>,
      case store of None \<Rightarrow> None | Some st \<Rightarrow> qe_new_transaction env h)"
  by (auto simp: prepare_query_args_def data_of_def Let_def split: option.splits)

lemma prepare_query_ends:
  assumes "all_ended h" "prepare_query env y store h = (h', res)"
  shows "all_ended h'"
  using assms
  by (auto simp: prepare_query_def prepare_query_args_data end_abort_def end_commit_def Let_def
      intro!: all_ended_append[OF assms(1)] split: option.splits sum.splits if_splits)

lemma prepare_query_from:
  assumes "prepare_query env y store h = (h', Inr pq)"
  shows "prepared_from env (qe_loaded env) y store (Inr pq)
    \<or> (\<exists>e. prepared_from env (qe_loaded env) y store (Inl e)) \<and> prepared_from env (qe_embedded env) y store (Inr pq)"
  using assms unfolding prepared_from_def
  by (auto simp: prepare_query_def prepare_query_args_data end_abort_def end_commit_def Let_def
      split: option.splits sum.splits if_splits)

definition entry_ok :: "('y, 'd, 's, 'p) query_env \<Rightarrow> string \<Rightarrow> ('y, 's, 'p) prepared \<Rightarrow> bool" where
  "entry_ok env q p \<longleftrightarrow> parse_query env q = Some (pr_body p)
     \<and> (\<exists>b. prepared_from env b (pr_body p) (pr_store p) (Inr (pr_prepared p)))"

definition query_inv :: "('y, 'd, 's, 'p) query_env \<Rightarrow> history \<times> ('y, 's, 'p) query_cache \<Rightarrow> bool" where
  "query_inv env w \<longleftrightarrow> all_ended (fst w) \<and> (\<forall>q p. cache_get (snd w) q = Some p \<longrightarrow> entry_ok env q p)"

lemma entry_ok_bundle [simp]: "entry_ok (env\<lparr>qe_loaded := b\<rparr>) q p = entry_ok env q p"
  by (simp add: entry_ok_def parse_query_def prepared_from_def)

lemma prepare_query_some:
  "prepare_query env y store h = (h', Inr pq) \<Longrightarrow> \<exists>b. prepared_from env b y store (Inr pq)"
  using prepare_query_from by fastforce

lemma query_inv_set:
  assumes "query_inv env (h, c)" "parse_query env q = Some y" "prepare_query env y store h = (h', Inr pq)"
  shows "query_inv env (h', cm_set c q \<lparr>pr_body = y, pr_prepared = pq, pr_store = store\<rparr>)"
  using assms prepare_query_ends[OF _ assms(3)] prepare_query_some[OF assms(3)]
  by (auto simp: query_inv_def cache_get_def cm_get_def cm_set_def entry_ok_def)

lemma query_inv_failed:
  "query_inv env (h, c) \<Longrightarrow> prepare_query env y store h = (h', Inl e) \<Longrightarrow> query_inv env (h', c)"
  by (auto simp: query_inv_def dest: prepare_query_ends)

lemma query_inv_store:
  "query_inv env w \<Longrightarrow> cache_store env q store w = Some (w', r) \<Longrightarrow> query_inv env w'"
  by (cases w) (auto simp: cache_store_def query_inv_set query_inv_failed split: option.splits prod.splits sum.splits)

lemma query_inv_get:
  assumes "query_inv env (h, c)" "cache_get_or_set env store q (h, c) = Some (w', res)"
  shows "query_inv env w'"
proof (cases "cm_get c q")
  case None
  with assms show ?thesis
    by (auto simp: cache_get_or_set_def Let_def query_inv_set query_inv_failed
        split: option.splits prod.splits sum.splits)
next
  case (Some cq)
  then have "parse_query env q = Some (pr_body cq)"
    using assms(1) by (auto simp: query_inv_def entry_ok_def cache_get_def)
  from query_inv_set[OF assms(1) this, of "pr_store cq"]
  have "query_inv env (h', cm_set c q (cq\<lparr>pr_prepared := pq\<rparr>))"
    if "prepare_query env (pr_body cq) (pr_store cq) h = (h', Inr pq)" for h' pq
    using that by (cases cq) simp
  with Some assms show ?thesis
    by (auto simp: cache_get_or_set_def Let_def query_inv_failed split: prod.splits sum.splits if_splits)
qed

lemma run_query_inv: "query_run env w \<Longrightarrow> query_inv env w"
proof (induction rule: query_run.induct)
  case (run_get env w store q w' res)
  then show ?case by (cases w) (auto intro: query_inv_get)
next
  case (run_bundle env w b)
  then show ?case by (simp add: query_inv_def)
next
  case (run_store env w q store w' r)
  then show ?case by (blast intro: query_inv_store)
qed (simp add: query_inv_def cache_get_def cm_get_def)

text \<open>C29. Whatever the cache of queries is asked for and told to store, and however the bundle changes meanwhile and
  whichever preparations fail: every transaction of the store that was opened is ended, by a commit or an
  abort, before the next one is opened, and each entry of the cache was parsed from the query that it is
  stored under and prepared with the store that it names.\<close>

theorem transactions_end:
  assumes "query_run env (h, c)"
  shows "all_ended h \<and> (\<forall>q p. cache_get c q = Some p \<longrightarrow> entry_ok env q p)"
  using run_query_inv[OF assms] by (simp add: query_inv_def)

lemma get_or_set_current:
  assumes "qe_dev env" "cache_get c q = None" "cache_get_or_set env store q (h, c) = Some ((h', c'), Inr p)"
  shows "cache_get c' q = Some p
     \<and> (prepared_from env (qe_loaded env) (pr_body p) (pr_store p) (Inr (pr_prepared p))
        \<or> prepared_from env (qe_embedded env) (pr_body p) (pr_store p) (Inr (pr_prepared p)))"
  using assms
  by (auto simp: cache_get_or_set_def cache_get_def cm_get_def cm_set_def Let_def dest: prepare_query_from
      split: option.splits prod.splits sum.splits)

text \<open>The pattern for cheap parsing does not match the queries that the server prepares, or any longer one.\<close>

lemma simple_ref_match_length: "simple_ref_match q \<Longrightarrow> length q = 1"
  by (auto simp: simple_ref_match_def split: list.splits)

lemma server_queries_parsed:
  "q \<in> {rule_head_locations, main_eval, test_locations} \<Longrightarrow> parse_query env q = qe_parse env q"
  by (auto simp: parse_query_def simple_ref_match_def rule_head_locations_def main_eval_def test_locations_def)

text \<open>A server in development mode, whose bundle \<open>7\<close> does not compile.\<close>

definition sample_query_env :: "(string, nat, unit, string \<times> nat) query_env" where
  "sample_query_env =
     \<lparr>qe_parse = (\<lambda>q. if q = '''' then None else Some q), qe_body = (\<lambda>b. ''ref''),
      qe_prepare = (\<lambda>a. if qa_bundle a = 7 then Inl ''rego_compile_error'' else Inr (qa_body a, qa_bundle a)),
      qe_new_transaction = (\<lambda>h. Some (length h)), qe_commit = (\<lambda>h t. None),
      qe_dev = True, qe_loaded = 7, qe_embedded = 1\<rparr>"

definition sample_query_world :: "history \<times> (string, unit, string \<times> nat) query_cache" where
  "sample_query_world = fst (the (cache_store (sample_query_env\<lparr>qe_loaded := 2\<rparr>) main_eval (Some ())
     (fst (the (cache_get_or_set sample_query_env (Some ()) main_eval ([], []))))))"

lemma sample_query_run: "query_run (sample_query_env\<lparr>qe_loaded := 2\<rparr>) sample_query_world"
proof -
  let ?w = "fst (the (cache_get_or_set sample_query_env (Some ()) main_eval ([], [])))"
  have "cache_get_or_set sample_query_env (Some ()) main_eval ([], []) \<noteq> None"
    "cache_store (sample_query_env\<lparr>qe_loaded := 2\<rparr>) main_eval (Some ()) ?w \<noteq> None" by code_simp+
  then obtain r r' where "cache_get_or_set sample_query_env (Some ()) main_eval ([], []) = Some (?w, r)"
    "cache_store (sample_query_env\<lparr>qe_loaded := 2\<rparr>) main_eval (Some ()) ?w = Some (sample_query_world, r')"
    unfolding sample_query_world_def by (metis option.exhaust option.sel prod.collapse)
  with run_store run_bundle run_get run_start show ?thesis by metis
qed

theorem transactions_end_witness:
  "snd sample_query_world = [(main_eval, \<lparr>pr_body = main_eval, pr_prepared = (main_eval, 2), pr_store = Some ()\<rparr>)]
   \<and> fst sample_query_world = [Opened 0, Aborted (Some 0), Opened 2, Committed 2, Opened 4, Committed 4]
   \<and> all_ended (fst sample_query_world)
   \<and> entry_ok (sample_query_env\<lparr>qe_loaded := 2\<rparr>) main_eval
        \<lparr>pr_body = main_eval, pr_prepared = (main_eval, 2), pr_store = Some ()\<rparr>"
proof -
  have "snd sample_query_world = [(main_eval, \<lparr>pr_body = main_eval, pr_prepared = (main_eval, 2), pr_store = Some ()\<rparr>)]
   \<and> fst sample_query_world = [Opened 0, Aborted (Some 0), Opened 2, Committed 2, Opened 4, Committed 4]"
    by code_simp
  moreover have "cache_get [(main_eval, \<lparr>pr_body = main_eval, pr_prepared = (main_eval, 2 :: nat), pr_store = Some ()\<rparr>)] main_eval
      = Some \<lparr>pr_body = main_eval, pr_prepared = (main_eval, 2), pr_store = Some ()\<rparr>"
    by code_simp
  moreover have "query_run (sample_query_env\<lparr>qe_loaded := 2\<rparr>) (fst sample_query_world, snd sample_query_world)"
    using sample_query_run by simp
  ultimately show ?thesis using transactions_end by metis
qed

end
