(* ===== verification/Lsp_Router.thy ===== *)
theory Lsp_Router
  imports Query_Cache Semantic_Tokens Value_Json Lsp_Types Uri
begin

text \<open>
  \<open>internal/lsp/rego/router.go\<close> and \<open>internal/lsp/rego/rego.go\<close>: requests of the editor that Rego policies answer. The
  router looks up what a route requires, has providers fill in a context, makes the input of one prepared query
  from the request and the context, and passes on the response that the policies give as JSON.

  The state \<open>'s\<close> is that of the server: the providers read it and result handlers change it. What the router
  keeps itself is the cache of queries, the pool of input objects that are used again, and the log. OPA's
  evaluation and the text layer of the JSON libraries are fields of \<open>router_env\<close>. A panic is \<^term>\<open>None\<close>.
\<close>

section \<open>Contexts\<close>

record file_requirements =
  fr_lines :: bool
  fr_parse_count :: bool
  fr_parse_errors :: bool

record requirements =
  rq_file :: file_requirements
  rq_input_path :: bool

record file_context =
  fc_name :: string
  fc_content :: string
  fc_lines :: "string list option"
  fc_abs :: string
  fc_rego_version :: string
  fc_parse_count :: nat
  fc_parse_errors :: "diagnostic list option"
  fc_uri :: string

record environment_context =
  ec_path_separator :: string
  ec_root_uri :: string
  ec_root_path :: string
  ec_input_path :: string

record 'q regal_context =
  rc_file :: file_context
  rc_environment :: environment_context
  rc_query :: "'q option"

text \<open>The structs as \<open>StructToValue\<close> sees them, with their tags; the query is tagged with a dash.\<close>

definition position_struct :: "lsp_position \<Rightarrow> rval" where
  "position_struct p = RStruct [(''line'', RUint (Line p)), (''character'', RUint (Character p))]"

definition range_struct :: "lsp_range \<Rightarrow> rval" where
  "range_struct r = RStruct [(''start'', position_struct (RStart r)), (''end'', position_struct (REnd r))]"

definition diagnostic_struct :: "diagnostic \<Rightarrow> rval" where
  "diagnostic_struct d = RStruct
     [(''codeDescription,omitempty'', RPtr (map_option (\<lambda>h. RStruct [(''href'', RStr h)]) (CodeDescription d))),
      (''message'', RStr (Message d)), (''source,omitempty'', RPtr (map_option RStr (Source d))),
      (''code'', RStr (Code d)), (''range'', range_struct (DiagRange d)),
      (''severity,omitempty'', RPtr (map_option RUint (Severity d)))]"

definition file_struct :: "file_context \<Rightarrow> rval" where
  "file_struct f = RStruct
     [(''name'', RStr (fc_name f)), (''content'', RStr (fc_content f)),
      (''lines'', RSlice (map_option (map RStr) (fc_lines f))), (''abs'', RStr (fc_abs f)),
      (''rego_version'', RStr (fc_rego_version f)), (''successful_parse_count'', RUint (fc_parse_count f)),
      (''parse_errors'', RSlice (map_option (map diagnostic_struct) (fc_parse_errors f))), (''uri'', RStr (fc_uri f))]"

definition environment_struct :: "environment_context \<Rightarrow> rval" where
  "environment_struct e = RStruct
     [(''path_separator'', RStr (ec_path_separator e)), (''workspace_root_uri'', RStr (ec_root_uri e)),
      (''workspace_root_path'', RStr (ec_root_path e)), (''input_path,omitempty'', RStr (ec_input_path e))]"

definition context_struct :: "'q regal_context \<Rightarrow> rval" where
  "context_struct c = RStruct
     [(''file'', file_struct (rc_file c)), (''environment'', environment_struct (rc_environment c)),
      (''-'', RPtr None)]"

section \<open>Providers and requirements\<close>

record 'q providers =
  pv_context :: "string \<Rightarrow> requirements \<Rightarrow> 'q regal_context"
  pv_content :: "(string \<Rightarrow> string option) option"
  pv_ignored :: "(string \<Rightarrow> bool) option"
  pv_parse_errors :: "(string \<Rightarrow> diagnostic list option) option"
  pv_parse_count :: "(string \<Rightarrow> nat option) option"
  pv_input_path :: "(string \<Rightarrow> string) option"

definition require_lines :: "'q providers \<Rightarrow> string \<Rightarrow> requirements \<Rightarrow> 'q regal_context \<Rightarrow> string + 'q regal_context" where
  "require_lines prvs u reqs rctx =
     (if fr_lines (rq_file reqs) \<and> fc_lines (rc_file rctx) = None then
        (case pv_content prvs of
           None \<Rightarrow> Inl ''content provider required but not provided''
         | Some f \<Rightarrow>
             (case f u of
                None \<Rightarrow> Inl (''content provider failed to provide content for URI: '' @ u)
              | Some content \<Rightarrow>
                  Inr (rctx\<lparr>rc_file := (rc_file rctx)\<lparr>fc_lines := Some (split_byte newline content)\<rparr>\<rparr>)))
      else Inr rctx)"

definition require_parse_count ::
  "'q providers \<Rightarrow> string \<Rightarrow> requirements \<Rightarrow> 'q regal_context \<Rightarrow> string + 'q regal_context option" where
  "require_parse_count prvs u reqs rctx =
     (if fr_parse_count (rq_file reqs) then
        (case pv_parse_count prvs of
           None \<Rightarrow> Inl ''successful parse count provider required but not provided''
         | Some f \<Rightarrow>
             Inr (map_option (\<lambda>n. rctx\<lparr>rc_file := (rc_file rctx)\<lparr>fc_parse_count := n\<rparr>\<rparr>) (f u)))
      else Inr (Some rctx))"

definition require_parse_errors ::
  "'q providers \<Rightarrow> string \<Rightarrow> requirements \<Rightarrow> 'q regal_context \<Rightarrow> string + 'q regal_context" where
  "require_parse_errors prvs u reqs rctx =
     (if fr_parse_errors (rq_file reqs) then
        (case pv_parse_errors prvs of
           None \<Rightarrow> Inl ''parse errors provider required but not provided''
         | Some f \<Rightarrow>
             Inr (rctx\<lparr>rc_file := (rc_file rctx)\<lparr>fc_parse_errors :=
               Some (case f u of None \<Rightarrow> [] | Some ds \<Rightarrow> ds)\<rparr>\<rparr>))
      else Inr rctx)"

definition require_input_path ::
  "'q providers \<Rightarrow> string \<Rightarrow> requirements \<Rightarrow> 'q regal_context \<Rightarrow> string + 'q regal_context" where
  "require_input_path prvs u reqs rctx =
     (if rq_input_path reqs then
        (case pv_input_path prvs of
           None \<Rightarrow> Inl ''input.json path provider required but not provided''
         | Some f \<Rightarrow>
             Inr (rctx\<lparr>rc_environment := (rc_environment rctx)\<lparr>ec_input_path :=
               f (to_relative_path u (ec_root_uri (rc_environment rctx)))\<rparr>\<rparr>))
      else Inr rctx)"

text \<open>\<open>regalContextForRequirements\<close>: nothing for a file that could never be parsed.\<close>

definition regal_context_for_requirements ::
  "'q providers \<Rightarrow> string \<Rightarrow> requirements \<Rightarrow> string + 'q regal_context option" where
  "regal_context_for_requirements prvs u reqs =
     bind_res (require_lines prvs u reqs (pv_context prvs u reqs)) (\<lambda>rctx.
     bind_res (require_parse_count prvs u reqs rctx) (\<lambda>found.
       (case found of
          None \<Rightarrow> Inr None
        | Some rctx \<Rightarrow>
            bind_res (require_parse_errors prvs u reqs rctx) (\<lambda>rctx.
            bind_res (require_input_path prvs u reqs rctx) (\<lambda>rctx. Inr (Some rctx))))))"

section \<open>Evaluation\<close>

text \<open>What one expression of a result holds: the evaluator is told to give AST values.\<close>

datatype 'x expr_value =
    AstValue aval
  | GoValue 'x

datatype eval_error =
    EvaluationFailed string
  | NoResults
  | ExpectedOneResult
  | ExpectedOneExpr

datatype router_error =
    NoPreparedQuery
  | NoInitializeHandler
  | NoDocumentURI string
  | NoContext string
  | NoParams
  | BadParams string
  | QueryFailed eval_error
  | UnexpectedResult
  | MethodNotFound string
  | HandlerFailed string

record rpc_request =
  rpc_method :: string
  rpc_params :: "string option"

type_synonym input_object = "(aval \<times> aval) list"

record ('p, 'x, 'i) router_env =
  re_get_uri :: "string \<Rightarrow> string + string"
  re_lex :: "string \<Rightarrow> string + token list"
  re_print :: "token list \<Rightarrow> string"
  re_values :: value_env
  re_any :: any_env
  re_unmarshal :: "string \<Rightarrow> string + gval"
  re_initialize :: "string \<Rightarrow> string + 'i"
  re_go_initialize :: "'x \<Rightarrow> string + 'i"
  re_eval :: "'p \<Rightarrow> aval \<Rightarrow> string + 'x expr_value list list"
  re_pick :: "input_object list \<Rightarrow> nat option"
  re_debug :: bool

definition to_valid_result :: "string + 'v list list \<Rightarrow> eval_error + 'v" where
  "to_valid_result rs =
     (case rs of
        Inl e \<Rightarrow> Inl (EvaluationFailed e)
      | Inr [] \<Rightarrow> Inl NoResults
      | Inr [[v]] \<Rightarrow> Inr v
      | Inr [_] \<Rightarrow> Inl ExpectedOneExpr
      | Inr _ \<Rightarrow> Inl ExpectedOneResult)"

definition cached_query_eval_undecoded ::
  "('p, 'x, 'i) router_env \<Rightarrow> ('y, 't, 'p) prepared \<Rightarrow> aval \<Rightarrow> eval_error + 'x expr_value" where
  "cached_query_eval_undecoded env pq inp = to_valid_result (re_eval env (pr_prepared pq) inp)"

text \<open>\<open>CachedQueryEval\<close>; the type argument is what \<open>unmarshal\<close> and \<open>round_trip\<close> read.\<close>

definition cached_query_eval ::
  "('p, 'x, 'i) router_env \<Rightarrow> (string \<Rightarrow> string + 'a) \<Rightarrow> ('x \<Rightarrow> string + 'a) \<Rightarrow> ('y, 't, 'p) prepared \<Rightarrow> aval
   \<Rightarrow> (eval_error + 'a) option" where
  "cached_query_eval env unmarshal round_trip pq inp =
     (case to_valid_result (re_eval env (pr_prepared pq) inp) of
        Inl e \<Rightarrow> Some (Inl e)
      | Inr (AstValue v) \<Rightarrow>
          map_option (\<lambda>ts. map_sum EvaluationFailed id (unmarshal (re_print env ts))) (to_json (re_values env) v)
      | Inr (GoValue x) \<Rightarrow> Some (map_sum EvaluationFailed id (round_trip x)))"

definition decode_text :: "('p, 'x, 'i) router_env \<Rightarrow> string \<Rightarrow> string + aval" where
  "decode_text env raw =
     bind_res (re_lex env raw) (\<lambda>ts.
       case decode (re_values env) True ts of None \<Rightarrow> Inl ''invalid JSON'' | Some v \<Rightarrow> Inr v)"

text \<open>The pool of input objects: an object that was put back, if the pool picks one, or a new one.\<close>

definition pool_get :: "('p, 'x, 'i) router_env \<Rightarrow> input_object list \<Rightarrow> input_object \<times> input_object list" where
  "pool_get env pool =
     (case re_pick env pool of
        Some i \<Rightarrow> if i < length pool then (pool ! i, take i pool @ drop (Suc i) pool) else ([], pool)
      | None \<Rightarrow> ([], pool))"

definition fill_input :: "string \<Rightarrow> aval \<Rightarrow> aval \<Rightarrow> input_object \<Rightarrow> input_object" where
  "fill_input m params ctx item =
     obj_insert (obj_insert (obj_insert item ''method'' (AStr m)) ''params'' params) ''regal'' ctx"

text \<open>What becomes of the value that the evaluation gives. A response that is missing is a nil pointer.\<close>

definition passthrough_result :: "('p, 'x, 'i) router_env \<Rightarrow> eval_error + 'x expr_value
    \<Rightarrow> (router_error + 'i handler_input) option" where
  "passthrough_result env res =
     (case res of
        Inl e \<Rightarrow> Some (Inl (QueryFailed e))
      | Inr (AstValue (AObj kvs)) \<Rightarrow>
          (case map_get kvs (AStr ''response'') of
             None \<Rightarrow> None
           | Some rsp \<Rightarrow> map_option (\<lambda>ts. Inr (RawMessage (re_print env ts))) (to_json (re_values env) rsp))
      | Inr v \<Rightarrow> Some (Inl UnexpectedResult))"

definition passthrough ::
  "('p, 'x, 'i) router_env \<Rightarrow> ('y, 't, 'p) prepared regal_context \<Rightarrow> rpc_request \<Rightarrow> input_object list
   \<Rightarrow> input_object list \<times> (router_error + 'i handler_input) option" where
  "passthrough env rctx req pool =
     (case rpc_params req of
        None \<Rightarrow> (pool, Some (Inl NoParams))
      | Some raw \<Rightarrow>
          (case pool_get env pool of (item, pool) \<Rightarrow>
             (case decode_text env raw of
                Inl e \<Rightarrow> (item # pool, Some (Inl (BadParams e)))
              | Inr params \<Rightarrow>
                  let ctx = to_ast_value (ast_env.truncate (re_any env)) (context_struct rctx);
                      item = fill_input (rpc_method req) params ctx item
                  in (item # pool,
                      case rc_query rctx of
                        None \<Rightarrow> None
                      | Some pq \<Rightarrow> passthrough_result env (cached_query_eval_undecoded env pq (AObj item))))))"

definition initialize_request ::
  "('p, 'x, 'i) router_env \<Rightarrow> ('y, 't, 'p) prepared \<Rightarrow> rpc_request \<Rightarrow> (router_error + 'i handler_input) option" where
  "initialize_request env pq req =
     (case rpc_params req of
        None \<Rightarrow> None
      | Some raw \<Rightarrow>
          (case re_unmarshal env raw of
             Inl e \<Rightarrow> Some (Inl (BadParams e))
           | Inr x \<Rightarrow>
               map_option (map_sum QueryFailed OtherResult)
                 (cached_query_eval env (re_initialize env) (re_go_initialize env) pq
                    (new_object [obj_item ''method'' (AStr (rpc_method req)),
                       obj_item ''params'' (any_to_value (re_any env) x)]))))"

section \<open>The router\<close>

text \<open>\<open>Route\<close>. Nothing reads the resolver of a route: \<open>passthrough\<close> is called for every route.\<close>

record route =
  ro_resolver :: bool
  ro_requires :: requirements

type_synonym ('s, 'i) result_handler = "'s \<Rightarrow> 'i handler_input \<Rightarrow> 's \<times> (string + 'i handler_input)"

record ('s, 'y, 't, 'p, 'i) router =
  ru_routes :: "(string, route) gomap"
  ru_handlers :: "(string, ('s, 'i) result_handler) gomap"
  ru_providers :: "'s \<Rightarrow> ('y, 't, 'p) prepared providers"

record ('s, 'y, 't, 'p) router_state =
  rs_server :: 's
  rs_queries :: "('y, 't, 'p) query_cache"
  rs_pool :: "input_object list"
  rs_log :: "string list"

definition no_requirements :: requirements where
  "no_requirements = \<lparr>rq_file = \<lparr>fr_lines = False, fr_parse_count = False, fr_parse_errors = False\<rparr>, rq_input_path = False\<rparr>"

definition file_lines :: requirements where
  "file_lines = \<lparr>rq_file = \<lparr>fr_lines = True, fr_parse_count = False, fr_parse_errors = False\<rparr>, rq_input_path = False\<rparr>"

definition router_routes :: "(string, route) gomap" where
  "router_routes =
     (let r = (\<lambda>reqs. \<lparr>ro_resolver = False, ro_requires = reqs\<rparr>) in
      [(''textDocument/codeAction'', r no_requirements),
       (''textDocument/codeLens'', r \<lparr>rq_file = \<lparr>fr_lines = True, fr_parse_count = True, fr_parse_errors = True\<rparr>,
          rq_input_path = False\<rparr>),
       (''textDocument/completion'', r (file_lines\<lparr>rq_input_path := True\<rparr>)),
       (''textDocument/documentLink'', r file_lines),
       (''textDocument/documentHighlight'', r file_lines),
       (''textDocument/foldingRange'', r file_lines),
       (''textDocument/hover'', r file_lines),
       (''textDocument/inlayHint'', r (file_lines\<lparr>rq_file := (rq_file file_lines)\<lparr>fr_parse_errors := True\<rparr>\<rparr>)),
       (''textDocument/references'', r file_lines),
       (''textDocument/prepareRename'', r file_lines),
       (''textDocument/rename'', r file_lines),
       (''textDocument/linkedEditingRange'', r file_lines),
       (''textDocument/selectionRange'', r no_requirements),
       (''textDocument/semanticTokens/full'', r file_lines),
       (''textDocument/signatureHelp'', r file_lines),
       (''completionItem/resolve'', \<lparr>ro_resolver = True, ro_requires = no_requirements\<rparr>),
       (''inlayHint/resolve'', \<lparr>ro_resolver = True, ro_requires = no_requirements\<rparr>),
       (''initialized'', r no_requirements)])"

text \<open>\<open>NewRouter\<close> prepares the main query, and panics if that fails.\<close>

definition new_router :: "('y, 'd, 't, 'p) query_env \<Rightarrow> 't option \<Rightarrow> history \<times> ('y, 't, 'p) query_cache
    \<Rightarrow> ('s \<Rightarrow> ('y, 't, 'p) prepared providers)
    \<Rightarrow> ((history \<times> ('y, 't, 'p) query_cache) \<times> ('s, 'y, 't, 'p, 'i) router) option" where
  "new_router qenv store w prvs =
     (case cache_get_or_set qenv store main_eval w of
        Some (w, Inr _) \<Rightarrow> Some (w, \<lparr>ru_routes = router_routes, ru_handlers = [], ru_providers = prvs\<rparr>)
      | _ \<Rightarrow> None)"

definition register_result_handler :: "string \<Rightarrow> ('s, 'i) result_handler \<Rightarrow> ('s, 'y, 't, 'p, 'i) router
    \<Rightarrow> ('s, 'y, 't, 'p, 'i) router option" where
  "register_result_handler m f r =
     (if map_get (ru_handlers r) m \<noteq> None then None else Some (r\<lparr>ru_handlers := map_set (ru_handlers r) m f\<rparr>))"

text \<open>\<open>handleError\<close>: an error when debugging, and else a line of the log and no result.\<close>

definition handle_error :: "('p, 'x, 'i) router_env \<Rightarrow> string \<Rightarrow> ('s, 'y, 't, 'p) router_state
    \<Rightarrow> ('s, 'y, 't, 'p) router_state \<times> (router_error + 'i handler_input)" where
  "handle_error env msg st =
     (if re_debug env then (st, Inl (NoContext msg)) else (st\<lparr>rs_log := rs_log st @ [msg]\<rparr>, Inr NoResult))"

definition skip_document :: "'q providers \<Rightarrow> string \<Rightarrow> bool" where
  "skip_document prvs u \<longleftrightarrow>
     \<not> has_suffix u ''.rego'' \<or> (case pv_ignored prvs of None \<Rightarrow> False | Some f \<Rightarrow> f u)"

definition text_document_handler ::
  "('p, 'x, 'i) router_env \<Rightarrow> ('y, 't, 'p) prepared providers \<Rightarrow> route \<Rightarrow> ('y, 't, 'p) prepared \<Rightarrow> rpc_request
   \<Rightarrow> ('s, 'y, 't, 'p) router_state
   \<Rightarrow> ('s, 'y, 't, 'p) router_state \<times> (router_error + 'i handler_input) option" where
  "text_document_handler env prvs rt pq req st =
     (case rpc_params req of
        None \<Rightarrow> (st, None)
      | Some raw \<Rightarrow>
          (case re_get_uri env raw of
             Inl e \<Rightarrow> (st, Some (Inl (NoDocumentURI e)))
           | Inr u \<Rightarrow>
               if skip_document prvs u then (st, Some (Inr NoResult))
               else
                 (case regal_context_for_requirements prvs u (ro_requires rt) of
                    Inl e \<Rightarrow>
                      map_prod id Some (handle_error env (''error handling route '' @ rpc_method req @ '': '' @ e) st)
                  | Inr None \<Rightarrow> (st, Some (Inr NoResult))
                  | Inr (Some rctx) \<Rightarrow>
                      (case passthrough env (rctx\<lparr>rc_query := Some pq\<rparr>) req (rs_pool st) of
                         (pool, res) \<Rightarrow> (st\<lparr>rs_pool := pool\<rparr>, res)))))"

definition call_result_handler :: "('s, 'i) result_handler \<Rightarrow> 'i handler_input \<Rightarrow> ('s, 'y, 't, 'p) router_state
    \<Rightarrow> ('s, 'y, 't, 'p) router_state \<times> (router_error + 'i handler_input)" where
  "call_result_handler f result st =
     (case f (rs_server st) result of (s, res) \<Rightarrow> (st\<lparr>rs_server := s\<rparr>, map_sum HandlerFailed id res))"

definition handle_route ::
  "('p, 'x, 'i) router_env \<Rightarrow> ('y, 't, 'p) prepared providers \<Rightarrow> route \<Rightarrow> ('y, 't, 'p) prepared \<Rightarrow> rpc_request
   \<Rightarrow> ('s, 'y, 't, 'p) router_state
   \<Rightarrow> ('s, 'y, 't, 'p) router_state \<times> (router_error + 'i handler_input) option" where
  "handle_route env prvs rt pq req st =
     (if has_prefix (rpc_method req) ''textDocument/'' then text_document_handler env prvs rt pq req st
      else
        (case passthrough env ((pv_context prvs [] (ro_requires rt))\<lparr>rc_query := Some pq\<rparr>) req (rs_pool st) of
           (pool, res) \<Rightarrow> (st\<lparr>rs_pool := pool\<rparr>, res)))"

definition with_result_handler :: "('s, 'i) result_handler option
    \<Rightarrow> ('s, 'y, 't, 'p) router_state \<times> (router_error + 'i handler_input) option
    \<Rightarrow> ('s, 'y, 't, 'p) router_state \<times> (router_error + 'i handler_input) option" where
  "with_result_handler h a =
     (case (h, snd a) of
        (Some f, Some (Inr result)) \<Rightarrow> map_prod id Some (call_result_handler f result (fst a))
      | _ \<Rightarrow> a)"

definition router_handle :: "('p, 'x, 'i) router_env \<Rightarrow> ('s, 'y, 't, 'p, 'i) router \<Rightarrow> rpc_request
    \<Rightarrow> ('s, 'y, 't, 'p) router_state
    \<Rightarrow> ('s, 'y, 't, 'p) router_state \<times> (router_error + 'i handler_input) option" where
  "router_handle env r req st =
     (case cache_get (rs_queries st) main_eval of
        None \<Rightarrow> (st, Some (Inl NoPreparedQuery))
      | Some pq \<Rightarrow>
          if rpc_method req = ''initialize'' then
            (case map_get (ru_handlers r) ''initialize'' of
               None \<Rightarrow> (st, Some (Inl NoInitializeHandler))
             | Some f \<Rightarrow> with_result_handler (Some f) (st, initialize_request env pq req))
          else
            (case map_get (ru_routes r) (rpc_method req) of
               None \<Rightarrow> (st, Some (Inl (MethodNotFound (rpc_method req))))
             | Some rt \<Rightarrow>
                 with_result_handler (map_get (ru_handlers r) (rpc_method req))
                   (handle_route env (ru_providers r (rs_server st)) rt pq req st)))"

section \<open>Reused input objects do not show\<close>

text \<open>A series of requests; a panic ends it.\<close>

fun router_run :: "('p, 'x, 'i) router_env \<Rightarrow> ('s, 'y, 't, 'p, 'i) router \<Rightarrow> rpc_request list
    \<Rightarrow> ('s, 'y, 't, 'p) router_state
    \<Rightarrow> ('s, 'y, 't, 'p) router_state \<times> (router_error + 'i handler_input) option list" where
  "router_run env r [] st = (st, [])"
| "router_run env r (req # reqs) st =
     (case router_handle env r req st of
        (st, None) \<Rightarrow> (st, [None])
      | (st, Some res) \<Rightarrow> map_prod id ((#) (Some res)) (router_run env r reqs st))"

definition never_reusing :: "('p, 'x, 'i) router_env \<Rightarrow> ('p, 'x, 'i) router_env" where
  "never_reusing env = env\<lparr>re_pick := (\<lambda>pool. None)\<rparr>"

definition item_ok :: "input_object \<Rightarrow> bool" where
  "item_ok item \<longleftrightarrow> item = [] \<or> map fst item = [AStr ''method'', AStr ''params'', AStr ''regal'']"

lemma never_reusing_simps [simp]:
  "re_get_uri (never_reusing env) = re_get_uri env" "re_lex (never_reusing env) = re_lex env"
  "re_print (never_reusing env) = re_print env" "re_values (never_reusing env) = re_values env"
  "re_any (never_reusing env) = re_any env" "re_unmarshal (never_reusing env) = re_unmarshal env"
  "re_initialize (never_reusing env) = re_initialize env" "re_go_initialize (never_reusing env) = re_go_initialize env"
  "re_eval (never_reusing env) = re_eval env" "re_debug (never_reusing env) = re_debug env"
  "re_pick (never_reusing env) pool = None"
  by (simp_all add: never_reusing_def)

lemma never_reusing_functions [simp]:
  "decode_text (never_reusing env) = decode_text env"
  "cached_query_eval_undecoded (never_reusing env) = cached_query_eval_undecoded env"
  "cached_query_eval (never_reusing env) = cached_query_eval env"
  "passthrough_result (never_reusing env) = passthrough_result env"
  "initialize_request (never_reusing env) = initialize_request env"
  "handle_error (never_reusing env) = handle_error env"
  "pool_get (never_reusing env) pool = ([], pool)"
  unfolding fun_eq_iff decode_text_def cached_query_eval_undecoded_def cached_query_eval_def
    passthrough_result_def initialize_request_def handle_error_def pool_get_def never_reusing_simps
  by simp_all

lemma item_ok_cases:
  assumes "item_ok item"
  obtains "item = []" | a b c where "item = [(AStr ''method'', a), (AStr ''params'', b), (AStr ''regal'', c)]"
  using assms by (auto simp: item_ok_def map_eq_Cons_conv)

lemma fill_input_ok:
  assumes "item_ok item"
  shows "fill_input m params ctx item = [(AStr ''method'', AStr m), (AStr ''params'', params), (AStr ''regal'', ctx)]"
  using assms by (rule item_ok_cases) (simp_all add: fill_input_def obj_insert_def)

lemma pool_get_ok:
  assumes "list_all item_ok pool" "pool_get env pool = (item, rest)"
  shows "item_ok item" "list_all item_ok rest"
proof -
  have "item_ok (pool ! i)" "list_all item_ok (take i pool @ drop (Suc i) pool)" if "i < length pool" for i
    using assms(1) that by (auto simp: list_all_iff dest: in_set_takeD in_set_dropD)
  with assms show "item_ok item" "list_all item_ok rest"
    by (auto simp: pool_get_def item_ok_def split: option.splits if_splits)
qed

text \<open>Two states that differ in their pools only.\<close>

definition same_but_pool :: "('s, 'y, 't, 'p) router_state \<Rightarrow> ('s, 'y, 't, 'p) router_state \<Rightarrow> bool" where
  "same_but_pool st st' \<longleftrightarrow> rs_server st = rs_server st' \<and> rs_queries st = rs_queries st' \<and> rs_log st = rs_log st'
     \<and> list_all item_ok (rs_pool st) \<and> list_all item_ok (rs_pool st')"

lemma passthrough_pool:
  assumes "list_all item_ok pool" "passthrough env rctx req pool = (pool', res)"
  shows "list_all item_ok pool' \<and> snd (passthrough (never_reusing env) rctx req p) = res"
proof -
  obtain item rest where g: "pool_get env pool = (item, rest)" by fastforce
  note ok = pool_get_ok[OF assms(1) g]
  have "item_ok (fill_input m params ctx item)" for m params ctx
    unfolding fill_input_ok[OF ok(1)] by (simp add: item_ok_def)
  moreover have "fill_input m params ctx [] = fill_input m params ctx item" for m params ctx
    unfolding fill_input_ok[OF ok(1)] by (simp add: fill_input_ok item_ok_def)
  ultimately show ?thesis
    using assms ok
    by (auto simp: passthrough_def g Let_def split: option.splits sum.splits)
qed

lemma passthrough_fresh_pool:
  "list_all item_ok p \<Longrightarrow> list_all item_ok (fst (passthrough (never_reusing env) rctx req p))"
  using passthrough_pool[of p "never_reusing env"] by (metis prod.collapse)


lemma handle_route_pool:
  fixes env :: "('p, 'x, 'i) router_env" and prvs :: "('y, 't, 'p) prepared providers"
    and st st' :: "('s, 'y, 't, 'p) router_state"
  assumes "same_but_pool st st'"
  shows "same_but_pool (fst (handle_route env prvs rt pq req st)) (fst (handle_route (never_reusing env) prvs rt pq req st'))
    \<and> snd (handle_route env prvs rt pq req st) = snd (handle_route (never_reusing env) prvs rt pq req st')"
proof -
  have ok: "list_all item_ok (rs_pool st)" "list_all item_ok (rs_pool st')"
    using assms(1) by (auto simp: same_but_pool_def)
  have p: "list_all item_ok (fst (passthrough env rctx req (rs_pool st)))"
    "list_all item_ok (fst (passthrough (never_reusing env) rctx req (rs_pool st')))"
    "snd (passthrough env rctx req (rs_pool st)) = snd (passthrough (never_reusing env) rctx req (rs_pool st'))"
    for rctx :: "('y, 't, 'p) prepared regal_context"
    using passthrough_pool[OF ok(1), of env rctx req _ _ "rs_pool st'"] passthrough_fresh_pool[OF ok(2)]
    by (metis prod.collapse)+
  show ?thesis
    using assms p
    by (auto simp: handle_route_def text_document_handler_def handle_error_def same_but_pool_def split_beta
        split: option.splits sum.splits)
qed

lemma with_result_handler_pool:
  assumes "same_but_pool (fst a) (fst b) \<and> snd a = snd b"
  shows "same_but_pool (fst (with_result_handler h a)) (fst (with_result_handler h b))
    \<and> snd (with_result_handler h a) = snd (with_result_handler h b)"
  using assms
  by (auto simp: with_result_handler_def call_result_handler_def same_but_pool_def split: option.split sum.split prod.split)

lemma router_handle_pool:
  assumes "same_but_pool st st'"
  shows "same_but_pool (fst (router_handle env r req st)) (fst (router_handle (never_reusing env) r req st'))
    \<and> snd (router_handle env r req st) = snd (router_handle (never_reusing env) r req st')"
proof -
  have same: "rs_server st' = rs_server st" "rs_queries st' = rs_queries st"
    using assms(1) by (auto simp: same_but_pool_def)
  have i: "same_but_pool (fst (with_result_handler h (st, res))) (fst (with_result_handler h (st', res)))
    \<and> snd (with_result_handler h (st, res)) = snd (with_result_handler h (st', res))" for h res
    by (rule with_result_handler_pool) (simp add: assms)
  have h: "same_but_pool (fst (with_result_handler h (handle_route env prvs rt pq req st)))
      (fst (with_result_handler h (handle_route (never_reusing env) prvs rt pq req st')))
    \<and> snd (with_result_handler h (handle_route env prvs rt pq req st))
      = snd (with_result_handler h (handle_route (never_reusing env) prvs rt pq req st'))" for h prvs rt pq
    by (rule with_result_handler_pool[OF handle_route_pool[OF assms]])
  show ?thesis
    using assms by (simp add: router_handle_def same i h split: option.split)
qed

text \<open>C30. Answers do not depend on the input objects that the pool hands out again: for any series of requests the
  router gives the same answers, writes the same log and leaves the server in the same state as one that makes a
  new input object for each request. So nothing of a request is left in the input of a later one.\<close>

theorem pool_invisible:
  "let fresh = router_run (never_reusing env) r reqs (st\<lparr>rs_pool := []\<rparr>);
       reused = router_run env r reqs (st\<lparr>rs_pool := []\<rparr>) in
    snd reused = snd fresh \<and> rs_server (fst reused) = rs_server (fst fresh) \<and> rs_log (fst reused) = rs_log (fst fresh)"
proof -
  have "same_but_pool (fst (router_run env r reqs a)) (fst (router_run (never_reusing env) r reqs b))
    \<and> snd (router_run env r reqs a) = snd (router_run (never_reusing env) r reqs b)" if "same_but_pool a b" for a b
    using that
  proof (induction reqs arbitrary: a b)
    case (Cons req reqs)
    from router_handle_pool[OF Cons.prems, of env r req] Cons.IH show ?case
      by (cases "router_handle env r req a"; cases "router_handle (never_reusing env) r req b")
        (auto split: option.split)
  qed simp
  moreover have "same_but_pool (st\<lparr>rs_pool := []\<rparr>) (st\<lparr>rs_pool := []\<rparr>)" by (simp add: same_but_pool_def)
  ultimately show ?thesis unfolding Let_def same_but_pool_def by blast
qed

section \<open>When the router panics\<close>

text \<open>What the policies of the bundle give: a value that is JSON and, if it is an object, a response in it.\<close>

definition responses_ok :: "('p, 'x, 'i) router_env \<Rightarrow> bool" where
  "responses_ok env \<longleftrightarrow> (\<forall>p inp v. to_valid_result (re_eval env p inp) = Inr (AstValue v) \<longrightarrow>
     to_json (re_values env) v \<noteq> None
     \<and> (case v of AObj kvs \<Rightarrow> (case map_get kvs (AStr ''response'') of
            None \<Rightarrow> False | Some rsp \<Rightarrow> to_json (re_values env) rsp \<noteq> None) | _ \<Rightarrow> True))"

lemma passthrough_result_some:
  assumes "responses_ok env"
  shows "passthrough_result env (cached_query_eval_undecoded env pq inp) \<noteq> None"
proof (cases "cached_query_eval_undecoded env pq inp")
  case (Inr x)
  then show ?thesis
  proof (cases x)
    case (AstValue v)
    with Inr assms have "case v of AObj kvs \<Rightarrow> (case map_get kvs (AStr ''response'') of
        None \<Rightarrow> False | Some rsp \<Rightarrow> to_json (re_values env) rsp \<noteq> None) | _ \<Rightarrow> True"
      by (auto simp: responses_ok_def cached_query_eval_undecoded_def)
    with Inr AstValue show ?thesis
      by (auto simp: passthrough_result_def split: aval.splits option.splits)
  qed (simp add: passthrough_result_def Inr)
qed (simp add: passthrough_result_def)

lemma passthrough_some:
  assumes "responses_ok env" "rc_query rctx \<noteq> None"
  shows "snd (passthrough env rctx req pool) \<noteq> None"
  using assms passthrough_result_some[OF assms(1)]
  by (auto simp: passthrough_def Let_def split: option.split sum.split prod.split)

lemma passthrough_query:
  "responses_ok env \<Longrightarrow> \<exists>y. snd (passthrough env (rctx\<lparr>rc_query := Some pq\<rparr>) req pool) = Some y"
  using passthrough_some[of env "rctx\<lparr>rc_query := Some pq\<rparr>"] by simp

lemma cached_query_eval_some: "responses_ok env \<Longrightarrow> cached_query_eval env um rt pq inp \<noteq> None"
  by (auto simp: cached_query_eval_def responses_ok_def split: sum.split expr_value.split)

lemma initialize_request_none: "responses_ok env \<Longrightarrow> initialize_request env pq req = None \<longleftrightarrow> rpc_params req = None"
  using cached_query_eval_some[of env] by (auto simp: initialize_request_def split: option.split sum.split)

lemma with_result_handler_none: "snd (with_result_handler h a) = None \<longleftrightarrow> snd a = None"
  by (auto simp: with_result_handler_def split: option.split sum.split)

lemma handle_route_none:
  assumes "responses_ok env"
  shows "snd (handle_route env prvs rt pq req st) = None
    \<longleftrightarrow> has_prefix (rpc_method req) ''textDocument/'' \<and> rpc_params req = None"
  by (auto simp: passthrough_query[OF assms] handle_route_def text_document_handler_def handle_error_def split_beta split: option.split sum.split)

lemma router_none_iff:
  assumes "responses_ok env" "cache_get (rs_queries st) main_eval \<noteq> None"
  shows "snd (router_handle env r req st) = None \<longleftrightarrow> rpc_params req = None
    \<and> (if rpc_method req = ''initialize'' then map_get (ru_handlers r) ''initialize'' \<noteq> None
       else has_prefix (rpc_method req) ''textDocument/'' \<and> map_get (ru_routes r) (rpc_method req) \<noteq> None)"
  using assms(2)
  by (auto simp: router_handle_def with_result_handler_none initialize_request_none[OF assms(1)]
      handle_route_none[OF assms(1)] split: option.split)

text \<open>The router panics exactly on requests without parameters for a text document, and on \<open>initialize\<close> without
  parameters: there \<open>*req.Params\<close> is read before the check for \<open>nil\<close> that \<open>passthrough\<close> makes. Every other
  request gets a result or an error, if the policies answer with a response.\<close>

theorem router_panics_iff:
  assumes "responses_ok env" "cache_get (rs_queries st) main_eval \<noteq> None"
  shows "snd (router_handle env r req st) = None \<longleftrightarrow> rpc_params req = None
    \<and> (if rpc_method req = ''initialize'' then map_get (ru_handlers r) ''initialize'' \<noteq> None
       else has_prefix (rpc_method req) ''textDocument/'' \<and> map_get (ru_routes r) (rpc_method req) \<noteq> None)"
  by (rule router_none_iff[OF assms])

text \<open>A router as \<open>NewRouter\<close> makes it, with a policy that answers every request with null.\<close>

definition sample_router_env :: "(string \<times> nat, unit, unit) router_env" where
  "sample_router_env =
     \<lparr>re_get_uri = (\<lambda>raw. if raw = [] then Inl ''no uri'' else Inr raw), re_lex = (\<lambda>raw. Inr [Lit (AStr raw)]),
      re_print = (\<lambda>ts. ''null''), re_values = sample_value_env,
      re_any = \<lparr>num_int64 = (\<lambda>s. None), float_number = id, json_decode = (\<lambda>s. None), sprint = (\<lambda>v. []),
        float_int = (\<lambda>s. None), format_float = id\<rparr>,
      re_unmarshal = (\<lambda>raw. Inr (GStr raw)), re_initialize = (\<lambda>s. Inr ()), re_go_initialize = (\<lambda>x. Inr ()),
      re_eval = (\<lambda>p v. Inr [[AstValue (AObj [(AStr ''response'', ANull)])]]),
      re_pick = (\<lambda>pool. if pool = [] then None else Some 0), re_debug = False\<rparr>"

definition sample_providers :: "(string, unit, string \<times> nat) prepared providers" where
  "sample_providers =
     \<lparr>pv_context = (\<lambda>u reqs. \<lparr>rc_file = \<lparr>fc_name = u, fc_content = [], fc_lines = None, fc_abs = [], fc_rego_version = ''v1'',
        fc_parse_count = 0, fc_parse_errors = None, fc_uri = u\<rparr>,
        rc_environment = \<lparr>ec_path_separator = ''/'', ec_root_uri = ''file:///w'', ec_root_path = ''/w'', ec_input_path = []\<rparr>,
        rc_query = None\<rparr>),
      pv_content = Some (\<lambda>u. if u = ''file:///w/p.rego'' then Some ''package p'' else None),
      pv_ignored = Some (\<lambda>u. False), pv_parse_errors = Some (\<lambda>u. None), pv_parse_count = Some (\<lambda>u. None),
      pv_input_path = Some (\<lambda>p. [])\<rparr>"

definition sample_router :: "(unit, string, unit, string \<times> nat, unit) router" where
  "sample_router = snd (the (new_router (sample_query_env\<lparr>qe_loaded := 2\<rparr>) (Some ()) ([], []) (\<lambda>_. sample_providers)))"

definition sample_router_state :: "(unit, string, unit, string \<times> nat) router_state" where
  "sample_router_state = \<lparr>rs_server = (), rs_queries = snd sample_query_world, rs_pool = [], rs_log = []\<rparr>"

lemma sample_responses_ok: "responses_ok sample_router_env"
  by (simp add: responses_ok_def to_valid_result_def sample_router_env_def)

theorem router_panics_iff_witness:
  "(snd (router_handle sample_router_env sample_router \<lparr>rpc_method = ''textDocument/hover'', rpc_params = None\<rparr>
       sample_router_state) = None) = True
   \<and> (snd (router_handle sample_router_env sample_router
       \<lparr>rpc_method = ''textDocument/hover'', rpc_params = Some ''file:///w/p.rego''\<rparr> sample_router_state) = None) = False"
proof -
  have q: "cache_get (rs_queries sample_router_state) main_eval \<noteq> None"
    and h: "map_get (ru_routes sample_router) ''textDocument/hover'' \<noteq> None" by code_simp+
  show ?thesis
    unfolding router_panics_iff[OF sample_responses_ok q] using h by simp
qed

end
