(* ===== verification/Document_Symbol.thy ===== *)
theory Document_Symbol
  imports Lsp_Types Roast_Ast "HOL-Library.Multiset"
begin

text \<open>
  \<open>internal/lsp/documentsymbol/documentsymbol.go\<close> and \<open>internal/ast/rule.go\<close>: the symbols of a document, one for
  its package and below it one for each rule, or group of rules of the same name.

  What the code asks of an \<open>ast.Rule\<close> is a \<open>doc_rule\<close>: the text of its reference and of the first term of it,
  the text of its arguments if it is a function, whether it has a key, its value, body and location. The groups are a Go map, whose
  iteration order is a parameter. A nil location is a panic, \<^term>\<open>None\<close>.
\<close>

section \<open>Data\<close>

datatype symbol_kind =
    SkFile | SkModule | SkNamespace | SkPackage | SkClass | SkMethod | SkProperty | SkField | SkConstructor | SkEnum
  | SkInterface | SkFunction | SkVariable | SkConstant | SkString | SkNumber | SkBoolean | SkArray | SkObject | SkKey
  | SkNull | SkEnumMember | SkStruct | SkEvent | SkOperator | SkTypeParameter

datatype doc_symbol = DocSymbol
  (ds_detail: "string option") (ds_children: "doc_symbol list option") (ds_name: string)
  (ds_range: lsp_range) (ds_selection: lsp_range) (ds_kind: symbol_kind)

record workspace_symbol =
  wy_container :: "string option"
  wy_name :: string
  wy_location :: lsp_location
  wy_kind :: symbol_kind

record doc_rule =
  dr_name :: string
  dr_head :: string
  dr_args :: "string option"
  dr_key :: bool
  dr_value :: "ast_value option"
  dr_body :: ast_body
  dr_else :: bool
  dr_loc :: "ast_location option"

text \<open>A builtin function, as far as it is asked for: the text of its named result, if it has one.\<close>

type_synonym builtin_results = "(string, string option) gomap"

section \<open>Rules\<close>

definition cut_after :: "string \<Rightarrow> char \<Rightarrow> string" where
  "cut_after s c = (case index_byte s c of Some i \<Rightarrow> drop (i + 1) s | None \<Rightarrow> s)"

definition cut_before :: "string \<Rightarrow> char \<Rightarrow> string" where
  "cut_before s c = (case index_byte s c of Some i \<Rightarrow> take i s | None \<Rightarrow> s)"

definition simplify_type :: "string \<Rightarrow> string" where
  "simplify_type name =
     (let result = cut_after name CHR '':'';
          result = cut_before result CHR ''['';
          result = cut_before result CHR ''<''
      in trim_space result)"

text \<open>The type of a value, as far as it shows; the text of a term is OPA's.\<close>

definition value_detail :: "(ast_term \<Rightarrow> string) \<Rightarrow> builtin_results \<Rightarrow> string \<Rightarrow> ast_value \<Rightarrow> string" where
  "value_detail str bis head v =
     (case v of
        VBool b \<Rightarrow> if has_prefix head ''test_'' then '' (test)'' else '' (boolean)''
      | VNum n \<Rightarrow> '' (number)''
      | VStr s \<Rightarrow> '' (string)''
      | VArray vs \<Rightarrow> '' (array)''
      | VArrayComp t b \<Rightarrow> '' (array)''
      | VObject kvs \<Rightarrow> '' (object)''
      | VObjectComp k t b \<Rightarrow> '' (object)''
      | VSet vs \<Rightarrow> '' (set)''
      | VSetComp t b \<Rightarrow> '' (set)''
      | VCall (f # args) \<Rightarrow>
          (case map_get bis (str f) of
             Some (Some result) \<Rightarrow> '' ('' @ simplify_type result @ '')''
           | _ \<Rightarrow> [])
      | _ \<Rightarrow> [])"

definition get_rule_detail :: "(ast_term \<Rightarrow> string) \<Rightarrow> builtin_results \<Rightarrow> doc_rule \<Rightarrow> string" where
  "get_rule_detail str bis r =
     (case dr_args r of
        Some args \<Rightarrow> ''function'' @ args
      | None \<Rightarrow>
          (case dr_value r of
             None \<Rightarrow> if dr_key r then ''multi-value rule'' else []
           | Some v \<Rightarrow>
               ''single-value '' @ (if dr_key r then ''map '' else []) @ ''rule'' @ value_detail str bis (dr_head r) v))"

fun is_scalar :: "ast_value \<Rightarrow> bool" where
  "is_scalar VNull = True"
| "is_scalar (VBool b) = True"
| "is_scalar (VNum n) = True"
| "is_scalar (VStr s) = True"
| "is_scalar v = False"

text \<open>Equality with the body that consists of \<open>true\<close>: OPA does not look at the location, nor at what generated it.\<close>

fun is_no_body :: "ast_body \<Rightarrow> bool" where
  "is_no_body [Expr False g [] (Some (OneTerm (Term (VBool True) l))) l'] = True"
| "is_no_body b = False"

definition is_constant :: "doc_rule \<Rightarrow> bool" where
  "is_constant r \<longleftrightarrow> (case dr_value r of Some v \<Rightarrow> is_scalar v | None \<Rightarrow> False)
     \<and> dr_args r = None \<and> is_no_body (dr_body r) \<and> \<not> dr_else r"

section \<open>Symbols of a document\<close>

definition document_symbol :: "string \<Rightarrow> symbol_kind \<Rightarrow> lsp_range \<Rightarrow> string option \<Rightarrow> doc_symbol list option \<Rightarrow> doc_symbol" where
  "document_symbol name kind rang detail children = DocSymbol detail children name rang rang kind"

definition location_to_range :: "ast_location \<Rightarrow> lsp_range" where
  "location_to_range l =
     (let startLine = safe_int_to_uint (loc_row l - 1);
          numLines = num_lines (loc_text l);
          endLine = (if numLines > 1 then startLine + (numLines - 1) else startLine);
          endLineContent = (case line_contents (loc_text l) (nat (endLine - startLine)) of Some s \<Rightarrow> s | None \<Rightarrow> [])
      in range_between (nat startLine) (uint_of (loc_col l - 1)) (nat endLine) (length endLineContent))"

definition some_detail :: "string \<Rightarrow> string option" where
  "some_detail s = (if s = [] then None else Some s)"

definition rule_groups :: "doc_rule list \<Rightarrow> (string, doc_rule list) gomap" where
  "rule_groups rules = fold (\<lambda>r m. map_set m (dr_name r) (map_get_or m (dr_name r) [] @ [r])) rules []"

text \<open>One rule, and a group of rules: the symbol of the group spans from the first to the last of them.\<close>

definition single_symbol :: "(ast_term \<Rightarrow> string) \<Rightarrow> builtin_results \<Rightarrow> doc_rule \<Rightarrow> doc_symbol option" where
  "single_symbol str bis r =
     map_option (\<lambda>l. document_symbol (dr_name r)
         (if is_constant r then SkConstant else if dr_args r \<noteq> None then SkFunction else SkVariable)
         (location_to_range l) (some_detail (get_rule_detail str bis r)) None)
       (dr_loc r)"

definition child_symbol :: "(ast_term \<Rightarrow> string) \<Rightarrow> builtin_results \<Rightarrow> symbol_kind \<Rightarrow> nat \<times> doc_rule \<Rightarrow> doc_symbol option" where
  "child_symbol str bis kind ir =
     map_option (\<lambda>l. document_symbol (CHR ''#'' # itoa (fst ir + 1)) kind (location_to_range l)
         (some_detail (get_rule_detail str bis (snd ir))) None)
       (dr_loc (snd ir))"

definition group_symbol :: "(ast_term \<Rightarrow> string) \<Rightarrow> builtin_results \<Rightarrow> doc_rule list \<Rightarrow> doc_symbol option" where
  "group_symbol str bis rs =
     (case (dr_loc (hd rs), dr_loc (last rs)) of
        (Some first, Some lst) \<Rightarrow>
          let kind = (if dr_args (hd rs) \<noteq> None then SkFunction else SkVariable);
              rang = \<lparr>RStart = RStart (location_to_range first), REnd = REnd (location_to_range lst)\<rparr>
          in map_option (\<lambda>children. document_symbol (dr_name (hd rs)) kind rang
                 (some_detail (get_rule_detail str bis (hd rs))) (Some children))
               (those (map (child_symbol str bis kind) (enumerate 0 rs)))
      | _ \<Rightarrow> None)"

definition rules_symbol :: "(ast_term \<Rightarrow> string) \<Rightarrow> builtin_results \<Rightarrow> doc_rule list \<Rightarrow> doc_symbol option" where
  "rules_symbol str bis rs = (case rs of [r] \<Rightarrow> single_symbol str bis r | rs \<Rightarrow> group_symbol str bis rs)"

definition all_symbols :: "(ast_term \<Rightarrow> string) \<Rightarrow> ((string, doc_rule list) gomap \<Rightarrow> (string, doc_rule list) gomap)
    \<Rightarrow> string \<Rightarrow> string \<Rightarrow> doc_rule list \<Rightarrow> builtin_results \<Rightarrow> doc_symbol list option" where
  "all_symbols str order contents package rules bis =
     (let lines = num_lines contents;
          lastLine = fst (line_at contents (nat lines));
          pkgRange = range_between 0 0 (nat (lines - 1)) (length lastLine)
      in map_option (\<lambda>pkgSymbols.
             [document_symbol package SkPackage pkgRange None (if pkgSymbols = [] then None else Some pkgSymbols)])
           (those (map (rules_symbol str bis \<circ> snd) (order (rule_groups rules)))))"

section \<open>Symbols of the workspace\<close>

definition to_workspace_symbol :: "doc_symbol \<Rightarrow> string \<Rightarrow> workspace_symbol" where
  "to_workspace_symbol s u =
     \<lparr>wy_container = None, wy_name = ds_name s, wy_location = \<lparr>LocURI = u, LocRange = ds_range s\<rparr>, wy_kind = ds_kind s\<rparr>"

lemma children_smaller: "ds_children s = Some children \<Longrightarrow> size_list size children < size s"
  by (cases s) simp

function to_workspace_symbols :: "doc_symbol list \<Rightarrow> string \<Rightarrow> workspace_symbol list \<Rightarrow> workspace_symbol list" where
  "to_workspace_symbols [] u symbols = symbols"
| "to_workspace_symbols (s # syms) u symbols =
     to_workspace_symbols syms u
       (if has_prefix (ds_name s) ''#'' then symbols
        else let symbols = symbols @ [to_workspace_symbol s u] in
          case ds_children s of None \<Rightarrow> symbols | Some children \<Rightarrow> to_workspace_symbols children u symbols)"
  by pat_completeness auto
termination
  by (relation "measure (\<lambda>(syms, u, acc). size_list size syms)") (auto dest: children_smaller)

section \<open>Every rule has its symbol\<close>

definition group_add :: "doc_rule \<Rightarrow> (string, doc_rule list) gomap \<Rightarrow> (string, doc_rule list) gomap" where
  "group_add r m = map_set m (dr_name r) (map_get_or m (dr_name r) [] @ [r])"

lemma rule_groups_snoc: "rule_groups (rules @ [r]) = group_add r (rule_groups rules)"
  by (simp add: rule_groups_def group_add_def)

lemma rule_groups_Nil: "rule_groups [] = []"
  by (simp add: rule_groups_def)

lemma update_rules:
  "map_wf m \<Longrightarrow> mset (concat (map snd (AList.update k (map_get_or m k [] @ [r]) m))) = add_mset r (mset (concat (map snd m)))"
  by (induction m) (auto simp: map_get_or_def)

lemma rule_groups_rules:
  "map_wf (rule_groups rules) \<and> mset (concat (map snd (rule_groups rules))) = mset rules
   \<and> fst ` set (rule_groups rules) = dr_name ` set rules
   \<and> (\<forall>(n, rs)\<in>set (rule_groups rules). rs \<noteq> [] \<and> (\<forall>r\<in>set rs. dr_name r = n))"
proof (induction rules rule: rev_induct)
  case (snoc r rules)
  let ?g = "rule_groups rules"
  have g: "map_get_or ?g n [] = rs" if "(n, rs) \<in> set ?g" for n rs
    using that snoc by (simp add: map_get_or_def)
  have "(\<forall>(n, rs)\<in>set (group_add r ?g). rs \<noteq> [] \<and> (\<forall>r\<in>set rs. dr_name r = n))"
  proof clarify
    fix n rs assume m: "(n, rs) \<in> set (group_add r ?g)"
    have "map_get (group_add r ?g) n = Some rs"
      using snoc by (intro map_of_is_SomeI[OF _ m]) (simp add: group_add_def)
    then have "n = dr_name r \<and> rs = map_get_or ?g n [] @ [r] \<or> map_get ?g n = Some rs"
      by (auto simp: group_add_def split: if_splits)
    moreover have "\<forall>r\<in>set (map_get_or ?g n []). dr_name r = n"
      using snoc by (auto simp: map_get_or_def dest!: map_of_SomeD split: option.split)
    ultimately show "rs \<noteq> [] \<and> (\<forall>r\<in>set rs. dr_name r = n)" using snoc by (auto dest!: map_of_SomeD)
  qed
  then show ?case
    using snoc by (auto simp: rule_groups_snoc group_add_def update_rules dom_update)
qed (simp add: rule_groups_Nil)

definition rule_range :: "doc_rule \<Rightarrow> lsp_range" where
  "rule_range r = location_to_range (the (dr_loc r))"

definition symbol_children :: "doc_symbol \<Rightarrow> doc_symbol list" where
  "symbol_children s = (case ds_children s of None \<Rightarrow> [] | Some cs \<Rightarrow> cs)"

text \<open>The symbols of single rules: those of a group, or the symbol itself.\<close>

definition rule_leaves :: "doc_symbol \<Rightarrow> doc_symbol list" where
  "rule_leaves s = (case ds_children s of None \<Rightarrow> [s] | Some cs \<Rightarrow> cs)"

definition numbered :: "doc_symbol \<Rightarrow> bool" where
  "numbered s \<longleftrightarrow> has_prefix (ds_name s) ''#''"

lemma those_map: "\<forall>x\<in>set xs. f x \<noteq> None \<Longrightarrow> those (map f xs) = Some (map (\<lambda>x. the (f x)) xs)"
  by (induction xs) auto

lemma child_symbols:
  assumes "\<forall>r\<in>set rs. dr_loc r \<noteq> None"
  obtains cs where "those (map (child_symbol str bis kind) (enumerate 0 rs)) = Some cs"
    "map ds_range cs = map rule_range rs" "list_all numbered cs"
proof
  let ?cs = "map (\<lambda>x. the (child_symbol str bis kind x)) (enumerate 0 rs)"
  have c: "child_symbol str bis kind (i, r) = Some (document_symbol (CHR ''#'' # itoa (i + 1)) kind (rule_range r)
      (some_detail (get_rule_detail str bis r)) None)" if "(i, r) \<in> set (enumerate 0 rs)" for i r
  proof -
    have "r \<in> set rs" using that by (auto simp: in_set_enumerate_eq)
    with assms show ?thesis by (auto simp: child_symbol_def rule_range_def)
  qed
  show "those (map (child_symbol str bis kind) (enumerate 0 rs)) = Some ?cs"
    using c by (intro those_map) auto
  have "map ds_range ?cs = map (\<lambda>x. rule_range (snd x)) (enumerate 0 rs)"
    using c by (auto simp: document_symbol_def)
  also have "\<dots> = map rule_range (map snd (enumerate 0 rs))" by (simp only: map_map comp_def)
  finally show "map ds_range ?cs = map rule_range rs" by (simp only: map_snd_enumerate)
  show "list_all numbered ?cs"
    using c by (auto simp: list_all_iff numbered_def document_symbol_def)
qed

lemma rules_symbol_leaves:
  assumes "rs \<noteq> []" "\<forall>r\<in>set rs. dr_loc r \<noteq> None" "\<forall>r\<in>set rs. dr_name r = n"
  obtains s where "rules_symbol str bis rs = Some s" "ds_name s = n" "map ds_range (rule_leaves s) = map rule_range rs"
    "list_all numbered (symbol_children s)"
proof (cases "\<exists>r. rs = [r]")
  case True
  with assms that show ?thesis
    by (auto simp: rules_symbol_def single_symbol_def document_symbol_def rule_leaves_def symbol_children_def rule_range_def)
next
  case False
  with assms(1) obtain r1 r2 rest where rs: "rs = r1 # r2 # rest" by (metis list.exhaust)
  have loc: "dr_loc (hd rs) \<noteq> None" "dr_loc (last rs) \<noteq> None" using assms(1,2) by auto
  obtain cs where cs: "those (map (child_symbol str bis (if dr_args (hd rs) \<noteq> None then SkFunction else SkVariable))
      (enumerate 0 rs)) = Some cs" "map ds_range cs = map rule_range rs" "list_all numbered cs"
    using child_symbols[OF assms(2)] by blast
  have "rules_symbol str bis rs = group_symbol str bis rs" using rs by (simp add: rules_symbol_def)
  moreover have "dr_name (hd rs) = n" using assms(1,3) by simp
  ultimately show ?thesis
    using that loc cs
    by (auto simp: group_symbol_def Let_def document_symbol_def rule_leaves_def symbol_children_def)
qed

lemma workspace_symbols_flat:
  "\<forall>s\<in>set syms. \<not> numbered s \<and> list_all numbered (symbol_children s)
   \<Longrightarrow> to_workspace_symbols syms u acc = acc @ map (\<lambda>s. to_workspace_symbol s u) syms"
proof (induction syms arbitrary: acc)
  case (Cons s syms)
  have skip: "to_workspace_symbols cs u acc = acc" if "list_all numbered cs" for cs acc
    using that by (induction cs) (auto simp: numbered_def)
  from Cons show ?case
    by (cases "ds_children s") (auto simp: symbol_children_def skip simp flip: numbered_def)
qed simp

lemma mset_concat_map: "mset (concat (map f xs)) = (\<Sum>x\<in>#mset xs. mset (f x))"
  by (induction xs) auto

text \<open>C31. Whatever the order of the map of groups: the symbols of a document are one for its package, and below it one for
  each name of a rule. Each rule has exactly one symbol with its range, on its own or in its group. Of these the
  search in the workspace gets the package and one symbol for each name, and not the numbered ones.\<close>

theorem document_symbols_cover:
  assumes "\<forall>m. mset (order m) = mset m" "\<forall>r\<in>set rules. dr_loc r \<noteq> None"
    "\<not> has_prefix package ''#''" "\<forall>r\<in>set rules. \<not> has_prefix (dr_name r) ''#''"
  shows "\<exists>pkg. all_symbols str order contents package rules bis = Some [pkg] \<and> ds_name pkg = package
    \<and> mset (map ds_range (concat (map rule_leaves (symbol_children pkg)))) = mset (map rule_range rules)
    \<and> mset (map ds_name (symbol_children pkg)) = mset (remdups (map dr_name rules))
    \<and> map wy_name (to_workspace_symbols [pkg] u []) = package # map ds_name (symbol_children pkg)"
proof -
  let ?g = "rule_groups rules" let ?o = "order ?g"
  have o: "mset ?o = mset ?g" "set ?o = set ?g" using assms(1) mset_eq_setD by blast+
  note g = rule_groups_rules[of rules]
  have "set (concat (map snd ?g)) = set rules" using g mset_eq_setD by blast
  then have rules: "set rules = (\<Union>p\<in>set ?g. set (snd p))" by simp
  define f where "f p = the (rules_symbol str bis (snd p))" for p :: "string \<times> doc_rule list"
  have f: "rules_symbol str bis (snd p) = Some (f p) \<and> ds_name (f p) = fst p
      \<and> map ds_range (rule_leaves (f p)) = map rule_range (snd p) \<and> list_all numbered (symbol_children (f p))"
    if "p \<in> set ?o" for p
  proof -
    have p: "p \<in> set ?g" using that o by simp
    have "case p of (n, rs) \<Rightarrow> rs \<noteq> [] \<and> (\<forall>r\<in>set rs. dr_name r = n)"
      by (rule bspec[OF g[THEN conjunct2, THEN conjunct2, THEN conjunct2] p])
    then have n: "snd p \<noteq> []" "\<forall>r\<in>set (snd p). dr_name r = fst p" by (simp_all add: split_beta)
    from p have "set (snd p) \<subseteq> set rules" unfolding rules by (rule UN_upper)
    with assms(2) have l: "\<forall>r\<in>set (snd p). dr_loc r \<noteq> None" by blast
    obtain s where "rules_symbol str bis (snd p) = Some s" "ds_name s = fst p"
      "map ds_range (rule_leaves s) = map rule_range (snd p)" "list_all numbered (symbol_children s)"
      by (rule rules_symbol_leaves[OF n(1) l n(2), of str bis])
    then show ?thesis by (simp add: f_def)
  qed
  define kids where "kids = map f ?o"
  have kids: "those (map (rules_symbol str bis \<circ> snd) ?o) = Some kids"
    using f by (subst those_map) (auto simp: kids_def f_def)
  define pkg where "pkg = the (map_option hd (all_symbols str order contents package rules bis))"
  have all: "all_symbols str order contents package rules bis = Some [pkg]"
    unfolding pkg_def all_symbols_def Let_def kids by simp
  have pkg: "ds_name pkg = package" "symbol_children pkg = kids" "ds_children pkg = (if kids = [] then None else Some kids)"
    unfolding pkg_def all_symbols_def Let_def kids by (simp_all add: document_symbol_def symbol_children_def)
  have names: "map ds_name kids = map fst ?o" using f by (simp add: kids_def)
  have "concat (map (map ds_range \<circ> rule_leaves) kids) = concat (map (map rule_range \<circ> snd) ?o)"
    using f by (auto simp: kids_def intro!: arg_cong[of _ _ concat])
  then have "mset (map ds_range (concat (map rule_leaves kids))) = image_mset rule_range (mset (concat (map snd ?o)))"
    by (simp add: map_concat flip: mset_map)
  also have "mset (concat (map snd ?o)) = mset (concat (map snd ?g))"
    by (simp only: mset_concat_map o(1))
  finally have ranges: "mset (map ds_range (concat (map rule_leaves kids))) = mset (map rule_range rules)" using g by simp
  have "mset (map fst ?o) = mset (map fst ?g)" using o(1) by simp
  also have "\<dots> = mset (remdups (map dr_name rules))"
    using g by (intro set_eq_iff_mset_eq_distinct[THEN iffD1]) auto
  finally have uniq: "mset (map ds_name kids) = mset (remdups (map dr_name rules))" by (simp add: names)
  have "\<forall>s\<in>set kids. \<not> numbered s \<and> list_all numbered (symbol_children s)"
  proof
    fix s assume "s \<in> set kids"
    then obtain p where p: "p \<in> set ?o" "s = f p" by (auto simp: kids_def)
    then have "fst p \<in> fst ` set ?g" unfolding o(2) by simp
    also have "\<dots> = dr_name ` set rules" by (rule g[THEN conjunct2, THEN conjunct2, THEN conjunct1])
    finally show "\<not> numbered s \<and> list_all numbered (symbol_children s)"
      using f[OF p(1)] assms(4) by (auto simp: p(2) numbered_def)
  qed
  then have "map wy_name (to_workspace_symbols [pkg] u []) = package # map ds_name kids"
    using assms(3) workspace_symbols_flat[of kids] pkg by (auto simp: to_workspace_symbol_def)
  with all pkg ranges uniq show ?thesis by auto
qed

section \<open>The range of a location\<close>

lemma find_enumerate:
  "List.find (\<lambda>(i, x). i = n) (enumerate k xs) = (if k \<le> n \<and> n < k + length xs then Some (n, xs ! (n - k)) else None)"
  by (induction xs arbitrary: k) (auto simp: nth_Cons' split: if_splits)

lemma byte_lines_simple: "newline \<notin> set r \<Longrightarrow> byte_lines r = (if r = [] then [] else [r])"
  by (subst byte_lines.simps) (simp add: index_byte_None[THEN iffD2])

lemma byte_lines_last:
  assumes "newline \<notin> set r"
  obtains ls where "byte_lines (p @ newline # r) = ls @ (if r = [] then [] else [r])"
    "length ls = count_list (p @ newline # r) newline"
proof -
  have "\<exists>ls. byte_lines (p @ newline # r) = ls @ (if r = [] then [] else [r])
      \<and> length ls = count_list (p @ newline # r) newline"
  proof (induction "length p" arbitrary: p rule: less_induct)
    case less
    show ?case
    proof (cases "newline \<in> set p")
      case False
      then have "byte_lines (p @ newline # r) = (p @ [newline]) # (if r = [] then [] else [r])"
        by (subst byte_lines.simps) (simp add: index_byte_append byte_lines_simple[OF assms])
      moreover have "count_list (p @ newline # r) newline = 1"
        using False assms by (simp add: count_list_0_iff)
      ultimately show ?thesis by (intro exI[of _ "[p @ [newline]]"]) simp
    next
      case True
      then obtain a b where p: "p = a @ newline # b" "newline \<notin> set a" by (metis split_list_first)
      have "byte_lines (p @ newline # r) = (a @ [newline]) # byte_lines (b @ newline # r)"
        using p by (subst byte_lines.simps) (simp add: index_byte_append)
      moreover have "count_list (p @ newline # r) newline = Suc (count_list (b @ newline # r) newline)"
        using p by (simp add: count_list_0_iff)
      moreover obtain ls where "byte_lines (b @ newline # r) = ls @ (if r = [] then [] else [r])"
        "length ls = count_list (b @ newline # r) newline"
        using less[of b] p by auto
      ultimately show ?thesis by (intro exI[of _ "(a @ [newline]) # ls"]) simp
    qed
  qed
  with that show ?thesis by blast
qed

lemma line_contents_last:
  assumes "newline \<notin> set r"
  shows "line_contents (p @ newline # r) (count_list (p @ newline # r) newline) = (if r = [] then None else Some r)"
proof -
  obtain ls where "byte_lines (p @ newline # r) = ls @ (if r = [] then [] else [r])"
    "length ls = count_list (p @ newline # r) newline"
    using byte_lines_last[OF assms] by blast
  moreover have "trim_suffix r [newline] = r"
    using assms by (auto simp: trim_suffix_def has_suffix_iff)
  ultimately show ?thesis by (simp add: line_contents_def lines_enum_def find_enumerate nth_append)
qed

text \<open>C32. The range of a rule is that of the text of its location, as a reader who starts at its row and column gets to the
  end of it: except that the end of a text on one line is counted from the start of the text and not of the line.
  So a rule on one line that is indented ends too early, by its indentation.\<close>

theorem location_range_end:
  assumes "1 \<le> loc_row l" "1 \<le> loc_col l" "loc_col l \<le> max_int" "int (length (loc_text l)) \<le> max_int"
  shows "let r = location_to_range l; (endRow, endCol) = advance (loc_row l, loc_col l) (loc_text l) in
    int (Line (RStart r)) = loc_row l - 1 \<and> int (Character (RStart r)) = loc_col l - 1
    \<and> int (Line (REnd r)) = endRow - 1
    \<and> int (Character (REnd r)) = endCol - 1 - (if newline \<in> set (loc_text l) then 0 else loc_col l - 1)"
proof -
  have col: "uint_of (loc_col l - 1) = nat (loc_col l - 1)"
    using assms(2,3) by (intro uint_of_nonneg) (simp_all add: max_int_def)
  have n: "num_lines (loc_text l) = int (count_list (loc_text l) newline) + 1"
    by (simp add: num_lines_def safe_int_to_uint_def)
  show ?thesis
  proof (cases "newline \<in> set (loc_text l)")
    case False
    then have "line_contents (loc_text l) 0 = (if loc_text l = [] then None else Some (loc_text l))"
      by (auto simp: line_contents_def lines_enum_def byte_lines_simple find_enumerate trim_suffix_def has_suffix_iff)
    with False assms n col show ?thesis
      by (simp add: location_to_range_def Let_def advance_line safe_int_to_uint_def range_between_def count_list_0_iff)
  next
    case True
    then obtain p r where s: "loc_text l = p @ newline # r" "newline \<notin> set r" by (metis split_list_last)
    obtain row col where rc: "advance (loc_row l, loc_col l) p = (row, col)" by force
    have a: "advance (loc_row l, loc_col l) (loc_text l) = (row + 1, 1 + int (length r))"
      using s by (simp add: advance_append rc advance_line)
    have row: "row + 1 = loc_row l + int (count_list (loc_text l) newline)"
      using advance_row [of "loc_row l" "loc_col l" "loc_text l"] a by simp
    have c: "count_list (loc_text l) newline \<noteq> 0" using True by (simp add: count_list_0_iff)
    have "line_contents (loc_text l) (count_list (loc_text l) newline) = (if r = [] then None else Some r)"
      unfolding s(1) by (rule line_contents_last[OF s(2)])
    with c True assms n col row a show ?thesis
      by (simp add: location_to_range_def Let_def safe_int_to_uint_def range_between_def)
  qed
qed

definition sample_doc_rules :: "doc_rule list" where
  "sample_doc_rules =
     (let r = \<lparr>dr_name = ''allow'', dr_head = ''allow'', dr_args = None, dr_key = False, dr_value = Some (VBool True),
          dr_body = [], dr_else = False, dr_loc = Some \<lparr>loc_text = ''allow'', loc_row = 3, loc_col = 3\<rparr>\<rparr>
      in [r, r\<lparr>dr_name := ''f'', dr_args := Some ''(x)''\<rparr>, r\<lparr>dr_loc := Some \<lparr>loc_text = ''allow'' @ [newline] @ ''}'', loc_row = 5,
          loc_col = 1\<rparr>\<rparr>])"

theorem document_symbols_cover_witness:
  "\<exists>pkg. all_symbols (\<lambda>t. []) rev ''package p'' ''data.p'' sample_doc_rules [] = Some [pkg] \<and> ds_name pkg = ''data.p''
    \<and> mset (map ds_range (concat (map rule_leaves (symbol_children pkg)))) = mset (map rule_range sample_doc_rules)
    \<and> mset (map ds_name (symbol_children pkg)) = mset (remdups (map dr_name sample_doc_rules))
    \<and> map wy_name (to_workspace_symbols [pkg] ''file:///p.rego'' []) = ''data.p'' # map ds_name (symbol_children pkg)"
  by (rule document_symbols_cover) (auto simp: sample_doc_rules_def Let_def)

theorem location_range_end_witness:
  "let l = \<lparr>loc_text = ''allow := true'', loc_row = 3, loc_col = 5\<rparr>; r = location_to_range l;
       (endRow, endCol) = advance (loc_row l, loc_col l) (loc_text l) in
    int (Line (RStart r)) = loc_row l - 1 \<and> int (Character (RStart r)) = loc_col l - 1
    \<and> int (Line (REnd r)) = endRow - 1
    \<and> int (Character (REnd r)) = endCol - 1 - (if newline \<in> set (loc_text l) then 0 else loc_col l - 1)
    \<and> endCol = 18 \<and> Character (REnd r) = 13"
proof -
  define l where "l = \<lparr>loc_text = ''allow := true'', loc_row = 3, loc_col = 5\<rparr>"
  have "advance (loc_row l, loc_col l) (loc_text l) = (3, 18)" by (simp add: l_def)
  moreover have "newline \<notin> set (loc_text l)" by (simp add: l_def)
  moreover note location_range_end[of l]
  ultimately show ?thesis unfolding l_def[symmetric] by (simp add: Let_def) (simp add: l_def max_int_def)
qed

end
