(* ===== verification/Lsp_Json.thy ===== *)
theory Lsp_Json
  imports Lsp_Types Value_Json
begin

text \<open>
  What the language server writes as JSON by hand: edits of the workspace (the \<open>AppendJSON\<close> methods of
  \<open>internal/lsp/types/types.go\<close> and \<open>ApplyEditParams.MarshalJSON\<close> of \<open>internal/lsp/workspace/workspace.go\<close>) and the
  parameters of messages and documents to show (\<open>internal/lsp/window/window.go\<close>). A method appends to the bytes it
  is given. Strings are written by \<open>strconv.AppendQuote\<close>, which quotes as Go does.

  A text is a list of bytes; bytes beyond ASCII are taken to be printable text in UTF-8, which Go copies.
\<close>

section \<open>Writing\<close>

abbreviation dquote :: char where
  "dquote \<equiv> CHR 0x22"

abbreviation bslash :: char where
  "bslash \<equiv> CHR 0x5C"

definition lower_hex :: "nat \<Rightarrow> char" where
  "lower_hex n = ''0123456789abcdef'' ! n"

definition quote_char :: "char \<Rightarrow> string" where
  "quote_char c =
     (let n = (of_char c :: nat) in
      if c = dquote \<or> c = bslash then [bslash, c]
      else if n \<ge> 32 \<and> n \<noteq> 127 then [c]
      else if n = 7 then [bslash, CHR ''a'']
      else if n = 8 then [bslash, CHR ''b'']
      else if n = 12 then [bslash, CHR ''f'']
      else if n = 10 then [bslash, CHR ''n'']
      else if n = 13 then [bslash, CHR ''r'']
      else if n = 9 then [bslash, CHR ''t'']
      else if n = 11 then [bslash, CHR ''v'']
      else [bslash, CHR ''x'', lower_hex (n div 16), lower_hex (n mod 16)])"

definition quoted :: "string \<Rightarrow> string" where
  "quoted s = dquote # concat (map quote_char s) @ [dquote]"

definition append_quote :: "string \<Rightarrow> string \<Rightarrow> string" where
  "append_quote bs s = bs @ quoted s"

definition append_uint :: "string \<Rightarrow> nat \<Rightarrow> string" where
  "append_uint bs n = bs @ itoa n"

record rename_file_options =
  rn_overwrite :: bool
  rn_ignore_if_exists :: bool

record delete_file_options =
  dl_recursive :: bool
  dl_ignore_if_not_exists :: bool

record create_file_options =
  cr_overwrite :: bool
  cr_ignore_if_exists :: bool

datatype document_change =
    RenameFile string string "rename_file_options option" "string option"
  | DeleteFile string "delete_file_options option"
  | CreateFile string "create_file_options option" "string option"
  | TextDocumentEdit string "nat option" "text_edit list"

definition new_text_document_edit :: "string \<Rightarrow> text_edit list \<Rightarrow> document_change" where
  "new_text_document_edit u edits = TextDocumentEdit u None edits"

definition append_rename_options :: "string \<Rightarrow> rename_file_options \<Rightarrow> string" where
  "append_rename_options bs ro =
     (let bs = bs @ ''{'';
          bs = (if rn_ignore_if_exists ro
            then (let bs = bs @ ''\"ignoreIfExists\":true'' in if rn_overwrite ro then bs @ '','' else bs) else bs);
          bs = (if rn_overwrite ro then bs @ ''\"overwrite\":true'' else bs)
      in bs @ ''}'')"

definition append_delete_options :: "string \<Rightarrow> delete_file_options \<Rightarrow> string" where
  "append_delete_options bs op =
     (let bs = bs @ ''{'';
          bs = (if dl_ignore_if_not_exists op
            then (let bs = bs @ ''\"ignoreIfNotExists\":true'' in if dl_recursive op then bs @ '','' else bs) else bs);
          bs = (if dl_recursive op then bs @ ''\"recursive\":true'' else bs)
      in bs @ ''}'')"

definition append_range :: "string \<Rightarrow> lsp_range \<Rightarrow> string" where
  "append_range bs r =
     (let bs = append_uint (bs @ ''{\"start\":{\"line\":'') (Line (RStart r));
          bs = append_uint (bs @ '',\"character\":'') (Character (RStart r));
          bs = append_uint (bs @ ''},\"end\":{\"line\":'') (Line (REnd r));
          bs = append_uint (bs @ '',\"character\":'') (Character (REnd r))
      in bs @ ''}}'')"

fun append_edits :: "string \<Rightarrow> bool \<Rightarrow> text_edit list \<Rightarrow> string" where
  "append_edits bs first [] = bs"
| "append_edits bs first (edit # edits) =
     (let bs = (if first then bs else bs @ '','');
          bs = append_quote (bs @ ''{\"newText\":'') (NewText edit);
          bs = append_range (bs @ '',\"range\":'') (EditRange edit)
      in append_edits (bs @ ''}'') False edits)"

definition append_rename_file :: "string \<Rightarrow> string \<Rightarrow> string \<Rightarrow> rename_file_options option \<Rightarrow> string" where
  "append_rename_file bs oldURI newURI options =
     (let bs = append_quote (bs @ ''{\"kind\":\"rename\",\"oldUri\":'') oldURI;
          bs = append_quote (bs @ '',\"newUri\":'') newURI;
          bs = (case options of
              Some ro \<Rightarrow> if rn_ignore_if_exists ro \<or> rn_overwrite ro
                then append_rename_options (bs @ '',\"options\":'') ro else bs
            | None \<Rightarrow> bs)
      in bs @ ''}'')"

definition append_delete_file :: "string \<Rightarrow> string \<Rightarrow> delete_file_options option \<Rightarrow> string" where
  "append_delete_file bs u options =
     (let bs = append_quote (bs @ ''{\"kind\":\"delete\",\"uri\":'') u;
          bs = (case options of Some op \<Rightarrow> append_delete_options (bs @ '',\"options\":'') op | None \<Rightarrow> bs)
      in bs @ ''}'')"

definition append_create_file :: "string \<Rightarrow> string \<Rightarrow> create_file_options option \<Rightarrow> string option \<Rightarrow> string" where
  "append_create_file bs u options annotation =
     (let bs = append_quote (bs @ ''{\"kind\":\"create\",\"uri\":'') u;
          bs = (case options of
              Some op \<Rightarrow>
                (let bs = bs @ '',\"options\":{'';
                     bs = (if cr_ignore_if_exists op
                       then (let bs = bs @ ''\"ignoreIfExists\":true'' in if cr_overwrite op then bs @ '','' else bs) else bs);
                     bs = (if cr_overwrite op then bs @ ''\"overwrite\":true'' else bs)
                 in bs @ ''}'')
            | None \<Rightarrow> bs);
          bs = (case annotation of Some a \<Rightarrow> append_quote (bs @ '',\"annotationId\":'') a | None \<Rightarrow> bs)
      in bs @ ''}'')"

definition append_text_document_edit :: "string \<Rightarrow> string \<Rightarrow> nat option \<Rightarrow> text_edit list \<Rightarrow> string" where
  "append_text_document_edit bs u version edits =
     (let bs = append_quote (bs @ ''{\"textDocument\":{\"uri\":'') u;
          bs = (case version of Some v \<Rightarrow> append_uint (bs @ '',\"version\":'') v | None \<Rightarrow> bs @ '',\"version\":null'');
          bs = bs @ ''},\"edits\":[''
      in append_edits bs True edits @ '']}'')"

text \<open>The method of the interface \<open>DocumentChange\<close>. The annotation of a \<open>RenameFile\<close> is not written.\<close>

fun append_change :: "string \<Rightarrow> document_change \<Rightarrow> string" where
  "append_change bs (RenameFile oldURI newURI options annotation) = append_rename_file bs oldURI newURI options"
| "append_change bs (DeleteFile u options) = append_delete_file bs u options"
| "append_change bs (CreateFile u options annotation) = append_create_file bs u options annotation"
| "append_change bs (TextDocumentEdit u version edits) = append_text_document_edit bs u version edits"

text \<open>\<open>ApplyEditParams\<close>: a label and the changes; \<open>append_changes l i\<close> writes those from the \<open>i\<close>-th of \<open>l\<close> on.\<close>

record apply_edit_params =
  ap_label :: string
  ap_changes :: "document_change list"

definition new_apply_edit_params :: "string \<Rightarrow> apply_edit_params" where
  "new_apply_edit_params label = \<lparr>ap_label = label, ap_changes = []\<rparr>"

definition with_changes :: "document_change list \<Rightarrow> apply_edit_params \<Rightarrow> apply_edit_params" where
  "with_changes changes e = e\<lparr>ap_changes := ap_changes e @ changes\<rparr>"

fun append_changes :: "nat \<Rightarrow> nat \<Rightarrow> string \<Rightarrow> document_change list \<Rightarrow> string" where
  "append_changes l i bs [] = bs"
| "append_changes l i bs (change # changes) =
     (let bs = append_change bs change;
          bs = (if int i < int l - 1 then bs @ '','' else bs)
      in append_changes l (Suc i) bs changes)"

definition marshal_apply_edit :: "apply_edit_params \<Rightarrow> string" where
  "marshal_apply_edit e =
     append_changes (length (ap_changes e)) 0
       (append_quote ''{\"label\":'' (ap_label e) @ '',\"edit\":{\"documentChanges\":['') (ap_changes e) @ '']}}''"

section \<open>Messages\<close>

datatype message_type = ErrorMessage | WarningMessage | InfoMessage | LogMessage

definition message_number :: "message_type \<Rightarrow> nat" where
  "message_number t = (case t of ErrorMessage \<Rightarrow> 1 | WarningMessage \<Rightarrow> 2 | InfoMessage \<Rightarrow> 3 | LogMessage \<Rightarrow> 4)"

definition append_message_type :: "string \<Rightarrow> message_type \<Rightarrow> string" where
  "append_message_type bs t = append_uint bs (message_number t)"

definition raw_message_params :: "message_type \<Rightarrow> string \<Rightarrow> string list \<Rightarrow> string" where
  "raw_message_params t msg actions =
     (let bs = append_message_type ''{\"type\":'' t;
          bs = append_quote (bs @ '',\"message\":'') msg;
          bs = (case actions of
              [] \<Rightarrow> bs
            | a # as \<Rightarrow>
                foldl (\<lambda>bs a. append_quote (bs @ '',{\"title\":'') a @ ''}'')
                  (append_quote (bs @ '',\"actions\":['' @ ''{\"title\":'') a @ ''}'') as @ '']'')
      in bs @ ''}'')"

definition raw_show_document_params :: "string \<Rightarrow> bool \<Rightarrow> string" where
  "raw_show_document_params u takeFocus =
     (let bs = append_quote ''{\"uri\":'' u;
          bs = (if takeFocus then bs @ '',\"takeFocus\":true'' else bs)
      in bs @ ''}'')"

section \<open>Reading JSON\<close>

text \<open>The strings of JSON, after the opening quotation mark, without the escape \<open>u\<close> (which \<open>AppendQuote\<close> does not
  write for the texts considered here); a control character in a string is an error, as is any other escape.\<close>

definition unescape :: "char \<Rightarrow> char option" where
  "unescape c =
     (if c = dquote \<or> c = bslash \<or> c = CHR ''/'' then Some c
      else if c = CHR ''b'' then Some (char_of (8 :: nat))
      else if c = CHR ''f'' then Some (char_of (12 :: nat))
      else if c = CHR ''n'' then Some (char_of (10 :: nat))
      else if c = CHR ''r'' then Some (char_of (13 :: nat))
      else if c = CHR ''t'' then Some (char_of (9 :: nat))
      else None)"

fun read_string :: "string \<Rightarrow> (string \<times> string) option" where
  "read_string [] = None"
| "read_string (c # cs) =
     (if c = dquote then Some ([], cs)
      else if c = bslash then
        (case cs of
           [] \<Rightarrow> None
         | e # cs \<Rightarrow> (case unescape e of None \<Rightarrow> None | Some d \<Rightarrow> map_option (map_prod ((#) d) id) (read_string cs)))
      else if (of_char c :: nat) < 32 then None
      else map_option (map_prod ((#) c) id) (read_string cs))"

lemma read_string_shorter: "read_string cs = Some (s, rest) \<Longrightarrow> length rest < length cs"
  by (induction cs arbitrary: s rest rule: read_string.induct)
    (fastforce split: if_splits list.splits option.splits)+

function lex_json :: "string \<Rightarrow> token list option" where
  "lex_json [] = Some []"
| "lex_json (c # cs) =
     (if c = CHR ''{'' then map_option ((#) ObjStart) (lex_json cs)
      else if c = CHR ''}'' then map_option ((#) ObjEnd) (lex_json cs)
      else if c = CHR ''['' then map_option ((#) ArrStart) (lex_json cs)
      else if c = CHR '']'' then map_option ((#) ArrEnd) (lex_json cs)
      else if c = CHR '','' then map_option ((#) Comma) (lex_json cs)
      else if c = dquote then
        (case read_string cs of
           None \<Rightarrow> None
         | Some (s, rest) \<Rightarrow>
             (case rest of
                [] \<Rightarrow> Some [Lit (AStr s)]
              | d # rest' \<Rightarrow> if d = CHR '':'' then map_option ((#) (Key s)) (lex_json rest')
                  else map_option ((#) (Lit (AStr s))) (lex_json rest)))
      else if is_digit c then
        map_option ((#) (Lit (ANum (c # takeWhile is_digit cs)))) (lex_json (dropWhile is_digit cs))
      else if has_prefix (c # cs) ''null'' then map_option ((#) (Lit ANull)) (lex_json (drop 3 cs))
      else if has_prefix (c # cs) ''true'' then map_option ((#) (Lit (ABool True))) (lex_json (drop 3 cs))
      else if has_prefix (c # cs) ''false'' then map_option ((#) (Lit (ABool False))) (lex_json (drop 4 cs))
      else None)"
  by pat_completeness auto
termination
  by (relation "measure length") (auto dest: read_string_shorter simp: length_dropWhile_le le_imp_less_Suc)

definition parse_text :: "string \<Rightarrow> aval option" where
  "parse_text s = Option.bind (lex_json s) parse_json"

section \<open>Values and their text\<close>

fun show_token :: "token \<Rightarrow> string" where
  "show_token ObjStart = ''{''"
| "show_token ObjEnd = ''}''"
| "show_token ArrStart = ''[''"
| "show_token ArrEnd = '']''"
| "show_token Comma = '',''"
| "show_token (Key s) = quoted s @ '':''"
| "show_token (Raw s) = s"
| "show_token (Lit ANull) = ''null''"
| "show_token (Lit (ABool b)) = (if b then ''true'' else ''false'')"
| "show_token (Lit (ANum n)) = n"
| "show_token (Lit (AStr s)) = quoted s"
| "show_token (Lit v) = []"

definition show_tokens :: "token list \<Rightarrow> string" where
  "show_tokens ts = concat (map show_token ts)"

text \<open>The characters that come back: \<open>AppendQuote\<close> writes the other ones with escapes that JSON does not have.\<close>

definition json_char :: "char \<Rightarrow> bool" where
  "json_char c \<longleftrightarrow> (let n = (of_char c :: nat) in n \<ge> 32 \<and> n \<noteq> 127 \<or> n \<in> {8, 9, 10, 12, 13})"

fun token_ok :: "token \<Rightarrow> bool" where
  "token_ok (Key s) = list_all json_char s"
| "token_ok (Lit (AStr s)) = list_all json_char s"
| "token_ok t = True"

text \<open>Tokens that can be written: numbers are digits, other literals are JSON's, and no literal follows another.\<close>

fun token_shaped :: "token \<Rightarrow> bool" where
  "token_shaped (Lit (ANum n)) \<longleftrightarrow> n \<noteq> [] \<and> list_all is_digit n"
| "token_shaped (Lit v) \<longleftrightarrow> (case v of ANull \<Rightarrow> True | ABool b \<Rightarrow> True | AStr s \<Rightarrow> True | _ \<Rightarrow> False)"
| "token_shaped (Raw s) = False"
| "token_shaped t = True"

definition not_both_literals :: "token \<Rightarrow> token \<Rightarrow> bool" where
  "not_both_literals a b \<longleftrightarrow> \<not> ((\<exists>v. a = Lit v) \<and> (\<exists>v. b = Lit v))"

lemma read_quoted_char:
  "read_string (quote_char c @ rest) = (if json_char c then map_option (map_prod ((#) c) id) (read_string rest) else None)"
proof -
  consider "(of_char c :: nat) \<ge> 32" "(of_char c :: nat) \<noteq> 127" | "(of_char c :: nat) \<in> {7, 8, 9, 10, 11, 12, 13}"
    | "(of_char c :: nat) = 127 \<or> (of_char c :: nat) < 32 \<and> (of_char c :: nat) \<notin> {7, 8, 9, 10, 11, 12, 13}"
    by linarith
  then show ?thesis
  proof cases
    case 1
    then show ?thesis by (auto simp: quote_char_def json_char_def Let_def unescape_def)
  next
    case 2
    have k: "char_of n = c" if "(of_char c :: nat) = n" for n using that by auto
    from 2 show ?thesis
      by (auto simp: quote_char_def json_char_def Let_def unescape_def k)
  next
    case 3
    then have "c \<noteq> dquote" "c \<noteq> bslash" "c \<noteq> CHR ''x''" by auto
    with 3 show ?thesis by (auto simp: quote_char_def json_char_def Let_def unescape_def)
  qed
qed

lemma read_quoted:
  "read_string (concat (map quote_char s) @ dquote # rest) = (if list_all json_char s then Some (s, rest) else None)"
  by (induction s) (auto simp: read_quoted_char)

lemma quoted_append: "quoted s @ rest = dquote # concat (map quote_char s) @ dquote # rest"
  by (simp add: quoted_def)

lemma dquote_simps [simp]: "\<not> is_digit dquote"
  by (simp add: is_digit_def)

text \<open>Where a text starts that follows a literal.\<close>

lemma show_tokens_next:
  assumes "list_all token_shaped ts" "\<not> (\<exists>v us. ts = Lit v # us)" "ts \<noteq> []"
  shows "\<exists>c cs. show_tokens ts = c # cs \<and> \<not> is_digit c \<and> c \<noteq> CHR '':''"
proof -
  obtain t us where ts: "ts = t # us" using assms(3) by (cases ts) auto
  with assms show ?thesis
    by (cases t) (auto simp: show_tokens_def quoted_def is_digit_def)
qed

lemma digit_not_special:
  "is_digit c \<Longrightarrow> c \<notin> {CHR ''{'', CHR ''}'', CHR ''['', CHR '']'', CHR '','', dquote}"
  by (auto simp: is_digit_def)

lemma lex_number:
  assumes "n \<noteq> []" "list_all is_digit n" "rest = [] \<or> \<not> is_digit (hd rest)"
  shows "lex_json (n @ rest) = map_option ((#) (Lit (ANum n))) (lex_json rest)"
proof -
  obtain c cs where n: "n = c # cs" using assms(1) by (cases n) auto
  have "takeWhile is_digit (cs @ rest) = cs" "dropWhile is_digit (cs @ rest) = rest"
    using assms(2,3) n by (cases rest; auto simp: list_all_iff)+
  moreover have "is_digit c" using assms(2) n by simp
  ultimately show ?thesis using n digit_not_special[of c] by simp
qed

lemma show_tokens_Cons: "show_tokens (t # ts) = show_token t @ show_tokens ts"
  by (simp add: show_tokens_def)

lemma show_tokens_Nil: "show_tokens [] = []"
  by (simp add: show_tokens_def)

lemma show_tokens_append: "show_tokens (ts @ us) = show_tokens ts @ show_tokens us"
  by (simp add: show_tokens_def)

lemma lex_show:
  "list_all token_shaped ts \<Longrightarrow> successively not_both_literals ts
   \<Longrightarrow> lex_json (show_tokens ts) = (if list_all token_ok ts then Some ts else None)"
proof (induction ts)
  case (Cons t ts)
  have IH: "lex_json (show_tokens ts) = (if list_all token_ok ts then Some ts else None)"
    using Cons by (cases ts) auto
  show ?case
  proof (cases t)
    case (Key k)
    then show ?thesis using IH by (simp add: show_tokens_Cons quoted_append read_quoted)
  next
    case (Lit v)
    have n: "ts = [] \<or> (\<exists>c cs. show_tokens ts = c # cs \<and> \<not> is_digit c \<and> c \<noteq> CHR '':'')"
      using Cons.prems Lit show_tokens_next[of ts] by (cases ts) (auto simp: not_both_literals_def)
    show ?thesis
    proof (cases v)
      case (AStr x)
      then show ?thesis using IH n Lit by (auto simp: show_tokens_Cons show_tokens_Nil quoted_append read_quoted)
    next
      case (ANum x)
      then have "lex_json (x @ show_tokens ts) = map_option ((#) (Lit (ANum x))) (lex_json (show_tokens ts))"
        using Cons.prems Lit n by (intro lex_number) (auto simp: show_tokens_def)
      then show ?thesis using IH Lit ANum by (simp add: show_tokens_Cons)
    qed (use Cons.prems IH Lit in \<open>auto simp: show_tokens_Cons is_digit_def\<close>)
  qed (use Cons.prems IH in \<open>auto simp: show_tokens_Cons\<close>)
qed (simp add: show_tokens_def)

section \<open>Edits as values\<close>

text \<open>The text of a value without spaces, and the values that the protocol has for edits.\<close>

primrec value_tokens :: "aval \<Rightarrow> token list" where
  "value_tokens ANull = [Lit ANull]"
| "value_tokens (ABool b) = [Lit (ABool b)]"
| "value_tokens (ANum s) = [Lit (ANum s)]"
| "value_tokens (AStr s) = [Lit (AStr s)]"
| "value_tokens (AVar s) = []"
| "value_tokens (AArr vs) = ArrStart # separated (map value_tokens vs) @ [ArrEnd]"
| "value_tokens (ASet vs) = []"
| "value_tokens (AObj kvs) = ObjStart # separated (map (\<lambda>(k, ts). Key (case k of AStr s \<Rightarrow> s | _ \<Rightarrow> []) # ts)
     (map (map_prod id value_tokens) kvs)) @ [ObjEnd]"
| "value_tokens (ARef vs) = []"

text \<open>A value of JSON, with digits as numbers.\<close>

primrec plain_json :: "aval \<Rightarrow> bool" where
  "plain_json ANull = True"
| "plain_json (ABool b) = True"
| "plain_json (ANum s) = (s \<noteq> [] \<and> list_all is_digit s)"
| "plain_json (AStr s) = True"
| "plain_json (AVar s) = False"
| "plain_json (AArr vs) = list_all (\<lambda>b. b) (map plain_json vs)"
| "plain_json (ASet vs) = False"
| "plain_json (AObj kvs) = (list_all (\<lambda>(k, b). b \<and> (\<exists>s. k = AStr s)) (map (map_prod id plain_json) kvs)
     \<and> distinct (map fst kvs))"
| "plain_json (ARef vs) = False"

text \<open>All strings in it come back.\<close>

primrec json_strings :: "aval \<Rightarrow> bool" where
  "json_strings ANull = True"
| "json_strings (ABool b) = True"
| "json_strings (ANum s) = True"
| "json_strings (AStr s) = list_all json_char s"
| "json_strings (AVar s) = True"
| "json_strings (AArr vs) = list_all (\<lambda>b. b) (map json_strings vs)"
| "json_strings (ASet vs) = True"
| "json_strings (AObj kvs) = list_all (\<lambda>(k, b). b \<and> (case k of AStr s \<Rightarrow> list_all json_char s | _ \<Rightarrow> True))
     (map (map_prod id json_strings) kvs)"
| "json_strings (ARef vs) = True"

lemma successively_separated:
  assumes "\<forall>ts\<in>set tss. ts \<noteq> [] \<and> successively not_both_literals ts" "\<And>v. a \<noteq> Lit v" "\<And>v. b \<noteq> Lit v"
  shows "successively not_both_literals (a # separated tss @ [b])"
proof -
  have one: "successively not_both_literals (x # ts @ [y])"
    if "successively not_both_literals ts" "ts \<noteq> []" "\<And>v. x \<noteq> Lit v" "\<And>v. y \<noteq> Lit v" for x y ts
    using that by (auto simp: successively_append_iff successively_Cons not_both_literals_def)
  have "successively not_both_literals (x # separated tss @ [b])" if "\<And>v. x \<noteq> Lit v" for x
    using assms(1) that
  proof (induction tss arbitrary: x)
    case Nil
    then show ?case by (simp add: not_both_literals_def)
  next
    case (Cons ts tss)
    show ?case
    proof (cases "tss = []")
      case True
      then show ?thesis using Cons.prems assms(3) one[of ts x b] by simp
    next
      case False
      have "successively not_both_literals (Comma # separated tss @ [b])" using Cons by auto
      moreover have "successively not_both_literals (x # ts)"
        using Cons.prems by (auto simp: successively_Cons not_both_literals_def)
      ultimately show ?thesis
        using False Cons.prems by (auto simp: separated_Cons successively_append_iff successively_Cons not_both_literals_def)
    qed
  qed
  then show ?thesis using assms(2) by blast
qed

lemma ball_separated: "P Comma \<Longrightarrow> (\<forall>t\<in>set (separated tss). P t) \<longleftrightarrow> (\<forall>ts\<in>set tss. \<forall>t\<in>set ts. P t)"
  by (induction tss) (auto simp: separated_Cons)

lemma plain_json_tokens:
  "plain_json v \<Longrightarrow> value_tokens v \<noteq> [] \<and> list_all token_shaped (value_tokens v)
     \<and> successively not_both_literals (value_tokens v)
     \<and> (list_all token_ok (value_tokens v) \<longleftrightarrow> json_strings v) \<and> json (value_tokens v) v"
proof (induction v)
  case (AArr vs)
  then have ok: "value_tokens v \<noteq> [] \<and> list_all token_shaped (value_tokens v)
     \<and> successively not_both_literals (value_tokens v)
     \<and> (list_all token_ok (value_tokens v) \<longleftrightarrow> json_strings v) \<and> json (value_tokens v) v" if "v \<in> set vs" for v
    using that by (simp add: list_all_iff)
  have "successively not_both_literals (value_tokens (AArr vs))"
    unfolding value_tokens.simps by (rule successively_separated) (use ok in force)+
  moreover have "json (value_tokens (AArr vs)) (AArr vs)"
    using ok by (auto intro!: json_arr simp: list_all2_conv_all_nth)
  ultimately show ?case using ok by (simp add: list_all_iff ball_separated)
next
  case (AObj kvs)
  have ok: "(\<exists>s. k = AStr s) \<and> value_tokens v \<noteq> [] \<and> list_all token_shaped (value_tokens v)
     \<and> successively not_both_literals (value_tokens v)
     \<and> (list_all token_ok (value_tokens v) \<longleftrightarrow> json_strings v) \<and> json (value_tokens v) v" if "(k, v) \<in> set kvs" for k v
    using that AObj by (fastforce simp: list_all_iff)
  define name where "name k = (case k of AStr s \<Rightarrow> s | _ \<Rightarrow> [])" for k
  define ms where "ms = map (\<lambda>(k, v). (name k, value_tokens v)) kvs"
  have t: "value_tokens (AObj kvs) = ObjStart # separated (map member_start ms) @ [ObjEnd]"
    by (simp add: ms_def comp_def split_beta name_def)
  have n: "AStr (name k) = k" if "(k, v) \<in> set kvs" for k v using ok[OF that] by (auto simp: name_def)
  then have k: "map (map_prod AStr id) (map (map_prod name id) kvs) = kvs"
    by (auto simp: n intro!: map_idI)
  have "inj_on name (set (map fst kvs))" unfolding inj_on_def using n by (metis imageE list.set_map prod.collapse)
  moreover have "distinct (map fst kvs)" using AObj.prems by simp
  ultimately have "distinct (map name (map fst kvs))" unfolding distinct_map[of name] by blast
  then have d: "distinct (map fst (map (map_prod name id) kvs))" by (simp add: comp_def)
  have j: "json (value_tokens (AObj kvs)) (AObj (map (map_prod AStr id) (map (map_prod name id) kvs)))"
    unfolding t
  proof (rule json_obj)
    show "list_all2 (\<lambda>m kv. fst m = fst kv \<and> json (snd m) (snd kv)) ms (map (map_prod name id) kvs)"
      unfolding ms_def list.rel_map by (rule list.rel_refl_strong) (use ok in auto)
  qed (rule d)
  have "value_tokens (AObj kvs) \<noteq> []" by simp
  moreover note j[unfolded k]
  moreover have "successively not_both_literals (value_tokens (AObj kvs))"
    unfolding t using ok
    by (intro successively_separated) (auto simp: ms_def successively_Cons not_both_literals_def)
  moreover have "list_all token_shaped (value_tokens (AObj kvs))"
    unfolding t using ok by (auto simp: list_all_iff ball_separated ms_def)
  moreover have "list_all token_ok (value_tokens (AObj kvs)) = json_strings (AObj kvs)"
  proof -
    have "list_all token_ok (value_tokens (AObj kvs))
        \<longleftrightarrow> (\<forall>p\<in>set kvs. list_all json_char (name (fst p)) \<and> list_all token_ok (value_tokens (snd p)))"
      unfolding t by (simp add: list_all_iff ball_separated ms_def split_beta)
    also have "\<dots> \<longleftrightarrow> (\<forall>p\<in>set kvs. (case fst p of AStr s \<Rightarrow> list_all json_char s | _ \<Rightarrow> True) \<and> json_strings (snd p))"
      using ok by (intro ball_cong refl) (force simp: name_def split: aval.split)
    finally show ?thesis by (simp add: list_all_iff split_beta conj_commute)
  qed
  ultimately show ?case by blast
qed (auto simp: json_lit)

lemma parse_plain_json:
  assumes "plain_json v"
  shows "parse_text (show_tokens (value_tokens v)) = (if json_strings v then Some v else None)"
  using plain_json_tokens[OF assms] by (simp add: parse_text_def lex_show json_parse)

definition object :: "(string \<times> aval) list \<Rightarrow> aval" where
  "object kvs = AObj (map (map_prod AStr id) kvs)"

definition flag :: "string \<Rightarrow> bool \<Rightarrow> (string \<times> aval) list" where
  "flag k b = (if b then [(k, ABool True)] else [])"

definition position_value :: "lsp_position \<Rightarrow> aval" where
  "position_value p = object [(''line'', ANum (itoa (Line p))), (''character'', ANum (itoa (Character p)))]"

definition range_value :: "lsp_range \<Rightarrow> aval" where
  "range_value r = object [(''start'', position_value (RStart r)), (''end'', position_value (REnd r))]"

definition text_edit_value :: "text_edit \<Rightarrow> aval" where
  "text_edit_value e = object [(''newText'', AStr (NewText e)), (''range'', range_value (EditRange e))]"

fun change_value :: "document_change \<Rightarrow> aval" where
  "change_value (RenameFile oldURI newURI options annotation) = object
     ([(''kind'', AStr ''rename''), (''oldUri'', AStr oldURI), (''newUri'', AStr newURI)]
      @ (case options of
           Some ro \<Rightarrow> if rn_ignore_if_exists ro \<or> rn_overwrite ro
             then [(''options'', object (flag ''ignoreIfExists'' (rn_ignore_if_exists ro) @ flag ''overwrite'' (rn_overwrite ro)))]
             else []
         | None \<Rightarrow> []))"
| "change_value (DeleteFile u options) = object
     ([(''kind'', AStr ''delete''), (''uri'', AStr u)]
      @ (case options of
           Some op \<Rightarrow> [(''options'', object (flag ''ignoreIfNotExists'' (dl_ignore_if_not_exists op)
             @ flag ''recursive'' (dl_recursive op)))]
         | None \<Rightarrow> []))"
| "change_value (CreateFile u options annotation) = object
     ([(''kind'', AStr ''create''), (''uri'', AStr u)]
      @ (case options of
           Some op \<Rightarrow> [(''options'', object (flag ''ignoreIfExists'' (cr_ignore_if_exists op)
             @ flag ''overwrite'' (cr_overwrite op)))]
         | None \<Rightarrow> [])
      @ (case annotation of Some a \<Rightarrow> [(''annotationId'', AStr a)] | None \<Rightarrow> []))"
| "change_value (TextDocumentEdit u version edits) = object
     [(''textDocument'', object [(''uri'', AStr u), (''version'', case version of Some v \<Rightarrow> ANum (itoa v) | None \<Rightarrow> ANull)]),
      (''edits'', AArr (map text_edit_value edits))]"

definition apply_edit_value :: "apply_edit_params \<Rightarrow> aval" where
  "apply_edit_value e = object
     [(''label'', AStr (ap_label e)), (''edit'', object [(''documentChanges'', AArr (map change_value (ap_changes e)))])]"

abbreviation value_text :: "aval \<Rightarrow> string" where
  "value_text v \<equiv> show_tokens (value_tokens v)"

lemma key_texts:
  "quoted ''line'' = ''\"line\"''" "quoted ''character'' = ''\"character\"''" "quoted ''start'' = ''\"start\"''"
  "quoted ''end'' = ''\"end\"''" "quoted ''newText'' = ''\"newText\"''" "quoted ''range'' = ''\"range\"''"
  "quoted ''kind'' = ''\"kind\"''" "quoted ''rename'' = ''\"rename\"''" "quoted ''oldUri'' = ''\"oldUri\"''"
  "quoted ''newUri'' = ''\"newUri\"''" "quoted ''options'' = ''\"options\"''" "quoted ''overwrite'' = ''\"overwrite\"''"
  "quoted ''ignoreIfExists'' = ''\"ignoreIfExists\"''" "quoted ''ignoreIfNotExists'' = ''\"ignoreIfNotExists\"''"
  "quoted ''recursive'' = ''\"recursive\"''" "quoted ''delete'' = ''\"delete\"''" "quoted ''create'' = ''\"create\"''"
  "quoted ''uri'' = ''\"uri\"''" "quoted ''annotationId'' = ''\"annotationId\"''" "quoted ''edits'' = ''\"edits\"''"
  "quoted ''textDocument'' = ''\"textDocument\"''" "quoted ''version'' = ''\"version\"''" "quoted ''label'' = ''\"label\"''"
  "quoted ''edit'' = ''\"edit\"''" "quoted ''documentChanges'' = ''\"documentChanges\"''"
  by code_simp+

lemma value_tokens_object:
  "value_tokens (object kvs) = ObjStart # separated (map (\<lambda>(k, v). Key k # value_tokens v) kvs) @ [ObjEnd]"
  by (simp add: object_def comp_def case_prod_unfold)

lemmas text_simps = show_tokens_Cons show_tokens_Nil show_tokens_append key_texts value_tokens_object separated_Cons
  append_quote_def append_uint_def Let_def

lemma append_range_text: "append_range bs r = bs @ value_text (range_value r)"
  by (simp add: append_range_def range_value_def position_value_def text_simps)

lemma append_rename_options_text:
  "append_rename_options bs ro = bs @ value_text (object (flag ''ignoreIfExists'' (rn_ignore_if_exists ro)
     @ flag ''overwrite'' (rn_overwrite ro)))"
  by (simp add: append_rename_options_def flag_def text_simps)

lemma append_delete_options_text:
  "append_delete_options bs op = bs @ value_text (object (flag ''ignoreIfNotExists'' (dl_ignore_if_not_exists op)
     @ flag ''recursive'' (dl_recursive op)))"
  by (simp add: append_delete_options_def flag_def text_simps)

lemma append_edits_text:
  "append_edits bs first edits = bs @ (if first then show_tokens (separated (map (\<lambda>e. value_tokens (text_edit_value e)) edits))
     else concat (map (\<lambda>e. CHR '','' # value_text (text_edit_value e)) edits))"
proof (induction edits arbitrary: bs first)
  case (Cons e edits)
  have "show_tokens (separated (map (\<lambda>e. value_tokens (text_edit_value e)) (e # edits)))
      = value_text (text_edit_value e) @ concat (map (\<lambda>e. CHR '','' # value_text (text_edit_value e)) edits)"
    by (induction edits arbitrary: e) (simp_all add: text_simps)
  with Cons show ?case
    by (simp add: append_range_text text_edit_value_def text_simps)
qed (simp add: text_simps)

lemma append_change_text: "append_change bs c = bs @ value_text (change_value c)"
proof (cases c)
  case (RenameFile oldURI newURI options annotation)
  then show ?thesis
    by (cases options) (simp_all add: append_rename_file_def append_rename_options_text text_simps)
next
  case (DeleteFile u options)
  then show ?thesis
    by (cases options) (simp_all add: append_delete_file_def append_delete_options_text text_simps)
next
  case (CreateFile u options annotation)
  then show ?thesis
    by (cases options; cases annotation) (simp_all add: append_create_file_def text_simps flag_def)
next
  case (TextDocumentEdit u version edits)
  then show ?thesis
    by (cases version) (simp_all add: append_text_document_edit_def append_edits_text text_simps comp_def)
qed

lemma append_changes_text:
  "i + length cs = l \<Longrightarrow> append_changes l i bs cs = bs @ show_tokens (separated (map (\<lambda>c. value_tokens (change_value c)) cs))"
proof (induction cs arbitrary: i bs)
  case (Cons c cs)
  then have "int i < int l - 1 \<longleftrightarrow> cs \<noteq> []" by (cases cs) auto
  with Cons show ?case by (simp add: append_change_text text_simps)
qed (simp add: text_simps)

lemma marshal_apply_edit_text: "marshal_apply_edit e = value_text (apply_edit_value e)"
  by (simp add: marshal_apply_edit_def append_changes_text apply_edit_value_def text_simps comp_def)

section \<open>What is written is read back\<close>

lemma plain_object: "plain_json (object kvs) \<longleftrightarrow> list_all (\<lambda>(k, v). plain_json v) kvs \<and> distinct (map fst kvs)"
proof -
  have "distinct (map fst (map (map_prod AStr id) kvs)) \<longleftrightarrow> distinct (map AStr (map fst kvs))"
    by (simp add: comp_def)
  also have "\<dots> \<longleftrightarrow> distinct (map fst kvs)" unfolding distinct_map[of AStr] by (simp add: inj_on_def)
  finally show ?thesis by (auto simp: object_def list_all_iff)
qed

lemma strings_object: "json_strings (object kvs) \<longleftrightarrow> list_all (\<lambda>(k, v). list_all json_char k \<and> json_strings v) kvs"
  by (auto simp: object_def list_all_iff split_beta)

lemma key_chars [simp]:
  "json_char CHR ''a''" "json_char CHR ''b''" "json_char CHR ''c''" "json_char CHR ''d''" "json_char CHR ''e''" "json_char CHR ''f''"
  "json_char CHR ''g''" "json_char CHR ''h''" "json_char CHR ''i''" "json_char CHR ''k''" "json_char CHR ''l''" "json_char CHR ''m''"
  "json_char CHR ''n''" "json_char CHR ''o''" "json_char CHR ''p''" "json_char CHR ''r''" "json_char CHR ''s''" "json_char CHR ''t''"
  "json_char CHR ''u''" "json_char CHR ''v''" "json_char CHR ''w''" "json_char CHR ''x''" "json_char CHR ''y''" "json_char CHR ''E''"
  "json_char CHR ''I''" "json_char CHR ''N''" "json_char CHR ''T''" "json_char CHR ''U''" "json_char CHR ''D''" "json_char CHR ''F''" "json_char CHR ''C''"
  by code_simp+

lemma plain_itoa [simp]: "list_all is_digit (itoa n)"
  by (auto simp: list_all_iff dest: itoa_digits)

text \<open>The strings that a change and an edit bring in.\<close>

fun change_strings :: "document_change \<Rightarrow> string list" where
  "change_strings (RenameFile oldURI newURI options annotation) = [oldURI, newURI]"
| "change_strings (DeleteFile u options) = [u]"
| "change_strings (CreateFile u options annotation) = u # (case annotation of Some a \<Rightarrow> [a] | None \<Rightarrow> [])"
| "change_strings (TextDocumentEdit u version edits) = u # map NewText edits"

definition edit_strings :: "apply_edit_params \<Rightarrow> string list" where
  "edit_strings e = ap_label e # concat (map change_strings (ap_changes e))"

lemma text_edit_plain: "plain_json (text_edit_value e)"
  by (simp add: text_edit_value_def range_value_def position_value_def plain_object)

lemma text_edit_strings: "json_strings (text_edit_value e) \<longleftrightarrow> list_all json_char (NewText e)"
  by (simp add: text_edit_value_def range_value_def position_value_def strings_object)

lemma change_plain: "plain_json (change_value c)"
proof (cases c)
  case (TextDocumentEdit u version edits)
  then show ?thesis
    by (cases version) (auto simp: plain_object text_edit_plain list_all_iff[of "\<lambda>b. b"])
qed (auto simp: plain_object flag_def split: option.split)

lemma change_strings_json: "json_strings (change_value c) \<longleftrightarrow> list_all (list_all json_char) (change_strings c)"
proof (cases c)
  case (TextDocumentEdit u version edits)
  then show ?thesis
    by (cases version) (auto simp: strings_object text_edit_strings list_all_iff[of "\<lambda>b. b"] list_all_iff[of "list_all json_char"])
qed (auto simp: strings_object flag_def split: option.split)


text \<open>The same for messages and documents to show.\<close>

definition message_value :: "message_type \<Rightarrow> string \<Rightarrow> string list \<Rightarrow> aval" where
  "message_value t msg actions = object
     ([(''type'', ANum (itoa (message_number t))), (''message'', AStr msg)]
      @ (if actions = [] then [] else [(''actions'', AArr (map (\<lambda>a. object [(''title'', AStr a)]) actions))]))"

definition show_document_value :: "string \<Rightarrow> bool \<Rightarrow> aval" where
  "show_document_value u takeFocus = object ((''uri'', AStr u) # flag ''takeFocus'' takeFocus)"

lemma message_key_texts:
  "quoted ''type'' = ''\"type\"''" "quoted ''message'' = ''\"message\"''" "quoted ''actions'' = ''\"actions\"''"
  "quoted ''title'' = ''\"title\"''" "quoted ''takeFocus'' = ''\"takeFocus\"''"
  by code_simp+

lemma more_actions_text:
  "foldl (\<lambda>bs a. append_quote (bs @ '',{\"title\":'') a @ ''}'') bs as =
     bs @ concat (map (\<lambda>a. CHR '','' # value_text (object [(''title'', AStr a)])) as)"
  by (induction as arbitrary: bs) (simp_all add: text_simps message_key_texts)

lemma titles_text:
  "show_tokens (separated (map (\<lambda>a. value_tokens (object [(''title'', AStr a)])) (a # as)))
     = value_text (object [(''title'', AStr a)]) @ concat (map (\<lambda>a. CHR '','' # value_text (object [(''title'', AStr a)])) as)"
  by (induction as arbitrary: a) (simp_all add: text_simps)

lemma raw_message_params_text: "raw_message_params t msg actions = value_text (message_value t msg actions)"
proof (cases actions)
  case Nil
  then show ?thesis
    by (simp add: raw_message_params_def message_value_def append_message_type_def text_simps message_key_texts)
next
  case (Cons a as)
  have "raw_message_params t msg (a # as) = ''{\"type\":'' @ itoa (message_number t) @ '',\"message\":'' @ quoted msg
      @ '',\"actions\":['' @ value_text (object [(''title'', AStr a)])
      @ concat (map (\<lambda>a. CHR '','' # value_text (object [(''title'', AStr a)])) as) @ '']}''"
    unfolding raw_message_params_def list.case more_actions_text
    by (simp add: append_message_type_def text_simps message_key_texts)
  moreover have "value_text (message_value t msg (a # as)) = ''{\"type\":'' @ itoa (message_number t) @ '',\"message\":'' @ quoted msg
      @ '',\"actions\":['' @ show_tokens (separated (map (\<lambda>a. value_tokens (object [(''title'', AStr a)])) (a # as))) @ '']}''"
    by (simp add: message_value_def value_tokens_object[of "_ # _ # _"] text_simps message_key_texts comp_def del: list.map)
      (simp add: text_simps message_key_texts comp_def)
  ultimately show ?thesis unfolding Cons titles_text by simp
qed

lemma raw_show_document_params_text: "raw_show_document_params u f = value_text (show_document_value u f)"
  by (simp add: raw_show_document_params_def show_document_value_def flag_def text_simps message_key_texts)

lemma messages_read_back:
  "parse_text (raw_message_params t msg actions) =
     (if list_all (list_all json_char) (msg # actions) then Some (message_value t msg actions) else None)"
  "parse_text (raw_show_document_params u f) = (if list_all json_char u then Some (show_document_value u f) else None)"
proof -
  have "plain_json (message_value t msg actions)"
    by (auto simp: message_value_def plain_object list_all_iff[of "\<lambda>b. b"])
  moreover have "json_strings (message_value t msg actions) \<longleftrightarrow> list_all (list_all json_char) (msg # actions)"
    by (auto simp: message_value_def strings_object list_all_iff[of "\<lambda>b. b"] list_all_iff[of "list_all json_char"])
  ultimately show "parse_text (raw_message_params t msg actions) =
     (if list_all (list_all json_char) (msg # actions) then Some (message_value t msg actions) else None)"
    unfolding raw_message_params_text by (simp add: parse_plain_json)
  have "plain_json (show_document_value u f)" "json_strings (show_document_value u f) \<longleftrightarrow> list_all json_char u"
    by (auto simp: show_document_value_def plain_object strings_object flag_def)
  then show "parse_text (raw_show_document_params u f) = (if list_all json_char u then Some (show_document_value u f) else None)"
    unfolding raw_show_document_params_text by (simp add: parse_plain_json)
qed

end
