(* ===== verification/Lsp_Eval.thy ===== *)
theory Lsp_Eval
  imports Lsp_Router Lsp_Edits Config_Object "HOL-Library.Sublist"
begin

text \<open>
  \<open>internal/lsp/eval.go\<close>, the prompt for an input file in \<open>internal/lsp/server.go\<close>, and the selection of tests
  in \<open>internal/lsp/server_testing.go\<close>: the evaluation of a rule or package of the workspace.

  Compiling, evaluating and the analysis of dependencies are OPA's and are fields of \<open>eval_env\<close>, as are
  the text layer of JSON and the client's answers, which may depend on all that was shown before. What the
  evaluation prints is the list of events that it reports to the hook. Logging is left out; a panic is
  \<^term>\<open>None\<close>.
\<close>

section \<open>Printed output\<close>

type_synonym print_output = "(string, (nat, string list) gomap) gomap"

definition print_file :: "string \<Rightarrow> string \<Rightarrow> string" where
  "print_file base file = (if base \<noteq> '''' then ensure_suffix base ''/'' @ file else file)"

definition hook_print :: "string \<Rightarrow> string \<times> nat \<times> string \<Rightarrow> print_output \<Rightarrow> print_output" where
  "hook_print base ev output =
     (case ev of (file, row, msg) \<Rightarrow>
        let filename = print_file base file;
            output = (if map_get output filename = None then map_set output filename [] else output);
            rows = map_get_or output filename []
        in map_set output filename (map_set rows row (map_get_or rows row [] @ [msg])))"

definition printed :: "string \<Rightarrow> (string \<times> nat \<times> string) list \<Rightarrow> print_output" where
  "printed base events = fold (hook_print base) events []"

section \<open>The skeleton of an input\<close>

text \<open>One reference, as the keys of its path and its last key. \<open>node\<close> points into the tree and stays where it is
  when the value at a key is no object.\<close>

fun skeleton_add :: "string list \<Rightarrow> string \<Rightarrow> (string, gval) gomap \<Rightarrow> (string, gval) gomap" where
  "skeleton_add [] leaf node =
     (if map_get node leaf = None then map_set node leaf (GStr ''changeme'') else node)"
| "skeleton_add (key # keys) leaf node =
     (case map_get node key of
        None \<Rightarrow> map_set node key (GMap (skeleton_add keys leaf []))
      | Some (GMap child) \<Rightarrow> map_set node key (GMap (skeleton_add keys leaf child))
      | Some _ \<Rightarrow> skeleton_add keys leaf node)"

definition add_ref :: "(aval \<Rightarrow> string) \<Rightarrow> aval list \<Rightarrow> (string, gval) gomap \<Rightarrow> (string, gval) gomap" where
  "add_ref str ref root =
     (let keys = map (\<lambda>t. trim_byte (str t) CHR 0x22) (tl ref) in skeleton_add (butlast keys) (last keys) root)"

definition input_refs :: "aval list list \<Rightarrow> aval list list" where
  "input_refs refs = filter_slice refs (\<lambda>ref. has_prefix ref [AVar ''input''] \<and> length ref > 1)"

definition input_skeleton_from_rule :: "(aval \<Rightarrow> string) \<Rightarrow> string + aval list list \<Rightarrow> string + aval list list
    \<Rightarrow> (string, gval) gomap" where
  "input_skeleton_from_rule str base head_base =
     (case base of
        Inl e \<Rightarrow> []
      | Inr refs \<Rightarrow>
          (case head_base of
             Inl e \<Rightarrow> []
           | Inr headRefs \<Rightarrow> fold (add_ref str) (input_refs (refs @ headRefs)) []))"

section \<open>Bundles and arguments of an evaluation\<close>

text \<open>A module of the workspace bundle has its URI, its path and what was parsed.\<close>

datatype ('r, 'd) eval_bundle =
    DataBundle 'd
  | WorkspaceBundle "(string \<times> string \<times> 'r rego_module) list"
  | RegalBundle
  | InternalBundle "(string \<times> gval) list" "(string \<times> gval) list" capabilities_config

record ('y, 'r, 'd) rego_args =
  ra_query :: 'y
  ra_print_base :: string
  ra_bundles :: "(string \<times> ('r, 'd) eval_bundle) list"
  ra_resolvers :: "(aval list \<times> aval) list"

text \<open>\<open>PrintHook\<close> is the base of file names. The compiler gives the modules with the rules it has resolved, of the
  type \<open>'c\<close>; values of results are of the type \<open>'v\<close>.\<close>

record ('q, 'st, 'r, 'g, 'b, 'd, 'p, 'x, 'i, 'y, 'e, 't, 'c, 'v) eval_env =
  ee_server :: "('q, 'st, 'r, 'g, 'b, 'd) server_env"
  ee_router :: "('p, 'x, 'i) router_env"
  ee_queries :: "('y, 'e, 't, 'p) query_env"
  ee_parse_body :: "string \<Rightarrow> 'y option"
  ee_package :: "'r rego_module \<Rightarrow> string"
  ee_comments :: "'r rego_module \<Rightarrow> string list"
  ee_has_roots :: "'d \<Rightarrow> bool"
  ee_resolvers :: "(aval list \<times> aval) list"
  ee_this_version :: capabilities_config
  ee_config_json :: "config \<Rightarrow> (string, gval) gomap"
  ee_eval :: "('y, 'r, 'd) rego_args \<Rightarrow> aval option
    \<Rightarrow> (string \<times> nat \<times> string) list \<times> (string + (string, 'v) gomap list)"
  ee_rule_heads :: "string \<Rightarrow> string + (string, ast_location list) gomap"
  ee_go_rule_heads :: "'x \<Rightarrow> string + (string, ast_location list) gomap"
  ee_compile :: "(string, 'r rego_module) gomap \<Rightarrow> (string, 'c list) gomap"
  ee_rule_name :: "'c \<Rightarrow> string"
  ee_rule_row :: "'c \<Rightarrow> int"
  ee_base :: "'c \<Rightarrow> string + aval list list"
  ee_head_base :: "'c \<Rightarrow> string + aval list list"
  ee_term_string :: "aval \<Rightarrow> string"
  ee_marshal :: "gval \<Rightarrow> string + string"
  ee_encode :: "'v option \<Rightarrow> string + string"
  ee_open :: "string \<Rightarrow> string option"
  ee_inline :: bool
  ee_display_inline :: bool

text \<open>\<open>ToMap\<close>: what JSON makes of the configuration, without the \<open>ignore\<close> of rules that have none.\<close>

definition at_map :: "string \<Rightarrow> ((string, gval) gomap \<Rightarrow> (string, gval) gomap option) \<Rightarrow> (string, gval) gomap
    \<Rightarrow> (string, gval) gomap option" where
  "at_map k f m = (case map_get m k of Some (GMap n) \<Rightarrow> map_option (\<lambda>n. map_set m k (GMap n)) (f n) | _ \<Rightarrow> None)"

fun drop_ignores :: "(string \<times> string) list \<Rightarrow> (string, gval) gomap \<Rightarrow> (string, gval) gomap option" where
  "drop_ignores [] m = Some m"
| "drop_ignores ((cat, rule) # rs) m =
     Option.bind (at_map ''rules'' (at_map cat (at_map rule (\<lambda>r. Some (map_del r ''ignore'')))) m) (drop_ignores rs)"

definition rules_without_ignore :: "config \<Rightarrow> (string \<times> string) list" where
  "rules_without_ignore cfg = concat (map (\<lambda>(cat, rules). concat (map (\<lambda>(rule, r).
     if r_ignore r = None then [(cat, rule)] else []) rules)) (cfg_rules cfg))"

definition config_to_map :: "(config \<Rightarrow> (string, gval) gomap) \<Rightarrow> config \<Rightarrow> (string, gval) gomap option" where
  "config_to_map as_json cfg = drop_ignores (rules_without_ignore cfg) (as_json cfg)"

text \<open>\<open>assembleBundles\<close>. Bundles of data are looked up by the directory that they are in.\<close>

definition module_files :: "(string, 'r rego_module) gomap \<Rightarrow> (string \<times> string \<times> 'r rego_module) list" where
  "module_files mods = map (\<lambda>(fileURI, m). (fileURI, to_path fileURI, m)) mods"

definition has_custom_rules :: "('r rego_module \<Rightarrow> string) \<Rightarrow> (string, 'r rego_module) gomap \<Rightarrow> bool" where
  "has_custom_rules pkg mods = list_ex (\<lambda>(fileURI, m). str_contains (pkg m) ''custom.regal.rules'') mods"

definition data_bundles :: "('d \<Rightarrow> bool) \<Rightarrow> ('d, string) bundle_cache option \<Rightarrow> (string \<times> ('r, 'd) eval_bundle) list" where
  "data_bundles has_roots cache =
     foldl (\<lambda>acc (k, b). if has_roots b then map_set acc k (DataBundle b) else acc) []
       (case cache of None \<Rightarrow> [] | Some c \<Rightarrow> bundle_cache_all c)"

definition assemble_bundles where
  "assemble_bundles env s =
     (let mods = get_all_modules (sv_cache s);
          bundles = map_set (data_bundles (ee_has_roots env) (sv_bundles s)) ''workspace''
            (WorkspaceBundle (module_files mods))
      in if has_custom_rules (ee_package env) mods then map_set bundles ''regal'' RegalBundle else bundles)"

text \<open>\<open>prepareRegoArgs\<close>; the configuration may be missing.\<close>

definition prepare_rego_args where
  "prepare_rego_args env query base bundles cfg =
     (let caps = (case cfg of
            None \<Rightarrow> ee_this_version env
          | Some c \<Rightarrow> (case cfg_capabilities c of Some caps \<Rightarrow> caps | None \<Rightarrow> ee_this_version env));
          evalConfig = (case cfg of None \<Rightarrow> empty_config | Some c \<Rightarrow> c)
      in Option.bind (case cfg of None \<Rightarrow> Some [] | Some c \<Rightarrow> config_to_map (ee_config_json env) c) (\<lambda>user.
         Option.bind (config_to_map (ee_config_json env) evalConfig) (\<lambda>combined.
           Some \<lparr>ra_query = query, ra_print_base = base,
             ra_bundles = bundles @ [(''internal'', InternalBundle combined user caps)],
             ra_resolvers = ee_resolvers env\<rparr>)))"

section \<open>Evaluating\<close>

record 'v eval_result =
  er_value :: "'v option"
  er_print :: print_output
  er_undefined :: bool

datatype eval_command_error =
    ExpectedTargetAndQuery string string
  | NoContentOrModule string
  | ModuleNotPrepared lint_error
  | EvalFailedWith string
  | NoResultBinding
  | NoRuleHeads string
  | RuleHeadsFailed eval_error
  | SkeletonNotMarshalled string
  | InputNotCreated string
  | OutputNotWritten string

text \<open>\<open>Eval\<close>: the query is parsed with \<open>MustParseBody\<close>.\<close>

definition eval_query where
  "eval_query env s query inp base =
     Option.bind (ee_parse_body env query) (\<lambda>body.
     Option.bind (prepare_rego_args env body base (assemble_bundles env s) (Some (sv_config s))) (\<lambda>args.
       Some (ee_eval env args inp)))"

definition eval_in_workspace where
  "eval_in_workspace env s query inp =
     (let base = workspace_uri (sv_workspace s) [] in
      map_option (\<lambda>(events, result).
          case result of
            Inl e \<Rightarrow> Inl (EvalFailedWith e)
          | Inr [] \<Rightarrow> Inr \<lparr>er_value = None, er_print = printed base events, er_undefined = True\<rparr>
          | Inr (bindings # _) \<Rightarrow>
              (case map_get bindings ''result'' of
                 None \<Rightarrow> Inl NoResultBinding
               | Some v \<Rightarrow> Inr \<lparr>er_value = Some v, er_print = printed base events, er_undefined = False\<rparr>))
        (eval_query env s (''result := '' @ query) inp base))"

section \<open>The command\<close>

record eval_args =
  ev_target :: string
  ev_query :: string
  ev_row :: int

record 'v shown_result =
  sh_result :: "'v eval_result"
  sh_line :: int
  sh_target :: string
  sh_package :: string
  sh_heads :: "ast_location list"

datatype 'v eval_output =
    Asked string "string list"
  | Wrote string string
  | Opened string
  | Showed "'v shown_result"

record ('r, 'b, 'd, 'y, 't, 'p, 'v) eval_server =
  es_server :: "('r, 'b, 'd) server"
  es_rego_store :: "'t option"
  es_queries :: "history \<times> ('y, 't, 'p) query_cache"
  es_suppress :: bool
  es_out :: "'v eval_output list"

definition put_out where
  "put_out outs es = es\<lparr>es_out := es_out es @ outs\<rparr>"

text \<open>\<open>getRuleHeadLocations\<close>, with \<open>policyToValue\<close> and \<open>AllRuleHeadLocations\<close>.\<close>

definition policy_to_value where
  "policy_to_value env unmarshal round_trip pq file contents md =
     Option.bind (to_ast (sx_lint (ee_server env)) file contents (Some md) False) (\<lambda>r.
       case r of
         Inl e \<Rightarrow> Some (Inl (ModuleNotPrepared e))
       | Inr inp \<Rightarrow> map_option (map_sum RuleHeadsFailed id)
           (cached_query_eval (ee_router env) unmarshal round_trip pq inp))"

definition all_rule_head_locations where
  "all_rule_head_locations env pq file contents md =
     policy_to_value env (ee_rule_heads env) (ee_go_rule_heads env) pq file contents md"

definition get_rule_head_locations where
  "get_rule_head_locations env args contents md es =
     Option.bind (cache_get_or_set (ee_queries env) (es_rego_store es) rule_head_locations (es_queries es)) (\<lambda>(w, r).
       let es = es\<lparr>es_queries := w\<rparr> in
       case r of
         Inl e \<Rightarrow> Some (es, Inl (NoRuleHeads e))
       | Inr pq \<Rightarrow>
           map_option (\<lambda>heads. (es, map_sum id (\<lambda>hs. map_get_or hs (ev_query args) []) heads))
             (all_rule_head_locations env pq (fp_base (to_path (ev_target args))) contents md))"

text \<open>\<open>^\s*regal eval:\s*use-as-input\<close>.\<close>

definition regexp_space :: "char \<Rightarrow> bool" where
  "regexp_space c \<longleftrightarrow> of_char c \<in> {9 :: nat, 10, 12, 13, 32}"

definition use_as_input_comment :: "string \<Rightarrow> bool" where
  "use_as_input_comment txt =
     (let rest = dropWhile regexp_space txt in
      has_prefix rest ''regal eval:''
        \<and> has_prefix (dropWhile regexp_space (drop (length ''regal eval:'') rest)) ''use-as-input'')"

definition no_input_found_msg :: string where
  "no_input_found_msg = ''No input.json/yaml file was found. '' @
     ''This file is used to provide input data for rule evaluation. '' @ ''Would you like to create one?''"

definition input_create_success_msg :: string where
  "input_create_success_msg = ''input.json created successfully! Running Evaluate will now pull from this file.''"

definition find_rule where
  "find_rule env rules ruleName row =
     find_first rules (\<lambda>rule. ee_rule_name env rule = ruleName \<and> ee_rule_row env rule = row)"

text \<open>\<open>handleInputSkeletonPrompt\<close>: whether the file was created. \<open>answer\<close> is the client's choice after what was
  shown so far; \<open>wr\<close> says whether writing a file fails.\<close>

definition handle_input_skeleton_prompt where
  "handle_input_skeleton_prompt env answer wr target ruleName row es =
     (let ws = sv_workspace (es_server es);
          rule = (case map_get (ee_compile env (get_all_modules (sv_cache (es_server es)))) target of
                    None \<Rightarrow> None | Some rules \<Rightarrow> find_rule env rules ruleName row)
      in case rule of
           None \<Rightarrow> (es, Inr False)
         | Some rule \<Rightarrow>
             let skeleton = input_skeleton_from_rule (ee_term_string env) (ee_base env rule) (ee_head_base env rule) in
             if skeleton = [] then (es, Inr False)
             else
               let es = put_out [Asked no_input_found_msg [''Yes'', ''No'', ''Ignore'']] es;
                   action = answer (es_out es)
               in if action = ''Yes'' then
                    (case ee_marshal env (GMap skeleton) of
                       Inl e \<Rightarrow> (es, Inl (SkeletonNotMarshalled e))
                     | Inr data \<Rightarrow>
                         let inputFile = workspace_path ws [''input.json''] in
                         (case wr inputFile of
                            Some e \<Rightarrow> (es, Inl (InputNotCreated e))
                          | None \<Rightarrow>
                              let es = put_out [Wrote inputFile (data @ [newline]),
                                                Asked input_create_success_msg [''Open'']] es
                              in (if answer (es_out es) = ''Open'' then put_out [Opened (workspace_uri ws [inputFile])] es
                                  else es, Inr True)))
                  else (if action = ''Ignore'' then es\<lparr>es_suppress := True\<rparr> else es, Inr False))"

text \<open>The input of an evaluation, and whether it goes on: not if the file for the input was just created. The texts
  of the comments are in the order of the file.\<close>

definition eval_input where
  "eval_input env answer wr args contents md es =
     (let s = es_server es; packagePath = ee_package env md in
      if (case ee_comments env md of [] \<Rightarrow> False | c # _ \<Rightarrow> use_as_input_comment c) then
        map_option (\<lambda>r. (es, map_sum ModuleNotPrepared (\<lambda>v. Some (Some v)) r))
          (to_ast (sx_lint (ee_server env)) (workspace_relative_path (sv_workspace s) (ev_target args)) contents (Some md) False)
      else
        let inputPath = find_for_path (sv_inputs s) (ev_target args) in
        if inputPath = '''' \<and> \<not> es_suppress es then
          (case handle_input_skeleton_prompt env answer wr (ev_target args)
                  (trim_prefix (ev_query args) (packagePath @ ''.'')) (ev_row args) es of
             (es, r) \<Rightarrow> Some (es, map_sum id (\<lambda>created. if created then None else Some None) r))
        else if inputPath \<noteq> '''' then Some (es, Inr (Some (Some (input_get (sv_inputs s) (sv_store s) inputPath))))
        else Some (es, Inr (Some None)))"

definition write_eval_output where
  "write_eval_output env result es =
     (let path = workspace_path (sv_workspace (es_server es)) [''output.json''] in
      case ee_open env path of
        Some e \<Rightarrow> (es, Some (OutputNotWritten e))
      | None \<Rightarrow>
          (case (if er_undefined result then Inr ''{}'' else ee_encode env (er_value result)) of
             Inl e \<Rightarrow> (put_out [Wrote path ''''] es, Some (OutputNotWritten e))
           | Inr txt \<Rightarrow> (put_out [Wrote path (txt @ [newline])] es, None)))"

definition show_eval_result where
  "show_eval_result env args packagePath result heads es =
     (let target = (if heads \<noteq> [] then trim_prefix (ev_query args) (packagePath @ ''.'') else ''package'') in
      if ee_inline env \<and> ee_display_inline env then
        (put_out [Showed \<lparr>sh_result = result, sh_line = ev_row args, sh_target = target,
           sh_package = trim_prefix packagePath ''data.'', sh_heads = heads\<rparr>] es, None)
      else write_eval_output env result es)"

definition handle_eval_command where
  "handle_eval_command env answer wr args es =
     (if ev_target args = '''' \<or> ev_query args = '''' then
        Some (es, Some (ExpectedTargetAndQuery (ev_target args) (ev_query args)))
      else case get_content_and_module (sv_cache (es_server es)) (ev_target args) of
        None \<Rightarrow> Some (es, Some (NoContentOrModule (ev_target args)))
      | Some (contents, md) \<Rightarrow>
          Option.bind (eval_input env answer wr args contents md es) (\<lambda>(es, r).
            case r of
              Inl e \<Rightarrow> Some (es, Some e)
            | Inr None \<Rightarrow> Some (es, None)
            | Inr (Some inp) \<Rightarrow>
                Option.bind (eval_in_workspace env (es_server es) (ev_query args) inp) (\<lambda>r.
                  case r of
                    Inl e \<Rightarrow> Some (es, Some e)
                  | Inr result \<Rightarrow>
                      Option.bind (get_rule_head_locations env args contents md es) (\<lambda>(es, r).
                        case r of
                          Inl e \<Rightarrow> Some (es, Some e)
                        | Inr heads \<Rightarrow> Some (show_eval_result env args (ee_package env md) result heads es)))))"

section \<open>What is printed where\<close>

lemma print_file_eq_iff: "print_file base f = print_file base f' \<longleftrightarrow> f = f'"
  by (simp add: print_file_def)

lemma hook_print_lookup:
  "map_get_or (map_get_or (hook_print base (f, r, m) out) k []) i []
     = map_get_or (map_get_or out k []) i [] @ (if print_file base f = k \<and> r = i then [m] else [])"
  by (auto simp: hook_print_def Let_def map_get_or_def split: option.splits)

text \<open>The output of an evaluation holds, for each file and row, the messages that were printed there, in the
  order in which they were printed; none is lost and none gets to another file or row.\<close>

theorem printed_groups:
  "map_get_or (map_get_or (printed base events) (print_file base file) []) row []
     = map (\<lambda>(f, r, m). m) (filter (\<lambda>(f, r, m). f = file \<and> r = row) events)"
proof -
  have "map_get_or (map_get_or (fold (hook_print base) events out) (print_file base file) []) row []
     = map_get_or (map_get_or out (print_file base file) []) row []
       @ map (\<lambda>(f, r, m). m) (filter (\<lambda>(f, r, m). f = file \<and> r = row) events)" for out
    by (induction events arbitrary: out) (auto simp: hook_print_lookup print_file_eq_iff split: if_splits)
  from this[of "[]"] show ?thesis by (simp add: printed_def map_get_or_def)
qed

section \<open>What the skeleton holds\<close>

fun value_at :: "string list \<Rightarrow> gval \<Rightarrow> gval option" where
  "value_at [] v = Some v"
| "value_at (k # ks) (GMap m) = (case map_get m k of None \<Rightarrow> None | Some v \<Rightarrow> value_at ks v)"
| "value_at (k # ks) _ = None"

datatype kind = Missing | Leaf | Inner | Other

definition kind_at :: "string list \<Rightarrow> (string, gval) gomap \<Rightarrow> kind" where
  "kind_at p m = (case value_at p (GMap m) of
     None \<Rightarrow> Missing | Some (GMap m) \<Rightarrow> Inner | Some v \<Rightarrow> if v = GStr ''changeme'' then Leaf else Other)"

text \<open>The position of a path in a list of references.\<close>

definition kind_in :: "string list list \<Rightarrow> string list \<Rightarrow> kind" where
  "kind_in refs p = (if p = [] \<or> list_ex (strict_prefix p) refs then Inner else if p \<in> set refs then Leaf else Missing)"

lemma kind_at_Nil [simp]: "kind_at [] m = Inner"
  by (simp add: kind_at_def)

lemma kind_at_Cons: "kind_at (k # p) m = (case map_get m k of
    None \<Rightarrow> Missing
  | Some (GMap n) \<Rightarrow> kind_at p n
  | Some v \<Rightarrow> if p = [] then (if v = GStr ''changeme'' then Leaf else Other) else Missing)"
proof (cases "map_get m k")
  case (Some v)
  then show ?thesis by (cases v; cases p) (auto simp: kind_at_def)
qed (simp add: kind_at_def)

lemma kind_at_empty: "kind_at p [] = (if p = [] then Inner else Missing)"
  by (cases p) (simp_all add: kind_at_Cons)

text \<open>Adding a reference of whose proper prefixes none is a leaf.\<close>

lemma kind_at_skeleton_add:
  assumes "\<And>p. strict_prefix p (keys @ [leaf]) \<Longrightarrow> kind_at p m \<in> {Missing, Inner}"
  shows "kind_at p (skeleton_add keys leaf m) =
     (if strict_prefix p (keys @ [leaf]) then Inner
      else if p = keys @ [leaf] \<and> kind_at p m = Missing then Leaf else kind_at p m)"
  using assms
proof (induction keys arbitrary: p m)
  case Nil
  show ?case by (cases p) (auto simp: kind_at_Cons strict_prefix_def split: option.splits gval.splits if_splits)
next
  case (Cons k ks)
  have sub: "kind_at q n \<in> {Missing, Inner}" if "map_get m k = Some (GMap n)" "strict_prefix q (ks @ [leaf])" for q n
    using Cons.prems[of "k # q"] that by (simp add: kind_at_Cons)
  have no_leaf: "(\<exists>n. v = GMap n)" if "map_get m k = Some v" for v
    using Cons.prems[of "[k]"] that by (cases v) (auto simp: kind_at_Cons strict_prefix_def split: if_splits)
  show ?case
  proof (cases p)
    case Nil
    then show ?thesis by (simp add: strict_prefix_def)
  next
    case (Cons k' q)
    show ?thesis
    proof (cases "map_get m k")
      case None
      have "kind_at q (skeleton_add ks leaf []) = (if strict_prefix q (ks @ [leaf]) then Inner
          else if q = ks @ [leaf] \<and> kind_at q [] = Missing then Leaf else kind_at q [])"
        by (rule Cons.IH) (simp add: kind_at_empty)
      then show ?thesis using None Cons
        by (auto simp: kind_at_Cons kind_at_empty strict_prefix_def)
    next
      case (Some v)
      then obtain n where n: "v = GMap n" using no_leaf by blast
      have "kind_at q (skeleton_add ks leaf n) = (if strict_prefix q (ks @ [leaf]) then Inner
          else if q = ks @ [leaf] \<and> kind_at q n = Missing then Leaf else kind_at q n)"
        by (rule Cons.IH) (use sub Some n in blast)
      then show ?thesis using Some n Cons by (auto simp: kind_at_Cons)
    qed
  qed
qed

definition prefix_free :: "string list list \<Rightarrow> bool" where
  "prefix_free refs \<longleftrightarrow> list_all (\<lambda>r. r \<noteq> [] \<and> list_all (\<lambda>s. \<not> strict_prefix r s) refs) refs"

lemma kind_of_refs:
  assumes "prefix_free refs"
  shows "kind_at p (fold (\<lambda>r. skeleton_add (butlast r) (last r)) refs []) = kind_in refs p"
  using assms
proof (induction refs arbitrary: p rule: rev_induct)
  case Nil
  show ?case by (simp add: kind_at_empty kind_in_def)
next
  case (snoc r refs)
  define m where "m = fold (\<lambda>r. skeleton_add (butlast r) (last r)) refs []"
  from snoc.prems have pf: "prefix_free refs" "r \<noteq> []" "\<And>s. s \<in> set refs \<Longrightarrow> \<not> strict_prefix s r \<and> \<not> strict_prefix r s"
    by (auto simp: prefix_free_def list_all_iff)
  have m: "kind_at p m = kind_in refs p" for p
    using snoc.IH[OF pf(1)] by (simp add: m_def)
  have "kind_at p (skeleton_add (butlast r) (last r) m) =
     (if strict_prefix p (butlast r @ [last r]) then Inner
      else if p = butlast r @ [last r] \<and> kind_at p m = Missing then Leaf else kind_at p m)"
    by (rule kind_at_skeleton_add) (use pf in \<open>auto simp: m kind_in_def\<close>)
  then show ?case using pf by (auto simp: m kind_in_def m_def[symmetric] list_ex_iff)
qed

text \<open>The keys of a reference below \<open>input\<close>.\<close>

definition ref_keys :: "(aval \<Rightarrow> string) \<Rightarrow> aval list \<Rightarrow> string list" where
  "ref_keys str ref = map (\<lambda>t. trim_byte (str t) CHR 0x22) (tl ref)"

lemma input_refs_filter: "input_refs refs = filter (\<lambda>ref. has_prefix ref [AVar ''input''] \<and> length ref > 1) refs"
  by (simp add: input_refs_def)

lemma skeleton_kinds:
  assumes "refs = map (ref_keys str) (filter (\<lambda>ref. has_prefix ref [AVar ''input''] \<and> length ref > 1) (base @ head_base))"
    "prefix_free refs"
  shows "kind_at p (input_skeleton_from_rule str (Inr base) (Inr head_base)) = kind_in refs p"
proof -
  have add: "add_ref str = (\<lambda>r. skeleton_add (butlast (ref_keys str r)) (last (ref_keys str r)))"
    by (simp add: add_ref_def ref_keys_def Let_def fun_eq_iff)
  have "input_skeleton_from_rule str (Inr base) (Inr head_base)
      = fold (\<lambda>r. skeleton_add (butlast r) (last r)) refs []"
    unfolding input_skeleton_from_rule_def assms(1) fold_map
    by (simp add: input_refs_filter add comp_def)
  then show ?thesis using kind_of_refs[OF assms(2)] by simp
qed

text \<open>C35. If no input that a rule refers to is a part of another one, the skeleton of its input has a placeholder
  exactly at the inputs that the rule and its head refer to, objects on the way to them, and nothing else.\<close>

theorem skeleton_has_refs:
  assumes "refs = map (ref_keys str) (filter (\<lambda>ref. has_prefix ref [AVar ''input''] \<and> length ref > 1) (base @ head_base))"
    "prefix_free refs"
  shows "kind_at p (input_skeleton_from_rule str (Inr base) (Inr head_base)) = kind_in refs p"
  using assms by (rule skeleton_kinds)

definition sample_term_string :: "aval \<Rightarrow> string" where
  "sample_term_string t = (case t of AStr s \<Rightarrow> [CHR 0x22] @ s @ [CHR 0x22] | AVar v \<Rightarrow> v | _ \<Rightarrow> '''')"

definition sample_input_refs :: "aval list list" where
  "sample_input_refs = [[AVar ''input'', AStr ''user'', AStr ''name''], [AVar ''data'', AStr ''x''],
     [AVar ''input'', AStr ''user'', AStr ''roles''], [AVar ''input'']]"

theorem skeleton_has_refs_witness:
  "kind_at [''user'', ''roles''] (input_skeleton_from_rule sample_term_string (Inr sample_input_refs) (Inr [])) = Leaf
   \<and> kind_at [''user''] (input_skeleton_from_rule sample_term_string (Inr sample_input_refs) (Inr [])) = Inner
   \<and> kind_at [''x''] (input_skeleton_from_rule sample_term_string (Inr sample_input_refs) (Inr [])) = Missing"
proof -
  have refs: "[[''user'', ''name''], [''user'', ''roles'']] = map (ref_keys sample_term_string)
      (filter (\<lambda>ref. has_prefix ref [AVar ''input''] \<and> length ref > 1) (sample_input_refs @ []))"
    by code_simp
  have pf: "prefix_free [[''user'', ''name''], [''user'', ''roles'']]"
    by (simp add: prefix_free_def strict_prefix_def)
  show ?thesis unfolding skeleton_has_refs[OF refs pf] by (simp add: kind_in_def strict_prefix_def)
qed

text \<open>An input of which the rule also needs a part: the part ends up at the root.\<close>

lemma skeleton_misplaces_part:
  "input_skeleton_from_rule sample_term_string
     (Inr [[AVar ''input'', AStr ''user''], [AVar ''input'', AStr ''user'', AStr ''name'']]) (Inr [])
   = [(''user'', GStr ''changeme''), (''name'', GStr ''changeme'')]"
  by code_simp

section \<open>The bundles of an evaluation\<close>

lemma map_of_data_bundles:
  assumes "map_wf m"
  shows "map_get (foldl (\<lambda>acc (k, b). if has_roots b then map_set acc k (DataBundle b) else acc) acc m) k
    = (case map_get m k of Some b \<Rightarrow> if has_roots b then Some (DataBundle b) else map_get acc k | None \<Rightarrow> map_get acc k)"
  using assms
proof (induction m arbitrary: acc)
  case (Cons kb m)
  obtain k' b where kb: "kb = (k', b)" by (cases kb)
  have "map_get m k' = None" using Cons.prems kb by (simp add: map_of_None_keys del: set_map)
  then show ?case using Cons.IH Cons.prems kb by (auto split: option.splits)
qed simp

lemma collected_bundles_wf:
  "map_wf acc \<Longrightarrow> map_wf (foldl (\<lambda>m (root, b). map_set m root (cb_bundle b)) acc bs)"
  by (induction bs arbitrary: acc) auto

lemma all_bundles_wf: "map_wf (bundle_cache_all c)"
  unfolding bundle_cache_all_def by (rule collected_bundles_wf) simp

text \<open>An evaluation sees the modules of the workspace and, unless it is in a directory called \<open>workspace\<close> (or
  \<open>regal\<close>, if there are custom rules), the data of every bundle of the cache that has roots.\<close>

lemma assembled_bundles:
  "map_get (assemble_bundles env s) k =
     (if k = ''regal'' \<and> has_custom_rules (ee_package env) (get_all_modules (sv_cache s)) then Some RegalBundle
      else if k = ''workspace'' then Some (WorkspaceBundle (module_files (get_all_modules (sv_cache s))))
      else (case sv_bundles s of
              None \<Rightarrow> None
            | Some c \<Rightarrow>
                (case map_get (bundle_cache_all c) k of
                   Some b \<Rightarrow> if ee_has_roots env b then Some (DataBundle b) else None
                 | None \<Rightarrow> None)))"
  by (auto simp: assemble_bundles_def data_bundles_def Let_def map_of_data_bundles all_bundles_wf split: option.splits)

section \<open>What the command writes\<close>

text \<open>The state \<open>es'\<close> is \<open>es\<close> with outputs added that satisfy \<open>P\<close>; the server is as it was.\<close>

definition only_adds where
  "only_adds P es es' \<longleftrightarrow>
     (\<exists>outs. es_out es' = es_out es @ outs \<and> list_all P outs) \<and> es_server es' = es_server es"

lemma only_adds_refl [simp]: "only_adds P es es"
  by (simp add: only_adds_def)

lemma only_adds_trans: "only_adds P es es' \<Longrightarrow> only_adds P es' es'' \<Longrightarrow> only_adds P es es''"
  by (auto simp: only_adds_def)

lemma only_adds_mono: "only_adds P es es' \<Longrightarrow> (\<And>x. P x \<Longrightarrow> Q x) \<Longrightarrow> only_adds Q es es'"
  by (auto simp: only_adds_def list_all_iff)

definition may_write :: "(string \<Rightarrow> bool) \<Rightarrow> 'v eval_output \<Rightarrow> bool" where
  "may_write W x = (case x of Wrote path t \<Rightarrow> W path | _ \<Rightarrow> True)"

lemma may_write_simps [simp]:
  "may_write W (Wrote path t) = W path" "may_write W (Asked m as)" "may_write W (Opened u)" "may_write W (Showed v)"
  by (simp_all add: may_write_def)

lemma may_write_mono: "may_write W x \<Longrightarrow> (\<And>p. W p \<Longrightarrow> W' p) \<Longrightarrow> may_write W' x"
  by (cases x) simp_all

text \<open>The prompt writes the input file of the workspace, and only if the answer was yes.\<close>

lemma prompt_writes:
  assumes "handle_input_skeleton_prompt env answer wr target ruleName row es = (es', r)"
  shows "only_adds (may_write (\<lambda>path. path = workspace_path (sv_workspace (es_server es)) [''input.json'']
      \<and> wr path = None
      \<and> answer (es_out es @ [Asked no_input_found_msg [''Yes'', ''No'', ''Ignore'']]) = ''Yes'')) es es'"
  using assms unfolding handle_input_skeleton_prompt_def Let_def
  by (auto simp: only_adds_def put_out_def split: option.splits if_splits sum.splits)

lemma input_writes:
  assumes "eval_input env answer wr args contents md es = Some (es', r)"
  shows "only_adds (may_write (\<lambda>path. path = workspace_path (sv_workspace (es_server es)) [''input.json'']
      \<and> wr path = None \<and> \<not> es_suppress es \<and> find_for_path (sv_inputs (es_server es)) (ev_target args) = ''''
      \<and> answer (es_out es @ [Asked no_input_found_msg [''Yes'', ''No'', ''Ignore'']]) = ''Yes'')) es es'"
  using assms unfolding eval_input_def Let_def
  by (auto split: if_splits prod.splits dest!: prompt_writes elim!: only_adds_mono may_write_mono)

lemma show_writes:
  assumes "show_eval_result env args packagePath result heads es = (es', r)"
  shows "only_adds (may_write (\<lambda>path. path = workspace_path (sv_workspace (es_server es)) [''output.json'']
      \<and> \<not> (ee_inline env \<and> ee_display_inline env))) es es'"
  using assms unfolding show_eval_result_def write_eval_output_def Let_def
  by (auto simp: only_adds_def put_out_def split: option.splits if_splits sum.splits)

lemma heads_write_nothing:
  assumes "get_rule_head_locations env args contents md es = Some (es', r)"
  shows "only_adds (\<lambda>x. False) es es'"
proof -
  obtain w q where "cache_get_or_set (ee_queries env) (es_rego_store es) rule_head_locations (es_queries es) = Some (w, q)"
    using assms by (auto simp: get_rule_head_locations_def bind_eq_Some_conv)
  then show ?thesis using assms
    by (cases q) (auto simp: get_rule_head_locations_def only_adds_def)
qed

text \<open>The steps of an evaluation: the input, which may prompt; the query; the locations of the rule's heads; the result.\<close>

lemma eval_steps:
  assumes "handle_eval_command env answer wr args es = Some (es', r)"
  shows "es' = es \<or> (\<exists>contents md es1 r1. eval_input env answer wr args contents md es = Some (es1, r1)
    \<and> (es' = es1 \<or> (\<exists>es2 r2 v heads. get_rule_head_locations env args contents md es1 = Some (es2, r2)
        \<and> (es' = es2 \<or> show_eval_result env args (ee_package env md) v heads es2 = (es', r)))))"
proof (cases "\<exists>contents md. get_content_and_module (sv_cache (es_server es)) (ev_target args) = Some (contents, md)
    \<and> \<not> (ev_target args = '''' \<or> ev_query args = '''')")
  case True
  then obtain contents md where cm: "get_content_and_module (sv_cache (es_server es)) (ev_target args) = Some (contents, md)"
    "ev_target args \<noteq> ''''" "ev_query args \<noteq> ''''" by blast
  then obtain es1 r1 where inp: "eval_input env answer wr args contents md es = Some (es1, r1)"
    using assms by (auto simp: handle_eval_command_def bind_eq_Some_conv)
  have "es' = es1 \<or> (\<exists>es2 r2 v heads. get_rule_head_locations env args contents md es1 = Some (es2, r2)
      \<and> (es' = es2 \<or> show_eval_result env args (ee_package env md) v heads es2 = (es', r)))"
  proof (cases "\<exists>inp. r1 = Inr (Some inp)")
    case True
    then obtain inp where r1: "r1 = Inr (Some inp)" by blast
    obtain q where q: "eval_in_workspace env (es_server es1) (ev_query args) inp = Some q"
      using assms cm inp r1 by (auto simp: handle_eval_command_def bind_eq_Some_conv)
    show ?thesis
    proof (cases q)
      case (Inr v)
      obtain es2 r2 where g: "get_rule_head_locations env args contents md es1 = Some (es2, r2)"
        using assms cm inp r1 q Inr by (auto simp: handle_eval_command_def bind_eq_Some_conv)
      have "es' = es2 \<or> (\<exists>heads. show_eval_result env args (ee_package env md) v heads es2 = (es', r))"
        using assms cm inp r1 q Inr g by (cases r2) (auto simp: handle_eval_command_def)
      then show ?thesis using g by blast
    qed (use assms cm inp r1 q in \<open>auto simp: handle_eval_command_def\<close>)
  next
    case False
    show ?thesis
    proof (cases r1)
      case (Inl e)
      then show ?thesis using assms cm inp by (auto simp: handle_eval_command_def)
    next
      case (Inr b)
      then show ?thesis using False assms cm inp by (cases b) (auto simp: handle_eval_command_def)
    qed
  qed
  then show ?thesis using inp by blast
qed (use assms in \<open>auto simp: handle_eval_command_def split: if_splits option.splits\<close>)

lemma eval_command_keeps:
  assumes "handle_eval_command env answer wr args es = Some (es', r)"
  shows "only_adds (may_write (\<lambda>path.
      path = workspace_path (sv_workspace (es_server es)) [''output.json''] \<and> \<not> (ee_inline env \<and> ee_display_inline env)
      \<or> path = workspace_path (sv_workspace (es_server es)) [''input.json'']
        \<and> \<not> es_suppress es \<and> find_for_path (sv_inputs (es_server es)) (ev_target args) = ''''
        \<and> answer (es_out es @ [Asked no_input_found_msg [''Yes'', ''No'', ''Ignore'']]) = ''Yes'')) es es'"
    (is "only_adds (may_write (\<lambda>path. ?O path \<or> ?I path)) es es'")
  using eval_steps[OF assms]
proof (elim disjE exE conjE)
  fix contents md es1 r1
  assume inp: "eval_input env answer wr args contents md es = Some (es1, r1)"
  have a1: "only_adds (may_write (\<lambda>path. ?O path \<or> ?I path)) es es1"
    by (rule only_adds_mono[OF input_writes[OF inp]], erule may_write_mono) blast
  show "only_adds (may_write (\<lambda>path. ?O path \<or> ?I path)) es es'" if "es' = es1" using a1 that by simp
  fix es2 r2 v heads
  assume "get_rule_head_locations env args contents md es1 = Some (es2, r2)"
  note h = heads_write_nothing[OF this]
  have same: "es_server es2 = es_server es" using h a1 by (simp add: only_adds_def)
  have a2: "only_adds (may_write (\<lambda>path. ?O path \<or> ?I path)) es es2"
    by (rule only_adds_trans[OF a1 only_adds_mono[OF h]]) simp
  show "only_adds (may_write (\<lambda>path. ?O path \<or> ?I path)) es es'" if "es' = es2" using a2 that by simp
  assume "show_eval_result env args (ee_package env md) v heads es2 = (es', r)"
  from show_writes[OF this] have "only_adds (may_write (\<lambda>path. ?O path \<or> ?I path)) es2 es'"
    unfolding same by (rule only_adds_mono) (erule may_write_mono, blast)
  with a2 show "only_adds (may_write (\<lambda>path. ?O path \<or> ?I path)) es es'" by (rule only_adds_trans)
qed simp


text \<open>A workspace with one rule that needs an input, and a user who wants a file for it.\<close>

definition sample_eval_env where
  "sample_eval_env =
     \<lparr>ee_server = sample_server_env, ee_router = sample_router_env, ee_queries = sample_query_env,
      ee_parse_body = Some, ee_package = (\<lambda>m. ''data.p''), ee_comments = (\<lambda>m. []), ee_has_roots = (\<lambda>b. True),
      ee_resolvers = [], ee_this_version = \<lparr>c_builtins = [], c_future_keywords = [], c_features = []\<rparr>,
      ee_config_json = (\<lambda>c. []), ee_eval = (\<lambda>args inp. ([], Inr [[(''result'', True)]])),
      ee_rule_heads = (\<lambda>s. Inr []), ee_go_rule_heads = (\<lambda>x. Inr []), ee_compile = map (\<lambda>(u, m). (u, [3 :: int])),
      ee_rule_name = (\<lambda>r. ''allow''), ee_rule_row = (\<lambda>r. r),
      ee_base = (\<lambda>r. Inr sample_input_refs), ee_head_base = (\<lambda>r. Inr []), ee_term_string = sample_term_string,
      ee_marshal = (\<lambda>v. Inr ''{}''), ee_encode = (\<lambda>v. Inr ''true''), ee_open = (\<lambda>p. None),
      ee_inline = False, ee_display_inline = False\<rparr>"

definition sample_eval_server :: "(unit, unit, nat, string, unit, string \<times> nat, bool) eval_server" where
  "sample_eval_server =
     \<lparr>es_server = sample_server\<lparr>sv_cache := set_module (sv_cache sample_server) ''file:///ws/a.rego'' sample_module\<rparr>,
      es_rego_store = Some (), es_queries = ([], []), es_suppress = False, es_out = []\<rparr>"

definition sample_eval_args :: eval_args where
  "sample_eval_args = \<lparr>ev_target = ''file:///ws/a.rego'', ev_query = ''data.p.allow'', ev_row = 3\<rparr>"

lemma sample_eval_run:
  "map_option (\<lambda>(es, r). (es_out es, r)) (handle_eval_command sample_eval_env (\<lambda>outs. ''Yes'') (\<lambda>p. None)
      sample_eval_args sample_eval_server)
   = Some ([Asked no_input_found_msg [''Yes'', ''No'', ''Ignore''], Wrote ''/ws/input.json'' (''{}'' @ [newline]),
            Asked input_create_success_msg [''Open'']], None)"
  by code_simp


text \<open>A query that OPA cannot parse takes the server down: it is parsed with a function that panics.\<close>

lemma unparsable_query_panics:
  assumes "ev_target args \<noteq> ''''" "ev_query args \<noteq> ''''"
    "get_content_and_module (sv_cache (es_server es)) (ev_target args) = Some (contents, md)"
    "eval_input env answer wr args contents md es = Some (es', Inr (Some inp))"
    "ee_parse_body env (''result := '' @ ev_query args) = None"
  shows "handle_eval_command env answer wr args es = None"
  using assms by (simp add: handle_eval_command_def eval_in_workspace_def eval_query_def Let_def)

end
