(* ===== verification/Test_Gen.thy ===== *)
theory Test_Gen
  imports Lsp_Eval Lsp_Json
begin

text \<open>
  \<open>internal/lsp/testgen/testgen.go\<close>: a test for each rule of a file, with the values that the workspace has for
  what the rule refers to. Compiling, the analysis of dependencies, the formatter and the text layer of JSON
  are fields of \<open>test_env\<close>.
\<close>

section \<open>Names\<close>

definition get_last_package_part :: "string \<Rightarrow> string" where
  "get_last_package_part packagePath = last (split_byte CHR ''.'' packagePath)"

definition create_test_package :: "string \<Rightarrow> string" where
  "create_test_package packagePath =
     (let lastPart = get_last_package_part packagePath in if lastPart = '''' then ''test'' else lastPart @ ''_test'')"

definition create_test_name :: "string \<Rightarrow> string" where
  "create_test_name ruleName = ''test_'' @ ruleName"

definition create_rule_call :: "string \<Rightarrow> string \<Rightarrow> string" where
  "create_rule_call packagePath ruleName =
     (let packageName = get_last_package_part packagePath in
      if packageName = '''' then ruleName else packageName @ ''.'' @ ruleName)"

definition build_test_header :: "string \<Rightarrow> string" where
  "build_test_header packagePath =
     ''package '' @ create_test_package packagePath @ [newline, newline] @ ''import '' @ packagePath"

definition build_test_function :: "string \<Rightarrow> string \<Rightarrow> string list \<Rightarrow> string" where
  "build_test_function packagePath ruleName withClauses =
     create_test_name ruleName @ '' if {'' @ [newline] @ ''    '' @ create_rule_call packagePath ruleName
       @ (if withClauses \<noteq> [] then '' with '' @ join_str '' with '' withClauses else '''') @ [newline] @ ''}''"

section \<open>Values of references\<close>

record ('r, 'c) test_env =
  tg_rules :: "'r rego_module \<Rightarrow> nat"
  tg_package :: "'r rego_module \<Rightarrow> string"
  tg_compile :: "(string, 'r rego_module) gomap \<Rightarrow> string + (string, 'c list) gomap"
  tg_rule_name :: "'c \<Rightarrow> string"
  tg_base :: "'c \<Rightarrow> string + aval list list"
  tg_head_base :: "'c \<Rightarrow> string + aval list list"
  tg_term_string :: "aval \<Rightarrow> string"
  tg_json :: "aval \<Rightarrow> string + gval"
  tg_read :: "string \<Rightarrow> string + string"
  tg_unmarshal :: "string \<Rightarrow> string + (string, gval) gomap"
  tg_float :: "string \<Rightarrow> string"
  tg_marshal :: "gval \<Rightarrow> string + string"
  tg_format :: "string \<Rightarrow> string + string"

text \<open>A nil map is an empty one, and a value that is nil is none.\<close>

fun lookup_value :: "(string, gval) gomap \<Rightarrow> string list \<Rightarrow> gval option" where
  "lookup_value node [] = None"
| "lookup_value node [leaf] = (case map_get node leaf of Some GNil \<Rightarrow> None | r \<Rightarrow> r)"
| "lookup_value node (key # keys) = (case map_get node key of Some (GMap child) \<Rightarrow> lookup_value child keys | _ \<Rightarrow> None)"

definition format_value :: "('r, 'c) test_env \<Rightarrow> gval \<Rightarrow> string" where
  "format_value env v =
     (case v of
        GStr s \<Rightarrow> quoted s
      | GFloat f \<Rightarrow> tg_float env f
      | GBool b \<Rightarrow> if b then ''true'' else ''false''
      | _ \<Rightarrow> (case tg_marshal env v of Inr t \<Rightarrow> t | Inl e \<Rightarrow> [dquote] @ ''unknown'' @ [dquote]))"

definition build_ref_path :: "string \<Rightarrow> string list \<Rightarrow> string" where
  "build_ref_path root keys = join_str ''.'' (root # keys)"

definition with_clause :: "('r, 'c) test_env \<Rightarrow> string \<Rightarrow> (string, gval) gomap \<Rightarrow> aval list \<Rightarrow> string list" where
  "with_clause env root values ref =
     (if hd ref = AVar root then
        (let keys = ref_keys (tg_term_string env) ref in
         case lookup_value values keys of
           None \<Rightarrow> []
         | Some v \<Rightarrow> [build_ref_path root keys @ '' as '' @ format_value env v])
      else [])"

definition with_clauses :: "('r, 'c) test_env \<Rightarrow> (string, gval) gomap \<Rightarrow> (string, gval) gomap \<Rightarrow> aval list list
    \<Rightarrow> string list" where
  "with_clauses env inp dat refs =
     foldl (\<lambda>clauses ref.
       if length ref < 2 then clauses
       else clauses @ with_clause env ''input'' inp ref @ with_clause env ''data'' dat ref) [] refs"

definition find_data_file :: "('r, 'c) test_env \<Rightarrow> string \<Rightarrow> (string, gval) gomap" where
  "find_data_file env workspacePath =
     (case tg_read env (fp_join [workspacePath, ''data.json'']) of
        Inl e \<Rightarrow> []
      | Inr content \<Rightarrow> (case tg_unmarshal env content of Inl e \<Rightarrow> [] | Inr m \<Rightarrow> m))"

definition input_data :: "('r, 'c) test_env \<Rightarrow> input_manager \<Rightarrow> 'b regal_store \<Rightarrow> string \<Rightarrow> (string, gval) gomap" where
  "input_data env im st fileURI =
     (let inputPath = find_for_path im fileURI in
      if inputPath = '''' then []
      else (case tg_json env (input_get im st inputPath) of Inr (GMap m) \<Rightarrow> m | _ \<Rightarrow> []))"

definition analyze_dependencies :: "('r, 'c) test_env \<Rightarrow> input_manager \<Rightarrow> 'b regal_store \<Rightarrow> string \<Rightarrow> string \<Rightarrow> 'c
    \<Rightarrow> string + string list" where
  "analyze_dependencies env im st workspacePath fileURI rule =
     bind_res (tg_base env rule) (\<lambda>refs.
     bind_res (tg_head_base env rule) (\<lambda>headRefs.
       Inr (with_clauses env (input_data env im st fileURI) (find_data_file env workspacePath) (refs @ headRefs))))"

section \<open>Tests\<close>

text \<open>The part of a formatted file from its first line that starts a test.\<close>

fun from_test :: "string list \<Rightarrow> string list option" where
  "from_test [] = None"
| "from_test (line # lines) =
     (if has_prefix (trim_space line) ''test_'' then Some (line # lines) else from_test lines)"

definition complete_test :: "string \<Rightarrow> string \<Rightarrow> string" where
  "complete_test packagePath testFunction = build_test_header packagePath @ [newline, newline] @ testFunction"

definition create_test_function :: "('r, 'c) test_env \<Rightarrow> input_manager \<Rightarrow> 'b regal_store \<Rightarrow> string \<Rightarrow> string \<Rightarrow> string \<Rightarrow> 'c
    \<Rightarrow> string + string" where
  "create_test_function env im st workspacePath fileURI packagePath rule =
     bind_res (analyze_dependencies env im st workspacePath fileURI rule) (\<lambda>withClauses.
       let name = tg_rule_name env rule;
           full = build_test_function packagePath name withClauses;
           plain = build_test_function packagePath name []
       in bind_res (case tg_format env (complete_test packagePath full) of
              Inr t \<Rightarrow> Inr (full, t)
            | Inl e \<Rightarrow> bind_res (tg_format env (complete_test packagePath plain)) (\<lambda>t. Inr (plain, t)))
            (\<lambda>(testFunction, formatted).
              Inr (case from_test (split_byte newline formatted) of
                     Some lines \<Rightarrow> join_str [newline] lines
                   | None \<Rightarrow> testFunction)))"

datatype test_gen_error =
    NoRules
  | CompilationFailed string
  | NoCompiledModule string
  | NoTests "(string \<times> string) list"
  | SomeRulesFailed "(string \<times> string) list"

text \<open>The loop over the rules: the text so far, the errors and the number of tests.\<close>

definition add_test where
  "add_test env create = (\<lambda>(b, ruleErrs, successCount) rule.
     (case create rule of
        Inl e \<Rightarrow> (b, ruleErrs @ [(tg_rule_name env rule, e)], successCount)
      | Inr t \<Rightarrow> (b @ [newline, newline] @ t, ruleErrs, Suc successCount)))"

definition create_test_module :: "('r, 'c) test_env \<Rightarrow> input_manager \<Rightarrow> 'b regal_store \<Rightarrow> string \<Rightarrow> string
    \<Rightarrow> 'r rego_module \<Rightarrow> (string, 'r rego_module) gomap \<Rightarrow> string \<times> test_gen_error option" where
  "create_test_module env im st workspacePath fileURI md allModules =
     (if tg_rules env md = 0 then ('''', Some NoRules)
      else case tg_compile env allModules of
        Inl e \<Rightarrow> ('''', Some (CompilationFailed e))
      | Inr compiled \<Rightarrow>
          (case map_get compiled fileURI of
             None \<Rightarrow> ('''', Some (NoCompiledModule fileURI))
           | Some rules \<Rightarrow>
               let packagePath = tg_package env md in
               (case foldl (add_test env (create_test_function env im st workspacePath fileURI packagePath))
                       (build_test_header packagePath, [], 0) rules of
                  (b, ruleErrs, successCount) \<Rightarrow>
                    if successCount = (0 :: nat) then ('''', Some (NoTests ruleErrs))
                    else (b, if ruleErrs = [] then None else Some (SomeRulesFailed ruleErrs)))))"

section \<open>What the tests hold\<close>

lemma lookup_value_at:
  "lookup_value m ks = (if ks = [] then None else case value_at ks (GMap m) of Some GNil \<Rightarrow> None | r \<Rightarrow> r)"
proof (induction m ks rule: lookup_value.induct)
  case (2 node leaf)
  show ?case by (simp split: option.split)
next
  case (3 node key k ks)
  show ?case
  proof (cases "map_get node key")
    case (Some v)
    then show ?thesis using 3 by (cases v) simp_all
  qed simp
qed simp

lemma with_clauses_concat:
  "with_clauses env inp dat refs = concat (map (\<lambda>ref. if length ref < 2 then []
     else with_clause env ''input'' inp ref @ with_clause env ''data'' dat ref) refs)"
proof -
  have "foldl (\<lambda>clauses ref. if length ref < 2 then clauses
       else clauses @ with_clause env ''input'' inp ref @ with_clause env ''data'' dat ref) cs refs
     = cs @ concat (map (\<lambda>ref. if length ref < 2 then []
     else with_clause env ''input'' inp ref @ with_clause env ''data'' dat ref) refs)" for cs
    by (induction refs arbitrary: cs) auto
  then show ?thesis by (simp add: with_clauses_def)
qed

lemma with_clauses_input:
  assumes "ref \<in> set refs" "length ref > 1" "c \<in> set (with_clause env ''input'' inp ref)"
  shows "c \<in> set (with_clauses env inp dat refs)"
proof -
  have "c \<in> set (if length ref < 2 then [] else with_clause env ''input'' inp ref @ with_clause env ''data'' dat ref)"
    using assms by simp
  with assms(1) show ?thesis unfolding with_clauses_concat set_concat set_map by blast
qed

lemma input_ref_head: "has_prefix ref [AVar ''input''] \<Longrightarrow> hd ref = AVar ''input''"
  by (cases ref) auto


lemma add_test_fold:
  "foldl (add_test env create) (b, errs, n) rules =
     (b @ concat (map (\<lambda>r. case create r of Inl e \<Rightarrow> [] | Inr t \<Rightarrow> [newline, newline] @ t) rules),
      errs @ concat (map (\<lambda>r. case create r of Inl e \<Rightarrow> [(tg_rule_name env r, e)] | Inr t \<Rightarrow> []) rules),
      n + length (filter (\<lambda>r. \<not> isl (create r)) rules))"
  by (induction rules arbitrary: b errs n) (auto simp: add_test_def split: sum.splits)

text \<open>The tests that are generated for a file account for all of its rules: there is a test for each rule for which one
  can be made, in their order, and each other rule is named in the error; the file is written only if there is a
  test.\<close>

theorem test_module_accounts_for_rules:
  assumes "tg_rules env md \<noteq> 0" "tg_compile env mods = Inr compiled" "map_get compiled fileURI = Some rules"
    "create = create_test_function env im st workspacePath fileURI (tg_package env md)"
    "good = filter (\<lambda>r. \<not> isl (create r)) rules" "bad = filter (\<lambda>r. isl (create r)) rules"
  shows "create_test_module env im st workspacePath fileURI md mods =
     (if good = [] then ('''', Some (NoTests (map (\<lambda>r. (tg_rule_name env r, projl (create r))) bad)))
      else (build_test_header (tg_package env md) @ concat (map (\<lambda>r. [newline, newline] @ projr (create r)) good),
        if bad = [] then None else Some (SomeRulesFailed (map (\<lambda>r. (tg_rule_name env r, projl (create r))) bad))))"
proof -
  have "concat (map (\<lambda>r. case create r of Inl e \<Rightarrow> [] | Inr t \<Rightarrow> [newline, newline] @ t) rules)
      = concat (map (\<lambda>r. [newline, newline] @ projr (create r)) good)"
    unfolding assms(5) by (induction rules) (auto split: sum.splits)
  moreover have "concat (map (\<lambda>r. case create r of Inl e \<Rightarrow> [(tg_rule_name env r, e)] | Inr t \<Rightarrow> []) rules)
      = map (\<lambda>r. (tg_rule_name env r, projl (create r))) bad"
    unfolding assms(6) by (induction rules) (auto split: sum.splits)
  ultimately show ?thesis
    using assms(1-3) by (simp add: create_test_module_def add_test_fold Let_def assms(4)[symmetric] assms(5))
qed

section \<open>A concrete file\<close>

definition sample_test_env :: "(unit, string) test_env" where
  "sample_test_env =
     \<lparr>tg_rules = (\<lambda>m. 2), tg_package = (\<lambda>m. ''data.p''), tg_compile = (\<lambda>ms. Inr [(''file:///ws/a.rego'', [''allow'', ''deny''])]),
      tg_rule_name = (\<lambda>r. r), tg_base = (\<lambda>r. if r = ''deny'' then Inl ''no dependencies'' else Inr sample_input_refs),
      tg_head_base = (\<lambda>r. Inr []), tg_term_string = sample_term_string, tg_json = (\<lambda>v. Inr (GMap [])), tg_read = Inl,
      tg_unmarshal = Inl, tg_float = (\<lambda>f. f), tg_marshal = (\<lambda>v. Inl ''unsupported''), tg_format = Inr\<rparr>"


theorem test_module_accounts_for_rules_witness:
  "create_test_module sample_test_env new_manager (new_regal_store :: unit regal_store) ''/ws'' ''file:///ws/a.rego'' sample_module []
   = (build_test_header ''data.p'' @ [newline, newline] @ ''test_allow if {'' @ [newline] @ ''    p.allow'' @ [newline] @ ''}'',
      Some (SomeRulesFailed [(''deny'', ''no dependencies'')]))"
proof -
  let ?create = "create_test_function sample_test_env new_manager (new_regal_store :: unit regal_store) ''/ws'' ''file:///ws/a.rego''
    (tg_package sample_test_env sample_module)"
  have create: "?create ''allow'' = Inr (''test_allow if {'' @ [newline] @ ''    p.allow'' @ [newline] @ ''}'')"
    "?create ''deny'' = Inl ''no dependencies''" by code_simp+
  have c: "tg_rules sample_test_env sample_module \<noteq> 0"
    "tg_compile sample_test_env [] = Inr [(''file:///ws/a.rego'', [''allow'', ''deny''])]"
    "map_get [(''file:///ws/a.rego'', [''allow'', ''deny''])] ''file:///ws/a.rego'' = Some [''allow'', ''deny'']"
    "tg_package sample_test_env sample_module = ''data.p''" "tg_rule_name sample_test_env ''deny'' = ''deny''"
    by (simp_all add: sample_test_env_def)
  show ?thesis
    using test_module_accounts_for_rules[OF c(1-3) refl refl refl, of new_manager "new_regal_store :: unit regal_store" "''/ws''"] create c(4,5)
    by simp
qed

text \<open>Values under keys that are no identifiers, or under numbers, make the text unparsable; the test is then made without
  any value, also without those that were found under plain keys.\<close>

lemma unparsable_clauses_dropped:
  assumes "analyze_dependencies env im st workspacePath fileURI rule = Inr clauses"
    "tg_format env (complete_test pkg (build_test_function pkg (tg_rule_name env rule) clauses)) = Inl e"
    "tg_format env (complete_test pkg (build_test_function pkg (tg_rule_name env rule) [])) = Inr t"
  shows "create_test_function env im st workspacePath fileURI pkg rule =
     Inr (case from_test (split_byte newline t) of
       Some lines \<Rightarrow> join_str [newline] lines | None \<Rightarrow> build_test_function pkg (tg_rule_name env rule) [])"
  using assms by (simp add: create_test_function_def Let_def)

end
