(* ===== verification/Lsp_Commands.thy ===== *)
theory Lsp_Commands
  imports Lsp_Server Test_Gen Config_Modify
begin

text \<open>
  \<open>internal/lsp/server_command.go\<close>: the worker that runs the commands of the editor, the commands of the
  explorer and for tests, \<open>internal/explorer/stages.go\<close>, and \<open>internal/lsp/command/debug.go\<close>. The commands that
  fix a file or rename it are in Lsp_Edits and Lsp_Server, the evaluation in Lsp_Eval, and the one that
  disables a rule in Config_Modify.

  The parser, the stages of the compiler, the planner and the file system's answers are fields of the
  environments. What a command does outside the server is appended to \<open>cs_out\<close>, besides what the state of the
  server and of the evaluation records. A panic, or a search that does not end, is \<^term>\<open>None\<close>.
\<close>

section \<open>The stages of a compilation\<close>

record 'm compile_result =
  cr_stage :: string
  cr_result :: "'m option"
  cr_error :: string

record 'm explorer_env =
  xe_parse :: "string \<Rightarrow> string \<Rightarrow> bool \<Rightarrow> string + 'm"
  xe_stages :: "string list"
  xe_compile :: "string \<Rightarrow> 'm \<Rightarrow> bool \<Rightarrow> bool \<Rightarrow> bool \<Rightarrow> (string \<times> 'm) list \<times> string"
  xe_text :: "'m \<Rightarrow> string"
  xe_format :: "'m \<Rightarrow> string"
  xe_build :: "string \<Rightarrow> string \<Rightarrow> 'm \<Rightarrow> bool \<Rightarrow> string + string"
  xe_pretty :: "string \<Rightarrow> string + string"
  xe_temp :: "string + string"

definition formatted_result :: "'m explorer_env \<Rightarrow> 'm compile_result \<Rightarrow> string" where
  "formatted_result xenv cr = (case cr_result cr of None \<Rightarrow> '''' | Some m \<Rightarrow> xe_format xenv m)"

text \<open>What the compiler reports is the modules after the stages that ended, and its errors. The failed stage is the one
  behind the last that was recorded.\<close>

definition compiler_stages :: "'m explorer_env \<Rightarrow> string \<Rightarrow> string \<Rightarrow> bool \<Rightarrow> bool \<Rightarrow> bool \<Rightarrow> 'm compile_result list option" where
  "compiler_stages xenv path rego strict anno print =
     (case xe_parse xenv path rego anno of
        Inl e \<Rightarrow> Some [\<lparr>cr_stage = ''ParseModule'', cr_result = None, cr_error = e\<rparr>]
      | Inr m \<Rightarrow>
          (case xe_compile xenv path m strict anno print of (recorded, errs) \<Rightarrow>
             let result = \<lparr>cr_stage = ''ParseModule'', cr_result = Some m, cr_error = ''''\<rparr>
                   # map (\<lambda>(stage, m). \<lparr>cr_stage = stage, cr_result = Some m, cr_error = ''''\<rparr>) recorded
             in if errs = '''' then Some result
                else map_option (\<lambda>stage. result @ [\<lparr>cr_stage = stage @ '': Failure'', cr_result = None, cr_error = errs\<rparr>])
                  (idx_get (xe_stages xenv) (int (length result) - 1))))"

text \<open>\<open>Plan\<close>; a build for a plan gives the text of its first module.\<close>

definition explorer_plan :: "'m explorer_env \<Rightarrow> string \<Rightarrow> string \<Rightarrow> bool \<Rightarrow> string + string" where
  "explorer_plan xenv path rego print =
     bind_res (xe_parse xenv path rego False) (\<lambda>m. bind_res (xe_build xenv path rego m print) (xe_pretty xenv))"

section \<open>State and environment\<close>

datatype command_output =
    ShownStages "(string \<times> string \<times> bool) list" string
  | MadeDir string
  | FileWritten string string
  | DocumentShown string bool
  | InfoShown string
  | DebugStarted string string nat

record ('r, 'b, 'd, 'y, 't, 'p, 'v) command_server = "('r, 'b, 'd, 'y, 't, 'p, 'v) eval_server" +
  cs_out :: "command_output list"

text \<open>\<open>ce_eval\<close> and \<open>ce_tests\<close> are an \<open>eval_env\<close> and a \<open>test_env\<close>. \<open>ce_decode\<close> reads the arguments of a command, as what the
  fixes and what the evaluation need of them.\<close>

record ('e, 'tg, 'm, 'v) command_env =
  ce_eval :: 'e
  ce_tests :: 'tg
  ce_explorer :: "'m explorer_env"
  ce_yaml :: yaml_env
  ce_decode :: "string \<Rightarrow> string + command_args \<times> eval_args"
  ce_answer :: "'v eval_output list \<Rightarrow> string"
  ce_write :: "string \<Rightarrow> string option"
  ce_mkdir :: "string \<Rightarrow> string option"
  ce_debug_call :: "string option"
  ce_debug_port :: "nat option"
  ce_debug_provider :: bool
  ce_enable_explorer :: bool
  ce_enable_debug :: bool

definition add_out where
  "add_out outs cs = cs\<lparr>cs_out := cs_out cs @ outs\<rparr>"

record exec_params =
  xp_command :: string
  xp_arguments :: "gval list"

datatype command_error =
    NoExplorer
  | BadArguments
  | NoTarget
  | NoContentsFor string
  | TempFailed string
  | NotWritten string
  | DebugUnsupported
  | DebugNoQuery
  | DebugFailed string
  | TestsFailed test_gen_error

definition string_at :: "(string, gval) gomap \<Rightarrow> string \<Rightarrow> string" where
  "string_at m k = (case map_get m k of Some (GStr s) \<Rightarrow> s | _ \<Rightarrow> '''')"

definition bool_at :: "(string, gval) gomap \<Rightarrow> string \<Rightarrow> bool" where
  "bool_at m k = (case map_get m k of Some (GBool b) \<Rightarrow> b | _ \<Rightarrow> False)"

section \<open>The explorer\<close>

record explorer_args =
  xa_target :: string
  xa_strict :: bool
  xa_annotations :: bool
  xa_print :: bool
  xa_format :: bool

definition explorer_args_of :: "gval list \<Rightarrow> command_error + explorer_args" where
  "explorer_args_of args =
     (case args of
        [] \<Rightarrow> Inr \<lparr>xa_target = '''', xa_strict = False, xa_annotations = False, xa_print = False, xa_format = False\<rparr>
      | GMap m # _ \<Rightarrow> Inr \<lparr>xa_target = string_at m ''target'', xa_strict = bool_at m ''strict'',
          xa_annotations = bool_at m ''annotations'', xa_print = bool_at m ''print'', xa_format = bool_at m ''format''\<rparr>
      | _ \<Rightarrow> Inl BadArguments)"

definition stage_output :: "'m explorer_env \<Rightarrow> bool \<Rightarrow> 'm compile_result \<Rightarrow> string" where
  "stage_output xenv fmt cs =
     (if cr_error cs \<noteq> '''' then cr_error cs
      else if fmt then formatted_result xenv cs
      else case cr_result cs of Some m \<Rightarrow> xe_text xenv m | None \<Rightarrow> '''')"

definition show_stages :: "'m explorer_env \<Rightarrow> explorer_args \<Rightarrow> string \<Rightarrow> string \<Rightarrow> 'm compile_result list \<Rightarrow> command_output" where
  "show_stages xenv xa path contents results =
     ShownStages (map (\<lambda>cs. (cr_stage cs, stage_output xenv (xa_format xa) cs, cr_error cs \<noteq> '''')) results)
       (if list_ex (\<lambda>cs. cr_error cs \<noteq> '''') results then ''''
        else (case explorer_plan xenv path contents (xa_print xa) of Inl e \<Rightarrow> '''' | Inr plan \<Rightarrow> plan))"

definition two_digits :: "nat \<Rightarrow> string" where
  "two_digits i = (if i < 10 then ''0'' @ itoa i else itoa i)"

definition stage_file :: "string \<Rightarrow> nat \<Rightarrow> string \<Rightarrow> string \<Rightarrow> string" where
  "stage_file tmpDir i baseName stage =
     fp_join [tmpDir, two_digits i @ ''_'' @ baseName @ ''_''
       @ map (\<lambda>c. if c = CHR '' '' then CHR ''_'' else c) stage @ ''.txt'']"

text \<open>The loop over the stages: the files that are written, and those to open. Only a stage whose output differs from
  that of the one that was opened before is opened.\<close>

fun stage_files :: "'m explorer_env \<Rightarrow> (string \<Rightarrow> string option) \<Rightarrow> bool \<Rightarrow> string \<Rightarrow> string \<Rightarrow> nat \<Rightarrow> string
    \<Rightarrow> 'm compile_result list \<Rightarrow> (string \<times> string) list \<times> string list" where
  "stage_files xenv wr fmt tmpDir baseName i previous [] = ([], [])"
| "stage_files xenv wr fmt tmpDir baseName i previous (cs # css) =
     (let output = stage_output xenv fmt cs; filename = stage_file tmpDir i baseName (cr_stage cs) in
      if output = '''' \<or> wr filename \<noteq> None then stage_files xenv wr fmt tmpDir baseName (Suc i) previous css
      else if output \<noteq> previous then
        map_prod (Cons (filename, output)) (Cons filename) (stage_files xenv wr fmt tmpDir baseName (Suc i) output css)
      else map_prod (Cons (filename, output)) id (stage_files xenv wr fmt tmpDir baseName (Suc i) previous css))"

definition write_stages :: "'m explorer_env \<Rightarrow> (string \<Rightarrow> string option) \<Rightarrow> workspace \<Rightarrow> explorer_args \<Rightarrow> string \<Rightarrow> string
    \<Rightarrow> 'm compile_result list \<Rightarrow> command_output list \<times> command_error option" where
  "write_stages xenv wr ws xa path contents results =
     (case xe_temp xenv of
        Inl e \<Rightarrow> ([], Some (TempFailed e))
      | Inr tmpDir \<Rightarrow>
          let baseName = trim_suffix (fp_base (to_path (xa_target xa))) ''.rego'';
              planFile = fp_join [tmpDir, two_digits (length results) @ ''_'' @ baseName @ ''_Plan.txt'']
          in (case stage_files xenv wr (xa_format xa) tmpDir baseName 0 '''' results of (files, toOpen) \<Rightarrow>
                (map (\<lambda>(f, t). FileWritten f t) files
                 @ map (\<lambda>f. DocumentShown (workspace_uri ws [f]) False) toOpen
                 @ (if list_ex (\<lambda>cs. cr_error cs \<noteq> '''') results then []
                    else (case explorer_plan xenv path contents (xa_print xa) of
                        Inl e \<Rightarrow> []
                      | Inr plan \<Rightarrow>
                          if plan = '''' \<or> wr planFile \<noteq> None then []
                          else [FileWritten planFile plan, DocumentShown (workspace_uri ws [planFile]) False])),
                 None)))"

definition handle_explorer_command where
  "handle_explorer_command cenv params cs =
     (let s = es_server cs; ws = sv_workspace s; xenv = ce_explorer cenv in
      if \<not> ce_enable_explorer cenv then Some (cs, Some NoExplorer)
      else case explorer_args_of (xp_arguments params) of
        Inl e \<Rightarrow> Some (cs, Some e)
      | Inr xa \<Rightarrow>
          if xa_target xa = '''' then Some (cs, Some NoTarget)
          else (case get_file_contents (sv_cache s) (xa_target xa) of
              None \<Rightarrow> Some (cs, Some (NoContentsFor (xa_target xa)))
            | Some contents \<Rightarrow>
                let path = workspace_relative_path ws (xa_target xa) in
                map_option (\<lambda>results.
                    if ws_client ws = IdentifierVSCode then (add_out [show_stages xenv xa path contents results] cs, None)
                    else (case write_stages xenv (ce_write cenv) ws xa path contents results of
                      (outs, e) \<Rightarrow> (add_out outs cs, e)))
                  (compiler_stages xenv path contents (xa_strict xa) (xa_annotations xa) (xa_print xa))))"

section \<open>Tests\<close>

definition display_test_result where
  "display_test_result cenv testCode sourceURI cs =
     (let ws = sv_workspace (es_server cs);
          testFileName = workspace_path ws [trim_suffix (fp_base (to_path sourceURI)) ''.rego'' @ ''_test.rego'']
      in case ce_write cenv testFileName of
           Some e \<Rightarrow> (cs, Some (NotWritten e))
         | None \<Rightarrow> (add_out [FileWritten testFileName testCode, DocumentShown (workspace_uri ws [testFileName]) True] cs, None))"

text \<open>The value of an input is nil only for a file that is neither JSON nor YAML, which the server never loads as an
  input; a null is a value.\<close>

definition handle_create_test_command where
  "handle_create_test_command cenv params cs =
     (let s = es_server cs in
      case (case xp_arguments params of [] \<Rightarrow> Inr '''' | GMap m # _ \<Rightarrow> Inr (string_at m ''target'') | _ \<Rightarrow> Inl BadArguments) of
        Inl e \<Rightarrow> (cs, Some e)
      | Inr target \<Rightarrow>
          if target = '''' then (cs, Some NoTarget)
          else
            let inputPath = find_for_path (sv_inputs s) target;
                inputEmpty = (input_get (sv_inputs s) (sv_store s) inputPath = AObj [])
            in if inputPath = '''' \<or> inputEmpty then
                 (add_out [InfoShown ''No input.json or input.yaml file found. Create one to provide test input data.''] cs, None)
               else (case get_content_and_module (sv_cache s) target of
                   None \<Rightarrow> (cs, Some (NoContentsFor target))
                 | Some (contents, md) \<Rightarrow>
                     (case create_test_module (ce_tests cenv) (sv_inputs s) (sv_store s) (workspace_path (sv_workspace s) [])
                             target md (get_all_modules (sv_cache s)) of
                        (combinedTest, err) \<Rightarrow>
                          if combinedTest = '''' then (cs, map_option TestsFailed err)
                          else display_test_result cenv combinedTest target cs)))"

section \<open>Debugging\<close>

text \<open>\<open>debug.Run\<close>; what varies in the message to the client is the query, the input's path and the port.\<close>

definition run_debug where
  "run_debug cenv port args cs =
     (let s = es_server cs; rel = find_for_path (sv_inputs s) (ev_target args);
          inputPath = (if rel = '''' then '''' else workspace_path (sv_workspace s) [rel])
      in if \<not> ce_enable_debug cenv then (cs, Some DebugUnsupported)
         else if ev_target args = '''' \<or> ev_query args = '''' then (cs, Some DebugNoQuery)
         else (add_out [DebugStarted (ev_query args) inputPath port] cs, map_option DebugFailed (ce_debug_call cenv)))"

definition debug_command where
  "debug_command cenv args cs =
     (if ce_debug_provider cenv
      then run_debug cenv (case ce_debug_port cenv of Some p \<Rightarrow> p | None \<Rightarrow> 0) args cs
      else (cs, None))"

section \<open>The worker\<close>

text \<open>The labels and fixes of the commands that edit a file.\<close>

definition edit_commands :: "(string \<times> string \<times> fix_kind) list" where
  "edit_commands =
     [(''regal.fix.opa-fmt'', ''Format using opa fmt'', Fmt ''''),
      (''regal.fix.use-rego-v1'', ''Format for Rego v1 using opa-fmt'', Fmt ''''),
      (''regal.fix.use-assignment-operator'', ''Replace = with := in assignment'', UseAssignmentOperator),
      (''regal.fix.no-whitespace-comment'', ''Format comment to have leading whitespace'', NoWhitespaceComment),
      (''regal.fix.non-raw-regex-pattern'', ''Replace \" with ` in regex pattern'', NonRawRegexPattern),
      (''regal.fix.prefer-equals-comparison'', ''Replace = with == in comparison'', PreferEqualsComparison),
      (''regal.fix.constant-condition'', ''Remove constant condition'', ConstantCondition),
      (''regal.fix.redundant-existence-check'', ''Remove redundant existence check'', RedundantExistenceCheck)]"

definition on_server where
  "on_server f cs = map_option (\<lambda>s. cs\<lparr>es_server := s\<rparr>) (f (es_server cs))"

text \<open>An error of a command is shown to the user.\<close>

definition command_failed where
  "command_failed cs = cs\<lparr>es_server := emit (ShowMessage ''command failed'') (es_server cs)\<rparr>"

definition show_failure where
  "show_failure r = map_option (\<lambda>(cs, err). if err = None then cs else command_failed cs) r"

definition ignore_rule where
  "ignore_rule cenv senv args cs =
     map_option (\<lambda>(dirs, files, err). add_out (map MadeDir dirs @ map (\<lambda>(f, t). FileWritten f t) files) cs)
       (handle_ignore_rule_command (ce_yaml cenv) senv (ce_mkdir cenv) (ce_write cenv) (es_server cs) args)"

text \<open>One command of the channel, for the environment \<open>senv\<close> of the server. The errors of the explorer, of tests, of the
  rename and of disabling a rule are only logged, as are arguments that cannot be read; a command of another
  name does nothing.\<close>

definition string_command where
  "string_command cenv senv cmd args cs =
     (case args of (fixArgs, evalArgs) \<Rightarrow>
        (case map_get edit_commands cmd of
           Some (label, fx) \<Rightarrow> on_server (fix_command senv label fx fixArgs) cs
         | None \<Rightarrow>
             if cmd = ''regal.fix.directory-package-mismatch'' then on_server (rename_command senv (ca_target fixArgs)) cs
             else if cmd = ''regal.eval'' then
               show_failure (handle_eval_command (ce_eval cenv) (ce_answer cenv) (ce_write cenv) evalArgs cs)
             else if cmd = ''regal.debug'' then show_failure (Some (debug_command cenv evalArgs cs))
             else if cmd = ''regal.config.disable-rule'' then ignore_rule cenv senv fixArgs cs
             else Some cs))"

definition run_command where
  "run_command cenv senv params cs =
     (if xp_command params = ''regal.explorer'' then map_option fst (handle_explorer_command cenv params cs)
      else if xp_command params = ''regal.createTest'' then Some (fst (handle_create_test_command cenv params cs))
      else case xp_arguments params of
        [GStr jsonData] \<Rightarrow>
          (case ce_decode cenv jsonData of
             Inl e \<Rightarrow> Some cs
           | Inr args \<Rightarrow> string_command cenv senv (xp_command params) args cs)
      | _ \<Rightarrow> Some cs)"

text \<open>The channel of commands holds ten; the request that adds one more waits, here \<^term>\<open>None\<close>.\<close>

definition command_capacity :: nat where
  "command_capacity = 10"

definition handle_execute_command :: "exec_params \<Rightarrow> exec_params list \<Rightarrow> exec_params list option" where
  "handle_execute_command params queue = (if length queue < command_capacity then Some (queue @ [params]) else None)"

section \<open>Which stages are opened\<close>

lemma stage_files_opened:
  "\<exists>sel. snd (stage_files xenv wr fmt tmpDir baseName i previous css) = map fst sel
     \<and> subseq sel (fst (stage_files xenv wr fmt tmpDir baseName i previous css))
     \<and> map snd sel = tl (remdups_adj (previous # map snd (fst (stage_files xenv wr fmt tmpDir baseName i previous css))))"
proof (induction xenv wr fmt tmpDir baseName i previous css rule: stage_files.induct)
  case (2 xenv wr fmt tmpDir baseName i previous cs css)
  let ?out = "stage_output xenv fmt cs" let ?file = "stage_file tmpDir i baseName (cr_stage cs)"
  consider "?out = '''' \<or> wr ?file \<noteq> None" | "?out \<noteq> ''''" "wr ?file = None" "?out \<noteq> previous"
    | "?out \<noteq> ''''" "wr ?file = None" "?out = previous" by blast
  then show ?case
  proof cases
    case 1
    then show ?thesis using 2(1)[OF refl refl 1] by (simp add: Let_def)
  next
    case 2
    then have "\<not> (?out = '''' \<or> wr ?file \<noteq> None)" by simp
    from "2.IH"(2)[OF refl refl this 2(3)] obtain sel where
      sel: "snd (stage_files xenv wr fmt tmpDir baseName (Suc i) ?out css) = map fst sel"
        "subseq sel (fst (stage_files xenv wr fmt tmpDir baseName (Suc i) ?out css))"
        "map snd sel = tl (remdups_adj (?out # map snd (fst (stage_files xenv wr fmt tmpDir baseName (Suc i) ?out css))))"
      by blast
    have "map snd ((?file, ?out) # sel)
      = remdups_adj (?out # map snd (fst (stage_files xenv wr fmt tmpDir baseName (Suc i) ?out css)))"
      using sel(3) by (simp add: remdups_adj_Cons split: list.splits)
    then show ?thesis using 2 sel by (intro exI[of _ "(?file, ?out) # sel"]) (simp add: Let_def)
  next
    case 3
    then have n: "\<not> (?out = '''' \<or> wr ?file \<noteq> None)" "\<not> ?out \<noteq> previous" by simp_all
    from "2.IH"(3)[OF refl refl n] obtain sel where
      sel: "snd (stage_files xenv wr fmt tmpDir baseName (Suc i) previous css) = map fst sel"
        "subseq sel (fst (stage_files xenv wr fmt tmpDir baseName (Suc i) previous css))"
        "map snd sel = tl (remdups_adj (previous # map snd (fst (stage_files xenv wr fmt tmpDir baseName (Suc i) previous css))))"
      by blast
    then show ?thesis using 3 by (intro exI[of _ sel]) (auto simp: Let_def)
  qed
qed simp

lemma stage_outputs_not_empty:
  "'''' \<notin> set (map snd (fst (stage_files xenv wr fmt tmpDir baseName i previous css)))"
  by (induction xenv wr fmt tmpDir baseName i previous css rule: stage_files.induct) (auto simp: Let_def)

lemma tl_remdups_adj_Cons: "x \<notin> set xs \<Longrightarrow> tl (remdups_adj (x # xs)) = remdups_adj xs"
  by (cases xs) auto

text \<open>Of the stages that the explorer writes, it opens the first of each run with the same output: the outputs that are
  opened are those that are written, without repetitions, and in the same order.\<close>

theorem opened_stages_cover:
  "\<exists>sel. snd (stage_files xenv wr fmt tmpDir baseName i '''' css) = map fst sel
     \<and> subseq sel (fst (stage_files xenv wr fmt tmpDir baseName i '''' css))
     \<and> map snd sel = remdups_adj (map snd (fst (stage_files xenv wr fmt tmpDir baseName i '''' css)))"
  using stage_files_opened[of xenv wr fmt tmpDir baseName i "''''" css]
    tl_remdups_adj_Cons[OF stage_outputs_not_empty[of xenv wr fmt tmpDir baseName i "''''" css]] by simp

section \<open>What commands change\<close>

text \<open>The server, but for what it has sent.\<close>

definition server_knows where
  "server_knows s = s\<lparr>sv_out := []\<rparr>"

lemma emit_knows [simp]: "server_knows (emit x s) = server_knows s"
  by (simp add: server_knows_def emit_def)

lemma add_out_server [simp]: "es_server (add_out outs cs) = es_server cs"
  by (simp add: add_out_def)

lemma command_failed_knows [simp]: "server_knows (es_server (command_failed cs)) = server_knows (es_server cs)"
  by (simp add: command_failed_def)

lemma explorer_server:
  assumes "handle_explorer_command cenv params cs = Some (cs', e)"
  shows "es_server cs' = es_server cs"
  using assms unfolding handle_explorer_command_def Let_def
  by (auto split: if_splits sum.splits option.splits prod.splits)

lemma create_test_server: "es_server (fst (handle_create_test_command cenv params cs)) = es_server cs"
  by (auto simp: handle_create_test_command_def display_test_result_def Let_def split: sum.splits option.splits prod.splits)

lemma debug_server: "debug_command cenv args cs = (cs', e) \<Longrightarrow> es_server cs' = es_server cs"
  by (auto simp: debug_command_def run_debug_def Let_def split: if_splits)

lemma fix_command_knows: "fix_command senv label fx args s = Some s' \<Longrightarrow> server_knows s' = server_knows s"
  unfolding fix_command_def map_option_case
  by (auto split: option.split_asm sum.split_asm list.split_asm)

lemma eval_server:
  "handle_eval_command env answer wr args es = Some (es', r) \<Longrightarrow> es_server es' = es_server es"
  by (drule eval_command_keeps) (simp add: only_adds_def)

text \<open>C37. Of all commands only the one that renames a file changes what the server knows: evaluating, exploring, testing,
  debugging, fixing and disabling a rule leave its documents, modules, diagnostics and configuration as they are, until
  the client tells it what became of the edits.\<close>

theorem only_rename_changes_server:
  assumes "run_command cenv senv params cs = Some cs'" "xp_command params \<noteq> ''regal.fix.directory-package-mismatch''"
  shows "server_knows (es_server cs') = server_knows (es_server cs)"
proof -
  have "server_knows (es_server cs') = server_knows (es_server cs)"
    if "string_command cenv senv (xp_command params) args cs = Some cs'" for args
    using that assms(2)
    by (auto simp: string_command_def on_server_def show_failure_def ignore_rule_def
        split: prod.splits option.splits if_splits dest: fix_command_knows eval_server debug_server)
  then show ?thesis using assms
    by (auto simp: run_command_def create_test_server split: if_splits list.splits gval.splits sum.splits
        dest: explorer_server)
qed

definition sample_explorer_env :: "nat explorer_env" where
  "sample_explorer_env =
     \<lparr>xe_parse = (\<lambda>p r a. Inr 0), xe_stages = [''ResolveRefs'', ''CheckSafetyRuleBodies''],
      xe_compile = (\<lambda>p m strict anno print. ([(''ResolveRefs'', m)], ''unsafe'')), xe_text = (\<lambda>m. ''module''),
      xe_format = (\<lambda>m. ''module''), xe_build = (\<lambda>p c m print. Inl ''no plan''), xe_pretty = Inr, xe_temp = Inr ''/tmp/x''\<rparr>"

definition sample_command_env where
  "sample_command_env =
     \<lparr>ce_eval = sample_eval_env, ce_tests = sample_test_env, ce_explorer = sample_explorer_env, ce_yaml = plain_yaml,
      ce_decode = (\<lambda>t. Inr (\<lparr>ca_target = ''file:///ws/a.rego'', ca_diagnostic = None\<rparr>, sample_eval_args)),
      ce_answer = (\<lambda>outs. ''Yes''), ce_write = (\<lambda>p. None), ce_mkdir = (\<lambda>p. None), ce_debug_call = None,
      ce_debug_port = None, ce_debug_provider = True, ce_enable_explorer = True, ce_enable_debug = False\<rparr>"

definition sample_command_server :: "(unit, unit, nat, string, unit, string \<times> nat, bool) command_server" where
  "sample_command_server = eval_server.extend sample_eval_server \<lparr>cs_out = []\<rparr>"

lemma sample_stages:
  "compiler_stages sample_explorer_env ''a.rego'' ''package a'' False False False =
     Some [\<lparr>cr_stage = ''ParseModule'', cr_result = Some 0, cr_error = ''''\<rparr>,
           \<lparr>cr_stage = ''ResolveRefs'', cr_result = Some 0, cr_error = ''''\<rparr>,
           \<lparr>cr_stage = ''CheckSafetyRuleBodies: Failure'', cr_result = None, cr_error = ''unsafe''\<rparr>]"
  by code_simp

theorem only_rename_changes_server_witness:
  "\<exists>cs'. run_command sample_command_env sample_server_env \<lparr>xp_command = ''regal.debug'', xp_arguments = [GStr ''{}'']\<rparr>
      sample_command_server = Some cs'
    \<and> sv_out (es_server cs') = [ShowMessage ''command failed'']
    \<and> server_knows (es_server cs') = server_knows (es_server sample_command_server)"
proof -
  let ?p = "\<lparr>xp_command = ''regal.debug'', xp_arguments = [GStr ''{}'']\<rparr>"
  have "map_option (\<lambda>cs. sv_out (es_server cs)) (run_command sample_command_env sample_server_env ?p sample_command_server)
    = Some [ShowMessage ''command failed'']" by code_simp
  then obtain cs' where run: "run_command sample_command_env sample_server_env ?p sample_command_server = Some cs'"
    "sv_out (es_server cs') = [ShowMessage ''command failed'']" by auto
  show ?thesis using run only_rename_changes_server[OF run(1)] by simp
qed

text \<open>The compiler cannot report more stages than there are, and if it fails in one of them that one is named; the
  lookup of the failed stage does not panic then.\<close>

lemma compiler_stages_return:
  assumes "\<And>path m strict anno print recorded errs.
      xe_compile xenv path m strict anno print = (recorded, errs) \<Longrightarrow> errs \<noteq> '''' \<Longrightarrow> length recorded < length (xe_stages xenv)"
  shows "compiler_stages xenv path rego strict anno print \<noteq> None"
  by (auto simp: compiler_stages_def Let_def go_idx split: sum.splits prod.splits dest: assms)

text \<open>An error of the rename ends in the log only, unlike the errors of the other fixes.\<close>

lemma rename_error_not_shown:
  assumes "fix_rename_changes senv s (ca_target args) = Some (c, Inl e)"
  shows "string_command cenv senv ''regal.fix.directory-package-mismatch'' (args, ev) cs
     = map_option (\<lambda>s. cs\<lparr>es_server := s\<rparr>) (rename_command senv (ca_target args) (es_server cs))"
    "rename_command senv (ca_target args) s = Some (s\<lparr>sv_cache := c\<rparr>)"
  using assms by (simp_all add: string_command_def edit_commands_def on_server_def rename_command_def)

text \<open>The generated tests go to the root of the workspace, whatever is there, and files of the same name in different
  directories share theirs.\<close>

lemma tests_overwrite:
  assumes "ce_write cenv (workspace_path (sv_workspace (es_server cs)) [trim_suffix (fp_base (to_path u)) ''.rego'' @ ''_test.rego'']) = None"
  shows "cs_out (fst (display_test_result cenv t u cs)) = cs_out cs @
     [FileWritten (workspace_path (sv_workspace (es_server cs)) [trim_suffix (fp_base (to_path u)) ''.rego'' @ ''_test.rego'']) t,
      DocumentShown (workspace_uri (sv_workspace (es_server cs))
        [workspace_path (sv_workspace (es_server cs)) [trim_suffix (fp_base (to_path u)) ''.rego'' @ ''_test.rego'']]) True]"
  using assms by (simp add: display_test_result_def Let_def add_out_def)

end
