(* ===== verification/Lsp_Dispatch.thy ===== *)
theory Lsp_Dispatch
  imports Lsp_Commands Document_Symbol Lsp_Router Lsp_Run
begin

text \<open>
  \<open>internal/lsp/server.go\<close>: what the language server does with a request, from \<open>Handle\<close> on, with
  \<open>internal/lsp/handler/handler.go\<close> and \<open>internal/lsp/server_testing.go\<close>. It puts the parts together: the
  handlers of Lsp_Server, the queue of the commands of Lsp_Commands, the symbols of Document_Symbol, and the
  router of Lsp_Router, whose providers read the state of the server and which has the cache of queries in
  common with the commands.

  Decoding the parameters, finding definitions and running tests are OPA's and the JSON library's, and fields
  of the environments. A panic, or a search that does not end, is \<^term>\<open>None\<close>.
\<close>

section \<open>State\<close>

record ('r, 'b, 'd, 'y, 't, 'p, 'v) lang_server =
  ls_commands :: "('r, 'b, 'd, 'y, 't, 'p, 'v) command_server"
  ls_queue :: "exec_params list"
  ls_pool :: "input_object list"
  ls_log :: "string list"
  ls_level :: nat
  ls_calls :: "string list"
  ls_closed :: bool

definition ls_server where
  "ls_server ls = es_server (ls_commands ls)"

definition set_server where
  "set_server s ls = ls\<lparr>ls_commands := (ls_commands ls)\<lparr>es_server := s\<rparr>\<rparr>"

section \<open>Parameters\<close>

datatype lang_error =
    InvalidParams
  | UndecodedParams string
  | BadTraceValue string
  | ConnectionNotClosed string
  | NotifyFailed handler_error
  | NoDefinitionContents string
  | ModulesNotFiltered
  | TestFileNotParsed
  | TestsNotRun string
  | RouterFailed router_error

text \<open>\<open>Decode\<close> and \<open>WithParams\<close>; a \<open>null\<close> leaves the zero value of the parameters, which \<open>dec\<close> gives for it.\<close>

definition decode_params :: "(string \<Rightarrow> string + 'a) \<Rightarrow> rpc_request \<Rightarrow> lang_error + 'a" where
  "decode_params dec req =
     (case rpc_params req of
        None \<Rightarrow> Inl InvalidParams
      | Some raw \<Rightarrow> (case dec raw of Inl e \<Rightarrow> Inl (UndecodedParams e) | Inr a \<Rightarrow> Inr a))"

definition with_params :: "(string \<Rightarrow> string + 'a) \<Rightarrow> rpc_request \<Rightarrow> 'ls \<Rightarrow> ('a \<Rightarrow> ('ls \<times> (lang_error + 'resp)) option)
    \<Rightarrow> ('ls \<times> (lang_error + 'resp)) option" where
  "with_params dec req ls h = (case decode_params dec req of Inl e \<Rightarrow> Some (ls, Inl e) | Inr a \<Rightarrow> h a)"

text \<open>What the handlers need of their parameters.\<close>

record decoders =
  dc_document :: "string \<Rightarrow> string + string"
  dc_position :: "string \<Rightarrow> string + string \<times> lsp_position"
  dc_open :: "string \<Rightarrow> string + string \<times> string"
  dc_save :: "string \<Rightarrow> string + string option"
  dc_change :: "string \<Rightarrow> string + string \<times> content_change list"
  dc_watched :: "string \<Rightarrow> string + watched_change list"
  dc_renames :: "string \<Rightarrow> string + file_rename list"
  dc_files :: "string \<Rightarrow> string + string list"
  dc_execute :: "string \<Rightarrow> string + exec_params"
  dc_tests :: "string \<Rightarrow> string + string \<times> string \<times> string"
  dc_trace :: "string \<Rightarrow> string + string"

section \<open>Requests that ask\<close>

record 'r module_view =
  mv_rules :: "'r rego_module \<Rightarrow> doc_rule list"
  mv_package_text :: "'r rego_module \<Rightarrow> string"
  mv_term :: "ast_term \<Rightarrow> string"
  mv_order :: "(string, doc_rule list) gomap \<Rightarrow> (string, doc_rule list) gomap"

definition module_symbols :: "'r module_view \<Rightarrow> ('b \<Rightarrow> builtin_results) \<Rightarrow> string \<Rightarrow> 'r rego_module \<Rightarrow> 'b
    \<Rightarrow> doc_symbol list option" where
  "module_symbols mv bis contents md b =
     all_symbols (mv_term mv) (mv_order mv) contents (mv_package_text mv md) (mv_rules mv md) (bis b)"

definition handle_document_symbol where
  "handle_document_symbol senv mv bis fileURI s =
     (if ignore_uri senv s fileURI then Some []
      else case get_content_and_module (sv_cache s) fileURI of
        None \<Rightarrow> Some []
      | Some (contents, md) \<Rightarrow> module_symbols mv bis contents md (builtins_for_current_capabilities senv s))"

definition handle_workspace_symbol where
  "handle_workspace_symbol senv mv bis s =
     (let contents = get_all_files (sv_cache s) in
      map_option concat (those (map (\<lambda>(moduleURL, md).
        map_option (\<lambda>symbols. to_workspace_symbols symbols moduleURL [])
          (module_symbols mv bis (map_get_or contents moduleURL '''') md (builtins_for_current_capabilities senv s)))
        (get_all_modules (sv_cache s)))))"

definition get_filtered_modules where
  "get_filtered_modules senv s =
     (let allModules = get_all_modules (sv_cache s) in
      map_sum id (\<lambda>filtered. concat (map (\<lambda>path. case map_get allModules path of Some m \<Rightarrow> [(path, m)] | None \<Rightarrow> []) filtered))
        (filter_ignored_paths (server_fs senv) (lx_glob (sx_lint senv)) (map fst allModules)
          (ign_files (cfg_ignore (sv_config s))) False (workspace_uri (sv_workspace s) [])))"

text \<open>\<open>handleTextDocumentDefinition\<close>; no result is a null.\<close>

definition handle_definition where
  "handle_definition senv oracle docURI pos s =
     (if ignore_uri senv s docURI then Inr None
      else case get_file_contents (sv_cache s) docURI of
        None \<Rightarrow> Inl (NoDefinitionContents docURI)
      | Some contents \<Rightarrow>
          (case get_filtered_modules senv s of
             Inl e \<Rightarrow> Inl ModulesNotFiltered
           | Inr mods \<Rightarrow>
               (case oracle (workspace_relative_path (sv_workspace s) docURI) (to_offset pos contents) mods contents of
                  None \<Rightarrow> Inr None
                | Some (file, row, col) \<Rightarrow>
                    Inr (Some \<lparr>LocURI = workspace_uri (sv_workspace s) [file],
                      LocRange = range_between (nat (row - 1)) (nat (col - 1)) (nat (row - 1)) (nat (col - 1))\<rparr>))))"

section \<open>Tests\<close>

definition quote_meta :: "string \<Rightarrow> string" where
  "quote_meta s = concat (map (\<lambda>c. if c \<in> set (CHR 0x5C # ''.+*?()|[]{}^$'') then [CHR 0x5C, c] else [c]) s)"

definition test_filter :: "string \<Rightarrow> string \<Rightarrow> string" where
  "test_filter package name = quote_meta package @ ''.'' @ quote_meta name @ ''$''"

record 'tr test_result =
  tr_name :: string
  tr_trace :: "'tr list"

definition collect_test_results :: "'tr test_result list \<Rightarrow> 'tr test_result list" where
  "collect_test_results rs = foldl (\<lambda>results tr. results @ [tr\<lparr>tr_trace := []\<rparr>]) [] rs"

text \<open>\<open>handleRunTests\<close>; the runner gets the capabilities, the bundles and the filter.\<close>

definition handle_run_tests where
  "handle_run_tests senv eenv runner fileURI package name s =
     (case (case get_module (sv_cache s) fileURI of
              Some m \<Rightarrow> (s, None)
            | None \<Rightarrow> (case parse_uri senv s fileURI of (s, Inl e) \<Rightarrow> (s, Some e) | (s, Inr parsed) \<Rightarrow> (s, None))) of
        (s, Some e) \<Rightarrow> (s, Inl TestFileNotParsed)
      | (s, None) \<Rightarrow>
          (s, map_sum TestsNotRun collect_test_results
            (runner (case cfg_capabilities (sv_config s) of Some c \<Rightarrow> c | None \<Rightarrow> ee_this_version eenv)
              (assemble_bundles eenv s) (test_filter package name))))"

section \<open>The router on the server\<close>

text \<open>\<open>regalContext\<close> and the providers that \<open>NewLanguageServerMinimal\<close> gives the router.\<close>

definition server_context where
  "server_context senv s fileURI =
     \<lparr>rc_file = \<lparr>fc_name = workspace_relative_path (sv_workspace s) fileURI, fc_content = '''', fc_lines = None, fc_abs = '''',
        fc_rego_version = lx_version_string (sx_lint senv) (rego_version_for_uri s fileURI),
        fc_parse_count = 0, fc_parse_errors = None, fc_uri = fileURI\<rparr>,
      rc_environment = \<lparr>ec_path_separator = ''/'', ec_root_uri = workspace_uri (sv_workspace s) [],
        ec_root_path = workspace_path (sv_workspace s) [], ec_input_path = ''''\<rparr>,
      rc_query = None\<rparr>"

definition server_providers where
  "server_providers senv s =
     \<lparr>pv_context = (\<lambda>fileURI reqs. server_context senv s fileURI),
      pv_content = Some (get_file_contents (sv_cache s)),
      pv_ignored = Some (ignore_uri senv s),
      pv_parse_errors = Some (get_parse_errors (sv_cache s)),
      pv_parse_count = Some (get_successful_parse_line_count (sv_cache s)),
      pv_input_path = Some (find_for_path (sv_inputs s))\<rparr>"

text \<open>What the policies answer to \<open>initialize\<close>.\<close>

record 'i initialize_view =
  iv_uri :: "'i \<Rightarrow> string"
  iv_client :: "'i \<Rightarrow> client_id"
  iv_options :: "'i \<Rightarrow> client_options"
  iv_response :: "'i \<Rightarrow> string"

text \<open>\<open>initializeResultHandler\<close>. An error of loading the workspace is logged only; a search for its configuration that
  does not end would be one, too.\<close>

definition initialize_result_handler where
  "initialize_result_handler senv iv ls result =
     (case result of
        OtherResult i \<Rightarrow>
          (case load_workspace senv (iv_uri iv i) (iv_client iv i) (iv_options iv i) (ls_server ls) of
             Some (Inr s) \<Rightarrow> (set_server s ls, Inr (RawMessage (iv_response iv i)))
           | _ \<Rightarrow> (ls, Inr (RawMessage (iv_response iv i))))
      | _ \<Rightarrow> (ls, Inl ''unexpected result type for initialize''))"

text \<open>\<open>initializedResultHandler\<close>; the goroutine that it starts is run at once.\<close>

definition initialized_result_handler where
  "initialized_result_handler senv ls result =
     (let ls = (case result of
            RawMessage raw \<Rightarrow> if length raw > 4 then ls\<lparr>ls_calls := ls_calls ls @ [raw]\<rparr> else ls
          | _ \<Rightarrow> ls)
      in (set_server (initialized senv (ls_server ls)) ls, Inr (RawMessage ''{}'')))"

definition semantic_tokens_handler where
  "semantic_tokens_handler from_text to_text sort_tokens ls result =
     (ls, map_sum id (\<lambda>r. case r of None \<Rightarrow> NoResult | Some raw \<Rightarrow> RawMessage raw)
       (semantic_result_handler from_text to_text (\<lambda>v. ''unexpected result type for semantic tokens'') sort_tokens result))"

definition server_handlers where
  "server_handlers senv (iv :: 'i initialize_view) from_text to_text sort_tokens =
     ([(''initialize'', initialize_result_handler senv iv),
       (''initialized'', initialized_result_handler senv),
       (''textDocument/semanticTokens/full'', semantic_tokens_handler from_text to_text sort_tokens)]
      :: (string \<times> (_, 'i) result_handler) list)"

definition route_request where
  "route_request renv senv handlers req ls =
     (let st = \<lparr>rs_server = ls, rs_queries = snd (es_queries (ls_commands ls)), rs_pool = ls_pool ls, rs_log = ls_log ls\<rparr>;
          r = \<lparr>ru_routes = router_routes, ru_handlers = handlers, ru_providers = (\<lambda>ls. server_providers senv (ls_server ls))\<rparr>
      in case router_handle renv r req st of
           (st, res) \<Rightarrow> map_option (\<lambda>res. ((rs_server st)\<lparr>ls_pool := rs_pool st, ls_log := rs_log st\<rparr>, res)) res)"

section \<open>Handling a request\<close>

datatype own_method =
    Definition | Diagnostic | DidOpen | DidClose | DidSave | DocumentSymbols | DidChange | Formatting
  | DidChangeWatchedFiles | WorkspaceDiagnostic | DidRenameFiles | DidDeleteFiles | DidCreateFiles
  | ExecuteCommand | WorkspaceSymbols | RunTests | ShutdownMethod | ExitMethod | SetTrace | CancelRequest

definition own_methods :: "(string \<times> own_method) list" where
  "own_methods =
     [(''textDocument/definition'', Definition), (''textDocument/diagnostic'', Diagnostic),
      (''textDocument/didOpen'', DidOpen), (''textDocument/didClose'', DidClose), (''textDocument/didSave'', DidSave),
      (''textDocument/documentSymbol'', DocumentSymbols), (''textDocument/didChange'', DidChange),
      (''textDocument/formatting'', Formatting), (''workspace/didChangeWatchedFiles'', DidChangeWatchedFiles),
      (''workspace/diagnostic'', WorkspaceDiagnostic), (''workspace/didRenameFiles'', DidRenameFiles),
      (''workspace/didDeleteFiles'', DidDeleteFiles), (''workspace/didCreateFiles'', DidCreateFiles),
      (''workspace/executeCommand'', ExecuteCommand), (''workspace/symbol'', WorkspaceSymbols),
      (''regal/runTests'', RunTests), (''shutdown'', ShutdownMethod), (''exit'', ExitMethod),
      (''$/setTrace'', SetTrace), (''$/cancelRequest'', CancelRequest)]"

datatype ('i, 'tr) lang_response =
    EmptyStruct
  | NullResult
  | Served response
  | SymbolsOf "doc_symbol list"
  | SymbolsOfWorkspace "workspace_symbol list"
  | LocationIs lsp_location
  | ResultsOf "'tr test_result list"
  | Routed "'i handler_input"

definition trace_level :: "string \<Rightarrow> string + nat" where
  "trace_level value =
     (if value = ''off'' then Inr 0 else if value = ''messages'' then Inr 1 else if value = ''verbose'' then Inr 2
      else Inl (''trace value must be one of 'off', 'messages', 'verbose', got: '' @ value @ '',''))"

record ('senv, 'mv, 'bis, 'orc, 'eenv, 'run, 'lof) own_env =
  oe_server :: 'senv
  oe_view :: 'mv
  oe_builtins :: 'bis
  oe_oracle :: 'orc
  oe_eval :: 'eenv
  oe_runner :: 'run
  oe_linter_of :: 'lof
  oe_decoders :: decoders
  oe_close :: "string option"

text \<open>A handler of a notification: its new state, or its error.\<close>

definition notified where
  "notified ls r = (case r of (s, err) \<Rightarrow>
     Some (set_server s ls, case err of None \<Rightarrow> Inr EmptyStruct | Some e \<Rightarrow> Inl (NotifyFailed e)))"

definition handled where
  "handled ls s = Some (set_server s ls, Inr EmptyStruct)"

definition handle_own where
  "handle_own env m req ls =
     (let s = ls_server ls; senv = oe_server env; dcs = oe_decoders env in
      case m of
        Definition \<Rightarrow> with_params (dc_position dcs) req ls (\<lambda>(u, pos).
          Some (ls, map_sum id (\<lambda>r. case r of None \<Rightarrow> NullResult | Some loc \<Rightarrow> LocationIs loc)
            (handle_definition senv (oe_oracle env) u pos s)))
      | Diagnostic \<Rightarrow> Some (ls, Inr NullResult)
      | DidOpen \<Rightarrow> with_params (dc_open dcs) req ls (\<lambda>(u, t). Option.bind (handle_did_open senv u t s) (handled ls))
      | DidClose \<Rightarrow> with_params (dc_document dcs) req ls (\<lambda>u. handled ls (handle_did_close senv u s))
      | DidSave \<Rightarrow> with_params (dc_save dcs) req ls (\<lambda>t. handled ls (handle_did_save senv t s))
      | DocumentSymbols \<Rightarrow> with_params (dc_document dcs) req ls (\<lambda>u.
          map_option (\<lambda>syms. (ls, Inr (SymbolsOf syms))) (handle_document_symbol senv (oe_view env) (oe_builtins env) u s))
      | DidChange \<Rightarrow> with_params (dc_change dcs) req ls (\<lambda>(u, chs). handled ls (handle_did_change senv u chs s))
      | Formatting \<Rightarrow> with_params (dc_document dcs) req ls (\<lambda>u.
          map_option (\<lambda>(s, r). (set_server s ls, map_sum NotifyFailed Served r))
            (handle_formatting senv (oe_linter_of env) u s))
      | DidChangeWatchedFiles \<Rightarrow> with_params (dc_watched dcs) req ls (\<lambda>chs.
          Option.bind (handle_did_change_watched_files senv chs s) (handled ls))
      | WorkspaceDiagnostic \<Rightarrow> Some (ls, Inr (Served (handle_workspace_diagnostic s)))
      | DidRenameFiles \<Rightarrow> with_params (dc_renames dcs) req ls (\<lambda>ops. notified ls (handle_did_rename_files senv ops s))
      | DidDeleteFiles \<Rightarrow> with_params (dc_files dcs) req ls (\<lambda>us. handled ls (handle_did_delete_files senv us s))
      | DidCreateFiles \<Rightarrow> with_params (dc_files dcs) req ls (\<lambda>us.
          Option.bind (handle_did_create_files senv us s) (notified ls))
      | ExecuteCommand \<Rightarrow> with_params (dc_execute dcs) req ls (\<lambda>p.
          map_option (\<lambda>q. (ls\<lparr>ls_queue := q\<rparr>, Inr EmptyStruct)) (handle_execute_command p (ls_queue ls)))
      | WorkspaceSymbols \<Rightarrow>
          map_option (\<lambda>syms. (ls, Inr (SymbolsOfWorkspace syms))) (handle_workspace_symbol senv (oe_view env) (oe_builtins env) s)
      | RunTests \<Rightarrow> with_params (dc_tests dcs) req ls (\<lambda>(u, package, name).
          (case handle_run_tests senv (oe_eval env) (oe_runner env) u package name s of
             (s, r) \<Rightarrow> Some (set_server s ls, map_sum id ResultsOf r)))
      | ShutdownMethod \<Rightarrow> Some (ls, Inr EmptyStruct)
      | ExitMethod \<Rightarrow> Some (ls\<lparr>ls_closed := True\<rparr>,
          case oe_close env of Some e \<Rightarrow> Inl (ConnectionNotClosed e) | None \<Rightarrow> Inr EmptyStruct)
      | SetTrace \<Rightarrow> with_params (dc_trace dcs) req ls (\<lambda>value.
          Some (case trace_level value of
              Inl e \<Rightarrow> (ls, Inl (BadTraceValue e))
            | Inr level \<Rightarrow> (if level \<noteq> 0 then ls\<lparr>ls_level := level\<rparr> else ls, Inr EmptyStruct)))
      | CancelRequest \<Rightarrow> Some (ls, Inr EmptyStruct))"

definition handle_request where
  "handle_request env renv handlers req ls =
     (if rpc_params req = None \<and> rpc_method req \<noteq> ''shutdown'' \<and> rpc_method req \<noteq> ''exit'' then
        Some (ls, Inl InvalidParams)
      else case map_get own_methods (rpc_method req) of
        Some m \<Rightarrow> handle_own env m req ls
      | None \<Rightarrow> map_option (\<lambda>(ls, r). (ls, map_sum RouterFailed Routed r))
          (route_request renv (oe_server env) handlers req ls))"

section \<open>The server in runs\<close>

lemma set_server_simps [simp]:
  "ls_server (set_server s ls) = s" "ls_queue (set_server s ls) = ls_queue ls"
  "es_queries (ls_commands (set_server s ls)) = es_queries (ls_commands ls)"
  by (simp_all add: ls_server_def set_server_def)

lemma ls_server_updates [simp]:
  "ls_server (ls\<lparr>ls_pool := p\<rparr>) = ls_server ls" "ls_server (ls\<lparr>ls_log := l\<rparr>) = ls_server ls"
  "ls_server (ls\<lparr>ls_queue := q\<rparr>) = ls_server ls" "ls_server (ls\<lparr>ls_calls := cl\<rparr>) = ls_server ls"
  "ls_server (ls\<lparr>ls_level := n\<rparr>) = ls_server ls" "ls_server (ls\<lparr>ls_closed := b\<rparr>) = ls_server ls"
  by (simp_all add: ls_server_def)

lemma with_params_eq_Some:
  "with_params dec req ls h = Some z \<longleftrightarrow>
     (\<exists>e. decode_params dec req = Inl e \<and> z = (ls, Inl e)) \<or> (\<exists>a. decode_params dec req = Inr a \<and> h a = Some z)"
  by (auto simp: with_params_def split: sum.split)

lemma route_server [simp]: "rs_server (fst (handle_route env prvs rt pq req st)) = rs_server st"
  by (auto simp: handle_route_def text_document_handler_def handle_error_def split: prod.split option.split sum.split)

lemma with_handler_server:
  "rs_server (fst (with_result_handler h a)) = rs_server (fst a)
   \<or> (\<exists>f inp. h = Some f \<and> rs_server (fst (with_result_handler h a)) = fst (f (rs_server (fst a)) inp))"
proof (cases h)
  case (Some f)
  show ?thesis
  proof (cases "\<exists>result. snd a = Some (Inr result)")
    case True
    then obtain result where "snd a = Some (Inr result)" by blast
    then have "rs_server (fst (with_result_handler h a)) = fst (f (rs_server (fst a)) result)"
      using Some by (simp add: with_result_handler_def call_result_handler_def split: prod.split)
    then show ?thesis using Some by blast
  next
    case False
    then have "with_result_handler h a = a"
      using Some by (auto simp: with_result_handler_def split: option.split sum.split)
    then show ?thesis by simp
  qed
qed (simp add: with_result_handler_def)

lemma router_server:
  "rs_server (fst (router_handle env r req st)) = rs_server st
   \<or> (\<exists>f inp. map_get (ru_handlers r) (rpc_method req) = Some f
        \<and> rs_server (fst (router_handle env r req st)) = fst (f (rs_server st) inp))"
proof -
  have "rs_server (fst (with_result_handler h a)) = rs_server st
      \<or> (\<exists>f inp. map_get (ru_handlers r) (rpc_method req) = Some f \<and> rs_server (fst (with_result_handler h a)) = fst (f (rs_server st) inp))"
    if "rs_server (fst a) = rs_server st" "h = map_get (ru_handlers r) (rpc_method req)" for h a
    using with_handler_server[of h a] that by metis
  note wh = this
  show ?thesis
  proof (cases "cache_get (rs_queries st) main_eval")
    case (Some pq)
    show ?thesis
    proof (cases "rpc_method req = ''initialize''")
      case True
      then show ?thesis
        using wh[of "(st, initialize_request env pq req)" "map_get (ru_handlers r) ''initialize''"] Some
        by (auto simp: router_handle_def split: option.split)
    next
      case False
      show ?thesis
      proof (cases "map_get (ru_routes r) (rpc_method req)")
        case (Some rt)
        then show ?thesis using \<open>cache_get (rs_queries st) main_eval = Some pq\<close> False
          wh[of "handle_route env (ru_providers r (rs_server st)) rt pq req st" "map_get (ru_handlers r) (rpc_method req)"]
          by (auto simp: router_handle_def)
      qed (use \<open>cache_get (rs_queries st) main_eval = Some pq\<close> False in \<open>simp add: router_handle_def\<close>)
    qed
  qed (simp add: router_handle_def)
qed

lemma router_server_pair:
  "router_handle env r req st = (st', res) \<Longrightarrow> rs_server st' = rs_server st
   \<or> (\<exists>f inp. map_get (ru_handlers r) (rpc_method req) = Some f \<and> rs_server st' = fst (f (rs_server st) inp))"
  using router_server[of env r req st] by simp

text \<open>The handlers that are registered with the router, by the step that each is.\<close>

lemma handlers_step:
  assumes "map_get (server_handlers senv iv from_text to_text sort_tokens) m = Some f"
  shows "ls_server (fst (f ls inp)) = ls_server ls \<or> server_step senv (ls_server ls) (ls_server (fst (f ls inp)))"
proof -
  consider "f = initialize_result_handler senv iv" | "f = initialized_result_handler senv"
    | "f = semantic_tokens_handler from_text to_text sort_tokens"
    using assms by (auto simp: server_handlers_def split: if_splits)
  then show ?thesis
  proof cases
    case 1
    then show ?thesis
      by (auto simp: initialize_result_handler_def split: handler_input.split option.split sum.split intro: step_initialize)
  next
    case 2
    then show ?thesis
      by (auto simp: initialized_result_handler_def Let_def split: handler_input.split intro: step_initialized)
  qed (simp add: semantic_tokens_handler_def)
qed

lemma route_request_server:
  assumes "route_request renv senv handlers req ls = Some (ls', r)"
  shows "ls_server ls' = ls_server ls
    \<or> (\<exists>f inp. map_get handlers (rpc_method req) = Some f \<and> ls_server ls' = ls_server (fst (f ls inp)))"
proof -
  obtain l p lg where l: "ls' = l\<lparr>ls_pool := p, ls_log := lg\<rparr>"
    "l = ls \<or> (\<exists>f inp. map_get handlers (rpc_method req) = Some f \<and> l = fst (f ls inp))"
    using assms by (auto simp: route_request_def Let_def split: prod.splits dest!: router_server_pair; blast)
  then show ?thesis by auto
qed

lemma route_step:
  assumes "route_request renv senv (server_handlers senv iv from_text to_text sort_tokens) req ls = Some (ls', r)"
  shows "ls_server ls' = ls_server ls \<or> server_step senv (ls_server ls) (ls_server ls')"
  using route_request_server[OF assms]
proof (elim disjE exE conjE)
  fix f inp
  assume h: "map_get (server_handlers senv iv from_text to_text sort_tokens) (rpc_method req) = Some f"
    "ls_server ls' = ls_server (fst (f ls inp))"
  show ?thesis unfolding h(2) by (rule handlers_step[OF h(1)])
qed simp

definition asks_for_rego :: "decoders \<Rightarrow> rpc_request \<Rightarrow> bool" where
  "asks_for_rego dcs req \<longleftrightarrow>
     (rpc_method req = ''textDocument/formatting'' \<longrightarrow> (\<forall>u. decode_params (dc_document dcs) req = Inr u \<longrightarrow> is_rego u))
     \<and> (rpc_method req = ''regal/runTests'' \<longrightarrow> (\<forall>u p n. decode_params (dc_tests dcs) req = Inr (u, p, n) \<longrightarrow> is_rego u))"

lemma own_method_name:
  "map_get own_methods name = Some m \<Longrightarrow>
     (m = Formatting \<longrightarrow> name = ''textDocument/formatting'') \<and> (m = RunTests \<longrightarrow> name = ''regal/runTests'')"
  by (auto simp: own_methods_def split: if_splits)

lemma run_tests_server:
  assumes "handle_run_tests senv eenv runner u package name s = (s', r)"
  shows "s' = s \<or> s' = fst (parse_uri senv s u)"
  using assms by (auto simp: handle_run_tests_def split: option.splits prod.splits sum.splits)

lemma notified_pair: "notified ls r = Some (set_server (fst r) ls,
    case snd r of None \<Rightarrow> Inr EmptyStruct | Some e \<Rightarrow> Inl (NotifyFailed e))"
  by (simp add: notified_def split_beta)

lemma trace_server:
  "(case trace_level v of Inl e \<Rightarrow> (ls, Inl (BadTraceValue e))
      | Inr level \<Rightarrow> (if level \<noteq> 0 then ls\<lparr>ls_level := level\<rparr> else ls, Inr EmptyStruct)) = (ls', r)
   \<Longrightarrow> ls_server ls' = ls_server ls"
  by (cases "trace_level v") auto

lemma step_rename_files: "server_step env s (fst (handle_did_rename_files env renames s))"
  by (rule step_rename[OF surjective_pairing])

text \<open>A request that the server handles itself leaves it as it was, or is one step.\<close>

lemma own_step:
  assumes "handle_own env m req ls = Some (ls', r)" "map_get own_methods (rpc_method req) = Some m"
    "asks_for_rego (oe_decoders env) req"
  shows "ls_server ls' = ls_server ls \<or> server_step (oe_server env) (ls_server ls) (ls_server ls')"
proof -
  show ?thesis
  proof (cases m)
    case Definition
    then show ?thesis using assms(1) by (auto simp: handle_own_def Let_def with_params_eq_Some)
  next
    case Diagnostic
    then show ?thesis using assms(1) by (auto simp: handle_own_def Let_def)
  next
    case DidOpen
    then show ?thesis using assms(1)
      by (auto simp: handle_own_def Let_def with_params_eq_Some handled_def bind_eq_Some_conv intro: step_open)
  next
    case DidClose
    then show ?thesis using assms(1)
      by (auto simp: handle_own_def Let_def with_params_eq_Some handled_def intro: step_close)
  next
    case DidSave
    then show ?thesis using assms(1)
      by (auto simp: handle_own_def Let_def with_params_eq_Some handled_def intro: step_save)
  next
    case DocumentSymbols
    then show ?thesis using assms(1) by (auto simp: handle_own_def Let_def with_params_eq_Some)
  next
    case DidChange
    then show ?thesis using assms(1)
      by (auto simp: handle_own_def Let_def with_params_eq_Some handled_def intro: step_change)
  next
    case Formatting
    then have "rpc_method req = ''textDocument/formatting''" using own_method_name[OF assms(2)] by blast
    then have "is_rego u" if "decode_params (dc_document (oe_decoders env)) req = Inr u" for u
      using assms(3) that by (simp add: asks_for_rego_def)
    then show ?thesis using assms(1) Formatting
      by (auto simp: handle_own_def Let_def with_params_eq_Some intro: step_format)
  next
    case DidChangeWatchedFiles
    then show ?thesis using assms(1)
      by (auto simp: handle_own_def Let_def with_params_eq_Some handled_def bind_eq_Some_conv intro: step_watched)
  next
    case WorkspaceDiagnostic
    then show ?thesis using assms(1) by (auto simp: handle_own_def Let_def)
  next
    case DidRenameFiles
    then show ?thesis using assms(1)
      by (auto simp: handle_own_def Let_def with_params_eq_Some notified_pair intro: step_rename_files)
  next
    case DidDeleteFiles
    then show ?thesis using assms(1)
      by (auto simp: handle_own_def Let_def with_params_eq_Some handled_def intro: step_delete)
  next
    case DidCreateFiles
    then show ?thesis using assms(1)
      by (auto simp: handle_own_def Let_def with_params_eq_Some notified_pair bind_eq_Some_conv intro: step_create)
  next
    case ExecuteCommand
    then show ?thesis using assms(1) by (auto simp: handle_own_def Let_def with_params_eq_Some)
  next
    case WorkspaceSymbols
    then show ?thesis using assms(1) by (auto simp: handle_own_def Let_def)
  next
    case RunTests
    then have "rpc_method req = ''regal/runTests''" using own_method_name[OF assms(2)] by blast
    then have "is_rego u" if "decode_params (dc_tests (oe_decoders env)) req = Inr (u, p, n)" for u p n
      using assms(3) that by (auto simp: asks_for_rego_def)
    moreover have "decode_params (dc_tests (oe_decoders env)) req \<noteq> Inr (u, p, n) \<or> ls_server ls' = ls_server ls
        \<or> ls_server ls' = fst (parse_uri (oe_server env) (ls_server ls) u)" for u p n
      using assms(1) RunTests run_tests_server[OF surjective_pairing, of "oe_server env" "oe_eval env" "oe_runner env" u p n "ls_server ls"]
      by (auto simp: handle_own_def Let_def with_params_eq_Some split_beta)
    moreover have "ls_server ls' = ls_server ls" if "decode_params (dc_tests (oe_decoders env)) req = Inl e" for e
      using assms(1) RunTests that by (auto simp: handle_own_def Let_def with_params_eq_Some)
    ultimately show ?thesis by (metis step_parse sum.exhaust prod_cases3)
  next
    case ShutdownMethod
    then show ?thesis using assms(1) by (auto simp: handle_own_def Let_def)
  next
    case ExitMethod
    then show ?thesis using assms(1) by (auto simp: handle_own_def Let_def)
  next
    case SetTrace
    then show ?thesis using assms(1)
      by (auto simp: handle_own_def Let_def with_params_eq_Some dest: trace_server)
  next
    case CancelRequest
    then show ?thesis using assms(1) by (auto simp: handle_own_def Let_def)
  qed
qed

lemma request_step:
  assumes "handle_request env renv (server_handlers (oe_server env) iv from_text to_text sort_tokens) req ls = Some (ls', r)"
    "asks_for_rego (oe_decoders env) req"
  shows "ls_server ls' = ls_server ls \<or> server_step (oe_server env) (ls_server ls) (ls_server ls')"
proof (cases "rpc_params req = None \<and> rpc_method req \<noteq> ''shutdown'' \<and> rpc_method req \<noteq> ''exit''")
  case False
  show ?thesis
  proof (cases "map_get own_methods (rpc_method req)")
    case None
    then obtain r' where "route_request renv (oe_server env)
        (server_handlers (oe_server env) iv from_text to_text sort_tokens) req ls = Some (ls', r')"
      using assms(1) False unfolding handle_request_def if_not_P[OF False] by auto
    then show ?thesis by (rule route_step)
  next
    case (Some m)
    then have "handle_own env m req ls = Some (ls', r)"
      using assms(1) unfolding handle_request_def if_not_P[OF False] by simp
    then show ?thesis by (rule own_step[OF _ Some assms(2)])
  qed
qed (use assms in \<open>simp add: handle_request_def\<close>)

section \<open>Runs of the whole server\<close>

lemma command_step:
  assumes "run_command cenv senv params cs = Some cs'"
  shows "es_server cs' = es_server cs \<or> server_step senv (es_server cs) (es_server cs')"
proof -
  have failed: "es_server cs' = es_server cs \<or> server_step senv (es_server cs) (es_server cs')"
    if "show_failure (Some (c, err)) = Some cs'" "es_server c = es_server cs" for c err
    using that by (auto simp: show_failure_def command_failed_def intro: step_message split: if_splits)
  have "es_server cs' = es_server cs \<or> server_step senv (es_server cs) (es_server cs')"
    if r: "string_command cenv senv cmd (fixArgs, evalArgs) cs = Some cs'" for cmd fixArgs evalArgs
  proof (cases "map_get edit_commands cmd")
    case (Some lf)
    then show ?thesis using r
      by (cases lf) (auto simp: string_command_def on_server_def intro: step_fix_command)
  next
    case None
    consider "cmd = ''regal.fix.directory-package-mismatch''" | "cmd = ''regal.eval''" | "cmd = ''regal.debug''"
      | "cmd = ''regal.config.disable-rule''" | "cs' = cs"
      using r None by (auto simp: string_command_def split: if_splits)
    then show ?thesis
    proof cases
      case 1
      then show ?thesis using r None by (auto simp: string_command_def on_server_def intro: step_rename_command)
    next
      case 2
      then obtain c err where "handle_eval_command (ce_eval cenv) (ce_answer cenv) (ce_write cenv) evalArgs cs = Some (c, err)"
        "show_failure (Some (c, err)) = Some cs'"
        using r None by (auto simp: string_command_def show_failure_def)
      then show ?thesis using failed eval_server by blast
    next
      case 3
      then have "show_failure (Some (debug_command cenv evalArgs cs)) = Some cs'"
        using r None by (simp add: string_command_def)
      then show ?thesis using failed debug_server by (metis surjective_pairing)
    next
      case 4
      then show ?thesis using r None by (auto simp: string_command_def ignore_rule_def)
    qed simp
  qed
  note strings = this
  show ?thesis
  proof (cases "xp_command params = ''regal.explorer'' \<or> xp_command params = ''regal.createTest''")
    case True
    then show ?thesis using assms explorer_server
      by (auto simp: run_command_def create_test_server dest: explorer_server)
  next
    case False
    then have "cs' = cs \<or> (\<exists>t a. xp_arguments params = [GStr t] \<and> ce_decode cenv t = Inr a
        \<and> string_command cenv senv (xp_command params) a cs = Some cs')"
      using assms by (auto simp: run_command_def split: list.splits gval.splits sum.splits)
    then show ?thesis using strings by (metis surjective_pairing)
  qed
qed

text \<open>A client sends requests, the worker takes commands off the queue, and the other workers make their steps; each with
  what the world looks like then.\<close>

inductive lang_run for E where
  lang_start: "lang_run E ls ls"
| lang_request: "lang_run E ls ls1 \<Longrightarrow> E env renv iv cenv \<Longrightarrow> asks_for_rego (oe_decoders env) req
    \<Longrightarrow> handle_request env renv (server_handlers (oe_server env) iv from_text to_text sort_tokens) req ls1 = Some (ls2, r)
    \<Longrightarrow> lang_run E ls ls2"
| lang_command: "lang_run E ls ls1 \<Longrightarrow> E env renv iv cenv \<Longrightarrow> ls_queue ls1 = params # q
    \<Longrightarrow> run_command cenv (oe_server env) params (ls_commands ls1) = Some cs
    \<Longrightarrow> lang_run E ls (ls1\<lparr>ls_commands := cs, ls_queue := q\<rparr>)"
| lang_worker: "lang_run E ls ls1 \<Longrightarrow> E env renv iv cenv \<Longrightarrow> server_step (oe_server env) (ls_server ls1) s
    \<Longrightarrow> lang_run E ls (set_server s ls1)"

definition server_worlds where
  "server_worlds E senv \<longleftrightarrow> (\<exists>env renv iv cenv. E env renv iv cenv \<and> oe_server env = senv)"

lemma run_one:
  assumes "server_run F s t" "F senv" "u = t \<or> server_step senv t u"
  shows "server_run F s u"
  using assms run_step by blast

lemma server_run_mono: "server_run E s t \<Longrightarrow> (\<And>e. E e \<Longrightarrow> F e) \<Longrightarrow> server_run F s t"
  by (induction rule: server_run.induct) (auto intro: run_refl run_step)

lemma lang_run_server:
  assumes "lang_run E ls ls'"
  shows "server_run (server_worlds E) (ls_server ls) (ls_server ls')"
  using assms
proof induction
  case (lang_request ls ls1 env renv iv cenv req from_text to_text sort_tokens ls2 r)
  have "server_worlds E (oe_server env)" using lang_request.hyps(2) unfolding server_worlds_def by blast
  then show ?case by (rule run_one[OF lang_request.IH]) (rule request_step[OF lang_request.hyps(4,3)])
next
  case (lang_command ls ls1 env renv iv cenv params q cs)
  have w: "server_worlds E (oe_server env)" using lang_command.hyps(2) unfolding server_worlds_def by blast
  have "es_server cs = ls_server ls1 \<or> server_step (oe_server env) (ls_server ls1) (es_server cs)"
    using command_step[OF lang_command.hyps(4)] by (simp add: ls_server_def)
  then show ?case using run_one[OF lang_command.IH w] by (simp add: ls_server_def)
next
  case (lang_worker ls ls1 env renv iv cenv s)
  have w: "server_worlds E (oe_server env)" using lang_worker.hyps(2) unfolding server_worlds_def by blast
  show ?case using run_one[OF lang_worker.IH w, of s] lang_worker.hyps(3) by simp
qed (rule run_refl)


text \<open>The invariant of the documents for the whole server.\<close>

corollary lang_server_knows_contents:
  assumes "lang_run E ls ls'" "ls_server ls = new_server senv conf"
    "\<And>env renv iv cenv. E env renv iv cenv \<Longrightarrow> sorted_env (oe_server env)"
  shows "known_with_contents (sv_cache (ls_server ls'))"
proof (rule known.kept_run[OF server_run_mono[OF lang_run_server[OF assms(1)]]])
  show "sorted_env e" if "server_worlds E e" for e
    using that assms(3) by (auto simp: server_worlds_def)
qed (use new_server_kept[OF known.server_cache_law_axioms fresh_cache(1)] assms(2) in simp)

section \<open>Requests that change nothing\<close>

definition changing_methods :: "string list" where
  "changing_methods =
     [''initialize'', ''initialized'', ''textDocument/didOpen'', ''textDocument/didClose'', ''textDocument/didSave'',
      ''textDocument/didChange'', ''textDocument/formatting'', ''workspace/didChangeWatchedFiles'',
      ''workspace/didRenameFiles'', ''workspace/didDeleteFiles'', ''workspace/didCreateFiles'', ''regal/runTests'']"

lemma set_server_same [simp]: "set_server (ls_server ls) ls = ls"
  by (simp add: set_server_def ls_server_def)

lemma server_handlers_other:
  assumes "map_get (server_handlers senv iv from_text to_text sort_tokens) m = Some f" "m \<notin> set changing_methods"
  shows "fst (f ls inp) = ls"
  using assms by (auto simp: server_handlers_def changing_methods_def semantic_tokens_handler_def split: if_splits)

lemma routed_commands:
  assumes "route_request renv senv handlers req ls = Some (ls', r)"
    "\<And>f ls inp. map_get handlers (rpc_method req) = Some f \<Longrightarrow> fst (f ls inp) = ls"
  shows "ls_commands ls' = ls_commands ls \<and> ls_queue ls' = ls_queue ls"
proof -
  obtain l p lg where "ls' = l\<lparr>ls_pool := p, ls_log := lg\<rparr>"
    "l = ls \<or> (\<exists>f inp. map_get handlers (rpc_method req) = Some f \<and> l = fst (f ls inp))"
    using assms(1) by (auto simp: route_request_def Let_def split: prod.splits dest!: router_server_pair; blast)
  then show ?thesis using assms(2) by auto
qed

lemma trace_commands:
  "(case trace_level v of Inl e \<Rightarrow> (ls, Inl (BadTraceValue e))
      | Inr level \<Rightarrow> (if level \<noteq> 0 then ls\<lparr>ls_level := level\<rparr> else ls, Inr EmptyStruct)) = (ls', r)
   \<Longrightarrow> ls_commands ls' = ls_commands ls"
  by (cases "trace_level v") auto

lemma own_keeps:
  assumes "handle_own env m req ls = Some (ls', r)"
    "m \<in> {Definition, Diagnostic, DocumentSymbols, WorkspaceDiagnostic, ExecuteCommand, WorkspaceSymbols,
      ShutdownMethod, ExitMethod, SetTrace, CancelRequest}"
  shows "ls_commands ls' = ls_commands ls"
  using assms(2)
proof (elim insertE emptyE)
  assume "m = SetTrace"
  then show ?thesis using assms(1) by (auto simp: handle_own_def Let_def with_params_eq_Some dest: trace_commands)
qed (use assms(1) in \<open>auto simp: handle_own_def Let_def with_params_eq_Some\<close>)

lemma unchanging_methods:
  assumes "map_get own_methods name = Some m" "name \<notin> set changing_methods"
  shows "m \<in> {Definition, Diagnostic, DocumentSymbols, WorkspaceDiagnostic, ExecuteCommand, WorkspaceSymbols,
      ShutdownMethod, ExitMethod, SetTrace, CancelRequest}"
  using assms by (auto simp: own_methods_def changing_methods_def split: if_splits)

text \<open>C39. Of all the requests only the twelve of \<open>changing_methods\<close> touch what the server knows: definitions, symbols,
  hovers, completions, reports, traces and requests of any other name leave its documents, modules, diagnostics,
  configuration, outputs and prepared queries as they are, whatever they answer.\<close>

theorem asking_keeps_server:
  assumes "handle_request env renv (server_handlers (oe_server env) iv from_text to_text sort_tokens) req ls = Some (ls', r)"
    "rpc_method req \<notin> set changing_methods"
  shows "ls_commands ls' = ls_commands ls"
proof (cases "rpc_params req = None \<and> rpc_method req \<noteq> ''shutdown'' \<and> rpc_method req \<noteq> ''exit''")
  case False
  show ?thesis
  proof (cases "map_get own_methods (rpc_method req)")
    case None
    then obtain r' where "route_request renv (oe_server env)
        (server_handlers (oe_server env) iv from_text to_text sort_tokens) req ls = Some (ls', r')"
      using assms(1) unfolding handle_request_def if_not_P[OF False] by auto
    then show ?thesis by (rule conjunct1[OF routed_commands]) (rule server_handlers_other[OF _ assms(2)])
  next
    case (Some m)
    then have "handle_own env m req ls = Some (ls', r)"
      using assms(1) unfolding handle_request_def if_not_P[OF False] by simp
    then show ?thesis by (rule own_keeps) (rule unchanging_methods[OF Some assms(2)])
  qed
qed (use assms in \<open>simp add: handle_request_def\<close>)

section \<open>The prepared queries\<close>

text \<open>A query that has been prepared stays so.\<close>

definition still_prepared where
  "still_prepared w w' \<longleftrightarrow> (\<forall>q. cache_get (snd w) q \<noteq> None \<longrightarrow> cache_get (snd w') q \<noteq> None)"

lemma still_prepared_refl [simp]: "still_prepared w w"
  by (simp add: still_prepared_def)

lemma still_prepared_trans: "still_prepared w w' \<Longrightarrow> still_prepared w' w'' \<Longrightarrow> still_prepared w w''"
  by (simp add: still_prepared_def)

lemma cache_keeps_prepared: "cache_get_or_set qenv store q w = Some (w', r) \<Longrightarrow> still_prepared w w'"
  by (auto simp: cache_get_or_set_def still_prepared_def cache_get_def cm_get_set Let_def
      split: option.splits prod.splits sum.splits if_splits)

lemma heads_prepared:
  assumes "get_rule_head_locations env args contents md es = Some (es', r)"
  shows "still_prepared (es_queries es) (es_queries es')"
proof -
  obtain w q where wq: "cache_get_or_set (ee_queries env) (es_rego_store es) rule_head_locations (es_queries es) = Some (w, q)"
    using assms by (auto simp: get_rule_head_locations_def bind_eq_Some_conv)
  then have "es_queries es' = w" using assms by (cases q) (auto simp: get_rule_head_locations_def)
  then show ?thesis using cache_keeps_prepared[OF wq] by simp
qed

lemma input_prepared:
  "eval_input env answer wr args contents md es = Some (es', r) \<Longrightarrow> es_queries es' = es_queries es"
  unfolding eval_input_def handle_input_skeleton_prompt_def Let_def
  by (auto simp: put_out_def split: if_splits prod.splits option.splits sum.splits)

lemma show_prepared:
  "show_eval_result env args packagePath result heads es = (es', r) \<Longrightarrow> es_queries es' = es_queries es"
  unfolding show_eval_result_def write_eval_output_def Let_def
  by (auto simp: put_out_def split: option.splits if_splits sum.splits)

lemma eval_prepared:
  assumes "handle_eval_command env answer wr args es = Some (es', r)"
  shows "still_prepared (es_queries es) (es_queries es')"
  using eval_steps[OF assms]
  by (elim disjE exE conjE) (auto dest!: input_prepared show_prepared heads_prepared)

lemma command_prepared:
  assumes "run_command cenv senv params cs = Some cs'"
  shows "still_prepared (es_queries cs) (es_queries cs')"
proof -
  have explorer: "es_queries c = es_queries cs" if "handle_explorer_command cenv params cs = Some (c, e)" for c e
    using that unfolding handle_explorer_command_def Let_def
    by (auto simp: add_out_def split: if_splits sum.splits option.splits prod.splits)
  have create: "es_queries (fst (handle_create_test_command cenv params cs)) = es_queries cs"
    by (auto simp: handle_create_test_command_def display_test_result_def add_out_def Let_def
        split: sum.splits option.splits prod.splits)
  have failed: "still_prepared (es_queries cs) (es_queries cs')"
    if "show_failure (Some (c, err)) = Some cs'" "still_prepared (es_queries cs) (es_queries c)" for c err
    using that by (auto simp: show_failure_def command_failed_def split: if_splits)
  have strings: "still_prepared (es_queries cs) (es_queries cs')"
    if r: "string_command cenv senv cmd (fixArgs, evalArgs) cs = Some cs'" for cmd fixArgs evalArgs
  proof (cases "cmd = ''regal.eval'' \<and> map_get edit_commands cmd = None")
    case True
    then obtain c err where c: "handle_eval_command (ce_eval cenv) (ce_answer cenv) (ce_write cenv) evalArgs cs = Some (c, err)"
      "show_failure (Some (c, err)) = Some cs'"
      using r by (auto simp: string_command_def show_failure_def)
    show ?thesis by (rule failed[OF c(2) eval_prepared[OF c(1)]])
  next
    case False
    then show ?thesis using r
      by (auto simp: string_command_def on_server_def ignore_rule_def show_failure_def command_failed_def add_out_def
          debug_command_def run_debug_def Let_def split: option.splits prod.splits if_splits)
  qed
  show ?thesis
  proof (cases "xp_command params = ''regal.explorer'' \<or> xp_command params = ''regal.createTest''")
    case True
    then have "es_queries cs' = es_queries cs"
      using assms create explorer by (auto simp: run_command_def split: if_splits)
    then show ?thesis by simp
  next
    case False
    then have "cs' = cs \<or> (\<exists>t a. xp_arguments params = [GStr t] \<and> ce_decode cenv t = Inr a
        \<and> string_command cenv senv (xp_command params) a cs = Some cs')"
      using assms by (auto simp: run_command_def split: list.splits gval.splits sum.splits)
    then show ?thesis using strings by (metis still_prepared_refl surj_pair)
  qed
qed

lemma set_server_commands [simp]: "es_queries (ls_commands (set_server s ls)) = es_queries (ls_commands ls)"
  by (simp add: set_server_def)

lemma handlers_queries:
  assumes "map_get (server_handlers senv iv from_text to_text sort_tokens) m = Some f"
  shows "es_queries (ls_commands (fst (f ls inp))) = es_queries (ls_commands ls)"
proof -
  consider "f = initialize_result_handler senv iv" | "f = initialized_result_handler senv"
    | "f = semantic_tokens_handler from_text to_text sort_tokens"
    using assms by (auto simp: server_handlers_def split: if_splits)
  then show ?thesis
    by cases (auto simp: initialize_result_handler_def initialized_result_handler_def semantic_tokens_handler_def Let_def
        split: handler_input.split option.split sum.split)
qed

lemma router_queries: "rs_queries (fst (router_handle env r req st)) = rs_queries st"
proof -
  have r: "rs_queries (fst (handle_route env prvs rt pq req st)) = rs_queries st" for prvs rt pq
    by (auto simp: handle_route_def text_document_handler_def handle_error_def split: prod.split option.split sum.split)
  have h: "rs_queries (fst (with_result_handler h a)) = rs_queries (fst a)" for h a
    by (auto simp: with_result_handler_def call_result_handler_def split: option.split sum.split prod.split)
  show ?thesis by (auto simp: router_handle_def r h split: option.split)
qed

lemma queries_updates [simp]:
  "es_queries (ls_commands (ls\<lparr>ls_pool := p\<rparr>)) = es_queries (ls_commands ls)"
  "es_queries (ls_commands (ls\<lparr>ls_log := l\<rparr>)) = es_queries (ls_commands ls)"
  by simp_all

lemma routed_queries:
  assumes "route_request renv senv handlers req ls = Some (ls', r)"
    "\<And>f ls inp. map_get handlers (rpc_method req) = Some f
      \<Longrightarrow> es_queries (ls_commands (fst (f ls inp))) = es_queries (ls_commands ls)"
  shows "es_queries (ls_commands ls') = es_queries (ls_commands ls)"
proof -
  obtain l p lg where "ls' = l\<lparr>ls_pool := p, ls_log := lg\<rparr>"
    "l = ls \<or> (\<exists>f inp. map_get handlers (rpc_method req) = Some f \<and> l = fst (f ls inp))"
    using assms(1) by (auto simp: route_request_def Let_def split: prod.splits dest!: router_server_pair; blast)
  then show ?thesis using assms(2) by auto
qed

lemma own_queries:
  assumes "handle_own env m req ls = Some (ls', r)"
  shows "es_queries (ls_commands ls') = es_queries (ls_commands ls)"
proof (cases "m = SetTrace")
  case True
  then show ?thesis using assms by (auto simp: handle_own_def Let_def with_params_eq_Some dest: trace_commands)
next
  case False
  then show ?thesis using assms
    by (cases m) (auto simp: handle_own_def Let_def with_params_eq_Some handled_def notified_pair bind_eq_Some_conv split_beta)
qed

lemma request_queries:
  assumes "handle_request env renv (server_handlers (oe_server env) iv from_text to_text sort_tokens) req ls = Some (ls', r)"
  shows "es_queries (ls_commands ls') = es_queries (ls_commands ls)"
proof (cases "rpc_params req = None \<and> rpc_method req \<noteq> ''shutdown'' \<and> rpc_method req \<noteq> ''exit''")
  case False
  show ?thesis
  proof (cases "map_get own_methods (rpc_method req)")
    case None
    then obtain r' where "route_request renv (oe_server env)
        (server_handlers (oe_server env) iv from_text to_text sort_tokens) req ls = Some (ls', r')"
      using assms unfolding handle_request_def if_not_P[OF False] by auto
    then show ?thesis by (rule routed_queries) (rule handlers_queries)
  next
    case (Some m)
    then have "handle_own env m req ls = Some (ls', r)"
      using assms unfolding handle_request_def if_not_P[OF False] by simp
    then show ?thesis by (rule own_queries)
  qed
qed (use assms in \<open>simp add: handle_request_def\<close>)

lemma run_prepared:
  assumes "lang_run E ls ls'"
  shows "still_prepared (es_queries (ls_commands ls)) (es_queries (ls_commands ls'))"
  using assms
proof induction
  case (lang_request ls ls1 env renv iv cenv req from_text to_text sort_tokens ls2 r)
  from lang_request.IH show ?case unfolding request_queries[OF lang_request.hyps(4)] .
next
  case (lang_command ls ls1 env renv iv cenv params q cs)
  show ?case
    using still_prepared_trans[OF lang_command.IH command_prepared[OF lang_command.hyps(4)]] by simp
qed simp_all

lemma own_method_names: "map_get own_methods (rpc_method req) = None \<Longrightarrow> rpc_method req \<noteq> ''shutdown'' \<and> rpc_method req \<noteq> ''exit''"
  by (auto simp: own_methods_def split: if_splits)

lemma router_returns:
  "responses_ok env \<Longrightarrow> cache_get (rs_queries st) main_eval \<noteq> None \<Longrightarrow> rpc_params req \<noteq> None
    \<Longrightarrow> snd (router_handle env r req st) \<noteq> None"
  by (simp add: router_none_iff del: not_None_eq)

lemma routed_returns:
  assumes "responses_ok renv" "cache_get (snd (es_queries (ls_commands ls))) main_eval \<noteq> None"
    "map_get own_methods (rpc_method req) = None"
  shows "handle_request env renv handlers req ls \<noteq> None"
proof (cases "rpc_params req")
  case None
  then show ?thesis using own_method_names[OF assms(3)] by (simp add: handle_request_def)
next
  case (Some p)
  have "route_request renv (oe_server env) handlers req ls \<noteq> None"
    using assms(2) Some by (simp add: route_request_def Let_def split_beta router_returns[OF assms(1)] del: not_None_eq)
  then show ?thesis using assms(3) Some by (simp add: handle_request_def)
qed


section \<open>A run\<close>

definition sample_own_env where
  "sample_own_env =
     \<lparr>oe_server = run_env,
      oe_view = \<lparr>mv_rules = (\<lambda>m. []), mv_package_text = (\<lambda>m. ''p''), mv_term = (\<lambda>t. ''x''), mv_order = (\<lambda>m. m)\<rparr>,
      oe_builtins = (\<lambda>b. []), oe_oracle = (\<lambda>file offset mods contents. Some (''a.rego'', 3, 1)),
      oe_eval = sample_eval_env, oe_runner = (\<lambda>caps bundles filter. Inr []),
      oe_linter_of = (\<lambda>c i. \<lparr>le_determine_enabled = Inr [], le_prepare = (\<lambda>rs. None),
        le_lint = (\<lambda>rs i. Inr []), le_config = Inr None\<rparr>),
      oe_decoders = \<lparr>dc_document = Inr, dc_position = (\<lambda>s. Inr (s, \<lparr>Line = 0, Character = 0\<rparr>)),
        dc_open = (\<lambda>s. Inr (s, ''q'')), dc_save = (\<lambda>s. Inr None), dc_change = (\<lambda>s. Inr (s, [])), dc_watched = (\<lambda>s. Inr []),
        dc_renames = (\<lambda>s. Inr []), dc_files = (\<lambda>s. Inr [s]),
        dc_execute = (\<lambda>s. Inr \<lparr>xp_command = s, xp_arguments = []\<rparr>), dc_tests = (\<lambda>s. Inr (s, [], [])), dc_trace = Inr\<rparr>,
      oe_close = None\<rparr>"

definition sample_lang_server :: "(unit, unit, nat, string, unit, string \<times> nat, bool) lang_server" where
  "sample_lang_server =
     \<lparr>ls_commands = eval_server.extend (sample_eval_server\<lparr>es_server := new_server run_env sample_config,
        es_queries := sample_query_world\<rparr>) \<lparr>cs_out = []\<rparr>,
      ls_queue = [], ls_pool = [], ls_log = [], ls_level = 1, ls_calls = [], ls_closed = False\<rparr>"

definition sample_opened :: "(unit, unit, nat, string, unit, string \<times> nat, bool) lang_server" where
  "sample_opened = set_server run_opened sample_lang_server"

definition sample_initialize_view :: "unit initialize_view" where
  "sample_initialize_view = \<lparr>iv_uri = (\<lambda>i. ''file:///ws''), iv_client = (\<lambda>i. IdentifierGeneric),
     iv_options = (\<lambda>i. \<lparr>co_formatter = [], co_testing = False\<rparr>), iv_response = (\<lambda>i. ''{}'')\<rparr>"

lemma sample_open_request:
  "handle_request sample_own_env renv handlers
     \<lparr>rpc_method = ''textDocument/didOpen'', rpc_params = Some ''file:///ws/a.rego''\<rparr> sample_lang_server
   = Some (sample_opened, Inr EmptyStruct)"
proof -
  have s: "ls_server sample_lang_server = new_server run_env sample_config"
    by (simp add: sample_lang_server_def ls_server_def eval_server.defs)
  have "handle_own sample_own_env DidOpen
      \<lparr>rpc_method = ''textDocument/didOpen'', rpc_params = Some ''file:///ws/a.rego''\<rparr> sample_lang_server
    = Some (sample_opened, Inr EmptyStruct)"
    by (simp add: handle_own_def with_params_def decode_params_def sample_own_env_def s run_opens handled_def sample_opened_def)
  then show ?thesis by (simp add: handle_request_def own_methods_def)
qed

definition sample_worlds where
  "sample_worlds env renv iv cenv \<longleftrightarrow> env = sample_own_env \<and> renv = sample_router_env
     \<and> iv = sample_initialize_view \<and> cenv = sample_command_env"

lemma sample_worlds_hold:
  "sample_worlds sample_own_env sample_router_env sample_initialize_view sample_command_env"
  by (simp add: sample_worlds_def)

lemma sample_lang_run: "lang_run sample_worlds sample_lang_server sample_opened"
  by (rule lang_request[OF lang_start _ _ sample_open_request]) (simp_all add: sample_worlds_def asks_for_rego_def)

lemma sample_main_query: "cache_get (snd (es_queries (ls_commands sample_lang_server))) main_eval \<noteq> None"
  by code_simp



text \<open>The definition of what is at the start of the opened file, as the oracle answers.\<close>

lemma sample_definition_request:
  "handle_request sample_own_env renv handlers
     \<lparr>rpc_method = ''textDocument/definition'', rpc_params = Some ''file:///ws/a.rego''\<rparr> sample_opened
   = Some (sample_opened, Inr (LocationIs \<lparr>LocURI = ''file:///ws/a.rego'', LocRange = range_between 2 0 2 0\<rparr>))"
proof -
  have s: "ls_server sample_opened = run_opened" by (simp add: sample_opened_def)
  have "handle_definition run_env (\<lambda>file offset mods contents. Some (''a.rego'', 3, 1)) ''file:///ws/a.rego''
      \<lparr>Line = 0, Character = 0\<rparr> run_opened
    = Inr (Some \<lparr>LocURI = ''file:///ws/a.rego'', LocRange = range_between 2 0 2 0\<rparr>)"
    unfolding run_opened_def by code_simp
  then have "handle_own sample_own_env Definition
      \<lparr>rpc_method = ''textDocument/definition'', rpc_params = Some ''file:///ws/a.rego''\<rparr> sample_opened
    = Some (sample_opened, Inr (LocationIs \<lparr>LocURI = ''file:///ws/a.rego'', LocRange = range_between 2 0 2 0\<rparr>))"
    by (simp add: handle_own_def with_params_def decode_params_def sample_own_env_def s)
  then show ?thesis by (simp add: handle_request_def own_methods_def)
qed

theorem asking_keeps_server_witness:
  "\<exists>ls' loc. handle_request sample_own_env sample_router_env
      (server_handlers run_env sample_initialize_view Inl (\<lambda>g. Inr ''[]'') (\<lambda>ts. ts))
      \<lparr>rpc_method = ''textDocument/definition'', rpc_params = Some ''file:///ws/a.rego''\<rparr> sample_opened
        = Some (ls', Inr (LocationIs loc))
    \<and> ls_commands ls' = ls_commands sample_opened"
proof -
  have e: "oe_server sample_own_env = run_env" by (simp add: sample_own_env_def)
  show ?thesis
    using asking_keeps_server[of sample_own_env sample_router_env sample_initialize_view Inl "\<lambda>g. Inr ''[]''" "\<lambda>ts. ts"
        "\<lparr>rpc_method = ''textDocument/definition'', rpc_params = Some ''file:///ws/a.rego''\<rparr>" sample_opened sample_opened,
        unfolded e, OF sample_definition_request]
    by (simp add: sample_definition_request changing_methods_def)
qed

end
