(* ===== verification/Spec2Isabelle.thy ===== *)
theory Spec2Isabelle
  imports Semver Base_Cache Kv_Store Report Uri Diff_Proofs Config_Object Config_Find Rules Fixes_Proofs
    Lsp_Cache Bundle_Cache Fixer_Proofs Linter_Proofs Lsp_Run Lsp_Behaviour Lsp_Workers Config_Modify Reporter Cmd_Lint_Proofs Cmd_Fix_Proofs Roast_Proofs Value_Json Semantic_Tokens Query_Cache Lsp_Router
    Document_Symbol Lsp_Json Lsp_Dispatch
begin

text \<open>
  Regal is a linter, a fixer and a language server for Rego. This library models the part of it that is
  written in Go: what the commands \<open>regal lint\<close> and \<open>regal fix\<close> do from the configuration and the
  files they are given to the exit code and the disk they leave, and how the language server keeps its
  documents, parsed modules and diagnostics in step with the editor. The rules themselves are Rego and are
  evaluated by OPA, which is a parameter throughout.

  How the program's parts work together, and where they are.

  \<^item> \<open>regal lint\<close> (\<open>cmd/lint.go\<close>: Cmd_Lint) looks for a Regal directory and a configuration
    (\<open>pkg/config\<close>: Config for the structure, its merge with the defaults and the choice of Rego versions,
    Config_Find for the search upwards, File_Walk for the walk that leaves out ignored files, Config_Object
    for the value that goes to the rules), reads the files as an input (\<open>pkg/rules\<close>, \<open>internal/parse\<close>:
    Rules), builds a linter and runs it (\<open>pkg/linter\<close>: Linter), which adds up reports (\<open>pkg/report\<close>:
    Report), and prints the report (\<open>pkg/reporter\<close>: Reporter). Its exit code is that of
    \<open>cmd/lint.go\<close> and \<open>cmd/exit.go\<close>.
  \<^item> \<open>regal fix\<close> (\<open>cmd/fix.go\<close>: Cmd_Fix) loads the files into a file provider (\<open>pkg/fixer/fileprovider\<close>:
    File_Provider), runs the fixer on it (\<open>pkg/fixer\<close>: Fixer, Fix_Report), which applies the single fixes
    (\<open>pkg/fixer/fixes\<close>: Fixes) and moves files, and writes the outcome back to a disk (Disk).
  \<^item> The language server (\<open>internal/lsp\<close>) keeps the documents in a cache (\<open>cache/cache.go\<close>: Lsp_Cache)
    over concurrent maps (\<open>pkg/roast/util/concurrent\<close>: Kv_Store), parses and lints them (\<open>lint.go\<close>:
    Lsp_Lint), computes the edits it asks the editor for (\<open>server_command.go\<close>, \<open>diff.go\<close>, \<open>format.go\<close>:
    Lsp_Edits, Diff) and does this in handlers and workers (\<open>server.go\<close>: Lsp_Server, Lsp_Workers). A
    handler, or one round of a worker, is one function on the record \<open>server\<close>. Lsp_Run makes the step
    relation of them, with its runs. \<open>Handle\<close>, the way of a request into all this, is in Lsp_Dispatch: it
    decodes parameters, serves some methods itself, answers questions about definitions and symbols
    (\<open>documentsymbol\<close>: Document_Symbol), puts commands on a queue and leaves the rest to the router, whose
    answers for \<open>initialize\<close>, \<open>initialized\<close> and semantic tokens (\<open>semantictokens\<close>: Semantic_Tokens) come back to
    it. The router (\<open>rego/router.go\<close>, \<open>rego/rego.go\<close>: Lsp_Router) builds the input of the policies and
    evaluates a prepared query (\<open>rego/query\<close>: Query_Cache). The worker of the commands (\<open>server_command.go\<close>,
    \<open>internal/explorer\<close>: Lsp_Commands) fixes, renames and configures, evaluates (\<open>eval.go\<close>: Lsp_Eval) and
    generates tests (\<open>testgen\<close>: Test_Gen); edits and messages are written as JSON by hand (\<open>types\<close>,
    \<open>workspace\<close>, \<open>window\<close>: Lsp_Json). Lsp_Types, Uri, Input_Manager, Bundle_Cache, Config_Modify and
    Base_Cache hold the parts of it that stand alone.
  \<^item> Modules reach the rules as values: \<open>internal/roast/encoding\<close> writes them as JSON and
    \<open>internal/roast/transforms/module\<close> makes the same value without JSON (Roast_Ast, Roast_Encode; Roast_Json
    reads the tokens back, and Roast_Proofs compares the two); \<open>pkg/roast/encoding/json.go\<close> writes and
    reads such values (Value_Json); the
    helpers are those of \<open>pkg/roast/rast\<close> (Rast) and \<open>internal/util\<close> (Go_Util). Semver models
    \<open>internal/semver\<close>.
  \<^item> Go_Prelude, Go_Strings and Go_Filepath are the prelude: slices and their panics, maps, the used part
    of \<open>strings\<close> and of \<open>path/filepath\<close> on Unix.

  How the code is read. A struct is a record, a tagged union a datatype; an error is \<^const>\<open>Inl\<close> and a panic
  \<^const>\<open>None\<close>; a map is an association list, and where the order of its iteration can be seen it is
  a parameter, so that a theorem holds for every order. Strings are lists of bytes. A loop that may
  not end is a partial function into \<^typ>\<open>'a option\<close>, where \<^const>\<open>None\<close> is that it does not return: no fuel is
  used anywhere but for the search of an edit script and for the tokens of a JSON text, where the bound is part
  of the code or shown to suffice. Integers are \<^typ>\<open>int\<close> where the code only counts and indexes, and of
  64 bits where they wrap. Third-party code (OPA's parser, formatter, compiler and evaluator, YAML, the glob
  matcher, the libraries of the reporters) is a function in an environment record; what is assumed of
  it is in the premises of a theorem, each with a witness.

  The interfaces. \<open>kv_store\<close> is what a client may rely on in a map of the server (interpreted on the concurrent
  map and on the server's cache), \<open>file_provider\<close> what the fixer needs of a provider (interpreted on the
  in-memory provider), \<open>provider_law\<close> an invariant that every operation of a provider keeps and
  hence the whole fixer (a sublocale of \<open>file_provider\<close>, interpreted for the set of files that a run tracks
  and, in \<open>server_cache_law\<close>, for the cache of the server), and \<open>server_cache_law\<close> an invariant that the
  operations on the cache keep and hence every run of the server.

  What the theorems show, in short: edit scripts are correct and shortest, and the text edits made of them give
  the new text (Diff_Proofs); versions print and parse, are compared as the specification says, and two of
  them are compared for ever (Semver); the base cache is a map with a shortest-prefix lookup (Base_Cache); the
  files that are linted are the ones walked and not ignored, the configuration is the closest one, and only removable
  directories are removed (File_Walk, Config_Find); fixes do not panic, except three of them, and cut what
  they are told to (Fixes_Proofs); the fixer ends, loses no file and counts what it does (Fixer_Proofs);
  the report does not depend on the scheduler and its summary is true (Linter_Proofs); the disk after
  \<open>regal fix\<close> is what the provider held, or untouched (Cmd_Fix_Proofs); what the server knows of a document is
  known with its text in every state reached, updates are not lost, and configuration changes split the documents
  as they should, or not (Lsp_Run, Lsp_Workers, Lsp_Behaviour); setting a key of a configuration changes what
  is read at that path only (Config_Modify). What the encoders write is JSON and stands for the value made
  without it (Roast_Proofs), values and edits that are written are read back (Value_Json, Lsp_Json), and so are
  the relative tokens of the editor (Semantic_Tokens); transactions of the store are ended (Query_Cache); reusing
  input objects in the router cannot be seen (Lsp_Router); each rule has its symbol (Document_Symbol); an
  evaluation writes what it may, and the input it offers has what the rule needs, also for the test that is
  generated (Lsp_Eval, Test_Gen); commands change what they should (Lsp_Commands). Over all of the server, every
  series of requests, commands and workers is a run of the step relation, requests that ask change nothing, and
  routed requests return in every state reached (Lsp_Dispatch). Several theorems record behaviour that the code does not
  mean to have; they are listed as findings beside the library.

  Not modelled: the command line, the terminal and the log; timers, metrics and profiles of the process; the JSON-RPC
  connection; the debug adapter; how queries are evaluated and tests are run, which is OPA's; the web server and the check for updates; the rules, which are Rego.
\<close>

end
